(* ===== verification/Prelude.thy ===== *)
theory Prelude
  imports Main "HOL-Library.Word" "HOL-Library.List_Lexorder" "HOL-Library.Sublist"
    "HOL-Library.Multiset"
begin

text \<open>
  What the components share: the character and string types of the program, the substring
  search and erasure of \<^verbatim>\<open>std::wstring\<close> and \<^verbatim>\<open>CString\<close>, the longest-common-subsequence
  table that two components fill with the same loop, the Fowler-Noll-Vo hash step, and the
  collections of rewrite rules the component proofs use.

  A \<^verbatim>\<open>wchar_t\<close> of the Windows build is a 16-bit code unit, a \<^verbatim>\<open>char\<close> a byte, and both kinds
  of string are lists compared lexicographically by unsigned code unit, as
  \<^verbatim>\<open>std::char_traits\<close> and \<^verbatim>\<open>wcscmp\<close> do.
\<close>

unbundle bit_operations_syntax

type_synonym wchar = "16 word"
type_synonym wstr = "wchar list"
type_synonym byte = "8 word"
type_synonym bytes = "byte list"
type_synonym dword = "32 word"
type_synonym u64 = "64 word"

named_theorems state_simps \<open>unfolding rules of the stateful components\<close>
named_theorems text_simps \<open>rewrite rules about substring search and erasure\<close>

subsection \<open>Bytes as numbers\<close>

lemma unat_byte [simp]: "n < 256 \<Longrightarrow> unat (word_of_nat n :: byte) = n"
  by (simp add: unat_of_nat)

lemma byte_less_nat: "(a :: byte) < b \<longleftrightarrow> unat a < unat b" "a \<le> b \<longleftrightarrow> unat a \<le> unat b"
  by (simp_all add: word_less_nat_alt word_le_nat_alt)

lemma byte_eq_nat: "(a :: byte) = b \<longleftrightarrow> unat a = unat b"
  by (metis word_unat_eq_iff)

lemmas byte_nat = byte_less_nat byte_eq_nat

subsection \<open>Character classification of the C runtime\<close>

text \<open>
  The wide-character functions of the C runtime depend on the locale and on the tables of the
  operating system, so a model that uses them takes them as a record of functions.
\<close>

record crt =
  iswspace :: "wchar \<Rightarrow> bool"
  iswalnum :: "wchar \<Rightarrow> bool"
  iswdigit :: "wchar \<Rightarrow> bool"
  towupper :: "wchar \<Rightarrow> wchar"
  towlower :: "wchar \<Rightarrow> wchar"

definition ascii_upper :: "wchar \<Rightarrow> wchar" where
  "ascii_upper c = (if 0x61 \<le> c \<and> c \<le> 0x7A then c - 0x20 else c)"

definition ascii_lower :: "wchar \<Rightarrow> wchar" where
  "ascii_lower c = (if 0x41 \<le> c \<and> c \<le> 0x5A then c + 0x20 else c)"

definition ascii_digit :: "wchar \<Rightarrow> bool" where
  "ascii_digit c \<longleftrightarrow> 0x30 \<le> c \<and> c \<le> 0x39"

definition ascii_space :: "wchar \<Rightarrow> bool" where
  "ascii_space c \<longleftrightarrow> c = 0x20 \<or> (9 \<le> c \<and> c \<le> 13)"

text \<open>The functions restricted to ASCII, the instance the examples are evaluated with.\<close>

definition ascii_crt :: crt where
  "ascii_crt = \<lparr> iswspace = ascii_space,
     iswalnum = (\<lambda>c. ascii_digit c \<or> (0x41 \<le> c \<and> c \<le> 0x5A) \<or> (0x61 \<le> c \<and> c \<le> 0x7A)),
     iswdigit = ascii_digit, towupper = ascii_upper, towlower = ascii_lower \<rparr>"

lemma ascii_crt_sel [simp]:
  "iswspace ascii_crt = ascii_space" "iswdigit ascii_crt = ascii_digit"
  "towupper ascii_crt = ascii_upper" "towlower ascii_crt = ascii_lower"
  by (simp_all add: ascii_crt_def)

lemma ascii_upper_idem [simp]: "ascii_upper (ascii_upper c) = ascii_upper c"
proof (cases "0x61 \<le> c \<and> c \<le> 0x7A")
  case True
  then have b: "97 \<le> unat c" "unat c \<le> 122" by (simp_all add: word_le_nat_alt)
  then have "unat (c - 0x20) = unat c - 32" by (simp add: unat_sub word_le_nat_alt)
  then have "\<not> 0x61 \<le> c - 0x20" using b by (simp add: word_le_nat_alt)
  moreover have "ascii_upper c = c - 0x20"
    unfolding ascii_upper_def using True by (rule if_P)
  ultimately show ?thesis by (simp only: ascii_upper_def [of "c - 0x20"]) simp
next
  case False
  then have "ascii_upper c = c" unfolding ascii_upper_def by (rule if_not_P)
  then show ?thesis by simp
qed

subsection \<open>Substring search\<close>

text \<open>
  \<open>find_sub w s\<close> is \<^verbatim>\<open>s.find(w)\<close>: the first position where \<open>w\<close> occurs, \<open>None\<close> for \<^verbatim>\<open>npos\<close> (or
  \<open>-1\<close> from \<^verbatim>\<open>CString::Find\<close>).
\<close>

fun find_sub :: "'a list \<Rightarrow> 'a list \<Rightarrow> nat option" where
  "find_sub w [] = (if w = [] then Some 0 else None)"
| "find_sub w (c # s) = (if prefix w (c # s) then Some 0 else map_option Suc (find_sub w s))"

definition contains :: "'a list \<Rightarrow> 'a list \<Rightarrow> bool" where
  "contains s w \<longleftrightarrow> find_sub w s \<noteq> None"

lemma find_sub_Some:
  "find_sub w s = Some p \<Longrightarrow> p + length w \<le> length s \<and> take (length w) (drop p s) = w"
proof (induction w s arbitrary: p rule: find_sub.induct)
  case (1 w)
  then show ?case by (simp split: if_splits)
next
  case (2 w c s)
  show ?case
  proof (cases "prefix w (c # s)")
    case True
    with "2.prems" have "p = 0" by simp
    moreover obtain t where "c # s = w @ t" using True by (auto elim: prefixE)
    then have "length w \<le> length (c # s)" "take (length w) (c # s) = w" by simp_all
    ultimately show ?thesis by simp
  next
    case False
    with "2.prems" obtain q where "find_sub w s = Some q" "p = Suc q" by auto
    with "2.IH" [OF False] show ?thesis by auto
  qed
qed

lemma find_sub_None: "find_sub w s = None \<longleftrightarrow> \<not> sublist w s"
  by (induction w s rule: find_sub.induct) (auto simp: sublist_Cons_right)

lemma find_sub_first:
  "find_sub w s = Some p \<Longrightarrow> q < p \<Longrightarrow> \<not> prefix w (drop q s)"
proof (induction w s arbitrary: p q rule: find_sub.induct)
  case (1 w)
  then show ?case by (simp split: if_splits)
next
  case (2 w c s)
  show ?case
  proof (cases "prefix w (c # s)")
    case True
    with "2.prems" show ?thesis by auto
  next
    case False
    with "2.prems" obtain r where r: "find_sub w s = Some r" "p = Suc r" by auto
    show ?thesis
    proof (cases q)
      case 0
      with False show ?thesis by simp
    next
      case (Suc n)
      with "2.IH" [OF False r(1), of n] "2.prems"(2) r(2) show ?thesis by simp
    qed
  qed
qed

lemma contains_sublist [text_simps]: "contains s w \<longleftrightarrow> sublist w s"
  by (simp add: contains_def find_sub_None)

lemma contains_self [simp]: "contains s s"
  by (simp add: contains_sublist)

lemma contains_length: "contains s w \<Longrightarrow> length w \<le> length s"
  by (simp add: contains_sublist sublist_length_le)

subsection \<open>Erasing every occurrence\<close>

text \<open>
  The loop \<^verbatim>\<open>while ((pos = s.find(w)) != npos) s.erase(pos, w.length())\<close>. Every word it is used
  with is non-empty, which is what makes it stop; the guard keeps the equation total.
\<close>

function erase_all :: "'a list \<Rightarrow> 'a list \<Rightarrow> 'a list" where
  "erase_all w s = (if w = [] then s else
     (case find_sub w s of None \<Rightarrow> s
      | Some p \<Rightarrow> erase_all w (take p s @ drop (p + length w) s)))"
  by pat_completeness auto
termination
proof (relation "measure (\<lambda>(w, s). length s)", goal_cases)
  case 1
  then show ?case by simp
next
  case (2 w s p)
  then have "p + length w \<le> length s" using find_sub_Some by blast
  moreover have "0 < length w" using 2(1) by simp
  ultimately have "length s - length w < length s" by linarith
  with \<open>p + length w \<le> length s\<close> show ?case by simp
qed

declare erase_all.simps [simp del]

lemma erase_all_free: "w \<noteq> [] \<Longrightarrow> \<not> sublist w (erase_all w s)"
proof (induction w s rule: erase_all.induct)
  case (1 w s)
  then show ?case
    by (subst erase_all.simps) (auto split: option.splits simp: find_sub_None)
qed

lemma erase_all_subseq: "subseq (erase_all w s) s"
proof (induction w s rule: erase_all.induct)
  case (1 w s)
  show ?case
  proof (cases "w = [] \<or> find_sub w s = None")
    case True
    then show ?thesis by (subst erase_all.simps) auto
  next
    case False
    then obtain p where p: "w \<noteq> []" "find_sub w s = Some p" by auto
    have "suffix (drop (length w) (drop p s)) (drop p s)"
      by (rule suffix_drop)
    then have "subseq (drop (p + length w) s) (drop p s)"
      by (simp add: suffix_imp_subseq add.commute)
    then have "subseq (take p s @ drop (p + length w) s) (take p s @ drop p s)"
      by (intro list_emb_append_mono) simp_all
    then have "subseq (take p s @ drop (p + length w) s) s" by simp
    moreover have "erase_all w s = erase_all w (take p s @ drop (p + length w) s)"
      using p by (subst erase_all.simps) simp
    ultimately show ?thesis
      using "1.IH" [OF p(1) p(2)] subseq_order.trans by metis
  qed
qed

lemma erase_all_length: "length (erase_all w s) \<le> length s"
  using erase_all_subseq list_emb_length by blast

lemma erase_all_id: "\<not> sublist w s \<Longrightarrow> erase_all w s = s"
  by (subst erase_all.simps) (simp add: find_sub_None [THEN iffD2])

subsection \<open>Trimming\<close>

text \<open>Dropping the characters of a class from both ends, as every \<^verbatim>\<open>Trim\<close> of the program does.\<close>

definition trim_by :: "('a \<Rightarrow> bool) \<Rightarrow> 'a list \<Rightarrow> 'a list" where
  "trim_by P s = rev (dropWhile P (rev (dropWhile P s)))"

lemma trim_by_length: "length (trim_by P s) \<le> length s"
  unfolding trim_by_def by (metis length_dropWhile_le length_rev order_trans)

lemma trim_by_id: "s = [] \<or> \<not> P (hd s) \<and> \<not> P (last s) \<Longrightarrow> trim_by P s = s"
proof (cases s rule: rev_cases)
  case (snoc t x)
  assume "s = [] \<or> \<not> P (hd s) \<and> \<not> P (last s)"
  with snoc have h: "\<not> P (hd s)" "\<not> P x" "s \<noteq> []" by simp_all
  then have "dropWhile P s = s" by (cases s) auto
  with snoc h show ?thesis by (simp add: trim_by_def)
qed (simp add: trim_by_def)

lemma trim_by_ends: "trim_by P s = [] \<or> \<not> P (hd (trim_by P s)) \<and> \<not> P (last (trim_by P s))"
proof (cases "dropWhile P s")
  case (Cons a t)
  have a: "\<not> P a" using Cons hd_dropWhile [of P s] by simp
  then have "dropWhile P (rev (a # t)) = dropWhile P (rev t) @ [a]" by (simp add: dropWhile_append3)
  moreover have "trim_by P s = rev (dropWhile P (rev (a # t)))" by (simp add: trim_by_def Cons)
  ultimately have u: "trim_by P s = a # rev (dropWhile P (rev t))" by simp
  show ?thesis
  proof (cases "dropWhile P (rev t)")
    case (Cons b r)
    then have "\<not> P b" using hd_dropWhile [of P "rev t"] by simp
    with u Cons a show ?thesis by simp
  qed (simp add: u a)
next
  case Nil
  then show ?thesis by (simp only: trim_by_def) simp
qed

lemma trim_by_idem [simp]: "trim_by P (trim_by P s) = trim_by P s"
  using trim_by_id trim_by_ends by metis

lemma trim_by_Nil [simp]: "trim_by P [] = []"
  by (simp add: trim_by_def)

lemma keeps_if: "(c \<Longrightarrow> P a) \<Longrightarrow> (\<not> c \<Longrightarrow> P b) \<Longrightarrow> P (if c then a else b)"
  by simp

lemma fold_keeps:
  "(\<And>x s. x \<in> set xs \<Longrightarrow> P s \<Longrightarrow> P (f x s)) \<Longrightarrow> P s \<Longrightarrow> P (fold f xs s)"
  by (induction xs arbitrary: s) auto

subsection \<open>The longest-common-subsequence table\<close>

text \<open>
  The two matchers fill a table \<^verbatim>\<open>dp\<close> row by row: \<^verbatim>\<open>dp[i][j]\<close> is \<^verbatim>\<open>dp[i-1][j-1] + 1\<close> where the
  characters agree and the larger of its upper and left neighbours otherwise. A row is a list of
  \<^verbatim>\<open>m + 1\<close> numbers; \<open>lcs_cells\<close> computes one row from the row above and the cell to its left.
\<close>

fun lcs_cells :: "'a \<Rightarrow> 'a list \<Rightarrow> nat list \<Rightarrow> nat \<Rightarrow> nat list" where
  "lcs_cells c (y # ys) (d # u # up) l =
     (let v = (if c = y then d + 1 else max u l) in v # lcs_cells c ys (u # up) v)"
| "lcs_cells c _ _ l = []"

definition lcs_row :: "'a list \<Rightarrow> 'a \<Rightarrow> nat list \<Rightarrow> nat list" where
  "lcs_row ys c up = 0 # lcs_cells c ys up 0"

definition lcs_table :: "'a list \<Rightarrow> 'a list \<Rightarrow> nat list" where
  "lcs_table xs ys = foldl (\<lambda>up c. lcs_row ys c up) (replicate (length ys + 1) 0) xs"

definition lcs_len :: "'a list \<Rightarrow> 'a list \<Rightarrow> nat" where
  "lcs_len xs ys = last (lcs_table xs ys)"

text \<open>The recurrence the table tabulates, on reversed prefixes.\<close>

fun lcs_rec :: "'a list \<Rightarrow> 'a list \<Rightarrow> nat" where
  "lcs_rec [] ys = 0"
| "lcs_rec xs [] = 0"
| "lcs_rec (x # xs) (y # ys) =
     (if x = y then lcs_rec xs ys + 1 else max (lcs_rec xs (y # ys)) (lcs_rec (x # xs) ys))"

lemma lcs_rec_Nil2 [simp]: "lcs_rec xs [] = 0"
  by (cases xs) auto

lemma lcs_cells_rec:
  assumes "up = map (\<lambda>j. lcs_rec xs (rev (take j ys))) [k..<length ys + 1]"
    and "k \<le> length ys" and "l = lcs_rec (c # xs) (rev (take k ys))"
  shows "lcs_cells c (drop k ys) up l =
    map (\<lambda>j. lcs_rec (c # xs) (rev (take j ys))) [Suc k..<length ys + 1]"
  using assms
proof (induction "length ys - k" arbitrary: k up l)
  case 0
  then show ?case by (cases up) auto
next
  case (Suc n)
  then have k: "k < length ys" by simp
  then obtain y where d: "drop k ys = y # drop (Suc k) ys" and y: "y = ys ! k"
    by (metis Cons_nth_drop_Suc)
  have up: "up = lcs_rec xs (rev (take k ys)) # lcs_rec xs (rev (take (Suc k) ys)) #
      map (\<lambda>j. lcs_rec xs (rev (take j ys))) [Suc (Suc k)..<length ys + 1]"
    using Suc.prems(1) k by (simp add: upt_conv_Cons)
  have t: "rev (take (Suc k) ys) = y # rev (take k ys)"
    using k y by (simp add: take_Suc_conv_app_nth)
  define v where "v = lcs_rec (c # xs) (rev (take (Suc k) ys))"
  have v: "(if c = y then lcs_rec xs (rev (take k ys)) + 1
      else max (lcs_rec xs (rev (take (Suc k) ys))) l) = v"
    unfolding v_def using t Suc.prems(3) by simp
  have "lcs_cells c (drop (Suc k) ys)
      (map (\<lambda>j. lcs_rec xs (rev (take j ys))) [Suc k..<length ys + 1]) v =
    map (\<lambda>j. lcs_rec (c # xs) (rev (take j ys))) [Suc (Suc k)..<length ys + 1]"
    using Suc.hyps(2) k by (intro Suc.hyps(1)) (auto simp: v_def)
  moreover have "map (\<lambda>j. lcs_rec xs (rev (take j ys))) [Suc k..<length ys + 1] =
      lcs_rec xs (rev (take (Suc k) ys)) #
      map (\<lambda>j. lcs_rec xs (rev (take j ys))) [Suc (Suc k)..<length ys + 1]"
    using k by (simp add: upt_conv_Cons)
  ultimately show ?case using d up v k by (simp add: upt_conv_Cons v_def)
qed

lemma lcs_table_rec:
  "lcs_table xs ys = map (\<lambda>j. lcs_rec (rev xs) (rev (take j ys))) [0..<length ys + 1]"
proof (induction xs rule: rev_induct)
  case Nil
  then show ?case by (simp add: lcs_table_def map_replicate_const flip: replicate_append_same)
next
  case (snoc x xs)
  have "lcs_table (xs @ [x]) ys = 0 # lcs_cells x (drop 0 ys) (lcs_table xs ys) 0"
    by (simp add: lcs_table_def lcs_row_def)
  also have "\<dots> = 0 # map (\<lambda>j. lcs_rec (x # rev xs) (rev (take j ys))) [Suc 0..<length ys + 1]"
    by (subst lcs_cells_rec [where xs = "rev xs"]) (simp_all add: snoc)
  finally show ?case by (simp add: upt_conv_Cons del: upt_Suc)
qed

lemma lcs_len_rec: "lcs_len xs ys = lcs_rec (rev xs) (rev ys)"
  by (simp add: lcs_len_def lcs_table_rec)

lemma lcs_rec_upper: "subseq z xs \<Longrightarrow> subseq z ys \<Longrightarrow> length z \<le> lcs_rec xs ys"
proof (induction xs ys arbitrary: z rule: lcs_rec.induct)
  case (3 x xs y ys)
  show ?case
  proof (cases z)
    case (Cons a z')
    show ?thesis
    proof (cases "x = y")
      case True
      have "subseq z' xs" "subseq z' ys"
        using "3.prems" Cons by (metis subseq_Cons' subseq_Cons2_iff)+
      with True "3.IH"(1) [of z'] Cons show ?thesis by simp
    next
      case False
      with "3.prems" Cons have "subseq z xs \<or> subseq z ys"
        by (metis subseq_Cons2_neq)
      then show ?thesis using False "3.IH"(2,3) "3.prems" by (fastforce simp: max_def)
    qed
  qed simp
qed auto

lemma lcs_rec_attained: "\<exists>z. subseq z xs \<and> subseq z ys \<and> length z = lcs_rec xs ys"
proof (induction xs ys rule: lcs_rec.induct)
  case (3 x xs y ys)
  show ?case
  proof (cases "x = y")
    case True
    with "3.IH"(1) obtain z where "subseq z xs" "subseq z ys" "length z = lcs_rec xs ys" by auto
    with True show ?thesis by (intro exI [of _ "x # z"]) simp
  next
    case False
    with "3.IH"(2,3) show ?thesis by (auto simp: max_def intro: list_emb_Cons)
  qed
qed auto

lemma subseq_rev_iff: "subseq (rev xs) (rev ys) \<longleftrightarrow> subseq xs ys"
proof -
  have "subseq (rev as) (rev bs)" if "subseq as bs" for as bs :: "'a list"
    using that by (induction rule: list_emb.induct) (auto intro: list_emb_append_mono)
  from this [of xs ys] this [of "rev xs" "rev ys"] show ?thesis by auto
qed

text \<open>The last cell of the table is the length of a longest common subsequence.\<close>

lemma lcs_len_upper: "subseq z xs \<Longrightarrow> subseq z ys \<Longrightarrow> length z \<le> lcs_len xs ys"
  unfolding lcs_len_rec
  by (metis length_rev lcs_rec_upper subseq_rev_iff)

lemma lcs_len_attained: "\<exists>z. subseq z xs \<and> subseq z ys \<and> length z = lcs_len xs ys"
  unfolding lcs_len_rec
  using lcs_rec_attained [of "rev xs" "rev ys"] subseq_rev_iff
  by (metis length_rev rev_rev_ident)

lemma lcs_len_le1: "lcs_len xs ys \<le> length xs"
  using lcs_len_attained [of xs ys] list_emb_length by metis

lemma lcs_len_le2: "lcs_len xs ys \<le> length ys"
  using lcs_len_attained [of xs ys] list_emb_length by metis

lemma lcs_len_sym: "lcs_len xs ys = lcs_len ys xs"
proof (rule antisym)
  show "lcs_len xs ys \<le> lcs_len ys xs"
    using lcs_len_attained [of xs ys] lcs_len_upper by metis
  show "lcs_len ys xs \<le> lcs_len xs ys"
    using lcs_len_attained [of ys xs] lcs_len_upper by metis
qed
    
lemma lcs_len_self [simp]: "lcs_len xs xs = length xs"
  by (meson lcs_len_le1 lcs_len_upper le_antisym subseq_order.refl)

end
