(* ===== verification/Binary64.thy ===== *)
theory Binary64
  imports Complex_Main "HOL-Library.Log_Nat"
begin

text \<open>
  The \<^verbatim>\<open>double\<close> arithmetic of the scoring code. A finite double is a rational number, and each
  operation of IEEE 754 binary64 is the exact operation followed by \<open>dbl\<close>, rounding to the
  nearest representable number with ties to even: 53 significant bits, gradual underflow below
  \<open>2 ^ (-1022)\<close>. Overflow does not arise, because every value of the code is below \<open>2 ^ 40\<close> in
  magnitude. \<open>dbl\<close> is monotone and leaves the integers below \<open>2 ^ 53\<close> alone; those are the two
  facts the score proofs use. \<open>trunc\<close> is the conversion of a double to an integer type.
\<close>

definition rne :: "rat \<Rightarrow> int" where
  "rne x = (let f = \<lfloor>x\<rfloor>; r = x - of_int f in
     if r < 1/2 then f else if r > 1/2 then f + 1 else if even f then f else f + 1)"

definition dexp :: "rat \<Rightarrow> int" where
  "dexp x = (let q = quotient_of \<bar>x\<bar>; k = bitlen (fst q) - bitlen (snd q) in
     (if 2 powi k \<le> \<bar>x\<bar> then k else k - 1) - 52)"

definition ulp_exp :: "rat \<Rightarrow> int" where
  "ulp_exp x = max (dexp x) (- 1074)"

definition dbl :: "rat \<Rightarrow> rat" where
  "dbl x = (if x = 0 then 0 else of_int (rne (x / 2 powi (ulp_exp x))) * 2 powi (ulp_exp x))"

definition trunc :: "rat \<Rightarrow> int" where
  "trunc x = (if 0 \<le> x then \<lfloor>x\<rfloor> else \<lceil>x\<rceil>)"

subsection \<open>Rounding to an integer\<close>

lemma rne_of_int [simp]: "rne (of_int n) = n"
  by (simp add: rne_def)

lemma rne_bounds: "x - 1/2 \<le> of_int (rne x)" "of_int (rne x) \<le> x + 1/2"
  by (auto simp: rne_def Let_def) linarith+

lemma rne_mono: "x \<le> y \<Longrightarrow> rne x \<le> rne y"
proof -
  assume xy: "x \<le> y"
  show ?thesis
  proof (cases "\<lfloor>x\<rfloor> = \<lfloor>y\<rfloor>")
    case True
    with xy show ?thesis by (auto simp: rne_def Let_def)
  next
    case False
    with xy have "\<lfloor>x\<rfloor> + 1 \<le> \<lfloor>y\<rfloor>" using floor_mono [OF xy] by linarith
    then show ?thesis by (auto simp: rne_def Let_def)
  qed
qed

lemma rne_minus: "rne (- x) = - rne x"
proof (cases "x = of_int \<lfloor>x\<rfloor>")
  case True
  then have "rne (- x) = rne (of_int (- \<lfloor>x\<rfloor>))" "rne x = rne (of_int \<lfloor>x\<rfloor>)" by simp_all
  then show ?thesis by (simp only: rne_of_int)
next
  case False
  then have "of_int \<lfloor>x\<rfloor> < x" using of_int_floor_le [of x] by linarith
  then have "\<lfloor>- x\<rfloor> = - \<lfloor>x\<rfloor> - 1" by (subst floor_eq_iff) (simp, linarith)
  then show ?thesis by (auto simp: rne_def Let_def)
qed

subsection \<open>The exponent\<close>

lemma dexp_bounds:
  assumes "x \<noteq> 0"
  shows "2 powi (dexp x + 52) \<le> \<bar>x\<bar>" and "\<bar>x\<bar> < 2 powi (dexp x + 53)"
proof -
  obtain n d where q: "quotient_of \<bar>x\<bar> = (n, d)" by (cases "quotient_of \<bar>x\<bar>")
  have d: "0 < d" using quotient_of_denom_pos [OF q] .
  have x: "\<bar>x\<bar> = of_int n / of_int d" using quotient_of_div [OF q] .
  have "0 < rat_of_int n / rat_of_int d" using assms by (simp flip: x)
  then have n: "0 < n" using d by (simp add: zero_less_divide_iff)
  define k where "k = bitlen n - bitlen d"
  have bn: "2 ^ nat (bitlen n - 1) \<le> n" "n < 2 ^ nat (bitlen n)"
    and bd: "2 ^ nat (bitlen d - 1) \<le> d" "d < 2 ^ nat (bitlen d)"
    using bitlen_bounds [OF n] bitlen_bounds [OF d] by simp_all
  have gn: "1 \<le> bitlen n" and gd: "1 \<le> bitlen d"
    using bitlen_ge_iff_power [of 1 n] bitlen_ge_iff_power [of 1 d] n d by simp_all
  have p: "(2::rat) ^ nat e = 2 powi e" if "0 \<le> e" for e
    using that by (simp add: power_int_def)
  have Bn: "(2::rat) powi (bitlen n - 1) \<le> of_int n" "of_int n < (2::rat) powi (bitlen n)"
    using bn gn by (simp_all flip: p)
  have Bd: "(2::rat) powi (bitlen d - 1) \<le> of_int d" "of_int d < (2::rat) powi (bitlen d)"
    using bd gd by (simp_all flip: p)
  have lo: "2 powi (k - 1) < \<bar>x\<bar>"
  proof -
    have "(2::rat) powi (k - 1) * of_int d < 2 powi (k - 1) * 2 powi (bitlen d)"
      using Bd(2) by (intro mult_strict_left_mono) simp_all
    also have "\<dots> = 2 powi (bitlen n - 1)" by (simp add: k_def flip: power_int_add)
    finally show ?thesis using Bn(1) d by (simp add: x less_divide_eq)
  qed
  have hi: "\<bar>x\<bar> < 2 powi (k + 1)"
  proof -
    have "(2::rat) powi (bitlen n) = 2 powi (k + 1) * 2 powi (bitlen d - 1)"
      by (simp add: k_def flip: power_int_add)
    also have "\<dots> \<le> 2 powi (k + 1) * of_int d"
      using Bd(1) by (intro mult_left_mono) simp_all
    finally show ?thesis using Bn(2) d by (simp add: x divide_less_eq)
  qed
  have e: "dexp x = (if 2 powi k \<le> \<bar>x\<bar> then k else k - 1) - 52"
    by (simp add: dexp_def q k_def Let_def)
  show "2 powi (dexp x + 52) \<le> \<bar>x\<bar>" using lo by (simp add: e)
  show "\<bar>x\<bar> < 2 powi (dexp x + 53)" using hi by (simp add: e add.commute)
qed

lemma powi2_less_cancel: "(2::rat) powi a < 2 powi b \<Longrightarrow> a < b"
  by (meson linorder_not_less one_le_numeral power_int_increasing)

lemma dexp_mono:
  assumes "0 < x" "x \<le> y"
  shows "dexp x \<le> dexp y"
proof -
  have "(2::rat) powi (dexp x + 52) < 2 powi (dexp y + 53)"
    using dexp_bounds [of x] dexp_bounds [of y] assms by simp
  then show ?thesis using powi2_less_cancel by fastforce
qed

subsection \<open>Rounding to a double\<close>

lemma dbl_0 [simp]: "dbl 0 = 0"
  by (simp add: dbl_def)

lemma dexp_minus [simp]: "dexp (- x) = dexp x"
  by (simp add: dexp_def)

lemma dbl_minus: "dbl (- x) = - dbl x"
  by (simp add: dbl_def ulp_exp_def rne_minus)

lemma dbl_nonneg: "0 \<le> x \<Longrightarrow> 0 \<le> dbl x"
proof -
  assume "0 \<le> x"
  then have "rne 0 \<le> rne (x / 2 powi (ulp_exp x))" by (intro rne_mono) simp
  then show ?thesis using rne_of_int [of 0] by (simp add: dbl_def)
qed

lemma dbl_mono_pos:
  assumes "0 < x" "x \<le> y"
  shows "dbl x \<le> dbl y"
proof (cases "ulp_exp x = ulp_exp y")
  case True
  have "rne (x / 2 powi (ulp_exp y)) \<le> rne (y / 2 powi (ulp_exp y))"
    using assms by (intro rne_mono divide_right_mono) simp_all
  then show ?thesis using assms True by (simp add: dbl_def)
next
  case False
  let ?a = "ulp_exp x" and ?b = "ulp_exp y"
  have ab: "?a < ?b" and b: "?b = dexp y"
    using False dexp_mono [OF assms] by (auto simp: ulp_exp_def)
  have "x < 2 powi (dexp x + 53)" using dexp_bounds [of x] assms by simp
  also have "\<dots> \<le> 2 powi (53 + ?a)" by (intro power_int_increasing) (simp_all add: ulp_exp_def)
  finally have "x / 2 powi ?a \<le> of_int (2 ^ 53)" by (simp add: power_int_add divide_le_eq)
  then have "rne (x / 2 powi ?a) \<le> 2 ^ 53" using rne_mono rne_of_int by metis
  then have "dbl x \<le> of_int (2 ^ 53) * 2 powi ?a"
    using assms unfolding dbl_def by (auto intro!: mult_right_mono simp del: of_int_power)
  also have "\<dots> = 2 powi (53 + ?a)" by (simp add: power_int_add)
  also have "\<dots> \<le> 2 powi (52 + ?b)" using ab by (intro power_int_increasing) simp_all
  also have "\<dots> = of_int (2 ^ 52) * 2 powi ?b" by (simp add: power_int_add)
  also have "\<dots> \<le> dbl y"
  proof -
    have "2 powi (52 + ?b) \<le> y" using dexp_bounds [of y] assms b by (simp add: add.commute)
    then have "of_int (2 ^ 52) \<le> y / 2 powi ?b" by (simp add: power_int_add le_divide_eq)
    then have "2 ^ 52 \<le> rne (y / 2 powi ?b)" using rne_mono rne_of_int by metis
    then show ?thesis
      using assms unfolding dbl_def by (auto intro!: mult_right_mono simp del: of_int_power)
  qed
  finally show ?thesis .
qed

lemma dbl_mono: "x \<le> y \<Longrightarrow> dbl x \<le> dbl y"
proof -
  assume xy: "x \<le> y"
  consider "0 < x" | "x \<le> 0" "0 \<le> y" | "y < 0" by linarith
  then show ?thesis
  proof cases
    case 1
    with xy show ?thesis by (simp add: dbl_mono_pos)
  next
    case 2
    then have "0 \<le> dbl (- x)" by (intro dbl_nonneg) simp
    moreover have "0 \<le> dbl y" using 2 by (intro dbl_nonneg)
    ultimately show ?thesis by (simp add: dbl_minus)
  next
    case 3
    then have "dbl (- y) \<le> dbl (- x)" using xy by (intro dbl_mono_pos) simp_all
    then show ?thesis by (simp add: dbl_minus)
  qed
qed

lemma dbl_of_int:
  assumes "\<bar>n\<bar> < 2 ^ 53"
  shows "dbl (of_int n) = of_int n"
proof (cases "n = 0")
  case False
  have "(2::rat) powi (dexp (of_int n) + 52) \<le> of_int \<bar>n\<bar>"
    using dexp_bounds(1) [of "of_int n"] False by simp
  also have "\<dots> < of_int (2 ^ 53)" using assms by (simp only: of_int_less_iff)
  also have "\<dots> = 2 powi 53" by simp
  finally have "dexp (of_int n) \<le> 0" using powi2_less_cancel by fastforce
  then have e: "ulp_exp (of_int n) \<le> 0" by (simp add: ulp_exp_def)
  have w: "(of_int (2 ^ nat (- ulp_exp (of_int n))) :: rat) * 2 powi (ulp_exp (of_int n)) = 1"
    using e by (auto simp: power_int_def field_simps)
  then have "of_int n / 2 powi (ulp_exp (of_int n)) =
      (of_int (n * 2 ^ nat (- ulp_exp (of_int n))) :: rat)"
    by (simp add: field_simps)
  then show ?thesis using False w by (simp add: dbl_def del: of_int_power of_int_mult) simp
qed simp

lemma dbl_of_nat: "n < 2 ^ 53 \<Longrightarrow> dbl (of_nat n) = of_nat n"
  using dbl_of_int [of "int n"] by simp

lemma dbl_numeral: "(numeral w :: int) < 2 ^ 53 \<Longrightarrow> dbl (numeral w) = numeral w"
  using dbl_of_int [of "numeral w"] by simp

lemma dbl_1 [simp]: "dbl 1 = 1"
  using dbl_of_int [of 1] by simp

subsection \<open>Truncation\<close>

lemma trunc_mono: "x \<le> y \<Longrightarrow> trunc x \<le> trunc y"
  by (auto simp: trunc_def floor_mono ceiling_mono)
    (metis ceiling_mono ceiling_zero floor_zero floor_mono order.trans linorder_linear)

lemma trunc_of_int [simp]: "trunc (of_int n) = n"
  by (simp add: trunc_def)

lemma trunc_range: "of_int a \<le> x \<Longrightarrow> x \<le> of_int b \<Longrightarrow> a \<le> trunc x \<and> trunc x \<le> b"
  using trunc_mono trunc_of_int by metis

end
