(* ===== verification/NameMatcher.thy ===== *)
theory NameMatcher
  imports Prelude Binary64
begin

text \<open>
  The class \<^verbatim>\<open>CNameMatcher\<close> of \<^verbatim>\<open>NameMatcher.hpp\<close>: its two tables, the preprocessing of OCR text, the
  removal of region and platform words, and the score of a player name against a recognised
  text. Characters are written as their code units, in the order of the source. The scores are
  \<^verbatim>\<open>double\<close> computations, modelled operation by operation with \<open>dbl\<close>.
\<close>

subsection \<open>The tables of the constructor\<close>

definition init_professions :: "wstr list" where
  "init_professions =
    [[0x9B3C, 0x5251, 0x58EB], [0x5251, 0x9B42], [0x5251, 0x5723], [0x5251, 0x795E],
     [0x6781, 0x8BE3, 0x00B7, 0x5251, 0x9B42],
     [0x9B3C, 0x6CE3], [0x5F11, 0x9B42], [0x9ED1, 0x6697, 0x541B, 0x4E3B], [0x6781, 0x8BE3, 0x00B7, 0x9B3C, 0x6CE3],
     [0x72C2, 0x6218, 0x58EB], [0x72F1, 0x8840, 0x9B54, 0x795E], [0x5E1D, 0x8840, 0x5F11, 0x5929], [0x6781, 0x8BE3, 0x00B7, 0x72C2, 0x6218, 0x58EB],
     [0x963F, 0x4FEE, 0x7F57], [0x5927, 0x6697, 0x9ED1, 0x5929], [0x5929, 0x5E1D], [0x6781, 0x8BE3, 0x00B7, 0x963F, 0x4FEE, 0x7F57],
     [0x5251, 0x5F71], [0x591C, 0x89C1, 0x7F57, 0x5239], [0x591C, 0x5200, 0x795E], [0x6781, 0x8BE3, 0x00B7, 0x5251, 0x5F71],
     [0x7EA2, 0x773C], [0x767D, 0x624B], [0x778E, 0x5B50],
     [0x5973, 0x9B3C, 0x5251], [0x9A6D, 0x5251, 0x58EB], [0x5251, 0x5B97], [0x5251, 0x7687],
     [0x6781, 0x8BE3, 0x00B7, 0x9A6D, 0x5251, 0x58EB],
     [0x5951, 0x9B54, 0x8005], [0x5251, 0x9B54], [0x5F11, 0x795E, 0x8005], [0x6781, 0x8BE3, 0x00B7, 0x5951, 0x9B54, 0x8005],
     [0x6697, 0x6BBF, 0x9A91, 0x58EB], [0x6697, 0x5E1D], [0x88C1, 0x51B3, 0x5973, 0x795E], [0x6781, 0x8BE3, 0x00B7, 0x6697, 0x6BBF, 0x9A91, 0x58EB],
     [0x6D41, 0x6D6A, 0x6B66, 0x58EB], [0x5251, 0x5E1D], [0x5251, 0x8C6A], [0x6781, 0x8BE3, 0x00B7, 0x6D41, 0x6D6A, 0x6B66, 0x58EB],
     [0x5203, 0x5F71], [0x65A9, 0x591C], [0x5B64, 0x661F], [0x6781, 0x8BE3, 0x00B7, 0x5203, 0x5F71],
     [0x683C, 0x6597, 0x5BB6], [0x7537, 0x683C, 0x6597], [0x5973, 0x683C, 0x6597],
     [0x6C14, 0x529F, 0x5E08], [0x7537, 0x6C14, 0x529F], [0x5973, 0x6C14, 0x529F], [0x72C2, 0x864E, 0x5E1D],
     [0x5FF5, 0x7687, 0x00B7, 0x5149, 0x98CE, 0x9701, 0x6708], [0x6781, 0x8BE3, 0x00B7, 0x6C14, 0x529F, 0x5E08], [0x767E, 0x82B1, 0x7F2D, 0x4E71], [0x5FF5, 0x5E1D],
     [0x5F52, 0x5143, 0x00B7, 0x6C14, 0x529F, 0x5E08],
     [0x6563, 0x6253], [0x6B66, 0x6781], [0x6781, 0x6B66, 0x7687], [0x6781, 0x8BE3, 0x00B7, 0x6563, 0x6253],
     [0x6B66, 0x795E], [0x6781, 0x6B66, 0x5723], [0x5F52, 0x5143, 0x00B7, 0x6563, 0x6253],
     [0x8857, 0x9738], [0x5343, 0x624B, 0x7F57, 0x6C49], [0x6697, 0x8857, 0x4E4B, 0x738B], [0x6781, 0x8BE3, 0x00B7, 0x8857, 0x9738],
     [0x6BD2, 0x738B], [0x6BD2, 0x795E, 0x7EDD], [0x5F52, 0x5143, 0x00B7, 0x8857, 0x9738],
     [0x67D4, 0x9053, 0x5BB6], [0x67D4, 0x9053], [0x5B97, 0x5E08], [0x50B2, 0x4E4B, 0x6700],
     [0x6781, 0x8BE3, 0x00B7, 0x67D4, 0x9053, 0x5BB6], [0x66B4, 0x98CE, 0x773C], [0x98CE, 0x66B4, 0x5973, 0x7687], [0x5F52, 0x5143, 0x00B7, 0x67D4, 0x9053, 0x5BB6],
     [0x795E, 0x67AA, 0x624B],
     [0x6F2B, 0x6E38, 0x67AA, 0x624B], [0x6F2B, 0x6E38], [0x7537, 0x6F2B], [0x5973, 0x6F2B],
     [0x67AA, 0x795E], [0x63A0, 0x5929, 0x4E4B, 0x7FFC], [0x91CD, 0x9704, 0x00B7, 0x6F2B, 0x6E38, 0x67AA, 0x624B], [0x6CBE, 0x8840, 0x73AB, 0x7470],
     [0x7EEF, 0x7EA2, 0x73AB, 0x7470],
     [0x67AA, 0x70AE, 0x5E08], [0x72C2, 0x66B4, 0x8005], [0x6BC1, 0x706D, 0x8005], [0x91CD, 0x9704, 0x00B7, 0x67AA, 0x70AE, 0x5E08],
     [0x91CD, 0x70AE, 0x638C, 0x63A7, 0x8005], [0x98CE, 0x66B4, 0x9A91, 0x5175],
     [0x673A, 0x68B0, 0x5E08], [0x673A, 0x68B0, 0x6218, 0x795E], [0x673A, 0x68B0, 0x5143, 0x9996], [0x91CD, 0x9704, 0x00B7, 0x673A, 0x68B0, 0x5E08],
     [0x673A, 0x68B0, 0x4E4B, 0x5FC3], [0x673A, 0x68B0, 0x4E4B, 0x5149],
     [0x5F39, 0x836F, 0x4E13, 0x5BB6], [0x5927, 0x5C06, 0x519B], [0x6218, 0x573A, 0x7EDF, 0x6CBB, 0x8005], [0x91CD, 0x9704, 0x00B7, 0x5F39, 0x836F, 0x4E13, 0x5BB6],
     [0x6218, 0x4E89, 0x5973, 0x795E], [0x8299, 0x857E, 0x96C5],
     [0x5408, 0x91D1, 0x6218, 0x58EB], [0x98DF, 0x91D1, 0x6218, 0x58EB], [0x53F0, 0x91D1, 0x6218, 0x58EB], [0x94A2, 0x94C1, 0x4E4B, 0x5FC3],
     [0x8D85, 0x80FD, 0x7EC8, 0x7ED3, 0x8005], [0x91CD, 0x9704, 0x00B7, 0x5408, 0x91D1, 0x6218, 0x58EB],
     [0x9B54, 0x6CD5, 0x5E08], [0x7537, 0x6CD5], [0x5973, 0x6CD5],
     [0x5143, 0x7D20, 0x7206, 0x7834, 0x5E08], [0x9B54, 0x7687], [0x6E6E, 0x706D, 0x4E4B, 0x77B3], [0x77E5, 0x6E90, 0x00B7, 0x5143, 0x7D20, 0x7206, 0x7834, 0x5E08],
     [0x51B0, 0x7ED3, 0x5E08], [0x51B0, 0x51BB, 0x4E4B, 0x5FC3], [0x5239, 0x90A3, 0x788E, 0x661F], [0x77E5, 0x6E90, 0x00B7, 0x51B0, 0x7ED3, 0x5E08],
     [0x7329, 0x7EA2, 0x6CD5, 0x5E08], [0x8840, 0x6CD5], [0x8840, 0x72F1, 0x4F2F, 0x7235], [0x8840, 0x72F1, 0x541B, 0x4E3B],
     [0x77E5, 0x6E90, 0x00B7, 0x7329, 0x7EA2, 0x6CD5, 0x5E08],
     [0x9010, 0x98CE, 0x8005], [0x98CE, 0x6CD5], [0x5FA1, 0x98CE, 0x8005], [0x98CE, 0x795E],
     [0x77E5, 0x6E90, 0x00B7, 0x9010, 0x98CE, 0x8005],
     [0x6B21, 0x5143, 0x884C, 0x8005], [0x6B21, 0x5143, 0x661F, 0x795E], [0x6DF7, 0x6C8C, 0x884C, 0x8005], [0x77E5, 0x6E90, 0x00B7, 0x6B21, 0x5143, 0x884C, 0x8005],
     [0x5143, 0x7D20, 0x5E08], [0x5927, 0x9B54, 0x5BFC, 0x5E08], [0x5143, 0x7D20, 0x5723, 0x7075], [0x77E5, 0x6E90, 0x00B7, 0x5143, 0x7D20, 0x5E08],
     [0x53EC, 0x5524, 0x5E08], [0x6708, 0x4E4B, 0x5973, 0x7687], [0x6708, 0x8680], [0x77E5, 0x6E90, 0x00B7, 0x53EC, 0x5524, 0x5E08],
     [0x6218, 0x6597, 0x6CD5, 0x5E08], [0x8D1D, 0x4E9A, 0x5A1C, 0x6597, 0x795E], [0x4F0A, 0x4E1D, 0x5854, 0x6218, 0x5C0A], [0x77E5, 0x6E90, 0x00B7, 0x6218, 0x6597, 0x6CD5, 0x5E08],
     [0x9B54, 0x9053, 0x5B66, 0x8005], [0x9B54, 0x672F, 0x5E08], [0x53E4, 0x7075, 0x7CBE, 0x602A], [0x77E5, 0x6E90, 0x00B7, 0x9B54, 0x9053, 0x5B66, 0x8005],
     [0x5C0F, 0x9B54, 0x5973], [0x5976, 0x841D], [0x6697, 0x9ED1, 0x5C11, 0x5973], [0x51A5, 0x6708, 0x5973, 0x795E],
     [0x77E5, 0x6E90, 0x00B7, 0x5C0F, 0x9B54, 0x5973],
     [0x5723, 0x804C, 0x8005], [0x7537, 0x5723, 0x804C], [0x5973, 0x5723, 0x804C],
     [0x5723, 0x9A91, 0x58EB], [0x5149, 0x660E, 0x9A91, 0x58EB], [0x5976, 0x7238], [0x5976, 0x5988],
     [0x5929, 0x542F, 0x8005], [0x795E, 0x601D, 0x8005], [0x5149, 0x542F, 0x00B7, 0x5723, 0x9A91, 0x58EB], [0x798F, 0x97F3, 0x4F20, 0x9053, 0x8005],
     [0x70BD, 0x5929, 0x4F7F],
     [0x84DD, 0x62F3, 0x5723, 0x4F7F], [0x84DD, 0x62F3], [0x84DD, 0x62F3, 0x4F7F, 0x8005], [0x795E, 0x4E4B, 0x624B],
     [0x6B63, 0x4E49, 0x4EF2, 0x88C1, 0x8005], [0x5149, 0x542F, 0x00B7, 0x84DD, 0x62F3, 0x5723, 0x4F7F],
     [0x9A71, 0x9B54, 0x5E08], [0x9F99, 0x6597, 0x58EB], [0x771F, 0x9F99, 0x661F, 0x541B], [0x5149, 0x542F, 0x00B7, 0x9A71, 0x9B54, 0x5E08],
     [0x590D, 0x4EC7, 0x8005], [0x56DB, 0x53D4], [0x672B, 0x65E5, 0x5BA1, 0x5224, 0x8005], [0x6C38, 0x751F, 0x8005],
     [0x5149, 0x542F, 0x00B7, 0x590D, 0x4EC7, 0x8005],
     [0x5F02, 0x7AEF, 0x5BA1, 0x5224, 0x8005], [0x56E2, 0x957F], [0x795E, 0x7130, 0x5904, 0x5211, 0x5B98], [0x708E, 0x72F1, 0x88C1, 0x51B3, 0x8005],
     [0x5149, 0x542F, 0x00B7, 0x5F02, 0x7AEF, 0x5BA1, 0x5224, 0x8005],
     [0x5DEB, 0x5973], [0x795E, 0x9F99, 0x5929, 0x5973], [0x795E, 0x9F99, 0x661F, 0x4E3B], [0x5149, 0x542F, 0x00B7, 0x5DEB, 0x5973],
     [0x8BF1, 0x9B54, 0x8005], [0x56DB, 0x59E8], [0x65AD, 0x7F6A, 0x8005], [0x6551, 0x4E16, 0x4E3B],
     [0x5149, 0x542F, 0x00B7, 0x8BF1, 0x9B54, 0x8005],
     [0x6697, 0x591C, 0x4F7F, 0x8005],
     [0x523A, 0x5BA2], [0x94F6, 0x6708], [0x6708, 0x5F71, 0x661F, 0x52AB], [0x9690, 0x591C, 0x00B7, 0x523A, 0x5BA2],
     [0x6B7B, 0x7075, 0x672F, 0x58EB], [0x7075, 0x9B42, 0x6536, 0x5272, 0x8005], [0x4EA1, 0x9B42, 0x4E3B, 0x5BB0], [0x9690, 0x591C, 0x00B7, 0x6B7B, 0x7075, 0x672F, 0x58EB],
     [0x5FCD, 0x8005], [0x6BD5, 0x65B9, 0x4E4B, 0x708E], [0x4E0D, 0x77E5, 0x706B], [0x9690, 0x591C, 0x00B7, 0x5FCD, 0x8005],
     [0x5F71, 0x821E, 0x8005], [0x68A6, 0x9B47], [0x5E7D, 0x51A5], [0x9690, 0x591C, 0x00B7, 0x5F71, 0x821E, 0x8005],
     [0x5B88, 0x62A4, 0x8005],
     [0x7CBE, 0x7075, 0x9A91, 0x58EB], [0x661F, 0x8FB0, 0x4E4B, 0x5149], [0x5927, 0x5730, 0x5973, 0x795E], [0x7693, 0x66E6, 0x00B7, 0x7CBE, 0x7075, 0x9A91, 0x58EB],
     [0x6DF7, 0x6C8C, 0x9B54, 0x7075], [0x9ED1, 0x9B54, 0x540E], [0x9ED1, 0x66DC, 0x795E], [0x7693, 0x66E6, 0x00B7, 0x6DF7, 0x6C8C, 0x9B54, 0x7075],
     [0x5E15, 0x62C9, 0x4E01], [0x66D9, 0x5149], [0x7834, 0x6653, 0x5973, 0x795E], [0x7693, 0x66E6, 0x00B7, 0x5E15, 0x62C9, 0x4E01],
     [0x9F99, 0x9A91, 0x58EB], [0x9F99, 0x7075], [0x9F99, 0x795E], [0x7693, 0x66E6, 0x00B7, 0x9F99, 0x9A91, 0x58EB],
     [0x9B54, 0x67AA, 0x58EB],
     [0x5F81, 0x6218, 0x8005], [0x5173, 0x7FBD], [0x6218, 0x9B42], [0x4E0D, 0x706D, 0x6218, 0x795E],
     [0x5343, 0x9B42, 0x00B7, 0x5F81, 0x6218, 0x8005],
     [0x51B3, 0x6218, 0x8005], [0x8D75, 0x4E91], [0x65E0, 0x53CC, 0x9B42], [0x5723, 0x6B66, 0x67AA, 0x9B42],
     [0x5343, 0x9B42, 0x00B7, 0x51B3, 0x6218, 0x8005],
     [0x72E9, 0x730E, 0x8005], [0x5149, 0x67AA], [0x706D, 0x9B54, 0x8005], [0x6B7C, 0x706D, 0x8005],
     [0x5343, 0x9B42, 0x00B7, 0x72E9, 0x730E, 0x8005],
     [0x6697, 0x67AA, 0x58EB], [0x6697, 0x67AA], [0x72C2, 0x6012, 0x6076, 0x9B3C], [0x5E7D, 0x5F71, 0x591C, 0x795E],
     [0x5343, 0x9B42, 0x00B7, 0x6697, 0x67AA, 0x58EB],
     [0x67AA, 0x5251, 0x58EB],
     [0x6697, 0x5203], [0x7EDF, 0x5FA1, 0x8005], [0x94C1, 0x8840, 0x7EDF, 0x5E05], [0x82CD, 0x66AE, 0x00B7, 0x6697, 0x5203],
     [0x7279, 0x5DE5], [0x7EDD, 0x547D, 0x8C0D, 0x5F71], [0x5F11, 0x5FC3, 0x9547, 0x9B42, 0x8005], [0x82CD, 0x66AE, 0x00B7, 0x7279, 0x5DE5],
     [0x6218, 0x7EBF, 0x4F63, 0x5175], [0x6218, 0x573A, 0x738B, 0x724C], [0x5DC5, 0x5CF0, 0x72C2, 0x5F92], [0x82CD, 0x66AE, 0x00B7, 0x6218, 0x7EBF, 0x4F63, 0x5175],
     [0x6E90, 0x80FD, 0x4E13, 0x5BB6], [0x6E90, 0x529B, 0x638C, 0x63A7, 0x8005], [0x672A, 0x6765, 0x5F00, 0x62D3, 0x8005], [0x82CD, 0x66AE, 0x00B7, 0x6E90, 0x80FD, 0x4E13, 0x5BB6],
     [0x5F13, 0x7BAD, 0x624B],
     [0x7F2A, 0x65AF], [0x5976, 0x5F13], [0x8C03, 0x97F3, 0x5E08], [0x6D41, 0x884C, 0x4E4B, 0x795E],
     [0x8046, 0x98CE, 0x00B7, 0x7F2A, 0x65AF],
     [0x65C5, 0x4EBA], [0x68A6, 0x6E38, 0x8005], [0x5DE1, 0x661F, 0x8005], [0x8046, 0x98CE, 0x00B7, 0x65C5, 0x4EBA],
     [0x730E, 0x4EBA], [0x9E70, 0x773C], [0x5929, 0x7F57], [0x8046, 0x98CE, 0x00B7, 0x730E, 0x4EBA],
     [0x5996, 0x62A4, 0x4F7F], [0x5E7B, 0x5996], [0x7EDD, 0x5F71], [0x8046, 0x98CE, 0x00B7, 0x5996, 0x62A4, 0x4F7F],
     [0x9ED1, 0x6697, 0x6B66, 0x58EB], [0x9ED1, 0x6B66], [0x81EA, 0x89C9], [0x6781, 0x8BE3, 0x00B7, 0x9ED1, 0x6697, 0x6B66, 0x58EB],
     [0x7F14, 0x9020, 0x8005], [0x9F20, 0x6807, 0x59B9], [0x77E5, 0x6E90, 0x00B7, 0x7F14, 0x9020, 0x8005]]"

definition init_confusable :: "(wchar \<times> wchar) list" where
  "init_confusable =
    [(0x0049, 0x006C), (0x0031, 0x006C), (0x0030, 0x004F), (0x006F, 0x004F),
     (0x005A, 0x0032), (0x007A, 0x0032), (0x0053, 0x0035), (0x0073, 0x0035),
     (0x6D78, 0x6F2B), (0x652F, 0x58EB), (0x695A, 0x732A), (0x4ECA, 0x95EA),
     (0x6E20, 0x94F6), (0x9075, 0x9053), (0x6349, 0x6253), (0x7ED8, 0x67AA),
     (0x60D1, 0x8FA8), (0x606C, 0x5E08), (0x5DE5, 0x4E01), (0x6C40, 0x4E01)]"

definition noise_words :: "wstr list" where
  "noise_words =
    [[0x5E7F, 0x4E1C, 0x0031], [0x5E7F, 0x4E1C, 0x0032], [0x5E7F, 0x4E1C, 0x0033], [0x5E7F, 0x4E1C, 0x0034], [0x5E7F, 0x4E1C, 0x0035], [0x5E7F, 0x4E1C, 0x0036],
     [0x5317, 0x4EAC, 0x0031], [0x5317, 0x4EAC, 0x0032], [0x5317, 0x4EAC, 0x0033], [0x5317, 0x4EAC, 0x0034],
     [0x4E0A, 0x6D77, 0x0031], [0x4E0A, 0x6D77, 0x0032], [0x4E0A, 0x6D77, 0x0033], [0x4E0A, 0x6D77, 0x0034],
     [0x6C5F, 0x82CF, 0x0031], [0x6C5F, 0x82CF, 0x0032], [0x6C5F, 0x82CF, 0x0033], [0x6C5F, 0x82CF, 0x0034],
     [0x6D59, 0x6C5F, 0x0031], [0x6D59, 0x6C5F, 0x0032], [0x6D59, 0x6C5F, 0x0033], [0x6D59, 0x6C5F, 0x0034],
     [0x798F, 0x5EFA, 0x0031], [0x798F, 0x5EFA, 0x0032], [0x798F, 0x5EFA, 0x0033],
     [0x5C71, 0x4E1C, 0x0031], [0x5C71, 0x4E1C, 0x0032], [0x5C71, 0x4E1C, 0x0033], [0x5C71, 0x4E1C, 0x0034],
     [0x56DB, 0x5DDD, 0x0031], [0x56DB, 0x5DDD, 0x0032], [0x56DB, 0x5DDD, 0x0033], [0x56DB, 0x5DDD, 0x0034],
     [0x6E56, 0x5317, 0x0031], [0x6E56, 0x5317, 0x0032], [0x6E56, 0x5317, 0x0033],
     [0x6E56, 0x5357, 0x0031], [0x6E56, 0x5357, 0x0032], [0x6E56, 0x5357, 0x0033],
     [0x6CB3, 0x5357, 0x0031], [0x6CB3, 0x5357, 0x0032], [0x6CB3, 0x5357, 0x0033],
     [0x6CB3, 0x5317, 0x0031], [0x6CB3, 0x5317, 0x0032], [0x6CB3, 0x5317, 0x0033],
     [0x4E1C, 0x5317, 0x0031], [0x4E1C, 0x5317, 0x0032], [0x4E1C, 0x5317, 0x0033],
     [0x897F, 0x5317, 0x0031], [0x897F, 0x5317, 0x0032], [0x897F, 0x5317, 0x0033],
     [0x897F, 0x5357, 0x0031], [0x897F, 0x5357, 0x0032], [0x897F, 0x5357, 0x0033],
     [0x8DE8, 0x0031], [0x8DE8, 0x0032], [0x8DE8, 0x0033], [0x8DE8, 0x0034], [0x8DE8, 0x0035], [0x8DE8, 0x0036],
     [0x8DE8, 0x0037], [0x8DE8, 0x0038],
     [0x8DE8, 0x4E00], [0x8DE8, 0x4E8C], [0x8DE8, 0x4E09], [0x8DE8, 0x56DB], [0x8DE8, 0x4E94], [0x8DE8, 0x516D],
     [0x8DE8, 0x4E03], [0x8DE8, 0x516B],
     [0x5E7F, 0x4E1C], [0x5317, 0x4EAC], [0x4E0A, 0x6D77], [0x6C5F, 0x82CF], [0x6D59, 0x6C5F], [0x798F, 0x5EFA],
     [0x5C71, 0x4E1C], [0x56DB, 0x5DDD], [0x6E56, 0x5317], [0x6E56, 0x5357], [0x6CB3, 0x5357], [0x6CB3, 0x5317],
     [0x4E1C, 0x5317], [0x897F, 0x5317], [0x897F, 0x5357],
     [0x4E00, 0x533A], [0x4E8C, 0x533A], [0x4E09, 0x533A], [0x56DB, 0x533A], [0x4E94, 0x533A], [0x516D, 0x533A],
     [0x4E03, 0x533A], [0x516B, 0x533A],
     [0x9996], [0x6597, 0x9C7C], [0x864E, 0x7259], [0x864E, 0x591A], [0x6296, 0x97F3], [0x79D1, 0x97F3],
     [0x5FEB, 0x624B], [0x0042, 0x7AD9], [0x54D4, 0x54E9], [0x4F01, 0x9E45], [0x0054, 0x0056], [0x0046, 0x0053, 0x004E],
     [0x76F4, 0x64AD], [0x004A, 0x004B]]"

record name_matcher =
  m_confusableMap :: "wchar \<rightharpoonup> wchar"
  m_professions :: "wstr list"

definition init_name_matcher :: name_matcher where
  "init_name_matcher = \<lparr> m_confusableMap = map_of init_confusable, m_professions = init_professions \<rparr>"

subsection \<open>Preprocessing and noise removal\<close>

definition fold_char :: "crt \<Rightarrow> name_matcher \<Rightarrow> wchar \<Rightarrow> wchar" where
  "fold_char ct nm c = (let uc = towupper ct c in
     case m_confusableMap nm uc of Some v \<Rightarrow> v | None \<Rightarrow> uc)"

definition PreprocessString :: "crt \<Rightarrow> name_matcher \<Rightarrow> wstr \<Rightarrow> wstr" where
  "PreprocessString ct nm s = map (fold_char ct nm) (filter (\<lambda>c. \<not> iswspace ct c) s)"

definition StripNoise :: "wstr \<Rightarrow> wstr" where
  "StripNoise s = fold erase_all noise_words s"

definition GetLCSLength :: "wstr \<Rightarrow> wstr \<Rightarrow> nat" where
  "GetLCSLength s1 s2 = lcs_len s1 s2"

subsection \<open>The match score\<close>

definition is_profession_frame :: "name_matcher \<Rightarrow> wstr \<Rightarrow> bool" where
  "is_profession_frame nm s2 =
     list_ex (\<lambda>job. contains s2 job \<and> length s2 \<le> length job + 1) (m_professions nm)"

text \<open>
  \<open>(score1 * 0.6 + score2 * 0.4) * 100.0\<close> less the length penalty, every operation rounded.
\<close>

definition base_score :: "nat \<Rightarrow> nat \<Rightarrow> nat \<Rightarrow> rat" where
  "base_score lcs l1 l2 =
     (let score1 = dbl (of_nat lcs / of_nat l1);
          score2 = dbl (of_nat lcs / of_nat l2)
      in dbl (dbl (dbl (score1 * dbl (6/10)) + dbl (score2 * dbl (4/10))) * 100))"

definition length_penalty :: "bool \<Rightarrow> nat \<Rightarrow> nat \<Rightarrow> rat" where
  "length_penalty aggressive l1 l2 =
     (let lenDiff = \<bar>int l1 - int l2\<bar> in
      if aggressive then dbl (of_int lenDiff * 2) else dbl (of_int lenDiff * 6))"

definition clamp_score :: "rat \<Rightarrow> int" where
  "clamp_score b = (let b1 = (if b < 0 then 0 else b); b2 = (if b1 > 100 then 100 else b1) in trunc b2)"

definition GetMatchScore :: "crt \<Rightarrow> name_matcher \<Rightarrow> wstr \<Rightarrow> wstr \<Rightarrow> bool \<Rightarrow> int" where
  "GetMatchScore ct nm realName gameID aggressive =
     (let p1 = PreprocessString ct nm realName; p2 = PreprocessString ct nm gameID in
      if p1 = [] \<or> p2 = [] then 0 else
      let c1 = StripNoise p1; c2 = StripNoise p2; s1 = (if c1 \<noteq> [] then c1 else p1) in
      if c2 = [] then 0 else
      let s2 = c2 in
      if is_profession_frame nm s2 then -1 else
      if contains s2 s1 then 100 else
      let lcs = GetLCSLength s1 s2 in
      if lcs = 0 then 0 else
      clamp_score (dbl (base_score lcs (length s1) (length s2)
        - length_penalty aggressive (length s1) (length s2))))"

definition GetDynamicThreshold :: "int \<Rightarrow> int" where
  "GetDynamicThreshold nameLen =
     (if nameLen \<le> 2 then 55 else if nameLen \<le> 4 then 45 else if nameLen \<le> 6 then 35 else 30)"

subsection \<open>Facts about the pieces\<close>

lemma clamp_score_range: "0 \<le> clamp_score b \<and> clamp_score b \<le> 100"
  unfolding clamp_score_def Let_def
  using trunc_range [of 0 _ 100] by (auto simp: trunc_def)

lemma clamp_score_mono: "a \<le> b \<Longrightarrow> clamp_score a \<le> clamp_score b"
  unfolding clamp_score_def Let_def by (intro trunc_mono) auto

lemma length_penalty_le: "length_penalty True l1 l2 \<le> length_penalty False l1 l2"
  unfolding length_penalty_def Let_def by (auto intro!: dbl_mono)

lemma GetLCSLength_spec:
  "subseq z a \<Longrightarrow> subseq z b \<Longrightarrow> length z \<le> GetLCSLength a b"
  "\<exists>z. subseq z a \<and> subseq z b \<and> length z = GetLCSLength a b"
  unfolding GetLCSLength_def by (rule lcs_len_upper, assumption+) (rule lcs_len_attained)

lemma noise_words_nonempty: "\<forall>w \<in> set noise_words. w \<noteq> []"
  by (simp add: noise_words_def)

lemma StripNoise_subseq: "subseq (StripNoise s) s"
proof -
  have "subseq (fold erase_all ws s) s" for ws
    by (induction ws arbitrary: s) (auto intro: subseq_order.trans erase_all_subseq)
  then show ?thesis by (simp add: StripNoise_def)
qed

lemma StripNoise_id: "(\<forall>w \<in> set noise_words. \<not> sublist w s) \<Longrightarrow> StripNoise s = s"
proof -
  have "(\<forall>w \<in> set ws. \<not> sublist w s) \<Longrightarrow> fold erase_all ws s = s" for ws
    by (induction ws) (auto simp: erase_all_id)
  then show "(\<forall>w \<in> set noise_words. \<not> sublist w s) \<Longrightarrow> StripNoise s = s"
    by (simp add: StripNoise_def)
qed

lemma fold_char_values:
  "fold_char ct init_name_matcher c \<in> {0x006C, 0x004F, 0x0032, 0x0035, 0x6F2B, 0x58EB, 0x732A, 0x95EA,
     0x94F6, 0x9053, 0x6253, 0x67AA, 0x8FA8, 0x5E08, 0x4E01} \<or>
   fold_char ct init_name_matcher c \<notin> fst ` set init_confusable"
  unfolding fold_char_def Let_def init_name_matcher_def
  by (auto simp: init_confusable_def map_of_eq_None_iff split: option.splits if_splits)

subsection \<open>Properties\<close>

text \<open>
  \<open>GetLCSLength\<close>, the table filled by dynamic programming, is the length of a longest
  common subsequence of the two texts.
\<close>

theorem lcs_length_spec: "GetLCSLength a b = Max (length ` {z. subseq z a \<and> subseq z b})"
proof (rule Max_eqI [symmetric])
  have "finite (set (subseqs a))" by simp
  then show "finite (length ` {z. subseq z a \<and> subseq z b})"
    by (rule finite_imageI [OF finite_subset, rotated]) auto
  show "n \<le> GetLCSLength a b" if "n \<in> length ` {z. subseq z a \<and> subseq z b}" for n
    using that GetLCSLength_spec(1) by blast
  show "GetLCSLength a b \<in> length ` {z. subseq z a \<and> subseq z b}"
    using GetLCSLength_spec(2) [of a b] by force
qed

text \<open>
  A match score is a percentage, or \<open>-1\<close>; and it is \<open>-1\<close> exactly for a pure
  profession frame: both texts survive the cleaning and the recognised text is a profession name
  with at most one further character. In particular a profession frame never reaches an acceptance
  threshold, in either round.
\<close>

theorem match_score_profession_guard:
  "GetMatchScore ct nm realName gameID aggressive \<in> {-1..100} \<and>
   (GetMatchScore ct nm realName gameID aggressive = -1 \<longleftrightarrow>
      PreprocessString ct nm realName \<noteq> [] \<and> StripNoise (PreprocessString ct nm gameID) \<noteq> [] \<and>
      is_profession_frame nm (StripNoise (PreprocessString ct nm gameID)))"
proof -
  have ne: "PreprocessString ct nm gameID \<noteq> []"
    if "StripNoise (PreprocessString ct nm gameID) \<noteq> []"
    using that StripNoise_subseq [of "PreprocessString ct nm gameID"] by auto
  have "clamp_score b \<in> {-1..100} \<and> clamp_score b \<noteq> -1" for b
    using clamp_score_range [of b] by auto
  then show ?thesis unfolding GetMatchScore_def Let_def using ne by (auto split: if_splits)
qed

text \<open>
  The relaxed second round (\<open>aggressive\<close>) never scores a name lower than the first
  round does, rounding of the floating-point scores included.
\<close>

theorem match_score_second_round:
  "GetMatchScore ct nm realName gameID False \<le> GetMatchScore ct nm realName gameID True"
proof -
  have "clamp_score (dbl (b - length_penalty False l1 l2)) \<le> clamp_score (dbl (b - length_penalty True l1 l2))"
    for b l1 l2
    using length_penalty_le [of l1 l2] by (intro clamp_score_mono dbl_mono) simp
  moreover have "(c \<Longrightarrow> x \<le> x') \<Longrightarrow> (\<not> c \<Longrightarrow> y \<le> y') \<Longrightarrow> (if c then x else y) \<le> (if c then x' else y')"
    for c and x x' y y' :: int by simp
  ultimately show ?thesis unfolding GetMatchScore_def Let_def by (metis order_refl)
qed

text \<open>
  A noise word that contains \<open>1\<close> or \<open>S\<close> (every region with number 1, such as
  the word for Shanghai 1, and \<open>FSN\<close>) can never be found by \<open>StripNoise\<close>: the preprocessing that
  runs before it has already replaced those characters.
\<close>

theorem noise_word_unreachable:
  assumes "w \<in> set noise_words" and "0x31 \<in> set w \<or> 0x53 \<in> set w"
  shows "\<not> sublist w (PreprocessString ct init_name_matcher s)"
proof
  assume "sublist w (PreprocessString ct init_name_matcher s)"
  then have "set w \<subseteq> set (PreprocessString ct init_name_matcher s)" by (auto simp: sublist_def)
  with assms(2) obtain c where c: "fold_char ct init_name_matcher c = 0x31 \<or> fold_char ct init_name_matcher c = 0x53"
    unfolding PreprocessString_def by force
  have "(0x31 :: wchar) \<in> fst ` set init_confusable" "(0x53 :: wchar) \<in> fst ` set init_confusable"
    by (simp_all add: init_confusable_def)
  with c fold_char_values [of ct c] show False by (elim disjE) simp_all
qed

theorem noise_word_unreachable_witness:
  "\<not> sublist [0x4E0A, 0x6D77, 0x31] (PreprocessString ascii_crt init_name_matcher [0x4E0A, 0x6D77, 0x31])"
  by (rule noise_word_unreachable) (simp_all add: noise_words_def)

end
