(* ===== verification/TemporalText.thy ===== *)
theory TemporalText
  imports NameMatcher
begin

text \<open>
  The text level of \<^verbatim>\<open>CTemporalIdentityMatcher\<close> (\<^verbatim>\<open>TemporalIdentityMatcher.hpp\<close>): normalisation of
  recognised text, the similarity scores, the recognition of a region (area) and of a profession,
  and the classification of one panel text into a name-and-area frame, a profession frame or
  noise. The state machine over these frames is in \<^verbatim>\<open>TemporalMatcher\<close>.
\<close>

subsection \<open>CString operations\<close>

definition TrimW :: "crt \<Rightarrow> wstr \<Rightarrow> wstr" where
  "TrimW ct s = trim_by (iswspace ct) s"

definition remove_char :: "wchar \<Rightarrow> wstr \<Rightarrow> wstr" where
  "remove_char c s = filter (\<lambda>d. d \<noteq> c) s"

definition replace_char :: "wchar \<Rightarrow> wchar \<Rightarrow> wstr \<Rightarrow> wstr" where
  "replace_char c d s = map (\<lambda>e. if e = c then d else e) s"

definition MakeUpper :: "crt \<Rightarrow> wstr \<Rightarrow> wstr" where
  "MakeUpper ct s = map (towupper ct) s"

definition MakeLower :: "crt \<Rightarrow> wstr \<Rightarrow> wstr" where
  "MakeLower ct s = map (towlower ct) s"

definition EqualNoCase :: "crt \<Rightarrow> wstr \<Rightarrow> wstr \<Rightarrow> bool" where
  "EqualNoCase ct a b \<longleftrightarrow> map (towlower ct) a = map (towlower ct) b"

definition MidW :: "nat \<Rightarrow> nat \<Rightarrow> wstr \<Rightarrow> wstr" where
  "MidW i n s = take n (drop i s)"

lemma length_MidW: "length (MidW i n s) \<le> n"
  by (simp add: MidW_def)

lemma TrimW_length: "length (TrimW ct s) \<le> length s"
  by (simp add: TrimW_def trim_by_length)

subsection \<open>Normalisation\<close>

definition NormalizeRaw :: "crt \<Rightarrow> wstr \<Rightarrow> wstr" where
  "NormalizeRaw ct s =
     (let s = remove_char 0x20 s; s = remove_char 0x09 s; s = remove_char 0x0D s; s = remove_char 0x0A s;
          s = replace_char 0xFF1A 0x3A s;
          s = remove_char 0x7C s;
          s = remove_char 0x3010 s; s = remove_char 0x3011 s;
          s = remove_char 0x5B s; s = remove_char 0x5D s
      in MakeUpper ct s)"

definition NormalizeLoose :: "crt \<Rightarrow> wstr \<Rightarrow> wstr" where
  "NormalizeLoose ct s =
     (let s = TrimW ct s;
          s = remove_char 0x20 s; s = remove_char 0x3000 s;
          s = remove_char 0x2D s; s = remove_char 0x5F s;
          s = remove_char 0x00B7 s; s = remove_char 0x30FB s
      in MakeLower ct s)"

definition VisibleLen :: "crt \<Rightarrow> wstr \<Rightarrow> nat" where
  "VisibleLen ct s = length (NormalizeRaw ct s)"

subsection \<open>Similarity scores\<close>

definition LcsLen :: "wstr \<Rightarrow> wstr \<Rightarrow> nat" where
  "LcsLen a b = (if length a = 0 \<or> length b = 0 then 0 else lcs_len a b)"

fun common_prefix_len :: "'a list \<Rightarrow> 'a list \<Rightarrow> nat" where
  "common_prefix_len (x # xs) (y # ys) = (if x = y then Suc (common_prefix_len xs ys) else 0)"
| "common_prefix_len _ _ = 0"

definition LongestCommonSubstringLen :: "crt \<Rightarrow> wstr \<Rightarrow> wstr \<Rightarrow> nat" where
  "LongestCommonSubstringLen ct a b =
     (let x = NormalizeLoose ct a; y = NormalizeLoose ct b in
      fold (\<lambda>i best. fold (\<lambda>j best. let k = common_prefix_len (drop i x) (drop j y) in
          if k > best then k else best) [0..<length y] best) [0..<length x] 0)"

definition FuzzyTextScore :: "crt \<Rightarrow> wstr \<Rightarrow> wstr \<Rightarrow> nat" where
  "FuzzyTextScore ct a b =
     (let x = NormalizeLoose ct a; y = NormalizeLoose ct b in
      if x = [] \<or> y = [] then 0 else
      if x = y then 100 else
      if contains x y \<or> contains y x then (if min (length x) (length y) \<ge> 2 then 88 else 70) else
      let lcs = LongestCommonSubstringLen ct x y;
          mx = max (length x) (length y);
          mn = min (length x) (length y);
          score = (if mx > 0 then (lcs * 100) div mx else 0)
      in if lcs \<ge> 2 \<and> mn \<le> 3 then max score 76 else score)"

definition NormalizeJobAlias :: "crt \<Rightarrow> wstr \<Rightarrow> wstr" where
  "NormalizeJobAlias ct s =
     (let n = NormalizeLoose ct s in
      if contains n [0x67D4, 0x9053] then [0x67D4, 0x9053, 0x5BB6] else
      if contains n [0x67AA, 0x70AE] \<or> contains n [0x5927, 0x67AA] then [0x67AA, 0x70AE, 0x5E08] else
      if contains n [0x6F2B, 0x6E38] then [0x6F2B, 0x6E38, 0x67AA, 0x624B] else
      if contains n [0x84DD, 0x62F3] then [0x84DD, 0x62F3, 0x4F7F, 0x8005] else
      if contains n [0x6B21, 0x5143] then [0x6B21, 0x5143, 0x884C, 0x8005] else
      if contains n [0x9B54, 0x9053] then [0x9B54, 0x9053, 0x5B66, 0x8005] else
      if contains n [0x9A71, 0x9B54] then [0x9A71, 0x9B54, 0x5E08] else
      if contains n [0x6C14, 0x529F] then [0x6C14, 0x529F, 0x5E08] else
      if contains n [0x5408, 0x91D1] then [0x5408, 0x91D1, 0x6218, 0x58EB] else n)"

definition JobFuzzySame :: "crt \<Rightarrow> wstr \<Rightarrow> wstr \<Rightarrow> bool" where
  "JobFuzzySame ct a b \<longleftrightarrow> FuzzyTextScore ct (NormalizeJobAlias ct a) (NormalizeJobAlias ct b) \<ge> 72"

text \<open>\<open>AreaBase\<close> deletes trailing ASCII digits one by one.\<close>

definition AreaBase :: "crt \<Rightarrow> wstr \<Rightarrow> wstr" where
  "AreaBase ct s = rev (dropWhile (\<lambda>ch. 0x30 \<le> ch \<and> ch \<le> 0x39) (rev (TrimW ct s)))"

definition AreaFuzzySame :: "crt \<Rightarrow> wstr \<Rightarrow> wstr \<Rightarrow> bool" where
  "AreaFuzzySame ct a b =
     (let aa = AreaBase ct a; bb = AreaBase ct b in
      if aa = [] \<or> bb = [] then False else FuzzyTextScore ct aa bb \<ge> 70)"

definition SimilarityScore :: "crt \<Rightarrow> nat \<Rightarrow> nat \<Rightarrow> wstr \<Rightarrow> wstr \<Rightarrow> int" where
  "SimilarityScore ct coverAWeight coverBWeight a b =
     (let aa = NormalizeRaw ct a; bb = NormalizeRaw ct b in
      if aa = [] \<or> bb = [] then 0 else
      let lcs = LcsLen aa bb;
          coverA = dbl (of_nat lcs / of_nat (max 1 (length aa)));
          coverB = dbl (of_nat lcs / of_nat (max 1 (length bb)));
          score = trunc (dbl (dbl (coverA * of_nat coverAWeight) + dbl (coverB * of_nat coverBWeight)));
          score = (if score < 0 then 0 else score)
      in if score > 100 then 100 else score)"

definition NgramCoverageScore :: "crt \<Rightarrow> wstr \<Rightarrow> wstr \<Rightarrow> nat \<Rightarrow> int" where
  "NgramCoverageScore ct candidateText ocrText n =
     (let x = NormalizeRaw ct candidateText; y = NormalizeRaw ct ocrText in
      if x = [] \<or> y = [] \<or> n = 0 \<or> length x < n then 0 else
      let total = length x - n + 1;
          hits = length (filter (\<lambda>i. MidW i n x \<noteq> [] \<and> contains y (MidW i n x)) [0..<length x - n + 1])
      in int ((hits * 100) div total))"

definition IdPartScore :: "crt \<Rightarrow> wstr \<Rightarrow> wstr \<Rightarrow> int" where
  "IdPartScore ct candidateText ocrText =
     (let x = NormalizeRaw ct candidateText; y = NormalizeRaw ct ocrText in
      if x = [] \<or> y = [] then 0 else
      let candLen = int (length x) in
      if x = y then (if candLen \<le> 1 then 35 else 100) else
      if contains y x then (if candLen \<le> 1 then 28 else 100) else
      let lcs = int (LcsLen x y) in
      if lcs \<le> 0 then 0 else
      if candLen \<le> 1 then min 28 (lcs * 28) else
      if candLen = 2 \<and> lcs = 1 then 28 else
      let score = max (NgramCoverageScore ct x y 2) (NgramCoverageScore ct x y 3);
          score = (if lcs \<ge> 2 \<and> candLen \<le> 4 then max score 55 else score);
          lenDiff = \<bar>candLen - int (length y)\<bar>;
          score = (if lenDiff > candLen + 2 then score - min 25 ((lenDiff - candLen - 2) * 3) else score);
          score = (if score < 0 then 0 else score)
      in if score > 100 then 100 else score)"

definition ExactFullIdWithAreaScore :: "crt \<Rightarrow> wstr \<Rightarrow> wstr \<Rightarrow> wstr \<Rightarrow> wstr \<Rightarrow> int" where
  "ExactFullIdWithAreaScore ct candArea candReal ocrArea ocrReal =
     fold (\<lambda>cf best. fold (\<lambda>oform best. max best (IdPartScore ct cf oform)) [ocrArea @ ocrReal, ocrReal @ ocrArea] best)
       [candArea @ candReal, candReal @ candArea] 0"

definition IsSymbolLikeId :: "crt \<Rightarrow> wstr \<Rightarrow> bool" where
  "IsSymbolLikeId ct raw =
     (let s = NormalizeRaw ct raw in
      if s = [] then True else
      let good = (\<lambda>ch. (0x4E00 \<le> ch \<and> ch \<le> 0x9FFF) \<or> iswalnum ct ch);
          meaningful = length (filter good s);
          symbol = length (filter (\<lambda>ch. \<not> good ch) s)
      in if meaningful = 0 then True
         else if meaningful \<le> 1 \<and> symbol \<ge> 1 then True
         else if meaningful \<le> 2 \<and> symbol \<ge> meaningful then True
         else False)"

subsection \<open>Areas\<close>

text \<open>
  \<open>InitAreaList\<close> builds this table and then sorts it by descending length with \<^verbatim>\<open>std::sort\<close>,
  which leaves the order of areas of one length open: the matcher takes its area list as any
  arrangement of the table that is sorted so.
\<close>

definition provinces :: "wstr list" where
  "provinces = [[0x5E7F, 0x4E1C], [0x5317, 0x4EAC], [0x4E0A, 0x6D77], [0x6C5F, 0x82CF], [0x6D59, 0x6C5F], [0x798F, 0x5EFA], [0x5C71, 0x4E1C], [0x56DB, 0x5DDD], [0x6E56, 0x5317],
     [0x6E56, 0x5357], [0x6CB3, 0x5357], [0x6CB3, 0x5317], [0x4E1C, 0x5317], [0x897F, 0x5317], [0x897F, 0x5357], [0x5E7F, 0x897F], [0x5B89, 0x5FBD], [0x6C5F, 0x897F],
     [0x8FBD, 0x5B81], [0x5409, 0x6797], [0x9ED1, 0x9F99, 0x6C5F], [0x9655, 0x897F], [0x5C71, 0x897F], [0x91CD, 0x5E86], [0x5929, 0x6D25], [0x4E91, 0x5357], [0x8D35, 0x5DDE]]"

definition area_table :: "wstr list" where
  "area_table =
     concat (map (\<lambda>p. map (\<lambda>i. p @ [0x30 + of_nat i]) [1..<9]) provinces) @
     map (\<lambda>i. [0x8DE8] @ [0x30 + of_nat i]) [1..<9]"

definition is_area_list :: "wstr list \<Rightarrow> bool" where
  "is_area_list areas \<longleftrightarrow>
     mset areas = mset area_table \<and> sorted_wrt (\<lambda>a b. length a \<ge> length b) areas"

record text_hit =
  hit_text :: wstr
  hit_score :: int
  hit_pos :: int
  hit_len :: int

definition no_hit :: text_hit where
  "no_hit = \<lparr> hit_text = [], hit_score = 0, hit_pos = -1, hit_len = 0 \<rparr>"

text \<open>The exact pass: the first area of the list that occurs.\<close>

fun exact_area :: "wstr list \<Rightarrow> wstr \<Rightarrow> text_hit option" where
  "exact_area [] s = None"
| "exact_area (area # areas) s =
     (case find_sub area s of
        Some pos \<Rightarrow> Some \<lparr> hit_text = area, hit_score = 100, hit_pos = int pos, hit_len = int (length area) \<rparr>
      | None \<Rightarrow> exact_area areas s)"

definition area_window_score :: "crt \<Rightarrow> wstr \<Rightarrow> wstr \<Rightarrow> int" where
  "area_window_score ct provinceOcr provinceTarget =
     (let score = SimilarityScore ct 50 50 provinceOcr provinceTarget in
      if score \<ge> 88 then 88
      else if score \<ge> 72 \<and> length provinceTarget \<ge> 3 then 76 else 0)"

text \<open>The half-fuzzy pass over one area: the digit must agree, the province text may differ.\<close>

definition fuzzy_area :: "crt \<Rightarrow> wstr \<Rightarrow> wstr \<Rightarrow> text_hit \<Rightarrow> text_hit" where
  "fuzzy_area ct s area best =
     (if length area < 2 then best else
      let targetDigit = area ! (length area - 1) in
      if \<not> iswdigit ct targetDigit then best else
      fold (\<lambda>i best.
          if s ! i \<noteq> targetDigit then best else
          let provinceLen = int (length area) - 1;
              startMin = max 0 (int i - provinceLen - 1);
              startMax = min (int i) (int i - provinceLen + 1)
          in fold (\<lambda>st best.
              let len = int i - st in
              if len \<le> 0 \<or> len > provinceLen + 1 then best else
              let finalScore = area_window_score ct (MidW (nat st) (nat len) s) (take (length area - 1) area) in
              if finalScore > hit_score best
              then \<lparr> hit_text = area, hit_score = finalScore, hit_pos = st, hit_len = int i - st + 1 \<rparr>
              else best) [startMin..startMax] best)
        [0..<length s] best)"

definition MatchArea :: "crt \<Rightarrow> wstr list \<Rightarrow> wstr \<Rightarrow> text_hit" where
  "MatchArea ct areas raw =
     (let s = NormalizeRaw ct raw in
      case exact_area areas s of
        Some h \<Rightarrow> h
      | None \<Rightarrow> fold (fuzzy_area ct s) areas no_hit)"

subsection \<open>Professions\<close>

definition profession_score :: "crt \<Rightarrow> wstr \<Rightarrow> wstr \<Rightarrow> int" where
  "profession_score ct s njob =
     (if s = njob then 100
      else if contains s njob \<and> length s \<le> length njob + 2 then 96
      else SimilarityScore ct 75 25 s njob)"

definition MatchProfession :: "crt \<Rightarrow> wstr list \<Rightarrow> wstr \<Rightarrow> text_hit" where
  "MatchProfession ct jobs raw =
     (let s = NormalizeRaw ct raw in
      fold (\<lambda>job best.
          let njob = NormalizeRaw ct job in
          if njob = [] then best else
          let score = profession_score ct s njob;
              pos = (case find_sub njob s of Some p \<Rightarrow> int p | None \<Rightarrow> -1)
          in if score > hit_score best
             then \<lparr> hit_text = job, hit_score = score, hit_pos = (if pos \<ge> 0 then pos else 0),
                    hit_len = int (length njob) \<rparr>
             else best) jobs no_hit)"

definition IsPureProfessionLike :: "crt \<Rightarrow> wstr \<Rightarrow> text_hit \<Rightarrow> bool" where
  "IsPureProfessionLike ct ctext hit =
     (if hit_text hit = [] then False else
      let s = NormalizeRaw ct ctext; j = NormalizeRaw ct (hit_text hit) in
      if s = j then True
      else if contains s j \<and> length s \<le> length j + 2 then True
      else hit_score hit \<ge> 88 \<and> length s \<le> length j + 2)"

subsection \<open>Names\<close>

datatype panel_side = LeftNameArea | RightAreaName

definition ExtractNameByArea :: "wstr \<Rightarrow> panel_side \<Rightarrow> text_hit \<Rightarrow> wstr" where
  "ExtractNameByArea ctext side hit =
     (if hit_pos hit < 0 \<or> hit_len hit \<le> 0 then [] else
      if side = LeftNameArea then take (nat (hit_pos hit)) ctext
      else drop (nat (hit_pos hit + hit_len hit)) ctext)"

definition name_prefixes :: "wstr list" where
  "name_prefixes = [[0x9996], [0x6597, 0x9C7C], [0x864E, 0x7259], [0x864E, 0x591A], [0x6296, 0x97F3], [0x79D1, 0x97F3], [0x5FEB, 0x624B], [0x0042, 0x7AD9], [0x54D4, 0x54E9], [0x4F01, 0x9E45],
     [0x0054, 0x0056], [0x0046, 0x0053, 0x004E], [0x76F4, 0x64AD], [0x004A, 0x004B], [0x003E], [0x300A], [0x201C], [0x00B7], [0x002D]]"

definition strip_prefix_step :: "crt \<Rightarrow> wstr \<Rightarrow> wstr \<times> bool \<Rightarrow> wstr \<times> bool" where
  "strip_prefix_step ct pre st =
     (if EqualNoCase ct (take (length pre) (fst st)) pre then (drop (length pre) (fst st), True) else st)"

definition strip_prefix_pass :: "crt \<Rightarrow> wstr \<Rightarrow> wstr \<times> bool" where
  "strip_prefix_pass ct s = fold (strip_prefix_step ct) name_prefixes (TrimW ct s, False)"

lemma strip_prefix_fold:
  assumes "\<forall>p \<in> set ps. p \<noteq> []"
  shows "length (fst (fold (strip_prefix_step ct) ps st)) \<le> length (fst st) \<and>
    (snd (fold (strip_prefix_step ct) ps st) \<and> \<not> snd st \<longrightarrow>
       length (fst (fold (strip_prefix_step ct) ps st)) < length (fst st))"
  using assms
proof (induction ps arbitrary: st)
  case (Cons p ps)
  let ?st = "strip_prefix_step ct p st"
  have step: "length (fst ?st) \<le> length (fst st) \<and> (snd ?st \<and> \<not> snd st \<longrightarrow> length (fst ?st) < length (fst st))"
  proof (cases "EqualNoCase ct (take (length p) (fst st)) p")
    case True
    then have "length (take (length p) (fst st)) = length p"
      unfolding EqualNoCase_def by (metis length_map)
    moreover have "0 < length p" using Cons.prems by simp
    ultimately have "0 < length p" "length p \<le> length (fst st)" by (simp_all add: min_def split: if_splits)
    then have "length (fst st) - length p < length (fst st)" by linarith
    with True show ?thesis by (simp add: strip_prefix_step_def)
  next
    case False
    then show ?thesis by (simp add: strip_prefix_step_def)
  qed
  have "\<forall>q \<in> set ps. q \<noteq> []" using Cons.prems by simp
  from Cons.IH [OF this, of ?st] step show ?case by auto
qed simp

lemma strip_prefix_pass_decreases:
  "snd (strip_prefix_pass ct s) \<Longrightarrow> length (fst (strip_prefix_pass ct s)) < length s"
  unfolding strip_prefix_pass_def
  using strip_prefix_fold [of name_prefixes ct "(TrimW ct s, False)"] TrimW_length [of ct s]
  by (auto simp: name_prefixes_def)

function CleanNameText :: "crt \<Rightarrow> wstr \<Rightarrow> wstr" where
  "CleanNameText ct s =
     (if snd (strip_prefix_pass ct s) then CleanNameText ct (fst (strip_prefix_pass ct s))
      else TrimW ct (fst (strip_prefix_pass ct s)))"
  by pat_completeness auto
termination
  by (relation "measure (\<lambda>(ct, s). length s)") (auto simp: strip_prefix_pass_decreases)

declare CleanNameText.simps [simp del]

subsection \<open>Classification of one panel text\<close>

datatype frame_kind = Noise | NameArea | Profession

record panel_text =
  pt_raw :: wstr
  pt_kind :: frame_kind
  pt_area :: wstr
  pt_areaScore :: int
  pt_areaPos :: int
  pt_areaLen :: int
  pt_profession :: wstr
  pt_professionScore :: int
  pt_nameText :: wstr

definition empty_panel_text :: panel_text where
  "empty_panel_text = \<lparr> pt_raw = [], pt_kind = Noise, pt_area = [], pt_areaScore = 0, pt_areaPos = -1,
     pt_areaLen = 0, pt_profession = [], pt_professionScore = 0, pt_nameText = [] \<rparr>"

definition AREA_ACCEPT_SCORE :: int where "AREA_ACCEPT_SCORE = 75"
definition JOB_ACCEPT_SCORE :: int where "JOB_ACCEPT_SCORE = 84"

definition ParsePanelText :: "crt \<Rightarrow> wstr list \<Rightarrow> wstr list \<Rightarrow> wstr \<Rightarrow> panel_side \<Rightarrow> panel_text" where
  "ParsePanelText ct areas jobs raw side =
     (let out = empty_panel_text\<lparr> pt_raw := raw \<rparr>; ctext = NormalizeRaw ct raw in
      if ctext = [] then out else
      let areaHit = MatchArea ct areas ctext; jobHit = MatchProfession ct jobs ctext in
      if hit_text areaHit \<noteq> [] \<and> hit_score areaHit \<ge> AREA_ACCEPT_SCORE then
        let nameText = CleanNameText ct (ExtractNameByArea ctext side areaHit) in
        out\<lparr> pt_kind := (if nameText = [] then Noise else NameArea),
            pt_area := hit_text areaHit, pt_areaScore := hit_score areaHit,
            pt_areaPos := hit_pos areaHit, pt_areaLen := hit_len areaHit,
            pt_nameText := nameText \<rparr>
      else if hit_text jobHit \<noteq> [] \<and> hit_score jobHit \<ge> JOB_ACCEPT_SCORE \<and>
              IsPureProfessionLike ct ctext jobHit then
        out\<lparr> pt_kind := Profession, pt_profession := hit_text jobHit,
            pt_professionScore := hit_score jobHit \<rparr>
      else out)"

subsection \<open>Bounded scores\<close>

text \<open>
  What the scoring loops need of a similarity score: it is a percentage. The clients fold the
  larger of the scores of several texts.
\<close>

definition percentage :: "int \<Rightarrow> bool" where
  "percentage x \<longleftrightarrow> 0 \<le> x \<and> x \<le> 100"

lemma percentage_if: "(c \<Longrightarrow> percentage a) \<Longrightarrow> (\<not> c \<Longrightarrow> percentage b) \<Longrightarrow> percentage (if c then a else b)"
  by simp

lemma percentage_clamp:
  "percentage (if (if x < 0 then 0 else x) > 100 then 100 else if x < 0 then 0 else x)"
  by (simp add: percentage_def)

lemma percentage_max: "percentage a \<Longrightarrow> percentage b \<Longrightarrow> percentage (max a b)"
  by (simp add: percentage_def max_def)

lemma percentage_literals [simp]:
  "percentage 0" "percentage 28" "percentage 35" "percentage 55" "percentage 100"
  by (simp_all add: percentage_def)

locale percentage_score =
  fixes score :: "'a \<Rightarrow> 'b \<Rightarrow> int"
  assumes percent: "percentage (score a b)"
begin

lemma fold_max_percent: "percentage z \<Longrightarrow> percentage (fold (\<lambda>x best. max best (score a x)) xs z)"
  by (induction xs arbitrary: z) (simp_all add: percent percentage_max)

lemma nonneg: "0 \<le> score a b"
  using percent by (simp add: percentage_def)

lemma at_most: "score a b \<le> 100"
  using percent by (simp add: percentage_def)

end

interpretation similarity: percentage_score "SimilarityScore ct wa wb" for ct wa wb
  by unfold_locales (unfold SimilarityScore_def Let_def, intro percentage_if percentage_clamp percentage_literals)

lemma filter_upt_percent: "length (filter P [0..<k]) * 100 div k \<le> 100"
proof (cases "k = 0")
  case False
  have "length (filter P [0..<k]) * 100 \<le> k * 100"
    using length_filter_le [of P "[0..<k]"] by simp
  then have "(length (filter P [0..<k]) * 100) div k \<le> (k * 100) div k" by (rule div_le_mono)
  with False show ?thesis by simp
qed simp

interpretation ngram: percentage_score "\<lambda>x y. NgramCoverageScore ct x y n" for ct n
proof unfold_locales
  have "percentage (int (length (filter P [0..<k]) * 100 div k))" for P :: "nat \<Rightarrow> bool" and k
    unfolding percentage_def using filter_upt_percent [of P k] by linarith
  then show "percentage (NgramCoverageScore ct a b n)" for a b
    unfolding NgramCoverageScore_def Let_def by (intro percentage_if percentage_literals)
qed

interpretation id_part: percentage_score "IdPartScore ct" for ct
proof unfold_locales
  have "percentage (min 28 (int k * 28))" for k by (simp add: percentage_def)
  then show "percentage (IdPartScore ct a b)" for a b
    unfolding IdPartScore_def Let_def
    by (intro percentage_if percentage_clamp percentage_literals)
qed

lemma ExactFullIdWithAreaScore_percent: "percentage (ExactFullIdWithAreaScore ct a b c d)"
proof -
  have "percentage (fold (\<lambda>cf best. fold (\<lambda>oform best. max best (IdPartScore ct cf oform)) os best) cs z)"
    if "percentage z" for cs os z
    using that by (induction cs arbitrary: z) (simp_all add: id_part.fold_max_percent)
  then show ?thesis unfolding ExactFullIdWithAreaScore_def using percentage_literals(1) by blast
qed

subsection \<open>Longest common substring\<close>

lemma common_prefix_len_take:
  "take (common_prefix_len xs ys) xs = take (common_prefix_len xs ys) ys"
  "common_prefix_len xs ys \<le> length xs" "common_prefix_len xs ys \<le> length ys"
  by (induction xs ys rule: common_prefix_len.induct) auto

lemma common_prefix_len_max: "prefix z xs \<Longrightarrow> prefix z ys \<Longrightarrow> length z \<le> common_prefix_len xs ys"
proof (induction xs ys arbitrary: z rule: common_prefix_len.induct)
  case (1 x xs y ys)
  then show ?case by (cases z) (auto split: if_splits)
qed auto

lemma fold_best:
  fixes f :: "'a \<Rightarrow> nat"
  shows "fold (\<lambda>j best. if f j > best then f j else best) js b = Max (insert b (f ` set js))"
proof (induction js arbitrary: b)
  case (Cons j js)
  have "Max (insert (if f j > b then f j else b) (f ` set js)) = Max (insert b (insert (f j) (f ` set js)))"
    by (cases "f ` set js = {}") (auto simp: max_def)
  with Cons show ?case by simp
qed simp

lemma Max_insert_Max:
  fixes b :: nat
  assumes "finite A" "finite B"
  shows "Max (insert (Max (insert b A)) B) = Max (insert b (A \<union> B))"
proof (cases "B = {}")
  case False
  have "Max (insert (Max (insert b A)) B) = max (Max (insert b A)) (Max B)"
    using assms False by simp
  also have "\<dots> = Max (insert b A \<union> B)" using assms False by (subst Max_Un) simp_all
  finally show ?thesis by simp
qed (use assms in simp)

lemma fold_best2:
  fixes f :: "'a \<Rightarrow> 'b \<Rightarrow> nat"
  shows "fold (\<lambda>i best. fold (\<lambda>j best. if f i j > best then f i j else best) js best) is b =
    Max (insert b {f i j |i j. i \<in> set is \<and> j \<in> set js})"
proof (induction "is" arbitrary: b)
  case Nil
  then show ?case by simp
next
  case (Cons i "is")
  let ?A = "f i ` set js" and ?B = "{f i' j |i' j. i' \<in> set is \<and> j \<in> set js}"
  have fin: "finite ?A" "finite ?B" by (simp_all add: finite_image_set2)
  have u: "{f i' j |i' j. i' \<in> set (i # is) \<and> j \<in> set js} = ?A \<union> ?B" by auto
  then show ?case using Cons Max_insert_Max [OF fin] by (simp only: fold_best u fold.simps comp_def)
qed

lemma sublist_take_drop: "sublist (take n (drop i s)) s"
  by (meson prefix_imp_sublist sublist_drop sublist_order.order_trans take_is_prefix)

definition common_sublists :: "'a list \<Rightarrow> 'a list \<Rightarrow> 'a list set" where
  "common_sublists x y = {z. sublist z x \<and> sublist z y}"

lemma common_sublists_finite: "finite (common_sublists x y)"
  by (rule finite_subset [of _ "set (sublists x)"]) (auto simp: common_sublists_def)

lemma LongestCommonSubstringLen_spec:
  "LongestCommonSubstringLen ct a b =
     Max (length ` common_sublists (NormalizeLoose ct a) (NormalizeLoose ct b))"
proof -
  let ?x = "NormalizeLoose ct a" and ?y = "NormalizeLoose ct b"
  let ?f = "\<lambda>i j. common_prefix_len (drop i ?x) (drop j ?y)"
  let ?S = "insert 0 {?f i j |i j. i \<in> set [0..<length ?x] \<and> j \<in> set [0..<length ?y]}"
  have L: "LongestCommonSubstringLen ct a b = Max ?S"
    unfolding LongestCommonSubstringLen_def Let_def by (rule fold_best2)
  have fin: "finite ?S" by (simp add: finite_image_set2)
  have finC: "finite (length ` common_sublists ?x ?y)" by (simp add: common_sublists_finite)
  have "[] \<in> common_sublists ?x ?y" by (simp add: common_sublists_def)
  then have ne: "length ` common_sublists ?x ?y \<noteq> {}" by blast
  have inS: "n \<in> length ` common_sublists ?x ?y" if "n \<in> ?S" for n
  proof -
    from that consider "n = 0" | i j where "n = ?f i j" by auto
    then show ?thesis
    proof cases
      case 1
      then have "n = length ([] :: wstr)" by simp
      then show ?thesis using \<open>[] \<in> common_sublists ?x ?y\<close> by (rule image_eqI)
    next
      case 2
      let ?z = "take n (drop i ?x)"
      have "?z = take n (drop j ?y)" unfolding 2 by (rule common_prefix_len_take(1))
      then have "sublist ?z ?y" by (simp only: sublist_take_drop)
      moreover have "sublist ?z ?x" by (rule sublist_take_drop)
      moreover have "length ?z = n"
        using 2 common_prefix_len_take(2) [of "drop i ?x" "drop j ?y"] by (metis length_take min_absorb2)
      ultimately have "?z \<in> common_sublists ?x ?y" by (simp add: common_sublists_def)
      then have "length ?z \<in> length ` common_sublists ?x ?y" by (rule imageI)
      with \<open>length ?z = n\<close> show ?thesis by simp
    qed
  qed
  have "Max ?S \<in> ?S" by (rule Max_in [OF fin]) (rule insert_not_empty)
  then have le: "Max ?S \<le> Max (length ` common_sublists ?x ?y)" by (intro Max_ge [OF finC] inS)
  have "length z \<le> Max ?S" if z: "z \<in> common_sublists ?x ?y" for z
  proof (cases "z = []")
    case False
    from z obtain p s q t where x: "?x = p @ z @ s" and y: "?y = q @ z @ t"
      by (auto simp: common_sublists_def sublist_def)
    then have "length z \<le> ?f (length p) (length q)"
      by (intro common_prefix_len_max) simp_all
    moreover have "length p \<in> set [0..<length ?x]" "length q \<in> set [0..<length ?y]"
      using False x y by simp_all
    then have "?f (length p) (length q) \<le> Max ?S" by (intro Max_ge [OF fin]) blast
    ultimately show ?thesis by (rule order_trans)
  qed simp
  then have "Max (length ` common_sublists ?x ?y) \<le> Max ?S"
    by (subst Max_le_iff [OF finC ne]) blast
  with le L show ?thesis by linarith
qed

lemma common_sublists_sym: "common_sublists x y = common_sublists y x"
  by (auto simp: common_sublists_def)

lemma LongestCommonSubstringLen_le:
  "LongestCommonSubstringLen ct a b \<le> min (length (NormalizeLoose ct a)) (length (NormalizeLoose ct b))"
proof -
  let ?C = "common_sublists (NormalizeLoose ct a) (NormalizeLoose ct b)"
  have "[] \<in> ?C" by (simp add: common_sublists_def)
  then have "length ` ?C \<noteq> {}" by blast
  moreover have "finite (length ` ?C)" by (simp add: common_sublists_finite)
  moreover have "n \<le> min (length (NormalizeLoose ct a)) (length (NormalizeLoose ct b))"
    if "n \<in> length ` ?C" for n
    using that by (auto simp: common_sublists_def sublist_length_le)
  ultimately show ?thesis unfolding LongestCommonSubstringLen_spec by (subst Max_le_iff) auto
qed

lemma FuzzyTextScore_sym: "FuzzyTextScore ct a b = FuzzyTextScore ct b a"
proof -
  have "LongestCommonSubstringLen ct (NormalizeLoose ct a) (NormalizeLoose ct b) =
    LongestCommonSubstringLen ct (NormalizeLoose ct b) (NormalizeLoose ct a)"
    unfolding LongestCommonSubstringLen_spec by (subst common_sublists_sym) (rule refl)
  moreover define x y where "x = NormalizeLoose ct a" and "y = NormalizeLoose ct b"
  ultimately have L: "LongestCommonSubstringLen ct y x = LongestCommonSubstringLen ct x y" by simp
  have "(x = [] \<or> y = []) = (y = [] \<or> x = [])" "(x = y) = (y = x)"
    "(contains x y \<or> contains y x) = (contains y x \<or> contains x y)" by auto
  then show ?thesis
    unfolding FuzzyTextScore_def Let_def x_def [symmetric] y_def [symmetric] L
      min.commute [of "length y"] max.commute [of "length y"] by (simp only:)
qed

subsection \<open>Cleaning, areas and frames\<close>

lemma strip_prefix_fold_unchanged:
  "\<not> snd (fold (strip_prefix_step ct) ps st) \<Longrightarrow> fold (strip_prefix_step ct) ps st = st"
proof (induction ps arbitrary: st)
  case (Cons p ps)
  from Cons have "fold (strip_prefix_step ct) ps (strip_prefix_step ct p st) = strip_prefix_step ct p st"
    by simp
  moreover from this Cons.prems have "\<not> snd (strip_prefix_step ct p st)" by simp
  then have "strip_prefix_step ct p st = st" by (simp add: strip_prefix_step_def split: if_splits)
  ultimately show ?case by simp
qed simp

lemma CleanNameText_pass: "strip_prefix_pass ct (CleanNameText ct s) = (CleanNameText ct s, False)"
proof (induction ct s rule: CleanNameText.induct)
  case (1 ct s)
  show ?case
  proof (cases "snd (strip_prefix_pass ct s)")
    case True
    with "1.IH" show ?thesis by (simp add: CleanNameText.simps [of ct s])
  next
    case False
    then have p: "strip_prefix_pass ct s = (TrimW ct s, False)"
      unfolding strip_prefix_pass_def by (rule strip_prefix_fold_unchanged)
    then have "CleanNameText ct s = TrimW ct s"
      by (simp add: CleanNameText.simps [of ct s] TrimW_def)
    moreover have "strip_prefix_pass ct (TrimW ct s) = strip_prefix_pass ct s"
      by (simp add: strip_prefix_pass_def TrimW_def)
    ultimately show ?thesis using p by simp
  qed
qed

definition area_hit_ok :: "wstr list \<Rightarrow> wstr \<Rightarrow> text_hit \<Rightarrow> bool" where
  "area_hit_ok areas s h \<longleftrightarrow> 0 \<le> hit_score h \<and> (hit_text h = [] \<or>
     hit_text h \<in> set areas \<and> last (hit_text h) \<in> set s \<and> hit_score h \<in> {76, 88, 100})"

lemma exact_area_ok: "exact_area areas s = Some h \<Longrightarrow> area_hit_ok areas s h"
proof (induction areas)
  case (Cons area areas)
  show ?case
  proof (cases "find_sub area s")
    case (Some pos)
    with Cons.prems have h: "hit_text h = area" "hit_score h = 100" by auto
    have "set area \<subseteq> set s"
      using find_sub_Some [OF Some] by (metis set_drop_subset set_take_subset subset_trans)
    with h show ?thesis by (cases "area = []") (auto simp: area_hit_ok_def)
  qed (use Cons in \<open>auto simp: area_hit_ok_def\<close>)
qed simp

lemma area_window_score_values: "area_window_score ct a b \<in> {0, 76, 88}"
  by (simp add: area_window_score_def Let_def)

lemma fuzzy_area_ok:
  assumes "area \<in> set areas" "area_hit_ok areas s best"
  shows "area_hit_ok areas s (fuzzy_area ct s area best)"
proof (cases "length area < 2")
  case False
  then have l: "area ! (length area - 1) = last area"
    by (metis last_conv_nth length_greater_0_conv less_le_trans not_less pos2)
  have step: "area_hit_ok areas s \<lparr> hit_text = area, hit_score = v, hit_pos = p, hit_len = n \<rparr>"
    if "i \<in> set [0..<length s]" "\<not> s ! i \<noteq> last area" "v > hit_score b" "area_hit_ok areas s b"
      "v \<in> {0, 76, 88}" for i v p n b
    using that assms(1) nth_mem [of i s] by (auto simp: area_hit_ok_def)
  show ?thesis
    unfolding fuzzy_area_def Let_def l
    by (intro keeps_if [where P = "area_hit_ok areas s"] fold_keeps [where P = "area_hit_ok areas s"];
        (assumption | rule assms | erule (3) step, rule area_window_score_values))
qed (use assms in \<open>auto simp: fuzzy_area_def Let_def\<close>)

lemma MatchArea_ok: "area_hit_ok areas (NormalizeRaw ct raw) (MatchArea ct areas raw)"
proof (cases "exact_area areas (NormalizeRaw ct raw)")
  case None
  have "area_hit_ok areas (NormalizeRaw ct raw) (fold (fuzzy_area ct (NormalizeRaw ct raw)) areas no_hit)"
    by (intro fold_keeps [where P = "area_hit_ok areas (NormalizeRaw ct raw)"] fuzzy_area_ok)
       (auto simp: area_hit_ok_def no_hit_def)
  with None show ?thesis by (simp add: MatchArea_def)
next
  case (Some h)
  then show ?thesis by (simp add: MatchArea_def exact_area_ok)
qed

lemma MatchProfession_ok:
  "hit_text (MatchProfession ct jobs raw) = [] \<or> hit_text (MatchProfession ct jobs raw) \<in> set jobs"
  unfolding MatchProfession_def Let_def
  by (intro fold_keeps [where P = "\<lambda>h. hit_text h = [] \<or> hit_text h \<in> set jobs"])
     (auto simp: no_hit_def)

lemma IsPureProfessionLike_length:
  "IsPureProfessionLike ct s h \<Longrightarrow>
   length (NormalizeRaw ct s) \<le> length (NormalizeRaw ct (hit_text h)) + 2"
  by (auto simp: IsPureProfessionLike_def Let_def split: if_splits)

subsection \<open>Properties\<close>

text \<open>
  The common-substring loops compute the length of a longest common substring of the
  loosely normalised texts, and the fuzzy score built on it is symmetric and at most 100.
\<close>

theorem fuzzy_score_spec:
  "LongestCommonSubstringLen ct a b =
     Max (length ` {z. sublist z (NormalizeLoose ct a) \<and> sublist z (NormalizeLoose ct b)}) \<and>
   FuzzyTextScore ct a b = FuzzyTextScore ct b a"
  using LongestCommonSubstringLen_spec [of ct a b] FuzzyTextScore_sym [of ct a b]
  by (simp add: common_sublists_def)

text \<open>
  Property C30. A cleaned name text is a fixed point of the cleaning pass: it is trimmed and starts
  with none of the platform prefixes, in any case, however many were stacked in front of it.
\<close>

theorem clean_name_fixpoint: "strip_prefix_pass ct (CleanNameText ct s) = (CleanNameText ct s, False)"
  by (rule CleanNameText_pass)

text \<open>
  The classification of a panel text. A name-and-area frame names an area of the list
  whose number occurs literally in the text, with a score of at least 75, and a non-empty name; a
  profession frame carries no area, a known profession with a score of at least 84, and is at most
  two characters longer than it; a noise frame carries neither a name nor a profession.
\<close>

theorem panel_text_classification:
  "case pt_kind (ParsePanelText ct areas jobs raw side) of
     NameArea \<Rightarrow>
       pt_area (ParsePanelText ct areas jobs raw side) \<in> set areas \<and>
       last (pt_area (ParsePanelText ct areas jobs raw side)) \<in> set (NormalizeRaw ct (NormalizeRaw ct raw)) \<and>
       75 \<le> pt_areaScore (ParsePanelText ct areas jobs raw side) \<and>
       pt_nameText (ParsePanelText ct areas jobs raw side) \<noteq> [] \<and>
       pt_profession (ParsePanelText ct areas jobs raw side) = []
   | Profession \<Rightarrow>
       pt_area (ParsePanelText ct areas jobs raw side) = [] \<and>
       pt_profession (ParsePanelText ct areas jobs raw side) \<in> set jobs \<and>
       84 \<le> pt_professionScore (ParsePanelText ct areas jobs raw side) \<and>
       length (NormalizeRaw ct (NormalizeRaw ct raw)) \<le>
         length (NormalizeRaw ct (pt_profession (ParsePanelText ct areas jobs raw side))) + 2
   | Noise \<Rightarrow>
       pt_nameText (ParsePanelText ct areas jobs raw side) = [] \<and>
       pt_profession (ParsePanelText ct areas jobs raw side) = []"
proof -
  let ?c = "NormalizeRaw ct raw"
  note simps = ParsePanelText_def Let_def empty_panel_text_def AREA_ACCEPT_SCORE_def JOB_ACCEPT_SCORE_def
  have area: "hit_text (MatchArea ct areas ?c) \<noteq> [] \<Longrightarrow>
      hit_text (MatchArea ct areas ?c) \<in> set areas \<and>
      last (hit_text (MatchArea ct areas ?c)) \<in> set (NormalizeRaw ct ?c)"
    using MatchArea_ok [of areas ct ?c] by (simp add: area_hit_ok_def)
  have job: "hit_text (MatchProfession ct jobs ?c) \<noteq> [] \<Longrightarrow> hit_text (MatchProfession ct jobs ?c) \<in> set jobs"
    using MatchProfession_ok [of ct jobs ?c] by simp
  show ?thesis
    using area job IsPureProfessionLike_length [of ct ?c "MatchProfession ct jobs ?c"]
    by (simp add: simps)
qed

end
