(* ===== verification/TemporalMatcher.thy ===== *)
theory TemporalMatcher
  imports TemporalText
begin

text \<open>
  The state machine of \<^verbatim>\<open>CTemporalIdentityMatcher\<close>: two panel caches of time-stamped votes, the
  learnt hints per player, the update from one recognised text, the fused scoring of the
  candidates of a panel, the acceptance rules and what is learnt from an accepted match. Times
  are the 32-bit tick counts of the program. The trace output (\<^verbatim>\<open>DebugSink\<close>) is left out; the
  explanatory strings of the decision are the constructors of \<open>decision_reason\<close>.
\<close>

subsection \<open>Votes\<close>

record vote =
  vote_text :: wstr
  vote_score :: int
  vote_tick :: dword

definition no_vote :: vote where
  "no_vote = \<lparr> vote_text = [], vote_score = 0, vote_tick = 0 \<rparr>"

definition CACHE_WINDOW_MS :: dword where "CACHE_WINDOW_MS = 22000"
definition SEEK_GAP_RESET_MS :: dword where "SEEK_GAP_RESET_MS = 8000"
definition KILL_SWITCH_GUARD_MS :: dword where "KILL_SWITCH_GUARD_MS = 1800"
definition HINT_WINDOW_MS :: dword where "HINT_WINDOW_MS = 10 * 60 * 1000"
definition MIN_NAME_AREA_FRAMES_FOR_STABLE :: int where "MIN_NAME_AREA_FRAMES_FOR_STABLE = 2"
definition SOFT_SWITCH_CONFIRM_FRAMES :: int where "SOFT_SWITCH_CONFIRM_FRAMES = 2"

definition PushVote :: "vote list \<Rightarrow> wstr \<Rightarrow> int \<Rightarrow> dword \<Rightarrow> vote list" where
  "PushVote votes v score tick =
     (if v = [] then votes else votes @ [\<lparr> vote_text = v, vote_score = score, vote_tick = tick \<rparr>])"

text \<open>Both trimming loops drop expired votes from the front only; they differ in the window.\<close>

definition expired :: "dword \<Rightarrow> dword \<Rightarrow> vote \<Rightarrow> bool" where
  "expired window now v \<longleftrightarrow> now > vote_tick v \<and> now - vote_tick v > window"

definition trim_votes :: "dword \<Rightarrow> dword \<Rightarrow> vote list \<Rightarrow> vote list" where
  "trim_votes window now q = dropWhile (expired window now) q"

definition TrimDeque :: "vote list \<Rightarrow> dword \<Rightarrow> vote list" where
  "TrimDeque q now = trim_votes CACHE_WINDOW_MS now q"

text \<open>
  \<open>BestVote\<close> sums the scores per text in an ordered map and takes the first text, in ascending
  order, with the largest sum.
\<close>

definition vote_sum :: "vote list \<Rightarrow> wstr \<Rightarrow> int" where
  "vote_sum votes t = sum_list (map (\<lambda>v. max 1 (vote_score v)) (filter (\<lambda>v. vote_text v = t) votes))"

definition BestVote :: "vote list \<Rightarrow> vote" where
  "BestVote votes =
     fold (\<lambda>t best. if vote_sum votes t > vote_score best
                    then best\<lparr> vote_text := t, vote_score := vote_sum votes t \<rparr> else best)
       (sort (remdups (map vote_text votes))) no_vote"

subsection \<open>Panels and the matcher\<close>

record runtime_hint =
  hint_areaVotes :: "vote list"
  hint_jobVotes :: "vote list"

definition empty_hint :: runtime_hint where
  "empty_hint = \<lparr> hint_areaVotes = [], hint_jobVotes = [] \<rparr>"

record panel_cache =
  epochId :: int
  lastTick :: dword
  pendingUntilTick :: dword
  rawFrameCount :: int
  nameAreaFrameCount :: int
  professionFrameCount :: int
  consecutiveMismatch :: int
  anchorName :: wstr
  anchorArea :: wstr
  areaVotes :: "vote list"
  jobVotes :: "vote list"
  nameVotes :: "vote list"
  nameTexts :: "vote list"

definition new_panel :: panel_cache where
  "new_panel = \<lparr> epochId = 0, lastTick = 0, pendingUntilTick = 0, rawFrameCount = 0,
     nameAreaFrameCount = 0, professionFrameCount = 0, consecutiveMismatch = 0, anchorName = [],
     anchorArea = [], areaVotes = [], jobVotes = [], nameVotes = [], nameTexts = [] \<rparr>"

record matcher =
  m_nameMatcher :: name_matcher
  m_areas :: "wstr list"
  m_left :: panel_cache
  m_right :: panel_cache
  m_runtimeHints :: "wstr \<rightharpoonup> runtime_hint"

definition Cache :: "matcher \<Rightarrow> panel_side \<Rightarrow> panel_cache" where
  "Cache m side = (if side = LeftNameArea then m_left m else m_right m)"

definition set_cache :: "panel_side \<Rightarrow> panel_cache \<Rightarrow> matcher \<Rightarrow> matcher" where
  "set_cache side c m = (if side = LeftNameArea then m\<lparr> m_left := c \<rparr> else m\<lparr> m_right := c \<rparr>)"

definition GetRuntimeHint :: "matcher \<Rightarrow> wstr \<Rightarrow> runtime_hint" where
  "GetRuntimeHint m key = (case m_runtimeHints m key of None \<Rightarrow> empty_hint | Some h \<Rightarrow> h)"

definition reset_panel :: "dword \<Rightarrow> panel_cache \<Rightarrow> panel_cache" where
  "reset_panel now c = new_panel\<lparr> epochId := epochId c + 1, lastTick := now, pendingUntilTick := now \<rparr>"

definition ResetPanel :: "panel_side \<Rightarrow> dword \<Rightarrow> matcher \<Rightarrow> matcher" where
  "ResetPanel side now m = set_cache side (reset_panel now (Cache m side)) m"

definition Reset :: "dword \<Rightarrow> matcher \<Rightarrow> matcher" where
  "Reset now m = (ResetPanel RightAreaName now (ResetPanel LeftNameArea now m))\<lparr> m_runtimeHints := Map.empty \<rparr>"

definition NotifyKillConfirmed :: "panel_side \<Rightarrow> dword \<Rightarrow> matcher \<Rightarrow> matcher" where
  "NotifyKillConfirmed deadSide now m =
     (let m = ResetPanel deadSide now m in
      set_cache deadSide ((Cache m deadSide)\<lparr> pendingUntilTick := now + KILL_SWITCH_GUARD_MS \<rparr>) m)"

definition NotifyVideoSeekOrJump :: "dword \<Rightarrow> matcher \<Rightarrow> matcher" where
  "NotifyVideoSeekOrJump now m = Reset now m"

definition TrimOldVotes :: "dword \<Rightarrow> panel_cache \<Rightarrow> panel_cache" where
  "TrimOldVotes now c = c\<lparr> areaVotes := TrimDeque (areaVotes c) now, jobVotes := TrimDeque (jobVotes c) now,
     nameVotes := TrimDeque (nameVotes c) now, nameTexts := TrimDeque (nameTexts c) now \<rparr>"

definition TrimRuntimeHint :: "dword \<Rightarrow> runtime_hint \<Rightarrow> runtime_hint" where
  "TrimRuntimeHint now h = \<lparr> hint_areaVotes = trim_votes HINT_WINDOW_MS now (hint_areaVotes h),
     hint_jobVotes = trim_votes HINT_WINDOW_MS now (hint_jobVotes h) \<rparr>"

subsection \<open>The update from one recognised text\<close>

definition seek_gap :: "panel_cache \<Rightarrow> dword \<Rightarrow> bool" where
  "seek_gap c now \<longleftrightarrow> lastTick c \<noteq> 0 \<and> now > lastTick c \<and> now - lastTick c > SEEK_GAP_RESET_MS"

text \<open>Appends the evidence of a name-and-area frame to the votes of a panel.\<close>

definition push_name_area :: "panel_text \<Rightarrow> dword \<Rightarrow> panel_cache \<Rightarrow> panel_cache" where
  "push_name_area p now c =
     (let s = max 60 (pt_areaScore p);
          c = c\<lparr> areaVotes := PushVote (areaVotes c) (pt_area p) (pt_areaScore p) now \<rparr>
      in if pt_nameText p = [] then c
         else c\<lparr> nameVotes := PushVote (nameVotes c) (pt_nameText p) s now,
                nameTexts := nameTexts c @ [\<lparr> vote_text = pt_nameText p, vote_score = s, vote_tick = now \<rparr>] \<rparr>)"

definition soft_mismatch :: "crt \<Rightarrow> name_matcher \<Rightarrow> panel_cache \<Rightarrow> panel_text \<Rightarrow> bool" where
  "soft_mismatch ct nm c p =
     (let oldScore = GetMatchScore ct nm (anchorName c) (pt_nameText p) False;
          areaChanged = (anchorArea c \<noteq> [] \<and> pt_area p \<noteq> [] \<and> anchorArea c \<noteq> pt_area p)
      in (oldScore < 40 \<and> pt_nameText p \<noteq> []) \<or> (areaChanged \<and> oldScore < 65))"

definition name_area_frame :: "crt \<Rightarrow> name_matcher \<Rightarrow> panel_text \<Rightarrow> dword \<Rightarrow> panel_cache \<Rightarrow> panel_cache" where
  "name_area_frame ct nm p now c =
     (let c = push_name_area p now (c\<lparr> nameAreaFrameCount := nameAreaFrameCount c + 1 \<rparr>) in
      if anchorName c = [] \<or> \<not> now \<ge> pendingUntilTick c then c else
      if soft_mismatch ct nm c p then
        let c = c\<lparr> consecutiveMismatch := consecutiveMismatch c + 1 \<rparr> in
        if consecutiveMismatch c \<ge> SOFT_SWITCH_CONFIRM_FRAMES then
          let nc = reset_panel now c; s = max 60 (pt_areaScore p) in
          nc\<lparr> areaVotes := PushVote (areaVotes nc) (pt_area p) (pt_areaScore p) now,
              nameVotes := PushVote (nameVotes nc) (pt_nameText p) s now,
              nameTexts := nameTexts nc @ [\<lparr> vote_text = pt_nameText p, vote_score = s, vote_tick = now \<rparr>],
              nameAreaFrameCount := 1 \<rparr>
        else c
      else c\<lparr> consecutiveMismatch := 0 \<rparr>)"

definition profession_frame :: "panel_text \<Rightarrow> dword \<Rightarrow> panel_cache \<Rightarrow> panel_cache" where
  "profession_frame p now c = c\<lparr> professionFrameCount := professionFrameCount c + 1,
     jobVotes := PushVote (jobVotes c) (pt_profession p) (pt_professionScore p) now \<rparr>"

definition UpdatePanelFromOcr :: "crt \<Rightarrow> panel_side \<Rightarrow> wstr \<Rightarrow> dword \<Rightarrow> matcher \<Rightarrow> panel_text \<times> matcher" where
  "UpdatePanelFromOcr ct side raw now m =
     (let c = Cache m side;
          c = (if seek_gap c now then reset_panel now c else c);
          c = c\<lparr> lastTick := now \<rparr>;
          p = ParsePanelText ct (m_areas m) (m_professions (m_nameMatcher m)) raw side;
          c = c\<lparr> rawFrameCount := rawFrameCount c + 1 \<rparr>;
          c = (case pt_kind p of
                 NameArea \<Rightarrow> name_area_frame ct (m_nameMatcher m) p now c
               | Profession \<Rightarrow> profession_frame p now c
               | Noise \<Rightarrow> c);
          c = TrimOldVotes now c
      in (p, set_cache side c m))"

subsection \<open>Candidates and their scores\<close>

record candidate =
  cand_name :: wstr
  cand_ownerName :: wstr
  cand_team :: int
  cand_isAlias :: bool
  cand_fullMatchName :: wstr
  cand_matchName :: wstr
  cand_declaredArea :: wstr
  cand_declaredJob :: wstr
  cand_hasDeclaredArea :: bool
  cand_hasDeclaredJob :: bool
  cand_isSymbolicId :: bool

datatype id_mode = NoMode | FullId | RealId

datatype decision_reason =
    NoReason | NoCandidate
  | SymbolJobUnique | SymbolAreaJob | SymbolProtected
  | ShortCacheHighId | ShortCacheContext | ShortCacheRejected
  | TwoCharFullHit | TwoCharContext | OneCharProtected | TwoCharProtected
  | MidPassed | MidRejected | LongPassed | LongRejected

record cand_score =
  sc_candidate :: candidate
  sc_idScore :: int
  sc_areaCtxScore :: int
  sc_jobCtxScore :: int
  sc_stableBonus :: int
  sc_penalty :: int
  sc_finalScore :: int
  sc_gapToSecond :: int
  sc_areaMatched :: bool
  sc_areaShortIdAssist :: bool
  sc_jobMatched :: bool
  sc_areaConflict :: bool
  sc_jobConflict :: bool
  sc_accepted :: bool
  sc_bestIdText :: wstr
  sc_scoreCandidateId :: wstr
  sc_scoreOcrId :: wstr
  sc_idMatchMode :: id_mode
  sc_allowStrongIdLock :: bool
  sc_areaNow :: wstr
  sc_jobNow :: wstr
  sc_decisionReason :: decision_reason

definition empty_candidate :: candidate where
  "empty_candidate = \<lparr> cand_name = [], cand_ownerName = [], cand_team = -1, cand_isAlias = False,
     cand_fullMatchName = [], cand_matchName = [], cand_declaredArea = [], cand_declaredJob = [],
     cand_hasDeclaredArea = False, cand_hasDeclaredJob = False, cand_isSymbolicId = False \<rparr>"

definition empty_score :: cand_score where
  "empty_score = \<lparr> sc_candidate = empty_candidate, sc_idScore = 0, sc_areaCtxScore = 0, sc_jobCtxScore = 0,
     sc_stableBonus = 0, sc_penalty = 0, sc_finalScore = 0, sc_gapToSecond = 0, sc_areaMatched = False,
     sc_areaShortIdAssist = False, sc_jobMatched = False, sc_areaConflict = False, sc_jobConflict = False,
     sc_accepted = False, sc_bestIdText = [], sc_scoreCandidateId = [], sc_scoreOcrId = [],
     sc_idMatchMode = NoMode, sc_allowStrongIdLock = False, sc_areaNow = [], sc_jobNow = [],
     sc_decisionReason = NoReason \<rparr>"

definition cand_match_name :: "candidate \<Rightarrow> wstr" where
  "cand_match_name cand = (if cand_matchName cand = [] then cand_name cand else cand_matchName cand)"

definition cand_full_name :: "candidate \<Rightarrow> wstr" where
  "cand_full_name cand = (if cand_fullMatchName cand = [] then cand_match_name cand else cand_fullMatchName cand)"

definition symbol_id_mode :: "crt \<Rightarrow> candidate \<Rightarrow> bool" where
  "symbol_id_mode ct cand \<longleftrightarrow> cand_isSymbolicId cand \<or> IsSymbolLikeId ct (cand_match_name cand)"

text \<open>The identity score of one recognised name text against one candidate, and its short-ID flag.\<close>

definition name_text_score :: "crt \<Rightarrow> wstr \<Rightarrow> candidate \<Rightarrow> wstr \<Rightarrow> int \<times> bool" where
  "name_text_score ct areaTop cand nt =
     (if cand_hasDeclaredArea cand \<and> areaTop \<noteq> [] then
        let exactFullScore = ExactFullIdWithAreaScore ct (cand_declaredArea cand) (cand_match_name cand) areaTop nt;
            realScore = IdPartScore ct (cand_match_name cand) nt;
            twoCharAssist = (VisibleLen ct (cand_match_name cand) = 2 \<and>
              LcsLen (NormalizeRaw ct (cand_match_name cand)) (NormalizeRaw ct nt) \<ge> 1 \<and> realScore > 0)
        in if exactFullScore \<ge> 95 then (exactFullScore, False)
           else if twoCharAssist then (max realScore 55, True)
           else (realScore, False)
      else (IdPartScore ct (cand_match_name cand) nt, False))"

definition id_step :: "crt \<Rightarrow> wstr \<Rightarrow> candidate \<Rightarrow> vote \<Rightarrow> cand_score \<Rightarrow> cand_score" where
  "id_step ct areaTop cand nt s =
     (let bothHaveArea = (cand_hasDeclaredArea cand \<and> areaTop \<noteq> []);
          r = name_text_score ct areaTop cand (vote_text nt)
      in if fst r > sc_idScore s
         then s\<lparr> sc_idScore := fst r, sc_bestIdText := vote_text nt,
                sc_scoreCandidateId := (if bothHaveArea then cand_full_name cand else cand_match_name cand),
                sc_scoreOcrId := vote_text nt,
                sc_idMatchMode := (if bothHaveArea then FullId else RealId),
                sc_areaShortIdAssist := snd r \<rparr>
         else s)"

definition id_part :: "crt \<Rightarrow> panel_cache \<Rightarrow> wstr \<Rightarrow> candidate \<Rightarrow> cand_score \<Rightarrow> cand_score" where
  "id_part ct c areaTop cand s =
     (if symbol_id_mode ct cand then s else fold (id_step ct areaTop cand) (nameTexts c) s)"

definition lock_part :: "crt \<Rightarrow> wstr \<Rightarrow> candidate \<Rightarrow> cand_score \<Rightarrow> cand_score" where
  "lock_part ct areaTop cand s =
     (if VisibleLen ct (cand_match_name cand) \<le> 1 then
        s\<lparr> sc_allowStrongIdLock := (cand_hasDeclaredArea cand \<and> areaTop \<noteq> [] \<and> sc_idScore s \<ge> 95 \<and>
             NormalizeRaw ct (cand_match_name cand) = NormalizeRaw ct (sc_bestIdText s)) \<rparr>
      else s\<lparr> sc_allowStrongIdLock := True \<rparr>)"

definition area_part :: "crt \<Rightarrow> wstr \<Rightarrow> runtime_hint \<Rightarrow> candidate \<Rightarrow> cand_score \<Rightarrow> cand_score" where
  "area_part ct areaTop hint cand s =
     (let nameLen = VisibleLen ct (cand_match_name cand);
          s = (if areaTop \<noteq> [] \<and> cand_hasDeclaredArea cand then
                 (if AreaFuzzySame ct areaTop (cand_declaredArea cand) then s\<lparr> sc_areaMatched := True \<rparr>
                  else s\<lparr> sc_areaConflict := True,
                         sc_penalty := sc_penalty s +
                           (if symbol_id_mode ct cand then 8 else if nameLen \<le> 2 then 6 else 3) \<rparr>)
               else s);
          learnedArea = vote_text (BestVote (hint_areaVotes hint))
      in if areaTop \<noteq> [] \<and> learnedArea \<noteq> [] then
           (if AreaFuzzySame ct areaTop learnedArea then s\<lparr> sc_areaMatched := True \<rparr>
            else if \<not> cand_hasDeclaredArea cand then
              s\<lparr> sc_areaConflict := True, sc_penalty := sc_penalty s + (if nameLen \<le> 2 then 6 else 3) \<rparr>
            else s)
         else s)"

definition job_part :: "crt \<Rightarrow> wstr \<Rightarrow> runtime_hint \<Rightarrow> candidate \<Rightarrow> cand_score \<Rightarrow> cand_score" where
  "job_part ct jobTop hint cand s =
     (let nameLen = VisibleLen ct (cand_match_name cand);
          s = (if jobTop \<noteq> [] \<and> cand_hasDeclaredJob cand then
                 (if JobFuzzySame ct jobTop (cand_declaredJob cand) then
                    s\<lparr> sc_jobMatched := True,
                      sc_jobCtxScore := sc_jobCtxScore s +
                        (if symbol_id_mode ct cand then 58 else if nameLen \<le> 2 then 28 else 12) \<rparr>
                  else
                    s\<lparr> sc_jobConflict := True,
                      sc_penalty := sc_penalty s +
                        (if symbol_id_mode ct cand then 10 else if nameLen \<le> 2 then 8 else 4) \<rparr>)
               else s);
          learnedJob = vote_text (BestVote (hint_jobVotes hint))
      in if jobTop \<noteq> [] \<and> learnedJob \<noteq> [] then
           (if JobFuzzySame ct jobTop learnedJob then
              s\<lparr> sc_jobMatched := True,
                sc_jobCtxScore := sc_jobCtxScore s + (if nameLen \<le> 2 then 16 else 7) \<rparr>
            else if \<not> cand_hasDeclaredJob cand then
              s\<lparr> sc_jobConflict := True, sc_penalty := sc_penalty s + (if nameLen \<le> 2 then 8 else 4) \<rparr>
            else s)
         else s)"

definition clamp_final :: "int \<Rightarrow> int" where
  "clamp_final f = (let f = (if f < 0 then 0 else f) in if f > 160 then 160 else f)"

definition final_part :: "crt \<Rightarrow> panel_cache \<Rightarrow> candidate \<Rightarrow> cand_score \<Rightarrow> cand_score" where
  "final_part ct c cand s =
     (let s = (if nameAreaFrameCount c \<ge> 2 then s\<lparr> sc_stableBonus := sc_stableBonus s + 5 \<rparr> else s);
          s = (if professionFrameCount c \<ge> 2
               then s\<lparr> sc_stableBonus := sc_stableBonus s + (if symbol_id_mode ct cand then 8 else 3) \<rparr> else s)
      in s\<lparr> sc_finalScore := clamp_final (sc_idScore s + sc_areaCtxScore s + sc_jobCtxScore s
             + sc_stableBonus s - sc_penalty s) \<rparr>)"

definition score_candidate :: "crt \<Rightarrow> matcher \<Rightarrow> panel_cache \<Rightarrow> wstr \<Rightarrow> wstr \<Rightarrow> candidate \<Rightarrow> cand_score" where
  "score_candidate ct m c areaTop jobTop cand =
     (let hint = GetRuntimeHint m (cand_name cand);
          s = empty_score\<lparr> sc_candidate := cand, sc_areaNow := areaTop, sc_jobNow := jobTop \<rparr>
      in final_part ct c cand (job_part ct jobTop hint cand (area_part ct areaTop hint cand
           (lock_part ct areaTop cand (id_part ct c areaTop cand s)))))"

subsection \<open>Acceptance\<close>

definition AcceptCandidate :: "crt \<Rightarrow> cand_score \<Rightarrow> cand_score \<Rightarrow> bool \<Rightarrow> bool \<times> cand_score" where
  "AcceptCandidate ct best second cacheInsufficient =
     (if cand_name (sc_candidate best) = [] then (False, best\<lparr> sc_decisionReason := NoCandidate \<rparr>) else
      let nameLen = VisibleLen ct (cand_match_name (sc_candidate best));
          gap = sc_finalScore best - sc_finalScore second;
          best = best\<lparr> sc_gapToSecond := gap \<rparr>;
          verdict = (\<lambda>ok r. (ok, best\<lparr> sc_decisionReason := r \<rparr>))
      in if symbol_id_mode ct (sc_candidate best) then
           (if sc_jobMatched best \<and> sc_finalScore best \<ge> 58 \<and> gap \<ge> 25 then verdict True SymbolJobUnique
            else if sc_areaMatched best \<and> sc_jobMatched best \<and> sc_finalScore best \<ge> 78 \<and> gap \<ge> 18
            then verdict True SymbolAreaJob
            else verdict False SymbolProtected)
         else if cacheInsufficient then
           (if sc_allowStrongIdLock best \<and> sc_idScore best \<ge> 95 \<and> gap \<ge> 18 then verdict True ShortCacheHighId
            else if nameLen \<le> 2 \<and> sc_allowStrongIdLock best \<and> sc_idScore best \<ge> 35 \<and>
              sc_finalScore best \<ge> 65 \<and> gap \<ge> 10 \<and> (sc_areaMatched best \<or> sc_jobMatched best)
            then verdict True ShortCacheContext
            else verdict False ShortCacheRejected)
         else if nameLen \<le> 2 then
           (if sc_allowStrongIdLock best \<and> sc_idScore best \<ge> 95 \<and> sc_finalScore best \<ge> 95 \<and> gap \<ge> 18
            then verdict True TwoCharFullHit
            else if sc_allowStrongIdLock best \<and> sc_idScore best \<ge> 50 \<and> sc_finalScore best \<ge> 85 \<and>
              gap \<ge> 12 \<and> (sc_areaMatched best \<or> sc_jobMatched best)
            then verdict True TwoCharContext
            else if \<not> sc_allowStrongIdLock best then verdict False OneCharProtected
            else verdict False TwoCharProtected)
         else if nameLen \<le> 4 then
           (if sc_finalScore best \<ge> 68 \<and> gap \<ge> 10 then verdict True MidPassed else verdict False MidRejected)
         else if sc_finalScore best \<ge> 50 \<and> gap \<ge> 8 then verdict True LongPassed
         else verdict False LongRejected)"

subsection \<open>Learning and matching\<close>

definition can_learn_anchor :: "crt \<Rightarrow> panel_cache \<Rightarrow> cand_score \<Rightarrow> bool" where
  "can_learn_anchor ct c s =
     (let nameLen = VisibleLen ct (cand_match_name (sc_candidate s)) in
      (sc_idScore s \<ge> 90 \<and> sc_gapToSecond s \<ge> 18) \<or>
      (nameLen > 2 \<and> sc_idScore s \<ge> 80 \<and> sc_gapToSecond s \<ge> 12) \<or>
      (nameLen \<le> 2 \<and> sc_idScore s \<ge> 85 \<and> sc_gapToSecond s \<ge> 18 \<and> nameAreaFrameCount c \<ge> 2))"

definition LearnFromAcceptedMatch :: "crt \<Rightarrow> panel_side \<Rightarrow> cand_score \<Rightarrow> dword \<Rightarrow> matcher \<Rightarrow> matcher" where
  "LearnFromAcceptedMatch ct side s now m =
     (let c = Cache m side; areaTop = BestVote (areaVotes c); jobTop = BestVote (jobVotes c) in
      if \<not> can_learn_anchor ct c s then m else
      let key = cand_name (sc_candidate s);
          m = set_cache side (c\<lparr> anchorName := key, anchorArea := vote_text areaTop, consecutiveMismatch := 0 \<rparr>) m;
          hint = GetRuntimeHint m key;
          hint = (if vote_text areaTop \<noteq> [] \<and> vote_score areaTop \<ge> AREA_ACCEPT_SCORE
                  then hint\<lparr> hint_areaVotes := PushVote (hint_areaVotes hint) (vote_text areaTop) (vote_score areaTop) now \<rparr>
                  else hint);
          hint = (if vote_text jobTop \<noteq> [] \<and> (professionFrameCount c \<ge> 2 \<or> vote_score jobTop \<ge> 180)
                  then hint\<lparr> hint_jobVotes := PushVote (hint_jobVotes hint) (vote_text jobTop) (vote_score jobTop) now \<rparr>
                  else hint)
      in m\<lparr> m_runtimeHints := (m_runtimeHints m)(key \<mapsto> TrimRuntimeHint now hint) \<rparr>)"

record match_result =
  mr_ok :: bool
  mr_cacheInsufficient :: bool
  mr_best :: cand_score
  mr_second :: cand_score
  mr_topScores :: "cand_score list"

text \<open>
  \<open>srt\<close> stands for \<^verbatim>\<open>std::sort\<close> by descending \<^verbatim>\<open>finalScore\<close>, which leaves the order of ties open:
  any function that returns a permutation of its argument in that order.
\<close>

definition sorts_scores :: "(cand_score list \<Rightarrow> cand_score list) \<Rightarrow> bool" where
  "sorts_scores srt \<longleftrightarrow> (\<forall>xs. mset (srt xs) = mset xs \<and>
     sorted_wrt (\<lambda>a b. sc_finalScore a \<ge> sc_finalScore b) (srt xs))"

definition rank_scores :: "crt \<Rightarrow> bool \<Rightarrow> cand_score list \<Rightarrow> match_result" where
  "rank_scores ct insufficient scores =
     (let best = (case scores of [] \<Rightarrow> empty_score | s # _ \<Rightarrow> s);
          second = (case scores of _ # s # _ \<Rightarrow> s | _ \<Rightarrow> empty_score);
          best = best\<lparr> sc_gapToSecond := sc_finalScore best - sc_finalScore second \<rparr>;
          r = AcceptCandidate ct best second insufficient
      in \<lparr> mr_ok = fst r, mr_cacheInsufficient = insufficient, mr_best = (snd r)\<lparr> sc_accepted := fst r \<rparr>,
           mr_second = second, mr_topScores = scores \<rparr>)"

definition MatchPanel ::
  "crt \<Rightarrow> (cand_score list \<Rightarrow> cand_score list) \<Rightarrow> panel_side \<Rightarrow> candidate list \<Rightarrow> dword \<Rightarrow> matcher \<Rightarrow>
   match_result \<times> matcher" where
  "MatchPanel ct srt side candidates now m =
     (let c = TrimOldVotes now (Cache m side);
          m = set_cache side c m;
          areaTop = vote_text (BestVote (areaVotes c));
          jobTop = vote_text (BestVote (jobVotes c));
          insufficient = (nameAreaFrameCount c < MIN_NAME_AREA_FRAMES_FOR_STABLE)
      in if nameTexts c = [] \<and> areaTop = [] \<and> jobTop = [] then
           (\<lparr> mr_ok = False, mr_cacheInsufficient = insufficient, mr_best = empty_score,
              mr_second = empty_score, mr_topScores = [] \<rparr>, m)
         else
           let scores = srt (map (score_candidate ct m c areaTop jobTop)
                 (filter (\<lambda>cand. cand_name cand \<noteq> []) candidates));
               result = rank_scores ct insufficient scores
           in (result, if mr_ok result then LearnFromAcceptedMatch ct side (mr_best result) now m else m))"

subsection \<open>Votes and their expiry\<close>

definition votes_ok :: "dword \<Rightarrow> vote list \<Rightarrow> bool" where
  "votes_ok t q \<longleftrightarrow> sorted (map vote_tick q) \<and> (\<forall>v \<in> set q. vote_tick v \<le> t \<and> vote_text v \<noteq> [])"

definition votes_fresh :: "dword \<Rightarrow> dword \<Rightarrow> vote list \<Rightarrow> bool" where
  "votes_fresh window now q \<longleftrightarrow> (\<forall>v \<in> set q. now - vote_tick v \<le> window)"

lemma votes_ok_Nil [simp]: "votes_ok t []"
  by (simp add: votes_ok_def)

lemma votes_ok_later: "votes_ok t q \<Longrightarrow> t \<le> now \<Longrightarrow> votes_ok now q"
  by (auto simp: votes_ok_def)

lemma votes_ok_snoc:
  "votes_ok t q \<Longrightarrow> t \<le> now \<Longrightarrow> x \<noteq> [] \<Longrightarrow>
   votes_ok now (q @ [\<lparr> vote_text = x, vote_score = s, vote_tick = now \<rparr>])"
  by (auto simp: votes_ok_def sorted_append intro: order_trans)

lemma votes_ok_push: "votes_ok t q \<Longrightarrow> t \<le> now \<Longrightarrow> votes_ok now (PushVote q x s now)"
  by (simp add: PushVote_def votes_ok_snoc votes_ok_later)

lemma trim_votes_set: "set (trim_votes w now q) \<subseteq> set q"
  by (auto simp: trim_votes_def dest: set_dropWhileD)

lemma votes_ok_trim: "votes_ok t q \<Longrightarrow> votes_ok t (trim_votes w now q)"
proof -
  assume ok: "votes_ok t q"
  have "map vote_tick q = map vote_tick (takeWhile (expired w now) q) @ map vote_tick (trim_votes w now q)"
    unfolding trim_votes_def by (simp flip: map_append)
  then have "sorted (map vote_tick (trim_votes w now q))"
    using ok unfolding votes_ok_def by (metis sorted_append)
  then show ?thesis using ok trim_votes_set [of w now q] by (auto simp: votes_ok_def)
qed

lemma elapsed_antimono:
  fixes a b now :: dword
  assumes "a \<le> b" "b \<le> now"
  shows "now - b \<le> now - a"
  using assms by (simp add: word_le_nat_alt unat_sub)

text \<open>On a log in tick order, dropping expired votes from the front drops all of them.\<close>

lemma trim_votes_fresh:
  assumes "votes_ok now q"
  shows "votes_fresh w now (trim_votes w now q)"
proof (cases "trim_votes w now q")
  case (Cons v vs)
  have ok: "votes_ok now (v # vs)" using votes_ok_trim [OF assms, of w now] Cons by simp
  then have v: "vote_tick v \<le> now" by (simp add: votes_ok_def)
  have "\<not> expired w now v" using hd_dropWhile [of "expired w now" q] Cons
    unfolding trim_votes_def by (metis list.distinct(1) list.sel(1))
  then have "now - vote_tick v \<le> w" using v by (auto simp: expired_def not_less)
  moreover have "now - vote_tick u \<le> now - vote_tick v" if "u \<in> set (v # vs)" for u
    using that ok by (intro elapsed_antimono) (auto simp: votes_ok_def)
  ultimately show ?thesis unfolding Cons votes_fresh_def by (blast intro: order_trans)
qed (simp add: votes_fresh_def)

subsection \<open>The best vote\<close>

lemma vote_sum_pos: "t \<in> vote_text ` set votes \<Longrightarrow> 0 < vote_sum votes t"
proof -
  assume "t \<in> vote_text ` set votes"
  then obtain v where v: "v \<in> set votes" "vote_text v = t" by auto
  let ?q = "filter (\<lambda>v. vote_text v = t) votes"
  have "v \<in> set ?q" using v by simp
  then have "1 \<le> max 1 (vote_score v) \<and> max 1 (vote_score v) \<le> vote_sum votes t"
    unfolding vote_sum_def by (intro conjI member_le_sum_list) auto
  then show ?thesis by linarith
qed

text \<open>The fold over the sorted texts keeps the first text with the largest sum.\<close>

lemma best_fold:
  fixes w :: "wstr \<Rightarrow> int"
  assumes "sorted ts" "\<forall>t \<in> set ts. 0 < w t"
  defines "r \<equiv> fold (\<lambda>t best. if w t > vote_score best then best\<lparr> vote_text := t, vote_score := w t \<rparr> else best)
     ts no_vote"
  shows "(ts = [] \<longrightarrow> r = no_vote) \<and> (ts \<noteq> [] \<longrightarrow> vote_text r \<in> set ts \<and> vote_score r = w (vote_text r) \<and>
    (\<forall>t \<in> set ts. w t \<le> w (vote_text r) \<and> (w t = w (vote_text r) \<longrightarrow> vote_text r \<le> t)))"
  using assms(1,2) unfolding r_def
proof (induction ts rule: rev_induct)
  case (snoc x xs)
  define r0 where "r0 = fold (\<lambda>t best. if w t > vote_score best
    then best\<lparr> vote_text := t, vote_score := w t \<rparr> else best) xs no_vote"
  have IH: "(xs = [] \<longrightarrow> r0 = no_vote) \<and> (xs \<noteq> [] \<longrightarrow> vote_text r0 \<in> set xs \<and> vote_score r0 = w (vote_text r0) \<and>
      (\<forall>t \<in> set xs. w t \<le> w (vote_text r0) \<and> (w t = w (vote_text r0) \<longrightarrow> vote_text r0 \<le> t)))"
    using snoc by (simp add: sorted_append r0_def)
  have le: "\<forall>t \<in> set xs. t \<le> x" and wx: "0 < w x" using snoc.prems by (simp_all add: sorted_append)
  show ?case
  proof (cases "xs = []")
    case True
    with wx show ?thesis by (simp add: no_vote_def)
  next
    case False
    with IH have IH: "vote_text r0 \<in> set xs" "vote_score r0 = w (vote_text r0)"
      "\<forall>t \<in> set xs. w t \<le> w (vote_text r0)" "\<forall>t \<in> set xs. w t = w (vote_text r0) \<longrightarrow> vote_text r0 \<le> t"
      by auto
    have "vote_text r0 \<le> x" using IH(1) le by blast
    then show ?thesis using IH
      by (cases "w x > vote_score r0") (auto simp flip: r0_def simp: not_less dest: le_less_trans)
  qed
qed (simp add: no_vote_def)

lemma BestVote_Nil [simp]: "BestVote [] = no_vote"
  by (simp add: BestVote_def)

lemma BestVote_spec:
  assumes "votes \<noteq> []"
  shows "vote_text (BestVote votes) \<in> vote_text ` set votes"
    and "vote_score (BestVote votes) = vote_sum votes (vote_text (BestVote votes))"
    and "t \<in> vote_text ` set votes \<Longrightarrow> vote_sum votes t \<le> vote_score (BestVote votes)"
    and "t \<in> vote_text ` set votes \<Longrightarrow> vote_sum votes t = vote_score (BestVote votes) \<Longrightarrow>
      vote_text (BestVote votes) \<le> t"
proof -
  let ?ts = "sort (remdups (map vote_text votes))"
  have "?ts \<noteq> []" using assms by (simp flip: set_empty)
  then have "vote_text (BestVote votes) \<in> set ?ts \<and>
      vote_score (BestVote votes) = vote_sum votes (vote_text (BestVote votes)) \<and>
      (\<forall>t \<in> set ?ts. vote_sum votes t \<le> vote_sum votes (vote_text (BestVote votes)) \<and>
        (vote_sum votes t = vote_sum votes (vote_text (BestVote votes)) \<longrightarrow> vote_text (BestVote votes) \<le> t))"
    using best_fold [of ?ts "vote_sum votes"] vote_sum_pos unfolding BestVote_def by simp
  then show "vote_text (BestVote votes) \<in> vote_text ` set votes"
    and "vote_score (BestVote votes) = vote_sum votes (vote_text (BestVote votes))"
    and "t \<in> vote_text ` set votes \<Longrightarrow> vote_sum votes t \<le> vote_score (BestVote votes)"
    and "t \<in> vote_text ` set votes \<Longrightarrow> vote_sum votes t = vote_score (BestVote votes) \<Longrightarrow>
      vote_text (BestVote votes) \<le> t"
    by auto
qed

subsection \<open>The invariant of a panel\<close>

definition panel_ok :: "dword \<Rightarrow> panel_cache \<Rightarrow> bool" where
  "panel_ok t c \<longleftrightarrow> lastTick c \<le> t \<and> votes_ok t (areaVotes c) \<and> votes_ok t (jobVotes c) \<and>
     votes_ok t (nameVotes c) \<and> votes_ok t (nameTexts c)"

definition hint_ok :: "dword \<Rightarrow> runtime_hint \<Rightarrow> bool" where
  "hint_ok t h \<longleftrightarrow> votes_ok t (hint_areaVotes h) \<and> votes_ok t (hint_jobVotes h)"

definition matcher_ok :: "dword \<Rightarrow> matcher \<Rightarrow> bool" where
  "matcher_ok t m \<longleftrightarrow> panel_ok t (m_left m) \<and> panel_ok t (m_right m) \<and>
     (\<forall>k h. m_runtimeHints m k = Some h \<longrightarrow> hint_ok t h)"

definition panel_fresh :: "dword \<Rightarrow> panel_cache \<Rightarrow> bool" where
  "panel_fresh now c \<longleftrightarrow> votes_fresh CACHE_WINDOW_MS now (areaVotes c) \<and>
     votes_fresh CACHE_WINDOW_MS now (jobVotes c) \<and> votes_fresh CACHE_WINDOW_MS now (nameVotes c) \<and>
     votes_fresh CACHE_WINDOW_MS now (nameTexts c)"

lemma Cache_set_cache [simp]:
  "Cache (set_cache side c m) side = c"
  "side \<noteq> side' \<Longrightarrow> Cache (set_cache side c m) side' = Cache m side'"
  "m_runtimeHints (set_cache side c m) = m_runtimeHints m"
  "m_nameMatcher (set_cache side c m) = m_nameMatcher m" "m_areas (set_cache side c m) = m_areas m"
  by (cases side; cases side'; simp add: Cache_def set_cache_def)+

lemma GetRuntimeHint_set_cache [simp]: "GetRuntimeHint (set_cache side c m) k = GetRuntimeHint m k"
  by (simp add: GetRuntimeHint_def)

lemma matcher_ok_cache: "matcher_ok t m \<Longrightarrow> panel_ok t (Cache m side)"
  by (simp add: matcher_ok_def Cache_def)

lemma matcher_ok_later: "matcher_ok t m \<Longrightarrow> t \<le> now \<Longrightarrow> matcher_ok now m"
  unfolding matcher_ok_def panel_ok_def hint_ok_def by (meson order_trans votes_ok_later)

lemma panel_ok_later: "panel_ok t c \<Longrightarrow> t \<le> now \<Longrightarrow> panel_ok now c"
  unfolding panel_ok_def by (meson order_trans votes_ok_later)

lemma matcher_ok_set: "matcher_ok t m \<Longrightarrow> panel_ok t c \<Longrightarrow> matcher_ok t (set_cache side c m)"
  by (auto simp: matcher_ok_def set_cache_def)

lemma panel_ok_reset [simp]: "panel_ok now (reset_panel now c)"
  by (simp add: panel_ok_def reset_panel_def new_panel_def)

lemma panel_ok_trim: "panel_ok t c \<Longrightarrow> panel_ok t (TrimOldVotes now c)"
  by (simp add: panel_ok_def TrimOldVotes_def TrimDeque_def votes_ok_trim)

lemma panel_fresh_trim: "panel_ok now c \<Longrightarrow> panel_fresh now (TrimOldVotes now c)"
  by (simp add: panel_ok_def panel_fresh_def TrimOldVotes_def TrimDeque_def trim_votes_fresh)

lemma push_name_area_ok:
  "panel_ok t c \<Longrightarrow> t \<le> now \<Longrightarrow> panel_ok now (push_name_area p now c)"
  unfolding panel_ok_def push_name_area_def Let_def
  by (auto intro: votes_ok_push votes_ok_snoc votes_ok_later order_trans)

lemma votes_ok_single: "x \<noteq> [] \<Longrightarrow> votes_ok now [\<lparr> vote_text = x, vote_score = v, vote_tick = now \<rparr>]"
  by (simp add: votes_ok_def)

lemma name_area_frame_ok:
  assumes "panel_ok t c" "t \<le> now" "pt_nameText p \<noteq> []"
  shows "panel_ok now (name_area_frame ct nm p now c)"
proof -
  have c1: "panel_ok now (push_name_area p now (c\<lparr> nameAreaFrameCount := n \<rparr>))" for n
    using assms(1,2) by (intro push_name_area_ok [of t]) (simp_all add: panel_ok_def)
  show ?thesis
    unfolding name_area_frame_def Let_def
    using c1 assms(3)
    by (auto simp: panel_ok_def reset_panel_def new_panel_def votes_ok_single
        intro!: votes_ok_push [of now] split: if_splits)
qed

lemma profession_frame_ok: "panel_ok t c \<Longrightarrow> t \<le> now \<Longrightarrow> panel_ok now (profession_frame p now c)"
  unfolding panel_ok_def profession_frame_def
  by (auto intro: votes_ok_push votes_ok_later order_trans)

text \<open>One update, on the panel it changes.\<close>

definition update_panel :: "crt \<Rightarrow> name_matcher \<Rightarrow> panel_text \<Rightarrow> dword \<Rightarrow> panel_cache \<Rightarrow> panel_cache" where
  "update_panel ct nm p now c0 =
     (let c = (if seek_gap c0 now then reset_panel now c0 else c0);
          c = c\<lparr> lastTick := now, rawFrameCount := rawFrameCount c + 1 \<rparr>;
          c = (case pt_kind p of NameArea \<Rightarrow> name_area_frame ct nm p now c
               | Profession \<Rightarrow> profession_frame p now c | Noise \<Rightarrow> c)
      in TrimOldVotes now c)"

lemma UpdatePanel_decompose:
  "UpdatePanelFromOcr ct side raw now m =
     (let p = ParsePanelText ct (m_areas m) (m_professions (m_nameMatcher m)) raw side in
      (p, set_cache side (update_panel ct (m_nameMatcher m) p now (Cache m side)) m))"
  unfolding UpdatePanelFromOcr_def update_panel_def Let_def
  by (cases "pt_kind (ParsePanelText ct (m_areas m) (m_professions (m_nameMatcher m)) raw side)") simp_all

lemma name_area_has_name:
  "pt_kind (ParsePanelText ct areas jobs raw side) = NameArea \<Longrightarrow>
   pt_nameText (ParsePanelText ct areas jobs raw side) \<noteq> []"
  unfolding ParsePanelText_def Let_def
  by (auto simp: empty_panel_text_def split: if_splits)

lemma update_panel_ok:
  assumes "panel_ok t c" "t \<le> now" "pt_kind p = NameArea \<Longrightarrow> pt_nameText p \<noteq> []"
  shows "panel_ok now (update_panel ct nm p now c) \<and> panel_fresh now (update_panel ct nm p now c)"
proof -
  define c1 where "c1 = (if seek_gap c now then reset_panel now c else c)"
  have "panel_ok now c1" using assms by (simp add: c1_def panel_ok_later)
  then have c2: "panel_ok now (c1\<lparr> lastTick := now, rawFrameCount := rawFrameCount c1 + 1 \<rparr>)" (is "panel_ok _ ?c2")
    by (simp add: panel_ok_def)
  have "panel_ok now (case pt_kind p of NameArea \<Rightarrow> name_area_frame ct nm p now ?c2
      | Profession \<Rightarrow> profession_frame p now ?c2 | Noise \<Rightarrow> ?c2)"
    using c2 assms(3) name_area_frame_ok [OF c2 order_refl] profession_frame_ok [OF c2 order_refl]
    by (auto split: frame_kind.splits)
  then show ?thesis
    unfolding update_panel_def Let_def c1_def [symmetric]
    using panel_ok_trim panel_fresh_trim by blast
qed

lemma UpdatePanel_ok:
  assumes "matcher_ok t m" "t \<le> now"
  shows "matcher_ok now (snd (UpdatePanelFromOcr ct side raw now m)) \<and>
    panel_fresh now (Cache (snd (UpdatePanelFromOcr ct side raw now m)) side)"
proof -
  have "panel_ok t (Cache m side)" using assms(1) by (rule matcher_ok_cache)
  from update_panel_ok [OF this assms(2) name_area_has_name] show ?thesis
    by (auto simp: UpdatePanel_decompose Let_def intro: matcher_ok_set matcher_ok_later [OF assms])
qed

lemma hint_ok_GetRuntimeHint: "matcher_ok t m \<Longrightarrow> hint_ok t (GetRuntimeHint m k)"
  by (auto simp: GetRuntimeHint_def matcher_ok_def hint_ok_def empty_hint_def split: option.splits)

lemma hint_ok_trim: "hint_ok t h \<Longrightarrow> hint_ok t (TrimRuntimeHint now h)"
  by (simp add: hint_ok_def TrimRuntimeHint_def votes_ok_trim)

lemma Learn_ok:
  assumes "matcher_ok t m" "t \<le> now"
  shows "matcher_ok now (LearnFromAcceptedMatch ct side s now m)"
proof -
  have m: "matcher_ok now m" using matcher_ok_later [OF assms] .
  have h: "hint_ok now (GetRuntimeHint m k)" for k using hint_ok_GetRuntimeHint [OF m] .
  have p: "panel_ok now (Cache m side)" using matcher_ok_cache [OF m] .
  have push: "hint_ok now (h'\<lparr> hint_areaVotes := PushVote (hint_areaVotes h') x v now \<rparr>)"
    "hint_ok now (h'\<lparr> hint_jobVotes := PushVote (hint_jobVotes h') x v now \<rparr>)" if "hint_ok now h'" for h' x v
    using that by (auto simp: hint_ok_def intro: votes_ok_push)
  have upd: "matcher_ok now (set_cache side c m\<lparr> m_runtimeHints := (m_runtimeHints m)(k \<mapsto> h') \<rparr>)"
    if "panel_ok now c" "hint_ok now h'" for c k h'
    using matcher_ok_set [OF m that(1), of side] that(2) by (auto simp: matcher_ok_def)
  show ?thesis
  proof (cases "can_learn_anchor ct (Cache m side) s")
    case False
    with m show ?thesis by (simp add: LearnFromAcceptedMatch_def Let_def)
  next
    case True
    have anchor: "panel_ok now ((Cache m side)\<lparr> anchorName := x, anchorArea := y, consecutiveMismatch := n \<rparr>)"
      for x y n using p by (simp add: panel_ok_def)
    show ?thesis
      unfolding LearnFromAcceptedMatch_def Let_def
      using True by (simp add: upd [OF anchor] hint_ok_trim push h)
  qed
qed

lemma MatchPanel_ok:
  assumes "matcher_ok t m" "t \<le> now"
  shows "matcher_ok now (snd (MatchPanel ct srt side cands now m))"
proof -
  have "matcher_ok now (set_cache side (TrimOldVotes now (Cache m side)) m)"
    using assms by (meson matcher_ok_cache matcher_ok_later matcher_ok_set panel_ok_trim)
  then show ?thesis
    unfolding MatchPanel_def Let_def by (auto intro: Learn_ok)
qed

subsection \<open>Runs of the matcher\<close>

text \<open>
  The states the dialog can reach: it starts from the default caches and feeds recognised texts,
  match requests, confirmed kills, manual resets and video jumps at tick counts that never decrease.
\<close>

definition init_matcher :: "name_matcher \<Rightarrow> matcher" where
  "init_matcher nm = \<lparr> m_nameMatcher = nm, m_areas = area_table, m_left = new_panel, m_right = new_panel,
     m_runtimeHints = Map.empty \<rparr>"

inductive run :: "crt \<Rightarrow> (cand_score list \<Rightarrow> cand_score list) \<Rightarrow> name_matcher \<Rightarrow> dword \<Rightarrow> matcher \<Rightarrow> bool"
  for ct srt nm where
  Start: "run ct srt nm t (init_matcher nm)"
| Ocr: "run ct srt nm t m \<Longrightarrow> t \<le> now \<Longrightarrow> run ct srt nm now (snd (UpdatePanelFromOcr ct side raw now m))"
| Match: "run ct srt nm t m \<Longrightarrow> t \<le> now \<Longrightarrow> run ct srt nm now (snd (MatchPanel ct srt side cands now m))"
| Killed: "run ct srt nm t m \<Longrightarrow> t \<le> now \<Longrightarrow> run ct srt nm now (NotifyKillConfirmed side now m)"
| Jump: "run ct srt nm t m \<Longrightarrow> t \<le> now \<Longrightarrow> run ct srt nm now (NotifyVideoSeekOrJump now m)"

lemma ResetPanel_ok: "matcher_ok t m \<Longrightarrow> t \<le> now \<Longrightarrow> matcher_ok now (ResetPanel side now m)"
  by (auto simp: ResetPanel_def intro: matcher_ok_set matcher_ok_later)

lemma Reset_ok: "matcher_ok t m \<Longrightarrow> t \<le> now \<Longrightarrow> matcher_ok now (Reset now m)"
  using ResetPanel_ok [OF ResetPanel_ok [of t m now LeftNameArea] order_refl, of RightAreaName]
  by (simp add: Reset_def matcher_ok_def)

lemma Kill_ok: "matcher_ok t m \<Longrightarrow> t \<le> now \<Longrightarrow> matcher_ok now (NotifyKillConfirmed side now m)"
  unfolding NotifyKillConfirmed_def Let_def
  by (intro matcher_ok_set ResetPanel_ok) (auto simp: ResetPanel_def panel_ok_def reset_panel_def new_panel_def)

lemma run_matcher_ok: "run ct srt nm t m \<Longrightarrow> matcher_ok t m"
proof (induction rule: run.induct)
  case (Start t)
  show ?case by (simp add: init_matcher_def matcher_ok_def panel_ok_def new_panel_def)
qed (use UpdatePanel_ok MatchPanel_ok Kill_ok Reset_ok NotifyVideoSeekOrJump_def in auto)



subsection \<open>Kills, jumps and replaced players\<close>

definition other_side :: "panel_side \<Rightarrow> panel_side" where
  "other_side side = (if side = LeftNameArea then RightAreaName else LeftNameArea)"

lemma Cache_other [simp]: "Cache (set_cache side c m) (other_side side) = Cache m (other_side side)"
  "Cache (set_cache (other_side side) c m) side = Cache m side"
  by (cases side; simp add: other_side_def Cache_def set_cache_def)+

lemma TrimDeque_Nil [simp]: "TrimDeque [] now = []"
  by (simp add: TrimDeque_def trim_votes_def)

lemma set_cache_self [simp]: "set_cache side (Cache m side) m = m"
  by (simp add: Cache_def set_cache_def)

lemma MatchPanel_no_votes:
  assumes "areaVotes (Cache m side) = []" "jobVotes (Cache m side) = []" "nameVotes (Cache m side) = []"
    "nameTexts (Cache m side) = []"
  shows "\<not> mr_ok (fst (MatchPanel ct srt side cands now m))" "snd (MatchPanel ct srt side cands now m) = m"
proof -
  have "TrimOldVotes now (Cache m side) = Cache m side"
    using assms by (simp add: TrimOldVotes_def)
  with assms show "\<not> mr_ok (fst (MatchPanel ct srt side cands now m))"
    "snd (MatchPanel ct srt side cands now m) = m"
    by (simp_all add: MatchPanel_def Let_def no_vote_def)
qed

text \<open>
  Property C29. A confirmed kill forgets the dead player's panel and nothing else: that panel starts a new
  epoch without votes or anchor and guarded for 1.8 s, the other panel and the learned hints stay as they
  were, and whatever the candidates, a match asked of the dead side before the next recognised frame is
  refused and changes no state.
\<close>

theorem kill_isolates_panel:
  "let m' = NotifyKillConfirmed side now m; c = Cache m' side in
   epochId c = epochId (Cache m side) + 1 \<and> anchorName c = [] \<and> pendingUntilTick c = now + 1800 \<and>
   areaVotes c = [] \<and> jobVotes c = [] \<and> nameVotes c = [] \<and> nameTexts c = [] \<and>
   Cache m' (other_side side) = Cache m (other_side side) \<and> m_runtimeHints m' = m_runtimeHints m \<and>
   \<not> mr_ok (fst (MatchPanel ct srt side cands later m')) \<and> snd (MatchPanel ct srt side cands later m') = m'"
proof -
  define m' where "m' = NotifyKillConfirmed side now m"
  have m': "Cache m' side = (reset_panel now (Cache m side))\<lparr> pendingUntilTick := now + KILL_SWITCH_GUARD_MS \<rparr>"
    "Cache m' (other_side side) = Cache m (other_side side)" "m_runtimeHints m' = m_runtimeHints m"
    by (simp_all add: m'_def NotifyKillConfirmed_def Let_def ResetPanel_def)
  then have "\<not> mr_ok (fst (MatchPanel ct srt side cands later m'))" "snd (MatchPanel ct srt side cands later m') = m'"
    by (simp_all add: MatchPanel_no_votes reset_panel_def new_panel_def)
  with m' show ?thesis
    by (simp add: Let_def m'_def [symmetric] reset_panel_def new_panel_def KILL_SWITCH_GUARD_MS_def)
qed

lemma push_name_area_fields [simp]:
  "anchorName (push_name_area p now c) = anchorName c" "anchorArea (push_name_area p now c) = anchorArea c"
  "epochId (push_name_area p now c) = epochId c"
  "pendingUntilTick (push_name_area p now c) = pendingUntilTick c"
  "consecutiveMismatch (push_name_area p now c) = consecutiveMismatch c"
  by (simp_all add: push_name_area_def Let_def)

lemma trim_votes_only: "set (TrimDeque q now) \<subseteq> set q"
  by (simp add: TrimDeque_def trim_votes_set)

text \<open>Every vote of a panel was cast at the given tick.\<close>

definition votes_at :: "dword \<Rightarrow> panel_cache \<Rightarrow> bool" where
  "votes_at now c \<longleftrightarrow> vote_tick ` set (areaVotes c @ jobVotes c @ nameVotes c @ nameTexts c) \<subseteq> {now}"

lemma votes_at_trim: "votes_at now c \<Longrightarrow> votes_at now (TrimOldVotes now c)"
  using trim_votes_only unfolding votes_at_def TrimOldVotes_def by auto blast+

lemma push_name_area_at: "votes_at now c \<Longrightarrow> votes_at now (push_name_area p now c)"
  by (auto simp: votes_at_def push_name_area_def Let_def PushVote_def)

lemma profession_frame_at: "votes_at now c \<Longrightarrow> votes_at now (profession_frame p now c)"
  by (auto simp: votes_at_def profession_frame_def PushVote_def)

lemma votes_at_counts [simp]:
  "votes_at now (c\<lparr> lastTick := t, rawFrameCount := n \<rparr>) = votes_at now c"
  "votes_at now (c\<lparr> nameAreaFrameCount := k \<rparr>) = votes_at now c"
  by (simp_all add: votes_at_def)

lemma name_area_frame_no_anchor:
  "anchorName c = [] \<Longrightarrow> name_area_frame ct nm p now c =
     push_name_area p now (c\<lparr> nameAreaFrameCount := nameAreaFrameCount c + 1 \<rparr>)"
  by (simp add: name_area_frame_def Let_def)

lemma reset_panel_fields [simp]:
  "votes_at now (reset_panel t c)" "anchorName (reset_panel t c) = []" "epochId (reset_panel t c) = epochId c + 1"
  by (simp_all add: votes_at_def reset_panel_def new_panel_def)

lemma update_panel_gap:
  assumes "seek_gap c now"
  shows "votes_at now (update_panel ct nm p now c)" "epochId (update_panel ct nm p now c) = epochId c + 1"
    "anchorName (update_panel ct nm p now c) = []"
  unfolding update_panel_def Let_def if_P [OF assms]
  by (cases "pt_kind p"; simp add: name_area_frame_no_anchor votes_at_trim push_name_area_at profession_frame_at;
      simp add: TrimOldVotes_def profession_frame_def)+

text \<open>
  When more than eight seconds passed since the last frame of a panel (the player jumped in
  the video or a new game began), the next recognised text starts a new epoch: no vote and no anchor
  from before the gap is left, whatever the text says.
\<close>

theorem seek_gap_forgets:
  assumes "seek_gap (Cache m side) now"
  shows "votes_at now (Cache (snd (UpdatePanelFromOcr ct side raw now m)) side) \<and>
    epochId (Cache (snd (UpdatePanelFromOcr ct side raw now m)) side) = epochId (Cache m side) + 1 \<and>
    anchorName (Cache (snd (UpdatePanelFromOcr ct side raw now m)) side) = []"
  using update_panel_gap [OF assms] by (simp add: UpdatePanel_decompose Let_def)

theorem seek_gap_forgets_witness:
  "votes_at 9001 (Cache (snd (UpdatePanelFromOcr ascii_crt LeftNameArea [] 9001
     (ResetPanel LeftNameArea 1000 (init_matcher init_name_matcher)))) LeftNameArea)"
  using seek_gap_forgets [of "ResetPanel LeftNameArea 1000 (init_matcher init_name_matcher)" LeftNameArea 9001]
  by (simp add: seek_gap_def ResetPanel_def reset_panel_def SEEK_GAP_RESET_MS_def)

text \<open>
  The condition under which a recognised name-and-area text replaces the tracked player: past the guard,
  it disagrees with the anchor, and so did the text before it.
\<close>

definition replaces_player :: "crt \<Rightarrow> name_matcher \<Rightarrow> panel_text \<Rightarrow> dword \<Rightarrow> panel_cache \<Rightarrow> bool" where
  "replaces_player ct nm p now c \<longleftrightarrow> pt_kind p = NameArea \<and> anchorName c \<noteq> [] \<and> now \<ge> pendingUntilTick c \<and>
     soft_mismatch ct nm c p \<and> consecutiveMismatch c \<ge> 1"

lemma epoch_trim [simp]: "epochId (TrimOldVotes now c) = epochId c"
  by (simp add: TrimOldVotes_def)

lemma soft_mismatch_anchor:
  "anchorName c = anchorName c' \<Longrightarrow> anchorArea c = anchorArea c' \<Longrightarrow> soft_mismatch ct nm c p = soft_mismatch ct nm c' p"
  by (simp add: soft_mismatch_def)

lemma update_panel_epoch:
  "epochId (update_panel ct nm p now c) =
   epochId c + (if seek_gap c now \<or> replaces_player ct nm p now c then 1 else 0)"
proof (cases "seek_gap c now")
  case False
  have same: "soft_mismatch ct nm (push_name_area p now (c\<lparr> lastTick := now, rawFrameCount := n, nameAreaFrameCount := k \<rparr>)) p =
      soft_mismatch ct nm c p" for n k
    by (rule soft_mismatch_anchor) simp_all
  show ?thesis
    unfolding update_panel_def Let_def if_not_P [OF False]
    using False by (cases "pt_kind p") (auto simp: name_area_frame_def profession_frame_def Let_def same
      replaces_player_def reset_panel_def SOFT_SWITCH_CONFIRM_FRAMES_def)
qed (simp add: update_panel_gap)

text \<open>
  An update starts a new epoch of its panel exactly when the eight-second gap was exceeded or
  the text is the second one in a row that disagrees with the anchor after the kill guard ended; in
  every other case the epoch stays. One bad recognition never replaces the tracked player.
\<close>

theorem epoch_changes_only_by_gap_or_replacement:
  "epochId (Cache (snd (UpdatePanelFromOcr ct side raw now m)) side) = epochId (Cache m side) +
   (if seek_gap (Cache m side) now \<or>
      replaces_player ct (m_nameMatcher m) (fst (UpdatePanelFromOcr ct side raw now m)) now (Cache m side)
    then 1 else 0)"
  by (simp add: UpdatePanel_decompose Let_def update_panel_epoch)

subsection \<open>Candidates and acceptance\<close>

lemma AcceptCandidate_second:
  "sc_finalScore s = sc_finalScore s' \<Longrightarrow> AcceptCandidate ct b s i = AcceptCandidate ct b s' i"
  by (simp add: AcceptCandidate_def)

lemma AcceptCandidate_gap:
  "fst (AcceptCandidate ct b s i) \<Longrightarrow> sc_finalScore s + 8 \<le> sc_finalScore b"
  unfolding AcceptCandidate_def Let_def by (auto split: if_splits)

lemma rank_scores_same:
  assumes "mset xs = mset ys" "sorted_wrt (\<lambda>a b. sc_finalScore a \<ge> sc_finalScore b) xs"
    "sorted_wrt (\<lambda>a b. sc_finalScore a \<ge> sc_finalScore b) ys" "mr_ok (rank_scores ct i xs)"
  shows "mr_ok (rank_scores ct i ys) \<and> mr_best (rank_scores ct i ys) = mr_best (rank_scores ct i xs)"
proof (cases xs)
  case (Cons a as)
  then obtain b bs where ys: "ys = b # bs" using assms(1) by (cases ys) auto
  let ?sec = "\<lambda>zs. case zs of _ # s # _ \<Rightarrow> s | _ \<Rightarrow> empty_score"
  have gap: "sc_finalScore (?sec xs) + 8 \<le> sc_finalScore a"
    using assms(4) AcceptCandidate_gap [of ct "a\<lparr> sc_gapToSecond := sc_finalScore a - sc_finalScore (?sec xs) \<rparr>" "?sec xs" i]
    by (simp add: rank_scores_def Let_def Cons)
  have "a = b"
  proof (rule ccontr)
    assume ne: "a \<noteq> b"
    have sets: "set xs = set ys" using assms(1) by (metis set_mset_mset)
    then have "b \<in> set as" "a \<in> set bs" using Cons ys ne by auto
    then obtain c cs where "as = c # cs" by (cases as) auto
    with \<open>b \<in> set as\<close> Cons assms(2) have "sc_finalScore b \<le> sc_finalScore (?sec xs)" by auto
    moreover have "sc_finalScore a \<le> sc_finalScore b" using \<open>a \<in> set bs\<close> assms(3) ys by auto
    ultimately show False using gap by linarith
  qed
  then have bs: "mset as = mset bs" using assms(1) Cons ys by simp
  have "sc_finalScore (?sec xs) = sc_finalScore (?sec ys)"
  proof (cases as)
    case Nil then show ?thesis using bs Cons ys by simp
  next
    case (Cons c cs)
    then obtain d ds where d: "bs = d # ds" using bs by (cases bs) auto
    have "set as = set bs" using bs by (metis set_mset_mset)
    then have "c \<in> set (d # ds)" "d \<in> set (c # cs)" using d Cons by auto
    then have "sc_finalScore c = sc_finalScore d"
      using assms(2,3) \<open>xs = a # as\<close> ys d Cons by (auto intro: antisym)
    then show ?thesis using \<open>xs = a # as\<close> ys d Cons by simp
  qed
  with Cons ys \<open>a = b\<close> show ?thesis
    using assms(4) AcceptCandidate_second [of "?sec xs" "?sec ys"] by (simp add: rank_scores_def Let_def)
qed (use assms in \<open>auto simp: rank_scores_def\<close>)

lemma rank_scores_fields [simp]: "mr_topScores (rank_scores ct i xs) = xs"
  by (simp add: rank_scores_def Let_def)

text \<open>
  Whether a panel is matched, to whom, and what is learned does not depend on how
  \<^verbatim>\<open>std::sort\<close> orders candidates with equal scores: two sorting functions that agree with the
  comparator give the same accepted result and the same next state.
\<close>

theorem match_independent_of_sort_ties:
  assumes "sorts_scores s1" "sorts_scores s2" "mr_ok (fst (MatchPanel ct s1 side cands now m))"
  shows "mr_ok (fst (MatchPanel ct s2 side cands now m)) \<and>
    mr_best (fst (MatchPanel ct s2 side cands now m)) = mr_best (fst (MatchPanel ct s1 side cands now m)) \<and>
    snd (MatchPanel ct s2 side cands now m) = snd (MatchPanel ct s1 side cands now m)"
proof -
  have "mr_ok (rank_scores ct i (s2 xs)) \<and> mr_best (rank_scores ct i (s2 xs)) = mr_best (rank_scores ct i (s1 xs))"
    if "mr_ok (rank_scores ct i (s1 xs))" for i xs
    using that assms(1,2) by (intro rank_scores_same) (simp_all add: sorts_scores_def)
  with assms(3) show ?thesis
    unfolding MatchPanel_def Let_def by (auto split: if_splits)
qed

lemma id_step_cand [simp]: "sc_candidate (id_step ct a cand nt s) = sc_candidate s"
  by (simp add: id_step_def Let_def)

lemma fold_id_step_cand [simp]: "sc_candidate (fold (id_step ct a cand) q s) = sc_candidate s"
  by (induction q arbitrary: s) simp_all

lemma part_cand [simp]:
  "sc_candidate (id_part ct c a cand s) = sc_candidate s"
  "sc_candidate (lock_part ct a cand s) = sc_candidate s"
  "sc_candidate (area_part ct a hint cand s) = sc_candidate s"
  "sc_candidate (job_part ct a hint cand s) = sc_candidate s"
  "sc_candidate (final_part ct c cand s) = sc_candidate s"
  by (simp_all add: id_part_def lock_part_def area_part_def job_part_def final_part_def Let_def)

lemma clamp_final_range: "0 \<le> clamp_final f \<and> clamp_final f \<le> 160"
  by (simp add: clamp_final_def Let_def)

lemma score_candidate_cand [simp]: "sc_candidate (score_candidate ct m c a j cand) = cand"
  by (simp add: score_candidate_def Let_def)

lemma score_candidate_range:
  "0 \<le> sc_finalScore (score_candidate ct m c a j cand) \<and> sc_finalScore (score_candidate ct m c a j cand) \<le> 160"
  unfolding score_candidate_def final_part_def Let_def using clamp_final_range by simp

text \<open>The rules under which a best candidate is accepted, whatever the branch.\<close>

lemma Accept_named: "fst (AcceptCandidate ct b s i) \<Longrightarrow> cand_name (sc_candidate b) \<noteq> []"
  by (auto simp: AcceptCandidate_def)

lemma ex_snd_if: "(\<exists>r. snd x = f r) \<Longrightarrow> (\<exists>r. snd y = f r) \<Longrightarrow> \<exists>r. snd (if c then x else y) = f r"
  by simp

lemma Accept_fields:
  assumes "fst (AcceptCandidate ct b s i)"
  shows "\<exists>r. snd (AcceptCandidate ct b s i) =
    b\<lparr> sc_gapToSecond := sc_finalScore b - sc_finalScore s, sc_decisionReason := r \<rparr>"
  unfolding AcceptCandidate_def Let_def if_not_P [OF Accept_named [OF assms]]
  by (intro ex_snd_if; rule exI; simp only: snd_conv)

lemma Accept_symbol:
  assumes "fst (AcceptCandidate ct b s i)" "symbol_id_mode ct (sc_candidate b)"
  shows "sc_jobMatched b \<and> sc_finalScore s + 18 \<le> sc_finalScore b \<and> 58 \<le> sc_finalScore b"
  using assms(1) Accept_named [OF assms(1)] assms(2) unfolding AcceptCandidate_def Let_def
  by (simp split: if_splits)

lemma Accept_short_cache:
  assumes "fst (AcceptCandidate ct b s True)" "\<not> symbol_id_mode ct (sc_candidate b)"
  shows "sc_allowStrongIdLock b \<and> (95 \<le> sc_idScore b \<and> sc_finalScore s + 18 \<le> sc_finalScore b \<or>
    35 \<le> sc_idScore b \<and> sc_finalScore s + 10 \<le> sc_finalScore b \<and> (sc_areaMatched b \<or> sc_jobMatched b))"
  using assms(1) Accept_named [OF assms(1)] assms(2) unfolding AcceptCandidate_def Let_def
  by (simp split: if_splits)

lemma Accept_short_name:
  assumes "fst (AcceptCandidate ct b s False)" "\<not> symbol_id_mode ct (sc_candidate b)"
    "VisibleLen ct (cand_match_name (sc_candidate b)) \<le> 2"
  shows "sc_allowStrongIdLock b \<and> 50 \<le> sc_idScore b \<and> 85 \<le> sc_finalScore b \<and> sc_finalScore s + 12 \<le> sc_finalScore b"
  using assms(1) Accept_named [OF assms(1)] assms(2,3) unfolding AcceptCandidate_def Let_def
  by (simp split: if_splits)

lemma Accept_rules:
  assumes "fst (AcceptCandidate ct b s i)"
  shows "if symbol_id_mode ct (sc_candidate b) then
      sc_jobMatched b \<and> 58 \<le> sc_finalScore b \<and> 18 \<le> sc_finalScore b - sc_finalScore s
    else if i then sc_allowStrongIdLock b \<and> 35 \<le> sc_idScore b \<and> 10 \<le> sc_finalScore b - sc_finalScore s
    else if VisibleLen ct (cand_match_name (sc_candidate b)) \<le> 2
    then sc_allowStrongIdLock b \<and> 50 \<le> sc_idScore b \<and> 85 \<le> sc_finalScore b \<and>
      12 \<le> sc_finalScore b - sc_finalScore s
    else 8 \<le> sc_finalScore b - sc_finalScore s"
  using Accept_symbol [OF assms] Accept_short_cache [of ct b s] Accept_short_name [of ct b s]
    AcceptCandidate_gap [OF assms] assms by (cases i) auto

lemma rank_scores_accepted:
  assumes "mr_ok (rank_scores ct i xs)" "sorted_wrt (\<lambda>a b. sc_finalScore a \<ge> sc_finalScore b) xs"
  obtains b rest r where "xs = b # rest" "\<forall>s \<in> set rest. sc_finalScore s + 8 \<le> sc_finalScore b"
    "fst (AcceptCandidate ct (b\<lparr> sc_gapToSecond := sc_finalScore b - sc_finalScore (case rest of [] \<Rightarrow> empty_score | s # _ \<Rightarrow> s) \<rparr>)
       (case rest of [] \<Rightarrow> empty_score | s # _ \<Rightarrow> s) i)"
    "mr_best (rank_scores ct i xs) = b\<lparr> sc_gapToSecond := sc_finalScore b -
       sc_finalScore (case rest of [] \<Rightarrow> empty_score | s # _ \<Rightarrow> s), sc_accepted := True, sc_decisionReason := r \<rparr>"
proof (cases xs)
  case Nil
  with assms(1) have False by (simp add: rank_scores_def AcceptCandidate_def empty_score_def empty_candidate_def)
  then show ?thesis ..
next
  case (Cons b rest)
  define second where "second = (case rest of [] \<Rightarrow> empty_score | s # _ \<Rightarrow> s)"
  have sec: "(case xs of _ # s # _ \<Rightarrow> s | _ \<Rightarrow> empty_score) = second"
    by (simp add: Cons second_def split: list.splits)
  define b' where "b' = b\<lparr> sc_gapToSecond := sc_finalScore b - sc_finalScore second \<rparr>"
  have ok: "fst (AcceptCandidate ct b' second i)"
    using assms(1) sec by (simp add: rank_scores_def Let_def Cons b'_def)
  obtain r where "snd (AcceptCandidate ct b' second i) =
      b'\<lparr> sc_gapToSecond := sc_finalScore b' - sc_finalScore second, sc_decisionReason := r \<rparr>"
    using Accept_fields [OF ok] by blast
  then have best: "mr_best (rank_scores ct i xs) = b\<lparr> sc_gapToSecond := sc_finalScore b - sc_finalScore second,
      sc_accepted := True, sc_decisionReason := r \<rparr>"
    using ok sec by (simp add: rank_scores_def Let_def Cons b'_def)
  have "\<forall>s \<in> set rest. sc_finalScore s \<le> sc_finalScore second"
    using assms(2) unfolding Cons second_def by (cases rest) auto
  with AcceptCandidate_gap [OF ok] have "\<forall>s \<in> set rest. sc_finalScore s + 8 \<le> sc_finalScore b"
    by (auto simp: b'_def)
  from that [OF Cons this] ok best show ?thesis unfolding b'_def second_def by blast
qed

text \<open>The scores a match ranks, and the flag that its cache is still short.\<close>

definition ranked :: "crt \<Rightarrow> (cand_score list \<Rightarrow> cand_score list) \<Rightarrow> panel_side \<Rightarrow> candidate list \<Rightarrow> dword \<Rightarrow>
    matcher \<Rightarrow> cand_score list" where
  "ranked ct srt side cands now m =
     (let c = TrimOldVotes now (Cache m side) in
      srt (map (score_candidate ct (set_cache side c m) c (vote_text (BestVote (areaVotes c)))
             (vote_text (BestVote (jobVotes c)))) (filter (\<lambda>cand. cand_name cand \<noteq> []) cands)))"

lemma MatchPanel_ok_cases:
  assumes "mr_ok (fst (MatchPanel ct srt side cands now m))"
  shows "fst (MatchPanel ct srt side cands now m) =
      rank_scores ct (nameAreaFrameCount (Cache m side) < 2) (ranked ct srt side cands now m)"
    and "snd (MatchPanel ct srt side cands now m) =
      LearnFromAcceptedMatch ct side (mr_best (fst (MatchPanel ct srt side cands now m))) now
        (set_cache side (TrimOldVotes now (Cache m side)) m)"
  using assms unfolding MatchPanel_def Let_def ranked_def
  by (auto simp: TrimOldVotes_def MIN_NAME_AREA_FRAMES_FOR_STABLE_def split: if_splits)

lemma ranked_members:
  assumes "sorts_scores srt" "s \<in> set (ranked ct srt side cands now m)"
  shows "sc_candidate s \<in> set cands \<and> cand_name (sc_candidate s) \<noteq> [] \<and> sc_finalScore s \<le> 160"
proof -
  have "set (srt xs) = set xs" for xs using assms(1) unfolding sorts_scores_def by (metis set_mset_mset)
  with assms(2) show ?thesis by (auto simp: ranked_def Let_def score_candidate_range)
qed

text \<open>
  What an accepted match guarantees: the winner is one of the named candidates, it leads every
  other ranked candidate by at least eight points, a symbol ID is only accepted with a confirmed job and
  a lead of 18, and an ordinary one seen in fewer than two name frames only with the strong lock (a
  one-character ID needs the full area-and-ID text) and an identity score of at least 35.
\<close>

theorem accepted_match_rules:
  assumes "sorts_scores srt" "mr_ok (fst (MatchPanel ct srt side cands now m))"
  shows "let r = fst (MatchPanel ct srt side cands now m); b = mr_best r; cand = sc_candidate b in
    cand \<in> set cands \<and> cand_name cand \<noteq> [] \<and> sc_finalScore b \<le> 160 \<and>
    list_all (\<lambda>s. sc_finalScore s + 8 \<le> sc_finalScore b) (tl (mr_topScores r)) \<and>
    (if symbol_id_mode ct cand then sc_jobMatched b \<and> 58 \<le> sc_finalScore b \<and> 18 \<le> sc_gapToSecond b
     else if mr_cacheInsufficient r then sc_allowStrongIdLock b \<and> 35 \<le> sc_idScore b \<and> 10 \<le> sc_gapToSecond b
     else if VisibleLen ct (cand_match_name cand) \<le> 2
     then sc_allowStrongIdLock b \<and> 50 \<le> sc_idScore b \<and> 85 \<le> sc_finalScore b \<and> 12 \<le> sc_gapToSecond b
     else 8 \<le> sc_gapToSecond b)"
proof -
  let ?i = "nameAreaFrameCount (Cache m side) < 2" and ?xs = "ranked ct srt side cands now m"
  note r = MatchPanel_ok_cases(1) [OF assms(2)]
  have ok: "mr_ok (rank_scores ct ?i ?xs)" using assms(2) r by simp
  have "sorted_wrt (\<lambda>a b. sc_finalScore a \<ge> sc_finalScore b) ?xs"
    using assms(1) by (simp add: ranked_def Let_def sorts_scores_def)
  from rank_scores_accepted [OF ok this] obtain b rest dr where
    xs: "?xs = b # rest" and rest: "\<forall>s \<in> set rest. sc_finalScore s + 8 \<le> sc_finalScore b" and
    acc: "fst (AcceptCandidate ct (b\<lparr> sc_gapToSecond := sc_finalScore b - sc_finalScore (case rest of [] \<Rightarrow> empty_score | s # _ \<Rightarrow> s) \<rparr>)
       (case rest of [] \<Rightarrow> empty_score | s # _ \<Rightarrow> s) ?i)" and
    best: "mr_best (rank_scores ct ?i ?xs) = b\<lparr> sc_gapToSecond := sc_finalScore b -
       sc_finalScore (case rest of [] \<Rightarrow> empty_score | s # _ \<Rightarrow> s), sc_accepted := True, sc_decisionReason := dr \<rparr>" .
  have mem: "sc_candidate b \<in> set cands \<and> cand_name (sc_candidate b) \<noteq> [] \<and> sc_finalScore b \<le> 160"
    using ranked_members [OF assms(1), of b ct side cands now m] xs by simp
  have i: "mr_cacheInsufficient (rank_scores ct ?i ?xs) = ?i" by (simp add: rank_scores_def Let_def)
  show ?thesis
    using mem rest Accept_rules [OF acc]
    unfolding r Let_def best i rank_scores_fields unfolding xs by (simp add: list_all_iff cong: if_cong)
qed

lemma Learn_side:
  "Cache (LearnFromAcceptedMatch ct side s now m) (other_side side) = Cache m (other_side side)"
  "k \<noteq> cand_name (sc_candidate s) \<Longrightarrow>
     m_runtimeHints (LearnFromAcceptedMatch ct side s now m) k = m_runtimeHints m k"
  "\<not> can_learn_anchor ct (Cache m side) s \<Longrightarrow> LearnFromAcceptedMatch ct side s now m = m"
  "can_learn_anchor ct (Cache m side) s \<Longrightarrow>
     anchorName (Cache (LearnFromAcceptedMatch ct side s now m) side) = cand_name (sc_candidate s)"
  by (simp_all add: LearnFromAcceptedMatch_def Let_def) (cases side; simp add: Cache_def set_cache_def other_side_def)+

lemma can_learn_bounds: "can_learn_anchor ct c s \<Longrightarrow> 80 \<le> sc_idScore s \<and> 12 \<le> sc_gapToSecond s"
  by (auto simp: can_learn_anchor_def Let_def)

text \<open>
  A match only writes to the memory of the matcher when it was accepted with an identity
  score of at least 80 and a lead of at least 12 points; then the winner becomes the anchor of the
  matched panel, and neither the other panel nor what was learned about any other player changes.
\<close>

theorem match_learns_only_clear_winner:
  assumes "m_runtimeHints (snd (MatchPanel ct srt side cands now m)) \<noteq> m_runtimeHints m \<or>
    anchorName (Cache (snd (MatchPanel ct srt side cands now m)) side) \<noteq> anchorName (Cache m side)"
  shows "case MatchPanel ct srt side cands now m of (r, m') \<Rightarrow>
    mr_ok r \<and> 80 \<le> sc_idScore (mr_best r) \<and> 12 \<le> sc_gapToSecond (mr_best r) \<and>
    anchorName (Cache m' side) = cand_name (sc_candidate (mr_best r)) \<and>
    Cache m' (other_side side) = Cache m (other_side side) \<and>
    m_runtimeHints m' |` (- {cand_name (sc_candidate (mr_best r))}) =
    m_runtimeHints m |` (- {cand_name (sc_candidate (mr_best r))})"
proof -
  let ?r = "fst (MatchPanel ct srt side cands now m)" and ?m = "set_cache side (TrimOldVotes now (Cache m side)) m"
  have trim: "anchorName (TrimOldVotes now c) = anchorName c" for c by (simp add: TrimOldVotes_def)
  have ok: "mr_ok ?r"
    using assms by (rule contrapos_pp) (auto simp: MatchPanel_def Let_def trim split: if_splits)
  note m' = MatchPanel_ok_cases(2) [OF ok]
  have learn: "can_learn_anchor ct (Cache ?m side) (mr_best ?r)"
    using assms Learn_side(3) [of ct ?m side "mr_best ?r" now] unfolding m'
    by (metis Cache_set_cache(1,3) trim)
  show ?thesis
    using ok can_learn_bounds [OF learn] Learn_side(4) [OF learn, of now]
    by (auto simp: split_beta m' Learn_side(1,2) restrict_map_def)
qed

subsection \<open>A concrete match\<close>

text \<open>A panel that saw one name in two frames, and two candidates, the first of them with that name.\<close>

definition demo_name :: wstr where "demo_name = [65, 66, 67, 68, 69]"

definition demo_matcher :: matcher where
  "demo_matcher = (init_matcher init_name_matcher)\<lparr> m_left := new_panel\<lparr> nameAreaFrameCount := 2,
     nameTexts := [\<lparr> vote_text = demo_name, vote_score = 60, vote_tick = 1000 \<rparr>] \<rparr> \<rparr>"

definition demo_cands :: "candidate list" where
  "demo_cands = [empty_candidate\<lparr> cand_name := demo_name \<rparr>, empty_candidate\<lparr> cand_name := [90, 90, 90, 90] \<rparr>]"

definition by_score :: "cand_score list \<Rightarrow> cand_score list" where
  "by_score xs = rev (sort_key sc_finalScore xs)"

definition by_score_rev :: "cand_score list \<Rightarrow> cand_score list" where
  "by_score_rev xs = by_score (rev xs)"

lemma sorts_by_score: "sorts_scores by_score" "sorts_scores by_score_rev"
proof -
  have "sorted_wrt (\<lambda>a b. sc_finalScore b \<le> sc_finalScore a) (rev (sort_key sc_finalScore xs))" for xs :: "cand_score list"
    using sorted_sort_key [of sc_finalScore xs] by (simp add: sorted_wrt_rev sorted_map)
  then show "sorts_scores by_score" "sorts_scores by_score_rev"
    by (simp_all add: sorts_scores_def by_score_def by_score_rev_def)
qed

lemma demo_match:
  "mr_ok (fst (MatchPanel ascii_crt by_score LeftNameArea demo_cands 1200 demo_matcher)) \<and>
   anchorName (Cache (snd (MatchPanel ascii_crt by_score LeftNameArea demo_cands 1200 demo_matcher)) LeftNameArea) = demo_name \<and>
   anchorName (Cache demo_matcher LeftNameArea) = []"
  by code_simp

theorem match_independent_of_sort_ties_witness:
  "mr_ok (fst (MatchPanel ascii_crt by_score_rev LeftNameArea demo_cands 1200 demo_matcher))"
  using match_independent_of_sort_ties [OF sorts_by_score, of ascii_crt LeftNameArea demo_cands 1200 demo_matcher]
    demo_match by blast

theorem accepted_match_rules_witness:
  "sc_candidate (mr_best (fst (MatchPanel ascii_crt by_score LeftNameArea demo_cands 1200 demo_matcher)))
     \<in> set demo_cands"
  using accepted_match_rules [OF sorts_by_score(1), of ascii_crt LeftNameArea demo_cands 1200 demo_matcher]
    demo_match by (simp add: Let_def)

theorem match_learns_only_clear_winner_witness:
  "case MatchPanel ascii_crt by_score LeftNameArea demo_cands 1200 demo_matcher of (r, m') \<Rightarrow>
     80 \<le> sc_idScore (mr_best r) \<and> 12 \<le> sc_gapToSecond (mr_best r)"
  using match_learns_only_clear_winner [of ascii_crt by_score LeftNameArea demo_cands 1200 demo_matcher]
    demo_match by (simp add: split_beta demo_name_def)

text \<open>
  The best vote is a text that was voted for, carries the sum of its scores (each counted
  as at least 1), no other text has a larger sum, and of those with the same sum it is the least.
\<close>

theorem best_vote_optimal:
  assumes "t \<in> vote_text ` set votes"
  shows "vote_text (BestVote votes) \<in> vote_text ` set votes \<and>
    vote_score (BestVote votes) = vote_sum votes (vote_text (BestVote votes)) \<and>
    vote_sum votes t \<le> vote_score (BestVote votes) \<and>
    (if vote_sum votes t = vote_score (BestVote votes) then vote_text (BestVote votes) \<le> t else True)"
proof -
  have "votes \<noteq> []" using assms by auto
  note spec = BestVote_spec [OF this]
  show ?thesis
    using spec(1,2) spec(3,4) [OF assms] by simp
qed

theorem best_vote_optimal_witness:
  "30 \<le> vote_score (BestVote [\<lparr> vote_text = [65], vote_score = 30, vote_tick = 5 \<rparr>])"
  using best_vote_optimal [of "[65]" "[\<lparr> vote_text = [65], vote_score = 30, vote_tick = 5 \<rparr>]"]
  by (simp add: vote_sum_def)

end
