(* ===== verification/TriggerPolicies.thy ===== *)
theory TriggerPolicies
  imports Prelude
begin

text \<open>
  Two small policies of the recognition loop: the window that admits the second half of a mutual
  death (\<^verbatim>\<open>MutualDeathTriggerPolicy.h\<close>), and the health monitor and success clock of the OCR service
  (\<^verbatim>\<open>OcrServiceHealth.h\<close>). Times are the wrapping tick counts of the code. The success clock is a
  compare-and-swap loop run by several threads; it is modelled as interleaved steps.
\<close>

subsection \<open>Mutual deaths\<close>

record death_window =
  firstSide :: int
  firstTick :: dword
  consumed :: bool

definition WindowMs :: dword where "WindowMs = 1500"

definition MutualReset :: death_window where
  "MutualReset = \<lparr> firstSide = -1, firstTick = 0, consumed = False \<rparr>"

definition MutualBegin :: "int \<Rightarrow> dword \<Rightarrow> death_window" where
  "MutualBegin deadSide tick =
     (if deadSide = 0 \<or> deadSide = 1 then MutualReset\<lparr> firstSide := deadSide, firstTick := tick \<rparr> else MutualReset)"

definition MutualObserve :: "bool \<Rightarrow> bool \<Rightarrow> death_window \<Rightarrow> death_window" where
  "MutualObserve leftDead rightDead w =
     (if (firstSide w = 0 \<and> \<not> leftDead) \<or> (firstSide w = 1 \<and> \<not> rightDead) then MutualReset else w)"

definition ConsumeReciprocal :: "int \<Rightarrow> dword \<Rightarrow> bool \<Rightarrow> bool \<Rightarrow> death_window \<Rightarrow> bool \<times> death_window" where
  "ConsumeReciprocal deadSide tick leftDead rightDead w =
     (if firstSide w < 0 \<or> consumed w \<or> (deadSide \<noteq> 0 \<and> deadSide \<noteq> 1) \<or> deadSide = firstSide w \<or>
         \<not> leftDead \<or> \<not> rightDead \<or> tick - firstTick w > WindowMs
      then (False, w) else (True, w\<lparr> consumed := True \<rparr>))"

text \<open>What the dialog does with an open window until the next one begins.\<close>

datatype death_event = DReset | DObserve bool bool | DConsume int dword bool bool

fun death_step :: "death_event \<Rightarrow> death_window \<Rightarrow> (int \<times> dword) list \<times> death_window" where
  "death_step DReset w = ([], MutualReset)"
| "death_step (DObserve l r) w = ([], MutualObserve l r w)"
| "death_step (DConsume d t l r) w =
     (let (ok, w') = ConsumeReciprocal d t l r w in (if ok then [(d, t)] else [], w'))"

fun admitted :: "death_event list \<Rightarrow> death_window \<Rightarrow> (int \<times> dword) list" where
  "admitted [] w = []"
| "admitted (e # es) w = (let (a, w') = death_step e w in a @ admitted es w')"

text \<open>A window that admits nothing any more: it was reset, or it was used.\<close>

definition spent :: "death_window \<Rightarrow> bool" where
  "spent w \<longleftrightarrow> firstSide w < 0 \<or> consumed w"

lemma spent_step: "spent w \<Longrightarrow> fst (death_step e w) = [] \<and> spent (snd (death_step e w))"
  by (cases e) (auto simp: spent_def MutualReset_def MutualObserve_def ConsumeReciprocal_def)

lemma spent_admits_nothing: "spent w \<Longrightarrow> admitted es w = []"
  by (induction es arbitrary: w) (auto simp: split_beta Let_def dest: spent_step)

lemma step_spends:
  assumes "fst (death_step e w) \<noteq> []" shows "spent (snd (death_step e w))"
  using assms by (cases e) (auto simp: spent_def ConsumeReciprocal_def split: if_splits)

definition reciprocal :: "death_window \<Rightarrow> int \<times> dword \<Rightarrow> bool" where
  "reciprocal w a \<longleftrightarrow> (fst a = 0 \<or> fst a = 1) \<and> fst a \<noteq> firstSide w \<and> snd a - firstTick w \<le> 1500"

lemma step_reciprocal: "list_all (reciprocal w) (fst (death_step e w))"
  by (cases e) (auto simp: reciprocal_def ConsumeReciprocal_def WindowMs_def)

lemma step_keeps_first:
  "spent (snd (death_step e w)) \<or>
   (firstSide (snd (death_step e w)) = firstSide w \<and> firstTick (snd (death_step e w)) = firstTick w)"
  by (cases e) (auto simp: spent_def MutualReset_def MutualObserve_def ConsumeReciprocal_def)

lemma admitted_window: "length (admitted es w) \<le> 1 \<and> list_all (reciprocal w) (admitted es w)"
proof (induction es arbitrary: w)
  case (Cons e es)
  let ?w = "snd (death_step e w)"
  have one: "length (fst (death_step e w)) \<le> 1" by (cases e) (auto simp: split_beta)
  have adm: "admitted (e # es) w = fst (death_step e w) @ admitted es ?w" by (simp add: split_beta)
  show ?case
  proof (cases "spent ?w")
    case True
    then show ?thesis using one step_reciprocal [of w e] unfolding adm by (simp add: spent_admits_nothing)
  next
    case False
    then have "fst (death_step e w) = []" using step_spends by blast
    moreover have "reciprocal ?w = reciprocal w"
      using step_keeps_first [of e w] False by (simp add: reciprocal_def fun_eq_iff)
    ultimately show ?thesis using Cons [of ?w] unfolding adm by simp
  qed
qed simp

lemma alive_observation_spends: "firstSide w = 0 \<or> spent w \<Longrightarrow> spent (MutualObserve False r w)"
  by (auto simp: MutualObserve_def MutualReset_def spent_def)

lemma death_step_side: "firstSide w = 0 \<or> spent w \<Longrightarrow> firstSide (snd (death_step e w)) = 0 \<or> spent (snd (death_step e w))"
  using step_keeps_first [of e w] spent_step [of w e] by auto

lemma admitted_after_alive:
  "firstSide w = 0 \<or> spent w \<Longrightarrow> admitted (es @ DObserve False r # es') w = admitted es w"
proof (induction es arbitrary: w)
  case Nil
  then show ?case using alive_observation_spends [of w r] by (simp add: spent_admits_nothing)
next
  case (Cons e es)
  from Cons.IH [OF death_step_side [OF Cons.prems]] show ?case by (simp add: split_beta)
qed

text \<open>
  One window admits at most one reciprocal death, whatever sequence of observations and
  requests follows its opening: it is a death of the other side at most 1500 ms after the first one
  (in wrapping ticks), and once the side that died first was seen alive again, nothing more is admitted.
\<close>

theorem mutual_death_window_admits_once:
  "length (admitted es (MutualBegin side tick)) \<le> 1 \<and>
   list_all (\<lambda>(d, t). (d = 0 \<or> d = 1) \<and> d \<noteq> side \<and> t - tick \<le> 1500) (admitted es (MutualBegin side tick)) \<and>
   admitted (es @ DObserve False r # es') (MutualBegin 0 tick) = admitted es (MutualBegin 0 tick)"
proof -
  have "list_all (\<lambda>(d, t). (d = 0 \<or> d = 1) \<and> d \<noteq> side \<and> t - tick \<le> 1500) (admitted es (MutualBegin side tick))"
  proof (cases "side = 0 \<or> side = 1")
    case True
    then show ?thesis using admitted_window [of es "MutualBegin side tick"]
      by (auto simp: MutualBegin_def reciprocal_def list_all_iff)
  next
    case False
    then have "spent (MutualBegin side tick)" by (simp add: MutualBegin_def MutualReset_def spent_def)
    then show ?thesis by (simp add: spent_admits_nothing)
  qed
  moreover have "firstSide (MutualBegin 0 tick) = 0" by (simp add: MutualBegin_def)
  ultimately show ?thesis using admitted_window [of es] admitted_after_alive by blast
qed

subsection \<open>Health of the OCR service\<close>

datatype ProbeResult = Ready | Busy | Failed

record HealthDecision =
  d_ready :: bool
  d_restart :: bool

record HealthMonitor =
  h_ready :: bool
  h_failures :: nat
  h_failedSince :: u64
  h_lastSuccess :: u64

definition new_monitor :: HealthMonitor where
  "new_monitor = \<lparr> h_ready = False, h_failures = 0, h_failedSince = 0, h_lastSuccess = 0 \<rparr>"

definition BeginProcessStart :: "u64 \<Rightarrow> HealthMonitor \<Rightarrow> HealthMonitor" where
  "BeginProcessStart now h = h\<lparr> h_ready := False, h_failedSince := now, h_failures := 0 \<rparr>"

definition HealthObserve ::
  "u64 \<Rightarrow> bool \<Rightarrow> ProbeResult \<Rightarrow> u64 \<Rightarrow> HealthMonitor \<Rightarrow> HealthDecision \<times> HealthMonitor" where
  "HealthObserve now processAlive probe lastRequestSuccess h =
     (let newSuccess = (lastRequestSuccess > h_lastSuccess h);
          h = (if newSuccess then h\<lparr> h_lastSuccess := lastRequestSuccess \<rparr> else h)
      in if \<not> processAlive then
           (\<lparr> d_ready = False, d_restart = False \<rparr>, h\<lparr> h_ready := False, h_failedSince := 0, h_failures := 0 \<rparr>)
         else if probe = Ready \<or> (newSuccess \<and> now \<ge> lastRequestSuccess \<and> now - lastRequestSuccess < 6000) then
           (\<lparr> d_ready = True, d_restart = False \<rparr>, h\<lparr> h_ready := True, h_failedSince := 0, h_failures := 0 \<rparr>)
         else
           let h = (if h_failedSince h = 0 then h\<lparr> h_failedSince := now \<rparr> else h);
               h = (if probe = Failed \<and> h_failures h < 3 then h\<lparr> h_failures := h_failures h + 1 \<rparr> else h);
               elapsed = (if now \<ge> h_failedSince h then now - h_failedSince h else 0);
               restart = (elapsed \<ge> 15000);
               h = (if restart \<or> (h_failures h \<ge> 3 \<and> elapsed \<ge> 6000) then h\<lparr> h_ready := False \<rparr> else h)
           in (\<lparr> d_ready = h_ready h, d_restart = restart \<rparr>, h))"

text \<open>
  An outage: observations of a running process whose probe is not ready, at the given times, with no
  request that succeeded since. The result is the decision of the last observation.
\<close>

fun outage :: "(u64 \<times> bool) list \<Rightarrow> HealthMonitor \<Rightarrow> HealthDecision \<times> HealthMonitor" where
  "outage [] h = (\<lparr> d_ready = h_ready h, d_restart = False \<rparr>, h)"
| "outage [(t, busy)] h = HealthObserve t True (if busy then Busy else Failed) (h_lastSuccess h) h"
| "outage ((t, busy) # os) h =
     outage os (snd (HealthObserve t True (if busy then Busy else Failed) (h_lastSuccess h) h))"

lemma HealthObserve_outage:
  assumes "h_failedSince h \<noteq> 0" "h_failedSince h \<le> t"
  shows "d_restart (fst (HealthObserve t True (if busy then Busy else Failed) (h_lastSuccess h) h)) \<longleftrightarrow>
      t - h_failedSince h \<ge> 15000"
    and "h_failedSince (snd (HealthObserve t True (if busy then Busy else Failed) (h_lastSuccess h) h)) = h_failedSince h"
    and "h_failures (snd (HealthObserve t True (if busy then Busy else Failed) (h_lastSuccess h) h)) =
      (if busy \<or> 3 \<le> h_failures h then h_failures h else h_failures h + 1)"
    and "d_ready (fst (HealthObserve t True (if busy then Busy else Failed) (h_lastSuccess h) h)) \<Longrightarrow>
      h_ready h \<and> t - h_failedSince h < 15000"
  using assms by (auto simp: HealthObserve_def Let_def split: if_splits)

lemma outage_restart:
  "os \<noteq> [] \<Longrightarrow> h_failedSince h \<noteq> 0 \<Longrightarrow> sorted (h_failedSince h # map fst os) \<Longrightarrow>
   d_restart (fst (outage os h)) \<longleftrightarrow> fst (last os) - h_failedSince h \<ge> 15000"
proof (induction os h rule: outage.induct)
  case (3 t busy o1 os h)
  let ?h = "snd (HealthObserve t True (if busy then Busy else Failed) (h_lastSuccess h) h)"
  have "h_failedSince ?h = h_failedSince h"
    using HealthObserve_outage(2) [of h t busy] 3 by simp
  with 3 show ?case by auto
qed (auto simp: HealthObserve_outage)

lemma outage_ready:
  "h_failedSince h \<noteq> 0 \<Longrightarrow> sorted (h_failedSince h # map fst os) \<Longrightarrow> d_ready (fst (outage os h)) \<Longrightarrow> h_ready h"
proof (induction os h rule: outage.induct)
  case (3 t busy o1 os h)
  let ?h = "snd (HealthObserve t True (if busy then Busy else Failed) (h_lastSuccess h) h)"
  have "h_failedSince ?h = h_failedSince h" "h_ready ?h \<Longrightarrow> h_ready h"
    using HealthObserve_outage(2) [of h t busy] 3 by (auto simp: HealthObserve_def Let_def split: if_splits)
  with 3 show ?case by auto
qed (use HealthObserve_outage(4) in \<open>auto dest: \<close>)

text \<open>
  From the first bad probe of a running OCR process (at a time other than 0, which the code
  reserves for \<open>not failing\<close>), a restart is demanded at exactly the observations that come 15
  seconds or more after it, whether the probes fail or only report busy; and a service that was not
  ready does not become ready during the outage.
\<close>

theorem ocr_restart_after_15s:
  assumes "h_failedSince h = 0" "t0 \<noteq> 0" "sorted (t0 # map fst os)" "os \<noteq> []"
  shows "d_restart (fst (outage ((t0, busy) # os) h)) = (fst (last os) - t0 \<ge> 15000) \<and>
    (if h_ready h then True else \<not> d_ready (fst (outage ((t0, busy) # os) h)))"
proof -
  let ?h = "snd (HealthObserve t0 True (if busy then Busy else Failed) (h_lastSuccess h) h)"
  have h: "h_failedSince ?h = t0" "h_ready ?h \<Longrightarrow> h_ready h"
    using assms(1,2) by (auto simp: HealthObserve_def Let_def split: if_splits)
  obtain o1 os' where os: "os = o1 # os'" using assms(4) by (cases os) auto
  then have "outage ((t0, busy) # os) h = outage os ?h" by simp
  then show ?thesis using outage_restart [of os ?h] outage_ready [of ?h os] h assms by auto
qed

theorem ocr_restart_after_15s_witness:
  "d_restart (fst (outage [(1000, False), (9000, True), (16000, True)] (new_monitor\<lparr> h_ready := True \<rparr>))) \<and>
   \<not> d_restart (fst (outage [(1000, False), (15999, False)] (new_monitor\<lparr> h_ready := True \<rparr>)))"
  using ocr_restart_after_15s [of "new_monitor\<lparr> h_ready := True \<rparr>" 1000 "[(9000, True), (16000, True)]" False]
    ocr_restart_after_15s [of "new_monitor\<lparr> h_ready := True \<rparr>" 1000 "[(15999, False)]" False]
  by (simp add: new_monitor_def)

subsection \<open>The clock of successful requests\<close>

text \<open>
  \<^verbatim>\<open>RequestCoordinator::RecordSuccess\<close> as the steps of one thread: the load, then rounds of a weak
  compare-and-swap, which may fail spuriously and then reloads. A schedule names the thread that takes
  the next step and says whether its swap fails spuriously.
\<close>

datatype record_phase = Starting | Trying u64 | Recorded

fun RecordSuccess_step :: "bool \<Rightarrow> u64 \<Rightarrow> u64 \<times> record_phase \<Rightarrow> u64 \<times> u64 \<times> record_phase" where
  "RecordSuccess_step spurious cell (now, Starting) = (cell, now, Trying cell)"
| "RecordSuccess_step spurious cell (now, Trying old) =
     (if now > old then
        if cell = old \<and> \<not> spurious then (now, now, Recorded) else (cell, now, Trying cell)
      else (cell, now, Recorded))"
| "RecordSuccess_step spurious cell (now, Recorded) = (cell, now, Recorded)"

fun run_clock :: "(nat \<times> bool) list \<Rightarrow> u64 \<Rightarrow> (u64 \<times> record_phase) list \<Rightarrow> u64 \<times> (u64 \<times> record_phase) list" where
  "run_clock [] cell ts = (cell, ts)"
| "run_clock ((i, spurious) # sch) cell ts =
     (if i < length ts then
        (case RecordSuccess_step spurious cell (ts ! i) of (cell', t') \<Rightarrow> run_clock sch cell' (ts[i := t']))
      else run_clock sch cell ts)"

definition LastSuccessAt :: "u64 \<Rightarrow> u64" where "LastSuccessAt cell = cell"

definition thread_ok :: "u64 \<Rightarrow> u64 \<times> record_phase \<Rightarrow> bool" where
  "thread_ok cell t = (case snd t of Starting \<Rightarrow> True | Trying old \<Rightarrow> old \<le> cell | Recorded \<Rightarrow> fst t \<le> cell)"

lemma thread_ok_mono: "thread_ok c t \<Longrightarrow> c \<le> c' \<Longrightarrow> thread_ok c' t"
  by (auto simp: thread_ok_def split: record_phase.splits)

lemma RecordSuccess_step_ok:
  assumes "RecordSuccess_step spurious cell t = (cell', t')" "thread_ok cell t"
  shows "cell \<le> cell'" "thread_ok cell' t'" "fst t' = fst t" "cell' = cell \<or> cell' = fst t"
  using assms by (cases t; cases "snd t"; auto simp: thread_ok_def split: if_splits)+

lemma run_clock_ok:
  assumes "\<forall>t \<in> set ts. thread_ok cell t"
  shows "case run_clock sch cell ts of (cell', ts') \<Rightarrow> cell \<le> cell' \<and> (\<forall>t \<in> set ts'. thread_ok cell' t) \<and>
    map fst ts' = map fst ts \<and> cell' \<in> insert cell (fst ` set ts)"
  using assms
proof (induction sch cell ts rule: run_clock.induct)
  case (2 i spurious sch cell ts)
  show ?case
  proof (cases "i < length ts")
    case True
    obtain c t where st: "RecordSuccess_step spurious cell (ts ! i) = (c, t)"
      by (cases "RecordSuccess_step spurious cell (ts ! i)")
    have mem: "ts ! i \<in> set ts" using True by simp
    then have "thread_ok cell (ts ! i)" using 2(3) by blast
    note step = RecordSuccess_step_ok [OF st this]
    have all: "\<forall>x \<in> set (ts[i := t]). thread_ok c x"
      using 2(3) step(1,2) thread_ok_mono set_update_subset_insert [of ts i t] by blast
    have fsts: "map fst (ts[i := t]) = map fst ts"
      using True step(3) unfolding map_update by (metis list_update_id nth_map)
    have sets: "fst ` set (ts[i := t]) = fst ` set ts"
      using arg_cong [OF fsts, of set] unfolding set_map .
    note IH = 2(1) [OF True st [symmetric] all, unfolded fsts sets]
    have run: "run_clock ((i, spurious) # sch) cell ts = run_clock sch c (ts[i := t])"
      using True st by simp
    have "insert c (fst ` set ts) \<subseteq> insert cell (fst ` set ts)"
      using step(3,4) imageI [OF mem, of fst] by (elim disjE) (simp_all add: subset_insertI)
    then show ?thesis unfolding run using IH step(1) unfolding split_beta by (meson order_trans subsetD)
  qed (use 2 in simp)
qed simp

text \<open>
  Whatever the interleaving of any number of recorders and however often the weak
  compare-and-swap fails spuriously: the clock never runs backwards, its value is the initial one or
  one of the recorded times, and every recorder that has finished left it at its own time or later. So
  when all have finished it holds their maximum; no success is lost.
\<close>

theorem success_clock_keeps_maximum:
  "let (cell', ts') = run_clock sch cell (map (\<lambda>now. (now, Starting)) nows) in
   cell \<le> LastSuccessAt cell' \<and> LastSuccessAt cell' \<in> set (cell # nows) \<and> map fst ts' = nows \<and>
   list_all (\<lambda>t. fst t \<le> LastSuccessAt cell') (filter (\<lambda>t. snd t = Recorded) ts')"
proof -
  have "\<forall>t \<in> set (map (\<lambda>now. (now, Starting)) nows). thread_ok cell t" by (auto simp: thread_ok_def)
  from run_clock_ok [OF this, of sch] show ?thesis
    by (fastforce simp: LastSuccessAt_def list_all_iff thread_ok_def image_image o_def split: record_phase.splits)
qed

end
