(* ===== verification/Utf8.thy ===== *)
theory Utf8
  imports Prelude
begin

text \<open>
  UTF-8. \<open>IsValidUtf8\<close> is the validator of \<^verbatim>\<open>CloudMatchProtocol.cpp\<close>; the theory proves that it accepts
  exactly the encodings of sequences of Unicode scalar values. The converter between UTF-16 and UTF-8
  below it is the reference the texts of the program are measured against (Windows converts them
  with \<^verbatim>\<open>WideCharToMultiByte\<close> and \<^verbatim>\<open>MultiByteToWideChar\<close> in their strict modes).
\<close>

subsection \<open>The validator\<close>

text \<open>The length of a sequence and the bounds of its second byte, by its first byte.\<close>

definition utf8_lead :: "byte \<Rightarrow> (nat \<times> byte \<times> byte) option" where
  "utf8_lead first =
     (if first \<ge> 0xc2 \<and> first \<le> 0xdf then Some (2, 0x80, 0xbf)
      else if first \<ge> 0xe0 \<and> first \<le> 0xef then
        Some (3, (if first = 0xe0 then 0xa0 else 0x80), (if first = 0xed then 0x9f else 0xbf))
      else if first \<ge> 0xf0 \<and> first \<le> 0xf4 then
        Some (4, (if first = 0xf0 then 0x90 else 0x80), (if first = 0xf4 then 0x8f else 0xbf))
      else None)"

function IsValidUtf8 :: "bytes \<Rightarrow> bool" where
  "IsValidUtf8 [] = True"
| "IsValidUtf8 (first # text) =
     (if first \<le> 0x7f then IsValidUtf8 text else
      case utf8_lead first of
        None \<Rightarrow> False
      | Some (len, secondMinimum, secondMaximum) \<Rightarrow>
          if len > length (first # text) then False
          else if text ! 0 < secondMinimum \<or> text ! 0 > secondMaximum then False
          else if list_ex (\<lambda>value. value < 0x80 \<or> value > 0xbf) (take (len - 2) (drop 1 text)) then False
          else IsValidUtf8 (drop (len - 1) text))"
  by pat_completeness auto
termination by (relation "measure length") (auto split: if_splits simp: utf8_lead_def)

subsection \<open>The encoding of scalar values\<close>

definition scalar :: "nat \<Rightarrow> bool" where
  "scalar c \<longleftrightarrow> c < 0xD800 \<or> (0xE000 \<le> c \<and> c < 0x110000)"

definition utf8_char :: "nat \<Rightarrow> bytes" where
  "utf8_char c =
     (if c < 0x80 then [of_nat c]
      else if c < 0x800 then [of_nat (0xC0 + c div 64), of_nat (0x80 + c mod 64)]
      else if c < 0x10000 then
        [of_nat (0xE0 + c div 4096), of_nat (0x80 + c div 64 mod 64), of_nat (0x80 + c mod 64)]
      else [of_nat (0xF0 + c div 262144), of_nat (0x80 + c div 4096 mod 64),
        of_nat (0x80 + c div 64 mod 64), of_nat (0x80 + c mod 64)])"

definition utf8_text :: "nat list \<Rightarrow> bytes" where
  "utf8_text cs = concat (map utf8_char cs)"

text \<open>The four shapes of a sequence, with the bytes as numbers.\<close>

lemma IsValidUtf8_shapes:
  "IsValidUtf8 (a # bs) \<longleftrightarrow>
     (unat a < 0x80 \<and> IsValidUtf8 bs) \<or>
     (\<exists>b r. bs = b # r \<and> 0xC2 \<le> unat a \<and> unat a \<le> 0xDF \<and> 0x80 \<le> unat b \<and> unat b \<le> 0xBF \<and> IsValidUtf8 r) \<or>
     (\<exists>b c r. bs = b # c # r \<and> 0xE0 \<le> unat a \<and> unat a \<le> 0xEF \<and>
        (if unat a = 0xE0 then 0xA0 else 0x80) \<le> unat b \<and> unat b \<le> (if unat a = 0xED then 0x9F else 0xBF) \<and>
        0x80 \<le> unat c \<and> unat c \<le> 0xBF \<and> IsValidUtf8 r) \<or>
     (\<exists>b c d r. bs = b # c # d # r \<and> 0xF0 \<le> unat a \<and> unat a \<le> 0xF4 \<and>
        (if unat a = 0xF0 then 0x90 else 0x80) \<le> unat b \<and> unat b \<le> (if unat a = 0xF4 then 0x8F else 0xBF) \<and>
        0x80 \<le> unat c \<and> unat c \<le> 0xBF \<and> 0x80 \<le> unat d \<and> unat d \<le> 0xBF \<and> IsValidUtf8 r)"
proof -
  consider "unat a < 0x80" | "0x80 \<le> unat a" "unat a < 0xC2" | "0xC2 \<le> unat a" "unat a \<le> 0xDF"
    | "0xE0 \<le> unat a" "unat a \<le> 0xEF" | "0xF0 \<le> unat a" "unat a \<le> 0xF4" | "0xF4 < unat a" by linarith
  then show ?thesis
  proof cases
    case 4
    then show ?thesis
      by (cases bs; cases "tl bs") (auto simp: utf8_lead_def byte_nat not_le not_less)
  next
    case 5
    then show ?thesis
      by (cases bs; cases "tl bs"; cases "tl (tl bs)") (auto simp: utf8_lead_def byte_nat not_le not_less)
  qed (cases bs; auto simp: utf8_lead_def byte_nat not_le not_less)+
qed

declare IsValidUtf8.simps(2) [simp del]

text \<open>Digits in base 64.\<close>

lemma digits64:
  fixes x y z w :: nat
  assumes "w < 64"
  shows "(x * 64 + w) div 64 = x" "(x * 64 + w) mod 64 = w"
  using assms by simp_all

lemma digits64_3: "z < 64 \<Longrightarrow> y < 64 \<Longrightarrow> ((x * 64 + y) * 64 + z) div 4096 = (x :: nat)"
  by (simp add: div_eq_dividend_iff div_nat_eqI)

lemma digits64_4: "w < 64 \<Longrightarrow> z < 64 \<Longrightarrow> y < 64 \<Longrightarrow> (((x * 64 + y) * 64 + z) * 64 + w) div 262144 = (x :: nat)"
  by (simp add: div_nat_eqI)

lemma digits64_34: "w < 64 \<Longrightarrow> z < 64 \<Longrightarrow> y < 64 \<Longrightarrow> (((x * 64 + y) * 64 + z) * 64 + w) div 4096 = (x * 64 + y :: nat)"
  by (simp add: div_nat_eqI)

lemma utf8_char_digits:
  "x < 32 \<Longrightarrow> 2 \<le> x \<Longrightarrow> y < 64 \<Longrightarrow> utf8_char (x * 64 + y) = [of_nat (0xC0 + x), of_nat (0x80 + y)]"
  "x < 16 \<Longrightarrow> y < 64 \<Longrightarrow> z < 64 \<Longrightarrow> (x = 0 \<Longrightarrow> 32 \<le> y) \<Longrightarrow> utf8_char ((x * 64 + y) * 64 + z) =
     [of_nat (0xE0 + x), of_nat (0x80 + y), of_nat (0x80 + z)]"
  "x \<le> 4 \<Longrightarrow> y < 64 \<Longrightarrow> z < 64 \<Longrightarrow> w < 64 \<Longrightarrow> (x = 0 \<Longrightarrow> 16 \<le> y) \<Longrightarrow> utf8_char (((x * 64 + y) * 64 + z) * 64 + w) =
     [of_nat (0xF0 + x), of_nat (0x80 + y), of_nat (0x80 + z), of_nat (0x80 + w)]"
proof -
  assume "x < 32" "2 \<le> x" "y < 64"
  then have "\<not> x * 64 + y < 0x80" "x * 64 + y < 0x800" by linarith+
  then show "utf8_char (x * 64 + y) = [of_nat (0xC0 + x), of_nat (0x80 + y)]"
    unfolding utf8_char_def digits64 [OF \<open>y < 64\<close>] by (simp only: if_False if_True)
next
  assume *: "x < 16" "y < 64" "z < 64" "x = 0 \<Longrightarrow> 32 \<le> y"
  let ?n = "(x * 64 + y) * 64 + z"
  have "\<not> ?n < 0x800" using * by (cases "x = 0") simp_all
  moreover have "\<not> ?n < 0x80" "?n < 0x10000" using calculation *(1,2,3) by auto
  ultimately show "utf8_char ?n = [of_nat (0xE0 + x), of_nat (0x80 + y), of_nat (0x80 + z)]"
    unfolding utf8_char_def digits64 [OF \<open>z < 64\<close>] digits64 [OF \<open>y < 64\<close>] digits64_3 [OF *(3,2)]
    by (simp only: if_False if_True)
next
  assume *: "x \<le> 4" "y < 64" "z < 64" "w < 64" "x = 0 \<Longrightarrow> 16 \<le> y"
  let ?n = "((x * 64 + y) * 64 + z) * 64 + w"
  have "\<not> ?n < 0x10000" using * by (cases "x = 0") simp_all
  moreover have "\<not> ?n < 0x80" "\<not> ?n < 0x800" using calculation by linarith+
  ultimately show "utf8_char ?n = [of_nat (0xF0 + x), of_nat (0x80 + y), of_nat (0x80 + z), of_nat (0x80 + w)]"
    unfolding utf8_char_def digits64 [OF *(4)] digits64 [OF *(3)] digits64 [OF *(2)] digits64_34 [OF *(4,3,2)]
      digits64_4 [OF *(4,3,2)] by (simp only: if_False if_True)
qed

lemma of_unat: "n + k = unat (a :: byte) \<Longrightarrow> of_nat (n + k) = a"
  by simp

lemma utf8_char_1: "unat a < 0x80 \<Longrightarrow> scalar (unat a) \<and> utf8_char (unat a) = [a]"
  by (simp add: scalar_def utf8_char_def)

lemma utf8_char_2:
  assumes "0xC2 \<le> unat a" "unat a \<le> 0xDF" "0x80 \<le> unat b" "unat b \<le> 0xBF"
  shows "\<exists>c. scalar c \<and> utf8_char c = [a, b]"
proof -
  define x y where "x = unat a - 0xC0" and "y = unat b - 0x80"
  have "x < 32" "2 \<le> x" "y < 64" "0xC0 + x = unat a" "0x80 + y = unat b" using assms by (simp_all add: x_def y_def)
  moreover from this have "utf8_char (x * 64 + y) = [a, b]"
    using utf8_char_digits(1) [of x y] of_unat by metis
  ultimately have "utf8_char (x * 64 + y) = [a, b] \<and> scalar (x * 64 + y)"
    by (simp add: scalar_def)
  then show ?thesis by blast
qed

lemma utf8_char_3:
  assumes "0xE0 \<le> unat a" "unat a \<le> 0xEF"
    "(if unat a = 0xE0 then 0xA0 else 0x80) \<le> unat b" "unat b \<le> (if unat a = 0xED then 0x9F else 0xBF)"
    "0x80 \<le> unat c" "unat c \<le> 0xBF"
  shows "\<exists>n. scalar n \<and> utf8_char n = [a, b, c]"
proof -
  define x y z where "x = unat a - 0xE0" and "y = unat b - 0x80" and "z = unat c - 0x80"
  let ?n = "(x * 64 + y) * 64 + z"
  have yz: "y < 64" "z < 64" using assms by (auto simp: y_def z_def split: if_splits)
  have eqs: "0xE0 + x = unat a" "0x80 + y = unat b" "0x80 + z = unat c"
    using assms by (auto simp: x_def y_def z_def split: if_splits)
  have rng: "x < 16" "x = 0 \<Longrightarrow> 32 \<le> y" "x = 13 \<Longrightarrow> y < 32"
    using assms by (auto simp: x_def y_def split: if_splits)
  have "\<not> (0xD800 \<le> ?n \<and> ?n < 0xE000)"
  proof
    assume h: "0xD800 \<le> ?n \<and> ?n < 0xE000"
    then have "x \<le> 13 \<and> 13 \<le> x" using yz by auto
    with rng(3) h yz show False by simp
  qed
  then have "scalar ?n" using rng yz by (auto simp: scalar_def)
  moreover have "utf8_char ?n = [a, b, c]"
    using utf8_char_digits(2) [OF rng(1) yz rng(2)] eqs of_unat by metis
  ultimately show ?thesis by blast
qed

lemma utf8_char_4:
  assumes "0xF0 \<le> unat a" "unat a \<le> 0xF4"
    "(if unat a = 0xF0 then 0x90 else 0x80) \<le> unat b" "unat b \<le> (if unat a = 0xF4 then 0x8F else 0xBF)"
    "0x80 \<le> unat c" "unat c \<le> 0xBF" "0x80 \<le> unat d" "unat d \<le> 0xBF"
  shows "\<exists>n. scalar n \<and> utf8_char n = [a, b, c, d]"
proof -
  define x y z w where "x = unat a - 0xF0" and "y = unat b - 0x80" and "z = unat c - 0x80" and "w = unat d - 0x80"
  let ?n = "((x * 64 + y) * 64 + z) * 64 + w"
  have yz: "y < 64" "z < 64" "w < 64" using assms by (auto simp: y_def z_def w_def split: if_splits)
  have eqs: "0xF0 + x = unat a" "0x80 + y = unat b" "0x80 + z = unat c" "0x80 + w = unat d"
    using assms by (auto simp: x_def y_def z_def w_def split: if_splits)
  have rng: "x \<le> 4" "x = 0 \<Longrightarrow> 16 \<le> y" "x = 4 \<Longrightarrow> y < 16"
    using assms by (auto simp: x_def y_def split: if_splits)
  have "0x10000 \<le> ?n" using rng(2) by (cases "x = 0") simp_all
  moreover have "?n < 0x110000" using rng(1,3) yz by (cases "x = 4") simp_all
  ultimately have "scalar ?n" by (simp add: scalar_def)
  moreover have "utf8_char ?n = [a, b, c, d]"
    using utf8_char_digits(3) [OF rng(1) yz rng(2)] eqs of_unat by metis
  ultimately show ?thesis by blast
qed

lemma IsValidUtf8_split:
  assumes "IsValidUtf8 (a # bs)"
  shows "\<exists>c r. scalar c \<and> a # bs = utf8_char c @ r \<and> IsValidUtf8 r"
  using assms unfolding IsValidUtf8_shapes
proof (elim disjE exE conjE, goal_cases)
  case 1 then show ?case using utf8_char_1 [of a] by (intro exI [of _ "unat a"] exI [of _ bs]) simp
next
  case 2 then show ?case by (metis utf8_char_2 append_Cons append_Nil)
next
  case 3 then show ?case by (metis utf8_char_3 append_Cons append_Nil)
next
  case 4 then show ?case by (metis utf8_char_4 append_Cons append_Nil)
qed

lemma digits64_ex: "\<exists>x y. (c :: nat) = x * 64 + y \<and> y < 64"
  by (intro exI [of _ "c div 64"] exI [of _ "c mod 64"]) simp

lemma IsValidUtf8_char:
  assumes "scalar c" shows "IsValidUtf8 (utf8_char c @ r) = IsValidUtf8 r"
proof -
  obtain u w where 1: "c = u * 64 + w" "w < 64" using digits64_ex by blast
  obtain v z where 2: "u = v * 64 + z" "z < 64" using digits64_ex by blast
  obtain x y where 3: "v = x * 64 + y" "y < 64" using digits64_ex by blast
  consider "c < 0x80" | "0x80 \<le> c" "c < 0x800" | "0x800 \<le> c" "c < 0x10000" | "0x10000 \<le> c" by linarith
  then show ?thesis
  proof cases
    case 2
    then have "u < 32" "2 \<le> u" using 1 by linarith+
    with 1 show ?thesis by (simp add: utf8_char_digits(1) IsValidUtf8_shapes del: of_nat_add)
  next
    case 3
    then have v: "v < 16" "v = 0 \<Longrightarrow> 32 \<le> z" using 1 2 by linarith+
    moreover have "v = 13 \<Longrightarrow> z < 32" using assms 1 2 by (auto simp: scalar_def)
    ultimately show ?thesis using utf8_char_digits(2) [OF v(1) 2(2) 1(2) v(2)] 1 2
      by (auto simp: IsValidUtf8_shapes simp del: of_nat_add)
  next
    case 4
    then have x: "x \<le> 4" "x = 0 \<Longrightarrow> 16 \<le> y" using assms 1 2 3 by (simp_all add: scalar_def)
    moreover have "x = 4 \<Longrightarrow> y < 16" using assms 4 1 2 3 by (auto simp: scalar_def)
    ultimately show ?thesis using utf8_char_digits(3) [OF x(1) 3(2) 2(2) 1(2) x(2)] 1 2 3
      by (auto simp: IsValidUtf8_shapes simp del: of_nat_add)
  qed (simp add: utf8_char_def IsValidUtf8_shapes)
qed

lemma utf8_text_Cons [simp]: "utf8_text [] = []" "utf8_text (c # cs) = utf8_char c @ utf8_text cs"
  by (simp_all add: utf8_text_def)

lemma IsValidUtf8_text: "list_all scalar cs \<Longrightarrow> IsValidUtf8 (utf8_text cs @ r) = IsValidUtf8 r"
  by (induction cs) (simp_all add: IsValidUtf8_char)

text \<open>
  Property C31. The validator of the cloud protocol accepts a byte string exactly when it is the UTF-8
  encoding of a sequence of Unicode scalar values: no overlong form, no surrogate, nothing above
  U+10FFFF, no truncated sequence.
\<close>

theorem valid_utf8_iff_encoding: "IsValidUtf8 bs = (\<exists>cs. list_all scalar cs \<and> bs = utf8_text cs)"
proof
  show "IsValidUtf8 bs \<Longrightarrow> \<exists>cs. list_all scalar cs \<and> bs = utf8_text cs"
  proof (induction bs rule: length_induct)
    case (1 bs)
    show ?case
    proof (cases bs)
      case Nil then show ?thesis by (intro exI [of _ "[]"]) simp
    next
      case (Cons a as)
      with IsValidUtf8_split 1(2) obtain c r where c: "scalar c" "bs = utf8_char c @ r" "IsValidUtf8 r" by metis
      then have "length r < length bs" by (simp add: utf8_char_def)
      with 1(1) c(3) obtain cs where "list_all scalar cs" "r = utf8_text cs" by blast
      with c show ?thesis by (intro exI [of _ "c # cs"]) simp
    qed
  qed
next
  assume "\<exists>cs. list_all scalar cs \<and> bs = utf8_text cs"
  then show "IsValidUtf8 bs" using IsValidUtf8_text [of _ "[]"] by auto
qed

subsection \<open>Conversion from and to UTF-16\<close>

fun utf16_scalars :: "wstr \<Rightarrow> nat list option" where
  "utf16_scalars [] = Some []"
| "utf16_scalars (c # cs) =
     (if unat c < 0xD800 \<or> 0xE000 \<le> unat c then map_option ((#) (unat c)) (utf16_scalars cs)
      else case cs of
        [] \<Rightarrow> None
      | d # ds \<Rightarrow>
          if unat c < 0xDC00 \<and> 0xDC00 \<le> unat d \<and> unat d < 0xE000
          then map_option ((#) (0x10000 + (unat c - 0xD800) * 1024 + (unat d - 0xDC00))) (utf16_scalars ds)
          else None)"

definition utf16_char :: "nat \<Rightarrow> wstr" where
  "utf16_char c =
     (if c < 0x10000 then [of_nat c]
      else [of_nat (0xD800 + (c - 0x10000) div 1024), of_nat (0xDC00 + (c - 0x10000) mod 1024)])"

fun utf8_scalars :: "bytes \<Rightarrow> nat list" where
  "utf8_scalars [] = []"
| "utf8_scalars (a # bs) =
     (if unat a < 0x80 then unat a # utf8_scalars bs
      else if unat a < 0xE0 then
        (case bs of b # r \<Rightarrow> ((unat a - 0xC0) * 64 + (unat b - 0x80)) # utf8_scalars r | _ \<Rightarrow> [])
      else if unat a < 0xF0 then
        (case bs of b # c # r \<Rightarrow>
           (((unat a - 0xE0) * 64 + (unat b - 0x80)) * 64 + (unat c - 0x80)) # utf8_scalars r | _ \<Rightarrow> [])
      else
        (case bs of b # c # d # r \<Rightarrow>
           ((((unat a - 0xF0) * 64 + (unat b - 0x80)) * 64 + (unat c - 0x80)) * 64 + (unat d - 0x80)) # utf8_scalars r
         | _ \<Rightarrow> []))"

definition wide_to_utf8 :: "wstr \<Rightarrow> bytes option" where
  "wide_to_utf8 s = map_option utf8_text (utf16_scalars s)"

definition utf8_to_wide :: "bytes \<Rightarrow> wstr option" where
  "utf8_to_wide bs = (if IsValidUtf8 bs then Some (concat (map utf16_char (utf8_scalars bs))) else None)"

lemma utf8_scalars_char:
  assumes "scalar c" shows "utf8_scalars (utf8_char c @ r) = c # utf8_scalars r"
proof -
  obtain u w where 1: "c = u * 64 + w" "w < 64" using digits64_ex by blast
  obtain v z where 2: "u = v * 64 + z" "z < 64" using digits64_ex by blast
  obtain x y where 3: "v = x * 64 + y" "y < 64" using digits64_ex by blast
  consider "c < 0x80" | "0x80 \<le> c" "c < 0x800" | "0x800 \<le> c" "c < 0x10000" | "0x10000 \<le> c" by linarith
  then show ?thesis
  proof cases
    case 2
    then have "u < 32" "2 \<le> u" using 1 by linarith+
    with 1 show ?thesis by (simp add: utf8_char_digits(1) del: of_nat_add)
  next
    case 3
    then have v: "v < 16" "v = 0 \<Longrightarrow> 32 \<le> z" using 1 2 by linarith+
    then show ?thesis using utf8_char_digits(2) [OF v(1) 2(2) 1(2) v(2)] 1 2 by (simp del: of_nat_add)
  next
    case 4
    then have x: "x \<le> 4" "x = 0 \<Longrightarrow> 16 \<le> y" using assms 1 2 3 by (simp_all add: scalar_def)
    then show ?thesis using utf8_char_digits(3) [OF x(1) 3(2) 2(2) 1(2) x(2)] 1 2 3 by (simp del: of_nat_add)
  qed (simp add: utf8_char_def)
qed

lemma utf8_scalars_text: "list_all scalar cs \<Longrightarrow> utf8_scalars (utf8_text cs) = cs"
  by (induction cs) (simp_all add: utf8_scalars_char)

lemma unat_wchar [simp]: "n < 65536 \<Longrightarrow> unat (word_of_nat n :: wchar) = n"
  by (simp add: unat_of_nat)

lemma utf16_scalars_sound:
  "utf16_scalars s = Some cs \<Longrightarrow> list_all scalar cs \<and> concat (map utf16_char cs) = s"
proof (induction s arbitrary: cs rule: utf16_scalars.induct)
  case (2 c s)
  have c16: "unat c < 65536" using unsigned_less [of c] by simp
  show ?case
  proof (cases "unat c < 0xD800 \<or> 0xE000 \<le> unat c")
    case True
    with 2(3) obtain cs' where "utf16_scalars s = Some cs'" "cs = unat c # cs'" by auto
    with 2(1) [OF True] True c16 show ?thesis by (auto simp: scalar_def utf16_char_def)
  next
    case False
    with 2(3) obtain d ds where s: "s = d # ds" by (cases s) auto
    define h l where "h = unat c - 0xD800" and "l = unat d - 0xDC00"
    from False s 2(3) have cd: "unat c < 0xDC00" "0xDC00 \<le> unat d" "unat d < 0xE000"
      by (auto split: if_splits)
    with False s 2(3) obtain cs' where cs': "utf16_scalars ds = Some cs'" "cs = (0x10000 + h * 1024 + l) # cs'"
      by (auto simp: h_def l_def)
    have hl: "h < 1024" "l < 1024" "0xD800 + h = unat c" "0xDC00 + l = unat d"
      using cd False by (auto simp: h_def l_def)
    then have "utf16_char (0x10000 + h * 1024 + l) = [c, d]"
      by (simp add: utf16_char_def)
    moreover have "scalar (0x10000 + h * 1024 + l)" using hl by (simp add: scalar_def)
    ultimately show ?thesis using 2(2) [OF False s] cd cs' s by auto
  qed
qed simp

text \<open>
  What the program relies on of a strict converter: what it encodes it decodes again, the encoding is
  valid UTF-8, and only the empty text has an empty encoding.
\<close>

locale strict_converter =
  fixes to_utf8 :: "wstr \<Rightarrow> bytes option" and from_utf8 :: "bytes \<Rightarrow> wstr option"
  assumes decode_encode: "to_utf8 s = Some bs \<Longrightarrow> from_utf8 bs = Some s"
    and encode_valid: "to_utf8 s = Some bs \<Longrightarrow> IsValidUtf8 bs"
    and encode_Nil: "to_utf8 [] = Some []"
begin

lemma encode_inj: "to_utf8 s = Some bs \<Longrightarrow> to_utf8 t = Some bs \<Longrightarrow> s = t"
  by (metis decode_encode option.inject)

lemma encode_empty: "to_utf8 s = Some [] \<longleftrightarrow> s = []"
  using encode_inj encode_Nil by blast

end

interpretation utf8: strict_converter wide_to_utf8 utf8_to_wide
proof
  show "IsValidUtf8 bs" "utf8_to_wide bs = Some s" if enc: "wide_to_utf8 s = Some bs" for s bs
  proof -
    obtain cs where cs: "utf16_scalars s = Some cs" "bs = utf8_text cs"
      using enc by (auto simp: wide_to_utf8_def)
    note sound = utf16_scalars_sound [OF cs(1)]
    then show "IsValidUtf8 bs" using IsValidUtf8_text [of cs "[]"] cs(2) by simp
    then show "utf8_to_wide bs = Some s" using sound cs(2) by (simp add: utf8_to_wide_def utf8_scalars_text)
  qed
qed (simp add: wide_to_utf8_def)

end
