(* ===== verification/LicenseLease.thy ===== *)
theory LicenseLease
  imports Utf8 "HOL-Library.Monad_Syntax"
begin

text \<open>
  The offline licence lease (\<^verbatim>\<open>LicenseLease.cpp\<close>): the policy that decides whether a stored lease still
  authorises the program, the binary format of the record, and the weekly synchronisation policy of
  the alias database (\<^verbatim>\<open>AliasDbAutoSyncPolicy.cpp\<close>). Times are 64-bit words read as signed numbers, with
  the wrap-around of the additions. The registry and the data-protection calls around the format are
  not modelled; the text converter of Windows is a parameter.
\<close>

type_synonym i64 = "64 word"

definition DNF_LICENSE_MONTH_SECONDS :: i64 where "DNF_LICENSE_MONTH_SECONDS = 30 * 24 * 60 * 60"
definition DNF_LICENSE_LEASE_SECONDS :: i64 where "DNF_LICENSE_LEASE_SECONDS = 5 * 24 * 60 * 60"
definition DNF_LICENSE_CLOCK_SKEW_SECONDS :: i64 where "DNF_LICENSE_CLOCK_SKEW_SECONDS = 5 * 60"
definition DNF_LICENSE_PERMANENT_EXPIRY :: i64 where "DNF_LICENSE_PERMANENT_EXPIRY = 0xFFFFFFFF"
definition DNF_LICENSE_ENDPOINT_REFRESH_DELAY_MS :: u64 where
  "DNF_LICENSE_ENDPOINT_REFRESH_DELAY_MS = 30 * 1000"

lemmas lease_constants = DNF_LICENSE_MONTH_SECONDS_def DNF_LICENSE_LEASE_SECONDS_def
  DNF_LICENSE_CLOCK_SKEW_SECONDS_def DNF_LICENSE_PERMANENT_EXPIRY_def
  DNF_LICENSE_ENDPOINT_REFRESH_DELAY_MS_def

record DnfLicenseLeaseRecord =
  licenseKey :: wstr
  machineId :: wstr
  cloudServerUrl :: wstr
  serverSessionToken :: wstr
  cardDuration :: i64
  expireTime :: i64
  validatedAt :: i64
  lastUsedAt :: i64
  lease_environment :: wstr
  endpointManifestUrl :: wstr

definition empty_lease :: DnfLicenseLeaseRecord where
  "empty_lease = \<lparr> licenseKey = [], machineId = [], cloudServerUrl = [], serverSessionToken = [],
     cardDuration = 0, expireTime = 0, validatedAt = 0, lastUsedAt = 0, lease_environment = [],
     endpointManifestUrl = [] \<rparr>"

datatype DnfLicenseLeaseValidation =
  lease_valid | ineligible | identityMismatch | invalidRecord | clockRollback | cardExpired | validationDue

subsection \<open>The policy\<close>

definition DnfIsLicenseLeaseEligible :: "i64 \<Rightarrow> bool" where
  "DnfIsLicenseLeaseEligible d \<longleftrightarrow>
     d = DNF_LICENSE_PERMANENT_EXPIRY \<or> sint d \<ge> sint DNF_LICENSE_MONTH_SECONDS"

definition DnfGetLicenseLeaseValidUntil :: "DnfLicenseLeaseRecord \<Rightarrow> i64" where
  "DnfGetLicenseLeaseValidUntil lease =
     (if sint (validatedAt lease) \<le> 0 \<or>
         sint (validatedAt lease) > 2 ^ 63 - 1 - sint DNF_LICENSE_LEASE_SECONDS then 0
      else
        let leaseDeadline = validatedAt lease + DNF_LICENSE_LEASE_SECONDS in
        if expireTime lease = DNF_LICENSE_PERMANENT_EXPIRY then leaseDeadline
        else if sint (expireTime lease) \<le> 0 then 0
        else if sint (expireTime lease) < sint leaseDeadline then expireTime lease
        else leaseDeadline)"

definition DnfValidateLicenseLease ::
  "DnfLicenseLeaseRecord \<Rightarrow> wstr \<Rightarrow> wstr \<Rightarrow> i64 \<Rightarrow> i64 \<Rightarrow> DnfLicenseLeaseValidation" where
  "DnfValidateLicenseLease lease expectedLicenseKey expectedMachineId expectedCardDuration now =
     (if \<not> DnfIsLicenseLeaseEligible expectedCardDuration \<or> \<not> DnfIsLicenseLeaseEligible (cardDuration lease)
      then ineligible
      else if licenseKey lease \<noteq> expectedLicenseKey \<or> machineId lease \<noteq> expectedMachineId \<or>
         cardDuration lease \<noteq> expectedCardDuration
      then identityMismatch
      else if licenseKey lease = [] \<or> machineId lease = [] \<or> cloudServerUrl lease = [] \<or>
         length (cloudServerUrl lease) > 2048 \<or> 0 \<in> set (cloudServerUrl lease) \<or>
         sint (validatedAt lease) \<le> 0 \<or> sint (lastUsedAt lease) < sint (validatedAt lease) \<or> sint now \<le> 0 \<or>
         sint (DnfGetLicenseLeaseValidUntil lease) \<le> 0
      then invalidRecord
      else if sint (now + DNF_LICENSE_CLOCK_SKEW_SECONDS) < sint (validatedAt lease) \<or>
         sint (now + DNF_LICENSE_CLOCK_SKEW_SECONDS) < sint (lastUsedAt lease)
      then clockRollback
      else if expireTime lease \<noteq> DNF_LICENSE_PERMANENT_EXPIRY \<and> sint now \<ge> sint (expireTime lease)
      then cardExpired
      else if sint now \<ge> sint (DnfGetLicenseLeaseValidUntil lease) then validationDue
      else lease_valid)"

definition DnfShouldRefreshLicenseEndpoint :: "bool \<Rightarrow> bool \<Rightarrow> bool \<Rightarrow> bool \<Rightarrow> u64 \<Rightarrow> u64 \<Rightarrow> bool" where
  "DnfShouldRefreshLicenseEndpoint usingLicenseLease refreshAttempted refreshInFlight connected
     disconnectedSinceTick nowTick =
     (if \<not> usingLicenseLease \<or> refreshAttempted \<or> refreshInFlight \<or> connected \<or>
         disconnectedSinceTick = 0 \<or> nowTick < disconnectedSinceTick then False
      else nowTick - disconnectedSinceTick \<ge> DNF_LICENSE_ENDPOINT_REFRESH_DELAY_MS)"

definition DNF_ALIAS_AUTO_SYNC_PERIOD_SECONDS :: i64 where
  "DNF_ALIAS_AUTO_SYNC_PERIOD_SECONDS = 7 * 24 * 60 * 60"

definition DnfIsAliasAutoSyncDue :: "bool \<Rightarrow> bool \<Rightarrow> i64 \<Rightarrow> i64 \<Rightarrow> bool" where
  "DnfIsAliasAutoSyncDue enabled attemptedThisRun lastSuccessAt now =
     (if \<not> enabled \<or> attemptedThisRun then False
      else if sint lastSuccessAt \<le> 0 then True
      else if sint now < sint lastSuccessAt then True
      else sint (now - lastSuccessAt) \<ge> sint DNF_ALIAS_AUTO_SYNC_PERIOD_SECONDS)"

lemma sint_range: "- (2 ^ 63) \<le> sint (a :: i64) \<and> sint a < 2 ^ 63"
  using sint_ge [of a] sint_less [of a] by simp

lemma sint_add: "- (2 ^ 63) \<le> sint a + sint b \<Longrightarrow> sint a + sint b < 2 ^ 63 \<Longrightarrow> sint (a + b :: i64) = sint a + sint b"
  by (simp add: signed_take_bit_int_eq_self sint_word_ariths(1))

text \<open>The deadline of a lease, as a number.\<close>

lemma valid_until_number:
  "sint (DnfGetLicenseLeaseValidUntil l) =
    (if 0 < sint (validatedAt l) \<and> sint (validatedAt l) \<le> 2 ^ 63 - 1 - 432000 then
       if expireTime l = DNF_LICENSE_PERMANENT_EXPIRY then sint (validatedAt l) + 432000
       else if 0 < sint (expireTime l) then min (sint (validatedAt l) + 432000) (sint (expireTime l)) else 0
     else 0)"
proof -
  have "sint (validatedAt l + DNF_LICENSE_LEASE_SECONDS) = sint (validatedAt l) + 432000"
    if "0 < sint (validatedAt l)" "sint (validatedAt l) \<le> 2 ^ 63 - 1 - 432000"
    using that by (subst sint_add) (simp_all add: lease_constants)
  then show ?thesis
    by (auto simp: DnfGetLicenseLeaseValidUntil_def lease_constants Let_def min_def not_le)
qed



subsection \<open>The record format\<close>

definition DNF_LICENSE_LEASE_MAGIC :: dword where "DNF_LICENSE_LEASE_MAGIC = 0x314C4644"
definition DNF_LICENSE_LEASE_VERSION :: dword where "DNF_LICENSE_LEASE_VERSION = 3"
definition DNF_LICENSE_LEASE_MAX_BYTES :: nat where "DNF_LICENSE_LEASE_MAX_BYTES = 64 * 1024"
definition DNF_LICENSE_LEASE_MAX_TEXT_BYTES :: nat where "DNF_LICENSE_LEASE_MAX_TEXT_BYTES = 16 * 1024"

definition WideToUtf8 :: "(wstr \<Rightarrow> bytes option) \<Rightarrow> wstr \<Rightarrow> bytes option" where
  "WideToUtf8 to_utf8 input =
     (if input = [] then Some []
      else if length input > 2147483647 then None
      else do {
        output \<leftarrow> to_utf8 input;
        (if output = [] \<or> length output > DNF_LICENSE_LEASE_MAX_TEXT_BYTES then None else Some output)
      })"

definition Utf8ToWide :: "(bytes \<Rightarrow> wstr option) \<Rightarrow> bytes \<Rightarrow> wstr option" where
  "Utf8ToWide from_utf8 bs =
     (if bs = [] then Some []
      else if length bs > DNF_LICENSE_LEASE_MAX_TEXT_BYTES \<or> length bs > 2147483647 then None
      else do {
        output \<leftarrow> from_utf8 bs;
        (if output = [] then None else Some output)
      })"

definition AppendU32 :: "dword \<Rightarrow> bytes" where
  "AppendU32 value = map (\<lambda>shift. ucast (and (drop_bit shift value) 0xFF)) [0, 8, 16, 24]"

definition AppendI64 :: "i64 \<Rightarrow> bytes" where
  "AppendI64 value = map (\<lambda>shift. ucast (and (drop_bit shift value) 0xFF)) [0, 8, 16, 24, 32, 40, 48, 56]"

definition ReadU32 :: "bytes \<Rightarrow> (dword \<times> bytes) option" where
  "ReadU32 cursor =
     (if length cursor < 4 then None
      else Some (fold (\<lambda>i acc. or acc (push_bit (8 * i) (ucast (cursor ! i)))) [0..<4] 0, drop 4 cursor))"

definition ReadI64 :: "bytes \<Rightarrow> (i64 \<times> bytes) option" where
  "ReadI64 cursor =
     (if length cursor < 8 then None
      else Some (fold (\<lambda>i acc. or acc (push_bit (8 * i) (ucast (cursor ! i)))) [0..<8] 0, drop 8 cursor))"

definition AppendText :: "(wstr \<Rightarrow> bytes option) \<Rightarrow> wstr \<Rightarrow> bytes option" where
  "AppendText to_utf8 text =
     do {
       utf8 \<leftarrow> WideToUtf8 to_utf8 text;
       (if length utf8 > 0xFFFFFFFF then None else Some (AppendU32 (of_nat (length utf8)) @ utf8))
     }"

definition ReadText :: "(bytes \<Rightarrow> wstr option) \<Rightarrow> bytes \<Rightarrow> (wstr \<times> bytes) option" where
  "ReadText from_utf8 cursor =
     do {
       (len, cursor) \<leftarrow> ReadU32 cursor;
       (if unat len > DNF_LICENSE_LEASE_MAX_TEXT_BYTES \<or> length cursor < unat len then None
        else do { text \<leftarrow> Utf8ToWide from_utf8 (take (unat len) cursor); Some (text, drop (unat len) cursor) })
     }"

definition SerializeLease :: "(wstr \<Rightarrow> bytes option) \<Rightarrow> DnfLicenseLeaseRecord \<Rightarrow> bytes option" where
  "SerializeLease to_utf8 lease =
     do {
       let output = AppendU32 DNF_LICENSE_LEASE_MAGIC @ AppendU32 DNF_LICENSE_LEASE_VERSION @
         AppendI64 (cardDuration lease) @ AppendI64 (expireTime lease) @
         AppendI64 (validatedAt lease) @ AppendI64 (lastUsedAt lease);
       a \<leftarrow> AppendText to_utf8 (licenseKey lease);
       b \<leftarrow> AppendText to_utf8 (machineId lease);
       c \<leftarrow> AppendText to_utf8 (cloudServerUrl lease);
       d \<leftarrow> AppendText to_utf8 (serverSessionToken lease);
       e \<leftarrow> AppendText to_utf8 (lease_environment lease);
       f \<leftarrow> AppendText to_utf8 (endpointManifestUrl lease);
       let output = output @ a @ b @ c @ d @ e @ f;
       (if length output > DNF_LICENSE_LEASE_MAX_BYTES then None else Some output)
     }"

definition DeserializeLease :: "(bytes \<Rightarrow> wstr option) \<Rightarrow> bytes \<Rightarrow> DnfLicenseLeaseRecord option" where
  "DeserializeLease from_utf8 bs =
     (if bs = [] \<or> length bs > DNF_LICENSE_LEASE_MAX_BYTES then None
      else do {
        (magic, cursor) \<leftarrow> ReadU32 bs;
        (version, cursor) \<leftarrow> ReadU32 cursor;
        (if magic \<noteq> DNF_LICENSE_LEASE_MAGIC \<or> version < 1 \<or> version > DNF_LICENSE_LEASE_VERSION then None
         else do {
           (duration, cursor) \<leftarrow> ReadI64 cursor;
           (expires, cursor) \<leftarrow> ReadI64 cursor;
           (validated, cursor) \<leftarrow> ReadI64 cursor;
           (used, cursor) \<leftarrow> ReadI64 cursor;
           (key, cursor) \<leftarrow> ReadText from_utf8 cursor;
           (machine, cursor) \<leftarrow> ReadText from_utf8 cursor;
           (url, cursor) \<leftarrow> ReadText from_utf8 cursor;
           (token, cursor) \<leftarrow> (if version \<ge> 2 then ReadText from_utf8 cursor else Some ([], cursor));
           (env, cursor) \<leftarrow> (if version \<ge> 3 then ReadText from_utf8 cursor else Some ([], cursor));
           (manifest, cursor) \<leftarrow> (if version \<ge> 3 then ReadText from_utf8 cursor else Some ([], cursor));
           (if cursor \<noteq> [] then None
            else Some \<lparr> licenseKey = key, machineId = machine, cloudServerUrl = url,
              serverSessionToken = token, cardDuration = duration, expireTime = expires,
              validatedAt = validated, lastUsedAt = used, lease_environment = env,
              endpointManifestUrl = manifest \<rparr>)
         })
      })"

text \<open>What the fields of a binary record share: what one appends, the reader gets back, and no more.\<close>

locale field_codec =
  fixes put :: "'a \<Rightarrow> bytes option" and get :: "bytes \<Rightarrow> ('a \<times> bytes) option"
  assumes get_put: "put x = Some bs \<Longrightarrow> get (bs @ rest) = Some (x, rest)"
begin

lemma put_inj: "put x = Some bs \<Longrightarrow> put y = Some bs \<Longrightarrow> x = y"
  using get_put [of x bs "[]"] get_put [of y bs "[]"] by simp

lemma get_put_all: "put x = Some bs \<Longrightarrow> get bs = Some (x, [])"
  using get_put [of x bs "[]"] by simp

end

text \<open>Reading little-endian bytes puts every bit back in its place.\<close>

lemma bit_le_fold:
  "bit (fold (\<lambda>i acc. or acc (push_bit (8 * i) (ucast (xs ! i)))) [0..<n] (0 :: 'a :: len word)) k \<longleftrightarrow>
   k < LENGTH('a) \<and> (\<exists>i < n. 8 * i \<le> k \<and> bit (xs ! i :: byte) (k - 8 * i))"
proof (induction n)
  case (Suc n)
  then show ?case by (auto simp: bit_simps less_Suc_eq)
qed simp

lemma le_bytes:
  fixes v :: "'a :: len word"
  assumes "LENGTH('a) \<le> 8 * n"
  shows "fold (\<lambda>i acc. or acc (push_bit (8 * i) (ucast ((map (\<lambda>j. ucast (and (drop_bit (8 * j) v) 0xFF)) [0..<n] @ rest) ! i :: byte))))
     [0..<n] 0 = v"
proof (rule bit_word_eqI)
  fix k assume k: "k < LENGTH('a)"
  have FF: "bit (0xFF :: int) j \<longleftrightarrow> j < 8" for j
    using bit_mask_iff [where 'a = int, of 8 j] by (auto simp: mask_eq_exp_minus_1)
  have byte: "bit (ucast (and (drop_bit (8 * i) v) 0xFF) :: byte) m \<longleftrightarrow> m < 8 \<and> bit v (8 * i + m)" for i m
    using bit_imp_le_length [of v "8 * i + m"] by (auto simp: bit_simps FF)
  have "(\<exists>i < n. 8 * i \<le> k \<and> bit ((map (\<lambda>j. ucast (and (drop_bit (8 * j) v) 0xFF)) [0..<n] @ rest) ! i :: byte) (k - 8 * i))
      \<longleftrightarrow> (\<exists>i < n. 8 * i \<le> k \<and> k - 8 * i < 8 \<and> bit v k)"
    by (intro ex_cong1) (auto simp: nth_append byte)
  also have "\<dots> \<longleftrightarrow> bit v k"
  proof
    assume "bit v k"
    then show "\<exists>i < n. 8 * i \<le> k \<and> k - 8 * i < 8 \<and> bit v k"
      using k assms by (intro exI [of _ "k div 8"]) (auto intro: less_mult_imp_div_less)
  qed auto
  finally show "bit (fold (\<lambda>i acc. or acc (push_bit (8 * i) (ucast ((map (\<lambda>j. ucast (and (drop_bit (8 * j) v) 0xFF)) [0..<n] @ rest) ! i :: byte))))
     [0..<n] (0 :: 'a word)) k = bit v k"
    using k by (simp add: bit_le_fold)
qed

lemma AppendU32_bytes: "AppendU32 v = map (\<lambda>j. ucast (and (drop_bit (8 * j) v) 0xFF)) [0..<4]"
  by (simp add: AppendU32_def upt_rec)

lemma AppendI64_bytes: "AppendI64 v = map (\<lambda>j. ucast (and (drop_bit (8 * j) v) 0xFF)) [0..<8]"
  by (simp add: AppendI64_def upt_rec)

lemma length_append_fields [simp]: "length (AppendU32 v) = 4" "length (AppendI64 w) = 8"
  by (simp_all add: AppendU32_def AppendI64_def)

lemma ReadU32_AppendU32 [simp]: "ReadU32 (AppendU32 v @ rest) = Some (v, rest)"
  using le_bytes [where v = v and n = 4 and rest = rest]
  by (simp add: ReadU32_def del: upt_Suc) (simp add: AppendU32_bytes del: upt_Suc)

lemma ReadI64_AppendI64 [simp]: "ReadI64 (AppendI64 v @ rest) = Some (v, rest)"
  using le_bytes [where v = v and n = 8 and rest = rest]
  by (simp add: ReadI64_def del: upt_Suc) (simp add: AppendI64_bytes del: upt_Suc)

interpretation u32: field_codec "\<lambda>v. Some (AppendU32 v)" ReadU32
  by unfold_locales auto

interpretation i64: field_codec "\<lambda>v. Some (AppendI64 v)" ReadI64
  by unfold_locales auto

lemma WideToUtf8_Some:
  assumes "WideToUtf8 to_utf8 s = Some bs"
  shows "length bs \<le> 16384" "s = [] \<and> bs = [] \<or> s \<noteq> [] \<and> bs \<noteq> [] \<and> to_utf8 s = Some bs"
  using assms by (auto simp: WideToUtf8_def DNF_LICENSE_LEASE_MAX_TEXT_BYTES_def split: if_splits Option.bind_splits)

context strict_converter
begin

lemma Utf8ToWide_WideToUtf8: "WideToUtf8 to_utf8 s = Some bs \<Longrightarrow> Utf8ToWide from_utf8 bs = Some s"
  using WideToUtf8_Some [of to_utf8 s bs] decode_encode [of s bs]
  by (auto simp: Utf8ToWide_def DNF_LICENSE_LEASE_MAX_TEXT_BYTES_def)

lemma text_codec: "field_codec (AppendText to_utf8) (ReadText from_utf8)"
proof
  fix x bs rest
  assume "AppendText to_utf8 x = Some bs"
  then obtain u where u: "WideToUtf8 to_utf8 x = Some u" "bs = AppendU32 (of_nat (length u)) @ u"
    by (auto simp: AppendText_def split: if_splits Option.bind_splits)
  have len: "unat (word_of_nat (length u) :: dword) = length u"
    using WideToUtf8_Some(1) [OF u(1)] by (simp add: unat_of_nat)
  show "ReadText from_utf8 (bs @ rest) = Some (x, rest)"
    using WideToUtf8_Some(1) [OF u(1)] u32.get_put [of "word_of_nat (length u)" _ "u @ rest"]
    by (simp add: ReadText_def u(2) len Utf8ToWide_WideToUtf8 [OF u(1)] DNF_LICENSE_LEASE_MAX_TEXT_BYTES_def)
qed

end

interpretation lease_text: field_codec "AppendText wide_to_utf8" "ReadText utf8_to_wide"
  by (rule utf8.text_codec)

text \<open>
  Whatever lease the program manages to serialise, it reads back unchanged, with any strict
  text converter: all four times bit for bit and all six texts.
\<close>

theorem lease_round_trip:
  assumes "strict_converter to_utf8 from_utf8" "SerializeLease to_utf8 lease = Some bs"
  shows "DeserializeLease from_utf8 bs = Some lease"
proof -
  note txt_get = field_codec.get_put [OF strict_converter.text_codec [OF assms(1)]]
  obtain a b c d e f where
    t: "AppendText to_utf8 (licenseKey lease) = Some a" "AppendText to_utf8 (machineId lease) = Some b"
      "AppendText to_utf8 (cloudServerUrl lease) = Some c" "AppendText to_utf8 (serverSessionToken lease) = Some d"
      "AppendText to_utf8 (lease_environment lease) = Some e" "AppendText to_utf8 (endpointManifestUrl lease) = Some f"
    and bs: "bs = AppendU32 DNF_LICENSE_LEASE_MAGIC @ AppendU32 DNF_LICENSE_LEASE_VERSION @
         AppendI64 (cardDuration lease) @ AppendI64 (expireTime lease) @
         AppendI64 (validatedAt lease) @ AppendI64 (lastUsedAt lease) @ a @ b @ c @ d @ e @ f @ []"
    and len: "length bs \<le> DNF_LICENSE_LEASE_MAX_BYTES"
    using assms(2) unfolding SerializeLease_def Let_def
    by (auto split: if_splits Option.bind_splits)
  have "bs \<noteq> []" by (simp add: bs AppendU32_def)
  with len have ok: "\<not> (bs = [] \<or> length bs > DNF_LICENSE_LEASE_MAX_BYTES)" by simp
  then show ?thesis
    unfolding DeserializeLease_def if_not_P [OF ok] unfolding bs
    by (simp add: txt_get [OF t(1)] txt_get [OF t(2)] txt_get [OF t(3)] txt_get [OF t(4)] txt_get [OF t(5)] txt_get [OF t(6), of "[]", simplified]
        DNF_LICENSE_LEASE_VERSION_def)
qed

text \<open>A lease as an earlier version of the program wrote it: fewer texts, and none of the release scope.\<close>

definition demo_lease :: DnfLicenseLeaseRecord where
  "demo_lease = empty_lease\<lparr> licenseKey := [75], machineId := [0x4E2D], cloudServerUrl := [104, 116],
     cardDuration := 0xFFFFFFFF, expireTime := -1, validatedAt := 1000000, lastUsedAt := 1000500 \<rparr>"

theorem lease_round_trip_witness:
  "DeserializeLease utf8_to_wide (the (SerializeLease wide_to_utf8 demo_lease)) = Some demo_lease"
proof -
  have "SerializeLease wide_to_utf8 demo_lease \<noteq> None"
    by (simp add: SerializeLease_def demo_lease_def empty_lease_def AppendText_def WideToUtf8_def wide_to_utf8_def
        utf8_text_def utf8_char_def DNF_LICENSE_LEASE_MAX_TEXT_BYTES_def DNF_LICENSE_LEASE_MAX_BYTES_def)
  then obtain bs where bs: "SerializeLease wide_to_utf8 demo_lease = Some bs" by blast
  from lease_round_trip [OF utf8.strict_converter_axioms this] show ?thesis by (simp add: bs)
qed

end
