(* ===== verification/Ordered.thy ===== *)
theory Ordered
  imports Prelude
begin

text \<open>
  The ordered containers of the standard library. A \<^verbatim>\<open>std::set\<close> is the strictly increasing list of its
  elements and a \<^verbatim>\<open>std::map\<close> the association list with strictly increasing keys, which is also the
  order in which a loop visits them; so a container is determined by its elements, and facts about
  insertion orders follow from facts about sets and maps.
\<close>

subsection \<open>Sets\<close>

definition strictly_sorted :: "'a :: linorder list \<Rightarrow> bool" where
  "strictly_sorted xs = sorted_wrt (<) xs"

fun set_insert :: "'a :: linorder \<Rightarrow> 'a list \<Rightarrow> 'a list" where
  "set_insert x [] = [x]"
| "set_insert x (y # ys) = (if x < y then x # y # ys else if x = y then y # ys else y # set_insert x ys)"

definition set_of_list :: "'a :: linorder list \<Rightarrow> 'a list" where
  "set_of_list xs = fold set_insert xs []"

lemma strictly_sorted_simps [simp]:
  "strictly_sorted []" "strictly_sorted (x # xs) \<longleftrightarrow> (\<forall>y \<in> set xs. x < y) \<and> strictly_sorted xs"
  by (simp_all add: strictly_sorted_def)

lemma set_set_insert [simp]: "set (set_insert x xs) = insert x (set xs)"
  by (induction xs) auto

lemma set_insert_sorted: "strictly_sorted xs \<Longrightarrow> strictly_sorted (set_insert x xs)"
  by (induction xs) (auto dest: less_trans)

lemma fold_set_insert:
  "strictly_sorted ys \<Longrightarrow> strictly_sorted (fold set_insert xs ys) \<and> set (fold set_insert xs ys) = set xs \<union> set ys"
  by (induction xs arbitrary: ys) (auto simp: set_insert_sorted)

lemma set_of_list [simp]: "strictly_sorted (set_of_list xs)" "set (set_of_list xs) = set xs"
  using fold_set_insert [of "[]" xs] by (simp_all add: set_of_list_def)

lemma strictly_sorted_distinct: "strictly_sorted xs \<Longrightarrow> distinct xs \<and> sorted xs"
  by (simp add: strictly_sorted_def strict_sorted_iff)

text \<open>A set is determined by its elements.\<close>

lemma strictly_sorted_eq: "strictly_sorted xs \<Longrightarrow> strictly_sorted ys \<Longrightarrow> set xs = set ys \<Longrightarrow> xs = ys"
  by (meson sorted_distinct_set_unique strictly_sorted_distinct)

lemma set_of_list_eq: "set_of_list xs = set_of_list ys \<longleftrightarrow> set xs = set ys"
  by (metis set_of_list strictly_sorted_eq)

lemma set_of_list_id: "strictly_sorted xs \<Longrightarrow> set_of_list xs = xs"
  by (rule strictly_sorted_eq) simp_all

lemma set_insert_mem: "strictly_sorted xs \<Longrightarrow> x \<in> set xs \<Longrightarrow> set_insert x xs = xs"
  by (rule strictly_sorted_eq) (auto simp: set_insert_sorted)

subsection \<open>Maps\<close>

definition keys_sorted :: "('k :: linorder \<times> 'v) list \<Rightarrow> bool" where
  "keys_sorted kvs = strictly_sorted (map fst kvs)"

fun insert_key :: "'k :: linorder \<Rightarrow> 'v \<Rightarrow> ('k \<times> 'v) list \<Rightarrow> ('k \<times> 'v) list" where
  "insert_key k v [] = [(k, v)]"
| "insert_key k v ((k', v') # kvs) =
     (if k < k' then (k, v) # (k', v') # kvs
      else if k = k' then (k, v) # kvs
      else (k', v') # insert_key k v kvs)"

lemma keys_sorted_simps [simp]:
  "keys_sorted []"
  "keys_sorted ((k, v) # kvs) \<longleftrightarrow> (\<forall>k' \<in> set (map fst kvs). k < k') \<and> keys_sorted kvs"
  by (simp_all add: keys_sorted_def)

lemma set_insert_key: "set (map fst (insert_key k v kvs)) = insert k (set (map fst kvs))"
proof (induction kvs)
  case (Cons a kvs)
  then show ?case by (cases a) (simp add: insert_commute)
qed simp

lemma insert_key_subset: "set (insert_key k v kvs) \<subseteq> insert (k, v) (set kvs)"
  by (induction k v kvs rule: insert_key.induct) auto

lemma insert_key_sorted: "keys_sorted kvs \<Longrightarrow> keys_sorted (insert_key k v kvs)"
proof (induction kvs)
  case (Cons a kvs)
  then show ?case
    by (cases a) (auto simp: set_insert_key simp del: set_map dest: less_trans)
qed simp

lemma map_of_insert_key: "keys_sorted kvs \<Longrightarrow> map_of (insert_key k v kvs) x = (if x = k then Some v else map_of kvs x)"
proof (induction kvs)
  case (Cons a kvs)
  then show ?case by (cases a) (auto simp: map_of_eq_None_iff)
qed simp

lemma fold_insert_key:
  "keys_sorted acc \<Longrightarrow> keys_sorted (fold (\<lambda>(k, v). insert_key k v) kvs acc) \<and>
   map_of (fold (\<lambda>(k, v). insert_key k v) kvs acc) = map_of (rev kvs @ acc)"
proof (induction kvs arbitrary: acc)
  case (Cons kv kvs)
  obtain k v where kv: "kv = (k, v)" by (cases kv)
  have "map_of (insert_key k v acc) = (map_of acc)(k \<mapsto> v)"
    using map_of_insert_key [OF Cons.prems, of k v] by (simp add: fun_eq_iff)
  with Cons.IH [OF insert_key_sorted [OF Cons.prems, of k v]] show ?case
    by (simp add: kv)
qed simp

lemma keys_sorted_distinct: "keys_sorted kvs \<Longrightarrow> distinct (map fst kvs)"
  by (simp add: keys_sorted_def strictly_sorted_distinct)

text \<open>A map is determined by its lookups.\<close>

lemma keys_sorted_eq:
  assumes "keys_sorted xs" "keys_sorted ys" "map_of xs = map_of ys"
  shows "xs = ys"
proof -
  have "set (map fst xs) = set (map fst ys)"
    using assms(3) by (metis dom_map_of_conv_image_fst set_map)
  then have keys: "map fst xs = map fst ys"
    using assms(1,2) by (intro strictly_sorted_eq) (simp_all add: keys_sorted_def)
  show ?thesis
  proof (rule nth_equalityI)
    show len: "length xs = length ys" using arg_cong [OF keys, of length] by simp
    fix i assume i: "i < length xs"
    have fsts: "fst (xs ! i) = fst (ys ! i)" using arg_cong [OF keys, of "\<lambda>l. l ! i"] i len by simp
    have "map_of xs (fst (xs ! i)) = Some (snd (xs ! i))" "map_of ys (fst (ys ! i)) = Some (snd (ys ! i))"
      using i len keys_sorted_distinct [OF assms(1)] keys_sorted_distinct [OF assms(2)] by simp_all
    then show "xs ! i = ys ! i" using fsts assms(3) by (simp add: prod_eq_iff)
  qed
qed

end
