(* ===== verification/Json.thy ===== *)
theory Json
  imports Ordered Binary64
begin

text \<open>
  The values of the json library the program uses, and the operations on them the sources call. Parsing
  and printing are code of that library and stay parameters; a number is a signed integer, an unsigned
  integer or a double (kept as its bit pattern), as the library distinguishes them, and an object is the
  association list of its keys in order. A conversion to another integer type is the wrapping one of
  the library.
\<close>

type_synonym int64 = "64 word"

definition ascii :: "string \<Rightarrow> bytes" where
  "ascii s = map of_char s"

lemma ascii_Cons [simp]: "ascii [] = []" "ascii (c # s) = of_char c # ascii s"
  by (simp_all add: ascii_def)

datatype json =
    JNull
  | JBool bool
  | JInt int64
  | JUInt u64
  | JFloat u64
  | JStr bytes
  | JArr "json list"
  | JObj "(bytes \<times> json) list"

fun is_object :: "json \<Rightarrow> bool" where
  "is_object (JObj _) = True"
| "is_object _ = False"

fun is_array :: "json \<Rightarrow> bool" where
  "is_array (JArr _) = True"
| "is_array _ = False"

fun is_string :: "json \<Rightarrow> bool" where
  "is_string (JStr _) = True"
| "is_string _ = False"

fun is_boolean :: "json \<Rightarrow> bool" where
  "is_boolean (JBool _) = True"
| "is_boolean _ = False"

fun is_number_unsigned :: "json \<Rightarrow> bool" where
  "is_number_unsigned (JUInt _) = True"
| "is_number_unsigned _ = False"

text \<open>The library counts the unsigned numbers among the integers.\<close>

fun is_number_integer :: "json \<Rightarrow> bool" where
  "is_number_integer (JInt _) = True"
| "is_number_integer (JUInt _) = True"
| "is_number_integer _ = False"

fun get_string :: "json \<Rightarrow> bytes" where
  "get_string (JStr s) = s"
| "get_string _ = []"

fun get_bits :: "json \<Rightarrow> 64 word" where
  "get_bits (JInt n) = n"
| "get_bits (JUInt n) = n"
| "get_bits _ = 0"

definition get_int64 :: "json \<Rightarrow> int" where "get_int64 j = sint (get_bits j)"
definition get_uint64 :: "json \<Rightarrow> u64" where "get_uint64 j = get_bits j"

fun elements :: "json \<Rightarrow> json list" where
  "elements (JArr xs) = xs"
| "elements _ = []"

fun json_find :: "bytes \<Rightarrow> json \<Rightarrow> json option" where
  "json_find k (JObj kvs) = map_of kvs k"
| "json_find _ _ = None"

definition make_object :: "(bytes \<times> json) list \<Rightarrow> json" where
  "make_object kvs = JObj (fold (\<lambda>(k, v). insert_key k v) kvs [])"

lemma find_make_object [simp]: "json_find k (make_object kvs) = map_of (rev kvs) k"
  using fold_insert_key [of "[]" kvs] by (simp add: make_object_def)

lemma is_object_make_object [simp]: "is_object (make_object kvs)"
  by (simp add: make_object_def)

subsection \<open>Equality\<close>

text \<open>
  The library compares integers of both kinds by their bits, an integer with a double after converting
  it, and doubles as IEEE 754 does: no NaN equals anything, and the two zeros are equal.
\<close>

datatype double_value = Finite rat | Infinite bool | NotANumber

definition double_of :: "u64 \<Rightarrow> double_value" where
  "double_of bits =
     (let n = uint bits; negative = (n \<ge> 2 ^ 63); e = n div 2 ^ 52 mod 2048; m = n mod 2 ^ 52;
          magnitude = (if e = 0 then rat_of_int m * 2 powi (- 1074)
            else rat_of_int (2 ^ 52 + m) * 2 powi (e - 1075))
      in if e = 2047 then (if m = 0 then Infinite negative else NotANumber)
         else Finite (if negative then - magnitude else magnitude))"

definition double_eq :: "double_value \<Rightarrow> double_value \<Rightarrow> bool" where
  "double_eq a b \<longleftrightarrow> a \<noteq> NotANumber \<and> a = b"

definition number_double :: "json \<Rightarrow> double_value" where
  "number_double j = (case j of JInt n \<Rightarrow> Finite (dbl (of_int (sint n))) | JUInt n \<Rightarrow> Finite (dbl (of_int (uint n)))
     | JFloat bits \<Rightarrow> double_of bits | _ \<Rightarrow> NotANumber)"

definition is_number_float :: "json \<Rightarrow> bool" where
  "is_number_float j = (case j of JFloat _ \<Rightarrow> True | _ \<Rightarrow> False)"

definition scalar_eq :: "json \<Rightarrow> json \<Rightarrow> bool" where
  "scalar_eq a b =
     (if is_number_integer a \<and> is_number_integer b then get_bits a = get_bits b
      else if (is_number_float a \<or> is_number_integer a) \<and> (is_number_float b \<or> is_number_integer b)
      then double_eq (number_double a) (number_double b)
      else a = b)"

fun json_eq :: "json \<Rightarrow> json \<Rightarrow> bool" where
  "json_eq (JArr xs) b = (case b of JArr ys \<Rightarrow> list_all2 json_eq xs ys | _ \<Rightarrow> False)"
| "json_eq (JObj xs) b =
     (case b of JObj ys \<Rightarrow> list_all2 (\<lambda>x y. fst x = fst y \<and> json_eq (snd x) (snd y)) xs ys | _ \<Rightarrow> False)"
| "json_eq a b = scalar_eq a b"

lemma double_eq_sym: "double_eq a b = double_eq b a"
  by (auto simp: double_eq_def)

lemma list_all2_flip:
  assumes "\<And>x y. x \<in> set xs \<Longrightarrow> y \<in> set ys \<Longrightarrow> P x y = Q y x"
  shows "list_all2 P xs ys = list_all2 Q ys xs"
  using assms by (auto simp: list_all2_conv_all_nth)

lemma scalar_eq_sym: "scalar_eq a b = scalar_eq b a"
  by (auto simp: scalar_eq_def double_eq_sym)

lemma json_eq_sym: "json_eq a b = json_eq b a"
proof (induction a arbitrary: b)
  case (JArr xs)
  have "list_all2 json_eq xs ys = list_all2 json_eq ys xs" for ys by (rule list_all2_flip) (use JArr in auto)
  then show ?case by (cases b) (simp_all add: scalar_eq_def is_number_float_def)
next
  case (JObj xs)
  have "list_all2 (\<lambda>x y. fst x = fst y \<and> json_eq (snd x) (snd y)) xs ys =
      list_all2 (\<lambda>x y. fst x = fst y \<and> json_eq (snd x) (snd y)) ys xs" for ys
  proof (rule list_all2_flip)
    fix x y :: "bytes \<times> json" assume "x \<in> set xs"
    then have "json_eq (snd x) (snd y) = json_eq (snd y) (snd x)"
      using JObj [of x "snd x" "snd y"] by (simp add: snds.simps prod_eq_iff)
    then show "(fst x = fst y \<and> json_eq (snd x) (snd y)) = (fst y = fst x \<and> json_eq (snd y) (snd x))" by auto
  qed
  then show ?case by (cases b) (simp_all add: scalar_eq_def is_number_float_def)
qed (case_tac [!] b, simp_all add: scalar_eq_sym scalar_eq_def is_number_float_def double_eq_sym eq_commute)

text \<open>A value without doubles equals itself.\<close>

fun no_float :: "json \<Rightarrow> bool" where
  "no_float (JFloat _) = False"
| "no_float (JArr xs) = list_all no_float xs"
| "no_float (JObj kvs) = list_all (\<lambda>kv. no_float (snd kv)) kvs"
| "no_float _ = True"

lemma json_eq_refl: "no_float j \<Longrightarrow> json_eq j j"
proof (induction j)
  case (JObj kvs)
  then show ?case by (auto simp: list_all2_conv_all_nth list_all_length) (metis nth_mem snds.intros surjective_pairing)
qed (auto simp: list_all2_conv_all_nth list_all_length scalar_eq_def is_number_float_def)

text \<open>The members and elements as the code reads them; a missing member reads as null.\<close>

definition jget :: "bytes \<Rightarrow> json \<Rightarrow> json" where
  "jget k j = (case json_find k j of Some v \<Rightarrow> v | None \<Rightarrow> JNull)"

definition jcontains :: "bytes \<Rightarrow> json \<Rightarrow> bool" where
  "jcontains k j \<longleftrightarrow> json_find k j \<noteq> None"

fun json_size :: "json \<Rightarrow> nat" where
  "json_size JNull = 0"
| "json_size (JArr xs) = length xs"
| "json_size (JObj kvs) = length kvs"
| "json_size _ = 1"

fun json_erase :: "bytes \<Rightarrow> json \<Rightarrow> json" where
  "json_erase k (JObj kvs) = JObj (filter (\<lambda>kv. fst kv \<noteq> k) kvs)"
| "json_erase k j = j"

fun json_bool :: "json \<Rightarrow> bool" where
  "json_bool (JBool b) = b"
| "json_bool _ = False"

definition json_at :: "json \<Rightarrow> nat \<Rightarrow> json" where
  "json_at j i = (if i < length (elements j) then elements j ! i else JNull)"

lemma jget_make_object: "jget k (make_object kvs) = (case map_of (rev kvs) k of Some v \<Rightarrow> v | None \<Rightarrow> JNull)"
  by (simp add: jget_def)

lemma ascii_eq: "ascii s = ascii t \<longleftrightarrow> s = t"
proof -
  have "unat (of_char c :: byte) = of_char c" for c
  proof -
    have "(of_char c :: nat) < 256" using of_char_mod_256 [of c, where 'a = nat] by (metis mod_less_divisor zero_less_numeral)
    then show ?thesis by (metis of_nat_of_char unat_byte)
  qed
  then have "inj (of_char :: char \<Rightarrow> byte)" by (metis injI of_char_eq_iff)
  then show ?thesis by (simp add: ascii_def inj_map_eq_map)
qed

end
