(* ===== verification/ReleasePolicy.thy ===== *)
theory ReleasePolicy
  imports LicenseLease Json
begin

text \<open>
  The release policy of the cloud endpoint (\<^verbatim>\<open>CloudReleasePolicy.cpp\<close>): which server a build may talk to.
  \<open>test_build\<close> stands for the build flag that selects the environment. \<open>crack\<close> is the URL cracker of
  Windows: \<open>None\<close> when it refuses the text, else the parts the code looks at. The textual checks the code
  makes besides it are modelled in full.
\<close>

definition wide :: "string \<Rightarrow> wstr" where "wide s = map of_char s"

lemma wide_Cons [simp]: "wide [] = []" "wide (c # s) = of_char c # wide s"
  by (simp_all add: wide_def)

definition Environment :: "bool \<Rightarrow> wstr" where
  "Environment test_build = (if test_build then wide ''test'' else wide ''production'')"

definition EnvironmentUtf8 :: "bool \<Rightarrow> bytes" where
  "EnvironmentUtf8 test_build = (if test_build then ascii ''test'' else ascii ''production'')"

definition ManifestUrl :: "bool \<Rightarrow> wstr" where
  "ManifestUrl test_build =
     (if test_build then wide ''https://dnf-capture-update.oss-cn-beijing.aliyuncs.com/cloud-server-test.json''
      else wide ''https://dnf-capture-update.oss-cn-beijing.aliyuncs.com/cloud-server-prod.json'')"

datatype url_scheme = SchemeHttp | SchemeHttps | SchemeOther

record url_parts =
  nScheme :: url_scheme
  dwHostNameLength :: nat
  nPort :: nat
  dwUserNameLength :: nat
  dwPasswordLength :: nat
  dwExtraInfoLength :: nat

type_synonym url_cracker = "wstr \<Rightarrow> url_parts option"

subsection \<open>Endpoints\<close>

definition forbidden_char :: "wchar \<Rightarrow> bool" where
  "forbidden_char ch \<longleftrightarrow> ch \<le> 0x20 \<or> ch = 127 \<or> ch = 0x5C \<or> ch = 0x40 \<or> ch = 0x3F \<or> ch = 0x23 \<or>
     ch = 0x22 \<or> ch = 0x3C \<or> ch = 0x3E"

text \<open>The digits of a port, read with the overflow check of the loop.\<close>

fun read_port :: "wstr \<Rightarrow> nat \<Rightarrow> nat option" where
  "read_port [] value = Some value"
| "read_port (ch # port) value =
     (if ch < 0x30 \<or> ch > 0x39 then None
      else let value = value * 10 + (unat ch - 0x30) in
        if value > 65535 then None else read_port port value)"

definition valid_port :: "wstr \<Rightarrow> bool" where
  "valid_port port = (if port = [] then False
     else case read_port port 0 of None \<Rightarrow> False | Some value \<Rightarrow> value \<noteq> 0)"

definition valid_authority :: "wstr \<Rightarrow> bool" where
  "valid_authority authority =
     (if authority = [] then False
      else if hd authority = 0x5B then
        (if 0x5D \<notin> set authority then False
         else
           let hostEnd = length (takeWhile (\<lambda>c. c \<noteq> 0x5D) authority) + 1 in
           if hostEnd = length authority then True
           else if authority ! hostEnd \<noteq> 0x3A then False
           else valid_port (drop (hostEnd + 1) authority))
      else if 0x3A \<notin> set authority then True
      else valid_port (drop (length (takeWhile (\<lambda>c. c \<noteq> 0x3A) authority) + 1) authority))"

definition authority_of :: "wstr \<Rightarrow> wstr option" where
  "authority_of endpoint =
     (case find_sub (wide ''://'') endpoint of None \<Rightarrow> None
      | Some schemeEnd \<Rightarrow> Some (takeWhile (\<lambda>c. c \<noteq> 0x2F) (drop (schemeEnd + 3) endpoint)))"

definition IsValidEndpoint :: "url_cracker \<Rightarrow> wstr \<Rightarrow> bool" where
  "IsValidEndpoint crack endpoint =
     (if endpoint = [] \<or> length endpoint > 2048 then False
      else if list_ex forbidden_char endpoint then False
      else case crack endpoint of None \<Rightarrow> False
        | Some parts \<Rightarrow>
          if (nScheme parts \<noteq> SchemeHttp \<and> nScheme parts \<noteq> SchemeHttps) \<or> dwHostNameLength parts = 0 \<or>
             nPort parts = 0 \<or> dwUserNameLength parts \<noteq> 0 \<or> dwPasswordLength parts \<noteq> 0 \<or> dwExtraInfoLength parts \<noteq> 0
          then False
          else case authority_of endpoint of None \<Rightarrow> False | Some authority \<Rightarrow> valid_authority authority)"

definition DecodeEndpoint :: "(bytes \<Rightarrow> wstr option) \<Rightarrow> url_cracker \<Rightarrow> bytes \<Rightarrow> bool \<times> wstr" where
  "DecodeEndpoint from_utf8 crack v =
     (if v = [] \<or> length v > 2048 then (False, [])
      else case from_utf8 v of None \<Rightarrow> (False, [])
        | Some endpoint \<Rightarrow> if endpoint = [] then (False, []) else (IsValidEndpoint crack endpoint, endpoint))"

definition CanUseCachedEndpoint :: "bool \<Rightarrow> url_cracker \<Rightarrow> wstr \<Rightarrow> wstr \<Rightarrow> wstr \<Rightarrow> bool" where
  "CanUseCachedEndpoint test_build crack storedEnv storedManifest endpoint \<longleftrightarrow>
     storedEnv = Environment test_build \<and> storedManifest = ManifestUrl test_build \<and> IsValidEndpoint crack endpoint"

definition LeaseMatchesRelease :: "bool \<Rightarrow> url_cracker \<Rightarrow> DnfLicenseLeaseRecord \<Rightarrow> bool" where
  "LeaseMatchesRelease test_build crack lease =
     CanUseCachedEndpoint test_build crack (lease_environment lease) (endpointManifestUrl lease) (cloudServerUrl lease)"

text \<open>The result is the verdict, the endpoint and the error text.\<close>

definition ValidateManifest ::
  "bool \<Rightarrow> (bytes \<Rightarrow> wstr option) \<Rightarrow> url_cracker \<Rightarrow> json \<Rightarrow> bool \<times> wstr \<times> wstr" where
  "ValidateManifest test_build from_utf8 crack manifest =
     (if \<not> is_object manifest then (False, [], wide ''Endpoint manifest must be a JSON object.'')
      else if (case json_find (ascii ''environment'') manifest of None \<Rightarrow> True
          | Some e \<Rightarrow> \<not> is_string e \<or> get_string e \<noteq> EnvironmentUtf8 test_build)
      then (False, [], wide ''Endpoint manifest environment does not match this release.'')
      else if (case json_find (ascii ''protocolVersion'') manifest of None \<Rightarrow> True
          | Some p \<Rightarrow> \<not> is_number_integer p \<or> get_bits p \<noteq> 2)
      then (False, [], wide ''Endpoint manifest must specify protocolVersion 2.'')
      else case json_find (ascii ''cloudServerUrl'') manifest of
          Some u \<Rightarrow>
            (case (if is_string u then DecodeEndpoint from_utf8 crack (get_string u) else (False, [])) of
               (True, endpoint) \<Rightarrow> (True, endpoint, [])
             | (False, _) \<Rightarrow> (False, [], wide ''Endpoint manifest cloudServerUrl is not a valid HTTP(S) base URL.''))
        | None \<Rightarrow> (False, [], wide ''Endpoint manifest cloudServerUrl is not a valid HTTP(S) base URL.''))"

subsection \<open>Properties\<close>

text \<open>
  A manifest is accepted only for the environment of this build and protocol version 2, with an
  endpoint that a lease recorded under this build's environment and manifest may use later; a refused
  manifest leaves no endpoint and always an error text.
\<close>

theorem manifest_acceptance:
  "case ValidateManifest test_build from_utf8 crack manifest of (ok, endpoint, err) \<Rightarrow>
     if ok then err = [] \<and> endpoint \<noteq> [] \<and> length endpoint \<le> 2048 \<and> \<not> list_ex forbidden_char endpoint \<and>
       CanUseCachedEndpoint test_build crack (Environment test_build) (ManifestUrl test_build) endpoint \<and>
       json_find (ascii ''environment'') manifest = Some (JStr (EnvironmentUtf8 test_build))
     else endpoint = [] \<and> err \<noteq> []"
proof -
  have e: "is_string j \<Longrightarrow> j = JStr (get_string j)" for j by (cases j) auto
  have d: "DecodeEndpoint from_utf8 crack v = (True, ep) \<Longrightarrow> IsValidEndpoint crack ep" for v ep
    by (auto simp: DecodeEndpoint_def split: if_splits option.splits)
  have v: "IsValidEndpoint crack ep \<Longrightarrow> ep \<noteq> [] \<and> length ep \<le> 2048 \<and> \<not> list_ex forbidden_char ep" for ep
    by (auto simp: IsValidEndpoint_def split: if_splits)
  show ?thesis
    unfolding ValidateManifest_def CanUseCachedEndpoint_def
    using e d v by (simp split: option.split prod.split bool.split if_splits) (metis e)
qed

text \<open>The decimal value of a port text, without any bound.\<close>

definition port_value :: "wstr \<Rightarrow> nat \<Rightarrow> nat" where
  "port_value port v = fold (\<lambda>ch n. n * 10 + (unat ch - 0x30)) port v"

lemma port_value_ge: "v \<le> port_value port v"
proof (induction port arbitrary: v)
  case (Cons ch port)
  have "v \<le> v * 10 + (unat ch - 0x30)" by simp
  also have "\<dots> \<le> port_value port (v * 10 + (unat ch - 0x30))" by (rule Cons)
  finally show ?case by (simp add: port_value_def)
qed (simp add: port_value_def)

lemma read_port_value:
  "read_port port v = (if list_all (\<lambda>ch. 0x30 \<le> ch \<and> ch \<le> 0x39) port \<and> (port = [] \<or> port_value port v \<le> 65535)
     then Some (port_value port v) else None)"
proof (induction port v rule: read_port.induct)
  case (2 ch port v)
  let ?v = "v * 10 + (unat ch - 0x30)"
  have pv: "port_value (ch # port) v = port_value port ?v" by (simp add: port_value_def)
  show ?case
  proof (cases "ch < 0x30 \<or> ch > 0x39 \<or> ?v > 65535")
    case True
    then show ?thesis using port_value_ge [of ?v port] by (auto simp: pv Let_def not_le)
  next
    case False
    moreover have "port = [] \<Longrightarrow> port_value port ?v = ?v" by (simp add: port_value_def)
    ultimately show ?thesis using 2 by (auto simp: pv Let_def not_less)
  qed
qed (simp add: port_value_def)

text \<open>
  The port check of an endpoint is exact for texts of any length: it accepts the decimal numbers
  from 1 to 65535 (leading zeros allowed) and nothing else; the early exit of the loop is what keeps the
  32-bit accumulator from wrapping around.
\<close>

theorem port_check_exact:
  "valid_port port \<longleftrightarrow>
   list_all (\<lambda>ch. 0x30 \<le> ch \<and> ch \<le> 0x39) port \<and> 1 \<le> port_value port 0 \<and> port_value port 0 \<le> 65535"
proof (cases "port = []")
  case False
  then show ?thesis by (auto simp: valid_port_def read_port_value)
qed (simp add: valid_port_def port_value_def)

text \<open>
  A lease written by an earlier version of the format carries no release scope, so it never
  matches a release and the client must fetch the manifest again before it uses the stored endpoint.
\<close>

theorem legacy_lease_needs_renewal:
  assumes "DeserializeLease from_utf8 bs = Some lease" "ReadU32 (drop 4 bs) = Some (version, rest)" "version < 3"
  shows "\<not> LeaseMatchesRelease test_build crack lease"
proof -
  have cur: "ReadU32 bs = Some (m, cursor) \<Longrightarrow> cursor = drop 4 bs" for m cursor
    by (simp add: ReadU32_def split: if_splits)
  obtain m cursor where 1: "ReadU32 bs = Some (m, cursor)"
    using assms(1) by (cases "ReadU32 bs") (auto simp: DeserializeLease_def split: if_splits)
  with assms(2) cur have 2: "ReadU32 cursor = Some (version, rest)" by simp
  have "\<not> version \<ge> 3" using assms(3) by simp
  then have "lease_environment lease = []"
    using assms(1) unfolding DeserializeLease_def
    by (simp add: 1 2 split: if_splits Option.bind_splits prod.splits) (auto split: if_splits Option.bind_splits prod.splits)
  then show ?thesis by (simp add: LeaseMatchesRelease_def CanUseCachedEndpoint_def Environment_def)
qed


text \<open>A record of format version 1 with empty texts.\<close>

definition demo_v1 :: bytes where
  "demo_v1 = AppendU32 DNF_LICENSE_LEASE_MAGIC @ AppendU32 1 @ AppendI64 0 @ AppendI64 0 @ AppendI64 0 @ AppendI64 0 @
     AppendU32 0 @ AppendU32 0 @ AppendU32 0 @ []"

theorem legacy_lease_needs_renewal_witness:
  "DeserializeLease utf8_to_wide demo_v1 = Some empty_lease \<and> \<not> LeaseMatchesRelease False (\<lambda>_. None) empty_lease"
proof -
  have empty_txt: "ReadText utf8_to_wide (AppendU32 0 @ c) = Some ([], c)" for c
    by (simp add: ReadText_def Utf8ToWide_def)
  have *: "DeserializeLease utf8_to_wide demo_v1 = Some empty_lease"
    unfolding DeserializeLease_def
    by (simp add: demo_v1_def empty_txt empty_txt [of "[]", simplified] word_less_nat_alt word_le_nat_alt DNF_LICENSE_LEASE_MAX_BYTES_def DNF_LICENSE_LEASE_VERSION_def empty_lease_def)
      (simp add: AppendU32_def)
  have "ReadU32 (drop 4 demo_v1) = Some (1, drop 8 demo_v1)"
    by (simp add: demo_v1_def)
  from * legacy_lease_needs_renewal [OF * this, of False "\<lambda>_. None"] show ?thesis by simp
qed

end
