(* ===== verification/CloudProtocol.thy ===== *)
theory CloudProtocol
  imports Json Utf8
begin

text \<open>
  The wire protocol of the cloud match client (\<^verbatim>\<open>CloudMatchProtocol.cpp\<close>): Engine.IO and Socket.IO text
  packets around json payloads, and the assembly of WebSocket fragments. Packets are byte strings.
  \<open>parse\<close> and \<open>dump\<close> are the json library: \<open>None\<close> is a discarded value and a thrown exception. The
  functions that fill a result argument return an option, the encoders an empty packet on failure, as
  in the code. Wiping secrets from memory has no counterpart here.
\<close>

definition kMaxCloudMatchPayloadBytes :: nat where "kMaxCloudMatchPayloadBytes = 65536"
definition kMaxCloudMatchInboundPayloadBytes :: nat where "kMaxCloudMatchInboundPayloadBytes = 131072"

type_synonym parser = "bytes \<Rightarrow> json option"
type_synonym printer = "json \<Rightarrow> bytes option"

subsection \<open>Framing\<close>

definition IsPacketValid :: "bytes \<Rightarrow> bool" where
  "IsPacketValid packet \<longleftrightarrow> length packet \<le> kMaxCloudMatchInboundPayloadBytes \<and> IsValidUtf8 packet"

definition ParseJsonAfterPrefix :: "parser \<Rightarrow> bytes \<Rightarrow> bytes \<Rightarrow> json option" where
  "ParseJsonAfterPrefix parse packet pfx =
     (if \<not> IsPacketValid packet \<or> length packet \<le> length pfx \<or> take (length pfx) packet \<noteq> pfx then None
      else parse (drop (length pfx) packet))"

definition EncodeWithPrefix :: "printer \<Rightarrow> bytes \<Rightarrow> json \<Rightarrow> bytes" where
  "EncodeWithPrefix dump pfx value_json =
     (case dump value_json of None \<Rightarrow> []
      | Some text_bytes \<Rightarrow> let packet = pfx @ text_bytes in if \<not> IsPacketValid packet then [] else packet)"

definition ReadPositiveUint32 :: "json \<Rightarrow> bytes \<Rightarrow> dword option" where
  "ReadPositiveUint32 obj key =
     (case json_find key obj of None \<Rightarrow> None
      | Some found \<Rightarrow>
          if \<not> is_number_unsigned found \<and> \<not> is_number_integer found then None
          else let parsed = get_int64 found in
            if parsed \<le> 0 \<or> parsed > 4294967295 then None else Some (word_of_int parsed))"

subsection \<open>Engine.IO packets\<close>

record EngineIoOpenPacket =
  open_sid :: bytes
  pingIntervalMs :: dword
  pingTimeoutMs :: dword
  maxPayload :: "u64 option"

definition read_sid :: "json \<Rightarrow> bytes option" where
  "read_sid j = (case json_find (ascii ''sid'') j of
     Some (JStr sid) \<Rightarrow> (if sid = [] then None else Some sid) | _ \<Rightarrow> None)"

text \<open>The optional \<^verbatim>\<open>maxPayload\<close>: absent, a positive number, or an error.\<close>

definition read_max_payload :: "json \<Rightarrow> u64 option option" where
  "read_max_payload j =
     (case json_find (ascii ''maxPayload'') j of
        None \<Rightarrow> Some None
      | Some v \<Rightarrow>
          if \<not> is_number_unsigned v \<and> \<not> is_number_integer v then None
          else if is_number_integer v \<and> get_int64 v \<le> 0 then None
          else if get_uint64 v = 0 then None
          else Some (Some (get_uint64 v)))"

definition ParseEngineIoPacket :: "parser \<Rightarrow> bytes \<Rightarrow> EngineIoOpenPacket option" where
  "ParseEngineIoPacket parse packet =
     (case ParseJsonAfterPrefix parse packet (ascii ''0'') of None \<Rightarrow> None
      | Some j \<Rightarrow>
        if \<not> is_object j then None else
        (case read_sid j of None \<Rightarrow> None
         | Some sid \<Rightarrow>
           (case ReadPositiveUint32 j (ascii ''pingInterval'') of None \<Rightarrow> None
            | Some interval \<Rightarrow>
              (case ReadPositiveUint32 j (ascii ''pingTimeout'') of None \<Rightarrow> None
               | Some timeout \<Rightarrow>
                 (case read_max_payload j of None \<Rightarrow> None
                  | Some mp \<Rightarrow> Some \<lparr> open_sid = sid, pingIntervalMs = interval, pingTimeoutMs = timeout,
                      maxPayload = mp \<rparr>)))))"

definition IsEngineIoPingPacket :: "bytes \<Rightarrow> bool" where
  "IsEngineIoPingPacket packet \<longleftrightarrow> packet = ascii ''2''"

definition MakeEngineIoPongPacket :: bytes where "MakeEngineIoPongPacket = ascii ''3''"

subsection \<open>Socket.IO packets\<close>

definition EncodeSocketIoConnectPacket :: "printer \<Rightarrow> bytes \<Rightarrow> bytes \<Rightarrow> int \<Rightarrow> bytes \<Rightarrow> bytes \<Rightarrow> bytes" where
  "EncodeSocketIoConnectPacket dump deviceId deviceToken protocolVersion licenseDeviceId licenseSessionToken =
     (if deviceId = [] \<or> deviceToken = [] \<or> protocolVersion \<le> 0 then []
      else EncodeWithPrefix dump (ascii ''40'') (make_object
        ([(ascii ''deviceId'', JStr deviceId), (ascii ''deviceToken'', JStr deviceToken),
          (ascii ''protocolVersion'', JInt (word_of_int protocolVersion))] @
         (if licenseDeviceId \<noteq> [] \<and> licenseSessionToken \<noteq> [] then
            [(ascii ''licenseDeviceId'', JStr licenseDeviceId),
             (ascii ''licenseSessionToken'', JStr licenseSessionToken)]
          else []))))"

definition ParseSocketIoNamespaceConnected :: "parser \<Rightarrow> bytes \<Rightarrow> bytes option" where
  "ParseSocketIoNamespaceConnected parse packet =
     (case ParseJsonAfterPrefix parse packet (ascii ''40'') of None \<Rightarrow> None
      | Some j \<Rightarrow> if \<not> is_object j then None else read_sid j)"

record SocketIoConnectError =
  err_message :: bytes
  err_code :: bytes
  hasBannedUntil :: bool
  bannedUntil :: int

definition read_banned_until :: "json \<Rightarrow> (bool \<times> int) option" where
  "read_banned_until data =
     (case json_find (ascii ''bannedUntil'') data of
        None \<Rightarrow> Some (False, 0)
      | Some v \<Rightarrow>
          if v = JNull then Some (True, 0)
          else if is_number_integer v then
            (if get_int64 v \<le> 0 \<or> get_int64 v > 253402300799 then None else Some (True, get_int64 v))
          else None)"

definition ParseSocketIoConnectError :: "parser \<Rightarrow> bytes \<Rightarrow> SocketIoConnectError option" where
  "ParseSocketIoConnectError parse packet =
     (case ParseJsonAfterPrefix parse packet (ascii ''44'') of None \<Rightarrow> None
      | Some j \<Rightarrow>
        if \<not> is_object j then None else
        (case (json_find (ascii ''message'') j, json_find (ascii ''data'') j) of
           (Some (JStr msg), Some data) \<Rightarrow>
             if \<not> is_object data then None else
             (case json_find (ascii ''code'') data of
                Some (JStr code) \<Rightarrow>
                  (case read_banned_until data of None \<Rightarrow> None
                   | Some (has, until) \<Rightarrow> Some \<lparr> err_message = msg, err_code = code, hasBannedUntil = has,
                       bannedUntil = until \<rparr>)
              | _ \<Rightarrow> None)
         | _ \<Rightarrow> None))"

text \<open>\<^verbatim>\<open>std::to_string\<close> and \<^verbatim>\<open>std::from_chars\<close> on unsigned 64-bit numbers.\<close>

fun to_decimal :: "nat \<Rightarrow> bytes" where
  "to_decimal n = (if n < 10 then [of_nat (48 + n)] else to_decimal (n div 10) @ [of_nat (48 + n mod 10)])"

declare to_decimal.simps [simp del]

definition decimal_digit :: "byte \<Rightarrow> bool" where "decimal_digit b \<longleftrightarrow> 48 \<le> b \<and> b \<le> 57"

definition digits_value :: "bytes \<Rightarrow> nat" where
  "digits_value bs = fold (\<lambda>b n. 10 * n + (unat b - 48)) bs 0"

definition from_chars_u64 :: "bytes \<Rightarrow> u64 option" where
  "from_chars_u64 bs =
     (if bs = [] \<or> \<not> list_all decimal_digit bs \<or> digits_value bs \<ge> 2 ^ 64 then None
      else Some (of_nat (digits_value bs)))"

definition EncodeSocketEvent :: "printer \<Rightarrow> bytes \<Rightarrow> json \<Rightarrow> bytes" where
  "EncodeSocketEvent dump eventName payload =
     (if eventName = [] then [] else EncodeWithPrefix dump (ascii ''42'') (JArr [JStr eventName, payload]))"

definition EncodeSocketEventAck :: "printer \<Rightarrow> bytes \<Rightarrow> json \<Rightarrow> u64 \<Rightarrow> bytes" where
  "EncodeSocketEventAck dump eventName payload ackId =
     (if eventName = [] then []
      else EncodeWithPrefix dump (ascii ''42'' @ to_decimal (unat ackId)) (JArr [JStr eventName, payload]))"

datatype SnapshotUploadEncodeResult = upload_success | invalidPayload | payloadTooLarge

definition EncodeSnapshotUploadEvent ::
  "parser \<Rightarrow> printer \<Rightarrow> bytes \<Rightarrow> u64 \<Rightarrow> nat \<Rightarrow> SnapshotUploadEncodeResult \<times> bytes" where
  "EncodeSnapshotUploadEvent parse dump snapshotJson ackId maxEventBytes =
     (let effectiveLimit = min maxEventBytes kMaxCloudMatchPayloadBytes in
      if snapshotJson = [] \<or> length snapshotJson > effectiveLimit then
        (if snapshotJson = [] then invalidPayload else payloadTooLarge, [])
      else if \<not> IsValidUtf8 snapshotJson then (invalidPayload, [])
      else case parse snapshotJson of None \<Rightarrow> (invalidPayload, [])
        | Some snapshot \<Rightarrow>
          if \<not> is_object snapshot then (invalidPayload, []) else
          (case dump (JArr [JStr (ascii ''snapshot:upload''), make_object [(ascii ''snapshot'', snapshot)]]) of
             None \<Rightarrow> (invalidPayload, [])
           | Some body \<Rightarrow>
             let packet = ascii ''42'' @ to_decimal (unat ackId) @ body in
             if length packet > effectiveLimit then (payloadTooLarge, []) else (upload_success, packet)))"

definition ParseSocketIoEvent :: "parser \<Rightarrow> bytes \<Rightarrow> (bytes \<times> json) option" where
  "ParseSocketIoEvent parse packet =
     (case ParseJsonAfterPrefix parse packet (ascii ''42'') of
        Some (JArr [JStr name, payload]) \<Rightarrow> (if name = [] then None else Some (name, payload))
      | _ \<Rightarrow> None)"

definition ParseSocketIoAck :: "parser \<Rightarrow> bytes \<Rightarrow> (u64 \<times> json) option" where
  "ParseSocketIoAck parse packet =
     (if \<not> IsPacketValid packet \<or> length packet < 5 \<or> take 2 packet \<noteq> ascii ''43'' then None else
      let ident = takeWhile (\<lambda>b. b \<noteq> 0x5B) (drop 2 packet);
          rest = dropWhile (\<lambda>b. b \<noteq> 0x5B) (drop 2 packet)
      in if rest = [] \<or> ident = [] then None else
         case from_chars_u64 ident of None \<Rightarrow> None
         | Some ackId \<Rightarrow>
           (case parse rest of Some (JArr [payload]) \<Rightarrow> Some (ackId, payload) | _ \<Rightarrow> None))"

definition IsSocketIoDisconnectPacket :: "bytes \<Rightarrow> bool" where
  "IsSocketIoDisconnectPacket packet \<longleftrightarrow> packet = ascii ''41''"

subsection \<open>Fragments\<close>

datatype WebSocketBufferKind = utf8Fragment | utf8Message | binaryFragment | binaryMessage

datatype WebSocketAssemblyResult = incomplete | complete | rejected

text \<open>
  The assembler keeps a buffer; the result is the outcome, the completed message and the next buffer.
  The difference in the size test is that of the unsigned 64-bit sizes.
\<close>

definition AssemblerAdd ::
  "bytes \<Rightarrow> WebSocketBufferKind \<Rightarrow> bytes \<Rightarrow> WebSocketAssemblyResult \<times> bytes \<times> bytes" where
  "AssemblerAdd bs kind buffer =
     (if kind = binaryFragment \<or> kind = binaryMessage then (rejected, [], [])
      else if int (length bs) >
        (int kMaxCloudMatchInboundPayloadBytes - int (length buffer)) mod 2 ^ 64 then (rejected, [], [])
      else let buffer = buffer @ bs in
        if kind = utf8Fragment then (incomplete, [], buffer)
        else if \<not> IsValidUtf8 buffer then (rejected, [], [])
        else (complete, buffer, []))"

definition AssemblerReset :: "bytes \<Rightarrow> bytes" where "AssemblerReset buffer = []"

fun assemble :: "(WebSocketBufferKind \<times> bytes) list \<Rightarrow> bytes \<Rightarrow> bytes list \<times> bytes" where
  "assemble [] buffer = ([], buffer)"
| "assemble ((kind, bs) # fs) buffer =
     (case AssemblerAdd bs kind buffer of
        (r, msg, buffer') \<Rightarrow>
          (case assemble fs buffer' of (msgs, b) \<Rightarrow> ((if r = complete then msg # msgs else msgs), b)))"

subsection \<open>Properties of the packets\<close>

lemma ParseJsonAfterPrefix_Some:
  "ParseJsonAfterPrefix parse packet pfx = Some j \<longleftrightarrow>
   (\<exists>body. packet = pfx @ body \<and> body \<noteq> [] \<and> IsPacketValid packet \<and> parse body = Some j)"
proof
  assume *: "ParseJsonAfterPrefix parse packet pfx = Some j"
  then have v: "take (length pfx) packet = pfx" "drop (length pfx) packet \<noteq> []" "IsPacketValid packet"
    "parse (drop (length pfx) packet) = Some j"
    by (auto simp: ParseJsonAfterPrefix_def split: if_splits)
  have "packet = pfx @ drop (length pfx) packet"
    using append_take_drop_id [of "length pfx" packet] unfolding v(1) by simp
  with v(2-4) have "packet = pfx @ drop (length pfx) packet \<and> drop (length pfx) packet \<noteq> [] \<and>
      IsPacketValid packet \<and> parse (drop (length pfx) packet) = Some j" by blast
  then show "\<exists>body. packet = pfx @ body \<and> body \<noteq> [] \<and> IsPacketValid packet \<and> parse body = Some j" by blast
qed (auto simp: ParseJsonAfterPrefix_def)

lemma engine_packet_prefix: "ParseEngineIoPacket parse packet = Some r \<Longrightarrow> take 1 packet = ascii ''0''"
  by (auto simp: ParseEngineIoPacket_def ParseJsonAfterPrefix_Some split: option.splits)

lemma connected_packet_prefix: "ParseSocketIoNamespaceConnected parse packet = Some r \<Longrightarrow> take 2 packet = ascii ''40''"
  by (auto simp: ParseSocketIoNamespaceConnected_def ParseJsonAfterPrefix_Some split: option.splits)

lemma error_packet_prefix: "ParseSocketIoConnectError parse packet = Some r \<Longrightarrow> take 2 packet = ascii ''44''"
  by (auto simp: ParseSocketIoConnectError_def ParseJsonAfterPrefix_Some split: option.splits)

lemma event_packet_prefix: "ParseSocketIoEvent parse packet = Some r \<Longrightarrow> take 2 packet = ascii ''42''"
  by (auto simp: ParseSocketIoEvent_def ParseJsonAfterPrefix_Some split: option.splits json.splits list.splits)

lemma ack_packet_prefix: "ParseSocketIoAck parse packet = Some r \<Longrightarrow> take 2 packet = ascii ''43'' \<and> 5 \<le> length packet"
  by (auto simp: ParseSocketIoAck_def split: if_splits)

lemma at_most_one_kind:
  assumes "p1 \<Longrightarrow> k = (1::nat)" "p2 \<Longrightarrow> k = 2" "p3 \<Longrightarrow> k = 3" "p4 \<Longrightarrow> k = 4" "p5 \<Longrightarrow> k = 5" "p6 \<Longrightarrow> k = 6" "p7 \<Longrightarrow> k = 7"
  shows "length (filter id [p1, p2, p3, p4, p5, p6, p7]) \<le> 1"
  using assms by (cases p1; cases p2; cases p3; cases p4; cases p5; cases p6; cases p7; simp)

text \<open>
  The recognisers of the seven incoming packet kinds never overlap: whatever the json
  library does, at most one of them accepts a given packet.
\<close>

theorem packet_kinds_disjoint:
  "length (filter id [ParseEngineIoPacket parse packet \<noteq> None, IsEngineIoPingPacket packet,
     ParseSocketIoNamespaceConnected parse packet \<noteq> None, ParseSocketIoConnectError parse packet \<noteq> None,
     ParseSocketIoEvent parse packet \<noteq> None, ParseSocketIoAck parse packet \<noteq> None,
     IsSocketIoDisconnectPacket packet]) \<le> 1"
proof -
  let ?k = "if hd packet = 0x30 then 1 else if take 2 packet = [0x32] then 2 else
    if take 2 packet = [0x34, 0x30] then 3 else if take 2 packet = [0x34, 0x34] then 4 else
    if take 2 packet = [0x34, 0x32] then 5 else if take 2 packet = [0x34, 0x33] then 6 else 7 :: nat"
  show ?thesis
  proof (rule at_most_one_kind [where k = ?k])
    show "?k = 1" if "ParseEngineIoPacket parse packet \<noteq> None"
      using that engine_packet_prefix [of parse packet] by (cases packet) auto
    show "?k = 2" if "IsEngineIoPingPacket packet"
      using that by (simp add: IsEngineIoPingPacket_def)
    show "?k = 7" if "IsSocketIoDisconnectPacket packet"
      using that by (simp add: IsSocketIoDisconnectPacket_def)
    show "?k = 3" if "ParseSocketIoNamespaceConnected parse packet \<noteq> None"
      using that connected_packet_prefix [of parse packet] by (cases packet) auto
    show "?k = 4" if "ParseSocketIoConnectError parse packet \<noteq> None"
      using that error_packet_prefix [of parse packet] by (cases packet) auto
    show "?k = 5" if "ParseSocketIoEvent parse packet \<noteq> None"
      using that event_packet_prefix [of parse packet] by (cases packet) auto
    show "?k = 6" if "ParseSocketIoAck parse packet \<noteq> None"
      using that ack_packet_prefix [of parse packet] by (cases packet) auto
  qed
qed

text \<open>
  What the parsed handshake packets guarantee to the client: a session id is never empty, both
  intervals are at least 1 ms, a payload limit is at least 1 and below 2 to the 63 (larger unsigned
  numbers turn negative in the signed conversion and are refused), and a ban ends in the years the
  calendar code can print, 0 standing for a permanent one.
\<close>

theorem handshake_fields_in_range:
  "(case ParseEngineIoPacket parse packet of None \<Rightarrow> True
    | Some r \<Rightarrow> open_sid r \<noteq> [] \<and> 0 < pingIntervalMs r \<and> 0 < pingTimeoutMs r \<and>
        (case maxPayload r of None \<Rightarrow> True | Some mp \<Rightarrow> 0 < mp \<and> unat mp < 2 ^ 63)) \<and>
   (case ParseSocketIoNamespaceConnected parse packet of None \<Rightarrow> True | Some sid \<Rightarrow> sid \<noteq> []) \<and>
   (case ParseSocketIoConnectError parse packet of None \<Rightarrow> True
    | Some e \<Rightarrow> 0 \<le> bannedUntil e \<and> bannedUntil e \<le> 253402300799)"
proof -
  have sid: "read_sid j = Some sid \<Longrightarrow> sid \<noteq> []" for j sid
    by (auto simp: read_sid_def split: option.splits json.splits if_splits)
  have u32: "0 < v" if "ReadPositiveUint32 j k = Some v" for j k v
  proof -
    have "\<exists>n. 0 < n \<and> n \<le> 4294967295 \<and> v = word_of_int n"
      using that by (auto simp: ReadPositiveUint32_def Let_def not_le split: option.splits if_splits)
    then obtain n where "0 < n" "n \<le> 4294967295" "v = word_of_int n" by blast
    then show ?thesis by (simp add: word_less_def uint_word_of_int)
  qed
  have mp: "0 < mp \<and> unat mp < 2 ^ 63" if "read_max_payload j = Some (Some mp)" for j mp
  proof -
    have "is_number_integer v" if "is_number_unsigned v" for v using that by (cases v) auto
    with that have "0 < sint mp"
      by (auto simp: read_max_payload_def get_int64_def get_uint64_def not_le split: option.splits if_splits)
    moreover have "sint mp < 2 ^ 63" using sint_less [of mp] by simp
    ultimately have "uint mp = sint mp" by (simp add: uint_sint take_bit_int_eq_self)
    with \<open>0 < sint mp\<close> \<open>sint mp < 2 ^ 63\<close> show ?thesis by (simp add: word_less_def unat_eq_nat_uint nat_less_iff)
  qed
  have ban: "0 \<le> n \<and> n \<le> 253402300799" if "read_banned_until j = Some (b, n)" for j b n
    using that by (auto simp: read_banned_until_def split: option.splits if_splits)
  have engine: "\<exists>j. read_sid j = Some (open_sid r) \<and> ReadPositiveUint32 j (ascii ''pingInterval'') = Some (pingIntervalMs r) \<and>
      ReadPositiveUint32 j (ascii ''pingTimeout'') = Some (pingTimeoutMs r) \<and> read_max_payload j = Some (maxPayload r)"
    if "ParseEngineIoPacket parse packet = Some r" for r
    using that unfolding ParseEngineIoPacket_def by (simp split: option.splits if_splits) (metis EngineIoOpenPacket.select_convs)
  have connected: "\<exists>j. read_sid j = Some sid'" if "ParseSocketIoNamespaceConnected parse packet = Some sid'" for sid'
    using that by (auto simp: ParseSocketIoNamespaceConnected_def split: option.splits if_splits)
  have err: "\<exists>j h. read_banned_until j = Some (h, bannedUntil e)" if "ParseSocketIoConnectError parse packet = Some e" for e
    using that unfolding ParseSocketIoConnectError_def
    by (simp split: option.splits if_splits prod.splits json.splits) (metis SocketIoConnectError.select_convs(4))
  show ?thesis
  proof (intro conjI)
    show "case ParseEngineIoPacket parse packet of None \<Rightarrow> True
      | Some r \<Rightarrow> open_sid r \<noteq> [] \<and> 0 < pingIntervalMs r \<and> 0 < pingTimeoutMs r \<and>
        (case maxPayload r of None \<Rightarrow> True | Some mp \<Rightarrow> 0 < mp \<and> unat mp < 2 ^ 63)"
      using engine sid u32 mp by (fastforce split: option.split)
    show "case ParseSocketIoNamespaceConnected parse packet of None \<Rightarrow> True | Some sid \<Rightarrow> sid \<noteq> []"
      using connected sid by (auto split: option.split)
    show "case ParseSocketIoConnectError parse packet of None \<Rightarrow> True
      | Some e \<Rightarrow> 0 \<le> bannedUntil e \<and> bannedUntil e \<le> 253402300799"
      using err ban by (fastforce split: option.split)
  qed
qed

subsection \<open>Acknowledgements\<close>

lemma unat_digit [simp]: "d < 10 \<Longrightarrow> unat (48 + word_of_nat d :: byte) = 48 + d"
  using unat_byte [of "48 + d"] by simp

lemma digits_value_snoc: "digits_value (bs @ [b]) = 10 * digits_value bs + (unat b - 48)"
  by (simp add: digits_value_def)

lemma to_decimal_value: "to_decimal n \<noteq> [] \<and> list_all decimal_digit (to_decimal n) \<and> digits_value (to_decimal n) = n"
proof (induction n rule: to_decimal.induct)
  case (1 n)
  have digit: "decimal_digit (48 + word_of_nat d)" if "d < 10" for d
    using that by (simp add: decimal_digit_def byte_nat)
  show ?case
  proof (cases "n < 10")
    case True
    then show ?thesis by (simp add: to_decimal.simps [of n] digit digits_value_def)
  next
    case False
    then show ?thesis using 1 by (simp add: to_decimal.simps [of n] digit digits_value_snoc)
  qed
qed

lemma from_chars_to_decimal [simp]: "from_chars_u64 (to_decimal (unat k)) = Some k"
proof -
  have "unat k < 2 ^ 64" using unsigned_less [of k] by simp
  then show ?thesis using to_decimal_value [of "unat k"] by (simp add: from_chars_u64_def not_le)
qed

lemma digits_no_bracket: "list_all decimal_digit ds \<Longrightarrow> b \<in> set ds \<Longrightarrow> b \<noteq> 0x5B"
  by (auto simp: list_all_iff decimal_digit_def byte_nat)

text \<open>
  An acknowledgement is accepted exactly when it is valid UTF-8 within the inbound limit and
  consists of \<open>43\<close>, a nonempty decimal number below 2 to the 64, and the json array of one payload;
  the number and the payload are the result. (Leading zeros are accepted, signs and blanks are not.)
\<close>

theorem ack_packet_characterisation:
  "ParseSocketIoAck parse packet = Some (k, payload) \<longleftrightarrow>
   (\<exists>ds body. packet = ascii ''43'' @ ds @ body \<and> hd (body @ [0]) = 0x5B \<and> from_chars_u64 ds = Some k \<and>
      parse body = Some (JArr [payload]) \<and> IsPacketValid packet \<and> 5 \<le> length packet)"
proof
  assume *: "ParseSocketIoAck parse packet = Some (k, payload)"
  let ?ds = "takeWhile (\<lambda>b. b \<noteq> 0x5B) (drop 2 packet)" and ?body = "dropWhile (\<lambda>b. b \<noteq> 0x5B) (drop 2 packet)"
  from * have "take 2 packet = ascii ''43''" "IsPacketValid packet" "5 \<le> length packet" "?body \<noteq> []"
    "from_chars_u64 ?ds = Some k" "parse ?body = Some (JArr [payload])"
    by (auto simp: ParseSocketIoAck_def Let_def split: if_splits option.splits json.splits list.splits)
  moreover have "packet = take 2 packet @ ?ds @ ?body" by simp
  moreover have "hd ?body = 0x5B" using hd_dropWhile [OF \<open>?body \<noteq> []\<close>] by simp
  ultimately show "\<exists>ds body. packet = ascii ''43'' @ ds @ body \<and> hd (body @ [0]) = 0x5B \<and> from_chars_u64 ds = Some k \<and>
      parse body = Some (JArr [payload]) \<and> IsPacketValid packet \<and> 5 \<le> length packet"
    by (intro exI [of _ ?ds] exI [of _ ?body]) (simp only: hd_append2, simp)
next
  assume "\<exists>ds body. packet = ascii ''43'' @ ds @ body \<and> hd (body @ [0]) = 0x5B \<and> from_chars_u64 ds = Some k \<and>
      parse body = Some (JArr [payload]) \<and> IsPacketValid packet \<and> 5 \<le> length packet"
  then obtain ds body where *: "packet = ascii ''43'' @ ds @ body" "hd (body @ [0]) = 0x5B"
    "from_chars_u64 ds = Some k" "parse body = Some (JArr [payload])" "IsPacketValid packet" "5 \<le> length packet" by blast
  from *(3) have ds: "ds \<noteq> []" "list_all decimal_digit ds" by (auto simp: from_chars_u64_def split: if_splits)
  obtain r where body: "body = 0x5B # r" using *(2) by (cases body) auto
  have "takeWhile (\<lambda>b. b \<noteq> 0x5B) (ds @ body) = ds" "dropWhile (\<lambda>b. b \<noteq> 0x5B) (ds @ body) = body"
    using digits_no_bracket [OF ds(2)] by (simp_all add: body)
  then show "ParseSocketIoAck parse packet = Some (k, payload)"
    using * ds body by (simp add: ParseSocketIoAck_def Let_def)
qed

subsection \<open>Events\<close>

lemma EncodeWithPrefix_cases:
  "EncodeWithPrefix dump pfx j = [] \<or>
   (\<exists>body. dump j = Some body \<and> EncodeWithPrefix dump pfx j = pfx @ body \<and> IsPacketValid (pfx @ body))"
  by (simp add: EncodeWithPrefix_def Let_def split: option.split)

text \<open>
  An event that the client encodes is what a receiver with the same rules decodes: the name
  and the payload, provided the json library prints a text that parses back to the same array; and an
  encoded packet never exceeds the inbound limit and is valid UTF-8.
\<close>

theorem event_round_trip:
  assumes "EncodeSocketEvent dump name payload \<noteq> []"
    and "parse (the (dump (JArr [JStr name, payload]))) = Some (JArr [JStr name, payload])"
    and "dump (JArr [JStr name, payload]) \<noteq> Some []"
  shows "ParseSocketIoEvent parse (EncodeSocketEvent dump name payload) = Some (name, payload) \<and>
    IsPacketValid (EncodeSocketEvent dump name payload)"
proof -
  from assms(1) have name: "name \<noteq> []" by (auto simp: EncodeSocketEvent_def)
  then obtain body where body: "dump (JArr [JStr name, payload]) = Some body"
    "EncodeSocketEvent dump name payload = ascii ''42'' @ body" "IsPacketValid (ascii ''42'' @ body)"
    using assms(1) EncodeWithPrefix_cases [of dump "ascii ''42''" "JArr [JStr name, payload]"]
    by (auto simp: EncodeSocketEvent_def)
  moreover have "ParseJsonAfterPrefix parse (ascii ''42'' @ body) (ascii ''42'') = Some (JArr [JStr name, payload])"
    unfolding ParseJsonAfterPrefix_Some using assms(2,3) body by auto
  ultimately show ?thesis using name by (simp add: ParseSocketIoEvent_def)
qed

text \<open>A printer and a parser that know one array.\<close>

definition demo_text :: bytes where "demo_text = ascii ''[hi,7]''"

definition demo_dump :: printer where
  "demo_dump j = (if j = JArr [JStr (ascii ''hi''), JUInt 7] then Some demo_text else None)"

definition demo_parse :: parser where
  "demo_parse bs = (if bs = demo_text then Some (JArr [JStr (ascii ''hi''), JUInt 7])
     else if bs = ascii ''[1]'' then Some (JArr [JUInt 1]) else None)"

theorem event_round_trip_witness:
  "ParseSocketIoEvent demo_parse (EncodeSocketEvent demo_dump (ascii ''hi'') (JUInt 7)) = Some (ascii ''hi'', JUInt 7)"
proof -
  have "IsPacketValid (ascii ''42'' @ demo_text)"
    by (simp add: IsPacketValid_def demo_text_def kMaxCloudMatchInboundPayloadBytes_def IsValidUtf8_shapes)
  then have "EncodeSocketEvent demo_dump (ascii ''hi'') (JUInt 7) \<noteq> []"
    by (simp add: EncodeSocketEvent_def EncodeWithPrefix_def demo_dump_def)
  from event_round_trip [OF this, of demo_parse] show ?thesis
    by (simp add: demo_parse_def demo_dump_def demo_text_def)
qed

text \<open>
  A snapshot upload is refused or fits: the packet is empty unless the encoding succeeded, then
  it carries the acknowledgement number and is at most as long as the smaller of the negotiated limit
  and 64 KiB; and an input that alone exceeds the limit is reported as too large whatever it contains.
\<close>

theorem snapshot_upload_within_limit:
  "case EncodeSnapshotUploadEvent parse dump snapshotJson ackId maxEventBytes of (r, packet) \<Rightarrow>
     (if r = upload_success then
        length packet \<le> min maxEventBytes 65536 \<and> take 2 packet = ascii ''42'' \<and>
        takeWhile decimal_digit (drop 2 packet) =
          to_decimal (unat ackId) @ takeWhile decimal_digit (drop (2 + length (to_decimal (unat ackId))) packet)
      else packet = []) \<and>
     (if length snapshotJson > min maxEventBytes 65536 then r = payloadTooLarge else True)"
proof -
  have digits: "takeWhile decimal_digit (to_decimal n @ body) = to_decimal n @ takeWhile decimal_digit body" for n body
    using to_decimal_value [of n] by (simp add: takeWhile_append list_all_iff)
  show ?thesis
    unfolding EncodeSnapshotUploadEvent_def kMaxCloudMatchPayloadBytes_def Let_def
    by (auto simp: digits split: option.splits)
qed

subsection \<open>Assembling fragments\<close>

definition buffer_ok :: "bytes \<Rightarrow> bool" where
  "buffer_ok buffer \<longleftrightarrow> length buffer \<le> kMaxCloudMatchInboundPayloadBytes"

lemma AssemblerAdd_size:
  "buffer_ok buffer \<Longrightarrow>
   (int (length bs) > (int kMaxCloudMatchInboundPayloadBytes - int (length buffer)) mod 2 ^ 64) =
   (length buffer + length bs > kMaxCloudMatchInboundPayloadBytes)"
  unfolding buffer_ok_def kMaxCloudMatchInboundPayloadBytes_def
  by (subst mod_pos_pos_trivial) auto

lemma AssemblerAdd_nat:
  "buffer_ok buffer \<Longrightarrow> AssemblerAdd bs kind buffer =
     (if kind = binaryFragment \<or> kind = binaryMessage then (rejected, [], [])
      else if length buffer + length bs > kMaxCloudMatchInboundPayloadBytes then (rejected, [], [])
      else if kind = utf8Fragment then (incomplete, [], buffer @ bs)
      else if \<not> IsValidUtf8 (buffer @ bs) then (rejected, [], []) else (complete, buffer @ bs, []))"
  unfolding AssemblerAdd_def Let_def by (simp only: AssemblerAdd_size)

lemma AssemblerAdd_ok:
  assumes "buffer_ok buffer" "AssemblerAdd bs kind buffer = (r, msg, buffer')"
  shows "buffer_ok buffer' \<and> (r = complete \<longrightarrow> IsPacketValid msg)"
  using assms(2) unfolding AssemblerAdd_nat [OF assms(1)]
  by (auto simp: buffer_ok_def IsPacketValid_def split: if_splits)

lemma assemble_ok:
  "buffer_ok buffer \<Longrightarrow> list_all IsPacketValid (fst (assemble fs buffer)) \<and> buffer_ok (snd (assemble fs buffer))"
proof (induction fs arbitrary: buffer)
  case (Cons f fs)
  obtain kind bs where f: "f = (kind, bs)" by (cases f)
  obtain r msg b' where add: "AssemblerAdd bs kind buffer = (r, msg, b')" by (cases "AssemblerAdd bs kind buffer")
  from AssemblerAdd_ok [OF Cons.prems add] Cons.IH [of b'] show ?case
    by (auto simp: f add split_beta)
qed simp

text \<open>
  Whatever fragments a server sends, the assembler never buffers more than 128 KiB (the
  unsigned subtraction of its size test never wraps), and every message it delivers is valid UTF-8 of
  at most that size, so the packet parsers' own check never fails on it.
\<close>

theorem assembler_delivers_valid_packets:
  "list_all IsPacketValid (fst (assemble fs [])) \<and>
   length (snd (assemble fs [])) \<le> kMaxCloudMatchInboundPayloadBytes"
  using assemble_ok [of "[]" fs] by (simp add: buffer_ok_def)

lemma assemble_fragments:
  "length buffer + length (concat parts) \<le> kMaxCloudMatchInboundPayloadBytes \<Longrightarrow>
   assemble (map (Pair utf8Fragment) parts @ fs) buffer = assemble fs (buffer @ concat parts)"
proof (induction parts arbitrary: buffer)
  case (Cons x parts)
  then have ok: "buffer_ok buffer" "\<not> length buffer + length x > kMaxCloudMatchInboundPayloadBytes"
    by (simp_all add: buffer_ok_def)
  then have "AssemblerAdd x utf8Fragment buffer = (incomplete, [], buffer @ x)"
    by (simp add: AssemblerAdd_nat)
  with Cons show ?case by simp
qed simp

text \<open>
  Property C32. A message of at most 128 KiB is delivered whole, however it was cut into fragments (cuts
  inside a character included): the delivered text is the concatenation of the fragments if that is
  valid UTF-8, and nothing otherwise, and the assembler is ready for the next message either way.
\<close>

theorem fragments_reassemble:
  assumes "length (concat parts @ final_part) \<le> kMaxCloudMatchInboundPayloadBytes"
  shows "assemble (map (Pair utf8Fragment) parts @ (utf8Message, final_part) # fs) [] =
    (let (msgs, b) = assemble fs [] in
     (if IsValidUtf8 (concat parts @ final_part) then (concat parts @ final_part) # msgs else msgs, b))"
proof -
  have ok: "buffer_ok (concat parts)" "\<not> length (concat parts) + length final_part > kMaxCloudMatchInboundPayloadBytes"
    using assms by (simp_all add: buffer_ok_def)
  have "AssemblerAdd final_part utf8Message (concat parts) =
      (if IsValidUtf8 (concat parts @ final_part) then (complete, concat parts @ final_part, []) else (rejected, [], []))"
    using ok by (simp add: AssemblerAdd_nat)
  moreover have "assemble (map (Pair utf8Fragment) parts @ (utf8Message, final_part) # fs) [] =
      assemble ((utf8Message, final_part) # fs) (concat parts)"
    using assemble_fragments [of "[]" parts "(utf8Message, final_part) # fs"] assms by simp
  ultimately show ?thesis by (simp add: split_beta)
qed

theorem fragments_reassemble_witness:
  "assemble [(utf8Fragment, [0xE4, 0xB8]), (utf8Message, [0xAD])] [] = ([[0xE4, 0xB8, 0xAD]], [])"
  using fragments_reassemble [of "[[0xE4, 0xB8]]" "[0xAD]" "[]"]
  by (simp add: kMaxCloudMatchInboundPayloadBytes_def IsValidUtf8_shapes)

end
