(* ===== verification/Queues.thy ===== *)
theory Queues
  imports Prelude
begin

text \<open>
  The contract of the first-in first-out queues the program keeps: an accepted item goes to the end, a
  taken item comes from the front, and the other operations leave the waiting items alone. The locale
  states it once; every queue of the model is an interpretation, and a client of a queue relies on what
  is proved here: nothing is lost, duplicated or reordered between acceptance and delivery.
\<close>

datatype ('op, 's) queue_event = Put 'op | Take | Silent 's

fun run_queue ::
  "('op \<Rightarrow> 'q \<Rightarrow> ('a \<times> 'q) option) \<Rightarrow> ('q \<Rightarrow> ('a \<times> 'q) option) \<Rightarrow> ('s \<Rightarrow> 'q \<Rightarrow> 'q) \<Rightarrow>
   ('op, 's) queue_event list \<Rightarrow> 'q \<Rightarrow> 'a list \<times> 'a list \<times> 'q" where
  "run_queue put take_front silent [] q = ([], [], q)"
| "run_queue put take_front silent (e # es) q =
     (case e of
        Put x \<Rightarrow> (case put x q of None \<Rightarrow> run_queue put take_front silent es q
          | Some (a, q') \<Rightarrow> (case run_queue put take_front silent es q' of (acc, del, q'') \<Rightarrow> (a # acc, del, q'')))
      | Take \<Rightarrow> (case take_front q of None \<Rightarrow> run_queue put take_front silent es q
          | Some (a, q') \<Rightarrow> (case run_queue put take_front silent es q' of (acc, del, q'') \<Rightarrow> (acc, a # del, q'')))
      | Silent s \<Rightarrow> run_queue put take_front silent es (silent s q))"

locale delivery_queue =
  fixes put :: "'op \<Rightarrow> 'q \<Rightarrow> ('a \<times> 'q) option"
    and take_front :: "'q \<Rightarrow> ('a \<times> 'q) option"
    and silent :: "'s \<Rightarrow> 'q \<Rightarrow> 'q"
    and waiting :: "'q \<Rightarrow> 'a list"
  assumes put_end: "put x q = Some (a, q') \<Longrightarrow> waiting q' = waiting q @ [a]"
    and take_first: "take_front q = Some (a, q') \<Longrightarrow> waiting q = a # waiting q'"
    and silent_keeps: "waiting (silent s q) = waiting q"
begin

lemma delivered_in_order:
  "run_queue put take_front silent es q = (accepted, delivered, q') \<Longrightarrow>
   delivered @ waiting q' = waiting q @ accepted"
proof (induction es arbitrary: q accepted delivered)
  case (Cons e es)
  show ?case
  proof (cases e)
    case (Put x)
    with Cons show ?thesis
      by (auto split: option.splits prod.splits dest!: put_end)
  next
    case Take
    with Cons show ?thesis
      by (auto split: option.splits prod.splits dest!: take_first)
  next
    case (Silent s)
    with Cons silent_keeps show ?thesis by simp
  qed
qed simp

lemma all_accounted_for:
  assumes "run_queue put take_front silent es q = (accepted, delivered, q')" "waiting q = []" "waiting q' = []"
  shows "delivered = accepted"
  using delivered_in_order [OF assms(1)] assms(2,3) by simp

end

end
