(* ===== verification/Fnv.thy ===== *)
theory Fnv
  imports Prelude
begin

text \<open>
  The Fowler-Noll-Vo hash the program writes out in several places, and the sixteen hexadecimal digits it
  prints a hash with. Every step is a bijection of the 64-bit state in each argument, because the prime is
  odd; so a change of one hashed unit always changes the hash.
\<close>

definition fnv_mix :: "u64 \<Rightarrow> u64 \<Rightarrow> u64" where
  "fnv_mix c h = xor h c * 1099511628211"

definition hex_digit :: "nat \<Rightarrow> byte" where
  "hex_digit d = (if d < 10 then of_nat (48 + d) else of_nat (87 + d))"

definition hex16 :: "u64 \<Rightarrow> bytes" where
  "hex16 h = map (\<lambda>i. hex_digit (unat h div 16 ^ (15 - i) mod 16)) [0..<16]"

lemma fnv_prime_inverse: "(1099511628211 :: u64) * 14886173955864302971 = 1"
  by simp

lemma fnv_mult_inj: "x * 1099511628211 = y * 1099511628211 \<Longrightarrow> x = (y :: u64)"
proof -
  assume "x * 1099511628211 = y * 1099511628211"
  then have "x * 1099511628211 * 14886173955864302971 = y * 1099511628211 * 14886173955864302971" by (rule arg_cong)
  then show "x = y" unfolding mult.assoc fnv_prime_inverse mult_1_right .
qed

lemma xor_cancel: "xor a c = xor b c \<longleftrightarrow> a = (b :: 'a :: len word)" "xor c a = xor c b \<longleftrightarrow> a = b"
  by (auto simp: bit_eq_iff bit_xor_iff)

lemma fnv_mix_inj: "fnv_mix c h = fnv_mix c h' \<longleftrightarrow> h = h'" "fnv_mix c h = fnv_mix c' h \<longleftrightarrow> c = c'"
  unfolding fnv_mix_def using fnv_mult_inj xor_cancel by metis+

lemma fold_fnv_mix_inj: "fold fnv_mix cs h = fold fnv_mix cs h' \<longleftrightarrow> h = h'"
  by (induction cs arbitrary: h h') (simp_all add: fnv_mix_inj)

lemma ucast_u64_inj:
  fixes b :: "'a :: len word"
  assumes "LENGTH('a) \<le> 64"
  shows "ucast b = (ucast b' :: u64) \<longleftrightarrow> b = b'"
proof -
  have "unat (ucast c :: u64) = unat c" for c :: "'a word"
  proof -
    have "unat c < 2 ^ LENGTH('a)" by (rule unsigned_less)
    also have "\<dots> \<le> 2 ^ 64" using assms by (intro power_increasing) simp_all
    finally show ?thesis by (simp add: unsigned_ucast_eq take_bit_nat_eq_self)
  qed
  then show ?thesis by (metis word_unat_eq_iff)
qed

lemma hex_digit_inj: "a < 16 \<Longrightarrow> b < 16 \<Longrightarrow> hex_digit a = hex_digit b \<longleftrightarrow> a = b"
  by (auto simp: hex_digit_def byte_nat split: if_splits simp del: of_nat_add)

lemma digits16: "(\<forall>i < n. (a :: nat) div 16 ^ i mod 16 = b div 16 ^ i mod 16) \<Longrightarrow> a mod 16 ^ n = b mod 16 ^ n"
proof (induction n)
  case (Suc n)
  then have "a mod 16 ^ n = b mod 16 ^ n" "a div 16 ^ n mod 16 = b div 16 ^ n mod 16" by auto
  then show ?case by (simp add: mod_mult2_eq mult.commute [of 16])
qed simp

lemma hex16_inj: "hex16 a = hex16 b \<longleftrightarrow> a = b"
proof
  assume eq: "hex16 a = hex16 b"
  have "unat a div 16 ^ i mod 16 = unat b div 16 ^ i mod 16" if "i < 16" for i
  proof -
    have "hex16 a ! (15 - i) = hex16 b ! (15 - i)" using eq by simp
    moreover have "[0..<16] ! (15 - i) = 15 - i" using that by (subst nth_upt) simp_all
    ultimately show ?thesis using that by (simp add: hex16_def hex_digit_inj del: upt_Suc)
  qed
  then have "unat a mod 16 ^ 16 = unat b mod 16 ^ 16" by (intro digits16) simp
  moreover have "unat a < 16 ^ 16" "unat b < 16 ^ 16" using unsigned_less [of a] unsigned_less [of b] by simp_all
  ultimately show "a = b" by (simp add: word_unat_eq_iff)
qed simp

end
