(* ===== verification/CloudSync.thy ===== *)
theory CloudSync
  imports Json Utf8 Queues Fnv
begin

text \<open>
  The exchange of match snapshots between broadcasters (\<^verbatim>\<open>CloudMatchSync.cpp\<close>): validation and conversion
  of a snapshot from the cloud, seen from either side, the library of players it implies, the queue of
  those libraries, the preview of differences, the relative side swap of two members, and the guards of
  preview and undo. \<open>dump\<close> is the printer of the json library, where \<open>None\<close> is the exception it throws; an
  exception that leaves a function is the result \<open>None\<close>.
\<close>

type_synonym json_printer = "json \<Rightarrow> bytes option"
type_synonym normalizer = "bytes \<Rightarrow> bytes option"

definition kMaxCloudSnapshotBytes :: nat where "kMaxCloudSnapshotBytes = 65536"
definition kMaxSafeInteger :: u64 where "kMaxSafeInteger = 9007199254740991"

subsection \<open>Names\<close>

definition IsInvisibleUnicodeCodePoint :: "nat \<Rightarrow> bool" where
  "IsInvisibleUnicodeCodePoint codePoint \<longleftrightarrow>
     codePoint \<le> 0x1F \<or> (codePoint \<ge> 0x7F \<and> codePoint \<le> 0x9F) \<or> codePoint = 0x00AD \<or> codePoint = 0x061C \<or>
     (codePoint \<ge> 0x0600 \<and> codePoint \<le> 0x0605) \<or> codePoint = 0x06DD \<or> codePoint = 0x070F \<or>
     (codePoint \<ge> 0x0890 \<and> codePoint \<le> 0x0891) \<or> codePoint = 0x08E2 \<or> codePoint = 0x180E \<or>
     (codePoint \<ge> 0x200B \<and> codePoint \<le> 0x200F) \<or> codePoint = 0x2028 \<or> codePoint = 0x2029 \<or>
     (codePoint \<ge> 0x202A \<and> codePoint \<le> 0x202E) \<or> (codePoint \<ge> 0x2060 \<and> codePoint \<le> 0x206F) \<or>
     codePoint = 0xFEFF \<or> (codePoint \<ge> 0xFFF9 \<and> codePoint \<le> 0xFFFB) \<or>
     codePoint = 0x110BD \<or> codePoint = 0x110CD \<or> (codePoint \<ge> 0x13430 \<and> codePoint \<le> 0x13455) \<or>
     (codePoint \<ge> 0x1BCA0 \<and> codePoint \<le> 0x1BCA3) \<or> (codePoint \<ge> 0x1D173 \<and> codePoint \<le> 0x1D17A) \<or>
     codePoint = 0xE0001 \<or> (codePoint \<ge> 0xE0020 \<and> codePoint \<le> 0xE007F)"

text \<open>
  What the name normaliser calls: the strict text converter, the space class of the C runtime, the
  canonical composition of Windows (the length it estimates, and the composed text, \<open>None\<close> when the second
  call fails), and the character classes that count as visible.
\<close>

record name_services =
  ns_from_utf8 :: "bytes \<Rightarrow> wstr option"
  ns_to_utf8 :: "wstr \<Rightarrow> bytes option"
  ns_space :: "wchar \<Rightarrow> bool"
  ns_estimate :: "wstr \<Rightarrow> int"
  ns_compose :: "wstr \<Rightarrow> wstr option"
  ns_visible :: "wchar \<Rightarrow> bool"

text \<open>
  The loop over the code points of the candidate: the counter of scalars, the visibility flag; \<open>None\<close> on a
  lone surrogate, an invisible code point or more than 64 scalars.
\<close>

fun scan_name :: "(wchar \<Rightarrow> bool) \<Rightarrow> wstr \<Rightarrow> nat \<Rightarrow> bool \<Rightarrow> (nat \<times> bool) option" where
  "scan_name visible [] scalarCount hasVisibleBase = Some (scalarCount, hasVisibleBase)"
| "scan_name visible (firstUnit # rest) scalarCount hasVisibleBase =
     (if firstUnit \<ge> 0xD800 \<and> firstUnit \<le> 0xDBFF then
        (case rest of
           [] \<Rightarrow> None
         | secondUnit # rest' \<Rightarrow>
             if secondUnit < 0xDC00 \<or> secondUnit > 0xDFFF then None
             else
               let codePoint = 0x10000 + (unat firstUnit - 0xD800) * 2 ^ 10 + (unat secondUnit - 0xDC00) in
               if scalarCount + 1 > 64 \<or> IsInvisibleUnicodeCodePoint codePoint then None
               else scan_name visible rest' (scalarCount + 1) True)
      else if firstUnit \<ge> 0xDC00 \<and> firstUnit \<le> 0xDFFF then None
      else if scalarCount + 1 > 64 \<or> IsInvisibleUnicodeCodePoint (unat firstUnit) then None
      else scan_name visible rest (scalarCount + 1) (hasVisibleBase \<or> visible firstUnit))"

definition DnfNormalizeCloudMatchUtf8Name :: "name_services \<Rightarrow> bytes \<Rightarrow> bytes option" where
  "DnfNormalizeCloudMatchUtf8Name ns input =
     (if input = [] \<or> length input > 2048 then None
      else case ns_from_utf8 ns input of None \<Rightarrow> None
      | Some w \<Rightarrow>
        let trimmed = trim_by (ns_space ns) w in
        if w = [] \<or> trimmed = [] then None
        else
          case (if 0 < ns_estimate ns trimmed \<and> ns_estimate ns trimmed \<le> 256 then ns_compose ns trimmed
            else Some trimmed) of None \<Rightarrow> None
          | Some candidate \<Rightarrow>
          if candidate = [] \<or> length candidate > 256 then None
          else case scan_name (ns_visible ns) candidate 0 False of
              Some (_, True) \<Rightarrow>
                (case ns_to_utf8 ns candidate of None \<Rightarrow> None
                 | Some u \<Rightarrow> if u = [] \<or> length u > 512 then None else Some u)
            | _ \<Rightarrow> None)"

subsection \<open>Validation\<close>

definition HasExactKeys :: "json \<Rightarrow> bytes list \<Rightarrow> bool" where
  "HasExactKeys j ks =
     (if \<not> is_object j \<or> json_size j \<noteq> length ks then False else list_all (\<lambda>k. jcontains k j) ks)"

definition HasExactKeysWithOptionalCloudPresentation :: "json \<Rightarrow> bytes list \<Rightarrow> bool" where
  "HasExactKeysWithOptionalCloudPresentation j ks =
     (if \<not> is_object j then False else
      let hasRecentEvents = jcontains (ascii ''recentEvents'') j;
          hasTeamsFlipped = jcontains (ascii ''teamsFlipped'') j;
          hasOutputSeatLabel = jcontains (ascii ''outputSeatLabel'') j;
          expectedSize = length ks + (if hasRecentEvents then 1 else 0) + (if hasTeamsFlipped then 1 else 0) +
            (if hasOutputSeatLabel then 1 else 0)
      in if json_size j \<noteq> expectedSize then False
         else if \<not> list_all (\<lambda>k. jcontains k j) ks then False
         else (\<not> hasRecentEvents \<or> is_array (jget (ascii ''recentEvents'') j)) \<and>
           (\<not> hasTeamsFlipped \<or> is_boolean (jget (ascii ''teamsFlipped'') j)) \<and>
           (\<not> hasOutputSeatLabel \<or> is_boolean (jget (ascii ''outputSeatLabel'') j)))"

definition IsSafeRecentEventText :: "json \<Rightarrow> bool" where
  "IsSafeRecentEventText j \<longleftrightarrow> is_string j \<and> length (get_string j) \<le> 1024 \<and>
     0x0D \<notin> set (get_string j) \<and> 0x0A \<notin> set (get_string j) \<and> 0 \<notin> set (get_string j)"

definition event_keys :: "bytes list" where
  "event_keys = map ascii [''time'', ''killer'', ''dead'', ''status'']"

definition ValidateRecentEvents :: "json \<Rightarrow> bool" where
  "ValidateRecentEvents snapshot =
     (case json_find (ascii ''recentEvents'') snapshot of None \<Rightarrow> True
      | Some recent \<Rightarrow>
          if \<not> is_array recent \<or> length (elements recent) > 10 then False
          else list_all (\<lambda>event. HasExactKeys event event_keys \<and>
            list_all (\<lambda>k. IsSafeRecentEventText (jget k event)) event_keys) (elements recent))"

definition ReadUnsigned :: "json \<Rightarrow> bytes \<Rightarrow> u64 \<Rightarrow> u64 \<Rightarrow> u64 option" where
  "ReadUnsigned j key minimum maximum =
     (case json_find key j of None \<Rightarrow> None
      | Some found \<Rightarrow>
          if \<not> is_number_integer found \<and> \<not> is_number_unsigned found then None
          else if \<not> is_number_unsigned found \<and> get_int64 found < 0 then None
          else if get_uint64 found \<ge> minimum \<and> get_uint64 found \<le> maximum then Some (get_uint64 found) else None)"

definition IsDeviceId :: "bytes \<Rightarrow> bool" where
  "IsDeviceId s =
     (if length s < 8 \<or> length s > 128 then False
      else list_all (\<lambda>ch. (0x30 \<le> ch \<and> ch \<le> 0x39) \<or> (0x41 \<le> ch \<and> ch \<le> 0x5A) \<or> (0x61 \<le> ch \<and> ch \<le> 0x7A) \<or>
        ch = 0x5F \<or> ch = 0x2D) s)"

subsection \<open>Players and snapshots\<close>

definition player_keys :: "bytes list" where
  "player_keys = map ascii [''mainName'', ''aliases'', ''kills'', ''deaths'', ''ak'', ''streak'']"

text \<open>The loop over the aliases: the list in the order of first occurrence.\<close>

fun convert_aliases :: "normalizer \<Rightarrow> bytes \<Rightarrow> json list \<Rightarrow> bytes list \<Rightarrow> bytes list option" where
  "convert_aliases nrm mainName [] acc = Some acc"
| "convert_aliases nrm mainName (a # rest) acc =
     (if \<not> is_string a then None
      else case nrm (get_string a) of None \<Rightarrow> None
      | Some nick \<Rightarrow>
          if nick = mainName then None
          else convert_aliases nrm mainName rest (if nick \<in> set acc then acc else acc @ [nick]))"

definition ConvertPlayer :: "json \<Rightarrow> int \<Rightarrow> normalizer \<Rightarrow> json option" where
  "ConvertPlayer inputPlayer side nrm =
     (let p = (if is_object inputPlayer then json_erase (ascii ''adventureGroupIds'') inputPlayer else inputPlayer) in
      if \<not> HasExactKeys p player_keys then None
      else if \<not> is_string (jget (ascii ''mainName'') p) \<or> \<not> is_array (jget (ascii ''aliases'') p) \<or>
         length (elements (jget (ascii ''aliases'') p)) > 32 then None
      else case nrm (get_string (jget (ascii ''mainName'') p)) of None \<Rightarrow> None
      | Some mainName \<Rightarrow>
        (case (ReadUnsigned p (ascii ''kills'') 0 999, ReadUnsigned p (ascii ''deaths'') 0 999,
               ReadUnsigned p (ascii ''ak'') 0 999, ReadUnsigned p (ascii ''streak'') 0 999) of
           (Some kills, Some deaths, Some ak, Some streak) \<Rightarrow>
             (case convert_aliases nrm mainName (elements (jget (ascii ''aliases'') p)) [] of None \<Rightarrow> None
              | Some aliases \<Rightarrow> Some (make_object
                  [(ascii ''team'', JInt (word_of_int side)), (ascii ''name'', JStr mainName),
                   (ascii ''aliases'', JArr (map JStr aliases)), (ascii ''kills'', JUInt kills),
                   (ascii ''deaths'', JUInt deaths), (ascii ''akCount'', JUInt ak),
                   (ascii ''currentStreak'', JUInt streak)]))
         | _ \<Rightarrow> None))"

fun convert_players :: "json list \<Rightarrow> int \<Rightarrow> normalizer \<Rightarrow> json list option" where
  "convert_players [] side nrm = Some []"
| "convert_players (p # ps) side nrm =
     (case ConvertPlayer p side nrm of None \<Rightarrow> None
      | Some q \<Rightarrow> (case convert_players ps side nrm of None \<Rightarrow> None | Some qs \<Rightarrow> Some (q # qs)))"

definition plain_keys :: "bytes list" where
  "plain_keys = map ascii [''schemaVersion'', ''clientRevision'', ''clientTime'', ''changeSource'',
     ''redScore'', ''blueScore'', ''redPlayers'', ''bluePlayers'', ''redPickFirst'', ''lastKillTeam'']"

definition synced_keys :: "bytes list" where
  "synced_keys = map ascii [''schemaVersion'', ''clientRevision'', ''clientTime'', ''changeSource'', ''syncedFrom'',
     ''redScore'', ''blueScore'', ''redPlayers'', ''bluePlayers'', ''redPickFirst'', ''lastKillTeam'']"

text \<open>The checks of a snapshot before its players are converted; the result is the two scores.\<close>

definition check_snapshot :: "json \<Rightarrow> u64 \<Rightarrow> (u64 \<times> u64) option" where
  "check_snapshot snap expectedClientRevision =
     (case json_find (ascii ''changeSource'') snap of
        Some (JStr changeSource) \<Rightarrow>
          (let cloudSync = (changeSource = ascii ''cloud_sync'') in
           if \<not> (changeSource = ascii ''ocr'' \<or> changeSource = ascii ''manual'' \<or>
                 changeSource = ascii ''local_restore'' \<or> cloudSync) then None
           else if \<not> HasExactKeysWithOptionalCloudPresentation snap (if cloudSync then synced_keys else plain_keys)
           then None
           else if \<not> ValidateRecentEvents snap then None
           else
             (case (ReadUnsigned snap (ascii ''schemaVersion'') 1 1,
                    ReadUnsigned snap (ascii ''clientRevision'') 1 kMaxSafeInteger,
                    ReadUnsigned snap (ascii ''clientTime'') 0 kMaxSafeInteger,
                    ReadUnsigned snap (ascii ''redScore'') 0 999, ReadUnsigned snap (ascii ''blueScore'') 0 999) of
                (Some _, Some clientRevision, Some _, Some redScore, Some blueScore) \<Rightarrow>
                  if expectedClientRevision = 0 \<or> clientRevision \<noteq> expectedClientRevision then None
                  else if \<not> is_array (jget (ascii ''redPlayers'') snap) \<or>
                    length (elements (jget (ascii ''redPlayers'') snap)) \<noteq> 4 \<or>
                    \<not> is_array (jget (ascii ''bluePlayers'') snap) \<or>
                    length (elements (jget (ascii ''bluePlayers'') snap)) \<noteq> 4 \<or>
                    \<not> is_boolean (jget (ascii ''redPickFirst'') snap) \<or>
                    \<not> is_string (jget (ascii ''lastKillTeam'') snap) then None
                  else if get_string (jget (ascii ''lastKillTeam'') snap) \<noteq> ascii ''red'' \<and>
                    get_string (jget (ascii ''lastKillTeam'') snap) \<noteq> ascii ''blue'' \<and>
                    get_string (jget (ascii ''lastKillTeam'') snap) \<noteq> [] then None
                  else if cloudSync \<and>
                    (let src = jget (ascii ''syncedFrom'') snap in
                     \<not> HasExactKeys src [ascii ''deviceId'', ascii ''revision''] \<or>
                     \<not> is_string (jget (ascii ''deviceId'') src) \<or>
                     \<not> IsDeviceId (get_string (jget (ascii ''deviceId'') src)) \<or>
                     ReadUnsigned src (ascii ''revision'') 1 kMaxSafeInteger = None) then None
                  else Some (redScore, blueScore)
              | _ \<Rightarrow> None))
      | _ \<Rightarrow> None)"

definition build_team_snapshot :: "json \<Rightarrow> bool \<Rightarrow> u64 \<times> u64 \<Rightarrow> json list \<Rightarrow> json" where
  "build_team_snapshot snap swapped scores players =
     (let lastKillTeam = get_string (jget (ascii ''lastKillTeam'') snap) in
      make_object
        ([(ascii ''version'', JInt 1),
          (ascii ''redScore'', JUInt (if swapped then snd scores else fst scores)),
          (ascii ''blueScore'', JUInt (if swapped then fst scores else snd scores)),
          (ascii ''redPickMode'',
             JStr (if json_bool (jget (ascii ''redPickFirst'') snap) \<noteq> swapped then ascii ''first'' else ascii ''second'')),
          (ascii ''lastKillerTeam'',
             JInt (if lastKillTeam = [] then -1 else if (lastKillTeam = ascii ''red'') \<noteq> swapped then 0 else 1)),
          (ascii ''players'', JArr players)] @
         (if jcontains (ascii ''recentEvents'') snap
          then [(ascii ''recentEvents'', jget (ascii ''recentEvents'') snap)] else [])))"

text \<open>The result is the verdict, the team snapshot and the error code; an absent normaliser is \<open>None\<close>.\<close>

definition DnfConvertCloudMatchSnapshot ::
  "json_printer \<Rightarrow> json \<Rightarrow> u64 \<Rightarrow> bool \<Rightarrow> normalizer option \<Rightarrow> (bool \<times> json \<times> bytes) option" where
  "DnfConvertCloudMatchSnapshot dump snap expectedClientRevision swapped normalizeName =
     (let fail = Some (False, make_object [], ascii ''invalid_snapshot'') in
      case normalizeName of None \<Rightarrow> fail
      | Some nrm \<Rightarrow>
        if \<not> is_object snap then fail
        else case dump snap of None \<Rightarrow> None
        | Some text_bytes \<Rightarrow>
          if length text_bytes > kMaxCloudSnapshotBytes then fail
          else case check_snapshot snap expectedClientRevision of None \<Rightarrow> fail
          | Some scores \<Rightarrow>
            (case convert_players (elements (jget (if swapped then ascii ''bluePlayers'' else ascii ''redPlayers'') snap)) 0 nrm of
               None \<Rightarrow> fail
             | Some reds \<Rightarrow>
               (case convert_players (elements (jget (if swapped then ascii ''redPlayers'' else ascii ''bluePlayers'') snap)) 1 nrm of
                  None \<Rightarrow> fail
                | Some blues \<Rightarrow> Some (True, build_team_snapshot snap swapped scores (reds @ blues), []))))"

subsection \<open>The queue of player libraries\<close>

record sync_queue =
  sq_pending :: "json list"
  sq_active :: json
  sq_committed :: json

definition empty_sync_queue :: sync_queue where
  "empty_sync_queue = \<lparr> sq_pending = [], sq_active = JNull, sq_committed = JNull \<rparr>"

definition IsOutstanding :: "json \<Rightarrow> sync_queue \<Rightarrow> bool" where
  "IsOutstanding payload q \<longleftrightarrow>
     json_eq payload (sq_active q) \<or> list_ex (\<lambda>queued. json_eq queued payload) (sq_pending q)"

definition SyncEnqueue :: "json \<Rightarrow> bool \<Rightarrow> sync_queue \<Rightarrow> bool \<times> sync_queue" where
  "SyncEnqueue payload force q =
     (if IsOutstanding payload q \<or> (\<not> force \<and> json_eq payload (sq_committed q)) then (False, q)
      else (True, q\<lparr> sq_pending := sq_pending q @ [payload] \<rparr>))"

definition SyncBegin :: "sync_queue \<Rightarrow> json \<times> sync_queue" where
  "SyncBegin q =
     (if sq_active q \<noteq> JNull \<or> sq_pending q = [] then (JNull, q)
      else (hd (sq_pending q), q\<lparr> sq_active := hd (sq_pending q), sq_pending := tl (sq_pending q) \<rparr>))"

definition SyncComplete :: "bool \<Rightarrow> sync_queue \<Rightarrow> sync_queue" where
  "SyncComplete success q =
     (let q = (if success then q\<lparr> sq_committed := sq_active q \<rparr> else q) in q\<lparr> sq_active := JNull \<rparr>)"

definition InvalidateCommitted :: "sync_queue \<Rightarrow> sync_queue" where
  "InvalidateCommitted q = q\<lparr> sq_committed := JNull \<rparr>"

definition HasPending :: "sync_queue \<Rightarrow> bool" where "HasPending q \<longleftrightarrow> sq_pending q \<noteq> []"

text \<open>The operations in the shape of the queue contract; \<open>None\<close> where the code changes nothing.\<close>

definition sync_put :: "json \<times> bool \<Rightarrow> sync_queue \<Rightarrow> (json \<times> sync_queue) option" where
  "sync_put x q = (case SyncEnqueue (fst x) (snd x) q of (ok, q') \<Rightarrow> if ok then Some (fst x, q') else None)"

definition sync_take :: "sync_queue \<Rightarrow> (json \<times> sync_queue) option" where
  "sync_take q = (if sq_active q \<noteq> JNull \<or> \<not> HasPending q then None else Some (SyncBegin q))"

datatype sync_change = Completed bool | Invalidated

fun sync_silent :: "sync_change \<Rightarrow> sync_queue \<Rightarrow> sync_queue" where
  "sync_silent (Completed ok) q = SyncComplete ok q"
| "sync_silent Invalidated q = InvalidateCommitted q"

interpretation sync: delivery_queue sync_put sync_take sync_silent sq_pending
proof
  show "sync_put x q = Some (a, q') \<Longrightarrow> sq_pending q' = sq_pending q @ [a]" for x q a q'
    by (auto simp: sync_put_def SyncEnqueue_def split: if_splits)
  show "sync_take q = Some (a, q') \<Longrightarrow> sq_pending q = a # sq_pending q'" for q a q'
    by (auto simp: sync_take_def SyncBegin_def HasPending_def split: if_splits)
  show "sq_pending (sync_silent s q) = sq_pending q" for s q
    by (cases s) (simp_all add: SyncComplete_def InvalidateCommitted_def Let_def)
qed

text \<open>
  The queue of synced libraries hands out every accepted batch exactly once and in the order
  of acceptance, whatever completes, fails or is invalidated in between: the batches begun so far
  followed by the waiting ones are the accepted ones.
\<close>

theorem sync_batches_in_order:
  "case run_queue sync_put sync_take sync_silent es empty_sync_queue of (accepted, begun, q) \<Rightarrow>
     begun @ sq_pending q = accepted"
  using sync.delivered_in_order [of es empty_sync_queue]
  by (auto simp: empty_sync_queue_def split: prod.split)

text \<open>No batch waits twice, and none waits while an equal one is active.\<close>

definition sync_queue_ok :: "sync_queue \<Rightarrow> bool" where
  "sync_queue_ok q \<longleftrightarrow> sorted_wrt (\<lambda>a b. \<not> json_eq a b) (sq_pending q) \<and>
     (if sq_active q = JNull then True else list_all (\<lambda>a. \<not> json_eq a (sq_active q)) (sq_pending q))"

lemma sync_put_ok:
  assumes "sync_queue_ok q" "sync_put x q = Some (a, q')" shows "sync_queue_ok q'"
  using assms json_eq_sym
  by (auto simp: sync_queue_ok_def sync_put_def SyncEnqueue_def IsOutstanding_def sorted_wrt_append
      list_ex_iff split: if_splits)

lemma sync_take_ok:
  assumes "sync_queue_ok q" "sync_take q = Some (a, q')" shows "sync_queue_ok q'"
  using assms json_eq_sym
  by (cases "sq_pending q") (auto simp: sync_queue_ok_def sync_take_def SyncBegin_def HasPending_def list_all_iff
      split: if_splits)

lemma sync_silent_ok: "sync_queue_ok q \<Longrightarrow> sync_queue_ok (sync_silent s q)"
  by (cases s) (auto simp: sync_queue_ok_def SyncComplete_def InvalidateCommitted_def Let_def)

lemma sync_run_ok: "sync_queue_ok q \<Longrightarrow> sync_queue_ok (snd (snd (run_queue sync_put sync_take sync_silent es q)))"
proof (induction es arbitrary: q)
  case (Cons e es)
  then show ?case
    by (cases e) (auto simp: split_beta dest: sync_put_ok sync_take_ok sync_silent_ok split: option.split)
qed simp

text \<open>
  Repeats coalesce: in every state the queue can reach, no two waiting batches are equal and
  none equals the batch being processed, so a library is never sent twice in a row by mistake.
\<close>

theorem sync_batches_coalesce:
  "sync_queue_ok (snd (snd (run_queue sync_put sync_take sync_silent es empty_sync_queue)))"
  by (rule sync_run_ok) (simp add: sync_queue_ok_def empty_sync_queue_def)

subsection \<open>Preview, relative swap and guards\<close>

definition difference :: "string \<Rightarrow> json \<Rightarrow> json \<Rightarrow> int \<Rightarrow> json list" where
  "difference field local_v remote_v seat =
     (if json_eq local_v remote_v then []
      else [make_object ([(ascii ''field'', JStr (ascii field)), (ascii ''local'', local_v), (ascii ''remote'', remote_v)] @
        (if seat \<ge> 0 then [(ascii ''seat'', JInt (word_of_int seat))] else []))])"

definition difference_group :: "string \<Rightarrow> json list \<Rightarrow> json" where
  "difference_group ident items = make_object [(ascii ''id'', JStr (ascii ident)), (ascii ''items'', JArr items)]"

definition score_items :: "json \<Rightarrow> json \<Rightarrow> json list" where
  "score_items l r =
     difference ''redScore'' (jget (ascii ''redScore'') l) (jget (ascii ''redScore'') r) (-1) @
     difference ''blueScore'' (jget (ascii ''blueScore'') l) (jget (ascii ''blueScore'') r) (-1)"

definition seat_of :: "json \<Rightarrow> nat \<Rightarrow> json" where
  "seat_of t i = json_at (jget (ascii ''players'') t) i"

definition roster_items :: "json \<Rightarrow> json \<Rightarrow> json list" where
  "roster_items l r = concat (map (\<lambda>i.
     difference ''mainName'' (jget (ascii ''name'') (seat_of l i)) (jget (ascii ''name'') (seat_of r i)) (int i) @
     difference ''aliases'' (jget (ascii ''aliases'') (seat_of l i)) (jget (ascii ''aliases'') (seat_of r i)) (int i)) [0..<8])"

definition stats_items :: "json \<Rightarrow> json \<Rightarrow> json list" where
  "stats_items l r = concat (map (\<lambda>i.
     difference ''kills'' (jget (ascii ''kills'') (seat_of l i)) (jget (ascii ''kills'') (seat_of r i)) (int i) @
     difference ''deaths'' (jget (ascii ''deaths'') (seat_of l i)) (jget (ascii ''deaths'') (seat_of r i)) (int i) @
     difference ''ak'' (jget (ascii ''akCount'') (seat_of l i)) (jget (ascii ''akCount'') (seat_of r i)) (int i) @
     difference ''streak'' (jget (ascii ''currentStreak'') (seat_of l i)) (jget (ascii ''currentStreak'') (seat_of r i)) (int i))
     [0..<8])"

definition state_items :: "json \<Rightarrow> json \<Rightarrow> json list" where
  "state_items l r =
     difference ''redPickFirst'' (jget (ascii ''redPickMode'') l) (jget (ascii ''redPickMode'') r) (-1) @
     difference ''lastKillTeam'' (jget (ascii ''lastKillerTeam'') l) (jget (ascii ''lastKillerTeam'') r) (-1)"

definition DnfBuildCloudMatchPreview :: "json \<Rightarrow> json \<Rightarrow> bool \<Rightarrow> json" where
  "DnfBuildCloudMatchPreview l r swapped =
     make_object [(ascii ''swapped'', JBool swapped),
       (ascii ''differenceCount'', JUInt (of_nat (length (score_items l r) + length (roster_items l r) +
          length (stats_items l r) + length (state_items l r)))),
       (ascii ''groups'', JArr [difference_group ''score'' (score_items l r), difference_group ''roster'' (roster_items l r),
          difference_group ''stats'' (stats_items l r), difference_group ''state'' (state_items l r)])]"

text \<open>The loop over the members of a room: the last entry of a device decides.\<close>

definition member_step :: "bytes \<Rightarrow> json \<Rightarrow> bool option \<Rightarrow> bool option" where
  "member_step device member found =
     (if \<not> is_object member then found
      else case (json_find (ascii ''deviceId'') member, json_find (ascii ''swapped'') member) of
          (Some (JStr ident), Some (JBool sw)) \<Rightarrow> if ident = device then Some sw else found
        | _ \<Rightarrow> found)"

definition DnfResolveCloudMatchRelativeSwap :: "json \<Rightarrow> bytes \<Rightarrow> bytes \<Rightarrow> bool \<times> bool \<times> bytes" where
  "DnfResolveCloudMatchRelativeSwap members localDeviceId targetDeviceId =
     (if \<not> is_array members \<or> length (elements members) > 512 \<or> localDeviceId = [] \<or> targetDeviceId = []
      then (False, False, ascii ''invalid_members'')
      else case fold (member_step localDeviceId) (elements members) None of
          None \<Rightarrow> (False, False, ascii ''local_member_missing'')
        | Some localSwapped \<Rightarrow>
          (case fold (member_step targetDeviceId) (elements members) None of
             None \<Rightarrow> (False, False, ascii ''target_member_missing'')
           | Some targetSwapped \<Rightarrow> (True, localSwapped \<noteq> targetSwapped, [])))"

record preview_binding =
  pb_roomId :: bytes
  pb_connectionGeneration :: u64
  pb_roomRevision :: u64
  pb_requestId :: bytes
  pb_deviceId :: bytes
  pb_snapshotRevision :: u64

record current_state = preview_binding +
  cs_connected :: bool
  cs_roomConfirmed :: bool

definition DnfIsCloudMatchPreviewCurrent :: "preview_binding \<Rightarrow> current_state \<Rightarrow> bool" where
  "DnfIsCloudMatchPreviewCurrent b c \<longleftrightarrow> cs_connected c \<and> cs_roomConfirmed c \<and>
     pb_roomId b \<noteq> [] \<and> pb_roomId b = pb_roomId c \<and>
     pb_connectionGeneration b \<noteq> 0 \<and> pb_connectionGeneration b = pb_connectionGeneration c \<and>
     pb_roomRevision b \<noteq> 0 \<and> pb_roomRevision b = pb_roomRevision c \<and>
     pb_requestId b \<noteq> [] \<and> pb_requestId b = pb_requestId c \<and>
     pb_deviceId b \<noteq> [] \<and> pb_deviceId b = pb_deviceId c \<and>
     pb_snapshotRevision b \<noteq> 0 \<and> pb_snapshotRevision b = pb_snapshotRevision c"

text \<open>The 64-bit FNV-1a hash and its sixteen hexadecimal digits.\<close>

definition fnv_step :: "byte \<Rightarrow> u64 \<Rightarrow> u64" where
  "fnv_step b = fnv_mix (ucast b)"

definition fnv_hash :: "bytes \<Rightarrow> u64" where
  "fnv_hash bs = fold fnv_step bs 14695981039346656037"

definition DnfCloudMatchContentHash :: "json_printer \<Rightarrow> json \<Rightarrow> bytes option" where
  "DnfCloudMatchContentHash dump snapshot = map_option (\<lambda>serialized. hex16 (fnv_hash serialized)) (dump snapshot)"

record undo_guard =
  ug_available :: bool
  ug_postApplyEpoch :: u64
  ug_postApplyHash :: bytes
  ug_roomId :: bytes
  ug_connectionGeneration :: u64

definition DnfCanCloudMatchUndo :: "undo_guard \<Rightarrow> u64 \<Rightarrow> bytes \<Rightarrow> bytes \<Rightarrow> u64 \<Rightarrow> bool" where
  "DnfCanCloudMatchUndo g currentEpoch currentHash currentRoomId currentConnectionGeneration \<longleftrightarrow>
     ug_available g \<and> ug_postApplyEpoch g \<noteq> 0 \<and> ug_postApplyEpoch g = currentEpoch \<and>
     ug_postApplyHash g \<noteq> [] \<and> ug_postApplyHash g = currentHash \<and> ug_roomId g \<noteq> [] \<and>
     ug_roomId g = currentRoomId \<and> ug_connectionGeneration g \<noteq> 0 \<and>
     ug_connectionGeneration g = currentConnectionGeneration"

subsection \<open>The hash\<close>

lemma fnv_step_inj: "fnv_step b h = fnv_step b h' \<longleftrightarrow> h = h'" "fnv_step b h = fnv_step b' h \<longleftrightarrow> b = b'"
proof -
  show "fnv_step b h = fnv_step b h' \<longleftrightarrow> h = h'"
    by (simp add: fnv_step_def fnv_mix_inj)
  show "fnv_step b h = fnv_step b' h \<longleftrightarrow> b = b'"
    by (simp add: fnv_step_def fnv_mix_inj ucast_u64_inj)
qed

lemma fold_fnv_inj: "fold fnv_step bs h = fold fnv_step bs h' \<longleftrightarrow> h = h'"
  by (induction bs arbitrary: h h') (simp_all add: fnv_step_inj)

text \<open>
  The content hash that guards an undo always has sixteen characters and notices every change of
  a single byte of the printed snapshot, at any position: two prints that differ in exactly one byte never
  have the same hash (each step of the hash is a bijection of the 64-bit state).
\<close>

theorem content_hash_detects_byte_change:
  "DnfCloudMatchContentHash (\<lambda>_. Some (pre @ x # post)) j = DnfCloudMatchContentHash (\<lambda>_. Some (pre @ y # post)) j \<longleftrightarrow> x = y"
  by (simp add: DnfCloudMatchContentHash_def hex16_inj fnv_hash_def fold_fnv_inj fnv_step_inj)

subsection \<open>Relative swap\<close>

text \<open>
  The relative side swap of two members is symmetric: asking from either end gives the same
  verdict and the same swap, a member is never swapped relative to itself, and for three members of one room
  the swaps compose.
\<close>

theorem relative_swap_symmetric:
  "fst (DnfResolveCloudMatchRelativeSwap members a b) = fst (DnfResolveCloudMatchRelativeSwap members b a) \<and>
   fst (snd (DnfResolveCloudMatchRelativeSwap members a b)) = fst (snd (DnfResolveCloudMatchRelativeSwap members b a)) \<and>
   \<not> fst (snd (DnfResolveCloudMatchRelativeSwap members a a)) \<and>
   (case (DnfResolveCloudMatchRelativeSwap members a b, DnfResolveCloudMatchRelativeSwap members b c) of
      ((True, s, _), (True, t, _)) \<Rightarrow> DnfResolveCloudMatchRelativeSwap members a c = (True, s \<noteq> t, [])
    | _ \<Rightarrow> True)"
  by (auto simp: DnfResolveCloudMatchRelativeSwap_def split: option.splits)

subsection \<open>The library of a team snapshot\<close>

fun read_ids :: "name_services \<Rightarrow> json list \<Rightarrow> bytes list \<Rightarrow> bytes list option" where
  "read_ids ns [] ids = Some ids"
| "read_ids ns (v # vs) ids =
     (if \<not> is_string v then None
      else case DnfNormalizeCloudMatchUtf8Name ns (get_string v) of None \<Rightarrow> None
      | Some normalized \<Rightarrow> read_ids ns vs (set_insert normalized ids))"

definition only_blanks :: "bytes \<Rightarrow> bool" where
  "only_blanks s = list_all (\<lambda>c. c = 0x20 \<or> c = 0x09 \<or> c = 0x0D \<or> c = 0x0A) s"

type_synonym name_map = "(bytes \<times> bytes list) list"

definition collect_player :: "name_services \<Rightarrow> json \<Rightarrow> name_map \<Rightarrow> name_map option" where
  "collect_player ns player byName =
     (if \<not> is_object player \<or> \<not> jcontains (ascii ''name'') player \<or> \<not> is_string (jget (ascii ''name'') player) then None
      else let rawName = get_string (jget (ascii ''name'') player) in
        if only_blanks rawName then Some byName
        else case DnfNormalizeCloudMatchUtf8Name ns rawName of None \<Rightarrow> None
        | Some name \<Rightarrow>
          let ids = (case map_of byName name of None \<Rightarrow> [] | Some ids \<Rightarrow> ids) in
          if jcontains (ascii ''aliases'') player then
            let vs = jget (ascii ''aliases'') player in
            if \<not> is_array vs \<or> length (elements vs) > 256 then None
            else case read_ids ns (elements vs) ids of None \<Rightarrow> None
            | Some ids' \<Rightarrow> if length ids' > 256 then None else Some (insert_key name ids' byName)
          else Some (insert_key name ids byName))"

fun collect_players :: "name_services \<Rightarrow> json list \<Rightarrow> name_map \<Rightarrow> name_map option" where
  "collect_players ns [] byName = Some byName"
| "collect_players ns (p # ps) byName =
     (case collect_player ns p byName of None \<Rightarrow> None | Some m \<Rightarrow> collect_players ns ps m)"

definition library_entities :: "name_map \<Rightarrow> json" where
  "library_entities byName = JArr (map (\<lambda>(name, ids). make_object
     [(ascii ''names'', JArr [JStr name]), (ascii ''gameIds'', JArr (map JStr ids))]) byName)"

text \<open>The result is the verdict and the payload; \<open>None\<close> is the exception of the printer.\<close>

definition DnfBuildSyncedPlayerLibrary :: "json_printer \<Rightarrow> name_services \<Rightarrow> json \<Rightarrow> (bool \<times> json) option" where
  "DnfBuildSyncedPlayerLibrary dump ns teamSnapshot =
     (let players = jget (ascii ''players'') teamSnapshot in
      if \<not> is_object teamSnapshot \<or> \<not> jcontains (ascii ''players'') teamSnapshot \<or> \<not> is_array players \<or>
         length (elements players) \<noteq> 8
      then Some (False, make_object [])
      else case dump teamSnapshot of None \<Rightarrow> None
      | Some text_bytes \<Rightarrow>
        if length text_bytes > kMaxCloudSnapshotBytes then Some (False, make_object [])
        else case collect_players ns (elements players) [] of
            None \<Rightarrow> Some (False, make_object [])
          | Some byName \<Rightarrow> Some (True, make_object [(ascii ''entities'', library_entities byName)]))"

text \<open>
  The specification of the collection: a player contributes nothing, an error, or a name with a set of
  IDs, and a map from names to ID sets collects the contributions.
\<close>

datatype contribution = Bad | Nothing | Named bytes "bytes set option"

definition read_set :: "name_services \<Rightarrow> json list \<Rightarrow> bytes set option" where
  "read_set ns vs = map_option set (read_ids ns vs [])"

definition contribution_of :: "name_services \<Rightarrow> json \<Rightarrow> contribution" where
  "contribution_of ns player =
     (if \<not> is_object player \<or> \<not> jcontains (ascii ''name'') player \<or> \<not> is_string (jget (ascii ''name'') player) then Bad
      else if only_blanks (get_string (jget (ascii ''name'') player)) then Nothing
      else case DnfNormalizeCloudMatchUtf8Name ns (get_string (jget (ascii ''name'') player)) of None \<Rightarrow> Bad
      | Some name \<Rightarrow>
        if jcontains (ascii ''aliases'') player then
          let vs = jget (ascii ''aliases'') player in
          if \<not> is_array vs \<or> length (elements vs) > 256 then Bad
          else (case read_set ns (elements vs) of None \<Rightarrow> Bad | Some A \<Rightarrow> Named name (Some A))
        else Named name None)"

type_synonym abstract_map = "bytes \<rightharpoonup> bytes set"

definition ids_of :: "abstract_map \<Rightarrow> bytes \<Rightarrow> bytes set" where
  "ids_of m name = (case m name of None \<Rightarrow> {} | Some A \<Rightarrow> A)"

fun collect_abs :: "contribution \<Rightarrow> abstract_map option \<Rightarrow> abstract_map option" where
  "collect_abs c None = None"
| "collect_abs Bad (Some m) = None"
| "collect_abs Nothing (Some m) = Some m"
| "collect_abs (Named name None) (Some m) = Some (m(name \<mapsto> ids_of m name))"
| "collect_abs (Named name (Some A)) (Some m) =
     (let ids = ids_of m name \<union> A in if card ids > 256 then None else Some (m(name \<mapsto> ids)))"

definition map_ok :: "name_map \<Rightarrow> bool" where
  "map_ok m \<longleftrightarrow> keys_sorted m \<and> (\<forall>ids \<in> snd ` set m. strictly_sorted ids)"

definition abs_map :: "name_map \<Rightarrow> abstract_map" where
  "abs_map m = (\<lambda>name. map_option set (map_of m name))"

lemma read_ids_spec:
  "strictly_sorted ids \<Longrightarrow>
   (case read_ids ns vs ids of None \<Rightarrow> read_set ns vs = None
    | Some ids' \<Rightarrow> strictly_sorted ids' \<and> (\<exists>A. read_set ns vs = Some A \<and> finite A \<and> set ids' = set ids \<union> A))"
proof -
  have gen: "strictly_sorted a \<Longrightarrow> strictly_sorted b \<Longrightarrow>
      (read_ids ns vs a = None \<and> read_ids ns vs b = None) \<or>
      (\<exists>a' b' A. read_ids ns vs a = Some a' \<and> read_ids ns vs b = Some b' \<and> strictly_sorted a' \<and> strictly_sorted b' \<and>
        finite A \<and> set a' = set a \<union> A \<and> set b' = set b \<union> A)" for a b
  proof (induction vs arbitrary: a b)
    case (Cons v vs)
    show ?case
    proof (cases "is_string v \<and> DnfNormalizeCloudMatchUtf8Name ns (get_string v) \<noteq> None")
      case True
      then obtain n where n: "DnfNormalizeCloudMatchUtf8Name ns (get_string v) = Some n" by blast
      from Cons.IH [OF set_insert_sorted [OF Cons.prems(1), of n] set_insert_sorted [OF Cons.prems(2), of n]] True n
      show ?thesis
      proof (elim disjE exE conjE, goal_cases)
        case (2 a' b' A)
        then show ?case using True n by (intro disjI2 exI [of _ a'] exI [of _ b'] exI [of _ "insert n A"]) auto
      qed auto
    qed auto
  qed (auto intro: exI [of _ "{}"])
  assume "strictly_sorted ids"
  from gen [OF this, of "[]"] show ?thesis by (auto simp: read_set_def)
qed

lemma abs_insert: "keys_sorted m \<Longrightarrow> abs_map (insert_key name ids m) = (abs_map m)(name \<mapsto> set ids)"
  by (auto simp: abs_map_def map_of_insert_key fun_eq_iff)

lemma map_ok_insert: "map_ok m \<Longrightarrow> strictly_sorted ids \<Longrightarrow> map_ok (insert_key name ids m)"
proof -
  assume ok: "map_ok m" "strictly_sorted ids"
  with insert_key_subset [of name ids m] show ?thesis by (auto simp: map_ok_def insert_key_sorted)
qed

lemma map_ok_lookup: "map_ok m \<Longrightarrow> strictly_sorted (case map_of m name of None \<Rightarrow> [] | Some ids \<Rightarrow> ids)"
  by (auto simp: map_ok_def dest!: map_of_SomeD split: option.split)

lemma ids_of_abs: "ids_of (abs_map m) name = set (case map_of m name of None \<Rightarrow> [] | Some ids \<Rightarrow> ids)"
  by (simp add: ids_of_def abs_map_def split: option.split)

text \<open>One player, refined: the code's step computes the abstract one.\<close>

lemma collect_player_refines:
  assumes "map_ok m"
  shows "map_option abs_map (collect_player ns p m) = collect_abs (contribution_of ns p) (Some (abs_map m)) \<and>
    (case collect_player ns p m of None \<Rightarrow> True | Some m' \<Rightarrow> map_ok m')"
proof -
  have m: "keys_sorted m" using assms by (simp add: map_ok_def)
  let ?vs = "elements (jget (ascii ''aliases'') p)"
  show ?thesis
  proof (cases "DnfNormalizeCloudMatchUtf8Name ns (get_string (jget (ascii ''name'') p))")
    case None
    with assms show ?thesis by (auto simp: collect_player_def contribution_of_def)
  next
    case (Some name)
    let ?ids = "case map_of m name of None \<Rightarrow> [] | Some ids \<Rightarrow> ids"
    note s = map_ok_lookup [OF assms, of name]
    note spec = read_ids_spec [OF s, of ns ?vs]
    have len: "strictly_sorted xs \<Longrightarrow> length xs = card (set xs)" for xs :: "bytes list"
      by (simp add: distinct_card strictly_sorted_distinct)
    show ?thesis
    proof (cases "read_ids ns ?vs ?ids")
      case None
      with spec Some assms m s show ?thesis
        by (auto simp: collect_player_def contribution_of_def Let_def abs_insert ids_of_abs map_ok_insert)
    next
      case (Some ids')
      then obtain A where A: "read_set ns ?vs = Some A" "set ids' = set ?ids \<union> A" "strictly_sorted ids'"
        using spec by auto
      with Some \<open>_ = Some name\<close> assms m s len [OF A(3)] show ?thesis
        by (auto simp: collect_player_def contribution_of_def Let_def abs_insert ids_of_abs map_ok_insert)
    qed
  qed
qed

lemma collect_players_refines:
  "map_ok m \<Longrightarrow> map_option abs_map (collect_players ns ps m) =
     fold collect_abs (map (contribution_of ns) ps) (Some (abs_map m)) \<and>
   (case collect_players ns ps m of None \<Rightarrow> True | Some m' \<Rightarrow> map_ok m')"
proof (induction ps arbitrary: m)
  case (Cons p ps)
  have none: "fold collect_abs cs None = None" for cs by (induction cs) simp_all
  from collect_player_refines [OF Cons.prems, of ns p] Cons.IH show ?case
    by (cases "collect_player ns p m") (auto simp: none)
qed simp

fun fin_contribution :: "contribution \<Rightarrow> bool" where
  "fin_contribution (Named _ (Some A)) = finite A"
| "fin_contribution _ = True"

lemma fin_contribution_of: "fin_contribution (contribution_of ns p)"
  using read_ids_spec [of "[]" ns "elements (jget (ascii ''aliases'') p)"]
  by (auto simp: contribution_of_def Let_def split: option.splits if_splits)

lemma ids_of_update [simp]: "ids_of (m(n \<mapsto> A)) k = (if k = n then A else ids_of m k)"
  by (simp add: ids_of_def)

lemma named_commute:
  assumes "fin_contribution (Named n a)" "fin_contribution (Named k b)"
  shows "collect_abs (Named n a) (collect_abs (Named k b) (Some m)) = collect_abs (Named k b) (collect_abs (Named n a) (Some m))"
proof (cases "n = k")
  case False
  then show ?thesis by (cases a; cases b) (auto simp: Let_def fun_upd_twist)
next
  case True
  have small: "\<not> 256 < card I" if "\<not> 256 < card (I \<union> A)" "finite A" for I A :: "bytes set"
    using that card_mono [of "I \<union> A" I] by (cases "finite I") auto
  show ?thesis
  proof (cases a; cases b)
    fix A B assume ab: "a = Some A" "b = Some B"
    have "I \<union> A \<union> B = I \<union> B \<union> A" for I by auto
    then show ?thesis
      using assms small [of "ids_of m k \<union> A" B] small [of "ids_of m k \<union> B" A] by (auto simp: True ab Let_def Un_commute Un_left_commute)
  qed (auto simp: True Let_def)
qed

lemma collect_abs_commute:
  assumes "fin_contribution c" "fin_contribution d"
  shows "collect_abs c (collect_abs d x) = collect_abs d (collect_abs c x)"
proof (cases x)
  case (Some m)
  have none: "collect_abs e None = None" for e by simp
  have not: "collect_abs Nothing y = y" "collect_abs Bad y = None" for y by (cases y; simp)+
  show ?thesis
  proof (cases c)
    case (Named n a)
    then show ?thesis
    proof (cases d)
      case (Named k b)
      then show ?thesis using named_commute assms \<open>c = _\<close> Some by simp
    qed (simp_all add: not)
  qed (simp_all add: not)
qed simp

lemma fold_contributions_perm:
  assumes "mset cs = mset ds" "\<forall>c \<in> set cs. fin_contribution c"
  shows "fold collect_abs cs x = fold collect_abs ds x"
proof (rule fun_cong [OF fold_multiset_equiv [OF _ assms(1)]])
  fix c d assume "c \<in> set cs" "d \<in> set cs"
  with assms(2) show "collect_abs c \<circ> collect_abs d = collect_abs d \<circ> collect_abs c"
    using collect_abs_commute by (auto simp: fun_eq_iff)
qed

lemma abs_map_inj: "map_ok m \<Longrightarrow> map_ok m' \<Longrightarrow> abs_map m = abs_map m' \<Longrightarrow> m = m'"
proof (rule keys_sorted_eq)
  assume ok: "map_ok m" "map_ok m'" and eq: "abs_map m = abs_map m'"
  show "map_of m = map_of m'"
  proof
    fix k
    have *: "map_option set (map_of m k) = map_option set (map_of m' k)" using fun_cong [OF eq, of k] by (simp add: abs_map_def)
    show "map_of m k = map_of m' k"
    proof (cases "map_of m k")
      case (Some a)
      with * obtain b where b: "map_of m' k = Some b" "set a = set b" by (cases "map_of m' k") auto
      have "strictly_sorted a" "strictly_sorted b"
        using ok Some b(1) by (auto simp: map_ok_def dest!: map_of_SomeD)
      with b show ?thesis using Some strictly_sorted_eq by auto
    qed (use * in simp)
  qed
qed (simp_all add: map_ok_def)

lemma collect_players_perm:
  assumes "mset ps = mset qs"
  shows "collect_players ns ps [] = collect_players ns qs []"
    and "case collect_players ns ps [] of None \<Rightarrow> True | Some m \<Rightarrow> map_ok m"
proof -
  have ok: "map_ok []" by (simp add: map_ok_def)
  have "fold collect_abs (map (contribution_of ns) ps) x = fold collect_abs (map (contribution_of ns) qs) x" for x
    using assms by (intro fold_contributions_perm) (auto simp: fin_contribution_of)
  then have eq: "map_option abs_map (collect_players ns ps []) = map_option abs_map (collect_players ns qs [])"
    using collect_players_refines [OF ok, of ns ps] collect_players_refines [OF ok, of ns qs] by metis
  show "collect_players ns ps [] = collect_players ns qs []"
  proof (cases "collect_players ns ps []")
    case None
    with eq show ?thesis by simp
  next
    case (Some m)
    with eq obtain m' where "collect_players ns qs [] = Some m'" "abs_map m = abs_map m'"
      by (cases "collect_players ns qs []") auto
    then show ?thesis
      using Some collect_players_refines [OF ok, of ns ps] collect_players_refines [OF ok, of ns qs] abs_map_inj by simp
  qed
  show "case collect_players ns ps [] of None \<Rightarrow> True | Some m \<Rightarrow> map_ok m"
    using collect_players_refines [OF ok, of ns ps] by simp
qed

text \<open>
  The library a team snapshot implies depends on the players and their aliases only, not on
  their seats nor on anything else in the snapshot: two snapshots with the same players in any order (and
  prints of the same length, as a permutation has) succeed or fail together and give the same payload.
\<close>

theorem synced_library_ignores_seats:
  assumes "jget (ascii ''players'') t = JArr ps" "jget (ascii ''players'') t' = JArr qs" "mset ps = mset qs"
    and "dump t = Some out" "dump t' = Some out'" "length out = length out'"
  shows "DnfBuildSyncedPlayerLibrary dump ns t = DnfBuildSyncedPlayerLibrary dump ns t'"
proof -
  have obj: "is_object u \<and> jcontains (ascii ''players'') u" if "jget (ascii ''players'') u = JArr xs" for u xs
    using that by (cases u) (auto simp: jget_def jcontains_def split: option.splits)
  have "length ps = length qs" using arg_cong [OF assms(3), of size] by simp
  with assms obj [OF assms(1)] obj [OF assms(2)] collect_players_perm(1) [OF assms(3), of ns] show ?thesis
    by (simp add: DnfBuildSyncedPlayerLibrary_def Let_def)
qed

text \<open>A snapshot of eight unnamed seats, one of them with a blank instead of nothing.\<close>

definition demo_seats :: "json list \<Rightarrow> json" where
  "demo_seats ps = JObj [(ascii ''players'', JArr ps)]"

definition demo_blank :: "bytes \<Rightarrow> json" where
  "demo_blank s = JObj [(ascii ''name'', JStr s)]"

definition demo_services :: name_services where
  "demo_services = \<lparr> ns_from_utf8 = utf8_to_wide, ns_to_utf8 = wide_to_utf8, ns_space = (\<lambda>c. c = 0x20),
     ns_estimate = (\<lambda>_. 0), ns_compose = Some, ns_visible = (\<lambda>_. True) \<rparr>"

theorem synced_library_ignores_seats_witness:
  "DnfBuildSyncedPlayerLibrary (\<lambda>_. Some []) demo_services (demo_seats (demo_blank [0x20] # replicate 7 (demo_blank [0x41]))) =
   DnfBuildSyncedPlayerLibrary (\<lambda>_. Some []) demo_services (demo_seats (replicate 7 (demo_blank [0x41]) @ [demo_blank [0x20]]))"
  by (rule synced_library_ignores_seats [where ps = "demo_blank [0x20] # replicate 7 (demo_blank [0x41])"
      and qs = "replicate 7 (demo_blank [0x41]) @ [demo_blank [0x20]]"]) (simp_all add: demo_seats_def jget_def)

subsection \<open>The two views of a snapshot\<close>

lemma json_erase_make_object:
  assumes "\<And>x. x \<noteq> k \<Longrightarrow> map_of (rev kvs) x = map_of (rev kvs') x"
  shows "json_erase k (make_object kvs) = json_erase k (make_object kvs')"
proof -
  have ok: "keys_sorted (fold (\<lambda>(k, v). insert_key k v) l [])"
    "map_of (fold (\<lambda>(k, v). insert_key k v) l []) = map_of (rev l)" for l :: "(bytes \<times> json) list"
    using fold_insert_key [of "[]" l] by simp_all
  have filter_ok: "keys_sorted (filter (\<lambda>kv. fst kv \<noteq> k) l)" if "keys_sorted l" for l :: "(bytes \<times> json) list"
    using that by (induction l) (auto simp: keys_sorted_def)
  have filter_map: "map_of (filter (\<lambda>kv. fst kv \<noteq> k) l) x = (if x = k then None else map_of l x)" for l :: "(bytes \<times> json) list" and x
    by (induction l) auto
  show ?thesis
    unfolding make_object_def json_erase.simps
    by (rule arg_cong [of _ _ JObj], rule keys_sorted_eq) (use assms in \<open>auto simp: filter_ok filter_map ok fun_eq_iff\<close>)
qed

declare ascii_eq [simp]

lemma ConvertPlayer_sides:
  "(ConvertPlayer p a nrm = None \<and> ConvertPlayer p b nrm = None) \<or>
   (\<exists>x y. ConvertPlayer p a nrm = Some x \<and> ConvertPlayer p b nrm = Some y \<and>
      json_erase (ascii ''team'') x = json_erase (ascii ''team'') y \<and>
      jget (ascii ''team'') x = JInt (word_of_int a) \<and> jget (ascii ''team'') y = JInt (word_of_int b))"
proof -
  let ?obj = "\<lambda>side kvs. make_object ((ascii ''team'', JInt (word_of_int side)) # kvs)"
  have erase: "json_erase (ascii ''team'') (?obj a kvs) = json_erase (ascii ''team'') (?obj b kvs)" for kvs
    by (rule json_erase_make_object) (simp add: map_add_def split: option.split)
  show ?thesis
    unfolding ConvertPlayer_def Let_def
    by (simp add: erase jget_make_object del: ascii_Cons split: option.split)
qed

lemma convert_players_sides:
  "(convert_players ps a nrm = None \<and> convert_players ps b nrm = None) \<or>
   (\<exists>x y. convert_players ps a nrm = Some x \<and> convert_players ps b nrm = Some y \<and>
      map (json_erase (ascii ''team'')) x = map (json_erase (ascii ''team'')) y \<and>
      map (jget (ascii ''team'')) x = replicate (length ps) (JInt (word_of_int a)) \<and>
      map (jget (ascii ''team'')) y = replicate (length ps) (JInt (word_of_int b)))"
proof (induction ps)
  case (Cons p ps)
  with ConvertPlayer_sides [of p a nrm b] show ?case by (auto simp del: ascii_Cons)
qed simp

text \<open>Two team snapshots that show the same match from the two sides.\<close>

definition mirrored :: "json \<Rightarrow> json \<Rightarrow> bool" where
  "mirrored t t' \<longleftrightarrow>
     jget (ascii ''redScore'') t' = jget (ascii ''blueScore'') t \<and>
     jget (ascii ''blueScore'') t' = jget (ascii ''redScore'') t \<and>
     jget (ascii ''recentEvents'') t' = jget (ascii ''recentEvents'') t \<and>
     (jget (ascii ''redPickMode'') t, jget (ascii ''redPickMode'') t') \<in>
       {(JStr (ascii ''first''), JStr (ascii ''second'')), (JStr (ascii ''second''), JStr (ascii ''first''))} \<and>
     (jget (ascii ''lastKillerTeam'') t, jget (ascii ''lastKillerTeam'') t') \<in>
       {(JInt (-1), JInt (-1)), (JInt 0, JInt 1), (JInt 1, JInt 0)} \<and>
     map (json_erase (ascii ''team'')) (elements (jget (ascii ''players'') t')) =
       rotate 4 (map (json_erase (ascii ''team'')) (elements (jget (ascii ''players'') t))) \<and>
     map (jget (ascii ''team'')) (elements (jget (ascii ''players'') t)) = replicate 4 (JInt 0) @ replicate 4 (JInt 1) \<and>
     map (jget (ascii ''team'')) (elements (jget (ascii ''players'') t')) = replicate 4 (JInt 0) @ replicate 4 (JInt 1)"

lemma check_snapshot_sizes:
  assumes "check_snapshot snap rev_no = Some scores"
  shows "length (elements (jget (ascii ''redPlayers'') snap)) = 4" "length (elements (jget (ascii ''bluePlayers'') snap)) = 4"
    "get_string (jget (ascii ''lastKillTeam'') snap) \<in> {[], ascii ''red'', ascii ''blue''}"
  using assms unfolding check_snapshot_def Let_def
  by (auto split: option.splits json.splits if_splits simp del: ascii_Cons)

lemma build_mirrored:
  assumes "map (json_erase (ascii ''team'')) (r' @ b') = rotate 4 (map (json_erase (ascii ''team'')) (r @ b))"
    "map (jget (ascii ''team'')) (r @ b) = replicate 4 (JInt 0) @ replicate 4 (JInt 1)"
    "map (jget (ascii ''team'')) (r' @ b') = replicate 4 (JInt 0) @ replicate 4 (JInt 1)"
    "get_string (jget (ascii ''lastKillTeam'') snap) \<in> {[], ascii ''red'', ascii ''blue''}"
  shows "mirrored (build_team_snapshot snap False scores (r @ b)) (build_team_snapshot snap True scores (r' @ b'))"
  using assms unfolding mirrored_def build_team_snapshot_def Let_def
  by (simp add: jget_make_object del: ascii_Cons map_append)

text \<open>
  Property C34. A snapshot read from the other side is the mirror image of the snapshot read directly: both
  readings succeed or fail together with the same error code, and if they succeed, the scores and the pick
  order are exchanged, the last killer's team is flipped, the eight players keep all their data and only
  trade teams (in the order blue, red), and the event list is the same.
\<close>

theorem snapshot_swap_mirrors:
  "case (DnfConvertCloudMatchSnapshot dump snap rev_no False nm, DnfConvertCloudMatchSnapshot dump snap rev_no True nm) of
     (None, None) \<Rightarrow> True
   | (Some (ok, t, code), Some (ok', t', code')) \<Rightarrow>
       ok = ok' \<and> code = code' \<and> (if ok then mirrored t t' else t = t')
   | _ \<Rightarrow> False"
proof (cases "\<exists>nrm out scores. nm = Some nrm \<and> is_object snap \<and> dump snap = Some out \<and>
    \<not> length out > kMaxCloudSnapshotBytes \<and> check_snapshot snap rev_no = Some scores")
  case False
  then show ?thesis by (auto simp: DnfConvertCloudMatchSnapshot_def Let_def split: option.split simp del: ascii_Cons)
next
  case True
  then obtain nrm out scores where ok: "nm = Some nrm" "is_object snap" "dump snap = Some out"
    "\<not> length out > kMaxCloudSnapshotBytes" "check_snapshot snap rev_no = Some scores" by blast
  let ?R = "elements (jget (ascii ''redPlayers'') snap)" and ?B = "elements (jget (ascii ''bluePlayers'') snap)"
  note sizes = check_snapshot_sizes [OF ok(5)]
  note R = convert_players_sides [of ?R 0 nrm 1] and B = convert_players_sides [of ?B 0 nrm 1]
  show ?thesis
  proof (cases "convert_players ?R 0 nrm = None \<or> convert_players ?B 0 nrm = None")
    case True
    with R B ok show ?thesis
      by (auto simp: DnfConvertCloudMatchSnapshot_def Let_def split: option.split simp del: ascii_Cons)
  next
    case False
    with R obtain r0 r1 where r: "convert_players ?R 0 nrm = Some r0" "convert_players ?R 1 nrm = Some r1"
      "map (json_erase (ascii ''team'')) r0 = map (json_erase (ascii ''team'')) r1"
      "map (jget (ascii ''team'')) r0 = replicate 4 (JInt 0)" "map (jget (ascii ''team'')) r1 = replicate 4 (JInt 1)"
      using sizes by auto
    from False B obtain b0 b1 where b: "convert_players ?B 0 nrm = Some b0" "convert_players ?B 1 nrm = Some b1"
      "map (json_erase (ascii ''team'')) b0 = map (json_erase (ascii ''team'')) b1"
      "map (jget (ascii ''team'')) b0 = replicate 4 (JInt 0)" "map (jget (ascii ''team'')) b1 = replicate 4 (JInt 1)"
      using sizes by auto
    have len: "length r0 = 4" using arg_cong [OF r(4), of length] by simp
    have len': "length (map (json_erase (ascii ''team'')) r0) = 4" using len by simp
    have "map (json_erase (ascii ''team'')) (b0 @ r1) = rotate 4 (map (json_erase (ascii ''team'')) (r0 @ b1))"
      by (simp only: map_append b(3) r(3) [symmetric]
            rotate_append [of "map (json_erase (ascii ''team'')) r0" "map (json_erase (ascii ''team'')) b1", unfolded len'])
    with r b sizes(3) have "mirrored (build_team_snapshot snap False scores (r0 @ b1)) (build_team_snapshot snap True scores (b0 @ r1))"
      by (intro build_mirrored) simp_all
    with ok r(1,2) b(1,2) show ?thesis
      by (simp add: DnfConvertCloudMatchSnapshot_def Let_def del: ascii_Cons)
  qed
qed

end
