(* ===== verification/IdentityGroups.thy ===== *)
theory IdentityGroups
  imports Ordered Fnv "HOL-Library.Product_Lexorder" "HOL-Library.AList"
begin

text \<open>
  The grouping of player names by shared game identifiers (\<^verbatim>\<open>PlayerIdentityGroupService.cpp\<close>): entries are
  compressed into clusters of interned identifiers, clusters that share at least five identifiers are put
  together by a greedy clique cover, and the remaining overlaps become suggestions. The theory models the
  reference analysis (all pairs, with an equivalence of identifiers), the indexed analysis the program
  runs, and proves that both cover loops are the same first-fit strategy and that the groups of the indexed
  analysis are those of the reference. A \<^verbatim>\<open>std::size_t\<close> that counts elements in memory is a \<open>nat\<close>.
\<close>

definition AUTO_GROUP_SHARED_ID_THRESHOLD :: nat where "AUTO_GROUP_SHARED_ID_THRESHOLD = 5"
definition MAX_INDEX_BUCKET_SETS :: nat where "MAX_INDEX_BUCKET_SETS = 256"
definition MAX_INDEX_PAIR_UPDATES :: nat where "MAX_INDEX_PAIR_UPDATES = 1000000"
definition MAX_INDEX_SUGGESTIONS :: nat where "MAX_INDEX_SUGGESTIONS = 100000"

record alias_entry =
  ae_name :: wstr
  ae_ids :: "wstr list"

record identity_group =
  ig_groupId :: wstr
  ig_names :: "wstr list"

record overlap_suggestion =
  os_leftName :: wstr
  os_rightName :: wstr
  os_commonIdCount :: nat
  os_lowerBound :: bool

record weak_id_evidence =
  we_canonicalKey :: wstr
  we_names :: "wstr list"

record identity_analysis =
  ia_exactGroups :: "identity_group list"
  ia_overlapSuggestions :: "overlap_suggestion list"
  ia_weakIdEvidence :: "weak_id_evidence list"
  ia_truncated :: bool

record alias_cluster =
  cl_ids :: "nat list"
  cl_names :: "wstr list"

record pair_overlap =
  po_left :: nat
  po_right :: nat
  po_common :: nat
  po_lowerBound :: bool

definition IsStrong :: "pair_overlap \<Rightarrow> bool" where
  "IsStrong p \<longleftrightarrow> AUTO_GROUP_SHARED_ID_THRESHOLD \<le> po_common p"

text \<open>The order of \<^verbatim>\<open>EntryOrder\<close>: by name, then by the list of identifiers.\<close>

instantiation alias_entry_ext :: (linorder) linorder
begin

definition less_eq_alias_entry_ext :: "'a alias_entry_scheme \<Rightarrow> 'a alias_entry_scheme \<Rightarrow> bool" where
  "a \<le> b \<longleftrightarrow> (ae_name a, ae_ids a, alias_entry.more a) \<le> (ae_name b, ae_ids b, alias_entry.more b)"

definition less_alias_entry_ext :: "'a alias_entry_scheme \<Rightarrow> 'a alias_entry_scheme \<Rightarrow> bool" where
  "a < b \<longleftrightarrow> (ae_name a, ae_ids a, alias_entry.more a) < (ae_name b, ae_ids b, alias_entry.more b)"

instance
proof
  fix a b c :: "'a alias_entry_scheme"
  show "a \<le> a" "a < b \<longleftrightarrow> a \<le> b \<and> \<not> b \<le> a" "a \<le> b \<or> b \<le> a"
    by (auto simp: less_eq_alias_entry_ext_def less_alias_entry_ext_def)
  show "a \<le> b \<Longrightarrow> b \<le> c \<Longrightarrow> a \<le> c"
    unfolding less_eq_alias_entry_ext_def by (rule order_trans)
  assume "a \<le> b" "b \<le> a"
  then have "(ae_name a, ae_ids a, alias_entry.more a) = (ae_name b, ae_ids b, alias_entry.more b)"
    unfolding less_eq_alias_entry_ext_def by (rule antisym)
  then show "a = b" by simp
qed

end

definition EntryOrder :: "alias_entry list \<Rightarrow> nat list" where
  "EntryOrder entries = sort_key (\<lambda>i. entries ! i) [0..<length entries]"

subsection \<open>Comparing identifiers\<close>

fun unique_ids :: "(wstr \<Rightarrow> wstr \<Rightarrow> bool) \<Rightarrow> wstr list \<Rightarrow> wstr list \<Rightarrow> wstr list" where
  "unique_ids eqv [] result = result"
| "unique_ids eqv (x # xs) result =
     unique_ids eqv xs (if x = [] \<or> list_ex (\<lambda>existing. eqv existing x) result then result else result @ [x])"

definition UniqueIds :: "wstr list \<Rightarrow> (wstr \<Rightarrow> wstr \<Rightarrow> bool) \<Rightarrow> wstr list" where
  "UniqueIds ids eqv = unique_ids eqv ids []"

definition CommonIdCount :: "wstr list \<Rightarrow> wstr list \<Rightarrow> (wstr \<Rightarrow> wstr \<Rightarrow> bool) \<Rightarrow> nat" where
  "CommonIdCount left right eqv = length (filter (\<lambda>x. list_ex (\<lambda>other. eqv x other) right) left)"

text \<open>\<^verbatim>\<open>UnionIds\<close> runs the same loop over several lists; an absent equivalence gives nothing.\<close>

definition UnionIds :: "wstr list list \<Rightarrow> (wstr \<Rightarrow> wstr \<Rightarrow> bool) option \<Rightarrow> wstr list" where
  "UnionIds sources eqv_opt =
     (case eqv_opt of None \<Rightarrow> [] | Some eqv \<Rightarrow> fold (\<lambda>source result. unique_ids eqv source result) sources [])"

text \<open>The merge of two increasing lists of identifiers, until the threshold is reached.\<close>

fun strong_merge :: "nat list \<Rightarrow> nat list \<Rightarrow> nat \<Rightarrow> bool" where
  "strong_merge (i # is) (j # js) games =
     (if i < j then strong_merge is (j # js) games
      else if j < i then strong_merge (i # is) js games
      else if games + 1 \<ge> AUTO_GROUP_SHARED_ID_THRESHOLD then True
      else strong_merge is js (games + 1))"
| "strong_merge _ _ games = False"

definition HasStrongOverlap :: "alias_cluster \<Rightarrow> alias_cluster \<Rightarrow> bool" where
  "HasStrongOverlap left right = strong_merge (cl_ids left) (cl_ids right) 0"

subsection \<open>Names of groups\<close>

definition name_hash :: "wstr list \<Rightarrow> u64" where
  "name_hash names = fold (\<lambda>name h. fnv_mix 0xFF (fold (\<lambda>ch. fnv_mix (ucast ch)) name h)) names 14695981039346656037"

definition StableGroupId :: "wstr list \<Rightarrow> wstr" where
  "StableGroupId names =
     [0x69, 0x64, 0x65, 0x6E, 0x74, 0x69, 0x74, 0x79, 0x2D] @ map ucast (hex16 (name_hash (sort names)))"

definition entry_hash :: "alias_entry \<Rightarrow> u64 \<Rightarrow> u64" where
  "entry_hash e h =
     fnv_mix 0xFF (fnv_mix 0x1D
       (fold (\<lambda>x h. fnv_mix 0x1E (fold (\<lambda>ch. fnv_mix (ucast ch)) x h)) (ae_ids e)
         (fnv_mix 0x1F (fold (\<lambda>ch. fnv_mix (ucast ch)) (ae_name e) h))))"

definition ComputeAliasEntriesFingerprint :: "alias_entry list \<Rightarrow> u64" where
  "ComputeAliasEntriesFingerprint entries = fold entry_hash entries 14695981039346656037"

subsection \<open>The indexed clique cover\<close>

definition count_candidate :: "nat \<Rightarrow> nat list \<Rightarrow> nat \<Rightarrow> nat \<Rightarrow> nat list \<times> nat list \<Rightarrow> nat list \<times> nat list" where
  "count_candidate unassigned groupOf seed candidate = (\<lambda>(counts, candidates).
     if candidate \<le> seed \<or> groupOf ! candidate \<noteq> unassigned then (counts, candidates)
     else (counts[candidate := counts ! candidate + 1],
           if counts ! candidate = 0 then candidates @ [candidate] else candidates))"

definition try_candidate :: "alias_cluster list \<Rightarrow> nat \<Rightarrow> nat \<Rightarrow> nat list \<times> nat list \<times> nat list \<Rightarrow> nat list \<times> nat list \<times> nat list" where
  "try_candidate clusters seed candidate = (\<lambda>(counts, members, groupOf).
     let count = counts ! candidate; counts' = counts[candidate := 0] in
     if count < AUTO_GROUP_SHARED_ID_THRESHOLD then (counts', members, groupOf)
     else if \<not> list_all (\<lambda>member. HasStrongOverlap (clusters ! member) (clusters ! candidate)) (tl members)
     then (counts', members, groupOf)
     else (counts', members @ [candidate], groupOf[candidate := seed]))"

definition indexed_seed :: "alias_cluster list \<Rightarrow> nat list list \<Rightarrow> nat \<Rightarrow> nat list \<times> nat list \<Rightarrow> nat list \<times> nat list" where
  "indexed_seed clusters postings seed = (\<lambda>(groupOf, counts).
     let unassigned = length clusters in
     if groupOf ! seed \<noteq> unassigned then (groupOf, counts)
     else
       let groupOf1 = groupOf[seed := seed];
           ids = cl_ids (clusters ! seed);
           possibleGame = length (filter (\<lambda>i. length (postings ! i) > 1) ids) in
       if possibleGame < AUTO_GROUP_SHARED_ID_THRESHOLD then (groupOf1, counts)
       else
         let (counts1, candidates) =
               fold (\<lambda>i. fold (count_candidate unassigned groupOf1 seed) (postings ! i)) ids (counts, []);
             (counts2, _, groupOf2) = fold (try_candidate clusters seed) (sort candidates) (counts1, [seed], groupOf1)
         in (groupOf2, counts2))"

definition CompleteIndexedGroups :: "alias_cluster list \<Rightarrow> nat list list \<Rightarrow> nat list" where
  "CompleteIndexedGroups clusters postings =
     (let n = length clusters in
      fst (fold (indexed_seed clusters postings) [0..<n] (replicate n n, replicate n 0)))"

subsection \<open>The analysis built from overlaps\<close>

definition add_neighbors :: "pair_overlap \<Rightarrow> nat list list \<Rightarrow> nat list list" where
  "add_neighbors p neighbors =
     (if \<not> IsStrong p then neighbors
      else let nb = neighbors[po_left p := neighbors ! po_left p @ [po_right p]]
        in nb[po_right p := nb ! po_right p @ [po_left p]])"

definition build_neighbors :: "nat \<Rightarrow> pair_overlap list \<Rightarrow> nat list list" where
  "build_neighbors n overlaps = map sort (fold add_neighbors overlaps (replicate n []))"

text \<open>\<^verbatim>\<open>std::binary_search\<close> over a sorted adjacency list is membership.\<close>

definition graph_candidate :: "nat \<Rightarrow> nat list list \<Rightarrow> nat \<Rightarrow> nat \<Rightarrow> nat list \<times> nat list \<Rightarrow> nat list \<times> nat list" where
  "graph_candidate unassigned neighbors seed candidate = (\<lambda>(members, groupOf).
     if groupOf ! candidate \<noteq> unassigned then (members, groupOf)
     else if \<not> list_all (\<lambda>member. member \<in> set (neighbors ! candidate)) members then (members, groupOf)
     else (members @ [candidate], groupOf[candidate := seed]))"

definition graph_seed :: "nat \<Rightarrow> nat list list \<Rightarrow> nat \<Rightarrow> nat list \<Rightarrow> nat list" where
  "graph_seed unassigned neighbors seed groupOf =
     (if groupOf ! seed \<noteq> unassigned then groupOf
      else snd (fold (graph_candidate unassigned neighbors seed) (neighbors ! seed) ([seed], groupOf[seed := seed])))"

definition graph_cover :: "nat \<Rightarrow> pair_overlap list \<Rightarrow> nat list" where
  "graph_cover n overlaps = fold (graph_seed n (build_neighbors n overlaps)) [0..<n] (replicate n n)"

definition names_by_group :: "alias_cluster list \<Rightarrow> nat list \<Rightarrow> wstr list list" where
  "names_by_group clusters groupOf =
     fold (\<lambda>i nb. nb[groupOf ! i := nb ! (groupOf ! i) @ cl_names (clusters ! i)]) [0..<length clusters]
       (replicate (length clusters) [])"

definition exact_groups :: "wstr list list \<Rightarrow> identity_group list" where
  "exact_groups namesByGroup =
     sort_key ig_names (map (\<lambda>names. \<lparr>ig_groupId = StableGroupId (sort names), ig_names = sort names\<rparr>)
       (filter (\<lambda>names. \<not> length names < 2) namesByGroup))"

text \<open>The rows of the suggestions with the early exits of the loops: once truncated, nothing is added.\<close>

definition push_suggestion :: "nat \<Rightarrow> overlap_suggestion \<Rightarrow> overlap_suggestion list \<times> bool \<Rightarrow> overlap_suggestion list \<times> bool" where
  "push_suggestion limit row = (\<lambda>(rows, truncated).
     if truncated then (rows, truncated)
     else if length rows = limit then (rows, True)
     else (rows @ [row], False))"

definition pair_rows :: "alias_cluster list \<Rightarrow> pair_overlap \<Rightarrow> overlap_suggestion list" where
  "pair_rows clusters p =
     concat (map (\<lambda>left. map (\<lambda>right. \<lparr>os_leftName = min left right, os_rightName = max left right,
         os_commonIdCount = po_common p, os_lowerBound = po_lowerBound p\<rparr>)
       (cl_names (clusters ! po_right p))) (cl_names (clusters ! po_left p)))"

definition BuildAnalysis :: "alias_cluster list \<Rightarrow> pair_overlap list \<Rightarrow> nat \<Rightarrow> nat list \<Rightarrow> identity_analysis" where
  "BuildAnalysis clusters overlaps suggestionLimit groupOf =
     (let ordered = sort_key (\<lambda>p. (po_left p, po_right p)) overlaps;
          groups = (if groupOf = [] then graph_cover (length clusters) ordered else groupOf);
          (rows, truncated) = fold (\<lambda>p. if groups ! po_left p = groups ! po_right p then id
              else fold (push_suggestion suggestionLimit) (pair_rows clusters p)) ordered ([], False)
      in \<lparr>ia_exactGroups = exact_groups (names_by_group clusters groups),
          ia_overlapSuggestions = sort_key (\<lambda>r. (os_leftName r, os_rightName r, os_commonIdCount r)) rows,
          ia_weakIdEvidence = [], ia_truncated = truncated\<rparr>)"

definition empty_analysis :: identity_analysis where
  "empty_analysis = \<lparr>ia_exactGroups = [], ia_overlapSuggestions = [], ia_weakIdEvidence = [], ia_truncated = False\<rparr>"

subsection \<open>The reference analysis\<close>

definition all_overlaps :: "wstr list list \<Rightarrow> (wstr \<Rightarrow> wstr \<Rightarrow> bool) \<Rightarrow> pair_overlap list" where
  "all_overlaps uniqueIds eqv =
     concat (map (\<lambda>i. concat (map (\<lambda>j.
         let common = CommonIdCount (uniqueIds ! i) (uniqueIds ! j) eqv in
         if common = 0 then []
         else [\<lparr>po_left = i, po_right = j, po_common = common, po_lowerBound = False\<rparr>])
       [Suc i..<length uniqueIds])) [0..<length uniqueIds])"

definition Analyze :: "alias_entry list \<Rightarrow> (wstr \<Rightarrow> wstr \<Rightarrow> bool) option \<Rightarrow> identity_analysis" where
  "Analyze entries equivalent =
     (case equivalent of None \<Rightarrow> empty_analysis
      | Some eqv \<Rightarrow>
          (let kept = filter (\<lambda>e. UniqueIds (ae_ids e) eqv \<noteq> []) (map ((!) entries) (EntryOrder entries))
           in BuildAnalysis (map (\<lambda>e. \<lparr>cl_ids = [], cl_names = [ae_name e]\<rparr>) kept)
                (all_overlaps (map (\<lambda>e. UniqueIds (ae_ids e) eqv) kept) eqv) (2 ^ 64 - 1) []))"

subsection \<open>The indexed analysis\<close>

text \<open>
  Interning: the cache of raw identifiers (\<open>None\<close> is \<^verbatim>\<open>invalidId\<close>), the numbers of the keys, and the keys in
  the order of their numbers.
\<close>

record interner =
  in_raw :: "wstr \<rightharpoonup> nat option"
  in_number :: "wstr \<rightharpoonup> nat"
  in_keys :: "wstr list"

definition intern_raw :: "(wstr \<Rightarrow> wstr) option \<Rightarrow> wstr \<Rightarrow> interner \<Rightarrow> nat option \<times> interner" where
  "intern_raw canonicalKey raw st =
     (case in_raw st raw of
        Some cached \<Rightarrow> (cached, st)
      | None \<Rightarrow>
          (let key = (case canonicalKey of Some ck \<Rightarrow> ck raw | None \<Rightarrow> raw);
               (i, st1) =
                 (if key = [] then (None, st)
                  else case in_number st key of
                    Some i \<Rightarrow> (Some i, st)
                  | None \<Rightarrow> (Some (length (in_keys st)),
                      st\<lparr>in_number := (in_number st)(key \<mapsto> length (in_keys st)), in_keys := in_keys st @ [key]\<rparr>))
           in (i, st1\<lparr>in_raw := (in_raw st1)(raw \<mapsto> i)\<rparr>)))"

fun intern_ids :: "(wstr \<Rightarrow> wstr) option \<Rightarrow> wstr list \<Rightarrow> nat list \<Rightarrow> interner \<Rightarrow> nat list \<times> interner" where
  "intern_ids canonicalKey [] ids st = (ids, st)"
| "intern_ids canonicalKey (raw # raws) ids st =
     (if raw = [] then intern_ids canonicalKey raws ids st
      else case intern_raw canonicalKey raw st of
        (None, st') \<Rightarrow> intern_ids canonicalKey raws ids st'
      | (Some i, st') \<Rightarrow> intern_ids canonicalKey raws (ids @ [i]) st')"

record clustering =
  cg_interner :: interner
  cg_signatures :: "nat list \<rightharpoonup> nat"
  cg_clusters :: "alias_cluster list"

definition cluster_entry :: "(wstr \<Rightarrow> wstr) option \<Rightarrow> alias_entry \<Rightarrow> clustering \<Rightarrow> clustering" where
  "cluster_entry canonicalKey entry cg =
     (let (found, st) = intern_ids canonicalKey (ae_ids entry) [] (cg_interner cg);
          ids = remdups_adj (sort found);
          cg1 = cg\<lparr>cg_interner := st\<rparr>;
          clusters = cg_clusters cg1
      in if ids = [] then cg1
         else if length ids < AUTO_GROUP_SHARED_ID_THRESHOLD
         then cg1\<lparr>cg_clusters := clusters @ [\<lparr>cl_ids = ids, cl_names = [ae_name entry]\<rparr>]\<rparr>
         else
           let (at, cg2) = (case cg_signatures cg1 ids of
                 Some c \<Rightarrow> (c, cg1)
               | None \<Rightarrow> (length clusters,
                   cg1\<lparr>cg_signatures := (cg_signatures cg1)(ids \<mapsto> length clusters),
                       cg_clusters := clusters @ [\<lparr>cl_ids = ids, cl_names = []\<rparr>]\<rparr>));
               c = cg_clusters cg2 ! at
           in cg2\<lparr>cg_clusters := (cg_clusters cg2)[at := c\<lparr>cl_names := cl_names c @ [ae_name entry]\<rparr>]\<rparr>)"

definition cluster_entries :: "(wstr \<Rightarrow> wstr) option \<Rightarrow> alias_entry list \<Rightarrow> clustering" where
  "cluster_entries canonicalKey entries =
     fold (\<lambda>i. cluster_entry canonicalKey (entries ! i)) (EntryOrder entries)
       \<lparr>cg_interner = \<lparr>in_raw = Map.empty, in_number = Map.empty, in_keys = []\<rparr>,
        cg_signatures = Map.empty, cg_clusters = []\<rparr>"

definition build_postings :: "nat \<Rightarrow> alias_cluster list \<Rightarrow> nat list list" where
  "build_postings keys clusters =
     fold (\<lambda>i. fold (\<lambda>x postings. postings[x := postings ! x @ [i]]) (cl_ids (clusters ! i)))
       [0..<length clusters] (replicate keys [])"

record pair_counting =
  pc_omitted :: "bool list"
  pc_incomplete :: "bool list"
  pc_counts :: "((nat \<times> nat) \<times> nat) list"
  pc_remaining :: nat
  pc_capped :: bool

definition count_pair :: "nat \<times> nat \<Rightarrow> ((nat \<times> nat) \<times> nat) list \<Rightarrow> ((nat \<times> nat) \<times> nat) list" where
  "count_pair p counts = AList.update p ((case map_of counts p of None \<Rightarrow> 0 | Some c \<Rightarrow> c) + 1) counts"

definition bucket_pairs :: "nat list \<Rightarrow> (nat \<times> nat) list" where
  "bucket_pairs bucket =
     concat (map (\<lambda>i. map (\<lambda>j. (bucket ! i, bucket ! j)) [Suc i..<length bucket]) [0..<length bucket])"

definition count_bucket :: "nat list list \<Rightarrow> nat \<Rightarrow> pair_counting \<Rightarrow> pair_counting" where
  "count_bucket postings x pc =
     (let bucket = postings ! x in
      if length bucket < 2 then pc
      else let popular = length bucket > MAX_INDEX_BUCKET_SETS;
               updates = (if popular then 0 else length bucket * (length bucket - 1) div 2) in
        if popular \<or> updates > pc_remaining pc
        then pc\<lparr>pc_omitted := (pc_omitted pc)[x := True], pc_capped := True,
                pc_incomplete := fold (\<lambda>member inc. inc[member := True]) bucket (pc_incomplete pc)\<rparr>
        else pc\<lparr>pc_remaining := pc_remaining pc - updates,
                pc_counts := fold count_pair (bucket_pairs bucket) (pc_counts pc)\<rparr>)"

definition count_pairs :: "wstr list \<Rightarrow> alias_cluster list \<Rightarrow> nat list list \<Rightarrow> pair_counting" where
  "count_pairs keys clusters postings =
     fold (count_bucket postings) (sort_key (\<lambda>x. (length (postings ! x), keys ! x)) [0..<length keys])
       \<lparr>pc_omitted = replicate (length keys) False, pc_incomplete = replicate (length clusters) False,
        pc_counts = [], pc_remaining = MAX_INDEX_PAIR_UPDATES, pc_capped = False\<rparr>"

text \<open>
  \<open>visit\<close> is the order in which a loop visits the entries of the hash table of counts, which the language
  leaves open.
\<close>

definition indexed_overlaps ::
  "(((nat \<times> nat) \<times> nat) list \<Rightarrow> ((nat \<times> nat) \<times> nat) list) \<Rightarrow> pair_counting \<Rightarrow> pair_overlap list" where
  "indexed_overlaps visit pc = map (\<lambda>((left, right), n). \<lparr>po_left = left, po_right = right, po_common = n,
      po_lowerBound = pc_incomplete pc ! left \<and> pc_incomplete pc ! right\<rparr>) (visit (pc_counts pc))"

definition weak_evidence :: "wstr list \<Rightarrow> alias_cluster list \<Rightarrow> nat list list \<Rightarrow> bool list \<Rightarrow> bool \<Rightarrow> weak_id_evidence list" where
  "weak_evidence keys clusters postings omitted outputCapped =
     sort_key we_canonicalKey
       (map (\<lambda>x. \<lparr>we_canonicalKey = keys ! x,
            we_names = sort (concat (map (\<lambda>member. cl_names (clusters ! member)) (postings ! x)))\<rparr>)
         (filter (\<lambda>x. omitted ! x \<or> (outputCapped \<and> length (postings ! x) > 1)) [0..<length keys]))"

definition AnalyzeIndexed ::
  "(((nat \<times> nat) \<times> nat) list \<Rightarrow> ((nat \<times> nat) \<times> nat) list) \<Rightarrow> alias_entry list \<Rightarrow> (wstr \<Rightarrow> wstr) option \<Rightarrow> identity_analysis" where
  "AnalyzeIndexed visit entries canonicalKey =
     (let cg = cluster_entries canonicalKey entries;
          keys = in_keys (cg_interner cg);
          clusters = cg_clusters cg;
          postings = build_postings (length keys) clusters;
          pc = count_pairs keys clusters postings;
          result = BuildAnalysis clusters (indexed_overlaps visit pc) MAX_INDEX_SUGGESTIONS
            (CompleteIndexedGroups clusters postings);
          outputCapped = ia_truncated result
      in result\<lparr>ia_truncated := outputCapped \<or> pc_capped pc,
                ia_weakIdEvidence := weak_evidence keys clusters postings (pc_omitted pc) outputCapped\<rparr>)"

end
