(* ===== verification/FirstFit.thy ===== *)
theory FirstFit
  imports Prelude
begin

text \<open>
  The greedy clique cover behind the automatic groups, free of the data it is run on: the first-fit
  strategy, its guarantees, and the loop over seeds that assigns to every index the seed of its group. The
  cover loops of the program are refined to this loop, and the loop to first fit.
\<close>

subsection \<open>First fit\<close>

text \<open>
  What the cover loops compute, stated item by item: an item joins the first group all of whose members
  it is compatible with, or starts a new group at the end.
\<close>

fun insert_fit :: "('a \<Rightarrow> 'a \<Rightarrow> bool) \<Rightarrow> 'a \<Rightarrow> 'a list list \<Rightarrow> 'a list list" where
  "insert_fit S x [] = [[x]]"
| "insert_fit S x (g # gs) = (if list_all (\<lambda>m. S m x) g then (g @ [x]) # gs else g # insert_fit S x gs)"

definition first_fit :: "('a \<Rightarrow> 'a \<Rightarrow> bool) \<Rightarrow> 'a list \<Rightarrow> 'a list list" where
  "first_fit S xs = fold (insert_fit S) xs []"

text \<open>The same seen from a seed: what it collects from the later items, and what it leaves.\<close>

fun collect :: "('a \<Rightarrow> 'a \<Rightarrow> bool) \<Rightarrow> 'a list \<Rightarrow> 'a list \<Rightarrow> 'a list \<times> 'a list" where
  "collect S g [] = (g, [])"
| "collect S g (x # xs) =
     (if list_all (\<lambda>m. S m x) g then collect S (g @ [x]) xs
      else (case collect S g xs of (g', rest) \<Rightarrow> (g', x # rest)))"

lemma fold_insert_fit:
  "fold (insert_fit S) xs (g # gs) = (case collect S g xs of (g', rest) \<Rightarrow> g' # fold (insert_fit S) rest gs)"
  by (induction xs arbitrary: g gs) (auto split: prod.split)

lemma first_fit_Cons: "first_fit S (x # xs) = (case collect S [x] xs of (g, rest) \<Rightarrow> g # first_fit S rest)"
  by (simp add: first_fit_def fold_insert_fit)

lemma first_fit_snoc: "first_fit S (xs @ [x]) = insert_fit S x (first_fit S xs)"
  by (simp add: first_fit_def)

lemma insert_fit_map: "insert_fit S (f x) (map (map f) gs) = map (map f) (insert_fit (\<lambda>a b. S (f a) (f b)) x gs)"
  by (induction gs) (auto simp: list_all_iff)

lemma first_fit_map: "first_fit S (map f xs) = map (map f) (first_fit (\<lambda>a b. S (f a) (f b)) xs)"
  by (induction xs rule: rev_induct) (simp_all add: first_fit_snoc insert_fit_map, simp add: first_fit_def)

lemma insert_fit_cong:
  "(\<And>m. m \<in> \<Union> (set ` set gs) \<Longrightarrow> S m x = T m x) \<Longrightarrow> insert_fit S x gs = insert_fit T x gs"
  by (induction gs) (auto simp: list_all_iff)

lemma insert_fit_members: "\<Union> (set ` set (insert_fit S x gs)) = insert x (\<Union> (set ` set gs))"
  by (induction gs) auto

lemma insert_fit_concat: "mset (concat (insert_fit S x gs)) = add_mset x (mset (concat gs))"
  by (induction gs) auto

lemma first_fit_members: "\<Union> (set ` set (first_fit S xs)) = set xs"
  by (induction xs rule: rev_induct) (simp_all add: first_fit_snoc insert_fit_members, simp add: first_fit_def)

lemma first_fit_mset: "mset (concat (first_fit S xs)) = mset xs"
  by (induction xs rule: rev_induct) (simp_all add: first_fit_snoc insert_fit_concat, simp add: first_fit_def)

lemma first_fit_cong:
  "(\<And>x y. x \<in> set xs \<Longrightarrow> y \<in> set xs \<Longrightarrow> S x y = T x y) \<Longrightarrow> first_fit S xs = first_fit T xs"
proof (induction xs rule: rev_induct)
  case (snoc x xs)
  then have IH: "first_fit S xs = first_fit T xs" by simp
  have "insert_fit S x (first_fit T xs) = insert_fit T x (first_fit T xs)"
    using snoc.prems by (intro insert_fit_cong) (simp add: first_fit_members)
  with IH show ?case by (simp add: first_fit_snoc)
qed (simp add: first_fit_def)

text \<open>Every group is a clique, and an item is only turned away by a member it is incompatible with.\<close>

definition clique :: "('a \<Rightarrow> 'a \<Rightarrow> bool) \<Rightarrow> 'a list \<Rightarrow> bool" where
  "clique S g \<longleftrightarrow> sorted_wrt S g"

definition turned_away :: "('a \<Rightarrow> 'a \<Rightarrow> bool) \<Rightarrow> 'a list list \<Rightarrow> bool" where
  "turned_away S gs \<longleftrightarrow> sorted_wrt (\<lambda>g h. \<forall>x \<in> set h. \<exists>m \<in> set g. \<not> S m x) gs"

lemma insert_fit_ok:
  assumes "list_all (clique S) gs" "turned_away S gs"
  shows "list_all (clique S) (insert_fit S x gs)" "turned_away S (insert_fit S x gs)"
proof -
  show "list_all (clique S) (insert_fit S x gs)"
    using assms(1) by (induction gs) (auto simp: clique_def sorted_wrt_append list_all_iff)
  show "turned_away S (insert_fit S x gs)"
    using assms(2)
  proof (induction gs)
    case (Cons g gs)
    then have later: "\<forall>h \<in> set gs. \<forall>y \<in> set h. \<exists>m \<in> set g. \<not> S m y" and rest: "turned_away S gs"
      by (auto simp: turned_away_def)
    have "\<exists>m \<in> set g. \<not> S m y" if "h \<in> set (insert_fit S x gs)" "y \<in> set h" "\<not> list_all (\<lambda>m. S m x) g" for h y
    proof -
      have "y \<in> insert x (\<Union> (set ` set gs))" using that(1,2) insert_fit_members [of S x gs] by blast
      then show ?thesis using that(3) later by (auto simp: list_all_iff)
    qed
    moreover have "\<forall>h \<in> set gs. \<forall>y \<in> set h. \<exists>m \<in> set (g @ [x]). \<not> S m y" using later by auto
    ultimately show ?case using Cons.IH [OF rest] rest by (auto simp: turned_away_def)
  qed (simp add: turned_away_def)
qed

lemma first_fit_ok: "list_all (clique S) (first_fit S xs)" "turned_away S (first_fit S xs)"
proof -
  have "list_all (clique S) (first_fit S xs) \<and> turned_away S (first_fit S xs)"
    by (induction xs rule: rev_induct)
      (simp_all add: first_fit_snoc insert_fit_ok, simp add: first_fit_def turned_away_def)
  then show "list_all (clique S) (first_fit S xs)" "turned_away S (first_fit S xs)" by simp_all
qed

subsection \<open>Cover loops compute first fit\<close>

definition cover_try :: "(nat \<Rightarrow> nat \<Rightarrow> bool) \<Rightarrow> nat \<Rightarrow> nat \<Rightarrow> nat \<Rightarrow> nat list \<times> nat list \<Rightarrow> nat list \<times> nat list" where
  "cover_try S n seed c = (\<lambda>(members, g).
     if g ! c \<noteq> n \<or> \<not> list_all (\<lambda>m. S m c) members then (members, g) else (members @ [c], g[c := seed]))"

definition cover_seed :: "(nat \<Rightarrow> nat \<Rightarrow> bool) \<Rightarrow> nat \<Rightarrow> nat \<Rightarrow> nat list \<Rightarrow> nat list" where
  "cover_seed S n seed g =
     (if g ! seed \<noteq> n then g else snd (fold (cover_try S n seed) [Suc seed..<n] ([seed], g[seed := seed])))"

definition cover :: "(nat \<Rightarrow> nat \<Rightarrow> bool) \<Rightarrow> nat \<Rightarrow> nat list" where
  "cover S n = fold (cover_seed S n) [0..<n] (replicate n n)"

lemma cover_try_simps:
  "g ! c \<noteq> n \<or> \<not> list_all (\<lambda>m. S m c) members \<Longrightarrow> cover_try S n seed c (members, g) = (members, g)"
  "g ! c = n \<Longrightarrow> list_all (\<lambda>m. S m c) members \<Longrightarrow> cover_try S n seed c (members, g) = (members @ [c], g[c := seed])"
  by (simp_all add: cover_try_def)

lemma cover_try_fold:
  assumes "distinct xs" "\<forall>x \<in> set xs. x < length g \<and> g ! x \<noteq> seed" "seed \<noteq> n"
    "fold (cover_try S n seed) xs (ms, g) = (ms', g')"
  shows "length g' = length g \<and> (\<forall>i. i \<notin> set xs \<or> g ! i \<noteq> n \<longrightarrow> g' ! i = g ! i) \<and>
    (\<forall>i \<in> set xs. g ! i = n \<longrightarrow> g' ! i \<in> {n, seed}) \<and> ms' = ms @ filter (\<lambda>i. g' ! i = seed) xs \<and>
    collect S ms (filter (\<lambda>i. g ! i = n) xs) = (ms', filter (\<lambda>i. g' ! i = n) xs)"
  using assms
proof (induction xs arbitrary: ms g)
  case (Cons x xs)
  show ?case
  proof (cases "g ! x \<noteq> n \<or> \<not> list_all (\<lambda>m. S m x) ms")
    case True
    with Cons.prems(4) have f: "fold (cover_try S n seed) xs (ms, g) = (ms', g')" by (simp add: cover_try_simps)
    have "g' ! x = g ! x" "g' ! x \<noteq> seed"
      using Cons.IH [OF _ _ Cons.prems(3) f] Cons.prems(1,2) by auto
    with Cons.IH [OF _ _ Cons.prems(3) f] Cons.prems(1,2) True show ?thesis by auto
  next
    case False
    let ?g = "g[x := seed]"
    from False Cons.prems(4) have f: "fold (cover_try S n seed) xs (ms @ [x], ?g) = (ms', g')" by (simp add: cover_try_simps)
    have pre: "distinct xs" "\<forall>y \<in> set xs. y < length ?g \<and> ?g ! y \<noteq> seed" "x < length g"
      using Cons.prems(1,2) by (auto simp: nth_list_update)
    note IH = Cons.IH [OF pre(1,2) Cons.prems(3) f]
    have x: "g' ! x = seed" using IH pre(3) Cons.prems(1) by auto
    have same: "filter (\<lambda>i. ?g ! i = n) xs = filter (\<lambda>i. g ! i = n) xs"
    proof (intro filter_cong refl)
      fix y assume "y \<in> set xs"
      then have "x \<noteq> y" using Cons.prems(1) by auto
      then show "(?g ! y = n) = (g ! y = n)" by simp
    qed
    have neq: "?g ! i = g ! i" if "i \<noteq> x" for i using that by simp
    have "\<forall>i. i \<notin> set (x # xs) \<or> g ! i \<noteq> n \<longrightarrow> g' ! i = g ! i"
    proof (intro allI impI)
      fix i assume i: "i \<notin> set (x # xs) \<or> g ! i \<noteq> n"
      then have "i \<noteq> x" using False by auto
      then show "g' ! i = g ! i" using IH i neq by auto
    qed
    moreover have "\<forall>i \<in> set (x # xs). g ! i = n \<longrightarrow> g' ! i \<in> {n, seed}"
    proof (intro ballI impI)
      fix i assume "i \<in> set (x # xs)" "g ! i = n"
      then show "g' ! i \<in> {n, seed}" using IH x neq [of i] by (cases "i = x") auto
    qed
    ultimately show ?thesis using IH x False Cons.prems(3) unfolding same by simp
  qed
qed simp

text \<open>The groups an assignment of seeds stands for.\<close>

definition group_members :: "nat list \<Rightarrow> nat \<Rightarrow> nat list" where
  "group_members g s = filter (\<lambda>i. g ! i = s) [0..<length g]"

definition seeded_groups :: "nat list \<Rightarrow> nat \<Rightarrow> nat list list" where
  "seeded_groups g k = map (group_members g) (filter (\<lambda>s. g ! s = s) [0..<k])"

definition cover_inv :: "(nat \<Rightarrow> nat \<Rightarrow> bool) \<Rightarrow> nat \<Rightarrow> nat \<Rightarrow> nat list \<Rightarrow> bool" where
  "cover_inv S n k g \<longleftrightarrow> length g = n \<and> (\<forall>i < n. g ! i = n \<and> k \<le> i \<or> g ! i < k \<and> g ! i \<le> i \<and> g ! (g ! i) = g ! i) \<and>
     seeded_groups g k @ first_fit S (filter (\<lambda>i. g ! i = n) [0..<n]) = first_fit S [0..<n]"

lemma cover_seed_inv:
  assumes inv: "cover_inv S n k g" and k: "k < n"
  shows "cover_inv S n (Suc k) (cover_seed S n k g)"
proof (cases "g ! k = n")
  case False
  with inv k have "g ! k < k" "g ! (g ! k) = g ! k" by (auto simp: cover_inv_def)
  then have "seeded_groups g (Suc k) = seeded_groups g k" by (simp add: seeded_groups_def)
  with False inv k show ?thesis by (auto simp: cover_inv_def cover_seed_def less_Suc_eq_le le_less)
next
  case True
  have len: "length g = n" and vals: "\<And>i. i < n \<Longrightarrow> g ! i = n \<and> k \<le> i \<or> g ! i < k \<and> g ! i \<le> i \<and> g ! (g ! i) = g ! i"
    using inv by (auto simp: cover_inv_def)
  let ?g = "g[k := k]" and ?xs = "[Suc k..<n]"
  obtain ms g' where f: "fold (cover_try S n k) ?xs ([k], ?g) = (ms, g')"
    by (cases "fold (cover_try S n k) ?xs ([k], ?g)")
  have pre: "\<forall>x \<in> set ?xs. x < length ?g \<and> ?g ! x \<noteq> k"
  proof
    fix x assume "x \<in> set ?xs"
    then show "x < length ?g \<and> ?g ! x \<noteq> k" using vals [of x] len k by (auto simp: nth_list_update)
  qed
  have kn: "k \<noteq> n" using k by simp
  note F = cover_try_fold [OF distinct_upt pre kn f]
  have g': "cover_seed S n k g = g'" using True f by (simp add: cover_seed_def)
  have old: "g' ! i = ?g ! i" if "i < Suc k" for i
  proof -
    have "i \<notin> set ?xs" using that by simp
    then show ?thesis using F by blast
  qed
  have assigned: "g ! i \<noteq> n" if "i < k" for i using vals [of i] that k by auto
  have old': "g' ! i \<noteq> n" if "i < Suc k" for i
    using old [OF that] assigned [of i] that k len by (cases "i = k") auto
  have low: "filter (\<lambda>i. g ! i = n) [0..<k] = []" "filter (\<lambda>i. g' ! i = n) [0..<Suc k] = []"
    using assigned old' unfolding filter_empty_conv by (metis atLeastLessThan_iff set_upt)+
  have split: "[0..<n] = [0..<k] @ k # ?xs" "[0..<n] = [0..<Suc k] @ ?xs"
  proof -
    show "[0..<n] = [0..<k] @ k # ?xs" using k upt_add_eq_append [of 0 k "n - k"] upt_conv_Cons [OF k] by simp
    show "[0..<n] = [0..<Suc k] @ ?xs" using k upt_add_eq_append [of 0 "Suc k" "n - Suc k"] by (simp del: upt_Suc)
  qed
  have unassigned: "filter (\<lambda>i. g ! i = n) [0..<n] = k # filter (\<lambda>i. ?g ! i = n) ?xs"
  proof -
    have "filter (\<lambda>i. g ! i = n) ?xs = filter (\<lambda>i. ?g ! i = n) ?xs" by (intro filter_cong) auto
    then show ?thesis using low(1) True unfolding split(1) by simp
  qed
  have left: "filter (\<lambda>i. g' ! i = n) [0..<n] = filter (\<lambda>i. g' ! i = n) ?xs"
    unfolding split(2) filter_append low(2) by simp
  have "first_fit S (filter (\<lambda>i. g ! i = n) [0..<n]) = ms # first_fit S (filter (\<lambda>i. g' ! i = n) [0..<n])"
    using F unfolding unassigned left by (simp add: first_fit_Cons)
  moreover have "ms = group_members g' k"
  proof -
    have "g' ! i \<noteq> k" if "i < k" for i
      using old [of i] vals [of i] that k by auto
    then have "filter (\<lambda>i. g' ! i = k) [0..<k] = []" by (simp add: filter_empty_conv)
    moreover have "g' ! k = k" using old [of k] k len by simp
    ultimately have "filter (\<lambda>i. g' ! i = k) [0..<n] = k # filter (\<lambda>i. g' ! i = k) ?xs"
      unfolding split(1) by simp
    then show ?thesis using F len by (simp add: group_members_def)
  qed
  moreover have other: "g' ! i = g ! i \<or> g ! i = n \<and> k \<le> i \<and> (g' ! i = n \<and> k < i \<or> g' ! i = k)" if "i < n" for i
  proof -
    consider "i < k" | "i = k" | "Suc k \<le> i" by linarith
    then show ?thesis
    proof cases
      case 3
      then have "i \<in> set ?xs" using that by simp
      then show ?thesis using F 3 by (cases "g ! i = n") (auto simp: nth_list_update)
    qed (use old [of i] k len True in auto)
  qed
  have members: "group_members g' s = group_members g s" if "s < k" for s
  proof -
    have "(g' ! i = s) = (g ! i = s)" if "i < n" for i
      using other [OF that] \<open>s < k\<close> k by (elim disjE) auto
    then show ?thesis using len F unfolding group_members_def by (intro filter_cong) auto
  qed
  have seeds: "g' ! s = g ! s" if "s < k" for s using old [of s] that by simp
  have "seeded_groups g' (Suc k) = seeded_groups g k @ [group_members g' k]"
    using members seeds old [of k] k len by (auto simp: seeded_groups_def intro!: map_cong filter_cong)
  moreover have "g' ! i = n \<and> Suc k \<le> i \<or> g' ! i < Suc k \<and> g' ! i \<le> i \<and> g' ! (g' ! i) = g' ! i" if "i < n" for i
    using other [OF that] vals [OF that] old [of k] seeds [of "g ! i"] k len
    by (cases "i = k") auto
  ultimately show ?thesis using inv F len unfolding g' by (simp add: cover_inv_def)
qed

text \<open>The cover assigns every cluster to a seed, and its groups are those of first fit.\<close>

lemma cover_ok: "cover_inv S n n (cover S n)"
proof -
  have "cover_inv S n k (fold (cover_seed S n) [0..<k] (replicate n n))" if "k \<le> n" for k
    using that
  proof (induction k)
    case 0
    then show ?case by (simp add: cover_inv_def seeded_groups_def)
  next
    case (Suc k)
    then show ?case by (simp add: cover_seed_inv)
  qed
  then show ?thesis by (simp add: cover_def)
qed

lemma cover_first_fit: "seeded_groups (cover S n) n = first_fit S [0..<n]"
proof -
  have "filter (\<lambda>i. cover S n ! i = n) [0..<n] = []"
    using cover_ok [of S n] by (auto simp: cover_inv_def filter_empty_conv)
  then show ?thesis using cover_ok [of S n] by (simp add: cover_inv_def first_fit_def)
qed

end
