(* ===== verification/IdentityCover.thy ===== *)
theory IdentityCover
  imports IdentityGroups FirstFit
begin

text \<open>
  The two cover loops of \<^verbatim>\<open>PlayerIdentityGroupService.cpp\<close> are the abstract one: the indexed loop, which
  counts through the postings and skips seeds with few popular identifiers, and the loop over the graph of
  strong overlaps. From there the names of the groups depend only on first fit.
\<close>

subsection \<open>The overlap test\<close>

definition shared :: "alias_cluster \<Rightarrow> alias_cluster \<Rightarrow> nat" where
  "shared a b = card (set (cl_ids a) \<inter> set (cl_ids b))"

definition strong :: "alias_cluster \<Rightarrow> alias_cluster \<Rightarrow> bool" where
  "strong a b \<longleftrightarrow> AUTO_GROUP_SHARED_ID_THRESHOLD \<le> shared a b"

lemma shared_sym: "shared a b = shared b a" by (simp add: shared_def Int_commute)

lemma strong_merge_card:
  "strictly_sorted xs \<Longrightarrow> strictly_sorted ys \<Longrightarrow> games < AUTO_GROUP_SHARED_ID_THRESHOLD \<Longrightarrow>
   strong_merge xs ys games \<longleftrightarrow> AUTO_GROUP_SHARED_ID_THRESHOLD \<le> games + card (set xs \<inter> set ys)"
proof (induction xs ys games rule: strong_merge.induct)
  case (1 i xs j js games)
  consider "i < j" | "j < i" | "i = j" by linarith
  then show ?case
  proof cases
    case 1
    then have "i \<notin> set (j # js)" using "1.prems"(2) by (auto dest: less_trans)
    with 1 show ?thesis using "1.IH"(1) "1.prems" by simp
  next
    case 2
    then have "j \<notin> set (i # xs)" using "1.prems"(1) by (auto dest: less_trans)
    with 2 show ?thesis using "1.IH"(2) "1.prems" by (simp add: Int_commute)
  next
    case 3
    then have "i \<notin> set xs" "i \<notin> set js" using "1.prems"(1,2) by auto
    with 3 have "card (set (i # xs) \<inter> set (j # js)) = Suc (card (set xs \<inter> set js))" by simp
    with 3 show ?thesis using "1.IH"(3) "1.prems" by simp
  qed
qed simp_all

lemma HasStrongOverlap_strong:
  "strictly_sorted (cl_ids a) \<Longrightarrow> strictly_sorted (cl_ids b) \<Longrightarrow> HasStrongOverlap a b = strong a b"
  by (simp add: HasStrongOverlap_def strong_def shared_def strong_merge_card AUTO_GROUP_SHARED_ID_THRESHOLD_def)

subsection \<open>The indexed cover\<close>

lemma fold_skip:
  assumes "\<And>x s. x \<in> set xs \<Longrightarrow> \<not> P x \<Longrightarrow> I s \<Longrightarrow> f x s = s" "\<And>x s. x \<in> set xs \<Longrightarrow> I s \<Longrightarrow> I (f x s)" "I s"
  shows "fold f (filter P xs) s = fold f xs s"
  using assms by (induction xs arbitrary: s) auto

lemma fold_nested: "fold (\<lambda>i. fold f (h i)) xs s = fold f (concat (map h xs)) s"
  by (induction xs arbitrary: s) simp_all

text \<open>The clusters and postings the analysis builds.\<close>

definition indexed_ok :: "alias_cluster list \<Rightarrow> nat list list \<Rightarrow> bool" where
  "indexed_ok clusters postings \<longleftrightarrow>
     (\<forall>c \<in> set clusters. strictly_sorted (cl_ids c) \<and> (\<forall>x \<in> set (cl_ids c). x < length postings)) \<and>
     (\<forall>x < length postings. postings ! x = filter (\<lambda>i. x \<in> set (cl_ids (clusters ! i))) [0..<length clusters])"

definition index_strong :: "alias_cluster list \<Rightarrow> nat \<Rightarrow> nat \<Rightarrow> bool" where
  "index_strong clusters i j = strong (clusters ! i) (clusters ! j)"

lemma count_candidates:
  assumes "length counts = n" "\<forall>c < n. counts ! c = 0"
    "fold (count_candidate n g seed) l (counts, []) = (counts', cands)" "\<forall>c \<in> set l. c < n"
  shows "length counts' = n \<and> (\<forall>c < n. counts' ! c = (if seed < c \<and> g ! c = n then count_list l c else 0)) \<and>
    distinct cands \<and> set cands = {c \<in> set l. seed < c \<and> g ! c = n}"
  using assms(3,4)
proof (induction l arbitrary: counts' cands rule: rev_induct)
  case Nil
  with assms show ?case by simp
next
  case (snoc x l)
  obtain cs ks where f: "fold (count_candidate n g seed) l (counts, []) = (cs, ks)"
    by (cases "fold (count_candidate n g seed) l (counts, [])")
  have l: "\<forall>c \<in> set l. c < n" and x: "x < n" using snoc.prems(2) by simp_all
  note IH = snoc.IH [OF f l]
  have st: "count_candidate n g seed x (cs, ks) = (counts', cands)" using f snoc.prems(1) by simp
  show ?case
  proof (cases "seed < x \<and> g ! x = n")
    case False
    with st have "counts' = cs" "cands = ks" by (auto simp: count_candidate_def not_less)
    with IH False show ?thesis by auto
  next
    case True
    with st have c: "counts' = cs[x := cs ! x + 1]" "cands = (if cs ! x = 0 then ks @ [x] else ks)"
      by (auto simp: count_candidate_def)
    have "cs ! x = count_list l x" using IH True x by simp
    then have "x \<in> set ks \<longleftrightarrow> cs ! x \<noteq> 0" using IH True by (simp add: count_list_0_iff)
    moreover have "\<forall>c < n. counts' ! c = (if seed < c \<and> g ! c = n then count_list (l @ [x]) c else 0)"
      using IH True x c(1) by (auto simp: nth_list_update)
    ultimately show ?thesis using IH True c by (auto split: if_splits)
  qed
qed

lemma try_fold:
  assumes "\<And>a b. a < n \<Longrightarrow> b < n \<Longrightarrow> HasStrongOverlap (clusters ! a) (clusters ! b) = S a b"
    and "\<And>c. c \<in> set xs \<Longrightarrow> counts ! c < AUTO_GROUP_SHARED_ID_THRESHOLD \<longleftrightarrow> \<not> S seed c"
    and "distinct xs" "\<forall>x \<in> set xs. x < n \<and> g ! x = n" "length g = n" "length counts = n" "\<forall>m \<in> set ms. m < n"
  shows "fold (try_candidate clusters seed) xs (counts, seed # ms, g) =
    (let (ms', g') = fold (cover_try S n seed) xs (seed # ms, g) in (fold (\<lambda>x cs. cs[x := 0]) xs counts, ms', g'))"
  using assms(2-)
proof (induction xs arbitrary: counts ms g)
  case (Cons x xs)
  have x: "x < n" "g ! x = n" "x \<notin> set xs" using Cons.prems by auto
  have c: "\<And>c. c \<in> set xs \<Longrightarrow> counts[x := 0] ! c < AUTO_GROUP_SHARED_ID_THRESHOLD \<longleftrightarrow> \<not> S seed c"
    using Cons.prems(1) x(3) by (metis list.set_intros(2) nth_list_update_neq)
  have len: "length (counts[x := 0]) = n" using Cons.prems(5) by simp
  have dx: "distinct xs" "\<forall>y \<in> set xs. y < n \<and> g ! y = n" using Cons.prems(2,3) by simp_all
  have tl: "list_all (\<lambda>m. HasStrongOverlap (clusters ! m) (clusters ! x)) ms = list_all (\<lambda>m. S m x) ms"
    using assms(1) Cons.prems(6) x(1) by (auto simp: list_all_iff)
  have first: "counts ! x < AUTO_GROUP_SHARED_ID_THRESHOLD \<longleftrightarrow> \<not> S seed x" using Cons.prems(1) by simp
  show ?case
  proof (cases "S seed x \<and> list_all (\<lambda>m. S m x) ms")
    case True
    have gx: "\<forall>y \<in> set xs. y < n \<and> g[x := seed] ! y = n"
      using dx(2) x(3) by (metis nth_list_update_neq)
    have st: "try_candidate clusters seed x (counts, seed # ms, g) = (counts[x := 0], seed # (ms @ [x]), g[x := seed])"
      "cover_try S n seed x (seed # ms, g) = (seed # (ms @ [x]), g[x := seed])"
      using True first tl x(2) by (simp_all add: try_candidate_def cover_try_def Let_def not_less)
    show ?thesis
      using Cons.IH [OF c dx(1) gx _ len, of "ms @ [x]"] Cons.prems(4,6) x(1) unfolding fold_Cons comp_def st by simp
  next
    case False
    have st: "try_candidate clusters seed x (counts, seed # ms, g) = (counts[x := 0], seed # ms, g)"
      "cover_try S n seed x (seed # ms, g) = (seed # ms, g)"
      using False first tl by (auto simp: try_candidate_def cover_try_def Let_def)
    show ?thesis
      using Cons.IH [OF c dx Cons.prems(4) len Cons.prems(6)] unfolding fold_Cons comp_def st by simp
  qed
qed simp

lemma fold_zero_nth: "fold (\<lambda>x cs. cs[x := (0::nat)]) xs counts ! c = (if c \<in> set xs then 0 else counts ! c)"
  if "c < length counts"
  using that
  by (induction xs arbitrary: counts) (auto simp: nth_list_update)

lemma fold_zero_length: "length (fold (\<lambda>x cs. cs[x := (0::nat)]) xs counts) = length counts"
  by (induction xs arbitrary: counts) auto

lemma indexed_okD:
  assumes "indexed_ok clusters postings"
  shows "i < length clusters \<Longrightarrow> strictly_sorted (cl_ids (clusters ! i))"
    "i < length clusters \<Longrightarrow> x \<in> set (cl_ids (clusters ! i)) \<Longrightarrow> x < length postings"
    "x < length postings \<Longrightarrow> postings ! x = filter (\<lambda>i. x \<in> set (cl_ids (clusters ! i))) [0..<length clusters]"
  using assms by (auto simp: indexed_ok_def)

lemma count_list_distinct: "distinct xs \<Longrightarrow> count_list xs x = (if x \<in> set xs then 1 else 0)"
  by (induction xs) auto

lemma count_shared:
  assumes "indexed_ok clusters postings" "seed < length clusters" "c < length clusters"
  shows "count_list (concat (map ((!) postings) (cl_ids (clusters ! seed)))) c = shared (clusters ! seed) (clusters ! c)"
proof -
  have ids: "strictly_sorted (cl_ids (clusters ! seed))" "\<forall>x \<in> set (cl_ids (clusters ! seed)). x < length postings"
    using assms(1,2) by (auto simp: indexed_ok_def)
  have "count_list (concat (map ((!) postings) xs)) c = card (set xs \<inter> set (cl_ids (clusters ! c)))"
    if "distinct xs" "\<forall>x \<in> set xs. x < length postings" for xs
    using that
  proof (induction xs)
    case (Cons x xs)
    have "count_list (postings ! x) c = (if x \<in> set (cl_ids (clusters ! c)) then 1 else 0)"
    proof -
      have "postings ! x = filter (\<lambda>i. x \<in> set (cl_ids (clusters ! i))) [0..<length clusters]"
        using Cons.prems(2) assms(1) by (simp add: indexed_ok_def)
      then show ?thesis using assms(3)
        by (simp add: count_list_distinct)
    qed
    with Cons show ?case by simp
  qed simp
  then show ?thesis using ids strictly_sorted_distinct by (auto simp: shared_def)
qed

lemma postings_members:
  assumes "indexed_ok clusters postings" "seed < length clusters" "c \<in> set (concat (map ((!) postings) (cl_ids (clusters ! seed))))"
  shows "c < length clusters"
proof -
  from assms(3) obtain x where x: "x \<in> set (cl_ids (clusters ! seed))" "c \<in> set (postings ! x)" by auto
  then have "postings ! x = filter (\<lambda>i. x \<in> set (cl_ids (clusters ! i))) [0..<length clusters]"
    using indexed_okD [OF assms(1)] assms(2) by blast
  then show ?thesis using x(2) by simp
qed

lemma few_shared:
  assumes "indexed_ok clusters postings" "seed < length clusters" "c < length clusters" "c \<noteq> seed"
  shows "shared (clusters ! seed) (clusters ! c) \<le> length (filter (\<lambda>i. length (postings ! i) > 1) (cl_ids (clusters ! seed)))"
proof -
  let ?ids = "cl_ids (clusters ! seed)"
  have sub: "set ?ids \<inter> set (cl_ids (clusters ! c)) \<subseteq> set (filter (\<lambda>i. length (postings ! i) > 1) ?ids)"
  proof
    fix x assume x: "x \<in> set ?ids \<inter> set (cl_ids (clusters ! c))"
    then have "x < length postings" using assms(1,2) by (auto simp: indexed_ok_def)
    then have p: "postings ! x = filter (\<lambda>i. x \<in> set (cl_ids (clusters ! i))) [0..<length clusters]"
      using assms(1) by (simp add: indexed_ok_def)
    then have d: "distinct (postings ! x)" "{seed, c} \<subseteq> set (postings ! x)" using x assms(2,3) by auto
    have "card {seed, c} \<le> card (set (postings ! x))" using d(2) by (intro card_mono) simp_all
    with d(1) assms(4) have "1 < length (postings ! x)" by (simp add: distinct_card)
    then show "x \<in> set (filter (\<lambda>i. length (postings ! i) > 1) ?ids)" using x by simp
  qed
  have "card (set ?ids \<inter> set (cl_ids (clusters ! c))) \<le> card (set (filter (\<lambda>i. length (postings ! i) > 1) ?ids))"
    using sub by (intro card_mono) simp_all
  then show ?thesis unfolding shared_def using card_length le_trans by blast
qed

text \<open>States of the inner loop: the seed is a member, and an assigned cluster stays assigned.\<close>

lemma cover_try_keeps:
  assumes "seed \<in> set ms" "\<forall>i. g0 ! i \<noteq> n \<longrightarrow> g ! i \<noteq> n" "seed \<noteq> n" "cover_try S n seed x (ms, g) = (ms', g')"
  shows "seed \<in> set ms' \<and> (\<forall>i. g0 ! i \<noteq> n \<longrightarrow> g' ! i \<noteq> n)"
proof (cases "g ! x \<noteq> n \<or> \<not> list_all (\<lambda>m. S m x) ms")
  case True
  with assms show ?thesis by (simp add: cover_try_simps)
next
  case False
  then have "ms' = ms @ [x]" "g' = g[x := seed]" using assms(4) by (simp_all add: cover_try_simps)
  moreover have "g[x := seed] ! i \<noteq> n" if "g ! i \<noteq> n" for i
    using that assms(3) by (cases "i = x \<and> x < length g") (auto simp: nth_list_update list_update_beyond)
  ultimately show ?thesis using assms(1,2) by auto
qed

lemma cover_try_filter:
  assumes "\<And>x. x \<in> set xs \<Longrightarrow> \<not> P x \<Longrightarrow> g ! x \<noteq> n \<or> \<not> S seed x" "seed \<noteq> n"
  shows "fold (cover_try S n seed) (filter P xs) ([seed], g) = fold (cover_try S n seed) xs ([seed], g)"
proof (rule fold_skip [where I = "\<lambda>(ms, h). seed \<in> set ms \<and> (\<forall>i. g ! i \<noteq> n \<longrightarrow> h ! i \<noteq> n)"])
  fix x s assume x: "x \<in> set xs" "\<not> P x" and I: "case s of (ms, h) \<Rightarrow> seed \<in> set ms \<and> (\<forall>i. g ! i \<noteq> n \<longrightarrow> h ! i \<noteq> n)"
  obtain ms h where s: "s = (ms, h)" by (cases s)
  have "h ! x \<noteq> n \<or> \<not> list_all (\<lambda>m. S m x) ms"
    using assms(1) [OF x] I s by (auto simp: list_all_iff)
  then show "cover_try S n seed x s = s" unfolding s by (rule cover_try_simps(1))
next
  fix x s assume I: "case s of (ms, h) \<Rightarrow> seed \<in> set ms \<and> (\<forall>i. g ! i \<noteq> n \<longrightarrow> h ! i \<noteq> n)"
  obtain ms h ms' h' where s: "s = (ms, h)" "cover_try S n seed x (ms, h) = (ms', h')"
    by (cases s; cases "cover_try S n seed x s") auto
  have "seed \<in> set ms" "\<forall>i. g ! i \<noteq> n \<longrightarrow> h ! i \<noteq> n" using I s(1) by simp_all
  from cover_try_keeps [OF this assms(2) s(2)] show "case cover_try S n seed x s of (ms, h) \<Rightarrow> seed \<in> set ms \<and> (\<forall>i. g ! i \<noteq> n \<longrightarrow> h ! i \<noteq> n)"
    unfolding s by simp
qed simp

lemma indexed_seed_cover:
  assumes ok: "indexed_ok clusters postings" and seed: "seed < length clusters"
    and g: "length g = length clusters"
  defines "zeros \<equiv> replicate (length clusters) (0 :: nat)"
  shows "indexed_seed clusters postings seed (g, zeros) =
    (cover_seed (index_strong clusters) (length clusters) seed g, zeros)"
proof (cases "g ! seed = length clusters")
  case False
  then show ?thesis by (simp add: indexed_seed_def cover_seed_def)
next
  case True
  let ?n = "length clusters" and ?S = "index_strong clusters"
  let ?g = "g[seed := seed]" and ?ids = "cl_ids (clusters ! seed)"
  have sn: "seed \<noteq> ?n" using seed by simp
  show ?thesis
  proof (cases "length (filter (\<lambda>i. length (postings ! i) > 1) ?ids) < AUTO_GROUP_SHARED_ID_THRESHOLD")
    case few: True
    have "\<not> ?S seed x" if "x \<in> set [Suc seed..<?n]" for x
      using few_shared [OF ok seed, of x] few that by (auto simp: index_strong_def strong_def)
    then have "fold (cover_try ?S ?n seed) (filter (\<lambda>x. False) [Suc seed..<?n]) ([seed], ?g) =
        fold (cover_try ?S ?n seed) [Suc seed..<?n] ([seed], ?g)"
      by (intro cover_try_filter sn) blast
    then show ?thesis using True few by (simp add: indexed_seed_def cover_seed_def Let_def)
  next
    case False
    let ?l = "concat (map ((!) postings) ?ids)"
    obtain counts cands where c: "fold (count_candidate ?n ?g seed) ?l (zeros, []) = (counts, cands)"
      by (cases "fold (count_candidate ?n ?g seed) ?l (zeros, [])")
    have z: "length zeros = ?n" "\<forall>c < ?n. zeros ! c = 0" by (simp_all add: zeros_def)
    have mem: "\<forall>c \<in> set ?l. c < ?n" using postings_members [OF ok seed] by blast
    note C = count_candidates [OF z c mem]
    have cnt: "counts ! c = (if seed < c \<and> ?g ! c = ?n then shared (clusters ! seed) (clusters ! c) else 0)" if "c < ?n" for c
    proof -
      have "counts ! c = (if seed < c \<and> ?g ! c = ?n then count_list ?l c else 0)" using C that by blast
      then show ?thesis unfolding count_shared [OF ok seed that] .
    qed
    let ?P = "\<lambda>c. ?g ! c = ?n \<and> c \<in> set ?l"
    have cands: "sort cands = filter ?P [Suc seed..<?n]"
    proof (rule sorted_distinct_set_unique)
      show "set (sort cands) = set (filter ?P [Suc seed..<?n])" using C mem by (auto simp: Suc_le_eq)
    qed (use C in \<open>simp_all add: sorted_wrt_filter\<close>)
    have S: "HasStrongOverlap (clusters ! a) (clusters ! b) = ?S a b" if "a < ?n" "b < ?n" for a b
      using ok that by (simp add: index_strong_def HasStrongOverlap_strong indexed_ok_def)
    obtain ms g' where f: "fold (cover_try ?S ?n seed) (filter ?P [Suc seed..<?n]) ([seed], ?g) = (ms, g')"
      by (cases "fold (cover_try ?S ?n seed) (filter ?P [Suc seed..<?n]) ([seed], ?g)")
    have "fold (try_candidate clusters seed) (filter ?P [Suc seed..<?n]) (counts, seed # [], ?g) =
      (fold (\<lambda>x cs. cs[x := 0]) (filter ?P [Suc seed..<?n]) counts, ms, g')"
      by (subst try_fold [where S = ?S and n = ?n]) (use S cnt C g f in \<open>auto simp: index_strong_def strong_def\<close>)
    moreover have "fold (\<lambda>x cs. cs[x := 0]) (filter ?P [Suc seed..<?n]) counts = zeros"
    proof (rule nth_equalityI)
      fix i assume "i < length (fold (\<lambda>x cs. cs[x := 0]) (filter ?P [Suc seed..<?n]) counts)"
      then have i: "i < ?n" "i < length counts" using C by (simp_all add: fold_zero_length)
      have "counts ! i = 0" if "i \<notin> set (filter ?P [Suc seed..<?n])"
      proof -
        have "count_list ?l i = 0 \<or> \<not> (seed < i \<and> ?g ! i = ?n)" using that i(1) by (auto simp: count_list_0_iff)
        then show ?thesis using C i(1) by auto
      qed
      then show "fold (\<lambda>x cs. cs[x := 0]) (filter ?P [Suc seed..<?n]) counts ! i = zeros ! i"
        unfolding fold_zero_nth [OF i(2)] using z(2) i(1) by simp
    qed (use C in \<open>simp add: fold_zero_length zeros_def\<close>)
    moreover have "fold (cover_try ?S ?n seed) [Suc seed..<?n] ([seed], ?g) = (ms, g')"
    proof -
      have "?g ! x \<noteq> ?n \<or> \<not> ?S seed x" if "x \<in> set [Suc seed..<?n]" "\<not> ?P x" for x
      proof -
        have "count_list ?l x = 0 \<or> ?g ! x \<noteq> ?n" using that(2) by (auto simp: count_list_0_iff)
        then show ?thesis using count_shared [OF ok seed, of x] that(1)
          by (auto simp: index_strong_def strong_def AUTO_GROUP_SHARED_ID_THRESHOLD_def)
      qed
      from cover_try_filter [of "[Suc seed..<?n]" ?P ?g ?n ?S seed, OF this sn] f show ?thesis by simp
    qed
    moreover have "fold (\<lambda>i. fold (count_candidate ?n ?g seed) (postings ! i)) ?ids (zeros, []) = (counts, cands)"
      using c by (simp add: fold_nested)
    ultimately show ?thesis
      using True False by (simp add: indexed_seed_def cover_seed_def Let_def cands)
  qed
qed

lemma indexed_cover:
  assumes "indexed_ok clusters postings"
  shows "CompleteIndexedGroups clusters postings = cover (index_strong clusters) (length clusters)"
proof -
  let ?n = "length clusters"
  have "fold (indexed_seed clusters postings) [0..<k] (replicate ?n ?n, replicate ?n 0) =
    (fold (cover_seed (index_strong clusters) ?n) [0..<k] (replicate ?n ?n), replicate ?n 0) \<and>
    length (fold (cover_seed (index_strong clusters) ?n) [0..<k] (replicate ?n ?n)) = ?n" if "k \<le> ?n" for k
    using that
  proof (induction k)
    case (Suc k)
    have "length (cover_seed S n s g) = length g" for S n s g
    proof -
      have "length (snd (fold (cover_try S n s) xs (ms, h))) = length h" for xs ms h
        by (induction xs arbitrary: ms h) (auto simp: cover_try_def)
      then show ?thesis by (simp add: cover_seed_def)
    qed
    with Suc indexed_seed_cover [OF assms, of k] show ?case by simp
  qed simp
  then show ?thesis by (simp add: CompleteIndexedGroups_def cover_def Let_def)
qed

subsection \<open>The graph cover of the reference\<close>

definition pairs_ok :: "nat \<Rightarrow> pair_overlap list \<Rightarrow> bool" where
  "pairs_ok n overlaps \<longleftrightarrow> distinct (map (\<lambda>p. (po_left p, po_right p)) overlaps) \<and>
     (\<forall>p \<in> set overlaps. po_left p < po_right p \<and> po_right p < n)"

definition linked :: "pair_overlap list \<Rightarrow> nat \<Rightarrow> nat \<Rightarrow> bool" where
  "linked overlaps i j \<longleftrightarrow> (\<exists>p \<in> set overlaps. IsStrong p \<and>
     (po_left p = i \<and> po_right p = j \<or> po_left p = j \<and> po_right p = i))"

lemma linked_sym: "linked overlaps i j = linked overlaps j i" by (auto simp: linked_def)

lemma linked_less: "pairs_ok n overlaps \<Longrightarrow> linked overlaps i j \<Longrightarrow> i < n \<and> j < n"
  by (auto simp: linked_def pairs_ok_def dest: less_trans)

lemma add_neighbors_fold:
  assumes "pairs_ok n overlaps"
  shows "length (fold add_neighbors overlaps (replicate n [])) = n \<and>
    (\<forall>i < n. distinct (fold add_neighbors overlaps (replicate n []) ! i) \<and>
       set (fold add_neighbors overlaps (replicate n []) ! i) = {j. linked overlaps i j})"
  using assms
proof (induction overlaps rule: rev_induct)
  case Nil
  then show ?case by (simp add: linked_def)
next
  case (snoc p ov)
  let ?nb = "fold add_neighbors ov (replicate n [])"
  have ok: "pairs_ok n ov" and lr: "po_left p < po_right p" "po_right p < n" "po_left p < n"
    and notin: "(po_left p, po_right p) \<notin> (\<lambda>p. (po_left p, po_right p)) ` set ov"
    using snoc.prems by (auto simp: pairs_ok_def)
  have "\<forall>q \<in> set ov. \<not> (po_left q = po_left p \<and> po_right q = po_right p)"
    using notin by (metis (mono_tags, lifting) image_eqI)
  with lr have p: "po_left p < po_right p" "po_right p < n" "po_left p < n"
    "\<forall>q \<in> set ov. \<not> (po_left q = po_left p \<and> po_right q = po_right p)" by simp_all
  note IH = snoc.IH [OF ok]
  have lt: "\<forall>q \<in> set ov. po_left q < po_right q" using ok by (simp add: pairs_ok_def)
  show ?case
  proof (cases "IsStrong p")
    case False
    then have "linked (ov @ [p]) i j = linked ov i j" for i j by (auto simp: linked_def)
    with False IH show ?thesis by (simp add: add_neighbors_def)
  next
    case True
    have link: "linked (ov @ [p]) i j \<longleftrightarrow>
        linked ov i j \<or> po_left p = i \<and> po_right p = j \<or> po_left p = j \<and> po_right p = i" for i j
      using True by (auto simp: linked_def)
    have new: "\<not> linked ov (po_left p) (po_right p)"
    proof
      assume "linked ov (po_left p) (po_right p)"
      then obtain q where "q \<in> set ov" "po_left q = po_left p \<and> po_right q = po_right p \<or> po_left q = po_right p \<and> po_right q = po_left p"
        by (auto simp: linked_def)
      then show False using p(1,4) lt by fastforce
    qed
    have nb: "add_neighbors p ?nb = ?nb[po_left p := ?nb ! po_left p @ [po_right p], po_right p := ?nb ! po_right p @ [po_left p]]"
      using True p(1) by (simp add: add_neighbors_def)
    have at: "add_neighbors p ?nb ! i = (if i = po_left p then ?nb ! i @ [po_right p] else if i = po_right p then ?nb ! i @ [po_left p] else ?nb ! i)"
      if "i < n" for i
      unfolding nb using that IH p by (auto simp: nth_list_update)
    have "distinct (add_neighbors p ?nb ! i) \<and> set (add_neighbors p ?nb ! i) = {j. linked (ov @ [p]) i j}" if i: "i < n" for i
    proof -
      have s: "set (?nb ! i) = {j. linked ov i j}" "distinct (?nb ! i)" using IH i by simp_all
      consider "i = po_left p" | "i = po_right p" | "i \<noteq> po_left p" "i \<noteq> po_right p" by blast
      then show ?thesis
      proof cases
        case 1
        then show ?thesis unfolding at [OF i] using s new p(1) by (auto simp: link)
      next
        case 2
        then show ?thesis unfolding at [OF i] using s new p(1) linked_sym by (auto simp: link)
      next
        case 3
        then show ?thesis unfolding at [OF i] using s by (auto simp: link)
      qed
    qed
    then show ?thesis using IH nb by simp
  qed
qed

lemma build_neighbors_nth:
  assumes "pairs_ok n overlaps" "i < n"
  shows "build_neighbors n overlaps ! i = filter (linked overlaps i) [0..<n]"
proof (rule sorted_distinct_set_unique)
  note A = add_neighbors_fold [OF assms(1)]
  have "linked overlaps i j \<Longrightarrow> j < n" for j using assms(1) by (auto simp: linked_def pairs_ok_def dest: less_trans)
  then show "set (build_neighbors n overlaps ! i) = set (filter (linked overlaps i) [0..<n])"
    using A assms(2) by (auto simp: build_neighbors_def)
qed (use add_neighbors_fold [OF assms(1)] assms(2) in \<open>simp_all add: build_neighbors_def sorted_wrt_filter\<close>)

lemma graph_seed_cover:
  assumes ok: "pairs_ok n overlaps" and inv: "cover_inv S n seed g" and seed: "seed < n"
  shows "graph_seed n (build_neighbors n overlaps) seed g = cover_seed (linked overlaps) n seed g"
proof (cases "g ! seed = n")
  case False
  then show ?thesis by (simp add: graph_seed_def cover_seed_def)
next
  case True
  let ?S = "linked overlaps" and ?g = "g[seed := seed]" and ?nb = "build_neighbors n overlaps"
  have sn: "seed \<noteq> n" using seed by simp
  have step: "graph_candidate n ?nb seed c s = cover_try ?S n seed c s" if "c \<in> set (filter (?S seed) [0..<n])" for c s
  proof -
    have c: "c < n" using that by simp
    obtain ms h where s: "s = (ms, h)" by (cases s)
    have "list_all (\<lambda>m. m \<in> set (?nb ! c)) ms = list_all (\<lambda>m. ?S m c) ms"
      unfolding build_neighbors_nth [OF ok c] list_all_iff set_filter
      using linked_sym [of overlaps c] linked_less [OF ok] by auto
    then show ?thesis by (simp add: s graph_candidate_def cover_try_def)
  qed
  have "fold (graph_candidate n ?nb seed) (?nb ! seed) ([seed], ?g) = fold (cover_try ?S n seed) (filter (?S seed) [0..<n]) ([seed], ?g)"
    unfolding build_neighbors_nth [OF ok seed] by (rule fold_cong) (use step in auto)
  also have "\<dots> = fold (cover_try ?S n seed) [0..<n] ([seed], ?g)"
    by (intro cover_try_filter sn) simp
  also have "\<dots> = fold (cover_try ?S n seed) (filter ((<) seed) [0..<n]) ([seed], ?g)"
  proof (rule cover_try_filter [symmetric, OF _ sn], rule disjI1)
    fix x assume "x \<in> set [0..<n]" and le: "\<not> seed < x"
    then have "g ! x = n \<and> seed \<le> x \<or> g ! x < seed" "length g = n" using inv by (auto simp: cover_inv_def)
    then show "?g ! x \<noteq> n" using le seed by (cases "x = seed") auto
  qed
  also have "filter ((<) seed) [0..<n] = [Suc seed..<n]"
    by (rule sorted_distinct_set_unique) (auto simp: sorted_wrt_filter)
  finally show ?thesis using True by (simp add: graph_seed_def cover_seed_def)
qed

lemma graph_cover: "graph_cover n overlaps = cover (linked overlaps) n" if "pairs_ok n overlaps"
proof -
  have "fold (graph_seed n (build_neighbors n overlaps)) [0..<k] (replicate n n) =
      fold (cover_seed (linked overlaps) n) [0..<k] (replicate n n) \<and>
      cover_inv (linked overlaps) n k (fold (cover_seed (linked overlaps) n) [0..<k] (replicate n n))" if "k \<le> n" for k
    using that
  proof (induction k)
    case 0
    then show ?case by (simp add: cover_inv_def seeded_groups_def)
  next
    case (Suc k)
    then have k: "k < n" and IH: "fold (graph_seed n (build_neighbors n overlaps)) [0..<k] (replicate n n) =
        fold (cover_seed (linked overlaps) n) [0..<k] (replicate n n)"
      "cover_inv (linked overlaps) n k (fold (cover_seed (linked overlaps) n) [0..<k] (replicate n n))" by simp_all
    show ?case using graph_seed_cover [OF \<open>pairs_ok n overlaps\<close> IH(2) k] cover_seed_inv [OF IH(2) k] IH(1) by simp
  qed
  then show ?thesis by (simp add: graph_cover_def cover_def)
qed

subsection \<open>The names of the groups\<close>

lemma names_by_group_nth:
  assumes "\<forall>i < length clusters. g ! i < length clusters" "s < length clusters"
  shows "names_by_group clusters g ! s =
    concat (map (\<lambda>i. cl_names (clusters ! i)) (filter (\<lambda>i. g ! i = s) [0..<length clusters]))"
proof -
  let ?f = "\<lambda>i nb. nb[g ! i := nb ! (g ! i) @ cl_names (clusters ! i)]" and ?n = "length clusters"
  have "length (fold ?f [0..<k] (replicate ?n [])) = ?n \<and> fold ?f [0..<k] (replicate ?n []) ! s =
    concat (map (\<lambda>i. cl_names (clusters ! i)) (filter (\<lambda>i. g ! i = s) [0..<k]))" if "k \<le> ?n" for k
    using that by (induction k) (use assms in \<open>auto simp: nth_list_update\<close>)
  then show ?thesis by (simp add: names_by_group_def)
qed

lemma names_by_group_length: "length (names_by_group clusters g) = length clusters"
proof -
  have "length (fold (\<lambda>i nb. nb[g ! i := nb ! (g ! i) @ cl_names (clusters ! i)]) xs l) = length l" for xs l
    by (induction xs arbitrary: l) auto
  then show ?thesis by (simp add: names_by_group_def)
qed

definition group_names :: "alias_cluster list \<Rightarrow> wstr list" where
  "group_names G = concat (map cl_names G)"

lemma exact_groups_cover:
  "exact_groups (names_by_group clusters (cover S (length clusters))) =
   exact_groups (map (\<lambda>G. concat (map (\<lambda>i. cl_names (clusters ! i)) G)) (first_fit S [0..<length clusters]))"
proof -
  let ?n = "length clusters"
  define g where "g = cover S ?n"
  define h where "h s = concat (map (\<lambda>i. cl_names (clusters ! i)) (filter (\<lambda>i. g ! i = s) [0..<?n]))" for s
  have inv: "length g = ?n" "\<forall>i < ?n. g ! i < ?n \<and> g ! (g ! i) = g ! i" using cover_ok [of S ?n] by (auto simp: cover_inv_def g_def)
  have names: "names_by_group clusters g = map h [0..<?n]"
    using inv by (intro nth_equalityI) (simp_all add: names_by_group_length names_by_group_nth h_def)
  have ff: "map (\<lambda>G. concat (map (\<lambda>i. cl_names (clusters ! i)) G)) (first_fit S [0..<?n]) = map h (filter (\<lambda>s. g ! s = s) [0..<?n])"
    unfolding cover_first_fit [symmetric] g_def [symmetric] seeded_groups_def group_members_def inv(1)
    by (simp add: h_def)
  have empty: "h s = []" if "s < ?n" "g ! s \<noteq> s" for s
    using inv that by (auto simp: h_def filter_empty_conv)
  have "filter (\<lambda>names. \<not> length names < 2) (map h xs) = filter (\<lambda>names. \<not> length names < 2) (map h (filter (\<lambda>s. g ! s = s) xs))"
    if "\<forall>s \<in> set xs. s < ?n" for xs
    using that by (induction xs) (auto simp: empty)
  from this [of "[0..<?n]"] show ?thesis
    unfolding g_def [symmetric] names ff exact_groups_def by simp
qed

lemma exact_groups_mset:
  assumes "list_all2 (\<lambda>a b. mset a = mset b) xs ys"
  shows "exact_groups xs = exact_groups ys"
proof -
  let ?mk = "\<lambda>names. \<lparr>ig_groupId = StableGroupId (sort names), ig_names = sort names\<rparr>"
  have "map ?mk (filter (\<lambda>names. \<not> length names < 2) xs) = map ?mk (filter (\<lambda>names. \<not> length names < 2) ys)"
    using assms
  proof (induction rule: list_all2_induct)
    case (Cons x xs y ys)
    have "length x = length y" by (rule mset_eq_length [OF Cons(1)])
    moreover have "sort x = sort y" using Cons(1) by (intro properties_for_sort) simp_all
    ultimately show ?case using Cons by simp
  qed simp
  then show ?thesis by (simp add: exact_groups_def)
qed

end
