(* ===== verification/IdentityAnalysis.thy ===== *)
theory IdentityAnalysis
  imports IdentityCover
begin

text \<open>
  What the analysis of identities promises: the groups of the indexed analysis are those of the reference
  analysis, suggestions carry honest counts, and the result does not depend on the order of the entries or
  of the hash table.
\<close>

subsection \<open>Compression of equal identifier sets\<close>

text \<open>
  An item is a set of identifiers with the names that have it. Absorbing an item puts its names into an
  equal item when the set is large enough, as the signatures of the indexed analysis do.
\<close>

type_synonym 'k item = "'k set \<times> wstr list"

definition item_strong :: "'k item \<Rightarrow> 'k item \<Rightarrow> bool" where
  "item_strong a b \<longleftrightarrow> AUTO_GROUP_SHARED_ID_THRESHOLD \<le> card (fst a \<inter> fst b)"

definition add_names :: "'k item \<Rightarrow> 'k item \<Rightarrow> 'k item" where
  "add_names x c = (if fst c = fst x then (fst c, snd c @ snd x) else c)"

definition absorb :: "'k item \<Rightarrow> 'k item list \<Rightarrow> 'k item list" where
  "absorb x cs =
     (if AUTO_GROUP_SHARED_ID_THRESHOLD \<le> card (fst x) \<and> fst x \<in> fst ` set cs then map (add_names x) cs else cs @ [x])"

definition same_group :: "'k item list \<Rightarrow> 'k item list \<Rightarrow> bool" where
  "same_group G H \<longleftrightarrow> mset (concat (map snd G)) = mset (concat (map snd H)) \<and> fst ` set G = fst ` set H"

lemma fst_add_names [simp]: "fst (add_names x c) = fst c" by (simp add: add_names_def)

lemma item_strong_fst: "fst a = fst a' \<Longrightarrow> fst b = fst b' \<Longrightarrow> item_strong a b = item_strong a' b'"
  by (simp add: item_strong_def)

lemma item_strong_sym: "item_strong a b = item_strong b a" by (simp add: item_strong_def Int_commute)

lemma accepts_fst: "fst ` set G = fst ` set H \<Longrightarrow> list_all (\<lambda>m. item_strong m x) G = list_all (\<lambda>m. item_strong m x) H"
proof -
  have "list_all (\<lambda>m. item_strong m x) G = (\<forall>A \<in> fst ` set G. AUTO_GROUP_SHARED_ID_THRESHOLD \<le> card (A \<inter> fst x))" for G
    by (simp add: list_all_iff item_strong_def)
  then show "fst ` set G = fst ` set H \<Longrightarrow> ?thesis" by metis
qed

lemma insert_fit_same:
  "list_all2 same_group gs hs \<Longrightarrow> list_all2 same_group (insert_fit item_strong x gs) (insert_fit item_strong x hs)"
proof (induction rule: list_all2_induct)
  case (Cons g gs h hs)
  have "list_all (\<lambda>m. item_strong m x) g = list_all (\<lambda>m. item_strong m x) h"
    using Cons(1) by (intro accepts_fst) (simp add: same_group_def)
  with Cons show ?case by (simp add: same_group_def)
qed (simp add: same_group_def)

lemma add_names_mset:
  "mset (concat (map (snd \<circ> add_names x) G)) =
   mset (concat (map snd G)) + repeat_mset (length (filter (\<lambda>c. fst c = fst x) G)) (mset (snd x))"
  by (induction G) (simp_all add: add_names_def)

lemma add_names_other: "fst x \<notin> fst ` set G \<Longrightarrow> map (add_names x) G = G"
  by (induction G) (auto simp: add_names_def)

lemma clique_accepts:
  assumes "clique item_strong g" "y \<in> set g" "fst y = fst x" "AUTO_GROUP_SHARED_ID_THRESHOLD \<le> card (fst x)"
  shows "list_all (\<lambda>m. item_strong m x) g"
proof -
  obtain as bs where g: "g = as @ y # bs" using assms(2) by (auto dest: split_list)
  then have "\<forall>m \<in> set as. item_strong m y" "\<forall>m \<in> set bs. item_strong y m"
    using assms(1) by (auto simp: clique_def sorted_wrt_append)
  moreover have "item_strong y y" using assms(3,4) by (simp add: item_strong_def)
  ultimately have "\<forall>m \<in> set as \<union> {y} \<union> set bs. item_strong m y"
    using item_strong_sym [of _ y] by blast
  then have "\<forall>m \<in> set g. item_strong m y" using g by auto
  then show ?thesis using item_strong_fst [OF refl assms(3)] by (auto simp: list_all_iff)
qed

lemma insert_fit_duplicate:
  assumes "list_all2 same_group gs hs" "list_all (clique item_strong) gs" "turned_away item_strong gs"
    and "fst x \<in> fst ` \<Union> (set ` set gs)" "AUTO_GROUP_SHARED_ID_THRESHOLD \<le> card (fst x)"
    and "length (filter (\<lambda>c. fst c = fst x) (concat hs)) = 1"
  shows "list_all2 same_group (insert_fit item_strong x gs) (map (map (add_names x)) hs)"
  using assms
proof (induction rule: list_all2_induct)
  case (Cons g gs h hs)
  have fsts: "fst ` set g = fst ` set h" "mset (concat (map snd g)) = mset (concat (map snd h))"
    using Cons(1) by (simp_all add: same_group_def)
  show ?case
  proof (cases "fst x \<in> fst ` set g")
    case True
    then obtain y where "y \<in> set g" "fst y = fst x" by auto
    then have acc: "list_all (\<lambda>m. item_strong m x) g"
      using Cons.prems(1,4) by (intro clique_accepts [of g y x]) simp_all
    have "filter (\<lambda>c. fst c = fst x) h \<noteq> []" using True fsts(1) by (auto simp: filter_empty_conv)
    then have "length (filter (\<lambda>c. fst c = fst x) h) \<noteq> 0" by simp
    then have one: "length (filter (\<lambda>c. fst c = fst x) h) = 1" "length (filter (\<lambda>c. fst c = fst x) (concat hs)) = 0"
      using Cons.prems(5) unfolding concat.simps filter_append length_append by linarith+
    then have "fst x \<notin> fst ` set k" if "k \<in> set hs" for k
      using that by (auto simp: filter_empty_conv)
    then have rest: "map (map (add_names x)) hs = hs"
      by (simp add: map_idI add_names_other)
    have "mset (concat (map snd (map (add_names x) h))) = mset (concat (map snd (g @ [x])))"
      using add_names_mset [of x h] one(1) fsts(2) by simp
    moreover have "fst ` set (map (add_names x) h) = fst ` set (g @ [x])"
      using fsts(1) True by (auto simp: image_image)
    ultimately have "same_group (g @ [x]) (map (add_names x) h)" unfolding same_group_def by metis
    then show ?thesis using acc rest Cons(2) by simp
  next
    case False
    with Cons.prems(3) obtain k y where y: "k \<in> set gs" "y \<in> set k" "fst y = fst x" by auto
    moreover have "\<forall>k \<in> set gs. \<forall>y \<in> set k. \<exists>m \<in> set g. \<not> item_strong m y"
      using Cons.prems(2) by (simp add: turned_away_def)
    ultimately obtain m where "m \<in> set g" "\<not> item_strong m y" by blast
    then have rej: "\<not> list_all (\<lambda>m. item_strong m x) g"
      using item_strong_fst [OF refl y(3)] by (auto simp: list_all_iff)
    have "filter (\<lambda>c. fst c = fst x) h = []" using False fsts(1) by (auto simp: filter_empty_conv)
    then have one: "length (filter (\<lambda>c. fst c = fst x) (concat hs)) = 1" using Cons.prems(5) by simp
    have "fst x \<in> fst ` \<Union> (set ` set gs)" using y by (metis UN_I image_eqI)
    then have "list_all2 same_group (insert_fit item_strong x gs) (map (map (add_names x)) hs)"
      using Cons.prems(1,2,4) one by (intro Cons.IH) (simp_all add: turned_away_def)
    moreover have "map (add_names x) h = h" using False fsts(1) by (intro add_names_other) simp
    ultimately show ?thesis using rej Cons(1) by simp
  qed
qed simp

text \<open>A large set occurs at most once after compression.\<close>

lemma absorb_cases:
  "AUTO_GROUP_SHARED_ID_THRESHOLD \<le> card (fst x) \<and> fst x \<in> fst ` set cs \<Longrightarrow> absorb x cs = map (add_names x) cs"
  "\<not> (AUTO_GROUP_SHARED_ID_THRESHOLD \<le> card (fst x) \<and> fst x \<in> fst ` set cs) \<Longrightarrow> absorb x cs = cs @ [x]"
  by (simp_all add: absorb_def)

lemma absorb_unique:
  assumes "AUTO_GROUP_SHARED_ID_THRESHOLD \<le> card A"
  shows "length (filter (\<lambda>c. fst c = A) (fold absorb xs [])) \<le> 1"
proof (induction xs rule: rev_induct)
  case (snoc x xs)
  let ?cs = "fold absorb xs []"
  have step: "fold absorb (xs @ [x]) [] = absorb x ?cs" by simp
  show ?case
  proof (cases "AUTO_GROUP_SHARED_ID_THRESHOLD \<le> card (fst x) \<and> fst x \<in> fst ` set ?cs")
    case True
    have "filter (\<lambda>c. fst c = A) (map (add_names x) ?cs) = map (add_names x) (filter (\<lambda>c. fst c = A) ?cs)"
      by (simp add: filter_map comp_def)
    then show ?thesis unfolding step absorb_cases(1) [OF True] using snoc by simp
  next
    case False
    have "filter (\<lambda>c. fst c = A) ?cs = []" if "fst x = A"
      using that False assms by (auto simp: filter_empty_conv)
    then show ?thesis unfolding step absorb_cases(2) [OF False] using snoc by simp
  qed
qed simp

lemma absorb_fsts: "fst ` set (fold absorb xs []) = fst ` set xs"
proof (induction xs rule: rev_induct)
  case (snoc x xs)
  have "fst ` set (absorb x cs) = insert (fst x) (fst ` set cs)" for cs
    by (auto simp: absorb_def image_image)
  with snoc show ?case by simp
qed simp

lemma compressed_groups:
  "list_all2 same_group (first_fit item_strong xs) (first_fit item_strong (fold absorb xs []))"
proof (induction xs rule: rev_induct)
  case Nil
  then show ?case by (simp add: first_fit_def)
next
  case (snoc x xs)
  let ?cs = "fold absorb xs []"
  show ?case
  proof (cases "AUTO_GROUP_SHARED_ID_THRESHOLD \<le> card (fst x) \<and> fst x \<in> fst ` set ?cs")
    case False
    then have "fold absorb (xs @ [x]) [] = ?cs @ [x]" using absorb_cases(2) [OF False] by simp
    with snoc show ?thesis by (simp only: first_fit_snoc insert_fit_same)
  next
    case True
    let ?hs = "first_fit item_strong ?cs"
    have "item_strong (add_names x a) (add_names x b) = item_strong a b" for a b
      by (rule item_strong_fst) simp_all
    then have hs: "first_fit item_strong (fold absorb (xs @ [x]) []) = map (map (add_names x)) ?hs"
      using absorb_cases(1) [OF True] by (simp add: first_fit_map)
    have "length (filter (\<lambda>c. fst c = fst x) (concat ?hs)) = length (filter (\<lambda>c. fst c = fst x) ?cs)"
      using first_fit_mset [of item_strong ?cs] by (metis mset_filter size_mset)
    moreover have "filter (\<lambda>c. fst c = fst x) ?cs \<noteq> []" using True by (auto simp: filter_empty_conv)
    then have "length (filter (\<lambda>c. fst c = fst x) ?cs) \<noteq> 0" by simp
    ultimately have one: "length (filter (\<lambda>c. fst c = fst x) (concat ?hs)) = 1"
      using absorb_unique [of "fst x" xs] True by linarith
    have "fst x \<in> fst ` \<Union> (set ` set (first_fit item_strong xs))"
      using True by (simp add: first_fit_members absorb_fsts)
    from insert_fit_duplicate [OF snoc first_fit_ok this _ one] True show ?thesis
      unfolding hs first_fit_snoc by simp
  qed
qed

lemma compressed_names:
  "exact_groups (map (\<lambda>G. concat (map snd G)) (first_fit item_strong xs)) =
   exact_groups (map (\<lambda>G. concat (map snd G)) (first_fit item_strong (fold absorb xs [])))"
proof (rule exact_groups_mset)
  show "list_all2 (\<lambda>a b. mset a = mset b) (map (\<lambda>G. concat (map snd G)) (first_fit item_strong xs))
     (map (\<lambda>G. concat (map snd G)) (first_fit item_strong (fold absorb xs [])))"
    unfolding list_all2_map1 list_all2_map2
    by (rule list_all2_mono [OF compressed_groups]) (simp add: same_group_def)
qed

subsection \<open>The reference analysis as first fit\<close>

definition key_of :: "(wstr \<Rightarrow> wstr) option \<Rightarrow> wstr \<Rightarrow> wstr" where
  "key_of canonicalKey raw = (case canonicalKey of Some ck \<Rightarrow> ck raw | None \<Rightarrow> raw)"

definition same_key :: "(wstr \<Rightarrow> wstr) option \<Rightarrow> wstr \<Rightarrow> wstr \<Rightarrow> bool" where
  "same_key canonicalKey a b \<longleftrightarrow> key_of canonicalKey a = key_of canonicalKey b"

text \<open>The keys of an entry; identifiers that are empty or have an empty key carry none.\<close>

definition entry_keys :: "(wstr \<Rightarrow> wstr) option \<Rightarrow> alias_entry \<Rightarrow> wstr set" where
  "entry_keys canonicalKey e = key_of canonicalKey ` {raw \<in> set (ae_ids e). raw \<noteq> []} - {[]}"

definition entry_item :: "(wstr \<Rightarrow> wstr) option \<Rightarrow> alias_entry \<Rightarrow> wstr item" where
  "entry_item canonicalKey e = (entry_keys canonicalKey e, [ae_name e])"

lemma unique_ids_keys:
  assumes "distinct (map (key_of ck) result)"
  shows "distinct (map (key_of ck) (unique_ids (same_key ck) xs result)) \<and>
    key_of ck ` set (unique_ids (same_key ck) xs result) = key_of ck ` (set result \<union> {x \<in> set xs. x \<noteq> []})"
  using assms
proof (induction xs arbitrary: result)
  case (Cons x xs)
  show ?case
  proof (cases "x = [] \<or> list_ex (\<lambda>existing. same_key ck existing x) result")
    case True
    then have "x = [] \<or> key_of ck x \<in> key_of ck ` set result"
      by (auto simp: list_ex_iff same_key_def) (metis image_eqI)
    moreover have "unique_ids (same_key ck) (x # xs) result = unique_ids (same_key ck) xs result" using True by simp
    ultimately show ?thesis using Cons.IH [OF Cons.prems] by fastforce
  next
    case False
    then have "distinct (map (key_of ck) (result @ [x]))" using Cons.prems by (auto simp: list_ex_iff same_key_def)
    with False Cons.IH [OF this] show ?thesis by auto
  qed
qed simp

lemma UniqueIds_keys:
  "distinct (map (key_of ck) (UniqueIds xs (same_key ck)))"
  "key_of ck ` set (UniqueIds xs (same_key ck)) = key_of ck ` {x \<in> set xs. x \<noteq> []}"
  using unique_ids_keys [of ck "[]" xs] by (simp_all add: UniqueIds_def)

lemma CommonIdCount_keys:
  assumes "distinct (map (key_of ck) xs)"
  shows "CommonIdCount xs ys (same_key ck) = card (key_of ck ` set xs \<inter> key_of ck ` set ys)"
proof -
  let ?f = "filter (\<lambda>x. list_ex (\<lambda>other. same_key ck x other) ys) xs"
  have "length ?f = card (key_of ck ` set ?f)"
    using distinct_card [OF distinct_map_filter [OF assms]] by simp
  moreover have "key_of ck ` set ?f = key_of ck ` set xs \<inter> key_of ck ` set ys"
    by (auto simp: list_ex_iff same_key_def)
  ultimately show ?thesis by (simp add: CommonIdCount_def)
qed

definition keys_nonempty :: "(wstr \<Rightarrow> wstr) option \<Rightarrow> alias_entry list \<Rightarrow> bool" where
  "keys_nonempty canonicalKey entries \<longleftrightarrow>
     list_all (\<lambda>e. list_all (\<lambda>raw. key_of canonicalKey raw = [] \<longrightarrow> raw = []) (ae_ids e)) entries"

lemma UniqueIds_entry:
  assumes "keys_nonempty ck entries" "e \<in> set entries"
  shows "key_of ck ` set (UniqueIds (ae_ids e) (same_key ck)) = entry_keys ck e"
    "UniqueIds (ae_ids e) (same_key ck) = [] \<longleftrightarrow> entry_keys ck e = {}"
proof -
  show k: "key_of ck ` set (UniqueIds (ae_ids e) (same_key ck)) = entry_keys ck e"
    using assms by (auto simp: UniqueIds_keys entry_keys_def keys_nonempty_def list_all_iff)
  show "UniqueIds (ae_ids e) (same_key ck) = [] \<longleftrightarrow> entry_keys ck e = {}"
    unfolding k [symmetric] by simp
qed

lemma all_overlaps_ok:
  "set (map (\<lambda>p. (po_left p, po_right p, po_common p)) (all_overlaps us eqv)) =
     {(i, j, CommonIdCount (us ! i) (us ! j) eqv) | i j. i < j \<and> j < length us \<and> CommonIdCount (us ! i) (us ! j) eqv \<noteq> 0}"
  "pairs_ok (length us) (all_overlaps us eqv)"
proof -
  show "set (map (\<lambda>p. (po_left p, po_right p, po_common p)) (all_overlaps us eqv)) =
     {(i, j, CommonIdCount (us ! i) (us ! j) eqv) | i j. i < j \<and> j < length us \<and> CommonIdCount (us ! i) (us ! j) eqv \<noteq> 0}"
    by (force simp: all_overlaps_def Let_def)
  let ?row = "\<lambda>i. concat (map (\<lambda>j. let common = CommonIdCount (us ! i) (us ! j) eqv in
         if common = 0 then [] else [\<lparr>po_left = i, po_right = j, po_common = common, po_lowerBound = False\<rparr>]) [Suc i..<length us])"
  have row: "map (\<lambda>p. (po_left p, po_right p)) (?row i) =
      map (Pair i) (filter (\<lambda>j. CommonIdCount (us ! i) (us ! j) eqv \<noteq> 0) [Suc i..<length us])" for i
  proof -
    have "map (\<lambda>p. (po_left p, po_right p)) (concat (map (\<lambda>j. let common = CommonIdCount (us ! i) (us ! j) eqv in
         if common = 0 then [] else [\<lparr>po_left = i, po_right = j, po_common = common, po_lowerBound = False\<rparr>]) js)) =
      map (Pair i) (filter (\<lambda>j. CommonIdCount (us ! i) (us ! j) eqv \<noteq> 0) js)" for js
      by (induction js) (auto simp: Let_def)
    then show ?thesis .
  qed
  have "distinct (concat (map (\<lambda>i. map (Pair i) (filter (P i) [Suc i..<n])) is))" if "distinct is" for P n and "is" :: "nat list"
    using that by (induction "is") (auto simp: distinct_map inj_on_def)
  from this [of "[0..<length us]" "\<lambda>i j. CommonIdCount (us ! i) (us ! j) eqv \<noteq> 0" "length us"]
  have "distinct (map (\<lambda>p. (po_left p, po_right p)) (all_overlaps us eqv))"
    by (simp only: all_overlaps_def map_concat map_map comp_def row [unfolded map_concat map_map comp_def] distinct_upt)
  moreover have "\<forall>p \<in> set (all_overlaps us eqv). po_left p < po_right p \<and> po_right p < length us"
    by (auto simp: all_overlaps_def Let_def split: if_splits)
  ultimately show "pairs_ok (length us) (all_overlaps us eqv)" by (simp add: pairs_ok_def)
qed

lemma insert_fit_distinct_cong:
  "(\<And>x y. x \<in> set xs \<Longrightarrow> y \<in> set xs \<Longrightarrow> x \<noteq> y \<Longrightarrow> S x y = T x y) \<Longrightarrow> distinct xs \<Longrightarrow> first_fit S xs = first_fit T xs"
proof (induction xs rule: rev_induct)
  case (snoc x xs)
  then have IH: "first_fit S xs = first_fit T xs" by simp
  have "insert_fit S x (first_fit T xs) = insert_fit T x (first_fit T xs)"
  proof (rule insert_fit_cong)
    fix m assume "m \<in> \<Union> (set ` set (first_fit T xs))"
    then have "m \<in> set xs" by (simp add: first_fit_members)
    with snoc.prems show "S m x = T m x" by auto
  qed
  with IH show ?case by (simp add: first_fit_snoc)
qed (simp add: first_fit_def)

lemma first_fit_nth: "first_fit S xs = map (map ((!) xs)) (first_fit (\<lambda>i j. S (xs ! i) (xs ! j)) [0..<length xs])"
  using first_fit_map [of S "(!) xs" "[0..<length xs]"] by (simp add: map_nth)

lemma exact_groups_first_fit:
  assumes "length items = length clusters"
    and "\<And>i j. i < length clusters \<Longrightarrow> j < length clusters \<Longrightarrow> i \<noteq> j \<Longrightarrow> S i j = item_strong (items ! i) (items ! j)"
    and "\<And>i. i < length clusters \<Longrightarrow> snd (items ! i) = cl_names (clusters ! i)"
  shows "exact_groups (names_by_group clusters (cover S (length clusters))) =
    exact_groups (map (\<lambda>G. concat (map snd G)) (first_fit item_strong items))"
proof -
  let ?n = "length clusters"
  have "first_fit S [0..<?n] = first_fit (\<lambda>i j. item_strong (items ! i) (items ! j)) [0..<?n]"
    by (rule insert_fit_distinct_cong) (use assms(2) in simp_all)
  then have ff: "first_fit item_strong items = map (map ((!) items)) (first_fit S [0..<?n])"
    using first_fit_nth [of item_strong items] assms(1) by simp
  have eq: "map (\<lambda>G. concat (map (\<lambda>i. cl_names (clusters ! i)) G)) (first_fit S [0..<?n]) =
    map (\<lambda>G. concat (map (\<lambda>i. snd (items ! i)) G)) (first_fit S [0..<?n])"
  proof (intro map_cong refl arg_cong [of _ _ concat])
    fix G i assume "G \<in> set (first_fit S [0..<?n])" "i \<in> set G"
    then have "i < ?n" using first_fit_members [of S "[0..<?n]"] by auto
    then show "cl_names (clusters ! i) = snd (items ! i)" using assms(3) by simp
  qed
  show ?thesis unfolding exact_groups_cover ff eq by (simp add: comp_def)
qed

lemma set_EntryOrder: "set (map ((!) entries) (EntryOrder entries)) = set entries"
proof -
  have "set (map ((!) entries) (EntryOrder entries)) = set (map ((!) entries) [0..<length entries])"
    by (simp add: EntryOrder_def)
  then show ?thesis by (simp only: map_nth)
qed

lemma Analyze_groups:
  assumes "keys_nonempty ck entries"
  defines "kept \<equiv> filter (\<lambda>e. entry_keys ck e \<noteq> {}) (map ((!) entries) (EntryOrder entries))"
  shows "ia_exactGroups (Analyze entries (Some (same_key ck))) =
    exact_groups (map (\<lambda>G. concat (map snd G)) (first_fit item_strong (map (entry_item ck) kept)))"
proof -
  let ?eqv = "same_key ck"
  note order = set_EntryOrder [of entries]
  then have sub: "set kept \<subseteq> set entries" by (auto simp: kept_def)
  have kept: "kept = filter (\<lambda>e. UniqueIds (ae_ids e) ?eqv \<noteq> []) (map ((!) entries) (EntryOrder entries))"
    unfolding kept_def using UniqueIds_entry(2) [OF assms(1)] order by (intro filter_cong) auto
  define us where "us = map (\<lambda>e. UniqueIds (ae_ids e) ?eqv) kept"
  define clusters where "clusters = map (\<lambda>e. \<lparr>cl_ids = [], cl_names = [ae_name e]\<rparr>) kept"
  define ov where "ov = sort_key (\<lambda>p. (po_left p, po_right p)) (all_overlaps us ?eqv)"
  let ?n = "length kept"
  have len: "length us = ?n" "length clusters = ?n" by (simp_all add: us_def clusters_def)
  have "distinct (map (\<lambda>p. (po_left p, po_right p)) ov) = distinct (map (\<lambda>p. (po_left p, po_right p)) (all_overlaps us ?eqv))"
    by (rule mset_eq_imp_distinct_iff) (simp add: ov_def)
  then have ok: "pairs_ok ?n ov" using all_overlaps_ok(2) [of us ?eqv] len by (simp add: pairs_ok_def ov_def)
  have common: "CommonIdCount (us ! i) (us ! j) ?eqv = card (entry_keys ck (kept ! i) \<inter> entry_keys ck (kept ! j))"
    if "i < ?n" "j < ?n" for i j
    using that UniqueIds_entry(1) [OF assms(1)] sub
    by (simp add: us_def CommonIdCount_keys UniqueIds_keys(1) subset_iff)
  have link: "linked ov i j = item_strong (entry_item ck (kept ! i)) (entry_item ck (kept ! j))"
    if "i < ?n" "j < ?n" "i \<noteq> j" for i j
  proof -
    have pos: "0 < AUTO_GROUP_SHARED_ID_THRESHOLD" by (simp add: AUTO_GROUP_SHARED_ID_THRESHOLD_def)
    have less: "(\<exists>p \<in> set ov. IsStrong p \<and> po_left p = a \<and> po_right p = b) \<longleftrightarrow>
        AUTO_GROUP_SHARED_ID_THRESHOLD \<le> CommonIdCount (us ! a) (us ! b) ?eqv \<and> a < b" if "b < ?n" for a b
    proof -
      have "(\<exists>p \<in> set ov. IsStrong p \<and> po_left p = a \<and> po_right p = b) \<longleftrightarrow>
          (\<exists>c. (a, b, c) \<in> set (map (\<lambda>p. (po_left p, po_right p, po_common p)) (all_overlaps us ?eqv)) \<and>
            AUTO_GROUP_SHARED_ID_THRESHOLD \<le> c)"
        by (auto simp: ov_def IsStrong_def image_iff)
      then show ?thesis unfolding all_overlaps_ok(1) using that len pos by auto
    qed
    have "linked ov i j \<longleftrightarrow> AUTO_GROUP_SHARED_ID_THRESHOLD \<le> CommonIdCount (us ! i) (us ! j) ?eqv"
      using less [OF that(2), of i] less [OF that(1), of j] that common [OF that(1,2)] common [OF that(2,1)]
      by (auto simp: linked_def Int_commute)
    then show ?thesis using common [OF that(1,2)] by (simp add: item_strong_def entry_item_def)
  qed
  have groups: "ia_exactGroups (Analyze entries (Some ?eqv)) = exact_groups (names_by_group clusters (cover (linked ov) ?n))"
    unfolding Analyze_def option.case Let_def kept [symmetric] us_def [symmetric] clusters_def [symmetric] BuildAnalysis_def ov_def [symmetric]
    using graph_cover [OF ok] len by (simp split: prod.split)
  show ?thesis unfolding groups
    using exact_groups_first_fit [of "map (entry_item ck) kept" clusters "linked ov"] link len(2)
    by (simp add: clusters_def entry_item_def)
qed

subsection \<open>Interning\<close>

text \<open>What the identifier of a raw text stands for, \<open>None\<close> being an empty key.\<close>

definition id_names :: "(wstr \<Rightarrow> wstr) option \<Rightarrow> wstr list \<Rightarrow> wstr \<Rightarrow> nat option \<Rightarrow> bool" where
  "id_names ck keys raw v \<longleftrightarrow>
     (case v of None \<Rightarrow> key_of ck raw = [] | Some i \<Rightarrow> i < length keys \<and> keys ! i = key_of ck raw)"

definition interner_ok :: "(wstr \<Rightarrow> wstr) option \<Rightarrow> interner \<Rightarrow> bool" where
  "interner_ok ck st \<longleftrightarrow> distinct (in_keys st) \<and> [] \<notin> set (in_keys st) \<and>
     (\<forall>k i. in_number st k = Some i \<longleftrightarrow> i < length (in_keys st) \<and> in_keys st ! i = k) \<and>
     (\<forall>raw v. in_raw st raw = Some v \<longrightarrow> id_names ck (in_keys st) raw v)"

lemma id_names_mono: "id_names ck ks raw v \<Longrightarrow> id_names ck (ks @ ext) raw v"
  by (auto simp: id_names_def nth_append split: option.splits)

lemma intern_raw_ok:
  assumes ok: "interner_ok ck st" and run: "intern_raw ck raw st = (v, st')"
  shows "interner_ok ck st' \<and> prefix (in_keys st) (in_keys st') \<and> id_names ck (in_keys st') raw v"
proof (cases "in_raw st raw")
  case (Some c)
  with ok run show ?thesis by (auto simp: intern_raw_def interner_ok_def)
next
  case None
  let ?k = "key_of ck raw"
  have fresh: "?k = (case ck of Some f \<Rightarrow> f raw | None \<Rightarrow> raw)" by (simp add: key_of_def)
  consider "?k = []" | i where "?k \<noteq> []" "in_number st ?k = Some i" | "?k \<noteq> []" "in_number st ?k = None" by fastforce
  then show ?thesis
  proof cases
    case 1
    then have "v = None" "st' = st\<lparr>in_raw := (in_raw st)(raw \<mapsto> None)\<rparr>"
      using None run by (simp_all add: intern_raw_def fresh)
    moreover have "id_names ck (in_keys st) raw None" using 1 by (simp add: id_names_def)
    ultimately show ?thesis using ok by (auto simp: interner_ok_def)
  next
    case 2
    then have "v = Some i" "st' = st\<lparr>in_raw := (in_raw st)(raw \<mapsto> Some i)\<rparr>"
      using None run by (auto simp: intern_raw_def fresh)
    moreover have "id_names ck (in_keys st) raw (Some i)" using 2(2) ok by (auto simp: interner_ok_def id_names_def)
    ultimately show ?thesis using ok by (auto simp: interner_ok_def)
  next
    case 3
    let ?n = "length (in_keys st)"
    have e: "v = Some ?n" "st' = st\<lparr>in_number := (in_number st)(?k \<mapsto> ?n), in_keys := in_keys st @ [?k], in_raw := (in_raw st)(raw \<mapsto> Some ?n)\<rparr>"
      using None run 3 by (auto simp: intern_raw_def fresh Let_def)
    have new: "?k \<notin> set (in_keys st)"
    proof
      assume "?k \<in> set (in_keys st)"
      then obtain i where "i < ?n" "in_keys st ! i = ?k" by (auto simp: in_set_conv_nth)
      then have "in_number st ?k = Some i" using ok by (simp add: interner_ok_def)
      with 3(2) show False by simp
    qed
    have num: "(in_number st' k = Some i) = (i < length (in_keys st') \<and> in_keys st' ! i = k)" for k i
      using ok new e(2) by (cases "k = ?k"; cases "i = ?n") (auto simp: interner_ok_def nth_append in_set_conv_nth)
    have self: "id_names ck (in_keys st') raw (Some ?n)" using e(2) by (simp add: id_names_def nth_append)
    have raws: "id_names ck (in_keys st') r w" if "in_raw st' r = Some w" for r w
      using that e(2) self ok id_names_mono by (auto simp: interner_ok_def split: if_splits)
    have "interner_ok ck st'"
      unfolding interner_ok_def using ok new num raws 3(1) e(2) by (simp add: interner_ok_def)
    with e self show ?thesis by simp
  qed
qed

lemma prefix_image: "prefix ks ks' \<Longrightarrow> \<forall>i \<in> A. i < length ks \<Longrightarrow> (!) ks' ` A = (!) ks ` A"
  by (auto simp: prefix_def nth_append image_iff)

lemma prefix_bound: "prefix ks ks' \<Longrightarrow> \<forall>i \<in> A. i < length ks \<Longrightarrow> \<forall>i \<in> A. i < length ks'"
  using prefix_length_le by fastforce

lemma intern_ids_ok:
  assumes "interner_ok ck st" "intern_ids ck raws ids st = (ids', st')" "\<forall>i \<in> set ids. i < length (in_keys st)"
  shows "interner_ok ck st' \<and> prefix (in_keys st) (in_keys st') \<and> (\<forall>i \<in> set ids'. i < length (in_keys st')) \<and>
    (!) (in_keys st') ` set ids' = (!) (in_keys st) ` set ids \<union> (key_of ck ` {raw \<in> set raws. raw \<noteq> []} - {[]})"
  using assms
proof (induction raws arbitrary: ids st)
  case (Cons raw raws)
  show ?case
  proof (cases "raw = []")
    case True
    moreover have "{r \<in> set (raw # raws). r \<noteq> []} = {r \<in> set raws. r \<noteq> []}" using True by auto
    ultimately show ?thesis using Cons by simp
  next
    case False
    obtain v st1 where v: "intern_raw ck raw st = (v, st1)" by (cases "intern_raw ck raw st")
    have R: "interner_ok ck st1" "prefix (in_keys st) (in_keys st1)" "id_names ck (in_keys st1) raw v"
      using intern_raw_ok [OF Cons.prems(1) v] by simp_all
    have set: "{r \<in> set (raw # raws). r \<noteq> []} = insert raw {r \<in> set raws. r \<noteq> []}" using False by auto
    have keep: "(!) (in_keys st1) ` set ids = (!) (in_keys st) ` set ids" "\<forall>i \<in> set ids. i < length (in_keys st1)"
      using prefix_image [OF R(2) Cons.prems(3)] prefix_bound [OF R(2) Cons.prems(3)] by simp_all
    show ?thesis
    proof (cases v)
      case None
      with False v Cons.prems(2) have "intern_ids ck raws ids st1 = (ids', st')" by simp
      from Cons.IH [OF R(1) this keep(2)] show ?thesis
        using R(2) R(3) [unfolded id_names_def] None keep(1) prefix_order.trans [OF R(2)] unfolding set by auto
    next
      case (Some i)
      with False v Cons.prems(2) have run: "intern_ids ck raws (ids @ [i]) st1 = (ids', st')" by simp
      have i: "i < length (in_keys st1)" "in_keys st1 ! i = key_of ck raw" using R(3) Some by (simp_all add: id_names_def)
      then have "key_of ck raw \<noteq> []" using R(1) by (auto simp: interner_ok_def in_set_conv_nth)
      with Cons.IH [OF R(1) run] i keep R(2) show ?thesis
        using prefix_order.trans [OF R(2)] unfolding set by auto
    qed
  qed
qed simp

subsection \<open>Clustering\<close>

definition cluster_item :: "wstr list \<Rightarrow> alias_cluster \<Rightarrow> wstr item" where
  "cluster_item keys c = ((!) keys ` set (cl_ids c), cl_names c)"

definition clustering_ok :: "(wstr \<Rightarrow> wstr) option \<Rightarrow> clustering \<Rightarrow> bool" where
  "clustering_ok ck cg \<longleftrightarrow> interner_ok ck (cg_interner cg) \<and>
     (\<forall>c \<in> set (cg_clusters cg). strictly_sorted (cl_ids c) \<and> (\<forall>i \<in> set (cl_ids c). i < length (in_keys (cg_interner cg)))) \<and>
     (\<forall>ids i. cg_signatures cg ids = Some i \<longleftrightarrow>
        i < length (cg_clusters cg) \<and> cl_ids (cg_clusters cg ! i) = ids \<and> AUTO_GROUP_SHARED_ID_THRESHOLD \<le> length ids)"

definition cluster_items :: "clustering \<Rightarrow> wstr item list" where
  "cluster_items cg = map (cluster_item (in_keys (cg_interner cg))) (cg_clusters cg)"

lemma key_sets_inj:
  assumes "distinct ks" "strictly_sorted xs" "strictly_sorted ys" "\<forall>i \<in> set xs. i < length ks" "\<forall>i \<in> set ys. i < length ks"
  shows "(!) ks ` set xs = (!) ks ` set ys \<longleftrightarrow> xs = ys"
proof
  assume "(!) ks ` set xs = (!) ks ` set ys"
  moreover have "inj_on ((!) ks) {i. i < length ks}" using assms(1) by (auto simp: inj_on_def nth_eq_iff_index_eq)
  ultimately have "set xs = set ys" using assms(4,5) inj_on_image_eq_iff [of "(!) ks" "{i. i < length ks}" "set xs" "set ys"] by auto
  with assms(2,3) show "xs = ys" by (rule strictly_sorted_eq)
qed simp

lemma sorted_ids: "sorted (xs :: nat list) \<Longrightarrow> strictly_sorted (remdups_adj xs)"
  by (induction xs rule: remdups_adj.induct) (auto simp: le_less dest: less_le_trans)

lemma cluster_entry_ok:
  fixes e :: alias_entry
  assumes ok: "clustering_ok ck cg"
  defines "cg' \<equiv> cluster_entry ck e cg"
  shows "clustering_ok ck cg' \<and> cluster_items cg' =
    (if entry_keys ck e = {} then cluster_items cg else absorb (entry_item ck e) (cluster_items cg))"
proof -
  obtain found st where run: "intern_ids ck (ae_ids e) [] (cg_interner cg) = (found, st)"
    by (cases "intern_ids ck (ae_ids e) [] (cg_interner cg)")
  let ?ks = "in_keys (cg_interner cg)" and ?ks' = "in_keys st" and ?cs = "cg_clusters cg"
  define ids where "ids = remdups_adj (sort found)"
  have iok: "interner_ok ck (cg_interner cg)" using ok by (simp add: clustering_ok_def)
  have I: "interner_ok ck st" "prefix ?ks ?ks'" "\<forall>i \<in> set found. i < length ?ks'"
    "(!) ?ks' ` set found = key_of ck ` {raw \<in> set (ae_ids e). raw \<noteq> []} - {[]}"
    using intern_ids_ok [OF iok run] by simp_all
  have ids: "strictly_sorted ids" "\<forall>i \<in> set ids. i < length ?ks'" "(!) ?ks' ` set ids = entry_keys ck e"
    using I(3,4) by (simp_all add: ids_def sorted_ids entry_keys_def)
  have dist: "distinct ?ks'" using I(1) by (simp add: interner_ok_def)
  have card: "card (entry_keys ck e) = length ids"
  proof -
    have "inj_on ((!) ?ks') (set ids)" using ids(2) dist by (auto simp: inj_on_def nth_eq_iff_index_eq)
    then have "card ((!) ?ks' ` set ids) = card (set ids)" by (rule card_image)
    then show ?thesis using ids strictly_sorted_distinct [OF ids(1)] by (simp add: distinct_card)
  qed
  have old: "strictly_sorted (cl_ids c)" "\<forall>i \<in> set (cl_ids c). i < length ?ks'" "cluster_item ?ks' c = cluster_item ?ks c"
    if "c \<in> set ?cs" for c
  proof -
    have b: "strictly_sorted (cl_ids c)" "\<forall>i \<in> set (cl_ids c). i < length ?ks" using ok that by (simp_all add: clustering_ok_def)
    show "strictly_sorted (cl_ids c)" by (rule b(1))
    show "\<forall>i \<in> set (cl_ids c). i < length ?ks'" by (rule prefix_bound [OF I(2) b(2)])
    show "cluster_item ?ks' c = cluster_item ?ks c" using prefix_image [OF I(2) b(2)] by (simp add: cluster_item_def)
  qed
  have items: "cluster_items cg = map (cluster_item ?ks') ?cs" using old(3) by (simp add: cluster_items_def)
  have sig: "cg_signatures cg xs = Some i \<longleftrightarrow> i < length ?cs \<and> cl_ids (?cs ! i) = xs \<and> AUTO_GROUP_SHARED_ID_THRESHOLD \<le> length xs" for xs i
    using ok by (auto simp: clustering_ok_def)
  have match: "fst (cluster_item ?ks' c) = entry_keys ck e \<longleftrightarrow> cl_ids c = ids" if "c \<in> set ?cs" for c
    using key_sets_inj [OF dist old(1) [OF that] ids(1) old(2) [OF that] ids(2)] ids(3) by (simp add: cluster_item_def)
  have fresh: "clustering_ok ck \<lparr>cg_interner = st, cg_signatures = sg, cg_clusters = ?cs @ [\<lparr>cl_ids = ids, cl_names = nm\<rparr>]\<rparr>"
    if "\<And>xs i. sg xs = Some i \<longleftrightarrow> (cg_signatures cg xs = Some i \<or> AUTO_GROUP_SHARED_ID_THRESHOLD \<le> length ids \<and> xs = ids \<and> i = length ?cs)" for sg nm
    unfolding clustering_ok_def using I(1) old ids(1,2) that sig
    by (auto simp: nth_append less_Suc_eq)
  have appended: "cluster_items \<lparr>cg_interner = st, cg_signatures = sg, cg_clusters = ?cs @ [\<lparr>cl_ids = ids, cl_names = [ae_name e]\<rparr>]\<rparr> =
      cluster_items cg @ [entry_item ck e]" for sg
    by (simp add: cluster_items_def [of "\<lparr>cg_interner = st, cg_signatures = sg, cg_clusters = ?cs @ [\<lparr>cl_ids = ids, cl_names = [ae_name e]\<rparr>]\<rparr>"]
      items cluster_item_def [of _ "\<lparr>cl_ids = ids, cl_names = [ae_name e]\<rparr>"] entry_item_def ids(3))
  consider "ids = []" | "ids \<noteq> []" "length ids < AUTO_GROUP_SHARED_ID_THRESHOLD"
    | "AUTO_GROUP_SHARED_ID_THRESHOLD \<le> length ids" "cg_signatures cg ids = None"
    | at where "AUTO_GROUP_SHARED_ID_THRESHOLD \<le> length ids" "cg_signatures cg ids = Some at"
    by (meson not_less option.exhaust)
  then show ?thesis
  proof cases
    case 1
    then have "cg' = \<lparr>cg_interner = st, cg_signatures = cg_signatures cg, cg_clusters = ?cs\<rparr>"
      using run by (simp add: cg'_def cluster_entry_def ids_def Let_def)
    moreover have "clustering_ok ck \<lparr>cg_interner = st, cg_signatures = cg_signatures cg, cg_clusters = ?cs\<rparr>"
      unfolding clustering_ok_def using I(1) old(1,2) sig by simp
    moreover have "entry_keys ck e = {}" using 1 ids(3) by simp
    ultimately show ?thesis
      by (simp add: cluster_items_def [of "\<lparr>cg_interner = st, cg_signatures = cg_signatures cg, cg_clusters = ?cs\<rparr>"] items)
  next
    case 2
    then have e: "cg' = \<lparr>cg_interner = st, cg_signatures = cg_signatures cg, cg_clusters = ?cs @ [\<lparr>cl_ids = ids, cl_names = [ae_name e]\<rparr>]\<rparr>"
      using run by (simp add: cg'_def cluster_entry_def ids_def Let_def)
    have "absorb (entry_item ck e) (cluster_items cg) = cluster_items cg @ [entry_item ck e]"
      using 2 card by (intro absorb_cases(2)) (simp add: entry_item_def)
    moreover have "entry_keys ck e \<noteq> {}" using 2 ids(3) by auto
    moreover have "clustering_ok ck cg'" unfolding e using 2 by (intro fresh) auto
    ultimately show ?thesis unfolding e using appended by simp
  next
    case 3
    have T: "0 < AUTO_GROUP_SHARED_ID_THRESHOLD" by (simp add: AUTO_GROUP_SHARED_ID_THRESHOLD_def)
    have e: "cg' = \<lparr>cg_interner = st, cg_signatures = (cg_signatures cg)(ids \<mapsto> length ?cs),
        cg_clusters = ?cs @ [\<lparr>cl_ids = ids, cl_names = [ae_name e]\<rparr>]\<rparr>"
      using run 3 T by (auto simp: cg'_def cluster_entry_def ids_def Let_def)
    have "entry_keys ck e \<notin> fst ` set (cluster_items cg)"
    proof
      assume "entry_keys ck e \<in> fst ` set (cluster_items cg)"
      then obtain c where c: "c \<in> set ?cs" "fst (cluster_item ?ks' c) = entry_keys ck e" unfolding items by auto
      then have "cl_ids c = ids" using match by simp
      with c(1) obtain i where "i < length ?cs" "cl_ids (?cs ! i) = ids" by (auto simp: in_set_conv_nth)
      then show False using sig [of ids i] 3 by simp
    qed
    then have "absorb (entry_item ck e) (cluster_items cg) = cluster_items cg @ [entry_item ck e]"
      by (intro absorb_cases(2)) (simp add: entry_item_def)
    moreover have "entry_keys ck e \<noteq> {}" using 3 T ids(3) by auto
    moreover have "clustering_ok ck cg'" unfolding e
      using 3 by (intro fresh) auto
    ultimately show ?thesis unfolding e using appended by simp
  next
    case 4
    have T: "0 < AUTO_GROUP_SHARED_ID_THRESHOLD" by (simp add: AUTO_GROUP_SHARED_ID_THRESHOLD_def)
    let ?c = "(?cs ! at)\<lparr>cl_names := cl_names (?cs ! at) @ [ae_name e]\<rparr>"
    have e: "cg' = \<lparr>cg_interner = st, cg_signatures = cg_signatures cg, cg_clusters = ?cs[at := ?c]\<rparr>"
      using run 4 T by (auto simp: cg'_def cluster_entry_def ids_def Let_def)
    have at: "at < length ?cs" "cl_ids (?cs ! at) = ids" using sig [of ids at] 4 by simp_all
    have mem: "?cs ! at \<in> set ?cs" using at(1) by simp
    have "clustering_ok ck cg'"
    proof -
      have "cl_ids (?cs[at := ?c] ! i) = cl_ids (?cs ! i)" if "i < length ?cs" for i
        using at(1) by (simp add: nth_list_update)
      then have "cg_signatures cg xs = Some i \<longleftrightarrow> i < length (?cs[at := ?c]) \<and> cl_ids (?cs[at := ?c] ! i) = xs \<and> AUTO_GROUP_SHARED_ID_THRESHOLD \<le> length xs" for xs i
        using sig [of xs i] by auto
      moreover have "strictly_sorted (cl_ids c) \<and> (\<forall>i \<in> set (cl_ids c). i < length ?ks')" if "c \<in> set (?cs[at := ?c])" for c
      proof -
        have "c = ?c \<or> c \<in> set ?cs" using that set_update_subset_insert by fastforce
        then show ?thesis using old(1,2) mem at(2) ids(1,2) by auto
      qed
      ultimately show ?thesis unfolding e clustering_ok_def using I(1) by simp
    qed
    moreover have "cluster_items cg' = map (add_names (entry_item ck e)) (cluster_items cg)"
    proof (rule nth_equalityI)
      fix i assume "i < length (cluster_items cg')"
      then have i: "i < length ?cs" by (simp add: e cluster_items_def)
      show "cluster_items cg' ! i = map (add_names (entry_item ck e)) (cluster_items cg) ! i"
      proof (cases "i = at")
        case True
        then show ?thesis unfolding items using i at(2) match [OF mem] ids(3)
          by (simp add: e cluster_items_def cluster_item_def add_names_def entry_item_def)
      next
        case False
        then have "cl_ids (?cs ! i) \<noteq> ids" using sig [of ids i] 4 i by auto
        then have "fst (cluster_item ?ks' (?cs ! i)) \<noteq> entry_keys ck e" using match [of "?cs ! i"] i by simp
        then have "add_names (entry_item ck e) (cluster_item ?ks' (?cs ! i)) = cluster_item ?ks' (?cs ! i)"
          by (simp add: add_names_def entry_item_def)
        then show ?thesis unfolding items using i False by (simp add: e cluster_items_def)
      qed
    qed (simp add: e cluster_items_def)
    moreover have "absorb (entry_item ck e) (cluster_items cg) = map (add_names (entry_item ck e)) (cluster_items cg)"
    proof (rule absorb_cases(1))
      have "entry_keys ck e = fst (cluster_item ?ks' (?cs ! at))" using match [OF mem] at(2) by simp
      then have "entry_keys ck e \<in> fst ` set (cluster_items cg)" unfolding items using mem by simp
      then show "AUTO_GROUP_SHARED_ID_THRESHOLD \<le> card (fst (entry_item ck e)) \<and>
          fst (entry_item ck e) \<in> fst ` set (cluster_items cg)"
        using card 4(1) by (simp add: entry_item_def)
    qed
    moreover have "entry_keys ck e \<noteq> {}" using 4 T ids(3) by auto
    ultimately show ?thesis by simp
  qed
qed

lemma cluster_entries_ok:
  "clustering_ok ck (cluster_entries ck entries) \<and> cluster_items (cluster_entries ck entries) =
     fold absorb (map (entry_item ck) (filter (\<lambda>e. entry_keys ck e \<noteq> {}) (map ((!) entries) (EntryOrder entries)))) []"
proof -
  define start where "start = \<lparr>cg_interner = \<lparr>in_raw = Map.empty, in_number = Map.empty, in_keys = []\<rparr>,
        cg_signatures = Map.empty, cg_clusters = []\<rparr>"
  have "clustering_ok ck (fold (\<lambda>i. cluster_entry ck (entries ! i)) is start) \<and>
      cluster_items (fold (\<lambda>i. cluster_entry ck (entries ! i)) is start) =
      fold absorb (map (entry_item ck) (filter (\<lambda>e. entry_keys ck e \<noteq> {}) (map ((!) entries) is))) []" for "is"
  proof (induction "is" rule: rev_induct)
    case Nil
    then show ?case by (simp add: start_def clustering_ok_def interner_ok_def cluster_items_def)
  next
    case (snoc i js)
    then show ?case using cluster_entry_ok [of ck "fold (\<lambda>i. cluster_entry ck (entries ! i)) js start" "entries ! i"] by simp
  qed
  then show ?thesis by (simp add: cluster_entries_def start_def)
qed

lemma build_postings_nth:
  assumes "\<forall>c \<in> set clusters. strictly_sorted (cl_ids c) \<and> (\<forall>x \<in> set (cl_ids c). x < keys)" "x < keys"
  shows "build_postings keys clusters ! x = filter (\<lambda>i. x \<in> set (cl_ids (clusters ! i))) [0..<length clusters]"
    "length (build_postings keys clusters) = keys"
proof -
  let ?f = "\<lambda>i. fold (\<lambda>x postings. postings[x := postings ! x @ [i]]) (cl_ids (clusters ! i))"
  have inner: "length (fold (\<lambda>x postings. postings[x := postings ! x @ [i]]) xs l) = length l \<and>
     fold (\<lambda>x postings. postings[x := postings ! x @ [i]]) xs l ! x = l ! x @ (if x \<in> set xs then [i] else [])"
    if "distinct xs" "x < length l" for xs l and i :: nat
    using that
  proof (induction xs arbitrary: l)
    case (Cons a xs)
    then show ?case by (cases "a = x") auto
  qed simp
  have "length (fold ?f [0..<k] (replicate keys [])) = keys \<and>
    fold ?f [0..<k] (replicate keys []) ! x = filter (\<lambda>i. x \<in> set (cl_ids (clusters ! i))) [0..<k]"
    if "k \<le> length clusters" for k
    using that
  proof (induction k)
    case (Suc k)
    then have "strictly_sorted (cl_ids (clusters ! k))" using assms(1) by simp
    then have "distinct (cl_ids (clusters ! k))" by (simp add: strictly_sorted_distinct)
    with Suc inner [of "cl_ids (clusters ! k)"] assms(2) show ?case by simp
  qed (use assms(2) in simp)
  then show "build_postings keys clusters ! x = filter (\<lambda>i. x \<in> set (cl_ids (clusters ! i))) [0..<length clusters]"
    "length (build_postings keys clusters) = keys" by (simp_all add: build_postings_def)
qed

lemma build_postings_length: "length (build_postings keys clusters) = keys"
proof -
  have inner: "length (fold (\<lambda>x postings. postings[x := postings ! x @ [i]]) xs l) = length l" for xs and l :: "nat list list" and i
    by (induction xs arbitrary: l) simp_all
  have "length (fold (\<lambda>i. fold (\<lambda>x postings. postings[x := postings ! x @ [i]]) (cl_ids (clusters ! i))) js l) = length l" for js l
    by (induction js arbitrary: l) (simp_all add: inner)
  then show ?thesis by (simp add: build_postings_def)
qed

lemma cluster_entries_indexed:
  fixes ck entries
  defines "cg \<equiv> cluster_entries ck entries"
  shows "indexed_ok (cg_clusters cg) (build_postings (length (in_keys (cg_interner cg))) (cg_clusters cg))"
proof -
  have "\<forall>c \<in> set (cg_clusters cg). strictly_sorted (cl_ids c) \<and> (\<forall>x \<in> set (cl_ids c). x < length (in_keys (cg_interner cg)))"
    using cluster_entries_ok [of ck entries] by (auto simp: clustering_ok_def cg_def)
  then show ?thesis using build_postings_nth(1) by (auto simp: indexed_ok_def build_postings_length)
qed

lemma AnalyzeIndexed_groups:
  "ia_exactGroups (AnalyzeIndexed visit entries ck) =
   exact_groups (map (\<lambda>G. concat (map snd G)) (first_fit item_strong (cluster_items (cluster_entries ck entries))))"
proof -
  define cg where "cg = cluster_entries ck entries"
  let ?cs = "cg_clusters cg" and ?ks = "in_keys (cg_interner cg)"
  have ok: "clustering_ok ck cg" using cluster_entries_ok [of ck entries] by (simp add: cg_def)
  define g where "g = CompleteIndexedGroups ?cs (build_postings (length ?ks) ?cs)"
  have cover: "g = cover (index_strong ?cs) (length ?cs)"
    unfolding g_def using cluster_entries_indexed [of ck entries] by (intro indexed_cover) (simp add: cg_def)
  have len: "length g = length ?cs" using cover_ok [of "index_strong ?cs" "length ?cs"] by (simp add: cover cover_inv_def)
  have "ia_exactGroups (AnalyzeIndexed visit entries ck) = exact_groups (names_by_group ?cs g)"
  proof (cases "g = []")
    case True
    with len have "?cs = []" by simp
    then show ?thesis
      by (simp add: AnalyzeIndexed_def Let_def cg_def [symmetric] g_def [symmetric] BuildAnalysis_def names_by_group_def split: prod.split)
  next
    case False
    then show ?thesis
      by (simp add: AnalyzeIndexed_def Let_def cg_def [symmetric] g_def [symmetric] BuildAnalysis_def split: prod.split)
  qed
  also have "\<dots> = exact_groups (map (\<lambda>G. concat (map snd G)) (first_fit item_strong (cluster_items cg)))"
  proof (unfold cover, rule exact_groups_first_fit)
    fix i j assume ij: "i < length ?cs" "j < length ?cs"
    have b: "strictly_sorted (cl_ids (?cs ! k))" "\<forall>x \<in> set (cl_ids (?cs ! k)). x < length ?ks" if "k < length ?cs" for k
      using ok nth_mem [OF that] unfolding clustering_ok_def by blast+
    have "distinct ?ks" using ok by (simp add: clustering_ok_def interner_ok_def)
    then have inj: "inj_on ((!) ?ks) {x. x < length ?ks}" by (auto simp: inj_on_def nth_eq_iff_index_eq)
    have "(!) ?ks ` set (cl_ids (?cs ! i)) \<inter> (!) ?ks ` set (cl_ids (?cs ! j)) = (!) ?ks ` (set (cl_ids (?cs ! i)) \<inter> set (cl_ids (?cs ! j)))"
      using b(2) [OF ij(1)] b(2) [OF ij(2)] by (intro inj_on_image_Int [OF inj, symmetric]) auto
    moreover have "card ((!) ?ks ` (set (cl_ids (?cs ! i)) \<inter> set (cl_ids (?cs ! j)))) = card (set (cl_ids (?cs ! i)) \<inter> set (cl_ids (?cs ! j)))"
      using b(2) [OF ij(1)] by (intro card_image inj_on_subset [OF inj]) auto
    ultimately show "index_strong ?cs i j = item_strong (cluster_items cg ! i) (cluster_items cg ! j)"
      using ij by (simp add: index_strong_def strong_def shared_def item_strong_def cluster_items_def cluster_item_def)
  qed (simp_all add: cluster_items_def cluster_item_def)
  finally show ?thesis by (simp add: cg_def)
qed

text \<open>
  Property C16. The indexed analysis puts together exactly the names the reference analysis does: for every
  list of entries and every canonical key (with no non-empty identifier that has an empty key), its exact
  groups are those of comparing all pairs with equality of keys, however the hash table of counts is
  visited, and also where the suggestions are capped. Compressing equal sets into one cluster, counting
  through the postings and skipping seeds with few popular identifiers lose nothing.
\<close>

theorem indexed_groups_are_reference_groups:
  assumes "keys_nonempty ck entries"
  shows "ia_exactGroups (AnalyzeIndexed visit entries ck) = ia_exactGroups (Analyze entries (Some (same_key ck)))"
  unfolding AnalyzeIndexed_groups Analyze_groups [OF assms] cluster_entries_ok [THEN conjunct2]
  by (rule compressed_names [symmetric])

subsection \<open>What the groups and the suggestions promise\<close>

text \<open>
  Property C17. The grouping loop of the indexed analysis computes first fit over the clusters: the groups
  its assignment stands for are those of putting each cluster, in order, into the first group all of whose
  members share at least five identifiers with it. So any two members of a group share five identifiers
  (each original set qualifies, not the growing union), and a cluster that is not in an earlier group was
  turned away by a member of that group.
\<close>

theorem indexed_cover_is_first_fit:
  "let cg = cluster_entries ck entries; clusters = cg_clusters cg; n = length clusters;
       g = CompleteIndexedGroups clusters (build_postings (length (in_keys (cg_interner cg))) clusters);
       groups = seeded_groups g n
   in length g = n \<and> groups = first_fit (index_strong clusters) [0..<n] \<and>
      list_all (clique (index_strong clusters)) groups \<and> turned_away (index_strong clusters) groups \<and>
      mset (concat groups) = mset [0..<n]"
proof -
  define cg where "cg = cluster_entries ck entries"
  let ?cs = "cg_clusters cg"
  define g where "g = CompleteIndexedGroups ?cs (build_postings (length (in_keys (cg_interner cg))) ?cs)"
  have g: "g = cover (index_strong ?cs) (length ?cs)"
    unfolding g_def using cluster_entries_indexed [of ck entries] by (intro indexed_cover) (simp add: cg_def)
  have "length g = length ?cs" using cover_ok [of "index_strong ?cs" "length ?cs"] by (simp add: g cover_inv_def)
  moreover have "seeded_groups g (length ?cs) = first_fit (index_strong ?cs) [0..<length ?cs]"
    by (simp only: g cover_first_fit)
  ultimately show ?thesis
    unfolding cg_def [symmetric] Let_def g_def [symmetric] by (simp add: first_fit_ok first_fit_mset)
qed

lemma UnionIds_loop:
  assumes "distinct (map (key_of ck) result)"
  shows "distinct (map (key_of ck) (fold (unique_ids (same_key ck)) sources result)) \<and>
    key_of ck ` set (fold (unique_ids (same_key ck)) sources result) =
      key_of ck ` (set result \<union> {x \<in> \<Union> (set ` set sources). x \<noteq> []})"
  using assms
proof (induction sources arbitrary: result)
  case (Cons xs sources)
  note U = unique_ids_keys [OF Cons.prems, of xs]
  from Cons.IH [OF U [THEN conjunct1]] U show ?case by (simp add: image_Un Un_assoc Collect_disj_eq conj_disj_distribR)
qed simp

lemma unique_ids_from: "set (unique_ids eqv xs result) \<subseteq> set result \<union> {x \<in> set xs. x \<noteq> []}"
proof (induction xs arbitrary: result)
  case (Cons x xs)
  show ?case using Cons [of result] Cons [of "result @ [x]"] by (auto simp: subset_iff)
qed simp

text \<open>
  The union of several lists of identifiers, with equality of canonical keys as the
  equivalence, has exactly one identifier for every key that occurs and takes each of them from the lists;
  without an equivalence it is empty.
\<close>

theorem union_ids_one_per_key:
  "let u = UnionIds sources (Some (same_key ck)) in
     distinct (map (key_of ck) u) \<and> key_of ck ` set u = key_of ck ` {x \<in> \<Union> (set ` set sources). x \<noteq> []} \<and>
     set u \<subseteq> {x \<in> \<Union> (set ` set sources). x \<noteq> []} \<and> UnionIds sources None = []"
proof -
  have "set (fold (unique_ids (same_key ck)) sources result) \<subseteq> set result \<union> {x \<in> \<Union> (set ` set sources). x \<noteq> []}" for result
  proof (induction sources arbitrary: result)
    case (Cons xs sources)
    show ?case using Cons [of "unique_ids (same_key ck) xs result"] unique_ids_from [of "same_key ck" xs result] by auto
  qed simp
  from this [of "[]"] UnionIds_loop [of ck "[]" sources] show ?thesis
    by (simp add: UnionIds_def Let_def)
qed

lemma fold_name_inj:
  "fold (\<lambda>ch. fnv_mix (ucast (ch :: wchar))) s h = fold (\<lambda>ch. fnv_mix (ucast ch)) s h' \<longleftrightarrow> h = h'"
  by (induction s arbitrary: h h') (simp_all add: fnv_mix_inj)

lemma fold_ids_inj:
  "fold (\<lambda>x h. fnv_mix 0x1E (fold (\<lambda>ch. fnv_mix (ucast (ch :: wchar))) x h)) xs h =
   fold (\<lambda>x h. fnv_mix 0x1E (fold (\<lambda>ch. fnv_mix (ucast ch)) x h)) xs h' \<longleftrightarrow> h = h'"
  by (induction xs arbitrary: h h') (simp_all add: fnv_mix_inj fold_name_inj)

lemma fold_entry_inj: "fold entry_hash es h = fold entry_hash es h' \<longleftrightarrow> h = h'"
  by (induction es arbitrary: h h') (simp_all add: entry_hash_def fnv_mix_inj fold_name_inj fold_ids_inj)

text \<open>
  The fingerprint of a list of entries, which decides whether an analysis is stale, notices
  the change of any single code unit: of a name or of an identifier, in any entry at any position.
\<close>

theorem fingerprint_detects_unit_change:
  "(ComputeAliasEntriesFingerprint (pre @ \<lparr>ae_name = p @ a # q, ae_ids = ids\<rparr> # post) =
    ComputeAliasEntriesFingerprint (pre @ \<lparr>ae_name = p @ b # q, ae_ids = ids\<rparr> # post) \<longleftrightarrow> a = b) \<and>
   (ComputeAliasEntriesFingerprint (pre @ \<lparr>ae_name = n, ae_ids = xs @ (p @ a # q) # ys\<rparr> # post) =
    ComputeAliasEntriesFingerprint (pre @ \<lparr>ae_name = n, ae_ids = xs @ (p @ b # q) # ys\<rparr> # post) \<longleftrightarrow> a = b)"
  by (simp add: ComputeAliasEntriesFingerprint_def fold_entry_inj entry_hash_def fold_ids_inj fold_name_inj fnv_mix_inj ucast_u64_inj)

subsection \<open>The counted overlaps\<close>

definition omitted :: "pair_counting \<Rightarrow> nat \<Rightarrow> bool" where
  "omitted pc x \<longleftrightarrow> pc_omitted pc ! x"

definition pair_count :: "pair_counting \<Rightarrow> nat \<times> nat \<Rightarrow> nat" where
  "pair_count pc p = (case map_of (pc_counts pc) p of None \<Rightarrow> 0 | Some c \<Rightarrow> c)"

lemma count_pair_fold:
  "(case map_of (fold count_pair ps counts) q of None \<Rightarrow> 0 | Some c \<Rightarrow> c) =
     (case map_of counts q of None \<Rightarrow> 0 | Some c \<Rightarrow> c) + count_list ps q"
  "distinct (map fst counts) \<Longrightarrow> distinct (map fst (fold count_pair ps counts))"
  "fst ` set (fold count_pair ps counts) = fst ` set counts \<union> set ps"
  by (induction ps arbitrary: counts) (auto simp: count_pair_def update_conv' distinct_update dom_update)

lemma index_pairs: "distinct (concat (map (\<lambda>i. map (Pair i) [Suc i..<n]) js))" if "distinct js" for js :: "nat list"
  using that by (induction js) (auto simp: distinct_map inj_on_def)

lemma bucket_pairs_set:
  assumes "sorted_wrt (<) bucket"
  shows "distinct (bucket_pairs bucket)" "set (bucket_pairs bucket) = {(i, j). i \<in> set bucket \<and> j \<in> set bucket \<and> i < j}"
proof -
  let ?n = "length bucket"
  have lt: "bucket ! i < bucket ! j \<longleftrightarrow> i < j" if "i < ?n" "j < ?n" for i j
    using that sorted_wrt_nth_less [OF assms] by (metis less_asym linorder_neqE_nat less_irrefl)
  have d: "distinct bucket" using assms by (simp add: strict_sorted_iff)
  have eq: "bucket_pairs bucket = map (\<lambda>(i, j). (bucket ! i, bucket ! j)) (concat (map (\<lambda>i. map (Pair i) [Suc i..<?n]) [0..<?n]))"
    by (simp add: bucket_pairs_def map_concat comp_def)
  have "inj_on (\<lambda>(i, j). (bucket ! i, bucket ! j)) (set (concat (map (\<lambda>i. map (Pair i) [Suc i..<?n]) [0..<?n])))"
    using d by (auto simp: inj_on_def nth_eq_iff_index_eq)
  then show "distinct (bucket_pairs bucket)" unfolding eq distinct_map using index_pairs [OF distinct_upt] by blast
  show "set (bucket_pairs bucket) = {(i, j). i \<in> set bucket \<and> j \<in> set bucket \<and> i < j}"
  proof (intro set_eqI iffI)
    fix q assume "q \<in> set (bucket_pairs bucket)"
    then show "q \<in> {(i, j). i \<in> set bucket \<and> j \<in> set bucket \<and> i < j}" using lt by (auto simp: bucket_pairs_def)
  next
    fix q assume "q \<in> {(i, j). i \<in> set bucket \<and> j \<in> set bucket \<and> i < j}"
    then obtain a b where q: "q = (bucket ! a, bucket ! b)" "a < ?n" "b < ?n" "a < b"
      using lt by (auto simp: in_set_conv_nth)
    then show "q \<in> set (bucket_pairs bucket)" by (force simp: bucket_pairs_def)
  qed
qed

lemma count_positive: "\<forall>kv \<in> set counts. 0 < snd kv \<Longrightarrow> \<forall>kv \<in> set (fold count_pair ps counts). 0 < snd kv"
proof (induction ps arbitrary: counts)
  case (Cons q ps)
  have "set (AList.update k v l) \<subseteq> insert (k, v) (set l)" for k :: "nat \<times> nat" and v :: nat and l
    by (induction l) auto
  then have "\<forall>kv \<in> set (count_pair q counts). 0 < snd kv" using Cons.prems by (fastforce simp: count_pair_def)
  with Cons.IH show ?case by simp
qed simp

text \<open>After the buckets of \<open>seen\<close> a pair has been counted once for every shared identifier not omitted.\<close>

definition counting_ok :: "alias_cluster list \<Rightarrow> nat \<Rightarrow> nat set \<Rightarrow> pair_counting \<Rightarrow> bool" where
  "counting_ok clusters k seen pc \<longleftrightarrow>
     distinct (map fst (pc_counts pc)) \<and> (\<forall>kv \<in> set (pc_counts pc). 0 < snd kv) \<and>
     fst ` set (pc_counts pc) \<subseteq> {(i, j). i < j \<and> j < length clusters} \<and>
     length (pc_incomplete pc) = length clusters \<and> length (pc_omitted pc) = k \<and>
     (\<forall>x < k. x \<notin> seen \<longrightarrow> \<not> omitted pc x) \<and>
     (\<forall>i j. i < j \<and> j < length clusters \<longrightarrow> pair_count pc (i, j) =
        card {x \<in> seen. x \<in> set (cl_ids (clusters ! i)) \<inter> set (cl_ids (clusters ! j)) \<and> \<not> omitted pc x}) \<and>
     (\<forall>x \<in> seen. omitted pc x \<longrightarrow> (\<forall>i < length clusters. x \<in> set (cl_ids (clusters ! i)) \<longrightarrow> pc_incomplete pc ! i))"

lemma fold_mark:
  "length (fold (\<lambda>m inc. inc[m := True]) ms inc) = length inc"
  "i < length inc \<Longrightarrow> fold (\<lambda>m inc. inc[m := True]) ms inc ! i \<longleftrightarrow> i \<in> set ms \<or> inc ! i"
proof (induction ms arbitrary: inc)
  case (Cons m ms)
  case 1
  show ?case using Cons(1) by simp
  case 2
  then show ?case using Cons(2) [of "inc[m := True]"] by (cases "m = i") auto
qed simp_all

lemma count_bucket_ok:
  assumes inv: "counting_ok clusters (length postings) seen pc" and ok: "indexed_ok clusters postings"
    and x: "x < length postings" "x \<notin> seen" and fin: "finite seen"
  shows "counting_ok clusters (length postings) (insert x seen) (count_bucket postings x pc)"
proof -
  let ?b = "postings ! x" and ?n = "length clusters"
  let ?both = "\<lambda>i j y. y \<in> set (cl_ids (clusters ! i)) \<inter> set (cl_ids (clusters ! j))"
  have b: "?b = filter (\<lambda>i. x \<in> set (cl_ids (clusters ! i))) [0..<?n]" by (rule indexed_okD(3) [OF ok x(1)])
  then have sorted: "sorted_wrt (<) ?b" and mem: "\<And>i. i \<in> set ?b \<longleftrightarrow> i < ?n \<and> x \<in> set (cl_ids (clusters ! i))"
    by (simp_all add: sorted_wrt_filter)
  have fresh: "\<not> omitted pc x" using inv x by (simp add: counting_ok_def)
  have cnt: "pair_count pc (i, j) = card {y \<in> seen. ?both i j y \<and> \<not> omitted pc y}" if "i < j" "j < ?n" for i j
    using inv that by (simp add: counting_ok_def)
  have grow: "card {y \<in> insert x seen. ?both i j y \<and> \<not> omitted pc y} = card {y \<in> seen. ?both i j y \<and> \<not> omitted pc y} + (if ?both i j x then 1 else 0)" for i j
  proof (cases "?both i j x")
    case True
    then have "{y \<in> insert x seen. ?both i j y \<and> \<not> omitted pc y} = insert x {y \<in> seen. ?both i j y \<and> \<not> omitted pc y}"
      using fresh by auto
    then show ?thesis using True fin x(2) by simp
  next
    case False
    then have "{y \<in> insert x seen. ?both i j y \<and> \<not> omitted pc y} = {y \<in> seen. ?both i j y \<and> \<not> omitted pc y}" by auto
    then show ?thesis using False by simp
  qed
  consider "length ?b < 2" | "\<not> length ?b < 2" "length ?b > MAX_INDEX_BUCKET_SETS \<or> (if length ?b > MAX_INDEX_BUCKET_SETS then 0 else length ?b * (length ?b - 1) div 2) > pc_remaining pc"
    | "\<not> length ?b < 2" "\<not> (length ?b > MAX_INDEX_BUCKET_SETS \<or> (if length ?b > MAX_INDEX_BUCKET_SETS then 0 else length ?b * (length ?b - 1) div 2) > pc_remaining pc)"
    by blast
  then show ?thesis
  proof cases
    case 1
    have no: "\<not> ?both i j x" if "i < j" "j < ?n" for i j
    proof
      assume "?both i j x"
      then have "{i, j} \<subseteq> set ?b" using that mem by auto
      then have "card {i, j} \<le> card (set ?b)" by (intro card_mono) simp_all
      then show False using 1 that card_length [of ?b] by simp
    qed
    have "count_bucket postings x pc = pc" using 1 by (simp add: count_bucket_def Let_def)
    moreover have "counting_ok clusters (length postings) (insert x seen) pc"
    proof -
      have "pair_count pc (i, j) = card {y \<in> insert x seen. ?both i j y \<and> \<not> omitted pc y}" if "i < j" "j < ?n" for i j
        unfolding grow using cnt [OF that] no [OF that] by simp
      then show ?thesis using inv fresh unfolding counting_ok_def by simp
    qed
    ultimately show ?thesis by simp
  next
    case 2
    let ?pc = "pc\<lparr>pc_omitted := (pc_omitted pc)[x := True], pc_capped := True,
                pc_incomplete := fold (\<lambda>m inc. inc[m := True]) ?b (pc_incomplete pc)\<rparr>"
    have e: "count_bucket postings x pc = ?pc" using 2 by (simp add: count_bucket_def Let_def)
    have lens: "length (pc_omitted pc) = length postings" "length (pc_incomplete pc) = ?n" using inv by (simp_all add: counting_ok_def)
    have om: "omitted ?pc y \<longleftrightarrow> y = x \<or> omitted pc y" for y
      using lens x(1) by (cases "y = x") (simp_all add: omitted_def)
    have "{y \<in> insert x seen. ?both i j y \<and> \<not> omitted ?pc y} = {y \<in> seen. ?both i j y \<and> \<not> omitted pc y}" for i j
      using om x(2) by auto
    then have c: "pair_count ?pc (i, j) = card {y \<in> insert x seen. ?both i j y \<and> \<not> omitted ?pc y}" if "i < j" "j < ?n" for i j
      using cnt [OF that] by (simp add: pair_count_def)
    have inc: "pc_incomplete ?pc ! i" if "y \<in> insert x seen" "omitted ?pc y" "i < ?n" "y \<in> set (cl_ids (clusters ! i))" for y i
      using that inv om mem fold_mark(2) [of i "pc_incomplete pc" ?b] lens x(2) by (auto simp: counting_ok_def)
    show ?thesis unfolding e counting_ok_def
      using inv om c inc lens by (simp add: counting_ok_def fold_mark(1))
  next
    case 3
    let ?pc = "pc\<lparr>pc_remaining := pc_remaining pc - (if length ?b > MAX_INDEX_BUCKET_SETS then 0 else length ?b * (length ?b - 1) div 2),
                pc_counts := fold count_pair (bucket_pairs ?b) (pc_counts pc)\<rparr>"
    have e: "count_bucket postings x pc = ?pc" using 3 by (auto simp: count_bucket_def Let_def)
    have om: "omitted ?pc y \<longleftrightarrow> omitted pc y" for y by (simp add: omitted_def)
    have c: "pair_count ?pc (i, j) = card {y \<in> insert x seen. ?both i j y \<and> \<not> omitted ?pc y}" if "i < j" "j < ?n" for i j
    proof -
      have "count_list (bucket_pairs ?b) (i, j) = (if ?both i j x then 1 else 0)"
        using count_list_distinct [OF bucket_pairs_set(1) [OF sorted]] bucket_pairs_set(2) [OF sorted] that mem by auto
      moreover have "pair_count ?pc (i, j) = pair_count pc (i, j) + count_list (bucket_pairs ?b) (i, j)"
        by (simp add: pair_count_def count_pair_fold(1))
      ultimately show ?thesis unfolding om grow using cnt [OF that] by simp
    qed
    have keys: "fst ` set (pc_counts ?pc) \<subseteq> {(i, j). i < j \<and> j < ?n}"
      using inv bucket_pairs_set(2) [OF sorted] mem by (auto simp: counting_ok_def count_pair_fold(3))
    show ?thesis unfolding e counting_ok_def
      using inv om c keys count_pair_fold(2) [of "pc_counts pc"] count_positive [of "pc_counts pc"] x(2) fresh
      by (simp add: counting_ok_def)
  qed
qed

lemma count_pairs_ok:
  assumes ok: "indexed_ok clusters postings" and len: "length keys = length postings"
  shows "counting_ok clusters (length postings) {..<length postings} (count_pairs keys clusters postings)"
proof -
  define start where "start = \<lparr>pc_omitted = replicate (length keys) False, pc_incomplete = replicate (length clusters) False,
        pc_counts = [], pc_remaining = MAX_INDEX_PAIR_UPDATES, pc_capped = False\<rparr>"
  have "counting_ok clusters (length postings) (set xs) (fold (count_bucket postings) xs start)"
    if "distinct xs" "set xs \<subseteq> {..<length postings}" for xs
    using that
  proof (induction xs rule: rev_induct)
    case Nil
    then show ?case using len by (simp add: start_def counting_ok_def omitted_def pair_count_def)
  next
    case (snoc x xs)
    then show ?case using count_bucket_ok [OF _ ok, of "set xs" _ x] by simp
  qed
  from this [of "sort_key (\<lambda>x. (length (postings ! x), keys ! x)) [0..<length keys]"] show ?thesis
    using len by (simp add: count_pairs_def start_def atLeast0LessThan)
qed

text \<open>
  Property C18. What the counts of the suggestions mean, with any visiting order of the hash table: every
  row of overlaps names two clusters in order with a positive count that never exceeds the number of
  identifiers they share, and unless the row is marked as a lower bound the count is that number exactly.
\<close>

theorem overlap_counts_are_bounds:
  fixes entries :: "alias_entry list" and ck :: "(wstr \<Rightarrow> wstr) option"
  assumes "\<And>l. set (visit l) = set l"
  defines "cg \<equiv> cluster_entries ck entries"
  defines "clusters \<equiv> cg_clusters cg"
  defines "postings \<equiv> build_postings (length (in_keys (cg_interner cg))) clusters"
  shows "list_all (\<lambda>p. po_left p < po_right p \<and> po_right p < length clusters \<and> 0 < po_common p \<and>
      po_common p \<le> shared (clusters ! po_left p) (clusters ! po_right p) \<and>
      (po_lowerBound p \<or> po_common p = shared (clusters ! po_left p) (clusters ! po_right p)))
    (indexed_overlaps visit (count_pairs (in_keys (cg_interner cg)) clusters postings))"
proof -
  let ?pc = "count_pairs (in_keys (cg_interner cg)) clusters postings"
  have ok: "indexed_ok clusters postings" using cluster_entries_indexed [of ck entries] by (simp add: clusters_def postings_def cg_def)
  have inv: "counting_ok clusters (length postings) {..<length postings} ?pc"
    by (rule count_pairs_ok [OF ok]) (simp add: postings_def build_postings_length)
  have row: "i < j \<and> j < length clusters \<and> 0 < n \<and> n \<le> shared (clusters ! i) (clusters ! j) \<and>
      ((pc_incomplete ?pc ! i \<and> pc_incomplete ?pc ! j) \<or> n = shared (clusters ! i) (clusters ! j))"
    if "((i, j), n) \<in> set (pc_counts ?pc)" for i j n
  proof -
    have d: "distinct (map fst (pc_counts ?pc))" using inv by (simp add: counting_ok_def)
    have "(i, j) \<in> fst ` set (pc_counts ?pc)" using that by force
    then have ij: "i < j" "j < length clusters" "0 < n" using inv that unfolding counting_ok_def by auto
    let ?both = "set (cl_ids (clusters ! i)) \<inter> set (cl_ids (clusters ! j))"
    have "pair_count ?pc (i, j) = n" using d that by (simp add: pair_count_def)
    moreover have "pair_count ?pc (i, j) = card {x \<in> {..<length postings}. x \<in> ?both \<and> \<not> omitted ?pc x}"
      using inv ij unfolding counting_ok_def by blast
    moreover have "{x \<in> {..<length postings}. x \<in> ?both \<and> \<not> omitted ?pc x} = {x \<in> ?both. \<not> omitted ?pc x}"
      using indexed_okD(2) [OF ok ij(2)] by auto
    ultimately have n: "n = card {x \<in> ?both. \<not> omitted ?pc x}" by simp
    then have "n \<le> card ?both" unfolding n by (intro card_mono) auto
    moreover have "n = card ?both" if "\<not> (pc_incomplete ?pc ! i \<and> pc_incomplete ?pc ! j)"
    proof -
      have "\<not> omitted ?pc x" if "x \<in> ?both" for x
      proof
        assume "omitted ?pc x"
        moreover have "x \<in> {..<length postings}" using indexed_okD(2) [OF ok ij(2)] that by auto
        ultimately have "pc_incomplete ?pc ! i" "pc_incomplete ?pc ! j"
          using inv that ij unfolding counting_ok_def by (meson IntD1 IntD2 less_trans)+
        then show False using \<open>\<not> (pc_incomplete ?pc ! i \<and> pc_incomplete ?pc ! j)\<close> by simp
      qed
      then have "{x \<in> ?both. \<not> omitted ?pc x} = ?both" by blast
      then show ?thesis using n by simp
    qed
    ultimately show ?thesis using ij by (auto simp: shared_def)
  qed
  show ?thesis unfolding list_all_iff
  proof
    fix p assume "p \<in> set (indexed_overlaps visit ?pc)"
    then obtain i j n where r: "((i, j), n) \<in> set (pc_counts ?pc)"
      and p: "p = \<lparr>po_left = i, po_right = j, po_common = n, po_lowerBound = pc_incomplete ?pc ! i \<and> pc_incomplete ?pc ! j\<rparr>"
      using assms(1) by (auto simp: indexed_overlaps_def)
    show "po_left p < po_right p \<and> po_right p < length clusters \<and> 0 < po_common p \<and>
      po_common p \<le> shared (clusters ! po_left p) (clusters ! po_right p) \<and>
      (po_lowerBound p \<or> po_common p = shared (clusters ! po_left p) (clusters ! po_right p))"
      using row [OF r] unfolding p by simp
  qed
qed

definition demo_entries :: "alias_entry list" where
  "demo_entries = [\<lparr>ae_name = [98], ae_ids = [[1], [2], [3], [4], [5], [6]]\<rparr>, \<lparr>ae_name = [97], ae_ids = [[6], [1], [2], [3]]\<rparr>,
     \<lparr>ae_name = [99], ae_ids = [[1], [2], [3], [4], [5], [6]]\<rparr>]"

theorem overlap_counts_are_bounds_witness:
  "let cg = cluster_entries None demo_entries; clusters = cg_clusters cg; keys = in_keys (cg_interner cg) in
   list_all (\<lambda>p. po_left p < po_right p \<and> po_right p < length clusters \<and> 0 < po_common p \<and>
      po_common p \<le> shared (clusters ! po_left p) (clusters ! po_right p) \<and>
      (po_lowerBound p \<or> po_common p = shared (clusters ! po_left p) (clusters ! po_right p)))
    (indexed_overlaps rev (count_pairs keys clusters (build_postings (length keys) clusters)))"
  unfolding Let_def by (rule overlap_counts_are_bounds) simp

theorem indexed_groups_are_reference_groups_witness:
  "ia_exactGroups (AnalyzeIndexed rev demo_entries None) = ia_exactGroups (Analyze demo_entries (Some (same_key None)))"
  by (rule indexed_groups_are_reference_groups) (simp add: keys_nonempty_def demo_entries_def key_of_def)

subsection \<open>Independence of orders\<close>

lemma sort_key_perm:
  assumes "mset xs = mset ys" "distinct (map f xs)"
  shows "sort_key f xs = sort_key f ys"
  using assms by (intro sort_key_inj_key_eq) (auto simp: distinct_map)

lemma EntryOrder_perm:
  assumes "mset entries = mset entries'"
  shows "map ((!) entries) (EntryOrder entries) = map ((!) entries') (EntryOrder entries')"
proof -
  have "map ((!) es) (EntryOrder es) = sort es" for es :: "alias_entry list"
  proof (rule properties_for_sort [symmetric])
    have "mset (map ((!) es) (EntryOrder es)) = mset (map ((!) es) [0..<length es])" by (simp add: EntryOrder_def)
    then show "mset (map ((!) es) (EntryOrder es)) = mset es" by (simp only: map_nth)
  qed (simp add: EntryOrder_def)
  moreover have "sort entries = sort entries'" using assms by (intro properties_for_sort) simp_all
  ultimately show ?thesis by simp
qed

lemma cluster_entries_perm:
  assumes "mset entries = mset entries'"
  shows "cluster_entries ck entries = cluster_entries ck entries'"
proof -
  have "cluster_entries ck es = fold (cluster_entry ck) (map ((!) es) (EntryOrder es))
       \<lparr>cg_interner = \<lparr>in_raw = Map.empty, in_number = Map.empty, in_keys = []\<rparr>,
        cg_signatures = Map.empty, cg_clusters = []\<rparr>" for es
    by (simp add: cluster_entries_def fold_map comp_def)
  then show ?thesis using EntryOrder_perm [OF assms] by simp
qed

lemma BuildAnalysis_perm:
  assumes "mset ov = mset ov'" "distinct (map (\<lambda>p. (po_left p, po_right p)) ov)"
  shows "BuildAnalysis clusters ov limit g = BuildAnalysis clusters ov' limit g"
  unfolding BuildAnalysis_def sort_key_perm [OF assms] ..

text \<open>
  The indexed analysis depends on the entries only as a collection, and not at all on the order
  in which the hash table of counts is visited: any permutation of the entries and any two visiting orders
  give the same groups, identifiers, suggestions, weak evidence and truncation mark.
\<close>

theorem analysis_order_independent:
  assumes "mset entries = mset entries'" "\<And>l. mset (visit l) = mset l" "\<And>l. mset (visit' l) = mset l"
  shows "AnalyzeIndexed visit entries ck = AnalyzeIndexed visit' entries' ck"
proof -
  define cg where "cg = cluster_entries ck entries"
  let ?keys = "in_keys (cg_interner cg)" and ?cs = "cg_clusters cg"
  let ?po = "build_postings (length ?keys) ?cs"
  let ?pc = "count_pairs ?keys ?cs ?po"
  have "counting_ok ?cs (length ?po) {..<length ?po} ?pc"
    using cluster_entries_indexed [of ck entries]
    by (intro count_pairs_ok) (simp_all add: cg_def build_postings_length)
  then have "distinct (map fst (pc_counts ?pc))" by (simp add: counting_ok_def)
  then have "distinct (map fst (visit (pc_counts ?pc)))"
    using mset_eq_imp_distinct_iff [of "map fst (visit (pc_counts ?pc))" "map fst (pc_counts ?pc)"] assms(2) by simp
  moreover have "map (\<lambda>p. (po_left p, po_right p)) (indexed_overlaps visit ?pc) = map fst (visit (pc_counts ?pc))"
    by (auto simp: indexed_overlaps_def)
  moreover have "mset (indexed_overlaps visit ?pc) = mset (indexed_overlaps visit' ?pc)"
    using assms(2,3) by (simp add: indexed_overlaps_def)
  ultimately have "BuildAnalysis ?cs (indexed_overlaps visit ?pc) l g = BuildAnalysis ?cs (indexed_overlaps visit' ?pc) l g" for l g
    by (intro BuildAnalysis_perm) simp_all
  then show ?thesis
    unfolding AnalyzeIndexed_def cluster_entries_perm [OF assms(1), symmetric] cg_def [symmetric] Let_def by simp
qed

theorem analysis_order_independent_witness:
  "AnalyzeIndexed id demo_entries None = AnalyzeIndexed rev (rev demo_entries) None"
  by (rule analysis_order_independent) simp_all

end
