(* ===== verification/LibraryText.thy ===== *)
theory LibraryText
  imports Json Utf8 Fnv Loops
begin

text \<open>
  The texts of the player library (\<^verbatim>\<open>PlayerLibraryModel.cpp\<close>): trimming, canonical keys of game
  identifiers, the list syntax of identifiers, and the legacy file format with its round trip. \<open>None\<close> is a
  thrown exception; the text converters and the space class of Windows are parameters.
\<close>

record library_env =
  le_space :: "wchar \<Rightarrow> bool"
  le_to_utf8 :: "wstr \<Rightarrow> bytes option"
  le_from_utf8 :: "bytes \<Rightarrow> wstr option"

definition INT_MAX :: nat where "INT_MAX = 2147483647"

definition Trim :: "library_env \<Rightarrow> wstr \<Rightarrow> wstr" where
  "Trim env s = trim_by (le_space env) s"

text \<open>The text up to the first sharp sign, half or full width, and the text after it.\<close>

definition is_sharp :: "wchar \<Rightarrow> bool" where "is_sharp c \<longleftrightarrow> c = 0x23 \<or> c = 0xFF03"

definition CanonicalKey :: "library_env \<Rightarrow> wstr \<Rightarrow> wstr" where
  "CanonicalKey env s =
     (let raw = Trim env s in
      if raw = [] then raw
      else
        let body = Trim env (takeWhile (\<lambda>c. \<not> is_sharp c) raw);
            rest = dropWhile (\<lambda>c. \<not> is_sharp c) raw in
        if body = [] then raw
        else
          let job = (if rest = [] then [] else Trim env (tl rest)) in
          body @ [0x1F] @ job)"

definition ToUtf8 :: "library_env \<Rightarrow> wstr \<Rightarrow> bytes option" where
  "ToUtf8 env s = (if s = [] then Some [] else if length s > INT_MAX then None else le_to_utf8 env s)"

definition FromUtf8 :: "library_env \<Rightarrow> bytes \<Rightarrow> wstr option" where
  "FromUtf8 env s = (if s = [] then Some [] else if length s > INT_MAX then None else le_from_utf8 env s)"

definition id_delimiter :: "wchar \<Rightarrow> bool" where
  "id_delimiter c \<longleftrightarrow> c \<in> {0x28, 0x29, 0xFF08, 0xFF09, 0x20, 0x09, 0x0D, 0x0A}"

function ParseIds :: "wstr \<Rightarrow> wstr list" where
  "ParseIds s =
     (case dropWhile id_delimiter s of
        [] \<Rightarrow> []
      | c # t \<Rightarrow> (c # takeWhile (\<lambda>c. \<not> id_delimiter c) t) # ParseIds (dropWhile (\<lambda>c. \<not> id_delimiter c) t))"
  by auto
termination
proof (relation "measure length", goal_cases)
  case (2 s c t)
  have "length (c # t) \<le> length s" using length_dropWhile_le [of id_delimiter s] 2 by simp
  moreover have "length (dropWhile (\<lambda>c. \<not> id_delimiter c) t) \<le> length t" by (rule length_dropWhile_le)
  ultimately show ?case by simp
qed simp

declare ParseIds.simps [simp del]

fun format_ids :: "library_env \<Rightarrow> wstr list \<Rightarrow> wstr set \<Rightarrow> wstr" where
  "format_ids env [] seen = []"
| "format_ids env (x # xs) seen =
     (if Trim env x \<noteq> [] \<and> CanonicalKey env x \<notin> seen
      then [0x28] @ Trim env x @ [0x29] @ format_ids env xs (insert (CanonicalKey env x) seen)
      else format_ids env xs seen)"

definition FormatIds :: "library_env \<Rightarrow> wstr list \<Rightarrow> wstr" where
  "FormatIds env ids = format_ids env ids {}"

text \<open>A \<^verbatim>\<open>std::getline\<close> loop: the segments between line feeds; nothing after a final line feed.\<close>

function getlines :: "wstr \<Rightarrow> wstr list" where
  "getlines s =
     (if s = [] then []
      else takeWhile (\<lambda>c. c \<noteq> 0x0A) s # getlines (tl (dropWhile (\<lambda>c. c \<noteq> 0x0A) s)))"
  by auto
termination
proof (relation "measure length", goal_cases)
  case (2 s)
  have "length (tl (dropWhile (\<lambda>c. c \<noteq> 0x0A) s)) \<le> length s - 1"
    using length_dropWhile_le [of "\<lambda>c. c \<noteq> 0x0A" s] by simp
  with 2 show ?case by (cases s) auto
qed simp

declare getlines.simps [simp del]

type_synonym legacy_library = "(wstr \<times> wstr list) list"

definition legacy_add :: "wstr \<Rightarrow> wstr list \<Rightarrow> legacy_library \<Rightarrow> legacy_library" where
  "legacy_add name ids library =
     insert_key name (fold (\<lambda>x values. if x \<in> set values then values else values @ [x]) ids
       (case map_of library name of None \<Rightarrow> [] | Some values \<Rightarrow> values)) library"

definition legacy_line :: "library_env \<Rightarrow> wstr \<Rightarrow> legacy_library \<Rightarrow> legacy_library option" where
  "legacy_line env line library =
     (let line = Trim env (filter (\<lambda>c. c \<noteq> 0x0D) line) in
      if line = [] then Some library
      else if 0x3D \<notin> set line then
        (if hd line = 0x3B \<or> hd line = 0x5B then Some library else None)
      else
        let name = Trim env (takeWhile (\<lambda>c. c \<noteq> 0x3D) line) in
        if name = [] then None
        else Some (legacy_add name (ParseIds (tl (dropWhile (\<lambda>c. c \<noteq> 0x3D) line))) library))"

definition ParseLegacy :: "library_env \<Rightarrow> bytes \<Rightarrow> legacy_library option" where
  "ParseLegacy env utf8 = do {
     content \<leftarrow> FromUtf8 env utf8;
     let content = (if content \<noteq> [] \<and> hd content = 0xFEFF then tl content else content);
     fold_opt (legacy_line env) (getlines content) [] }"

definition legacy_text :: "library_env \<Rightarrow> legacy_library \<Rightarrow> wstr" where
  "legacy_text env library = concat (map (\<lambda>(name, ids). name @ [0x3D] @ FormatIds env ids @ [0x0D, 0x0A]) library)"

definition SerializeLegacy :: "library_env \<Rightarrow> legacy_library \<Rightarrow> bytes option" where
  "SerializeLegacy env library = ToUtf8 env (legacy_text env library)"

subsection \<open>The list syntax of identifiers\<close>

definition clean_id :: "library_env \<Rightarrow> wstr \<Rightarrow> bool" where
  "clean_id env x \<longleftrightarrow> x \<noteq> [] \<and> Trim env x = x \<and> list_all (\<lambda>c. \<not> id_delimiter c) x"

lemma ParseIds_group:
  assumes "x \<noteq> []" "list_all (\<lambda>c. \<not> id_delimiter c) x"
  shows "ParseIds (0x28 # x @ 0x29 # t) = x # ParseIds (0x29 # t)"
proof -
  obtain c y where x: "x = c # y" using assms(1) by (cases x) auto
  have d: "id_delimiter 0x28" "id_delimiter 0x29" by (simp_all add: id_delimiter_def)
  have y: "\<forall>c \<in> set y. \<not> id_delimiter c" "\<not> id_delimiter c" using assms(2) x by (auto simp: list_all_iff)
  have "dropWhile id_delimiter (0x28 # x @ 0x29 # t) = c # y @ 0x29 # t" using x y d by simp
  moreover have "takeWhile (\<lambda>c. \<not> id_delimiter c) (y @ 0x29 # t) = y" "dropWhile (\<lambda>c. \<not> id_delimiter c) (y @ 0x29 # t) = 0x29 # t"
    using y(1) d(2) by (simp_all add: takeWhile_append2 dropWhile_append2)
  ultimately show ?thesis by (subst ParseIds.simps) (simp add: x)
qed

lemma ParseIds_skip: "id_delimiter c \<Longrightarrow> ParseIds (c # t) = ParseIds t"
  by (subst (1 2) ParseIds.simps) simp

lemma ParseIds_Nil [simp]: "ParseIds [] = []" by (subst ParseIds.simps) simp

lemma ParseIds_format:
  assumes "list_all (clean_id env) ids" "distinct (map (CanonicalKey env) ids)" "\<forall>x \<in> set ids. CanonicalKey env x \<notin> seen"
  shows "ParseIds (format_ids env ids seen) = ids \<and> ParseIds (0x29 # format_ids env ids seen) = ids"
  using assms
proof (induction ids arbitrary: seen)
  case Nil
  then show ?case by (simp add: ParseIds_skip id_delimiter_def)
next
  case (Cons x xs)
  have x: "x \<noteq> []" "Trim env x = x" "list_all (\<lambda>c. \<not> id_delimiter c) x" using Cons.prems(1) by (simp_all add: clean_id_def)
  have f: "format_ids env (x # xs) seen = 0x28 # x @ 0x29 # format_ids env xs (insert (CanonicalKey env x) seen)"
    using Cons.prems(3) x by simp
  have "ParseIds (0x29 # format_ids env xs (insert (CanonicalKey env x) seen)) = xs"
  proof (rule Cons.IH [THEN conjunct2])
    have "CanonicalKey env y \<noteq> CanonicalKey env x" if "y \<in> set xs" for y
      using Cons.prems(2) imageI [OF that, of "CanonicalKey env"] by auto
    then show "\<forall>y \<in> set xs. CanonicalKey env y \<notin> insert (CanonicalKey env x) seen" using Cons.prems(3) by simp
  qed (use Cons.prems in simp_all)
  then show ?case unfolding f using ParseIds_group [OF x(1,3)] by (simp add: ParseIds_skip id_delimiter_def)
qed

subsection \<open>The legacy file\<close>

definition clean_name :: "library_env \<Rightarrow> wstr \<Rightarrow> bool" where
  "clean_name env x \<longleftrightarrow> x \<noteq> [] \<and> Trim env x = x \<and> hd x \<noteq> 0xFEFF \<and> list_all (\<lambda>c. c \<notin> {0x3D, 0x0D, 0x0A}) x"

definition clean_library :: "library_env \<Rightarrow> legacy_library \<Rightarrow> bool" where
  "clean_library env library \<longleftrightarrow> keys_sorted library \<and>
     list_all (\<lambda>(name, ids). clean_name env name \<and> list_all (clean_id env) ids \<and> distinct (map (CanonicalKey env) ids)) library"

lemma format_ids_chars:
  assumes "list_all (clean_id env) ids"
  shows "list_all (\<lambda>c. c \<noteq> 0x0D \<and> c \<noteq> 0x0A) (format_ids env ids seen)"
    and "format_ids env ids seen = [] \<or> last (format_ids env ids seen) = 0x29"
proof -
  have "list_all (\<lambda>c. c \<noteq> 0x0D \<and> c \<noteq> 0x0A) (format_ids env ids seen) \<and>
    (format_ids env ids seen = [] \<or> last (format_ids env ids seen) = 0x29)"
    using assms
  proof (induction ids arbitrary: seen)
    case (Cons x xs)
    then have "list_all (\<lambda>c. c \<noteq> 0x0D \<and> c \<noteq> 0x0A) x" "Trim env x = x"
      by (auto simp: clean_id_def list_all_iff id_delimiter_def)
    moreover have "list_all (clean_id env) xs" using Cons.prems by simp
    ultimately show ?case using Cons.IH by (auto simp: last_append)
  qed simp
  then show "list_all (\<lambda>c. c \<noteq> 0x0D \<and> c \<noteq> 0x0A) (format_ids env ids seen)"
    "format_ids env ids seen = [] \<or> last (format_ids env ids seen) = 0x29" by simp_all
qed

lemma fold_distinct_append:
  "distinct (acc @ xs) \<Longrightarrow> fold (\<lambda>x values. if x \<in> set values then values else values @ [x]) xs acc = acc @ xs"
  by (induction xs arbitrary: acc) auto

lemma while_until:
  assumes "x \<notin> set l"
  shows "takeWhile (\<lambda>c. c \<noteq> x) (l @ x # t) = l" "dropWhile (\<lambda>c. c \<noteq> x) (l @ x # t) = x # t"
  using assms by (induction l) auto

lemma getlines_line: "0x0A \<notin> set l \<Longrightarrow> getlines (l @ 0x0A # t) = l # getlines t"
  by (subst getlines.simps) (simp add: while_until)

lemma legacy_line_entry:
  assumes name: "clean_name env name" and ids: "list_all (clean_id env) ids" "distinct (map (CanonicalKey env) ids)"
    and sp: "\<not> le_space env 0x3D" "\<not> le_space env 0x29"
  shows "legacy_line env (name @ [0x3D] @ FormatIds env ids @ [0x0D]) library = Some (legacy_add name ids library)"
proof -
  let ?l = "name @ [0x3D] @ FormatIds env ids"
  have n: "name \<noteq> []" "Trim env name = name" "0x3D \<notin> set name" "0x0D \<notin> set name"
    using name by (auto simp: clean_name_def list_all_iff)
  have f: "0x0D \<notin> set (FormatIds env ids)" "FormatIds env ids = [] \<or> last (FormatIds env ids) = 0x29"
    using format_ids_chars [OF ids(1), of "{}"] by (auto simp: FormatIds_def list_all_iff)
  have "filter (\<lambda>c. c \<noteq> 0x0D) (?l @ [0x0D]) = ?l" 
  proof -
    have "filter (\<lambda>c. c \<noteq> 0x0D) l = l" if "0x0D \<notin> set l" for l :: wstr
      by (rule filter_True) (use that in auto)
    then show ?thesis using n(4) f(1) by simp
  qed
  moreover have "Trim env ?l = ?l"
  proof -
    have "\<not> le_space env (hd name)"
      using trim_by_ends [of "le_space env" name] n(1,2) by (simp add: Trim_def)
    then have "\<not> le_space env (hd ?l)" using n(1) by simp
    moreover have "\<not> le_space env (last ?l)" using f(2) sp by (cases "FormatIds env ids = []") auto
    ultimately show ?thesis by (simp add: Trim_def trim_by_id)
  qed
  moreover have "takeWhile (\<lambda>c. c \<noteq> 0x3D) ?l = name" "dropWhile (\<lambda>c. c \<noteq> 0x3D) ?l = 0x3D # FormatIds env ids"
    using while_until [OF n(3), of "FormatIds env ids"] by simp_all
  moreover have "ParseIds (FormatIds env ids) = ids"
    using ParseIds_format [OF ids, of "{}"] by (simp add: FormatIds_def)
  ultimately show ?thesis using n by (simp add: legacy_line_def Let_def)
qed

lemma legacy_lines:
  assumes "list_all (\<lambda>(name, ids). clean_name env name \<and> list_all (clean_id env) ids \<and> distinct (map (CanonicalKey env) ids)) entries"
    and sp: "\<not> le_space env 0x3D" "\<not> le_space env 0x29"
  shows "fold_opt (legacy_line env) (getlines (legacy_text env entries)) library =
    Some (fold (\<lambda>(name, ids). legacy_add name ids) entries library)"
  using assms(1)
proof (induction entries arbitrary: library)
  case Nil
  then show ?case by (simp add: legacy_text_def getlines.simps)
next
  case (Cons e entries)
  obtain name ids where e: "e = (name, ids)" by (cases e)
  have c: "clean_name env name" "list_all (clean_id env) ids" "distinct (map (CanonicalKey env) ids)"
    and rest: "list_all (\<lambda>(name, ids). clean_name env name \<and> list_all (clean_id env) ids \<and> distinct (map (CanonicalKey env) ids)) entries"
    using Cons.prems e by simp_all
  have "legacy_text env (e # entries) = (name @ [0x3D] @ FormatIds env ids @ [0x0D]) @ 0x0A # legacy_text env entries"
    by (simp add: legacy_text_def e)
  moreover have "0x0A \<notin> set (name @ [0x3D] @ FormatIds env ids @ [0x0D])"
    using c(1) format_ids_chars(1) [OF c(2), of "{}"] by (auto simp: clean_name_def FormatIds_def list_all_iff)
  ultimately have "getlines (legacy_text env (e # entries)) = (name @ [0x3D] @ FormatIds env ids @ [0x0D]) # getlines (legacy_text env entries)"
    using getlines_line by metis
  then show ?case using legacy_line_entry [OF c sp] Cons.IH [OF rest] by (simp add: e)
qed

lemma legacy_rebuild:
  assumes "keys_sorted (library @ entries)" "list_all (\<lambda>(name, ids). distinct ids) entries"
  shows "fold (\<lambda>(name, ids). legacy_add name ids) entries library = library @ entries"
  using assms
proof (induction entries arbitrary: library)
  case (Cons e entries)
  obtain name ids where e: "e = (name, ids)" by (cases e)
  have less: "\<forall>k \<in> set (map fst library). k < name"
    using Cons.prems(1) unfolding keys_sorted_def strictly_sorted_def by (auto simp: e sorted_wrt_append)
  then have none: "map_of library name = None" by (auto simp: map_of_eq_None_iff)
  have "insert_key name ids library = library @ [(name, ids)]" using less
  proof (induction library)
    case (Cons kv kvs)
    then show ?case by (cases kv) auto
  qed simp
  moreover have "fold (\<lambda>x values. if x \<in> set values then values else values @ [x]) ids [] = ids"
    using Cons.prems(2) fold_distinct_append [of "[]" ids] by (simp add: e)
  ultimately have "legacy_add name ids library = library @ [(name, ids)]" by (simp add: legacy_add_def none)
  then show ?case using Cons by (simp add: e)
qed simp

text \<open>
  Property C21. The legacy file of a library reads back as the same library: for names and identifiers free
  of the characters the format uses, trimmed, with distinct canonical keys in each entry, parsing what was
  serialised returns exactly the library, for every strict text converter.
\<close>

theorem legacy_round_trip:
  assumes "strict_converter (le_to_utf8 env) (le_from_utf8 env)" "clean_library env library"
    and "\<not> le_space env 0x3D" "\<not> le_space env 0x29"
    and "SerializeLegacy env library = Some file" "length file \<le> INT_MAX"
  shows "ParseLegacy env file = Some library"
proof -
  let ?t = "legacy_text env library"
  have lib: "keys_sorted library"
    "list_all (\<lambda>(name, ids). clean_name env name \<and> list_all (clean_id env) ids \<and> distinct (map (CanonicalKey env) ids)) library"
    using assms(2) by (simp_all add: clean_library_def)
  have dist: "list_all (\<lambda>(name, ids). distinct ids) library"
    using lib(2) by (auto simp: list_all_iff distinct_map)
  have from_utf8: "FromUtf8 env file = Some ?t"
  proof (cases "?t = []")
    case True
    then show ?thesis using assms(5) by (simp add: SerializeLegacy_def ToUtf8_def FromUtf8_def)
  next
    case False
    then have enc: "le_to_utf8 env ?t = Some file"
      using assms(5) by (simp add: SerializeLegacy_def ToUtf8_def split: if_splits)
    then have "file \<noteq> []" using False strict_converter.encode_empty [OF assms(1), of ?t] by auto
    then show ?thesis
      using strict_converter.decode_encode [OF assms(1) enc] assms(6) by (simp add: FromUtf8_def)
  qed
  have bom: "?t = [] \<or> hd ?t \<noteq> 0xFEFF"
  proof (cases library)
    case (Cons e l)
    then obtain name ids where "e = (name, ids)" "name \<noteq> []" "hd name \<noteq> 0xFEFF"
      using lib(2) by (cases e) (auto simp: clean_name_def)
    then show ?thesis using Cons by (simp add: legacy_text_def)
  qed (simp add: legacy_text_def)
  have "fold_opt (legacy_line env) (getlines ?t) [] = Some library"
    unfolding legacy_lines [OF lib(2) assms(3,4)] using legacy_rebuild [of "[]" library] lib(1) dist by simp
  then show ?thesis using bom by (auto simp: ParseLegacy_def from_utf8 Let_def)
qed

definition utf8_env :: library_env where
  "utf8_env = \<lparr>le_space = ascii_space, le_to_utf8 = wide_to_utf8, le_from_utf8 = utf8_to_wide\<rparr>"

text \<open>Two players, one with two identifiers and a space in the name, one with none.\<close>

definition demo_library :: legacy_library where
  "demo_library = [([0x41, 0x20, 0x42], [[0x31], [0x32, 0x23, 0x33]]), ([0x43], [])]"

theorem legacy_round_trip_witness:
  "ParseLegacy utf8_env [0x41, 0x20, 0x42, 0x3D, 0x28, 0x31, 0x29, 0x28, 0x32, 0x23, 0x33, 0x29, 0x0D, 0x0A,
     0x43, 0x3D, 0x0D, 0x0A] = Some demo_library"
proof (rule legacy_round_trip)
  show "strict_converter (le_to_utf8 utf8_env) (le_from_utf8 utf8_env)"
    by (simp add: utf8_env_def utf8.strict_converter_axioms)
  show "clean_library utf8_env demo_library"
    by (simp add: clean_library_def demo_library_def clean_name_def clean_id_def Trim_def trim_by_def utf8_env_def
        ascii_space_def id_delimiter_def CanonicalKey_def is_sharp_def)
  show "SerializeLegacy utf8_env demo_library = Some [0x41, 0x20, 0x42, 0x3D, 0x28, 0x31, 0x29, 0x28, 0x32, 0x23, 0x33, 0x29, 0x0D, 0x0A,
     0x43, 0x3D, 0x0D, 0x0A]"
    by (simp add: SerializeLegacy_def ToUtf8_def legacy_text_def demo_library_def FormatIds_def Trim_def trim_by_def utf8_env_def
        ascii_space_def CanonicalKey_def is_sharp_def INT_MAX_def wide_to_utf8_def utf8_text_def utf8_char_def)
qed (simp_all add: utf8_env_def ascii_space_def INT_MAX_def)

end
