(* ===== verification/LibrarySnapshot.thy ===== *)
theory LibrarySnapshot
  imports LibraryText IdentityGroups CloudProtocol
begin

text \<open>
  The in-memory snapshot of the player library (\<^verbatim>\<open>PlayerLibraryModel.cpp\<close>): its lookups, the choice of a
  local name, the removal of retired fields, the evidence for identity groups, the views that are rebuilt
  from the normalised objects, and the fallback snapshot of a legacy file. \<open>None\<close> is an exception; a member
  that \<^verbatim>\<open>operator[]\<close> of a constant object does not find, and a null pointer that is followed, are undefined
  behaviour and are \<open>None\<close> as well.
\<close>

datatype IdentifierKind = Game

record library_identifier =
  id_identifierId :: int
  id_kind :: IdentifierKind
  id_canonicalKey :: wstr
  id_displayText :: wstr
  id_spellings :: "wstr list"

record player_entity =
  pe_entityId :: int
  pe_cloudId :: "bytes option"
  pe_names :: "wstr list"
  pe_gameIds :: "int list"

record lookup_result =
  lr_candidates :: "int list"
  lr_matchedBy :: "IdentifierKind option"
  lr_conflict :: bool

record snapshot =
  sn_revision :: u64
  sn_persisted :: bool
  sn_entities :: "player_entity list"
  sn_identifiers :: "library_identifier list"
  sn_nameIndex :: "wstr \<rightharpoonup> int"
  sn_gameIndex :: "wstr \<rightharpoonup> int list"
  sn_entityIndex :: "int \<rightharpoonup> nat"
  sn_identifierIndex :: "int \<rightharpoonup> nat"
  sn_legacy :: legacy_library
  sn_formattedLegacy :: "(wstr \<times> wstr) list"
  sn_identityMetadata :: json
  sn_identityState :: json
  sn_v2Entities :: json
  sn_legacyPayload :: bytes
  sn_appendPayload :: bytes

subsection \<open>Lookups\<close>

definition FindName :: "library_env \<Rightarrow> snapshot \<Rightarrow> wstr \<Rightarrow> player_entity option" where
  "FindName env s name = do { e \<leftarrow> sn_nameIndex s (Trim env name); i \<leftarrow> sn_entityIndex s e; Some (sn_entities s ! i) }"

definition FindIdentifier :: "snapshot \<Rightarrow> int \<Rightarrow> library_identifier option" where
  "FindIdentifier s x = map_option ((!) (sn_identifiers s)) (sn_identifierIndex s x)"

definition Lookup :: "library_env \<Rightarrow> snapshot \<Rightarrow> wstr \<Rightarrow> lookup_result" where
  "Lookup env s gameId =
     (case sn_gameIndex s (CanonicalKey env gameId) of
        None \<Rightarrow> \<lparr>lr_candidates = [], lr_matchedBy = None, lr_conflict = False\<rparr>
      | Some es \<Rightarrow> \<lparr>lr_candidates = es, lr_matchedBy = Some Game, lr_conflict = length es > 1\<rparr>)"

fun set_intersection :: "int list \<Rightarrow> int list \<Rightarrow> int list" where
  "set_intersection (a # as) (b # bs) =
     (if a < b then set_intersection as (b # bs)
      else if b < a then set_intersection (a # as) bs
      else a # set_intersection as bs)"
| "set_intersection _ _ = []"

text \<open>The loop over the incoming identifiers: the candidates, and whether there was any evidence.\<close>

fun resolve_evidence :: "library_env \<Rightarrow> snapshot \<Rightarrow> wstr list \<Rightarrow> int list \<Rightarrow> bool \<Rightarrow> int list \<times> bool" where
  "resolve_evidence env s [] candidates hasEvidence = (candidates, hasEvidence)"
| "resolve_evidence env s (gameId # rest) candidates hasEvidence =
     (let found = lr_candidates (Lookup env s gameId) in
      if found = [] then resolve_evidence env s rest candidates hasEvidence
      else
        let found = remdups_adj (sort found);
            candidates' = (if hasEvidence then set_intersection candidates found else found) in
        if candidates' = [] then ([], True)
        else resolve_evidence env s rest candidates' True)"

definition resolve_target :: "library_env \<Rightarrow> snapshot \<Rightarrow> wstr \<Rightarrow> wstr list \<Rightarrow> int" where
  "resolve_target env s normalizedIncoming incomingGameIds =
     (case FindName env s normalizedIncoming of
        Some incoming \<Rightarrow> pe_entityId incoming
      | None \<Rightarrow>
          (case resolve_evidence env s incomingGameIds [] False of
             ([e], True) \<Rightarrow> e
           | _ \<Rightarrow> 0))"

fun first_local :: "library_env \<Rightarrow> snapshot \<Rightarrow> int \<Rightarrow> wstr list \<Rightarrow> wstr option" where
  "first_local env s target [] = None"
| "first_local env s target (localName # rest) =
     (case FindName env s (Trim env localName) of
        Some local \<Rightarrow> if pe_entityId local = target then Some (Trim env localName) else first_local env s target rest
      | None \<Rightarrow> first_local env s target rest)"

definition ResolvePreferredLocalName :: "library_env \<Rightarrow> snapshot \<Rightarrow> wstr \<Rightarrow> wstr list \<Rightarrow> wstr list \<Rightarrow> wstr" where
  "ResolvePreferredLocalName env s incomingName incomingGameIds localFieldedNames =
     (let normalizedIncoming = Trim env incomingName;
          target = resolve_target env s normalizedIncoming incomingGameIds in
      if target = 0 then normalizedIncoming
      else case first_local env s target localFieldedNames of Some n \<Rightarrow> n | None \<Rightarrow> normalizedIncoming)"

subsection \<open>Retired fields\<close>

definition retired_fields :: "bytes list" where
  "retired_fields = map ascii [''adventureGroupIds'', ''adventureGroupId'', ''adventureIds'', ''adventureId'',
     ''beforeAdventure'', ''commonAdventureIds'', ''commonAdventureIdCount'', ''adventureIndex'']"

lemma kvs_size: "kv \<in> set kvs \<Longrightarrow> size (snd kv) < Suc (size_list (size_prod (\<lambda>_. 0) size) kvs)"
  by (induction kvs) auto

function PurgeRetiredIdentityFields :: "json \<Rightarrow> json" where
  "PurgeRetiredIdentityFields (JArr xs) = JArr (map PurgeRetiredIdentityFields xs)"
| "PurgeRetiredIdentityFields (JObj kvs) =
     JObj (map (\<lambda>(k, item).
         if k = ascii ''beforeMerge'' then (k, item)
         else if k = ascii ''beforeEntities'' \<and> is_object item
         then (k, (case item of JObj inner \<Rightarrow> JObj (map (\<lambda>(name, original). (name, PurgeRetiredIdentityFields original)) inner) | _ \<Rightarrow> item))
         else (k, PurgeRetiredIdentityFields item))
       (filter (\<lambda>(k, item). k \<notin> set retired_fields) kvs))"
| "PurgeRetiredIdentityFields JNull = JNull"
| "PurgeRetiredIdentityFields (JBool b) = JBool b"
| "PurgeRetiredIdentityFields (JInt n) = JInt n"
| "PurgeRetiredIdentityFields (JUInt n) = JUInt n"
| "PurgeRetiredIdentityFields (JFloat n) = JFloat n"
| "PurgeRetiredIdentityFields (JStr t) = JStr t"
  by pat_completeness auto

termination
proof (relation "measure size", goal_cases)
  case 1
  show ?case by simp
next
  case 2
  then show ?case by (simp add: size_list_estimation' less_Suc_eq_le)
next
  case (3 kvs kv k item inner kv' name original)
  have "size item < size (JObj kvs)" using kvs_size [of "(k, item)" kvs] 3(1,2) by auto
  moreover have "size original < size (JObj inner)" using kvs_size [of "(name, original)" inner] 3(6,7) by auto
  ultimately show ?case using 3(5) by simp
next
  case (4 kvs kv k item)
  then show ?case using kvs_size [of "(k, item)" kvs] by auto
qed

subsection \<open>Reading the metadata\<close>

text \<open>A range-based loop over a json value, and the accessors that throw.\<close>

fun jiter :: "json \<Rightarrow> json list" where
  "jiter JNull = []"
| "jiter (JArr xs) = xs"
| "jiter (JObj kvs) = map snd kvs"
| "jiter j = [j]"

definition jat :: "bytes \<Rightarrow> json \<Rightarrow> json option" where
  "jat k j = json_find k j"

definition jvalue :: "bytes \<Rightarrow> json \<Rightarrow> json \<Rightarrow> json option" where
  "jvalue k d j = (if is_object j then Some (case json_find k j of Some v \<Rightarrow> v | None \<Rightarrow> d) else None)"

definition jvalue_bool :: "bytes \<Rightarrow> bool \<Rightarrow> json \<Rightarrow> bool option" where
  "jvalue_bool k d j = do { v \<leftarrow> jvalue k (JBool d) j; if is_boolean v then Some (json_bool v) else None }"

definition jvalue_string :: "bytes \<Rightarrow> bytes \<Rightarrow> json \<Rightarrow> bytes option" where
  "jvalue_string k d j = do { v \<leftarrow> jvalue k (JStr d) j; if is_string v then Some (get_string v) else None }"

definition Strings :: "library_env \<Rightarrow> wstr list \<Rightarrow> json option" where
  "Strings env values = map_option (\<lambda>bs. JArr (map JStr bs)) (map_opt (ToUtf8 env) values)"

definition ReadNames :: "library_env \<Rightarrow> json \<Rightarrow> wstr list option" where
  "ReadNames env value_json = map_opt (\<lambda>item. FromUtf8 env (get_string item)) (filter is_string (elements value_json))"

definition upper_hex16 :: "u64 \<Rightarrow> bytes" where
  "upper_hex16 h = map (\<lambda>b. if 0x61 \<le> b then b - 0x20 else b) (hex16 h)"

definition IdentityFingerprint :: "library_env \<Rightarrow> wstr list \<Rightarrow> bytes option" where
  "IdentityFingerprint env names = do {
     texts \<leftarrow> map_opt (ToUtf8 env) (sort names);
     Some (upper_hex16 (fold (\<lambda>bs h. fnv_mix 0x1F (fold (\<lambda>b. fnv_mix (ucast b)) bs h)) texts 1469598103934665603)) }"

subsection \<open>Evidence\<close>

text \<open>A group is managed when it keeps its members from before a merge or waits for a review.\<close>

definition manage_group :: "library_env \<Rightarrow> json \<Rightarrow> (wstr \<rightharpoonup> json) \<Rightarrow> (wstr \<rightharpoonup> json) option" where
  "manage_group env g managed = do {
     relevant \<leftarrow> (if jcontains (ascii ''beforeMerge'') g then Some True
                  else jvalue_bool (ascii ''autoGroupNeedsReview'') False g);
     if \<not> relevant then Some managed
     else do {
       names_json \<leftarrow> jat (ascii ''names'') g;
       names \<leftarrow> ReadNames env names_json;
       Some (fold (\<lambda>name m. m(name \<mapsto> g)) names managed) } }"

definition evidence_of_name :: "library_env \<Rightarrow> snapshot \<Rightarrow> (wstr \<rightharpoonup> json) \<Rightarrow> player_entity \<Rightarrow> wstr list \<Rightarrow> wstr \<Rightarrow>
    alias_entry list \<Rightarrow> alias_entry list option" where
  "evidence_of_name env s managed entity currentGame name entries =
     (case managed name of
        Some g \<Rightarrow> do {
          key \<leftarrow> ToUtf8 env name;
          review \<leftarrow> jvalue_bool (ascii ''autoGroupNeedsReview'') False g;
          if review then Some entries
          else do {
            ids \<leftarrow> (if jcontains (ascii ''beforeMerge'') g \<and> jcontains key (jget (ascii ''beforeMerge'') g)
                    then ReadNames env (jget key (jget (ascii ''beforeMerge'') g)) else Some []);
            Some (entries @ [\<lparr>ae_name = name, ae_ids = filter (\<lambda>x. CanonicalKey env x \<in> set currentGame) ids\<rparr>]) } }
      | None \<Rightarrow> do {
          ids \<leftarrow> map_opt (FindIdentifier s) (pe_gameIds entity);
          Some (entries @ [\<lparr>ae_name = name, ae_ids = map id_displayText ids\<rparr>]) })"

definition evidence_of_entity :: "library_env \<Rightarrow> snapshot \<Rightarrow> (wstr \<rightharpoonup> json) \<Rightarrow> player_entity \<Rightarrow>
    alias_entry list \<Rightarrow> alias_entry list option" where
  "evidence_of_entity env s managed entity entries = do {
     current \<leftarrow> map_opt (FindIdentifier s) (pe_gameIds entity);
     fold_opt (evidence_of_name env s managed entity (map id_canonicalKey current)) (pe_names entity) entries }"

definition CollectIdentityEvidence :: "library_env \<Rightarrow> snapshot \<Rightarrow> alias_entry list option" where
  "CollectIdentityEvidence env s = do {
     managed \<leftarrow> (if jcontains (ascii ''groups'') (sn_identityMetadata s)
       then fold_opt (manage_group env) (jiter (jget (ascii ''groups'') (sn_identityMetadata s))) Map.empty
       else Some Map.empty);
     fold_opt (evidence_of_entity env s managed) (sn_entities s) [] }"

text \<open>The sets of names that were split: for every name the indices of the sets it is in.\<close>

definition split_sets :: "library_env \<Rightarrow> json \<Rightarrow> (wstr \<Rightarrow> nat list) option" where
  "split_sets env metadata =
     (if jcontains (ascii ''autoSplitNameSets'') metadata
      then map_option snd (fold_opt (\<lambda>names (index, m). do {
             ns \<leftarrow> ReadNames env names;
             Some (Suc index, fold (\<lambda>name m. m(name := m name @ [index])) ns m) })
           (jiter (jget (ascii ''autoSplitNameSets'') metadata)) (0, \<lambda>_. []))
      else Some (\<lambda>_. []))"

definition split_pair :: "(wstr \<Rightarrow> nat list) \<Rightarrow> wstr \<Rightarrow> wstr \<Rightarrow> bool" where
  "split_pair membership left right \<longleftrightarrow> list_ex (\<lambda>index. index \<in> set (membership right)) (membership left)"

fun any_pair :: "('a \<Rightarrow> 'a \<Rightarrow> bool option) \<Rightarrow> 'a list \<Rightarrow> bool option" where
  "any_pair f [] = Some False"
| "any_pair f (x # xs) = do {
     hits \<leftarrow> map_opt (f x) xs;
     if True \<in> set hits then Some True else any_pair f xs }"

text \<open>Whether an exact group is dropped: two of its names were split, or a fingerprint is ignored.\<close>

definition group_excepted :: "library_env \<Rightarrow> bytes set \<Rightarrow> (wstr \<Rightarrow> nat list) \<Rightarrow> identity_group \<Rightarrow> bool option" where
  "group_excepted env ignored membership g =
     (if \<not> distinct (concat (map membership (ig_names g))) then Some True
      else if ignored = {} then Some False
      else do {
        fp \<leftarrow> IdentityFingerprint env (ig_names g);
        if fp \<in> ignored then Some True
        else any_pair (\<lambda>a b. map_option (\<lambda>f. f \<in> ignored) (IdentityFingerprint env [a, b])) (ig_names g) })"

definition suggestion_excepted :: "library_env \<Rightarrow> snapshot \<Rightarrow> bytes set \<Rightarrow> (wstr \<Rightarrow> nat list) \<Rightarrow> overlap_suggestion \<Rightarrow> bool option" where
  "suggestion_excepted env s ignored membership p = do {
     l \<leftarrow> FindName env s (os_leftName p);
     r \<leftarrow> FindName env s (os_rightName p);
     if pe_entityId l = pe_entityId r \<or> split_pair membership (os_leftName p) (os_rightName p) then Some True
     else map_option (\<lambda>f. f \<in> ignored) (IdentityFingerprint env [os_leftName p, os_rightName p]) }"

definition filter_opt :: "('a \<Rightarrow> bool option) \<Rightarrow> 'a list \<Rightarrow> 'a list option" where
  "filter_opt drop_it xs = map_option concat (map_opt (\<lambda>x. map_option (\<lambda>b. if b then [] else [x]) (drop_it x)) xs)"

type_synonym visit_order = "((nat \<times> nat) \<times> nat) list \<Rightarrow> ((nat \<times> nat) \<times> nat) list"

definition AnalyzeEvidence :: "library_env \<Rightarrow> visit_order \<Rightarrow> snapshot \<Rightarrow> alias_entry list \<Rightarrow> identity_analysis option" where
  "AnalyzeEvidence env visit s entries = do {
     let analysis = AnalyzeIndexed visit entries (Some (CanonicalKey env));
     fingerprints \<leftarrow> jvalue (ascii ''autoSplitFingerprints'') (JArr []) (sn_identityMetadata s);
     let ignored = set (map get_string (filter is_string (jiter fingerprints)));
     membership \<leftarrow> split_sets env (sn_identityMetadata s);
     groups \<leftarrow> filter_opt (group_excepted env ignored membership) (ia_exactGroups analysis);
     suggestions \<leftarrow> filter_opt (suggestion_excepted env s ignored membership) (ia_overlapSuggestions analysis);
     Some (analysis\<lparr>ia_exactGroups := groups, ia_overlapSuggestions := suggestions\<rparr>) }"

definition AnalyzeIdentityEvidence :: "library_env \<Rightarrow> visit_order \<Rightarrow> snapshot \<Rightarrow> identity_analysis option" where
  "AnalyzeIdentityEvidence env visit s = do { es \<leftarrow> CollectIdentityEvidence env s; AnalyzeEvidence env visit s es }"

text \<open>The displayed text of each key; the first spelling wins.\<close>

definition IndexEvidenceDisplays :: "library_env \<Rightarrow> wstr list \<Rightarrow> (wstr \<times> wstr) list" where
  "IndexEvidenceDisplays env ids =
     fold (\<lambda>x result. let key = CanonicalKey env x in
        if key = [] \<or> map_of result key \<noteq> None then result else insert_key key (Trim env x) result) ids []"

fun CommonEvidenceDisplays :: "(wstr \<times> wstr) list \<Rightarrow> (wstr \<times> wstr) list \<Rightarrow> wstr list" where
  "CommonEvidenceDisplays (a # as) (b # bs) =
     (if fst a < fst b then CommonEvidenceDisplays as (b # bs)
      else if fst b < fst a then CommonEvidenceDisplays (a # as) bs
      else snd a # CommonEvidenceDisplays as bs)"
| "CommonEvidenceDisplays _ _ = []"

subsection \<open>The views\<close>

definition index_game :: "snapshot \<Rightarrow> int \<Rightarrow> int \<Rightarrow> (wstr \<rightharpoonup> int list) \<times> wstr list \<Rightarrow> ((wstr \<rightharpoonup> int list) \<times> wstr list) option" where
  "index_game s entityId x = (\<lambda>(gameIndex, game). do {
     v \<leftarrow> FindIdentifier s x;
     Some (gameIndex(id_canonicalKey v \<mapsto> (case gameIndex (id_canonicalKey v) of None \<Rightarrow> [] | Some es \<Rightarrow> es) @ [entityId]),
           game @ [id_displayText v]) })"

text \<open>\<^verbatim>\<open>emplace\<close> into a map keeps an entry that is there.\<close>

definition emplace_key :: "wstr \<Rightarrow> 'v \<Rightarrow> (wstr \<times> 'v) list \<Rightarrow> (wstr \<times> 'v) list" where
  "emplace_key k v m = (if map_of m k \<noteq> None then m else insert_key k v m)"

definition index_name :: "library_env \<Rightarrow> int \<Rightarrow> wstr list \<Rightarrow> wstr \<Rightarrow> snapshot \<Rightarrow> snapshot option" where
  "index_name env entityId game name s =
     (if sn_nameIndex s name \<noteq> None then None
      else Some (s\<lparr>sn_nameIndex := (sn_nameIndex s)(name \<mapsto> entityId),
                   sn_legacy := emplace_key name game (sn_legacy s),
                   sn_formattedLegacy := emplace_key name (FormatIds env game) (sn_formattedLegacy s)\<rparr>))"

definition index_entity :: "library_env \<Rightarrow> nat \<times> player_entity \<Rightarrow> snapshot \<Rightarrow> snapshot option" where
  "index_entity env = (\<lambda>(i, e) s. do {
     let s = s\<lparr>sn_entityIndex := (if sn_entityIndex s (pe_entityId e) = None
                then (sn_entityIndex s)(pe_entityId e \<mapsto> i) else sn_entityIndex s)\<rparr>;
     (gameIndex, game) \<leftarrow> fold_opt (index_game s (pe_entityId e)) (pe_gameIds e) (sn_gameIndex s, []);
     s \<leftarrow> fold_opt (index_name env (pe_entityId e) game) (pe_names e) (s\<lparr>sn_gameIndex := gameIndex\<rparr>);
     names \<leftarrow> Strings env (pe_names e);
     games \<leftarrow> Strings env game;
     Some (s\<lparr>sn_v2Entities := JArr (elements (sn_v2Entities s) @
        [make_object ([(ascii ''names'', names), (ascii ''gameIds'', games)] @
           (case pe_cloudId e of None \<Rightarrow> [] | Some c \<Rightarrow> [(ascii ''entityId'', JStr c)]))])\<rparr>) })"

definition index_identifiers :: "library_identifier list \<Rightarrow> int \<rightharpoonup> nat" where
  "index_identifiers ids =
     fold (\<lambda>(i, v) m. if m (id_identifierId v) = None then m(id_identifierId v \<mapsto> i) else m) (zip [0..<length ids] ids) Map.empty"

definition cleared :: "snapshot \<Rightarrow> snapshot" where
  "cleared s = s\<lparr>sn_identityMetadata := PurgeRetiredIdentityFields (sn_identityMetadata s),
     sn_nameIndex := Map.empty, sn_gameIndex := Map.empty, sn_entityIndex := Map.empty,
     sn_identifierIndex := index_identifiers (sn_identifiers s),
     sn_legacy := [], sn_formattedLegacy := [], sn_v2Entities := JArr []\<rparr>"

definition build_indexes :: "library_env \<Rightarrow> snapshot \<Rightarrow> snapshot option" where
  "build_indexes env s = do {
     s \<leftarrow> fold_opt (index_entity env) (zip [0..<length (sn_entities s)] (sn_entities s)) (cleared s);
     Some (s\<lparr>sn_gameIndex := (\<lambda>k. map_option (\<lambda>es. remdups_adj (sort es)) (sn_gameIndex s k))\<rparr>) }"

text \<open>The loop over the legacy map: the two payload objects and the entries of the identity state.\<close>

definition project_entry :: "library_env \<Rightarrow> snapshot \<Rightarrow> wstr \<times> wstr list \<Rightarrow>
    (bytes \<times> json) list \<times> (bytes \<times> json) list \<times> json list \<Rightarrow> ((bytes \<times> json) list \<times> (bytes \<times> json) list \<times> json list) option" where
  "project_entry env s = (\<lambda>(name, ids) (payload, append, entries). do {
     key \<leftarrow> ToUtf8 env name;
     formatted \<leftarrow> map_of (sn_formattedLegacy s) name;
     val \<leftarrow> ToUtf8 env formatted;
     ids_json \<leftarrow> Strings env ids;
     Some (payload @ [(key, JStr val)], (if ids \<noteq> [] then append @ [(key, JStr val)] else append),
           entries @ [make_object [(ascii ''name'', JStr key), (ascii ''ids'', ids_json)]]) })"

text \<open>The identifiers of a group: every entity contributes once, every key once.\<close>

definition add_group_name :: "library_env \<Rightarrow> snapshot \<Rightarrow> wstr \<Rightarrow> wstr list \<times> wstr set \<times> int set \<Rightarrow> (wstr list \<times> wstr set \<times> int set) option" where
  "add_group_name env s name = (\<lambda>(ids, seen, visited).
     let owner = FindName env s name in
     if (case owner of Some e \<Rightarrow> pe_entityId e \<in> visited | None \<Rightarrow> False) then Some (ids, seen, visited)
     else do {
       values \<leftarrow> map_of (sn_legacy s) name;
       let (ids', seen') = fold (\<lambda>v (ids, seen). if CanonicalKey env v \<in> seen then (ids, seen)
             else (ids @ [v], insert (CanonicalKey env v) seen)) values (ids, seen);
       Some (ids', seen', (case owner of Some e \<Rightarrow> insert (pe_entityId e) visited | None \<Rightarrow> visited)) })"

definition append_group :: "library_env \<Rightarrow> snapshot \<Rightarrow> bytes \<Rightarrow> bytes \<Rightarrow> wstr list \<Rightarrow>
    wstr set \<times> json list \<Rightarrow> (wstr set \<times> json list) option" where
  "append_group env s groupId source names = (\<lambda>(claimed, groups).
     if length names < 2 then Some (claimed, groups)
     else do {
       (ids, _, _) \<leftarrow> fold_opt (add_group_name env s) names ([], {}, {});
       names_json \<leftarrow> Strings env names;
       ids_json \<leftarrow> Strings env ids;
       Some (claimed \<union> set names, groups @ [make_object [(ascii ''groupId'', JStr groupId), (ascii ''source'', JStr source),
         (ascii ''names'', names_json), (ascii ''ids'', ids_json)]]) })"

text \<open>
  The members of a saved group: its known names, and for a manual group or one with saved entities also the
  other names of every entity one of the names belongs to. The loop runs over the names it started with
  and over those it adds.
\<close>

function widen_names :: "library_env \<Rightarrow> snapshot \<Rightarrow> nat \<Rightarrow> nat \<Rightarrow> wstr list \<Rightarrow> wstr set \<Rightarrow> int set \<Rightarrow> wstr list" where
  "widen_names env s fuel i names seenNames visited =
     (if fuel = 0 \<or> i \<ge> length names then names
      else case FindName env s (names ! i) of
        None \<Rightarrow> widen_names env s (fuel - 1) (Suc i) names seenNames visited
      | Some e \<Rightarrow>
          if pe_entityId e \<in> visited then widen_names env s (fuel - 1) (Suc i) names seenNames visited
          else
            let (names', seen') = fold (\<lambda>name (names, seen). if name \<in> seen then (names, seen)
                  else (names @ [name], insert name seen)) (pe_names e) (names, seenNames)
            in widen_names env s (fuel - 1) (Suc i) names' seen' (insert (pe_entityId e) visited))"
  by pat_completeness auto
termination by (relation "measure (\<lambda>(env, s, fuel, i, names, seenNames, visited). fuel)") auto

definition saved_group_names :: "library_env \<Rightarrow> snapshot \<Rightarrow> json \<Rightarrow> wstr list option" where
  "saved_group_names env s g = do {
     names_json \<leftarrow> jvalue (ascii ''names'') (JArr []) g;
     all_names \<leftarrow> ReadNames env names_json;
     let names = filter (\<lambda>n. sn_nameIndex s n \<noteq> None) all_names;
     source \<leftarrow> jvalue_string (ascii ''source'') (ascii ''manual'') g;
     Some (if source \<noteq> ascii ''automatic'' \<or> jcontains (ascii ''beforeEntities'') g
       then widen_names env s (length names + length (concat (map pe_names (sn_entities s)))) 0 names (set names) {}
       else names) }"

definition append_saved_group :: "library_env \<Rightarrow> snapshot \<Rightarrow> json \<Rightarrow> wstr set \<times> json list \<Rightarrow> (wstr set \<times> json list) option" where
  "append_saved_group env s g st = do {
     names \<leftarrow> saved_group_names env s g;
     groupId \<leftarrow> jvalue_string (ascii ''groupId'') [] g;
     source \<leftarrow> jvalue_string (ascii ''source'') (ascii ''manual'') g;
     append_group env s groupId source names st }"

definition int_decimal :: "int \<Rightarrow> bytes" where
  "int_decimal i = (if i < 0 then 0x2D # to_decimal (nat (- i)) else to_decimal (nat i))"

definition append_entity_group :: "library_env \<Rightarrow> snapshot \<Rightarrow> player_entity \<Rightarrow> wstr set \<times> json list \<Rightarrow> (wstr set \<times> json list) option" where
  "append_entity_group env s e = (\<lambda>(claimed, groups).
     if length (pe_names e) \<ge> 2 \<and> list_all (\<lambda>name. name \<notin> claimed) (pe_names e)
     then append_group env s (ascii ''entity-'' @ int_decimal (pe_entityId e)) (ascii ''manual'') (pe_names e) (claimed, groups)
     else Some (claimed, groups))"

definition append_exact_group :: "library_env \<Rightarrow> snapshot \<Rightarrow> identity_group \<Rightarrow> (wstr set \<times> json list) \<times> json list \<Rightarrow>
    ((wstr set \<times> json list) \<times> json list) option" where
  "append_exact_group env s g = (\<lambda>((claimed, groups), matches).
     if list_ex (\<lambda>n. n \<in> claimed) (ig_names g) then Some ((claimed, groups), matches)
     else do {
       groupId \<leftarrow> ToUtf8 env (ig_groupId g);
       st \<leftarrow> append_group env s groupId (ascii ''automatic'') (ig_names g) (claimed, groups);
       names_json \<leftarrow> Strings env (ig_names g);
       Some (st, matches @ [make_object [(ascii ''groupId'', JStr groupId), (ascii ''names'', names_json)]]) })"

definition project_overlap :: "library_env \<Rightarrow> (wstr \<rightharpoonup> (wstr \<times> wstr) list) \<Rightarrow> overlap_suggestion \<Rightarrow> json option" where
  "project_overlap env displays p = do {
     left \<leftarrow> displays (os_leftName p);
     right \<leftarrow> displays (os_rightName p);
     let games = CommonEvidenceDisplays left right;
     leftName \<leftarrow> ToUtf8 env (os_leftName p);
     rightName \<leftarrow> ToUtf8 env (os_rightName p);
     games_json \<leftarrow> Strings env games;
     Some (make_object [(ascii ''leftName'', JStr leftName), (ascii ''rightName'', JStr rightName),
       (ascii ''commonGameIds'', games_json), (ascii ''commonIdCount'', JUInt (of_nat (length games))),
       (ascii ''commonIdCountIsLowerBound'', JBool False)]) }"

definition index_displays :: "library_env \<Rightarrow> alias_entry list \<Rightarrow> (wstr \<rightharpoonup> (wstr \<times> wstr) list)" where
  "index_displays env evidence =
     fold (\<lambda>e m. if m (ae_name e) = None then m(ae_name e \<mapsto> IndexEvidenceDisplays env (ae_ids e)) else m) evidence Map.empty"

definition build_projections :: "library_env \<Rightarrow> visit_order \<Rightarrow> (json \<Rightarrow> bytes option) \<Rightarrow> snapshot \<Rightarrow> snapshot option" where
  "build_projections env visit dump s = do {
     (payload, append, entries) \<leftarrow> fold_opt (project_entry env s) (sn_legacy s) ([], [], []);
     legacyPayload \<leftarrow> dump (make_object payload);
     appendPayload \<leftarrow> dump (make_object append);
     st \<leftarrow> (if jcontains (ascii ''groups'') (sn_identityMetadata s)
           then fold_opt (append_saved_group env s) (jiter (jget (ascii ''groups'') (sn_identityMetadata s))) ({}, [])
           else Some ({}, []));
     st \<leftarrow> fold_opt (append_entity_group env s) (sn_entities s) st;
     evidence \<leftarrow> CollectIdentityEvidence env s;
     analysis \<leftarrow> AnalyzeEvidence env visit s evidence;
     (st, matches) \<leftarrow> fold_opt (append_exact_group env s) (ia_exactGroups analysis) (st, []);
     overlaps \<leftarrow> map_opt (project_overlap env (index_displays env evidence)) (ia_overlapSuggestions analysis);
     Some (s\<lparr>sn_legacyPayload := legacyPayload, sn_appendPayload := appendPayload,
       sn_identityState := make_object [(ascii ''revision'', JUInt (sn_revision s)), (ascii ''groups'', JArr (snd st)),
         (ascii ''entries'', JArr entries), (ascii ''exactMatches'', JArr matches),
         (ascii ''overlapSuggestions'', JArr overlaps), (ascii ''overlapSuggestionsTruncated'', JBool (ia_truncated analysis))]\<rparr>) }"

definition BuildSnapshotViews :: "library_env \<Rightarrow> visit_order \<Rightarrow> (json \<Rightarrow> bytes option) \<Rightarrow> snapshot \<Rightarrow> snapshot option" where
  "BuildSnapshotViews env visit dump s = do { s \<leftarrow> build_indexes env s; build_projections env visit dump s }"

subsection \<open>The fallback snapshot\<close>

text \<open>The identifier of a key: the one in the pool, or a new one at the end.\<close>

definition fallback_id :: "library_env \<Rightarrow> wstr \<Rightarrow> library_identifier list \<times> int list \<Rightarrow> library_identifier list \<times> int list" where
  "fallback_id env raw = (\<lambda>(pool, gameIds).
     let key = CanonicalKey env raw in
     if key = [] then (pool, gameIds)
     else
       let (x, pool') = (case List.find (\<lambda>v. id_canonicalKey v = key) pool of
             Some v \<Rightarrow> (id_identifierId v, pool)
           | None \<Rightarrow> (int (length pool) + 1, pool @ [\<lparr>id_identifierId = int (length pool) + 1, id_kind = Game,
                 id_canonicalKey = key, id_displayText = Trim env raw, id_spellings = []\<rparr>]))
       in (pool', if x \<in> set gameIds then gameIds else gameIds @ [x]))"

definition fallback_entity :: "library_env \<Rightarrow> wstr \<times> wstr list \<Rightarrow> library_identifier list \<times> player_entity list \<Rightarrow>
    library_identifier list \<times> player_entity list" where
  "fallback_entity env = (\<lambda>(name, ids) (pool, entities).
     let (pool', gameIds) = fold (fallback_id env) ids (pool, []) in
     (pool', entities @ [\<lparr>pe_entityId = int (length entities) + 1, pe_cloudId = None, pe_names = [name], pe_gameIds = gameIds\<rparr>]))"

definition fallback_start :: "library_env \<Rightarrow> legacy_library \<Rightarrow> json \<Rightarrow> snapshot" where
  "fallback_start env library metadata =
     (let (pool, entities) = fold (fallback_entity env) library ([], []) in
      \<lparr>sn_revision = 1, sn_persisted = False, sn_entities = entities, sn_identifiers = pool,
       sn_nameIndex = Map.empty, sn_gameIndex = Map.empty, sn_entityIndex = Map.empty, sn_identifierIndex = Map.empty,
       sn_legacy = [], sn_formattedLegacy = [], sn_identityMetadata = metadata,
       sn_identityState = make_object [], sn_v2Entities = JArr [], sn_legacyPayload = [], sn_appendPayload = []\<rparr>)"

text \<open>When the views throw on saved metadata that is not empty, they are built again without it.\<close>

definition BuildFallbackSnapshot :: "library_env \<Rightarrow> visit_order \<Rightarrow> (json \<Rightarrow> bytes option) \<Rightarrow> legacy_library \<Rightarrow> json \<Rightarrow> snapshot option" where
  "BuildFallbackSnapshot env visit dump library metadata =
     (let s = fallback_start env library metadata in
      case BuildSnapshotViews env visit dump s of
        Some s' \<Rightarrow> Some s'
      | None \<Rightarrow>
          if json_size (PurgeRetiredIdentityFields metadata) = 0 then None
          else BuildSnapshotViews env visit dump (s\<lparr>sn_identityMetadata := make_object []\<rparr>))"

end
