(* ===== verification/LibraryViews.thy ===== *)
theory LibraryViews
  imports LibrarySnapshot
begin

text \<open>
  What the functions of \<^verbatim>\<open>PlayerLibraryModel.cpp\<close> guarantee: purging, the preferred local name, the indexes
  of a snapshot, and the fallback snapshot.
\<close>

subsection \<open>Retired fields are gone\<close>

text \<open>No object carries a retired field, except below the members keyed by player names.\<close>

fun purge_member :: "bytes \<times> json \<Rightarrow> json" where
  "purge_member (k, item) =
     (if k = ascii ''beforeMerge'' then item
      else if k = ascii ''beforeEntities'' \<and> is_object item
      then (case item of JObj inner \<Rightarrow> JObj (map (\<lambda>(name, original). (name, PurgeRetiredIdentityFields original)) inner) | _ \<Rightarrow> item)
      else PurgeRetiredIdentityFields item)"

inductive retired_free :: "json \<Rightarrow> bool" where
  scalar: "\<not> is_array j \<Longrightarrow> \<not> is_object j \<Longrightarrow> retired_free j"
| array: "\<forall>x \<in> set xs. retired_free x \<Longrightarrow> retired_free (JArr xs)"
| object: "\<forall>kv \<in> set kvs. fst kv \<notin> set retired_fields \<and>
     (fst kv = ascii ''beforeMerge'' \<or>
      (fst kv = ascii ''beforeEntities'' \<and> (\<exists>inner. snd kv = JObj inner \<and> (\<forall>m \<in> set inner. retired_free (snd m)))) \<or>
      (\<not> (fst kv = ascii ''beforeEntities'' \<and> is_object (snd kv)) \<and> retired_free (snd kv)))
   \<Longrightarrow> retired_free (JObj kvs)"

lemma purge_JObj:
  "PurgeRetiredIdentityFields (JObj kvs) =
     JObj (map (\<lambda>kv. (fst kv, purge_member kv)) (filter (\<lambda>kv. fst kv \<notin> set retired_fields) kvs))"
  by (auto simp: split_beta intro!: map_cong filter_cong split: json.splits)

lemma purge_scalar: "\<not> is_array j \<Longrightarrow> \<not> is_object j \<Longrightarrow> PurgeRetiredIdentityFields j = j"
  by (cases j) simp_all

lemma purge_kind: "is_object (PurgeRetiredIdentityFields j) = is_object j" "is_array (PurgeRetiredIdentityFields j) = is_array j"
  by (cases j; simp)+

lemma retired_free_fixed: "retired_free j \<Longrightarrow> PurgeRetiredIdentityFields j = j"
proof (induction rule: retired_free.induct)
  case (scalar j)
  then show ?case by (rule purge_scalar)
next
  case (array xs)
  then show ?case by (auto intro: map_idI)
next
  case (object kvs)
  have fixed: "purge_member kv = snd kv" if "kv \<in> set kvs" for kv
  proof -
    obtain k item where kv: "kv = (k, item)" by (cases kv)
    from object that have *: "k = ascii ''beforeMerge'' \<or>
      (k = ascii ''beforeEntities'' \<and> (\<exists>inner. item = JObj inner \<and> (\<forall>m \<in> set inner. PurgeRetiredIdentityFields (snd m) = snd m))) \<or>
      (\<not> (k = ascii ''beforeEntities'' \<and> is_object item) \<and> PurgeRetiredIdentityFields item = item)"
      unfolding kv by fastforce
    then show ?thesis unfolding kv by (auto intro!: map_idI simp del: ascii_Cons) (metis snd_conv)
  qed
  have "filter (\<lambda>kv. fst kv \<notin> set retired_fields) kvs = kvs" using object by (intro filter_True) blast
  moreover have "map (\<lambda>kv. (fst kv, purge_member kv)) kvs = kvs" using fixed by (intro map_idI) simp
  ultimately show ?case unfolding purge_JObj by simp
qed

lemma purge_retired_free: "retired_free (PurgeRetiredIdentityFields j)"
proof (induction j rule: measure_induct_rule [of size])
  case (less j)
  show ?case
  proof (cases j)
    case (JArr xs)
    have "retired_free (PurgeRetiredIdentityFields x)" if "x \<in> set xs" for x
      using less [of x] JArr that by (simp add: size_list_estimation' less_Suc_eq_le)
    then show ?thesis unfolding JArr by (simp add: retired_free.array)
  next
    case (JObj kvs)
    have sub: "retired_free (PurgeRetiredIdentityFields (snd kv))" if "kv \<in> set kvs" for kv
      using less [of "snd kv"] JObj kvs_size [OF that] by simp
    show ?thesis unfolding JObj purge_JObj
    proof (rule retired_free.object, rule ballI)
      fix kv' assume "kv' \<in> set (map (\<lambda>kv. (fst kv, purge_member kv)) (filter (\<lambda>kv. fst kv \<notin> set retired_fields) kvs))"
      then obtain k item where kv: "(k, item) \<in> set kvs" "k \<notin> set retired_fields" "kv' = (k, purge_member (k, item))" by auto
      have inner: "retired_free (PurgeRetiredIdentityFields original)" if "item = JObj inner" "(name, original) \<in> set inner" for inner name original
        using less [of original] JObj kvs_size [OF kv(1)] kvs_size [OF that(2)] that(1) by simp
      show "fst kv' \<notin> set retired_fields \<and> (fst kv' = ascii ''beforeMerge'' \<or>
        (fst kv' = ascii ''beforeEntities'' \<and> (\<exists>inner. snd kv' = JObj inner \<and> (\<forall>m \<in> set inner. retired_free (snd m)))) \<or>
        (\<not> (fst kv' = ascii ''beforeEntities'' \<and> is_object (snd kv')) \<and> retired_free (snd kv')))"
      proof (cases "k = ascii ''beforeEntities'' \<and> is_object item")
        case True
        then obtain i where i: "item = JObj i" by (cases item) auto
        have "k \<noteq> ascii ''beforeMerge''" using True by simp
        then have "purge_member (k, item) = JObj (map (\<lambda>(name, original). (name, PurgeRetiredIdentityFields original)) i)"
          using True i by simp
        then show ?thesis using kv(2,3) True inner [OF i] by auto
      next
        case False
        then have "k = ascii ''beforeMerge'' \<or> purge_member (k, item) = PurgeRetiredIdentityFields item" by auto
        then show ?thesis using kv False sub [OF kv(1)] purge_kind(1) [of item] by (auto simp del: ascii_Cons)
      qed
    qed
  qed (simp_all add: retired_free.scalar)
qed

text \<open>
  Purging removes every retired field: the result carries none, outside the members that are
  keyed by player names, and what purging leaves unchanged is exactly the metadata without retired fields.
  So a second purge changes nothing.
\<close>

theorem purge_removes_retired_fields:
  "retired_free (PurgeRetiredIdentityFields j) \<and> (PurgeRetiredIdentityFields j = j \<longleftrightarrow> retired_free j) \<and>
   PurgeRetiredIdentityFields (PurgeRetiredIdentityFields j) = PurgeRetiredIdentityFields j"
  using purge_retired_free retired_free_fixed by metis

subsection \<open>The preferred local name\<close>

lemma set_intersection_set:
  "strictly_sorted as \<Longrightarrow> strictly_sorted bs \<Longrightarrow> set (set_intersection as bs) = set as \<inter> set bs"
proof (induction "as" bs rule: set_intersection.induct)
  case (1 a xs b bs)
  consider "a < b" | "b < a" | "a = b" by linarith
  then show ?case
  proof cases
    case 1
    then have "a \<notin> set (b # bs)" using "1.prems"(2) by (auto dest: less_trans)
    then show ?thesis using 1 "1.IH"(1) "1.prems" by simp
  next
    case 2
    then have "b \<notin> set (a # xs)" using "1.prems"(1) by (auto dest: less_trans)
    then show ?thesis using 2 "1.IH"(2) "1.prems" by auto
  next
    case 3
    then show ?thesis using "1.IH"(3) "1.prems" by auto
  qed
qed simp_all

lemma set_intersection_sorted: "strictly_sorted as \<Longrightarrow> strictly_sorted bs \<Longrightarrow> strictly_sorted (set_intersection as bs)"
proof (induction "as" bs rule: set_intersection.induct)
  case (1 a xs b bs)
  then show ?case by (auto simp: set_intersection_set)
qed simp_all

lemma sort_unique: "strictly_sorted (remdups_adj (sort xs))" "set (remdups_adj (sort xs)) = set xs" for xs :: "int list"
proof -
  have "sorted ys \<Longrightarrow> strictly_sorted (remdups_adj ys)" for ys :: "int list"
    by (induction ys rule: remdups_adj.induct) (auto simp: le_less dest: less_le_trans)
  then show "strictly_sorted (remdups_adj (sort xs))" by simp
qed simp

text \<open>The players every incoming identifier with known owners allows.\<close>

definition known_owners :: "library_env \<Rightarrow> snapshot \<Rightarrow> wstr \<Rightarrow> int set" where
  "known_owners env s gameId = set (lr_candidates (Lookup env s gameId))"

definition evidence_sets :: "library_env \<Rightarrow> snapshot \<Rightarrow> wstr list \<Rightarrow> int set list" where
  "evidence_sets env s ids = filter (\<lambda>A. A \<noteq> {}) (map (known_owners env s) ids)"

lemma resolve_evidence_spec:
  assumes "strictly_sorted candidates" "hasEvidence \<longrightarrow> candidates \<noteq> []"
  shows "strictly_sorted (fst (resolve_evidence env s ids candidates hasEvidence)) \<and>
    snd (resolve_evidence env s ids candidates hasEvidence) = (hasEvidence \<or> evidence_sets env s ids \<noteq> []) \<and>
    (hasEvidence \<or> evidence_sets env s ids \<noteq> [] \<longrightarrow>
       set (fst (resolve_evidence env s ids candidates hasEvidence)) =
         \<Inter> (set (if hasEvidence then set candidates # evidence_sets env s ids else evidence_sets env s ids)))"
  using assms
proof (induction env s ids candidates hasEvidence rule: resolve_evidence.induct)
  case (1 env s candidates hasEvidence)
  then show ?case by (simp add: evidence_sets_def)
next
  case (2 env s gameId rest candidates hasEvidence)
  let ?found = "lr_candidates (Lookup env s gameId)"
  show ?case
  proof (cases "?found = []")
    case True
    then have "evidence_sets env s (gameId # rest) = evidence_sets env s rest" by (simp add: evidence_sets_def known_owners_def)
    with True "2.IH"(1) "2.prems" show ?thesis by simp
  next
    case False
    define f where "f = remdups_adj (sort ?found)"
    define c where "c = (if hasEvidence then set_intersection candidates f else f)"
    have f: "strictly_sorted f" "set f = known_owners env s gameId" by (simp_all add: f_def sort_unique known_owners_def)
    have es: "evidence_sets env s (gameId # rest) = known_owners env s gameId # evidence_sets env s rest"
      using False by (simp add: evidence_sets_def known_owners_def)
    have c: "strictly_sorted c" "set c = (if hasEvidence then set candidates \<inter> known_owners env s gameId else known_owners env s gameId)"
      using f "2.prems"(1) by (simp_all add: c_def set_intersection_set set_intersection_sorted)
    have step: "resolve_evidence env s (gameId # rest) candidates hasEvidence =
        (if c = [] then ([], True) else resolve_evidence env s rest c True)"
      using False by (simp add: Let_def c_def f_def)
    show ?thesis
    proof (cases "c = []")
      case True
      then have "set c = {}" by simp
      then have "\<Inter> (set (if hasEvidence then set candidates # evidence_sets env s (gameId # rest) else evidence_sets env s (gameId # rest))) = {}"
        unfolding c(2) es by (auto split: if_splits)
      then show ?thesis unfolding step using True es by simp
    next
      case ne: False
      have IH: "strictly_sorted (fst (resolve_evidence env s rest c True)) \<and> snd (resolve_evidence env s rest c True) \<and>
          set (fst (resolve_evidence env s rest c True)) = \<Inter> (set (set c # evidence_sets env s rest))"
        using "2.IH"(2) [OF refl False refl refl, folded f_def, folded c_def, OF ne c(1)] ne by simp
      have "\<Inter> (set (set c # evidence_sets env s rest)) =
          \<Inter> (set (if hasEvidence then set candidates # evidence_sets env s (gameId # rest) else evidence_sets env s (gameId # rest)))"
        unfolding c(2) es by auto
      with IH ne show ?thesis unfolding step using es by simp
    qed
  qed
qed

lemma resolve_target_spec:
  assumes "FindName env s n = None"
  shows "resolve_target env s n ids =
    (if evidence_sets env s ids \<noteq> [] \<and> (\<exists>e. \<Inter> (set (evidence_sets env s ids)) = {e})
     then the_elem (\<Inter> (set (evidence_sets env s ids))) else 0)"
proof -
  obtain c h where r: "resolve_evidence env s ids [] False = (c, h)" by (cases "resolve_evidence env s ids [] False")
  have spec: "strictly_sorted c" "h = (evidence_sets env s ids \<noteq> [])" "h \<longrightarrow> set c = \<Inter> (set (evidence_sets env s ids))"
    using resolve_evidence_spec [of "[]" False env s ids] unfolding r by auto
  have one: "(\<exists>e. set c = {e}) \<longleftrightarrow> (\<exists>e. c = [e])"
    using strictly_sorted_eq [OF spec(1)] by (metis empty_set list.simps(15) strictly_sorted_simps empty_iff)
  show ?thesis
  proof (cases "h \<and> (\<exists>e. c = [e])")
    case True
    then obtain e where e: "c = [e]" by blast
    then have "\<Inter> (set (evidence_sets env s ids)) = {e}" using True spec(3) by simp
    then show ?thesis using True e assms r spec(2) by (simp add: resolve_target_def)
  next
    case False
    then have cond: "\<not> (evidence_sets env s ids \<noteq> [] \<and> (\<exists>e. \<Inter> (set (evidence_sets env s ids)) = {e}))"
      using spec(2,3) one by metis
    have "(case (c, h) of ([e], True) \<Rightarrow> e | _ \<Rightarrow> 0) = 0"
      using False by (auto split: list.splits bool.splits)
    then have "resolve_target env s n ids = 0" using assms r by (simp add: resolve_target_def)
    then show ?thesis unfolding if_not_P [OF cond] .
  qed
qed

lemma first_local_Some:
  "first_local env s t locals = Some n \<Longrightarrow> n \<in> Trim env ` set locals \<and> (\<exists>e. FindName env s n = Some e \<and> pe_entityId e = t)"
  by (induction env s t locals rule: first_local.induct) (auto split: option.splits if_splits)

text \<open>
  An incoming name is replaced only by a local name of the same player. The player is the one
  the name is known for; for an unknown name it is the one player who owns every incoming identifier that
  has any owner, and there is none when these owners have no player or several in common. The result is
  then a local name of that player, trimmed, or the incoming name itself, trimmed.
\<close>

theorem preferred_name_of_same_player:
  "let n = Trim env incomingName; r = ResolvePreferredLocalName env s incomingName ids locals; t = resolve_target env s n ids in
   (r = n \<or> t \<noteq> 0 \<and> r \<in> Trim env ` set locals \<and> (\<exists>e. FindName env s r = Some e \<and> pe_entityId e = t)) \<and>
   t = (case FindName env s n of Some e \<Rightarrow> pe_entityId e
        | None \<Rightarrow> if evidence_sets env s ids \<noteq> [] \<and> (\<exists>e. \<Inter> (set (evidence_sets env s ids)) = {e})
            then the_elem (\<Inter> (set (evidence_sets env s ids))) else 0)"
proof -
  have "resolve_target env s n ids = (case FindName env s n of Some e \<Rightarrow> pe_entityId e
        | None \<Rightarrow> if evidence_sets env s ids \<noteq> [] \<and> (\<exists>e. \<Inter> (set (evidence_sets env s ids)) = {e})
            then the_elem (\<Inter> (set (evidence_sets env s ids))) else 0)" for n
    using resolve_target_spec [of env s n ids] by (cases "FindName env s n") (simp_all add: resolve_target_def)
  moreover have "r = n \<or> t \<noteq> 0 \<and> r \<in> Trim env ` set locals \<and> (\<exists>e. FindName env s r = Some e \<and> pe_entityId e = t)"
    if "n = Trim env incomingName" "r = ResolvePreferredLocalName env s incomingName ids locals" "t = resolve_target env s n ids" for n r t
    unfolding that ResolvePreferredLocalName_def Let_def
    by (auto split: option.splits dest: first_local_Some)
  ultimately show ?thesis unfolding Let_def by blast
qed


subsection \<open>The indexes\<close>

definition listed :: "(wstr \<rightharpoonup> int list) \<Rightarrow> wstr \<Rightarrow> int list" where
  "listed gi k = (case gi k of None \<Rightarrow> [] | Some es \<Rightarrow> es)"

definition has_key :: "snapshot \<Rightarrow> int list \<Rightarrow> wstr \<Rightarrow> bool" where
  "has_key s ids k \<longleftrightarrow> (\<exists>x \<in> set ids. \<exists>v. FindIdentifier s x = Some v \<and> id_canonicalKey v = k)"

definition owners :: "snapshot \<Rightarrow> player_entity list \<Rightarrow> wstr \<Rightarrow> int set" where
  "owners s es k = {pe_entityId e | e. e \<in> set es \<and> has_key s (pe_gameIds e) k}"

lemma index_game_Some:
  "index_game s eid x (gi, game) = Some (gi', game') \<longleftrightarrow>
   (\<exists>v. FindIdentifier s x = Some v \<and> gi' = gi(id_canonicalKey v \<mapsto> listed gi (id_canonicalKey v) @ [eid]) \<and>
      game' = game @ [id_displayText v])"
  by (auto simp: index_game_def listed_def throw_simps)

lemma index_game_fold:
  "fold_opt (index_game s eid) xs (gi, game) = Some (gi', game') \<Longrightarrow>
   (\<forall>k. set (listed gi' k) = set (listed gi k) \<union> (if has_key s xs k then {eid} else {})) \<and>
   (\<forall>k. gi' k = Some [] \<longrightarrow> gi k = Some [])"
proof (induction xs arbitrary: gi game)
  case Nil
  then show ?case by (simp add: has_key_def)
next
  case (Cons x xs)
  from Cons.prems obtain v where v: "FindIdentifier s x = Some v"
    and rest: "fold_opt (index_game s eid) xs (gi(id_canonicalKey v \<mapsto> listed gi (id_canonicalKey v) @ [eid]), game @ [id_displayText v]) = Some (gi', game')"
    by (auto simp: index_game_Some throw_simps)
  have "has_key s (x # xs) k \<longleftrightarrow> id_canonicalKey v = k \<or> has_key s xs k" for k by (auto simp: has_key_def v)
  with Cons.IH [OF rest] show ?case by (auto simp: listed_def split: if_splits)
qed

lemma index_name_fold:
  "fold_opt (index_name env eid game) names s = Some s' \<Longrightarrow>
   sn_nameIndex s' = (\<lambda>n. if n \<in> set names then Some eid else sn_nameIndex s n) \<and> distinct names \<and>
   (\<forall>n \<in> set names. sn_nameIndex s n = None) \<and>
   sn_entities s' = sn_entities s \<and> sn_identifiers s' = sn_identifiers s \<and> sn_identifierIndex s' = sn_identifierIndex s \<and>
   sn_gameIndex s' = sn_gameIndex s \<and> sn_entityIndex s' = sn_entityIndex s"
proof (induction names arbitrary: s)
  case (Cons n names)
  from Cons.prems obtain s1 where s1: "index_name env eid game n s = Some s1" and rest: "fold_opt (index_name env eid game) names s1 = Some s'"
    by (auto simp: throw_simps)
  from s1 have "sn_nameIndex s n = None" "sn_nameIndex s1 = (sn_nameIndex s)(n \<mapsto> eid)" "sn_entities s1 = sn_entities s"
    "sn_identifiers s1 = sn_identifiers s" "sn_identifierIndex s1 = sn_identifierIndex s" "sn_gameIndex s1 = sn_gameIndex s"
    "sn_entityIndex s1 = sn_entityIndex s"
    by (auto simp: index_name_def split: if_splits)
  with Cons.IH [OF rest] show ?case by (auto simp: fun_eq_iff split: if_splits)
qed simp

lemma FindIdentifier_same:
  "sn_identifiers s' = sn_identifiers s \<Longrightarrow> sn_identifierIndex s' = sn_identifierIndex s \<Longrightarrow> FindIdentifier s' = FindIdentifier s"
  by (simp add: FindIdentifier_def fun_eq_iff)

lemma index_entity_effect:
  assumes "index_entity env (i, e) s = Some s'"
  shows "sn_nameIndex s' = (\<lambda>n. if n \<in> set (pe_names e) then Some (pe_entityId e) else sn_nameIndex s n)"
    "distinct (pe_names e)" "\<forall>n \<in> set (pe_names e). sn_nameIndex s n = None"
    "set (listed (sn_gameIndex s') k) = set (listed (sn_gameIndex s) k) \<union> (if has_key s (pe_gameIds e) k then {pe_entityId e} else {})"
    "sn_gameIndex s' k = Some [] \<Longrightarrow> sn_gameIndex s k = Some []"
    "sn_entities s' = sn_entities s" "sn_identifiers s' = sn_identifiers s" "sn_identifierIndex s' = sn_identifierIndex s"
proof -
  let ?s1 = "s\<lparr>sn_entityIndex := (if sn_entityIndex s (pe_entityId e) = None
                then (sn_entityIndex s)(pe_entityId e \<mapsto> i) else sn_entityIndex s)\<rparr>"
  from assms obtain gi game s2 names games where
    g: "fold_opt (index_game ?s1 (pe_entityId e)) (pe_gameIds e) (sn_gameIndex s, []) = Some (gi, game)"
    and n: "fold_opt (index_name env (pe_entityId e) game) (pe_names e) (?s1\<lparr>sn_gameIndex := gi\<rparr>) = Some s2"
    and s': "s' = s2\<lparr>sn_v2Entities := JArr (elements (sn_v2Entities s2) @
        [make_object ([(ascii ''names'', names), (ascii ''gameIds'', games)] @
           (case pe_cloudId e of None \<Rightarrow> [] | Some c \<Rightarrow> [(ascii ''entityId'', JStr c)]))])\<rparr>"
    unfolding index_entity_def Let_def by (auto simp: throw_simps split: prod.splits)
  note G = index_game_fold [OF g] and N = index_name_fold [OF n]
  have hk: "has_key ?s1 ids k = has_key s ids k" for ids k by (simp add: has_key_def FindIdentifier_def)
  show "sn_nameIndex s' = (\<lambda>n. if n \<in> set (pe_names e) then Some (pe_entityId e) else sn_nameIndex s n)"
    "distinct (pe_names e)" "\<forall>n \<in> set (pe_names e). sn_nameIndex s n = None"
    "sn_entities s' = sn_entities s" "sn_identifiers s' = sn_identifiers s" "sn_identifierIndex s' = sn_identifierIndex s"
    using N unfolding s' by (simp_all add: fun_eq_iff)
  show "set (listed (sn_gameIndex s') k) = set (listed (sn_gameIndex s) k) \<union> (if has_key s (pe_gameIds e) k then {pe_entityId e} else {})"
    using G N unfolding s' hk [symmetric] by simp
  show "sn_gameIndex s' k = Some [] \<Longrightarrow> sn_gameIndex s k = Some []"
    using G N unfolding s' by simp
qed

definition indexed_prefix :: "snapshot \<Rightarrow> player_entity list \<Rightarrow> snapshot \<Rightarrow> bool" where
  "indexed_prefix s0 es s \<longleftrightarrow>
     sn_entities s = sn_entities s0 \<and> sn_identifiers s = sn_identifiers s0 \<and> sn_identifierIndex s = sn_identifierIndex s0 \<and>
     (\<forall>n x. sn_nameIndex s n = Some x \<longleftrightarrow> (\<exists>e \<in> set es. n \<in> set (pe_names e) \<and> x = pe_entityId e)) \<and>
     (\<forall>k. set (listed (sn_gameIndex s) k) = owners s0 es k) \<and> (\<forall>k. sn_gameIndex s k \<noteq> Some []) \<and>
     distinct (concat (map pe_names es))"

lemma index_entities:
  assumes "fold_opt (index_entity env) (zip is es) s = Some s'" "length is = length es" "indexed_prefix s0 seen s"
  shows "indexed_prefix s0 (seen @ es) s'"
  using assms
proof (induction es arbitrary: "is" seen s)
  case (Cons e es)
  obtain i js where "is": "is = i # js" using Cons.prems(2) by (cases "is") auto
  from Cons.prems(1) obtain s1 where s1: "index_entity env (i, e) s = Some s1"
    and rest: "fold_opt (index_entity env) (zip js es) s1 = Some s'"
    by (auto simp: "is" throw_simps)
  note E = index_entity_effect [OF s1]
  have inv: "indexed_prefix s0 seen s" by (rule Cons.prems(3))
  have find: "FindIdentifier s = FindIdentifier s0" using inv by (intro FindIdentifier_same) (simp_all add: indexed_prefix_def)
  then have hk: "has_key s ids k = has_key s0 ids k" for ids k by (simp add: has_key_def)
  have fresh: "\<forall>n \<in> set (pe_names e). \<forall>d \<in> set seen. n \<notin> set (pe_names d)"
  proof (intro ballI notI)
    fix n d assume "n \<in> set (pe_names e)" "d \<in> set seen" "n \<in> set (pe_names d)"
    then have "sn_nameIndex s n = Some (pe_entityId d)" using inv unfolding indexed_prefix_def by blast
    then show False using E(3) \<open>n \<in> set (pe_names e)\<close> by simp
  qed
  have "indexed_prefix s0 (seen @ [e]) s1"
    unfolding indexed_prefix_def
  proof (intro conjI allI)
    fix n x show "(sn_nameIndex s1 n = Some x) = (\<exists>e' \<in> set (seen @ [e]). n \<in> set (pe_names e') \<and> x = pe_entityId e')"
      using inv fresh unfolding E(1) indexed_prefix_def by auto
  next
    fix k show "set (listed (sn_gameIndex s1) k) = owners s0 (seen @ [e]) k"
      using inv unfolding E(4) hk indexed_prefix_def by (auto simp: owners_def)
    show "sn_gameIndex s1 k \<noteq> Some []" using E(5) inv by (auto simp: indexed_prefix_def)
  next
    show "distinct (concat (map pe_names (seen @ [e])))"
      using inv fresh E(2) by (auto simp: indexed_prefix_def)
  qed (use E(6,7,8) inv in \<open>simp_all add: indexed_prefix_def\<close>)
  from Cons.IH [OF rest _ this] Cons.prems(2) show ?case by (simp add: "is")
qed simp

lemma build_projections_indexes:
  assumes "build_projections env visit dump s = Some s'"
  shows "sn_entities s' = sn_entities s" "sn_identifiers s' = sn_identifiers s" "sn_identifierIndex s' = sn_identifierIndex s"
    "sn_nameIndex s' = sn_nameIndex s" "sn_gameIndex s' = sn_gameIndex s" "sn_entityIndex s' = sn_entityIndex s"
  using assms unfolding build_projections_def by (auto simp: throw_simps split: prod.splits)

lemma views_exact:
  assumes "BuildSnapshotViews env visit dump s = Some s'"
  shows "strictly_sorted (lr_candidates (Lookup env s' gameId)) \<and>
    set (lr_candidates (Lookup env s' gameId)) = owners s' (sn_entities s) (CanonicalKey env gameId) \<and>
    lr_conflict (Lookup env s' gameId) = (card (owners s' (sn_entities s) (CanonicalKey env gameId)) > 1) \<and>
    (sn_nameIndex s' name = Some x \<longleftrightarrow> (\<exists>e \<in> set (sn_entities s). name \<in> set (pe_names e) \<and> x = pe_entityId e)) \<and>
    distinct (concat (map pe_names (sn_entities s))) \<and> FindIdentifier s' = FindIdentifier (cleared s)"
proof -
  from assms obtain s1 where b: "build_indexes env s = Some s1" and p: "build_projections env visit dump s1 = Some s'"
    by (auto simp: BuildSnapshotViews_def throw_simps)
  from b obtain s2 where f: "fold_opt (index_entity env) (zip [0..<length (sn_entities s)] (sn_entities s)) (cleared s) = Some s2"
    and s1: "s1 = s2\<lparr>sn_gameIndex := (\<lambda>k. map_option (\<lambda>es. remdups_adj (sort es)) (sn_gameIndex s2 k))\<rparr>"
    by (auto simp: build_indexes_def throw_simps)
  have "indexed_prefix (cleared s) [] (cleared s)"
    by (simp add: indexed_prefix_def cleared_def listed_def owners_def)
  from index_entities [OF f _ this] have inv: "indexed_prefix (cleared s) (sn_entities s) s2" by simp
  note P = build_projections_indexes [OF p]
  have find: "FindIdentifier s' = FindIdentifier (cleared s)"
    using inv P by (intro FindIdentifier_same) (simp_all add: s1 indexed_prefix_def)
  have own: "owners s' es k = owners (cleared s) es k" for es k by (simp add: owners_def has_key_def find)
  let ?k = "CanonicalKey env gameId"
  have cand: "lr_candidates (Lookup env s' gameId) = remdups_adj (sort (listed (sn_gameIndex s2) ?k))"
    "lr_conflict (Lookup env s' gameId) = (length (lr_candidates (Lookup env s' gameId)) > 1)"
    using P(5) by (auto simp: Lookup_def s1 listed_def split: option.splits)
  have set_c: "set (lr_candidates (Lookup env s' gameId)) = owners s' (sn_entities s) ?k"
    using inv unfolding cand(1) own by (simp add: indexed_prefix_def)
  have sorted: "strictly_sorted (lr_candidates (Lookup env s' gameId))" unfolding cand(1) by (rule sort_unique)
  have "length (lr_candidates (Lookup env s' gameId)) = card (owners s' (sn_entities s) ?k)"
    unfolding set_c [symmetric] using strictly_sorted_distinct [OF sorted] by (simp add: distinct_card)
  moreover have "sn_nameIndex s' = sn_nameIndex s2" using P(4) by (simp add: s1)
  ultimately show ?thesis using sorted set_c cand(2) inv find by (simp add: indexed_prefix_def)
qed

text \<open>
  Property C19. When the views of a snapshot are built, its indexes are exact: a name leads to the one
  entity that has it (no name occurs twice), and looking up a game identifier gives, in increasing order
  and once each, precisely the entities with an identifier of the same canonical key; it is a conflict
  exactly when there are several.
\<close>

theorem views_indexes_exact:
  assumes "BuildSnapshotViews env visit dump s = Some s'"
  shows "strictly_sorted (lr_candidates (Lookup env s' gameId)) \<and>
    set (lr_candidates (Lookup env s' gameId)) = owners s' (sn_entities s) (CanonicalKey env gameId) \<and>
    lr_conflict (Lookup env s' gameId) = (card (owners s' (sn_entities s) (CanonicalKey env gameId)) > 1) \<and>
    (sn_nameIndex s' name = Some x \<longleftrightarrow> (\<exists>e \<in> set (sn_entities s). name \<in> set (pe_names e) \<and> x = pe_entityId e)) \<and>
    distinct (concat (map pe_names (sn_entities s)))"
  using views_exact [OF assms] by simp

text \<open>One player with one name and one identifier.\<close>

definition demo_snapshot :: snapshot where
  "demo_snapshot = fallback_start utf8_env [([0x41], [[0x31]])] (JObj [])"

lemma demo_snapshot_simp:
  "demo_snapshot = \<lparr>sn_revision = 1, sn_persisted = False,
     sn_entities = [\<lparr>pe_entityId = 1, pe_cloudId = None, pe_names = [[0x41]], pe_gameIds = [1]\<rparr>],
     sn_identifiers = [\<lparr>id_identifierId = 1, id_kind = Game, id_canonicalKey = [0x31, 0x1F], id_displayText = [0x31], id_spellings = []\<rparr>],
     sn_nameIndex = Map.empty, sn_gameIndex = Map.empty, sn_entityIndex = Map.empty, sn_identifierIndex = Map.empty,
     sn_legacy = [], sn_formattedLegacy = [], sn_identityMetadata = JObj [],
     sn_identityState = make_object [], sn_v2Entities = JArr [], sn_legacyPayload = [], sn_appendPayload = []\<rparr>"
  by (simp add: demo_snapshot_def fallback_start_def fallback_entity_def fallback_id_def utf8_env_def
    CanonicalKey_def Trim_def trim_by_def is_sharp_def ascii_space_def)




lemma demo_analysis:
  "let a = AnalyzeIndexed id [\<lparr>ae_name = [0x41], ae_ids = [[0x31]]\<rparr>] (Some (CanonicalKey utf8_env)) in
   ia_exactGroups a = [] \<and> ia_overlapSuggestions a = []"
proof -
  have k: "CanonicalKey utf8_env [0x31] = [0x31, 0x1F]" 
    by (simp add: CanonicalKey_def utf8_env_def Trim_def trim_by_def is_sharp_def ascii_space_def)
  have o: "EntryOrder [\<lparr>ae_name = [0x41], ae_ids = [[0x31]]\<rparr>] = [0]" by (simp add: EntryOrder_def)
  have c: "in_keys (cg_interner (cluster_entries (Some (CanonicalKey utf8_env)) [\<lparr>ae_name = [0x41], ae_ids = [[0x31]]\<rparr>])) = [[0x31, 0x1F]]"
    "cg_clusters (cluster_entries (Some (CanonicalKey utf8_env)) [\<lparr>ae_name = [0x41], ae_ids = [[0x31]]\<rparr>]) = [\<lparr>cl_ids = [0], cl_names = [[0x41]]\<rparr>]"
    by (simp_all add: cluster_entries_def o cluster_entry_def Let_def intern_raw_def k AUTO_GROUP_SHARED_ID_THRESHOLD_def)
  show ?thesis
    by (simp add: AnalyzeIndexed_def Let_def c build_postings_def count_pairs_def count_bucket_def sort_key_def CompleteIndexedGroups_def 
     indexed_seed_def BuildAnalysis_def indexed_overlaps_def exact_groups_def names_by_group_def MAX_INDEX_SUGGESTIONS_def AUTO_GROUP_SHARED_ID_THRESHOLD_def)
qed

lemma demo_views: "\<exists>s. BuildSnapshotViews utf8_env id (\<lambda>_. Some []) demo_snapshot = Some s"
proof -
  obtain s1 where s1: "build_indexes utf8_env demo_snapshot = Some s1" "sn_entities s1 = sn_entities demo_snapshot" 
    "sn_legacy s1 = [([0x41], [[0x31]])]" "sn_formattedLegacy s1 = [([0x41], [0x28, 0x31, 0x29])]" "sn_identityMetadata s1 = JObj []"
    "FindIdentifier s1 1 = Some (hd (sn_identifiers demo_snapshot))"
    by (simp add: demo_snapshot_simp build_indexes_def cleared_def index_identifiers_def index_entity_def index_game_def index_name_def
      FindIdentifier_def Strings_def ToUtf8_def utf8_env_def wide_to_utf8_def utf8_text_def utf8_char_def INT_MAX_def emplace_key_def
      FormatIds_def Trim_def trim_by_def ascii_space_def CanonicalKey_def is_sharp_def)
  have utf8: "ToUtf8 utf8_env [0x41] = Some [0x41]" "ToUtf8 utf8_env [0x31] = Some [0x31]"
    "ToUtf8 utf8_env [0x28, 0x31, 0x29] = Some [0x28, 0x31, 0x29]"
    by (simp_all add: ToUtf8_def utf8_env_def wide_to_utf8_def utf8_text_def utf8_char_def INT_MAX_def)
  have ev: "CollectIdentityEvidence utf8_env s1 = Some [\<lparr>ae_name = [0x41], ae_ids = [[0x31]]\<rparr>]"
    by (simp add: CollectIdentityEvidence_def s1 evidence_of_entity_def evidence_of_name_def demo_snapshot_simp jcontains_def)
  obtain a where a: "AnalyzeEvidence utf8_env id s1 [\<lparr>ae_name = [0x41], ae_ids = [[0x31]]\<rparr>] = Some a" 
      "ia_exactGroups a = []" "ia_overlapSuggestions a = []"
    using demo_analysis by (simp add: AnalyzeEvidence_def s1 Let_def filter_opt_def jvalue_def split_sets_def jcontains_def)
  have "\<exists>s. build_projections utf8_env id (\<lambda>_. Some []) s1 = Some s"
    by (simp add: build_projections_def s1 ev a project_entry_def append_entity_group_def demo_snapshot_simp Let_def
     Strings_def utf8 jcontains_def)
  then show ?thesis by (simp add: BuildSnapshotViews_def s1)
qed

theorem views_indexes_exact_witness:
  "\<exists>s. BuildSnapshotViews utf8_env id (\<lambda>_. Some []) demo_snapshot = Some s \<and>
     set (lr_candidates (Lookup utf8_env s [0x20, 0x31])) = owners s (sn_entities demo_snapshot) [0x31, 0x1F] \<and>
     sn_nameIndex s [0x41] = Some 1"
proof -
  obtain s where s: "BuildSnapshotViews utf8_env id (\<lambda>_. Some []) demo_snapshot = Some s" using demo_views by blast
  have "CanonicalKey utf8_env [0x20, 0x31] = [0x31, 0x1F]"
    by (simp add: CanonicalKey_def utf8_env_def Trim_def trim_by_def is_sharp_def ascii_space_def)
  with views_indexes_exact [OF s, of "[0x20, 0x31]" "[0x41]" 1] s show ?thesis by (simp add: demo_snapshot_simp)
qed

subsection \<open>The members of a saved group\<close>

definition widen_bound :: "snapshot \<Rightarrow> wstr list \<Rightarrow> nat" where
  "widen_bound s names = length names + length (concat (map pe_names (sn_entities s)))"

text \<open>What was added to the names the loop started with: new, distinct names of entities.\<close>

definition widened :: "snapshot \<Rightarrow> wstr list \<Rightarrow> wstr list \<Rightarrow> wstr set \<Rightarrow> bool" where
  "widened s names0 names seen \<longleftrightarrow> (\<exists>added. names = names0 @ added \<and> distinct added \<and>
     set added \<subseteq> set (concat (map pe_names (sn_entities s))) \<and> set names = seen)"

lemma widened_length: "widened s names0 names seen \<Longrightarrow> length names \<le> widen_bound s names0"
proof -
  have "length added \<le> length all_names" if "distinct added" "set added \<subseteq> set all_names" for added all_names :: "wstr list"
    using card_mono [OF finite_set that(2)] card_length [of all_names] distinct_card [OF that(1)] by simp
  then show "widened s names0 names seen \<Longrightarrow> length names \<le> widen_bound s names0"
    unfolding widened_def widen_bound_def by (auto simp del: set_concat)
qed

lemma widened_fold:
  "widened s names0 names seen \<Longrightarrow> set new \<subseteq> set (concat (map pe_names (sn_entities s))) \<Longrightarrow> set names0 \<subseteq> seen \<Longrightarrow>
   fold (\<lambda>name (names, seen). if name \<in> seen then (names, seen) else (names @ [name], insert name seen)) new (names, seen) = (names', seen') \<Longrightarrow>
   widened s names0 names' seen' \<and> set names0 \<subseteq> seen'"
proof (induction new arbitrary: names seen)
  case (Cons n new)
  show ?case
  proof (cases "n \<in> seen")
    case False
    have "widened s names0 (names @ [n]) (insert n seen)"
      using Cons.prems(1,2) False unfolding widened_def by force
    with Cons False show ?thesis by auto
  qed (use Cons in auto)
qed simp

lemma FindName_names:
  "FindName env s n = Some e \<Longrightarrow> \<forall>i \<in> ran (sn_entityIndex s). i < length (sn_entities s) \<Longrightarrow>
   set (pe_names e) \<subseteq> set (concat (map pe_names (sn_entities s)))"
  by (auto simp: FindName_def throw_simps) (metis nth_mem ranI)

declare widen_names.simps [simp del]

lemma widen_stop: "length names \<le> i \<Longrightarrow> widen_names env s fuel i names seen visited = names"
  by (simp add: widen_names.simps)

lemma widen_step:
  "i < length names \<Longrightarrow> widen_names env s (Suc fuel) i names seen visited =
     (case FindName env s (names ! i) of
        None \<Rightarrow> widen_names env s fuel (Suc i) names seen visited
      | Some e \<Rightarrow>
          if pe_entityId e \<in> visited then widen_names env s fuel (Suc i) names seen visited
          else
            let (names', seen') = fold (\<lambda>name (names, seen). if name \<in> seen then (names, seen)
                  else (names @ [name], insert name seen)) (pe_names e) (names, seen)
            in widen_names env s fuel (Suc i) names' seen' (insert (pe_entityId e) visited))"
  by (subst widen_names.simps, unfold diff_Suc_1) simp

lemma widen_same:
  assumes "\<forall>i \<in> ran (sn_entityIndex s). i < length (sn_entities s)"
  shows "widened s names0 names seen \<Longrightarrow> set names0 \<subseteq> seen \<Longrightarrow> widen_bound s names0 \<le> i + f \<Longrightarrow> widen_bound s names0 \<le> i + g \<Longrightarrow>
    widen_names env s f i names seen visited = widen_names env s g i names seen visited"
proof (induction f arbitrary: g i names seen visited)
  case 0
  have "length names \<le> i" using widened_length [OF "0.prems"(1)] "0.prems"(3) by simp
  then show ?case by (simp add: widen_stop)
next
  case (Suc f)
  show ?case
  proof (cases "i < length names")
    case True
    then obtain g' where g: "g = Suc g'" using widened_length [OF Suc.prems(1)] Suc.prems(4) by (cases g) auto
    show ?thesis
    proof (cases "FindName env s (names ! i)")
      case None
      then show ?thesis using Suc.IH [OF Suc.prems(1,2), of "Suc i" g'] Suc.prems(3,4)
        unfolding g widen_step [OF True] by simp
    next
      case (Some e)
      obtain names' seen' where step: "fold (\<lambda>name (names, seen). if name \<in> seen then (names, seen)
          else (names @ [name], insert name seen)) (pe_names e) (names, seen) = (names', seen')"
        by (cases "fold (\<lambda>name (names, seen). if name \<in> seen then (names, seen)
          else (names @ [name], insert name seen)) (pe_names e) (names, seen)")
      have "widened s names0 names' seen' \<and> set names0 \<subseteq> seen'"
        using widened_fold [OF Suc.prems(1) FindName_names [OF Some assms] Suc.prems(2) step] .
      then show ?thesis using Suc.IH [OF Suc.prems(1,2), of "Suc i" g'] Suc.IH [of names' seen' "Suc i" g'] Suc.prems(3,4)
        unfolding g widen_step [OF True] Some option.case step by simp
    qed
  qed (simp add: widen_stop)
qed

text \<open>
  The loop that widens a saved group ends: it visits no more positions than the names it starts
  with and all names of the snapshot together, so that giving it more iterations changes nothing.
\<close>

theorem widening_ends:
  assumes "\<forall>i \<in> ran (sn_entityIndex s). i < length (sn_entities s)" "widen_bound s names \<le> fuel"
  shows "widen_names env s fuel 0 names (set names) {} = widen_names env s (widen_bound s names) 0 names (set names) {}"
proof (rule widen_same [OF assms(1), of names])
  show "widened s names names (set names)" by (simp add: widened_def)
qed (use assms(2) in simp_all)

theorem widening_ends_witness:
  "widen_names utf8_env demo_snapshot 7 0 [[0x41]] {[0x41]} {} = [[0x41]]"
proof -
  have b: "widen_bound demo_snapshot [[0x41]] = 2" by (simp add: widen_bound_def demo_snapshot_simp)
  have "widen_names utf8_env demo_snapshot 7 0 [[0x41]] (set [[0x41]]) {} =
      widen_names utf8_env demo_snapshot (widen_bound demo_snapshot [[0x41]]) 0 [[0x41]] (set [[0x41]]) {}"
    using b by (intro widening_ends) (simp_all add: demo_snapshot_simp)
  moreover have "FindName utf8_env demo_snapshot n = None" for n by (simp add: FindName_def demo_snapshot_simp)
  ultimately show ?thesis unfolding b by (simp add: numeral_2_eq_2 widen_step widen_stop)
qed

subsection \<open>The fallback snapshot\<close>

text \<open>A pool numbers its identifiers from one; no key occurs twice and none is empty.\<close>

definition pool_ok :: "library_identifier list \<Rightarrow> bool" where
  "pool_ok pool \<longleftrightarrow> (\<forall>i < length pool. id_identifierId (pool ! i) = int i + 1 \<and> id_canonicalKey (pool ! i) \<noteq> []) \<and>
     distinct (map id_canonicalKey pool)"

definition pool_keys :: "library_identifier list \<Rightarrow> int list \<Rightarrow> wstr set" where
  "pool_keys pool xs = {id_canonicalKey (pool ! i) | i. i < length pool \<and> int i + 1 \<in> set xs}"

definition in_pool :: "library_identifier list \<Rightarrow> int list \<Rightarrow> bool" where
  "in_pool pool xs \<longleftrightarrow> (\<forall>x \<in> set xs. 1 \<le> x \<and> x \<le> int (length pool))"

lemma pool_keys_append: "in_pool pool xs \<Longrightarrow> pool_keys (pool @ new) xs = pool_keys pool xs"
proof -
  assume "in_pool pool xs"
  then have "i < length (pool @ new) \<and> int i + 1 \<in> set xs \<longleftrightarrow> i < length pool \<and> int i + 1 \<in> set xs" for i
    by (force simp: in_pool_def)
  then show ?thesis by (auto simp: pool_keys_def nth_append)
qed

lemma in_pool_append: "in_pool pool xs \<Longrightarrow> in_pool (pool @ new) xs"
  by (auto simp: in_pool_def)

lemma fallback_id_effect:
  assumes "fallback_id env raw (pool, xs) = (pool', xs')" "pool_ok pool" "in_pool pool xs"
  shows "\<exists>new. pool' = pool @ new \<and> pool_ok pool' \<and> in_pool pool' xs' \<and>
    pool_keys pool' xs' = pool_keys pool xs \<union> ({CanonicalKey env raw} - {[]})"
proof (cases "CanonicalKey env raw = []")
  case True
  then show ?thesis using assms by (auto simp: fallback_id_def)
next
  case False
  let ?key = "CanonicalKey env raw"
  show ?thesis
  proof (cases "List.find (\<lambda>v. id_canonicalKey v = ?key) pool")
    case (Some v)
    then obtain i where i: "i < length pool" "v = pool ! i" "id_canonicalKey v = ?key" by (auto simp: find_Some_iff)
    have x: "id_identifierId v = int i + 1" using assms(2) i by (simp add: pool_ok_def)
    have eq: "pool' = pool" "set xs' = insert (int i + 1) (set xs)"
      using assms(1) False Some x by (auto simp: fallback_id_def Let_def split: if_splits)
    have "pool_keys pool xs' = pool_keys pool xs \<union> {?key}"
      unfolding pool_keys_def eq i(3) [symmetric] i(2) using i(1) by auto
    then show ?thesis using eq(1) assms(2,3) i(1) False by (simp add: in_pool_def eq(2))
  next
    case None
    define v where "v = \<lparr>id_identifierId = int (length pool) + 1, id_kind = Game, id_canonicalKey = ?key,
      id_displayText = Trim env raw, id_spellings = []\<rparr>"
    have new: "int (length pool) + 1 \<notin> set xs" using assms(3) by (auto simp: in_pool_def)
    have eq: "pool' = pool @ [v]" "xs' = xs @ [int (length pool) + 1]"
      using assms(1) False None new by (auto simp: fallback_id_def Let_def v_def split: if_splits)
    have fresh: "?key \<notin> id_canonicalKey ` set pool" using None by (auto simp: find_None_iff)
    have ok: "pool_ok pool'" using assms(2) fresh False by (auto simp: eq pool_ok_def nth_append v_def less_Suc_eq)
    have "pool_keys pool' xs' = pool_keys pool' xs \<union> {?key}"
      unfolding pool_keys_def eq by (force simp: v_def nth_append)
    then have "pool_keys pool' xs' = pool_keys pool xs \<union> {?key}" using pool_keys_append [OF assms(3)] eq(1) by simp
    moreover have "in_pool pool' xs'" using assms(3) by (auto simp: in_pool_def eq)
    ultimately show ?thesis using ok eq(1) False by simp
  qed
qed

lemma fallback_ids_effect:
  assumes "fold (fallback_id env) raws (pool, xs) = (pool', xs')" "pool_ok pool" "in_pool pool xs"
  shows "\<exists>new. pool' = pool @ new \<and> pool_ok pool' \<and> in_pool pool' xs' \<and>
    pool_keys pool' xs' = pool_keys pool xs \<union> (CanonicalKey env ` set raws - {[]})"
  using assms
proof (induction raws arbitrary: pool xs)
  case (Cons raw raws)
  obtain pool1 xs1 where one: "fallback_id env raw (pool, xs) = (pool1, xs1)" by (cases "fallback_id env raw (pool, xs)")
  from fallback_id_effect [OF one Cons.prems(2,3)] obtain new1 where n1: "pool1 = pool @ new1" "pool_ok pool1" "in_pool pool1 xs1"
    "pool_keys pool1 xs1 = pool_keys pool xs \<union> ({CanonicalKey env raw} - {[]})" by blast
  from Cons.IH [OF _ n1(2,3)] Cons.prems(1) one obtain new2 where "pool' = pool1 @ new2" "pool_ok pool'" "in_pool pool' xs'"
    "pool_keys pool' xs' = pool_keys pool1 xs1 \<union> (CanonicalKey env ` set raws - {[]})" by auto
  then show ?case using n1 by auto
qed auto

text \<open>The entities of the lines seen so far.\<close>

definition fallback_rows :: "library_env \<Rightarrow> (wstr \<times> wstr list) list \<Rightarrow> library_identifier list \<Rightarrow> player_entity list \<Rightarrow> bool" where
  "fallback_rows env lines pool entities \<longleftrightarrow> pool_ok pool \<and> length entities = length lines \<and>
     (\<forall>i < length lines. pe_entityId (entities ! i) = int i + 1 \<and> pe_names (entities ! i) = [fst (lines ! i)] \<and>
        in_pool pool (pe_gameIds (entities ! i)) \<and>
        pool_keys pool (pe_gameIds (entities ! i)) = CanonicalKey env ` set (snd (lines ! i)) - {[]})"

lemma fallback_fold_rows:
  "fold (fallback_entity env) rest (pool, entities) = (pool', entities') \<Longrightarrow> fallback_rows env lines pool entities \<Longrightarrow>
   fallback_rows env (lines @ rest) pool' entities'"
proof (induction rest arbitrary: lines pool entities)
  case (Cons line rest)
  obtain name ids where line: "line = (name, ids)" by (cases line)
  obtain pool1 xs where one: "fold (fallback_id env) ids (pool, []) = (pool1, xs)" by (cases "fold (fallback_id env) ids (pool, [])")
  have inv: "fallback_rows env lines pool entities" by (rule Cons.prems(2))
  then have "pool_ok pool" by (simp add: fallback_rows_def)
  from fallback_ids_effect [OF one this] obtain new where n: "pool1 = pool @ new" "pool_ok pool1" "in_pool pool1 xs"
    "pool_keys pool1 xs = CanonicalKey env ` set ids - {[]}" by (auto simp: in_pool_def pool_keys_def)
  define e where "e = \<lparr>pe_entityId = int (length entities) + 1, pe_cloudId = None, pe_names = [name], pe_gameIds = xs\<rparr>"
  have step: "fallback_entity env line (pool, entities) = (pool1, entities @ [e])"
    by (simp add: fallback_entity_def line one e_def)
  have "fallback_rows env (lines @ [line]) pool1 (entities @ [e])"
    using inv n by (auto simp: fallback_rows_def less_Suc_eq nth_append e_def line pool_keys_append in_pool_append)
  from Cons.IH [OF _ this] Cons.prems(1) step show ?case by simp
qed simp

lemma index_identifiers_pool:
  assumes "pool_ok pool"
  shows "index_identifiers pool x = (if 1 \<le> x \<and> x \<le> int (length pool) then Some (nat (x - 1)) else None)"
proof -
  have "fold (\<lambda>(i, v) m. if m (id_identifierId v) = None then m(id_identifierId v \<mapsto> i) else m) (zip [0..<n] (take n pool)) Map.empty
      = (\<lambda>x. if 1 \<le> x \<and> x \<le> int n then Some (nat (x - 1)) else None)" if "n \<le> length pool" for n
    using that
  proof (induction n)
    case (Suc n)
    have "take (Suc n) pool = take n pool @ [pool ! n]" using Suc.prems by (simp add: take_Suc_conv_app_nth)
    moreover have "id_identifierId (pool ! n) = int n + 1" using assms Suc.prems by (simp add: pool_ok_def)
    ultimately show ?case using Suc by (auto simp: fun_eq_iff)
  qed (auto simp: fun_eq_iff)
  from this [of "length pool"] show ?thesis by (simp add: index_identifiers_def)
qed


lemma has_key_pool:
  assumes "FindIdentifier s = FindIdentifier (cleared s0)" "sn_identifiers s0 = pool" "pool_ok pool" "in_pool pool xs"
  shows "has_key s xs k \<longleftrightarrow> k \<in> pool_keys pool xs"
proof -
  have F: "FindIdentifier s x = Some (pool ! nat (x - 1)) \<and> nat (x - 1) < length pool \<and> int (nat (x - 1)) + 1 = x" if "x \<in> set xs" for x
    using assms that by (auto simp: FindIdentifier_def cleared_def index_identifiers_pool in_pool_def)
  show ?thesis
  proof
    assume "has_key s xs k"
    then obtain x where "x \<in> set xs" "id_canonicalKey (pool ! nat (x - 1)) = k" using F by (auto simp: has_key_def)
    then show "k \<in> pool_keys pool xs" using F [of x] unfolding pool_keys_def by (intro CollectI exI [of _ "nat (x - 1)"]) auto
  next
    assume "k \<in> pool_keys pool xs"
    then obtain i where i: "k = id_canonicalKey (pool ! i)" "int i + 1 \<in> set xs" by (auto simp: pool_keys_def)
    then show "has_key s xs k" using F [of "int i + 1"] unfolding has_key_def by (intro bexI [of _ "int i + 1"]) auto
  qed
qed

lemma fallback_views:
  assumes "BuildFallbackSnapshot env visit dump library metadata = Some s"
  obtains s0 pool entities where "BuildSnapshotViews env visit dump s0 = Some s" "sn_entities s0 = entities" "sn_identifiers s0 = pool"
    "fallback_rows env library pool entities"
proof -
  obtain pool entities where f: "fold (fallback_entity env) library ([], []) = (pool, entities)"
    by (cases "fold (fallback_entity env) library ([], [])")
  have "fallback_rows env [] [] []" by (simp add: fallback_rows_def pool_ok_def)
  from fallback_fold_rows [OF f this] have rows: "fallback_rows env library pool entities" by simp
  let ?s = "fallback_start env library metadata"
  have s: "sn_entities ?s = entities" "sn_identifiers ?s = pool" by (simp_all add: fallback_start_def f)
  from assms consider "BuildSnapshotViews env visit dump ?s = Some s"
    | "BuildSnapshotViews env visit dump (?s\<lparr>sn_identityMetadata := make_object []\<rparr>) = Some s"
    by (auto simp: BuildFallbackSnapshot_def Let_def split: option.splits if_splits)
  then show thesis using that [OF _ _ _ rows] s by cases auto
qed

text \<open>
  Property C20. The fallback snapshot of a legacy library answers like the library itself: looking up a game
  identifier gives, in order and once each, the numbers (counted from one) of the lines that list an
  identifier with the same key, and a name leads to the number of its line. An identifier with the empty key has no owner.
\<close>

theorem fallback_snapshot_answers_library:
  assumes "BuildFallbackSnapshot env visit dump library metadata = Some s"
  shows "lr_candidates (Lookup env s gameId) = map (\<lambda>i. int i + 1)
      (filter (\<lambda>i. CanonicalKey env gameId \<noteq> [] \<and> CanonicalKey env gameId \<in> CanonicalKey env ` set (snd (library ! i))) [0..<length library]) \<and>
    (sn_nameIndex s name = Some x \<longleftrightarrow> (\<exists>i < length library. name = fst (library ! i) \<and> x = int i + 1)) \<and>
    distinct (map fst library)"
proof -
  obtain s0 pool entities where v: "BuildSnapshotViews env visit dump s0 = Some s" "sn_entities s0 = entities" "sn_identifiers s0 = pool"
    and rows: "fallback_rows env library pool entities" using fallback_views [OF assms] .
  note exact = views_exact [OF v(1), of gameId name x, unfolded v(2)]
  let ?k = "CanonicalKey env gameId"
  let ?hit = "\<lambda>i. ?k \<noteq> [] \<and> ?k \<in> CanonicalKey env ` set (snd (library ! i))"
  have len: "length entities = length library" using rows by (simp add: fallback_rows_def)
  have at: "pe_entityId (entities ! i) = int i + 1" "pe_names (entities ! i) = [fst (library ! i)]"
    "has_key s (pe_gameIds (entities ! i)) ?k \<longleftrightarrow> ?hit i" if "i < length library" for i
    using rows that has_key_pool [of s s0 pool "pe_gameIds (entities ! i)" ?k] exact v(3) by (auto simp: fallback_rows_def)
  have "owners s entities ?k = (\<lambda>i. pe_entityId (entities ! i)) ` {i. i < length library \<and> has_key s (pe_gameIds (entities ! i)) ?k}"
    unfolding owners_def in_set_conv_nth len by blast
  also have "\<dots> = (\<lambda>i. int i + 1) ` {i. i < length library \<and> ?hit i}"
    by (intro image_cong Collect_cong conj_cong) (simp_all add: at(1,3))
  finally have "owners s entities ?k = (\<lambda>i. int i + 1) ` {i. i < length library \<and> ?hit i}" .
  moreover have "strictly_sorted (map (\<lambda>i. int i + 1) (filter ?hit [0..<n]))" for n
    by (induction n) (auto simp: strictly_sorted_def sorted_wrt_append)
  ultimately have "lr_candidates (Lookup env s gameId) = map (\<lambda>i. int i + 1) (filter ?hit [0..<length library])"
    using exact by (intro strictly_sorted_eq) auto
  moreover have "(\<exists>e \<in> set entities. name \<in> set (pe_names e) \<and> x = pe_entityId e) \<longleftrightarrow>
      (\<exists>i < length library. name = fst (library ! i) \<and> x = int i + 1)"
    unfolding Bex_def in_set_conv_nth len using at by auto
  moreover have "map pe_names entities = map (\<lambda>l. [fst l]) library"
    using at(2) len by (intro nth_equalityI) auto
  then have "concat (map pe_names entities) = map fst library" by (simp add: concat_map_singleton)
  ultimately show ?thesis using exact by simp
qed

theorem fallback_snapshot_answers_library_witness:
  "\<exists>s. BuildFallbackSnapshot utf8_env id (\<lambda>_. Some []) [([0x41], [[0x31]])] (JObj []) = Some s \<and>
     lr_candidates (Lookup utf8_env s [0x20, 0x31]) = [1] \<and> sn_nameIndex s [0x41] = Some 1"
proof -
  obtain s where s: "BuildFallbackSnapshot utf8_env id (\<lambda>_. Some []) [([0x41], [[0x31]])] (JObj []) = Some s"
    using demo_views by (auto simp: BuildFallbackSnapshot_def demo_snapshot_def)
  have "CanonicalKey utf8_env [0x20, 0x31] = [0x31, 0x1F]" "CanonicalKey utf8_env [0x31] = [0x31, 0x1F]"
    by (simp_all add: CanonicalKey_def utf8_env_def Trim_def trim_by_def is_sharp_def ascii_space_def)
  with fallback_snapshot_answers_library [OF s, of "[0x20, 0x31]" "[0x41]" 1] s show ?thesis by simp
qed

end
