(* ===== verification/PushPolicy.thy ===== *)
theory PushPolicy
  imports Json Loops "HOL-Library.List_Lexorder" "HOL-Library.Product_Lexorder"
begin

unbundle bit_operations_syntax

text \<open>
  Which submissions of the player library are sent (\<^verbatim>\<open>PlayerLibraryPushPolicy.cpp\<close>): the canonical payload,
  the scope and signature of a submission, the status of a reply, and the tracker of the last acknowledged
  signature. The SHA-256 provider of Windows and json printing are parameters; a failed hash is \<open>None\<close>, and
  so is a thrown exception.
\<close>

datatype SubmissionStatus = Failed | PendingReview | Accepted | NoChanges | AlreadyPending

type_synonym sha_provider = "bytes \<Rightarrow> bytes option"
type_synonym json_dump = "json \<Rightarrow> bytes option"

definition SignaturePrefix :: bytes where "SignaturePrefix = ascii ''v2-library-sha256-v1:''"

definition ULONG_MAX :: nat where "ULONG_MAX = 4294967295"

definition hex_char :: "8 word \<Rightarrow> bool" where
  "hex_char ch \<longleftrightarrow> 0x30 \<le> ch \<and> ch \<le> 0x39 \<or> 0x61 \<le> ch \<and> ch \<le> 0x66"

definition ValidSignature :: "bytes \<Rightarrow> bool" where
  "ValidSignature signature \<longleftrightarrow>
     length signature = length SignaturePrefix + 64 \<and> take (length SignaturePrefix) signature = SignaturePrefix \<and>
     list_all hex_char (drop (length SignaturePrefix) signature)"

definition hex_table :: bytes where "hex_table = ascii ''0123456789abcdef''"

definition Sha256 :: "sha_provider \<Rightarrow> bytes \<Rightarrow> bytes" where
  "Sha256 sha text_bytes =
     (if length text_bytes > ULONG_MAX then []
      else case sha text_bytes of
        None \<Rightarrow> []
      | Some bs \<Rightarrow> concat (map (\<lambda>b. [hex_table ! unat (drop_bit 4 b), hex_table ! unat (b AND 15)]) bs))"

subsection \<open>The canonical payload\<close>

text \<open>
  A sorted array without repetitions. All elements are strings here, which the json library orders by their
  bytes.
\<close>

definition SortedStrings :: "json \<Rightarrow> bytes list option" where
  "SortedStrings j =
     (if \<not> is_array j then None
      else if list_ex (\<lambda>v. \<not> is_string v \<or> get_string v = []) (elements j) then None
      else Some (remdups_adj (sort (map get_string (elements j)))))"

text \<open>The order of the library on strings, arrays and objects, which are compared member by member.\<close>

fun lex_less :: "('a \<Rightarrow> 'a \<Rightarrow> bool) \<Rightarrow> 'a list \<Rightarrow> 'a list \<Rightarrow> bool" where
  "lex_less lt _ [] = False"
| "lex_less lt [] (y # ys) = True"
| "lex_less lt (x # xs) (y # ys) = (lt x y \<or> \<not> lt y x \<and> lex_less lt xs ys)"

fun strings_less :: "json \<Rightarrow> json \<Rightarrow> bool" where
  "strings_less (JStr a) (JStr b) = (a < b)"
| "strings_less (JArr xs) (JArr ys) = lex_less (<) (map get_string xs) (map get_string ys)"
| "strings_less _ _ = False"

fun member_less :: "bytes \<times> json \<Rightarrow> bytes \<times> json \<Rightarrow> bool" where
  "member_less (k, a) (l, b) = (k < l \<or> \<not> l < k \<and> strings_less a b)"

fun row_less :: "json \<Rightarrow> json \<Rightarrow> bool" where
  "row_less (JObj kvs) (JObj lvs) = lex_less member_less kvs lvs"
| "row_less _ _ = False"

fun insert_by :: "('a \<Rightarrow> 'a \<Rightarrow> bool) \<Rightarrow> 'a \<Rightarrow> 'a list \<Rightarrow> 'a list" where
  "insert_by lt x [] = [x]"
| "insert_by lt x (y # ys) = (if lt y x then y # insert_by lt x ys else x # y # ys)"

definition sort_by :: "('a \<Rightarrow> 'a \<Rightarrow> bool) \<Rightarrow> 'a list \<Rightarrow> 'a list" where
  "sort_by lt xs = foldr (insert_by lt) xs []"

definition canonical_row :: "json \<Rightarrow> json option" where
  "canonical_row row =
     (if \<not> is_object row \<or> \<not> jcontains (ascii ''names'') row then None
      else do {
        names \<leftarrow> SortedStrings (jget (ascii ''names'') row);
        if names = [] then None
        else do {
          gameIds \<leftarrow> SortedStrings (if jcontains (ascii ''gameIds'') row then jget (ascii ''gameIds'') row else JArr []);
          let entity = [(ascii ''names'', JArr (map JStr names)), (ascii ''gameIds'', JArr (map JStr gameIds))];
          if jcontains (ascii ''entityId'') row \<and> jget (ascii ''entityId'') row \<noteq> JNull
          then if \<not> is_string (jget (ascii ''entityId'') row) \<or> get_string (jget (ascii ''entityId'') row) = [] then None
               else Some (make_object (entity @ [(ascii ''entityId'', jget (ascii ''entityId'') row)]))
          else Some (make_object entity) } })"

definition CanonicalPayload :: "json \<Rightarrow> json option" where
  "CanonicalPayload payload =
     (if \<not> is_object payload \<or> \<not> jcontains (ascii ''entities'') payload \<or> \<not> is_array (jget (ascii ''entities'') payload) then None
      else do {
        entities \<leftarrow> map_opt canonical_row (elements (jget (ascii ''entities'') payload));
        Some (make_object [(ascii ''entities'', JArr (remdups_adj (sort_by row_less entities)))]) })"

subsection \<open>Signatures\<close>

definition drop_slashes :: "bytes \<Rightarrow> bytes" where
  "drop_slashes s = rev (dropWhile (\<lambda>c. c = 0x2F) (rev s))"

definition SubmissionScope :: "sha_provider \<Rightarrow> json_dump \<Rightarrow> bytes \<Rightarrow> bytes \<Rightarrow> bytes \<Rightarrow> bytes option" where
  "SubmissionScope sha dump endpoint deviceId licenseKey =
     (if endpoint = [] \<or> deviceId = [] \<or> licenseKey = [] then Some []
      else let normalizedEndpoint = drop_slashes endpoint in
        if normalizedEndpoint = [] then Some []
        else map_option (Sha256 sha) (dump (JArr [JStr (ascii ''v2-player-library-submit-v1''), JStr normalizedEndpoint,
               JStr deviceId, JStr licenseKey])))"

definition SubmissionSignature :: "sha_provider \<Rightarrow> json_dump \<Rightarrow> json \<Rightarrow> bytes \<Rightarrow> bytes \<Rightarrow> bytes \<Rightarrow> bytes option" where
  "SubmissionSignature sha dump payload endpoint deviceId licenseKey = do {
     scope \<leftarrow> SubmissionScope sha dump endpoint deviceId licenseKey;
     if scope = [] then Some []
     else do {
       canonical \<leftarrow> CanonicalPayload payload;
       printed \<leftarrow> dump (JArr [JStr scope, canonical]);
       let digest = Sha256 sha printed;
       Some (if digest = [] then [] else SignaturePrefix @ digest) } }"

subsection \<open>Replies and the tracker\<close>

definition ParseSubmissionStatus :: "32 word \<Rightarrow> json \<Rightarrow> SubmissionStatus" where
  "ParseSubmissionStatus httpStatus reply =
     (if httpStatus < 200 \<or> httpStatus \<ge> 300 \<or> \<not> is_object reply \<or> \<not> jcontains (ascii ''ok'') reply \<or>
         \<not> is_boolean (jget (ascii ''ok'') reply) \<or> \<not> json_bool (jget (ascii ''ok'') reply) then Failed
      else if \<not> jcontains (ascii ''status'') reply then Accepted
      else if \<not> is_string (jget (ascii ''status'') reply) then Failed
      else
        let state = get_string (jget (ascii ''status'') reply) in
        if state = ascii ''pending_review'' then PendingReview
        else if state = ascii ''no_changes'' then NoChanges
        else if state = ascii ''already_pending'' then AlreadyPending
        else Accepted)"

definition IsAcknowledged :: "SubmissionStatus \<Rightarrow> bool" where
  "IsAcknowledged status \<longleftrightarrow> status \<noteq> Failed"

definition IsSkipped :: "SubmissionStatus \<Rightarrow> bool" where
  "IsSkipped status \<longleftrightarrow> status = NoChanges \<or> status = AlreadyPending"

record submission_tracker =
  acknowledged :: bytes

definition TrackerRestore :: "bytes \<Rightarrow> submission_tracker \<Rightarrow> submission_tracker" where
  "TrackerRestore saved t = t\<lparr>acknowledged := (if ValidSignature saved then saved else [])\<rparr>"

definition TrackerClear :: "submission_tracker \<Rightarrow> submission_tracker" where
  "TrackerClear t = t\<lparr>acknowledged := []\<rparr>"

definition ShouldSkip :: "bytes \<Rightarrow> submission_tracker \<Rightarrow> bool" where
  "ShouldSkip signature t \<longleftrightarrow> ValidSignature signature \<and> signature = acknowledged t"

definition TrackerAcknowledge :: "bytes \<Rightarrow> SubmissionStatus \<Rightarrow> submission_tracker \<Rightarrow> bool \<times> submission_tracker" where
  "TrackerAcknowledge signature status t =
     (if \<not> IsAcknowledged status \<or> \<not> ValidSignature signature \<or> signature = acknowledged t then (False, t)
      else (True, t\<lparr>acknowledged := signature\<rparr>))"

subsection \<open>What a payload says\<close>

text \<open>A row of the canonical payload, and its place in the order: rows with an entity identifier come first.\<close>

type_synonym push_row = "bytes option \<times> bytes list \<times> bytes list"

definition push_json :: "push_row \<Rightarrow> json" where
  "push_json = (\<lambda>(entityId, gameIds, names).
     JObj ((case entityId of None \<Rightarrow> [] | Some x \<Rightarrow> [(ascii ''entityId'', JStr x)]) @
       [(ascii ''gameIds'', JArr (map JStr gameIds)), (ascii ''names'', JArr (map JStr names))]))"

definition push_order :: "push_row \<Rightarrow> bool \<times> bytes \<times> bytes list \<times> bytes list" where
  "push_order = (\<lambda>(entityId, gameIds, names). (entityId = None, case entityId of None \<Rightarrow> [] | Some x \<Rightarrow> x, gameIds, names))"

lemma push_order_inj: "inj push_order"
  by (auto simp: inj_def push_order_def split: option.splits)

lemma push_json_inj: "push_json a = push_json b \<longleftrightarrow> a = b"
proof -
  have "map JStr xs = map JStr ys \<longleftrightarrow> xs = ys" for xs ys by (simp add: inj_map_eq_map inj_def)
  then show ?thesis by (auto simp: push_json_def split: option.splits prod.splits)
qed

lemma lex_less_order: "lex_less (<) xs ys \<longleftrightarrow> xs < (ys :: 'a :: linorder list)"
  by (induction "(<) :: 'a \<Rightarrow> 'a \<Rightarrow> bool" xs ys rule: lex_less.induct) auto

lemma row_less_order: "row_less (push_json a) (push_json b) \<longleftrightarrow> push_order a < push_order b"
proof -
  have "map get_string (map JStr xs) = xs" for xs by (induction xs) simp_all
  then show ?thesis
    by (auto simp: push_json_def push_order_def lex_less_order split: option.splits prod.splits)
qed

lemma insert_by_map: "insert_by lt (f x) (map f xs) = map f (insert_by (\<lambda>a b. lt (f a) (f b)) x xs)"
  by (induction xs) simp_all

lemma sort_by_map: "sort_by lt (map f xs) = map f (sort_by (\<lambda>a b. lt (f a) (f b)) xs)"
  by (induction xs) (simp_all add: sort_by_def insert_by_map)

lemma insert_by_key: "insert_by (\<lambda>a b. key a < key b) x xs = insort_key key x xs" for key :: "'a \<Rightarrow> 'k :: linorder"
  by (induction xs) auto

lemma sort_by_key: "sort_by (\<lambda>a b. key a < key b) xs = sort_key key xs" for key :: "'a \<Rightarrow> 'k :: linorder"
  by (induction xs) (simp_all add: sort_by_def insert_by_key)

lemma remdups_adj_map: "inj f \<Longrightarrow> remdups_adj (map f xs) = map f (remdups_adj xs)"
  by (induction xs rule: remdups_adj.induct) (auto simp: inj_eq)

lemma sorted_set_strict: "strictly_sorted (remdups_adj (sort xs))" "set (remdups_adj (sort xs)) = set xs" for xs :: "'a :: linorder list"
proof -
  have "sorted ys \<Longrightarrow> strictly_sorted (remdups_adj ys)" for ys :: "'a list"
    by (induction ys rule: remdups_adj.induct) (auto simp: le_less dest: less_le_trans)
  then show "strictly_sorted (remdups_adj (sort xs))" by simp
qed simp

lemma sorted_set_eq: "remdups_adj (sort xs) = remdups_adj (sort ys) \<longleftrightarrow> set xs = set ys" for xs ys :: "'a :: linorder list"
  by (metis sorted_set_strict strictly_sorted_eq)

lemma map_insort_key: "map key (insort_key key x xs) = insort (key x) (map key xs)" for key :: "'a \<Rightarrow> 'k :: linorder"
  by (induction xs) simp_all

lemma map_sort_key: "map key (sort_key key xs) = sort (map key xs)" for key :: "'a \<Rightarrow> 'k :: linorder"
  by (induction xs) (simp_all add: map_insort_key)

lemma sorted_rows_eq:
  fixes key :: "'a \<Rightarrow> 'k :: linorder"
  assumes "inj key"
  shows "remdups_adj (sort_key key xs) = remdups_adj (sort_key key ys) \<longleftrightarrow> set xs = set ys"
proof -
  have m: "map key (remdups_adj (sort_key key zs)) = remdups_adj (sort (map key zs))" for zs
    by (simp add: remdups_adj_map [OF assms, symmetric] map_sort_key)
  have "remdups_adj (sort_key key xs) = remdups_adj (sort_key key ys) \<longleftrightarrow>
      map key (remdups_adj (sort_key key xs)) = map key (remdups_adj (sort_key key ys))"
    by (simp add: inj_map_eq_map assms)
  also have "\<dots> \<longleftrightarrow> key ` set xs = key ` set ys" unfolding m sorted_set_eq by simp
  also have "\<dots> \<longleftrightarrow> set xs = set ys" by (rule inj_image_eq_iff [OF assms])
  finally show ?thesis .
qed

text \<open>What a row says: the entity it names, and the sets of identifiers and names it owns.\<close>

definition row_claim :: "json \<Rightarrow> bytes option \<times> bytes set \<times> bytes set" where
  "row_claim row =
     (if jget (ascii ''entityId'') row = JNull then None else Some (get_string (jget (ascii ''entityId'') row)),
      get_string ` set (elements (jget (ascii ''gameIds'') row)), get_string ` set (elements (jget (ascii ''names'') row)))"

definition payload_claims :: "json \<Rightarrow> (bytes option \<times> bytes set \<times> bytes set) set" where
  "payload_claims payload = row_claim ` set (elements (jget (ascii ''entities'') payload))"

definition row_of :: "json \<Rightarrow> push_row" where
  "row_of row =
     (if jget (ascii ''entityId'') row = JNull then None else Some (get_string (jget (ascii ''entityId'') row)),
      remdups_adj (sort (map get_string (elements (jget (ascii ''gameIds'') row)))),
      remdups_adj (sort (map get_string (elements (jget (ascii ''names'') row)))))"

lemma row_of_claim: "row_of a = row_of b \<longleftrightarrow> row_claim a = row_claim b"
  by (simp add: row_of_def row_claim_def sorted_set_eq)

lemma SortedStrings_Some: "SortedStrings j = Some xs \<Longrightarrow> xs = remdups_adj (sort (map get_string (elements j)))"
  by (auto simp: SortedStrings_def split: if_splits)

lemma map_opt_function:
  "(\<And>x y. f x = Some y \<Longrightarrow> y = g x) \<Longrightarrow> map_opt f xs = Some ys \<Longrightarrow> ys = map g xs"
  by (induction xs arbitrary: ys) (auto simp: throw_simps)

lemma push_json_map_inj: "map push_json xs = map push_json ys \<longleftrightarrow> xs = ys"
  by (rule inj_map_eq_map) (simp add: inj_def push_json_inj)

lemma canonical_row_push:
  assumes "canonical_row row = Some e"
  shows "e = push_json (row_of row)"
proof -
  from assms obtain names gameIds where n: "SortedStrings (jget (ascii ''names'') row) = Some names"
    and g: "SortedStrings (if jcontains (ascii ''gameIds'') row then jget (ascii ''gameIds'') row else JArr []) = Some gameIds"
    by (auto simp: canonical_row_def throw_simps simp del: ascii_Cons split: if_splits)
  have "gameIds = remdups_adj (sort (map get_string (elements (jget (ascii ''gameIds'') row))))"
    using SortedStrings_Some [OF g] by (auto simp: jget_def jcontains_def simp del: ascii_Cons split: if_splits option.splits)
  moreover note SortedStrings_Some [OF n]
  moreover have "jget (ascii ''entityId'') row \<noteq> JNull \<Longrightarrow> jcontains (ascii ''entityId'') row"
    by (auto simp: jget_def jcontains_def simp del: ascii_Cons split: option.splits)
  moreover have "is_string j \<Longrightarrow> j = JStr (get_string j)" for j by (cases j) simp_all
  ultimately show ?thesis using assms n g
    by (auto simp: canonical_row_def throw_simps row_of_def push_json_def make_object_def split: if_splits)
qed

text \<open>
  Two submissions have the same canonical payload exactly when they say the same: the same set
  of claims, each an entity identifier (or none) with its set of game identifiers and its set of names. The
  order of rows, names and identifiers and their repetition do not matter, and nothing else is forgotten.
\<close>

theorem canonical_payload_keeps_claims:
  assumes "CanonicalPayload p = Some a" "CanonicalPayload q = Some b"
  shows "a = b \<longleftrightarrow> payload_claims p = payload_claims q"
proof -
  have canonical: "c = make_object [(ascii ''entities'', JArr (map push_json (remdups_adj (sort_key push_order
      (map row_of (elements (jget (ascii ''entities'') r)))))))]" if "CanonicalPayload r = Some c" for r c
  proof -
    from that obtain es where es: "map_opt canonical_row (elements (jget (ascii ''entities'') r)) = Some es"
      and c: "c = make_object [(ascii ''entities'', JArr (remdups_adj (sort_by row_less es)))]"
      by (auto simp: CanonicalPayload_def throw_simps simp del: ascii_Cons split: if_splits)
    have "es = map push_json (map row_of (elements (jget (ascii ''entities'') r)))"
      using map_opt_function [OF canonical_row_push es] by simp
    then show ?thesis unfolding c
      by (simp only: sort_by_map row_less_order sort_by_key remdups_adj_map [OF injI [OF iffD1 [OF push_json_inj]]])
  qed
  have "a = b \<longleftrightarrow> set (map row_of (elements (jget (ascii ''entities'') p))) = set (map row_of (elements (jget (ascii ''entities'') q)))"
    unfolding canonical [OF assms(1)] canonical [OF assms(2)] sorted_rows_eq [OF push_order_inj, symmetric]
    by (simp add: make_object_def push_json_map_inj del: ascii_Cons)
  also have "\<dots> \<longleftrightarrow> payload_claims p = payload_claims q"
  proof -
    have "row_of ` A = row_of ` B \<longleftrightarrow> row_claim ` A = row_claim ` B" for A B
      unfolding set_eq_subset image_subset_iff image_iff row_of_claim ..
    then show ?thesis by (simp add: payload_claims_def)
  qed
  finally show ?thesis .
qed

definition demo_row :: "bytes list \<Rightarrow> json" where
  "demo_row names = JObj [(ascii ''gameIds'', JArr [JStr [0x37]]), (ascii ''names'', JArr (map JStr names))]"

definition demo_push :: "json list \<Rightarrow> json" where
  "demo_push rows = JObj [(ascii ''entities'', JArr rows)]"

theorem canonical_payload_keeps_claims_witness:
  "CanonicalPayload (demo_push [demo_row [[0x42], [0x41]], demo_row [[0x43]]]) =
   CanonicalPayload (demo_push [demo_row [[0x43]], demo_row [[0x41], [0x42], [0x41]]])"
proof -
  obtain a where a: "CanonicalPayload (demo_push [demo_row [[0x42], [0x41]], demo_row [[0x43]]]) = Some a"
    by (simp add: CanonicalPayload_def canonical_row_def SortedStrings_def demo_push_def demo_row_def jget_def jcontains_def)
  obtain b where b: "CanonicalPayload (demo_push [demo_row [[0x43]], demo_row [[0x41], [0x42], [0x41]]]) = Some b"
    by (simp add: CanonicalPayload_def canonical_row_def SortedStrings_def demo_push_def demo_row_def jget_def jcontains_def)
  have "a = b" unfolding canonical_payload_keeps_claims [OF a b]
    by (auto simp: payload_claims_def row_claim_def demo_push_def demo_row_def jget_def)
  then show ?thesis using a b by simp
qed

subsection \<open>What is refused\<close>

definition string_array :: "json \<Rightarrow> bool" where
  "string_array j \<longleftrightarrow> (\<exists>xs. j = JArr (map JStr xs) \<and> [] \<notin> set xs)"

text \<open>
  A proper row: its names are a non-empty array of non-empty strings, its identifiers, if there are any, an
  array of non-empty strings, and its entity identifier is missing, null or a non-empty string.
\<close>

definition proper_row :: "json \<Rightarrow> bool" where
  "proper_row row \<longleftrightarrow>
     string_array (jget (ascii ''names'') row) \<and> elements (jget (ascii ''names'') row) \<noteq> [] \<and>
     (jcontains (ascii ''gameIds'') row \<longrightarrow> string_array (jget (ascii ''gameIds'') row)) \<and>
     (jget (ascii ''entityId'') row = JNull \<or> (\<exists>x. jget (ascii ''entityId'') row = JStr x \<and> x \<noteq> []))"

lemma string_array_elements:
  "string_array j \<longleftrightarrow> is_array j \<and> list_all (\<lambda>v. is_string v \<and> get_string v \<noteq> []) (elements j)"
proof -
  have "(\<exists>xs. ys = map JStr xs \<and> [] \<notin> set xs) \<longleftrightarrow> list_all (\<lambda>v. is_string v \<and> get_string v \<noteq> []) ys" for ys
  proof (induction ys)
    case (Cons y ys)
    have "is_string y \<longleftrightarrow> (\<exists>x. y = JStr x)" by (cases y) simp_all
    then have "(\<exists>xs. y # ys = map JStr xs \<and> [] \<notin> set xs) \<longleftrightarrow> is_string y \<and> get_string y \<noteq> [] \<and> (\<exists>xs. ys = map JStr xs \<and> [] \<notin> set xs)"
      by (auto simp: Cons_eq_map_conv) (metis list.set_intros(1) list.simps(9) set_ConsD)
    with Cons show ?case by simp
  qed simp
  then show ?thesis by (cases j) (auto simp: string_array_def)
qed

lemma SortedStrings_None: "SortedStrings j = None \<longleftrightarrow> \<not> string_array j"
  by (auto simp: SortedStrings_def string_array_elements list_all_iff list_ex_iff)

lemma SortedStrings_Nil: "SortedStrings j = Some [] \<longleftrightarrow> string_array j \<and> elements j = []"
  using SortedStrings_None [of j] by (cases "elements j") (auto simp: SortedStrings_def split: if_splits)

lemma canonical_row_None: "canonical_row row = None \<longleftrightarrow> \<not> proper_row row"
proof -
  define g where "g = (if jcontains (ascii ''gameIds'') row then jget (ascii ''gameIds'') row else JArr [])"
  have g: "SortedStrings g = None \<longleftrightarrow> \<not> (jcontains (ascii ''gameIds'') row \<longrightarrow> string_array (jget (ascii ''gameIds'') row))"
    by (simp add: g_def SortedStrings_None string_array_elements del: ascii_Cons)
  have i: "(jcontains (ascii ''entityId'') row \<and> jget (ascii ''entityId'') row \<noteq> JNull \<and>
      (\<not> is_string (jget (ascii ''entityId'') row) \<or> get_string (jget (ascii ''entityId'') row) = [])) \<longleftrightarrow>
      \<not> (jget (ascii ''entityId'') row = JNull \<or> (\<exists>x. jget (ascii ''entityId'') row = JStr x \<and> x \<noteq> []))"
    by (cases "jget (ascii ''entityId'') row") (auto simp: jget_def jcontains_def simp del: ascii_Cons split: option.splits)
  have n: "string_array (jget k row) \<Longrightarrow> is_object row \<and> jcontains k row" for k
    by (cases row) (auto simp: jget_def jcontains_def string_array_elements split: option.splits)
  show ?thesis
  proof (cases "string_array (jget (ascii ''names'') row) \<and> elements (jget (ascii ''names'') row) \<noteq> []")
    case True
    then obtain names where "SortedStrings (jget (ascii ''names'') row) = Some names" "names \<noteq> []"
      using SortedStrings_None SortedStrings_Nil by (metis not_None_eq)
    moreover have "is_object row" "jcontains (ascii ''names'') row" using True n by blast+
    ultimately show ?thesis using True g i
      by (cases "SortedStrings g") (auto simp: canonical_row_def proper_row_def g_def Let_def simp del: ascii_Cons split: if_splits)
  next
    case False
    then have "SortedStrings (jget (ascii ''names'') row) \<in> {None, Some []}"
      using SortedStrings_None SortedStrings_Nil by auto
    then show ?thesis using False by (auto simp: canonical_row_def proper_row_def simp del: ascii_Cons)
  qed
qed

lemma map_opt_None: "map_opt f xs = None \<longleftrightarrow> list_ex (\<lambda>x. f x = None) xs"
proof (induction xs)
  case (Cons x xs)
  then show ?case by (cases "f x"; cases "map_opt f xs") auto
qed simp

text \<open>
  A payload is refused (the canonical form throws) exactly when it is not an object with an
  array of entities all of whose rows are proper.
\<close>

theorem improper_payload_refused:
  "CanonicalPayload p = None \<longleftrightarrow>
     \<not> (is_array (jget (ascii ''entities'') p) \<and> list_all proper_row (elements (jget (ascii ''entities'') p)))"
proof -
  have "is_array (jget k p) \<Longrightarrow> is_object p \<and> jcontains k p" for k
    by (cases p) (auto simp: jget_def jcontains_def split: option.splits)
  moreover have "(map_opt canonical_row xs = None) = (\<not> list_all proper_row xs)" for xs
    by (auto simp: map_opt_None canonical_row_None list_ex_iff list_all_iff)
  from this [of "elements (jget (ascii ''entities'') p)"]
  have "(\<exists>es. map_opt canonical_row (elements (jget (ascii ''entities'') p)) = Some es) =
      list_all proper_row (elements (jget (ascii ''entities'') p))" by auto
  ultimately show ?thesis
    by (auto simp: CanonicalPayload_def throw_simps simp del: ascii_Cons split: bind_splits)
qed

subsection \<open>Signatures and the tracker\<close>

lemma hex_table_char: "list_all hex_char hex_table"
  by (simp add: hex_table_def hex_char_def)

lemma hex_digits_ok: "hex_char (hex_table ! unat (drop_bit 4 b)) \<and> hex_char (hex_table ! unat (b AND 15))" for b :: "8 word"
proof -
  have "unat b < 256" using unsigned_less [of b] by simp
  then have "unat (drop_bit 4 b) < 16" unfolding unat_drop_bit_eq by (simp add: drop_bit_eq_div)
  moreover have "unat (b AND 15) < 16"
    using word_and_le1 [of b 15] by (simp add: word_le_nat_alt)
  moreover have "length hex_table = 16" by (simp add: hex_table_def)
  ultimately show ?thesis using hex_table_char by (simp add: list_all_length)
qed

lemma Sha256_shape:
  assumes "\<forall>x bs. sha x = Some bs \<longrightarrow> length bs = 32"
  shows "Sha256 sha t = [] \<or> length (Sha256 sha t) = 64 \<and> list_all hex_char (Sha256 sha t)"
proof -
  let ?f = "\<lambda>b. [hex_table ! unat (drop_bit 4 b), hex_table ! unat (b AND 15)]"
  have "length (concat (map ?f bs)) = 2 * length bs \<and> list_all hex_char (concat (map ?f bs))" for bs :: bytes
    by (induction bs) (simp_all add: hex_digits_ok)
  then show ?thesis using assms by (auto simp: Sha256_def split: option.splits)
qed

text \<open>
  Property C35. A signature the program computes is either empty (no endpoint, device or licence, or a failed
  hash) or has the one shape that the tracker accepts, so that every submission that was signed can be remembered.
\<close>

theorem signature_has_accepted_shape:
  assumes "\<forall>x bs. sha x = Some bs \<longrightarrow> length bs = 32"
    and "SubmissionSignature sha dump payload endpoint deviceId licenseKey = Some signature"
  shows "signature = [] \<or>
    ValidSignature signature \<and> endpoint \<noteq> [] \<and> deviceId \<noteq> [] \<and> licenseKey \<noteq> [] \<and> drop_slashes endpoint \<noteq> [] \<and>
    fst (TrackerAcknowledge signature Accepted \<lparr>acknowledged = []\<rparr>) \<and>
    ShouldSkip signature (snd (TrackerAcknowledge signature Accepted \<lparr>acknowledged = []\<rparr>))"
proof (cases "signature = []")
  case False
  with assms(2) obtain scope printed where scope: "SubmissionScope sha dump endpoint deviceId licenseKey = Some scope" "scope \<noteq> []"
    and s: "signature = SignaturePrefix @ Sha256 sha printed" "Sha256 sha printed \<noteq> []"
    by (auto simp: SubmissionSignature_def throw_simps Let_def split: if_splits)
  have "ValidSignature signature" using s Sha256_shape [OF assms(1), of printed] by (simp add: ValidSignature_def)
  with False scope show ?thesis
    by (auto simp: SubmissionScope_def Let_def TrackerAcknowledge_def ShouldSkip_def IsAcknowledged_def split: if_splits)
qed simp

theorem signature_has_accepted_shape_witness:
  "\<exists>signature. SubmissionSignature (\<lambda>_. Some (replicate 32 0xA5)) (\<lambda>_. Some []) (demo_push []) [0x68, 0x2F] [0x64] [0x6B] = Some signature \<and>
     ValidSignature signature"
proof -
  let ?sha = "\<lambda>_. Some (replicate 32 0xA5)"
  have digest: "Sha256 ?sha [] \<noteq> []" by (simp add: Sha256_def numeral_eq_Suc)
  then have "SubmissionSignature ?sha (\<lambda>_. Some []) (demo_push []) [0x68, 0x2F] [0x64] [0x6B] = Some (SignaturePrefix @ Sha256 ?sha [])"
    by (simp add: SubmissionSignature_def SubmissionScope_def drop_slashes_def CanonicalPayload_def demo_push_def jcontains_def jget_def)
  moreover have "SignaturePrefix @ Sha256 ?sha [] \<noteq> []" using digest by simp
  ultimately show ?thesis
    using signature_has_accepted_shape [of ?sha "\<lambda>_. Some []" "demo_push []" "[0x68, 0x2F]" "[0x64]" "[0x6B]"] by auto
qed

datatype tracker_op = Restore bytes | Clear | Acknowledge bytes SubmissionStatus

fun tracker_step :: "tracker_op \<Rightarrow> submission_tracker \<Rightarrow> submission_tracker" where
  "tracker_step (Restore saved) t = TrackerRestore saved t"
| "tracker_step Clear t = TrackerClear t"
| "tracker_step (Acknowledge signature status) t = snd (TrackerAcknowledge signature status t)"

text \<open>The operations that make a signature the remembered one.\<close>

fun remembers :: "bytes \<Rightarrow> tracker_op \<Rightarrow> bool" where
  "remembers s (Restore saved) = (saved = s)"
| "remembers s Clear = False"
| "remembers s (Acknowledge signature status) = (signature = s \<and> status \<noteq> Failed)"

text \<open>
  In every history of the tracker a submission is skipped only when its signature is valid and
  was restored or acknowledged by a reply that was no failure, and it is skipped whenever the latest
  operation did so: a failed submission is never taken for a delivered one.
\<close>

theorem skip_only_acknowledged:
  "let t = fold tracker_step ops \<lparr>acknowledged = []\<rparr> in
   (if ValidSignature s
    then (if ShouldSkip s t then list_ex (remembers s) ops else filter (remembers s) (take 1 (rev ops)) = [])
    else \<not> ShouldSkip s t)"
proof -
  have valid_ne: "ValidSignature x \<Longrightarrow> x \<noteq> []" for x by (auto simp: ValidSignature_def)
  have "acknowledged (fold tracker_step ops \<lparr>acknowledged = []\<rparr>) = x \<Longrightarrow> x \<noteq> [] \<Longrightarrow> list_ex (remembers x) ops" for x
  proof (induction ops arbitrary: x rule: rev_induct)
    case (snoc op ops)
    then show ?case
      by (cases op) (auto simp: TrackerRestore_def TrackerClear_def TrackerAcknowledge_def IsAcknowledged_def split: if_splits)
  qed simp
  moreover have "remembers s op \<Longrightarrow> ValidSignature s \<Longrightarrow> ShouldSkip s (tracker_step op t)" for op t
    by (cases op) (auto simp: TrackerRestore_def TrackerAcknowledge_def IsAcknowledged_def ShouldSkip_def)
  ultimately show ?thesis
    by (cases ops rule: rev_cases) (auto simp: Let_def ShouldSkip_def valid_ne)
qed

end
