(* ===== verification/OcrCache.thy ===== *)
theory OcrCache
  imports LibrarySnapshot
begin

text \<open>
  The cache of the identifiers the screen reader looks up (\<^verbatim>\<open>PlayerIdentityOcrCache.h\<close>). A snapshot is
  immutable and shared, so it is given by its address (\<open>None\<close> for no snapshot), and \<open>deref\<close> is what an address
  refers to; the parser of identifiers is a parameter, as in the code.
\<close>

record ocr_player =
  op_name :: wstr
  op_team :: int
  op_gameIds :: "wstr list"

record ocr_metadata =
  om_fullMatchName :: wstr
  om_matchName :: wstr
  om_declaredArea :: wstr
  om_declaredJob :: wstr
  om_isSymbolicId :: bool

record ocr_candidate =
  oc_playerIndex :: nat
  oc_name :: wstr
  oc_metadata :: ocr_metadata

type_synonym snapshot_ref = "nat option"

record ocr_cache =
  ch_snapshot :: snapshot_ref
  ch_revision :: u64
  ch_roster :: "ocr_player list"
  ch_prepared :: bool
  ch_gameCandidates :: "ocr_candidate list"

text \<open>A roster has eight slots; an empty one has no name.\<close>

definition ROSTER_SIZE :: nat where "ROSTER_SIZE = 8"

definition empty_player :: ocr_player where
  "empty_player = \<lparr>op_name = [], op_team = - 1, op_gameIds = []\<rparr>"

definition empty_cache :: ocr_cache where
  "empty_cache = \<lparr>ch_snapshot = None, ch_revision = 0, ch_roster = replicate ROSTER_SIZE empty_player,
     ch_prepared = False, ch_gameCandidates = []\<rparr>"

text \<open>The texts under which the snapshot shows the identifiers of a player; the first one of a key stays.\<close>

definition normalized_ids :: "snapshot \<Rightarrow> player_entity \<Rightarrow> wstr \<rightharpoonup> wstr" where
  "normalized_ids s entity =
     fold (\<lambda>x m. case FindIdentifier s x of
         None \<Rightarrow> m
       | Some v \<Rightarrow> if id_kind v = Game \<and> m (id_canonicalKey v) = None then m(id_canonicalKey v \<mapsto> id_displayText v) else m)
       (pe_gameIds entity) Map.empty"

definition shown_ids :: "library_env \<Rightarrow> snapshot option \<Rightarrow> ocr_player \<Rightarrow> wstr \<rightharpoonup> wstr" where
  "shown_ids env s player =
     (case s of None \<Rightarrow> Map.empty
      | Some s \<Rightarrow> (case FindName env s (op_name player) of None \<Rightarrow> Map.empty | Some entity \<Rightarrow> normalized_ids s entity))"

text \<open>
  The work on one identifier of a slot. The state is the list of candidates, the parsed identifiers and the keys of raw
  texts, which are kept over all slots, and the keys seen in this slot.
\<close>

definition add_game_id :: "library_env \<Rightarrow> (wstr \<Rightarrow> ocr_metadata) \<Rightarrow> nat \<Rightarrow> (wstr \<rightharpoonup> wstr) \<Rightarrow> wstr \<Rightarrow>
    ocr_candidate list \<times> (wstr \<rightharpoonup> ocr_metadata) \<times> (wstr \<rightharpoonup> wstr) \<times> wstr set \<Rightarrow>
    ocr_candidate list \<times> (wstr \<rightharpoonup> ocr_metadata) \<times> (wstr \<rightharpoonup> wstr) \<times> wstr set" where
  "add_game_id env parse slot normalizedIds raw = (\<lambda>(games, parsedIds, rawKeys, seen).
     let rawKeys = (if rawKeys raw = None then rawKeys(raw \<mapsto> CanonicalKey env raw) else rawKeys);
         key = the (rawKeys raw) in
     if key = [] \<or> key \<in> seen then (games, parsedIds, rawKeys, seen)
     else
       let parsedIds = (if parsedIds key = None
             then parsedIds(key \<mapsto> parse (case normalizedIds key of None \<Rightarrow> raw | Some shown \<Rightarrow> shown)) else parsedIds)
       in (games @ [\<lparr>oc_playerIndex = slot, oc_name = raw, oc_metadata = the (parsedIds key)\<rparr>], parsedIds, rawKeys, insert key seen))"

definition add_player :: "library_env \<Rightarrow> snapshot option \<Rightarrow> (wstr \<Rightarrow> ocr_metadata) \<Rightarrow> nat \<times> ocr_player \<Rightarrow>
    ocr_candidate list \<times> (wstr \<rightharpoonup> ocr_metadata) \<times> (wstr \<rightharpoonup> wstr) \<Rightarrow> ocr_candidate list \<times> (wstr \<rightharpoonup> ocr_metadata) \<times> (wstr \<rightharpoonup> wstr)" where
  "add_player env s parse = (\<lambda>(slot, player) (games, parsedIds, rawKeys).
     if op_name player = [] \<or> (op_team player \<noteq> 0 \<and> op_team player \<noteq> 1) then (games, parsedIds, rawKeys)
     else
       let (games, parsedIds, rawKeys, _) =
             fold (add_game_id env parse slot (shown_ids env s player)) (op_gameIds player) (games, parsedIds, rawKeys, {})
       in (games, parsedIds, rawKeys))"

definition collect_games :: "library_env \<Rightarrow> snapshot option \<Rightarrow> (wstr \<Rightarrow> ocr_metadata) \<Rightarrow> ocr_player list \<Rightarrow> ocr_candidate list" where
  "collect_games env s parse roster =
     fst (fold (add_player env s parse) (zip [0..<length roster] roster) ([], Map.empty, Map.empty))"

definition Prepare :: "library_env \<Rightarrow> (nat \<Rightarrow> snapshot) \<Rightarrow> (wstr \<Rightarrow> ocr_metadata) \<Rightarrow> snapshot_ref \<Rightarrow> ocr_player list \<Rightarrow> ocr_cache \<Rightarrow> bool \<times> ocr_cache" where
  "Prepare env deref parse r roster c =
     (let s = map_option deref r;
          revision = (case s of None \<Rightarrow> 0 | Some s \<Rightarrow> sn_revision s) in
      if ch_prepared c \<and> ch_snapshot c = r \<and> ch_revision c = revision \<and> ch_roster c = roster then (False, c)
      else (True, c\<lparr>ch_snapshot := r, ch_revision := revision, ch_roster := roster,
              ch_gameCandidates := collect_games env s parse roster, ch_prepared := True\<rparr>))"

definition GameCandidates :: "ocr_cache \<Rightarrow> ocr_candidate list" where
  "GameCandidates c = ch_gameCandidates c"

definition CacheReset :: "ocr_cache \<Rightarrow> ocr_cache" where
  "CacheReset c = c\<lparr>ch_snapshot := None, ch_revision := 0, ch_roster := replicate ROSTER_SIZE empty_player,
     ch_prepared := False, ch_gameCandidates := []\<rparr>"

subsection \<open>The candidates without the caches\<close>

text \<open>
  A row is a slot, the text of an identifier, its key and the text to parse. The rows of a slot keep the first
  identifier of each key; what is parsed for a key is the text of the first row that has it.
\<close>

type_synonym game_row = "nat \<times> wstr \<times> wstr \<times> wstr"

fun rows_of_ids :: "library_env \<Rightarrow> nat \<Rightarrow> (wstr \<rightharpoonup> wstr) \<Rightarrow> wstr set \<Rightarrow> wstr list \<Rightarrow> game_row list" where
  "rows_of_ids env slot shown seen [] = []"
| "rows_of_ids env slot shown seen (raw # raws) =
     (let key = CanonicalKey env raw in
      if key = [] \<or> key \<in> seen then rows_of_ids env slot shown seen raws
      else (slot, raw, key, case shown key of None \<Rightarrow> raw | Some t \<Rightarrow> t) # rows_of_ids env slot shown (insert key seen) raws)"

definition player_rows :: "library_env \<Rightarrow> snapshot option \<Rightarrow> nat \<times> ocr_player \<Rightarrow> game_row list" where
  "player_rows env s = (\<lambda>(slot, player).
     if op_name player \<noteq> [] \<and> (op_team player = 0 \<or> op_team player = 1)
     then rows_of_ids env slot (shown_ids env s player) {} (op_gameIds player)
     else [])"

definition key_texts :: "game_row list \<Rightarrow> (wstr \<times> wstr) list" where
  "key_texts = map (\<lambda>(slot, raw, key, t). (key, t))"

definition row_candidate :: "(wstr \<Rightarrow> ocr_metadata) \<Rightarrow> game_row list \<Rightarrow> game_row \<Rightarrow> ocr_candidate" where
  "row_candidate parse rows = (\<lambda>(slot, raw, key, t).
     \<lparr>oc_playerIndex = slot, oc_name = raw, oc_metadata = parse (the (map_of (key_texts rows) key))\<rparr>)"

definition reference_games :: "library_env \<Rightarrow> snapshot option \<Rightarrow> (wstr \<Rightarrow> ocr_metadata) \<Rightarrow> ocr_player list \<Rightarrow> ocr_candidate list" where
  "reference_games env s parse roster =
     (let rows = concat (map (player_rows env s) (zip [0..<length roster] roster)) in map (row_candidate parse rows) rows)"

text \<open>The caches agree with the rows so far.\<close>

definition caches_ok :: "library_env \<Rightarrow> (wstr \<Rightarrow> ocr_metadata) \<Rightarrow> game_row list \<Rightarrow>
    ocr_candidate list \<Rightarrow> (wstr \<rightharpoonup> ocr_metadata) \<Rightarrow> (wstr \<rightharpoonup> wstr) \<Rightarrow> bool" where
  "caches_ok env parse rows games parsedIds rawKeys \<longleftrightarrow>
     games = map (row_candidate parse rows) rows \<and> parsedIds = map_option parse \<circ> map_of (key_texts rows) \<and>
     (\<forall>raw. rawKeys raw = None \<or> rawKeys raw = Some (CanonicalKey env raw))"

lemma key_texts_append [simp]: "key_texts (rows @ rows') = key_texts rows @ key_texts rows'"
  by (simp add: key_texts_def)

lemma key_texts_mem: "row \<in> set rows \<Longrightarrow> map_of (key_texts rows) (fst (snd (snd row))) \<noteq> None"
  by (induction rows) (auto simp: key_texts_def)

lemma row_candidate_append: "row \<in> set rows \<Longrightarrow> row_candidate parse (rows @ new) row = row_candidate parse rows row"
  using key_texts_mem [of row rows] by (auto simp: row_candidate_def map_add_def split: prod.splits option.splits)

lemma caches_ok_row:
  assumes "caches_ok env parse rows games parsedIds rawKeys"
  shows "caches_ok env parse (rows @ [(slot, raw, key, t)])
    (games @ [\<lparr>oc_playerIndex = slot, oc_name = raw,
       oc_metadata = the ((if parsedIds key = None then parsedIds(key \<mapsto> parse t) else parsedIds) key)\<rparr>])
    (if parsedIds key = None then parsedIds(key \<mapsto> parse t) else parsedIds) rawKeys"
proof -
  have "map (row_candidate parse (rows @ [(slot, raw, key, t)])) rows = map (row_candidate parse rows) rows"
    by (simp add: row_candidate_append)
  moreover have "map_of (key_texts (rows @ [(slot, raw, key, t)])) =
      (if map_of (key_texts rows) key = None then (map_of (key_texts rows))(key \<mapsto> t) else map_of (key_texts rows))"
    by (auto simp: key_texts_def map_add_def fun_eq_iff split: option.splits)
  ultimately show ?thesis using assms
    by (auto simp: caches_ok_def row_candidate_def fun_eq_iff)
qed

lemma add_game_id_step:
  assumes "caches_ok env parse rows games parsedIds rawKeys"
  obtains rawKeys' where "\<forall>raw. rawKeys' raw = None \<or> rawKeys' raw = Some (CanonicalKey env raw)"
    "add_game_id env parse slot shown raw (games, parsedIds, rawKeys, seen) =
      (let key = CanonicalKey env raw in
       if key = [] \<or> key \<in> seen then (games, parsedIds, rawKeys', seen)
       else
         let parsedIds = (if parsedIds key = None
               then parsedIds(key \<mapsto> parse (case shown key of None \<Rightarrow> raw | Some shown \<Rightarrow> shown)) else parsedIds)
         in (games @ [\<lparr>oc_playerIndex = slot, oc_name = raw, oc_metadata = the (parsedIds key)\<rparr>], parsedIds, rawKeys', insert key seen))"
proof -
  let ?rk = "if rawKeys raw = None then rawKeys(raw \<mapsto> CanonicalKey env raw) else rawKeys"
  have "\<forall>raw. ?rk raw = None \<or> ?rk raw = Some (CanonicalKey env raw)" "the (?rk raw) = CanonicalKey env raw"
    using assms by (auto simp: caches_ok_def) (metis option.sel option.distinct(1))
  then show thesis by (intro that [of ?rk]) (simp_all add: add_game_id_def Let_def)
qed

lemma add_game_ids:
  "caches_ok env parse rows games parsedIds rawKeys \<Longrightarrow>
   \<exists>games' parsedIds' rawKeys' seen'. fold (add_game_id env parse slot shown) raws (games, parsedIds, rawKeys, seen) =
     (games', parsedIds', rawKeys', seen') \<and> caches_ok env parse (rows @ rows_of_ids env slot shown seen raws) games' parsedIds' rawKeys'"
proof (induction raws arbitrary: rows games parsedIds rawKeys seen)
  case (Cons raw raws)
  let ?key = "CanonicalKey env raw"
  obtain rk where rk: "\<forall>raw. rk raw = None \<or> rk raw = Some (CanonicalKey env raw)"
    and step: "add_game_id env parse slot shown raw (games, parsedIds, rawKeys, seen) =
      (let key = ?key in
       if key = [] \<or> key \<in> seen then (games, parsedIds, rk, seen)
       else
         let parsedIds = (if parsedIds key = None
               then parsedIds(key \<mapsto> parse (case shown key of None \<Rightarrow> raw | Some shown \<Rightarrow> shown)) else parsedIds)
         in (games @ [\<lparr>oc_playerIndex = slot, oc_name = raw, oc_metadata = the (parsedIds key)\<rparr>], parsedIds, rk, insert key seen))"
    using add_game_id_step [OF Cons.prems] by blast
  have ok: "caches_ok env parse rows games parsedIds rk" using Cons.prems rk by (simp add: caches_ok_def)
  show ?case
  proof (cases "?key = [] \<or> ?key \<in> seen")
    case True
    then show ?thesis using Cons.IH [OF ok, of seen] by (simp add: step Let_def)
  next
    case False
    then show ?thesis
      using Cons.IH [OF caches_ok_row [OF ok], of slot raw ?key "case shown ?key of None \<Rightarrow> raw | Some t \<Rightarrow> t" "insert ?key seen"]
      by (simp add: step Let_def)
  qed
qed simp

lemma add_players:
  "caches_ok env parse rows games parsedIds rawKeys \<Longrightarrow>
   \<exists>games' parsedIds' rawKeys'. fold (add_player env s parse) players (games, parsedIds, rawKeys) = (games', parsedIds', rawKeys') \<and>
     caches_ok env parse (rows @ concat (map (player_rows env s) players)) games' parsedIds' rawKeys'"
proof (induction players arbitrary: rows games parsedIds rawKeys)
  case (Cons player players)
  obtain slot p where p: "player = (slot, p)" by (cases player)
  have "\<exists>games' parsedIds' rawKeys'. add_player env s parse player (games, parsedIds, rawKeys) = (games', parsedIds', rawKeys') \<and>
      caches_ok env parse (rows @ player_rows env s player) games' parsedIds' rawKeys'"
  proof (cases "op_name p \<noteq> [] \<and> (op_team p = 0 \<or> op_team p = 1)")
    case True
    with add_game_ids [OF Cons.prems, of slot "shown_ids env s p" "op_gameIds p" "{}"] show ?thesis
      by (auto simp: add_player_def p player_rows_def Let_def)
  next
    case False
    then show ?thesis using Cons.prems by (auto simp: add_player_def p player_rows_def)
  qed
  with Cons.IH show ?case by fastforce
qed simp

lemma collect_games_reference: "collect_games env s parse roster = reference_games env s parse roster"
proof -
  have "caches_ok env parse [] [] Map.empty Map.empty" by (simp add: caches_ok_def key_texts_def fun_eq_iff)
  from add_players [OF this, of s "zip [0..<length roster] roster"] show ?thesis
    by (auto simp: collect_games_def reference_games_def Let_def caches_ok_def)
qed

subsection \<open>Histories of the cache\<close>

datatype cache_op = PrepareOp snapshot_ref "ocr_player list" | ResetOp

fun cache_step :: "library_env \<Rightarrow> (nat \<Rightarrow> snapshot) \<Rightarrow> (wstr \<Rightarrow> ocr_metadata) \<Rightarrow> cache_op \<Rightarrow> ocr_cache \<Rightarrow> ocr_cache" where
  "cache_step env deref parse (PrepareOp r roster) c = snd (Prepare env deref parse r roster c)"
| "cache_step env deref parse ResetOp c = CacheReset c"

definition cache_ok :: "library_env \<Rightarrow> (nat \<Rightarrow> snapshot) \<Rightarrow> (wstr \<Rightarrow> ocr_metadata) \<Rightarrow> ocr_cache \<Rightarrow> bool" where
  "cache_ok env deref parse c \<longleftrightarrow>
     (ch_prepared c \<longrightarrow> ch_gameCandidates c = collect_games env (map_option deref (ch_snapshot c)) parse (ch_roster c))"

lemma cache_run_ok: "cache_ok env deref parse (fold (cache_step env deref parse) ops empty_cache)"
proof (induction ops rule: rev_induct)
  case (snoc op ops)
  then show ?case by (cases op) (auto simp: cache_ok_def Prepare_def Let_def CacheReset_def)
qed (simp add: cache_ok_def empty_cache_def)

text \<open>
  Whatever was prepared and reset before, preparing the cache leaves exactly the candidates of
  the given snapshot and roster, computed without any cache: the active slots in order, each key once per slot
  under its first spelling, with the metadata of the text first met for the key. Preparing again with the
  same arguments reports no change and changes nothing.
\<close>

theorem prepared_candidates_are_current:
  "let c = fold (cache_step env deref parse) ops empty_cache; (changed, c') = Prepare env deref parse r roster c in
   GameCandidates c' = reference_games env (map_option deref r) parse roster \<and>
   Prepare env deref parse r roster c' = (False, c') \<and> (if changed then ch_prepared c' else c' = c)"
  using cache_run_ok [of env deref parse ops]
  by (auto simp: Prepare_def Let_def GameCandidates_def collect_games_reference [symmetric] cache_ok_def)

end
