(* ===== verification/Geometry.thy ===== *)
theory Geometry
  imports Json Loops "HOL-Library.Signed_Division"
begin

text \<open>
  The geometry of the frames on the screen (\<^verbatim>\<open>HpBarCalibration.h\<close>, \<^verbatim>\<open>PreviewLayout.h\<close>). An \<^verbatim>\<open>int\<close> is an
  integer: the sums of the code stay between \<open>- extent\<close> and \<open>2 * extent\<close>. A \<^verbatim>\<open>double\<close> is rounded by \<open>dbl\<close>
  and a \<^verbatim>\<open>float\<close> by \<open>flt\<close>; a conversion to \<^verbatim>\<open>int\<close> of a value out of range is undefined and gives \<open>None\<close>.
\<close>

subsection \<open>Rounding to a float\<close>

definition flt_exp :: "rat \<Rightarrow> int" where
  "flt_exp x = max (dexp x + 29) (- 149)"

definition flt :: "rat \<Rightarrow> rat" where
  "flt x = (if x = 0 then 0 else of_int (rne (x / 2 powi (flt_exp x))) * 2 powi (flt_exp x))"

definition lround :: "rat \<Rightarrow> int" where
  "lround x = (if 0 \<le> x then \<lfloor>x + 1/2\<rfloor> else \<lceil>x - 1/2\<rceil>)"

lemma scaled_diff: "0 < u \<Longrightarrow> \<bar>a - x / u\<bar> * u = \<bar>a * u - x\<bar>" for u :: rat
proof -
  assume u: "0 < u"
  have "\<bar>a - x / u\<bar> * u = \<bar>(a - x / u) * u\<bar>" using u by (simp add: abs_mult)
  also have "(a - x / u) * u = a * u - x" using u by (simp add: left_diff_distrib)
  finally show ?thesis .
qed

lemma rne_scaled:
  assumes "0 < (u :: rat)"
  shows "\<bar>of_int (rne (x / u)) * u - x\<bar> \<le> u / 2"
proof -
  have "\<bar>of_int (rne (x / u)) - x / u\<bar> \<le> 1 / 2" using rne_bounds [of "x / u"] by linarith
  then have "\<bar>of_int (rne (x / u)) - x / u\<bar> * u \<le> 1 / 2 * u" using assms by (intro mult_right_mono) auto
  moreover have "\<bar>of_int (rne (x / u)) - x / u\<bar> * u = \<bar>of_int (rne (x / u)) * u - x\<bar>"
    using scaled_diff [of u] assms by simp
  ultimately show ?thesis by simp
qed

lemma dbl_error: "\<bar>dbl x - x\<bar> \<le> 2 powi (ulp_exp x) / 2"
  using rne_scaled [of "2 powi (ulp_exp x)" x] by (simp add: dbl_def)

lemma flt_error: "\<bar>flt x - x\<bar> \<le> 2 powi (flt_exp x) / 2"
  using rne_scaled [of "2 powi (flt_exp x)" x] by (simp add: flt_def)

lemma dexp_below: "x \<noteq> 0 \<Longrightarrow> \<bar>x\<bar> < 2 powi k \<Longrightarrow> dexp x + 52 < k"
  using dexp_bounds(1) [of x] powi2_less_cancel by (meson le_less_trans)

subsection \<open>Calibration frames\<close>

record pixel_rect =
  px_left :: int
  px_top :: int
  px_right :: int
  px_bottom :: int

datatype Handle = Whole | TopLeft | BottomRight

definition MinWidth :: "int \<Rightarrow> int" where
  "MinWidth width = max 20 \<lceil>dbl (of_int width * dbl (3 / 100))\<rceil>"

definition MinHeight :: "int \<Rightarrow> int" where
  "MinHeight height = max 2 \<lceil>dbl (of_int height * dbl (8 / 1000))\<rceil>"

definition HasFrame :: "int \<Rightarrow> int \<Rightarrow> bool" where
  "HasFrame width height \<longleftrightarrow> width \<ge> 20 \<and> height \<ge> 2"

definition IsValid :: "pixel_rect \<Rightarrow> int \<Rightarrow> int \<Rightarrow> bool" where
  "IsValid r width height \<longleftrightarrow>
     HasFrame width height \<and> px_left r \<ge> 0 \<and> px_top r \<ge> 0 \<and>
     px_right r \<le> width \<and> px_bottom r \<le> height \<and> px_right r > px_left r \<and> px_bottom r > px_top r \<and>
     px_right r - px_left r \<ge> MinWidth width \<and> px_bottom r - px_top r \<ge> MinHeight height"

definition ToPixel :: "double_value \<Rightarrow> int \<Rightarrow> int" where
  "ToPixel v extent =
     (if extent \<le> 0 then 0
      else case v of
        Finite x \<Rightarrow> (let bounded = max 0 (min 1 x) in lround (dbl (bounded * of_int extent)))
      | _ \<Rightarrow> 0)"

text \<open>The four numbers of an array, or \<open>None\<close> for the null pointer.\<close>

definition ToPixels :: "(double_value \<times> double_value \<times> double_value \<times> double_value) option \<Rightarrow> int \<Rightarrow> int \<Rightarrow> pixel_rect" where
  "ToPixels v width height =
     (case v of
        None \<Rightarrow> \<lparr>px_left = 0, px_top = 0, px_right = 0, px_bottom = 0\<rparr>
      | Some (a, b, c, d) \<Rightarrow> \<lparr>px_left = ToPixel a width, px_top = ToPixel b height,
          px_right = ToPixel c width, px_bottom = ToPixel d height\<rparr>)"

definition ratio :: "int \<Rightarrow> int \<Rightarrow> double_value" where
  "ratio a b = Finite (flt (flt (of_int a) / flt (of_int b)))"

text \<open>\<open>None\<close> is the result false, which leaves the array alone.\<close>

definition ToNormalized :: "pixel_rect \<Rightarrow> int \<Rightarrow> int \<Rightarrow> (double_value \<times> double_value \<times> double_value \<times> double_value) option" where
  "ToNormalized r width height =
     (if \<not> IsValid r width height then None
      else Some (ratio (px_left r) width, ratio (px_top r) height, ratio (px_right r) width, ratio (px_bottom r) height))"

definition Nudge :: "pixel_rect \<Rightarrow> int \<Rightarrow> int \<Rightarrow> Handle \<Rightarrow> int \<Rightarrow> int \<Rightarrow> bool \<times> pixel_rect" where
  "Nudge r width height handle dx dy =
     (if \<not> IsValid r width height then (False, r)
      else
        let dx = max (- width) (min width dx); dy = max (- height) (min height dy) in
        (True,
         case handle of
           Whole \<Rightarrow>
             let dx = max (- px_left r) (min (width - px_right r) dx);
                 dy = max (- px_top r) (min (height - px_bottom r) dy)
             in \<lparr>px_left = px_left r + dx, px_top = px_top r + dy, px_right = px_right r + dx, px_bottom = px_bottom r + dy\<rparr>
         | TopLeft \<Rightarrow>
             r\<lparr>px_left := max 0 (min (px_right r - MinWidth width) (px_left r + dx)),
               px_top := max 0 (min (px_bottom r - MinHeight height) (px_top r + dy))\<rparr>
         | BottomRight \<Rightarrow>
             r\<lparr>px_right := min width (max (px_left r + MinWidth width) (px_right r + dx)),
               px_bottom := min height (max (px_top r + MinHeight height) (px_bottom r + dy))\<rparr>))"

lemma flt_of_int:
  assumes "\<bar>n\<bar> < 2 ^ 24"
  shows "flt (of_int n) = of_int n"
proof (cases "n = 0")
  case False
  have "rat_of_int \<bar>n\<bar> < of_int (2 ^ 24)" using assms by (simp only: of_int_less_iff)
  then have "\<bar>rat_of_int n\<bar> < 2 powi 24" by simp
  from dexp_below [OF _ this] have e: "flt_exp (of_int n) \<le> 0" using False by (simp add: flt_exp_def)
  have w: "(of_int (2 ^ nat (- flt_exp (of_int n))) :: rat) * 2 powi (flt_exp (of_int n)) = 1"
    using e by (auto simp: power_int_def field_simps)
  then have "of_int n / 2 powi (flt_exp (of_int n)) = (of_int (n * 2 ^ nat (- flt_exp (of_int n))) :: rat)"
    by (simp add: field_simps)
  then show ?thesis using False w by (simp add: flt_def del: of_int_power of_int_mult) simp
qed (simp add: flt_def)

lemma lround_near:
  assumes "\<bar>x - of_int n\<bar> < 1 / 2"
  shows "lround x = n"
proof -
  have "of_int n < x + 1 / 2" "x + 1 / 2 < of_int n + 1" "of_int n - 1 < x - 1 / 2" "x - 1 / 2 < of_int n"
    using assms by linarith+
  then show ?thesis unfolding lround_def floor_eq_iff ceiling_eq_iff by (auto simp: floor_eq_iff ceiling_eq_iff)
qed

lemma pixel_of_ratio:
  assumes "0 \<le> l" "l \<le> extent" "0 < extent" "extent \<le> 2 ^ 22"
  shows "ToPixel (ratio l extent) extent = l"
proof -
  let ?w = "rat_of_int extent" and ?q = "rat_of_int l / rat_of_int extent"
  define b where "b = max 0 (min 1 (flt ?q))"
  have w: "1 \<le> ?w" "?w \<le> 2 ^ 22"
  proof -
    have "?w \<le> of_int (2 ^ 22)" using assms(4) by (simp only: of_int_le_iff)
    then show "?w \<le> 2 ^ 22" by simp
  qed (use assms in simp)
  have q: "0 \<le> ?q" "?q \<le> 1" using assms by simp_all
  have near: "\<bar>flt ?q - ?q\<bar> \<le> 1 / 2 ^ 24"
  proof (cases "?q = 0")
    case False
    have "dexp ?q + 52 < 1" using q False by (intro dexp_below) (auto simp: power_int_def)
    then have "flt_exp ?q \<le> - 23" by (simp add: flt_exp_def)
    then have "(2 :: rat) powi (flt_exp ?q) \<le> 2 powi (- 23)" by (intro power_int_increasing) simp_all
    also have "\<dots> = 1 / 2 ^ 23" by (simp add: power_int_def power_one_over)
    finally show ?thesis using flt_error [of ?q] by simp
  qed (simp only: flt_def simp_thms if_True, simp)
  then have "\<bar>b - ?q\<bar> \<le> 1 / 2 ^ 24" using q by (auto simp: b_def max_def min_def)
  then have "\<bar>b - ?q\<bar> * ?w \<le> 1 / 2 ^ 24 * 2 ^ 22" using w by (intro mult_mono) simp_all
  then have close: "\<bar>b * ?w - of_int l\<bar> \<le> 1 / 4" using w scaled_diff [of ?w b "of_int l"] by simp
  have b: "0 \<le> b" "b \<le> 1" by (simp_all add: b_def)
  have "\<bar>dbl (b * ?w) - b * ?w\<bar> \<le> 1 / 8"
  proof (cases "b * ?w = 0")
    case False
    have "b * ?w \<le> 1 * 2 ^ 22" using b w by (intro mult_mono) simp_all
    then have "\<bar>b * ?w\<bar> < 2 powi 23" using b w by (simp add: power_int_def abs_mult)
    from dexp_below [OF False this] have "ulp_exp (b * ?w) \<le> - 2" by (simp add: ulp_exp_def)
    then have "(2 :: rat) powi (ulp_exp (b * ?w)) \<le> 2 powi (- 2)" by (intro power_int_increasing) simp_all
    also have "\<dots> = 1 / 4" by (simp add: power_int_def power_one_over)
    finally show ?thesis using dbl_error [of "b * ?w"] by simp
  next
    case True
    show ?thesis unfolding True by simp
  qed
  then have "\<bar>dbl (b * ?w) - of_int l\<bar> < 1 / 2" using close by linarith
  from lround_near [OF this] have "lround (dbl (b * ?w)) = l" .
  moreover have "flt (of_int l) = of_int l" "flt (of_int extent) = of_int extent"
    using assms by (intro flt_of_int; simp)+
  ultimately show ?thesis using assms(3) by (simp add: ToPixel_def ratio_def b_def Let_def)
qed

text \<open>
  A calibration frame that is stored as fractions of the picture is read back as the same
  pixels, in every picture of at most \<open>2 ^ 22\<close> pixels in each direction: the rounding to \<^verbatim>\<open>float\<close> on the way out
  and to \<^verbatim>\<open>double\<close> and an integer on the way back never moves an edge.
\<close>

theorem frame_round_trip:
  assumes "IsValid r width height" "width \<le> 2 ^ 22" "height \<le> 2 ^ 22"
  shows "ToPixels (ToNormalized r width height) width height = r"
proof -
  have "0 < width" "0 < height" using assms(1) by (simp_all add: IsValid_def HasFrame_def)
  then show ?thesis using assms
    by (cases r) (auto simp: ToPixels_def ToNormalized_def pixel_of_ratio IsValid_def)
qed

lemma clamp_between: "a \<le> b \<Longrightarrow> a \<le> max a (min b x) \<and> max a (min b x) \<le> b" for a b x :: int
  by auto

lemma clamp_between': "a \<le> b \<Longrightarrow> a \<le> min b (max a x) \<and> min b (max a x) \<le> b" for a b x :: int
  by auto

lemma Nudge_cases:
  assumes "IsValid r width height"
  obtains dx' dy' where "handle = Whole" "- px_left r \<le> dx'" "dx' \<le> width - px_right r" "- px_top r \<le> dy'" "dy' \<le> height - px_bottom r"
      "Nudge r width height handle dx dy = (True, \<lparr>px_left = px_left r + dx', px_top = px_top r + dy',
         px_right = px_right r + dx', px_bottom = px_bottom r + dy'\<rparr>)"
  | x y where "handle = TopLeft" "0 \<le> x" "x \<le> px_right r - MinWidth width" "0 \<le> y" "y \<le> px_bottom r - MinHeight height"
      "Nudge r width height handle dx dy = (True, r\<lparr>px_left := x, px_top := y\<rparr>)"
  | x y where "handle = BottomRight" "px_left r + MinWidth width \<le> x" "x \<le> width" "px_top r + MinHeight height \<le> y" "y \<le> height"
      "Nudge r width height handle dx dy = (True, r\<lparr>px_right := x, px_bottom := y\<rparr>)"
proof -
  define dx1 dy1 where "dx1 = max (- width) (min width dx)" and "dy1 = max (- height) (min height dy)"
  have step: "Nudge r width height handle dx dy = (True,
         case handle of
           Whole \<Rightarrow> (let dx = max (- px_left r) (min (width - px_right r) dx1); dy = max (- px_top r) (min (height - px_bottom r) dy1)
             in \<lparr>px_left = px_left r + dx, px_top = px_top r + dy, px_right = px_right r + dx, px_bottom = px_bottom r + dy\<rparr>)
         | TopLeft \<Rightarrow> r\<lparr>px_left := max 0 (min (px_right r - MinWidth width) (px_left r + dx1)),
               px_top := max 0 (min (px_bottom r - MinHeight height) (px_top r + dy1))\<rparr>
         | BottomRight \<Rightarrow> r\<lparr>px_right := min width (max (px_left r + MinWidth width) (px_right r + dx1)),
               px_bottom := min height (max (px_top r + MinHeight height) (px_bottom r + dy1))\<rparr>)"
    unfolding Nudge_def Let_def dx1_def dy1_def using assms by (simp only: simp_thms if_False)
  have step1: "handle = Whole \<Longrightarrow> Nudge r width height handle dx dy = (True,
      \<lparr>px_left = px_left r + max (- px_left r) (min (width - px_right r) dx1), px_top = px_top r + max (- px_top r) (min (height - px_bottom r) dy1),
        px_right = px_right r + max (- px_left r) (min (width - px_right r) dx1), px_bottom = px_bottom r + max (- px_top r) (min (height - px_bottom r) dy1)\<rparr>)"
    unfolding step by (simp only: Handle.case Let_def)
  have step2: "handle = TopLeft \<Longrightarrow> Nudge r width height handle dx dy = (True,
      r\<lparr>px_left := max 0 (min (px_right r - MinWidth width) (px_left r + dx1)), px_top := max 0 (min (px_bottom r - MinHeight height) (px_top r + dy1))\<rparr>)"
    unfolding step by (simp only: Handle.case)
  have step3: "handle = BottomRight \<Longrightarrow> Nudge r width height handle dx dy = (True,
      r\<lparr>px_right := min width (max (px_left r + MinWidth width) (px_right r + dx1)),
        px_bottom := min height (max (px_top r + MinHeight height) (px_bottom r + dy1))\<rparr>)"
    unfolding step by (simp only: Handle.case)
  have b: "- px_left r \<le> width - px_right r" "- px_top r \<le> height - px_bottom r"
    "0 \<le> px_right r - MinWidth width" "0 \<le> px_bottom r - MinHeight height"
    "px_left r + MinWidth width \<le> width" "px_top r + MinHeight height \<le> height" using assms by (auto simp: IsValid_def)
  show ?thesis
  proof (cases handle)
    case Whole
    show ?thesis using clamp_between [OF b(1), of dx1] clamp_between [OF b(2), of dy1]
      by (intro that(1) [OF Whole _ _ _ _ step1 [OF Whole]]) simp_all
  next
    case TopLeft
    show ?thesis using clamp_between [OF b(3), of "px_left r + dx1"] clamp_between [OF b(4), of "px_top r + dy1"]
      by (intro that(2) [OF TopLeft _ _ _ _ step2 [OF TopLeft]]) simp_all
  next
    case BottomRight
    show ?thesis using clamp_between' [OF b(5), of "px_right r + dx1"] clamp_between' [OF b(6), of "px_bottom r + dy1"]
      by (intro that(3) [OF BottomRight _ _ _ _ step3 [OF BottomRight]]) simp_all
  qed
qed

text \<open>
  Nudging keeps a frame valid for every step, however large, and reports whether it was valid
  before. Moving the whole frame keeps its size and dragging a corner keeps the opposite corner.
\<close>

theorem nudge_keeps_frame_valid:
  "let (ok, r') = Nudge r width height handle dx dy in
   ok = IsValid r width height \<and> IsValid r' width height = IsValid r width height \<and>
   (if ok then
      (case handle of
         Whole \<Rightarrow> px_right r' - px_left r' = px_right r - px_left r \<and> px_bottom r' - px_top r' = px_bottom r - px_top r
       | TopLeft \<Rightarrow> px_right r' = px_right r \<and> px_bottom r' = px_bottom r
       | BottomRight \<Rightarrow> px_left r' = px_left r \<and> px_top r' = px_top r)
    else r' = r)"
proof (cases "IsValid r width height")
  case True
  have m: "2 \<le> MinHeight height" "20 \<le> MinWidth width" by (simp_all add: MinWidth_def MinHeight_def)
  from True show ?thesis
  proof (cases rule: Nudge_cases [of r width height handle dx dy])
    case (1 dx' dy')
    then show ?thesis using True by (simp add: IsValid_def)
  next
    case (2 x y)
    then show ?thesis using True m by (simp add: IsValid_def)
  next
    case (3 x y)
    then show ?thesis using True m by (simp add: IsValid_def)
  qed
qed (simp add: Nudge_def)

theorem frame_round_trip_witness:
  "ToPixels (ToNormalized \<lparr>px_left = 7, px_top = 3, px_right = 97, px_bottom = 23\<rparr> 100 50) 100 50 =
     \<lparr>px_left = 7, px_top = 3, px_right = 97, px_bottom = 23\<rparr>"
proof (rule frame_round_trip)
  have "dbl (of_int 100 * dbl (3 / 100)) \<le> 20" "dbl (of_int 50 * dbl (8 / 1000)) \<le> 2"
  proof -
    have "dbl (3 / 100) \<le> dbl 1" "dbl (8 / 1000) \<le> dbl 1" by (intro dbl_mono; simp)+
    show "dbl (of_int 100 * dbl (3 / 100)) \<le> 20" "dbl (of_int 50 * dbl (8 / 1000)) \<le> 2" by code_simp+
  qed
  then have "\<lceil>dbl (of_int 100 * dbl (3 / 100))\<rceil> \<le> 20" "\<lceil>dbl (of_int 50 * dbl (8 / 1000))\<rceil> \<le> 2"
    unfolding ceiling_le_iff by simp_all
  then show "IsValid \<lparr>px_left = 7, px_top = 3, px_right = 97, px_bottom = 23\<rparr> 100 50"
    by (simp add: IsValid_def HasFrame_def MinWidth_def MinHeight_def)
qed simp_all

subsection \<open>The layout of the preview\<close>

record preview_layout =
  game_rect :: pixel_rect
  left_panel :: pixel_rect
  right_panel :: pixel_rect

definition int_of_double :: "rat \<Rightarrow> int option" where
  "int_of_double x = (let t = trunc x in if - (2 ^ 31) \<le> t \<and> t < 2 ^ 31 then Some t else None)"

definition arrange :: "int \<Rightarrow> int \<Rightarrow> int \<Rightarrow> int \<Rightarrow> preview_layout" where
  "arrange width height gameWidth gameHeight =
     (let gap = 6; top = (height - gameHeight) div 2; panelHeight = (height - gap * 3) div 2
      in \<lparr>game_rect = \<lparr>px_left = 0, px_top = top, px_right = gameWidth, px_bottom = top + gameHeight\<rparr>,
          left_panel = \<lparr>px_left = gameWidth + gap, px_top = gap, px_right = width - gap, px_bottom = gap + panelHeight\<rparr>,
          right_panel = \<lparr>px_left = gameWidth + gap, px_top = gap * 2 + panelHeight, px_right = width - gap, px_bottom = height - gap\<rparr>\<rparr>)"

definition preview_available :: "int \<Rightarrow> int" where
  "preview_available width =
     (let gap = 6; side = min (width div 2) (min 280 (max 196 (width div 5))) in max 1 (width - side - gap * 2))"

definition preview_aspect :: "int \<Rightarrow> int \<Rightarrow> rat" where
  "preview_aspect sourceWidth sourceHeight = dbl (of_int (max 1 sourceWidth) / of_int (max 1 sourceHeight))"

definition PreviewCalculate :: "int \<Rightarrow> int \<Rightarrow> int \<Rightarrow> int \<Rightarrow> preview_layout option" where
  "PreviewCalculate width height sourceWidth sourceHeight =
     (let width = max width 32; height = max height 64; aspect = preview_aspect sourceWidth sourceHeight in do {
        wide \<leftarrow> int_of_double (dbl (of_int height * aspect));
        let gameWidth = min (preview_available width) wide;
        high \<leftarrow> int_of_double (dbl (of_int gameWidth / aspect));
        Some (arrange width height gameWidth (min height (max 1 high))) })"

text \<open>The division of the cells truncates; for a window of the least height their height is negative.\<close>

definition PreviewCell :: "pixel_rect \<Rightarrow> nat \<Rightarrow> pixel_rect" where
  "PreviewCell panel index =
     (let gap = 5; title = 24;
          w = (px_right panel - px_left panel - gap * 3) sdiv 2;
          h = (px_bottom panel - px_top panel - title - gap * 3) sdiv 2;
          x = px_left panel + gap + int (index mod 2) * (w + gap);
          y = px_top panel + title + gap + int (index div 2) * (h + gap)
      in \<lparr>px_left = x, px_top = y, px_right = x + w, px_bottom = y + h\<rparr>)"

text \<open>
  The picture and the two panels lie in the window one beside the other: the picture at the left edge, the panels
  to its right, with a margin of six pixels on every side, stacked without overlap.
\<close>

theorem preview_panels_in_window:
  assumes "PreviewCalculate width height sourceWidth sourceHeight = Some l"
  shows "0 \<le> px_right (game_rect l) \<and> 0 \<le> px_top (game_rect l) \<and> px_top (game_rect l) < px_bottom (game_rect l) \<and>
    px_bottom (game_rect l) \<le> max height 64 \<and>
    px_right (game_rect l) + 6 = px_left (left_panel l) \<and> px_left (left_panel l) < px_right (left_panel l) \<and>
    px_right (left_panel l) + 6 = max width 32 \<and>
    px_left (right_panel l) = px_left (left_panel l) \<and> px_right (right_panel l) = px_right (left_panel l) \<and>
    px_top (left_panel l) = 6 \<and> px_bottom (left_panel l) + 6 = px_top (right_panel l) \<and>
    px_top (right_panel l) < px_bottom (right_panel l) \<and> px_bottom (right_panel l) + 6 = max height 64"
proof -
  define w h where "w = max width 32" and "h = max height 64"
  let ?aspect = "preview_aspect sourceWidth sourceHeight"
  from assms obtain wide high where wide: "int_of_double (dbl (of_int h * ?aspect)) = Some wide"
    and l: "l = arrange w h (min (preview_available w) wide) (min h (max 1 high))"
    unfolding PreviewCalculate_def Let_def w_def [symmetric] h_def [symmetric] by (auto simp: throw_simps)
  have w: "32 \<le> w" and h: "64 \<le> h" by (simp_all add: w_def h_def)
  have "0 \<le> ?aspect" unfolding preview_aspect_def by (intro dbl_nonneg) simp
  then have "0 \<le> dbl (of_int h * ?aspect)" using h by (intro dbl_nonneg) simp
  then have "0 \<le> wide" using wide by (auto simp: int_of_double_def Let_def trunc_def split: if_splits)
  have "1 \<le> w div 2" "1 \<le> max 196 (w div 5)" using w by linarith+
  then have "1 \<le> min (w div 2) (min 280 (max 196 (w div 5)))" by simp
  then have av: "1 \<le> preview_available w" "preview_available w + 12 < w" using w by (simp_all add: preview_available_def Let_def)
  define g where "g = min (preview_available w) wide"
  define gh where "gh = min h (max 1 high)"
  have g: "0 \<le> g" "g + 12 < w" using av \<open>0 \<le> wide\<close> by (simp_all add: g_def)
  have gh: "1 \<le> gh" "gh \<le> h" using h by (simp_all add: gh_def)
  have "(h - gh) div 2 + gh \<le> h" "0 \<le> (h - gh) div 2" using gh by linarith+
  moreover have "12 + (h - 18) div 2 < h - 6" using h by linarith
  ultimately show ?thesis unfolding l g_def [symmetric] gh_def [symmetric] w_def [symmetric] h_def [symmetric]
    using g gh by (simp add: arrange_def Let_def)
qed

end
