(* ===== verification/ClientText.thy ===== *)
theory ClientText
  imports CloudProtocol Loops
begin

text \<open>
  The pure helpers of the cloud client (\<^verbatim>\<open>CloudMatchClient.cpp\<close>): texts and codes received from the server,
  numbers with a bound, the revision of a snapshot, the reported version of the program, the address of
  the server, and the delays between connections. The url cracker of Windows is a parameter.
\<close>

unbundle bit_operations_syntax

definition kReconnectDelaysSeconds :: "nat list" where "kReconnectDelaysSeconds = [1, 2, 5, 10, 20]"

definition kMaxBroadcasterNameBytes :: nat where "kMaxBroadcasterNameBytes = 512"

subsection \<open>Texts of the server\<close>

definition blank_control :: "byte \<Rightarrow> byte" where
  "blank_control b = (if b < 0x20 \<or> b = 0x7F then 0x20 else b)"

definition continuation :: "byte \<Rightarrow> bool" where
  "continuation b \<longleftrightarrow> b AND 0xC0 = 0x80"

fun cut_end :: "bytes \<Rightarrow> nat \<Rightarrow> nat" where
  "cut_end bs 0 = 0"
| "cut_end bs (Suc e) = (if Suc e < length bs \<and> continuation (bs ! Suc e) then cut_end bs e else Suc e)"

definition SanitizeServerText :: "json \<Rightarrow> bytes \<Rightarrow> bytes \<Rightarrow> bytes" where
  "SanitizeServerText j key fallback =
     (case json_find key j of
        Some (JStr found) \<Rightarrow>
          (let result = map blank_control found in
           if length result > 256 then take (cut_end result 256) result else result)
      | _ \<Rightarrow> fallback)"

definition code_char :: "byte \<Rightarrow> bool" where
  "code_char c \<longleftrightarrow> (0x61 \<le> c \<and> c \<le> 0x7A) \<or> (0x41 \<le> c \<and> c \<le> 0x5A) \<or> (0x30 \<le> c \<and> c \<le> 0x39) \<or>
     c = 0x5F \<or> c = 0x2D \<or> c = 0x2E"

definition SanitizeServerCode :: "json \<Rightarrow> bytes \<Rightarrow> bytes \<Rightarrow> bytes" where
  "SanitizeServerCode j key fallback =
     (let code = SanitizeServerText j key fallback in
      if code = [] \<or> length code > 64 then ascii ''server_error''
      else if list_ex (\<lambda>c. \<not> code_char c) code then ascii ''server_error''
      else code)"

definition ReadServerBanUntil :: "json \<Rightarrow> int" where
  "ReadServerBanUntil j =
     (case json_find (ascii ''bannedUntil'') j of
        None \<Rightarrow> - 1
      | Some found \<Rightarrow>
          if found = JNull then 0
          else if \<not> is_number_integer found then - 1
          else let bannedUntil = get_int64 found in
            if bannedUntil > 0 \<and> bannedUntil \<le> 253402300799 then bannedUntil else - 1)"

text \<open>
  The result argument is given and returned: it is overwritten by every number that is read, also by one
  that turns out to be above the bound.
\<close>

definition ReadBoundedUnsigned :: "json \<Rightarrow> bytes \<Rightarrow> u64 \<Rightarrow> u64 \<Rightarrow> bool \<times> u64" where
  "ReadBoundedUnsigned j key maximum result =
     (case json_find key j of
        None \<Rightarrow> (False, result)
      | Some found \<Rightarrow>
          if is_number_unsigned found then (get_uint64 found \<le> maximum, get_uint64 found)
          else if is_number_integer found then
            (if get_int64 found < 0 then (False, result) else (get_uint64 found \<le> maximum, get_uint64 found))
          else (False, result))"

definition ExtractSnapshotClientRevision :: "parser \<Rightarrow> bytes \<Rightarrow> u64" where
  "ExtractSnapshotClientRevision parse snapshotJson =
     (case parse snapshotJson of
        None \<Rightarrow> 0
      | Some snapshot \<Rightarrow>
          if \<not> is_object snapshot then 0
          else case json_find (ascii ''clientRevision'') snapshot of
            None \<Rightarrow> 0
          | Some found \<Rightarrow>
              if is_number_unsigned found then get_uint64 found
              else if is_number_integer found then (if get_int64 found > 0 then get_uint64 found else 0)
              else 0)"

definition version_char :: "byte \<Rightarrow> bool" where
  "version_char c \<longleftrightarrow> (0x30 \<le> c \<and> c \<le> 0x39) \<or> (0x61 \<le> c \<and> c \<le> 0x7A) \<or> (0x41 \<le> c \<and> c \<le> 0x5A) \<or>
     c = 0x2E \<or> c = 0x2D \<or> c = 0x5F \<or> c = 0x2B"

fun clean_version :: "bytes \<Rightarrow> bytes \<Rightarrow> bytes" where
  "clean_version [] clean = clean"
| "clean_version (ch # rest) clean =
     (if length clean \<ge> 32 then clean
      else clean_version rest (if version_char ch then clean @ [ch] else clean))"

definition SetClientVersion :: "bytes \<Rightarrow> bytes" where
  "SetClientVersion version = clean_version version []"

subsection \<open>Addresses\<close>

definition JoinUrlPath :: "wstr \<Rightarrow> wstr \<Rightarrow> wstr" where
  "JoinUrlPath basePath tail_path =
     (if basePath = [] then tail_path
      else if tail_path = [] then basePath
      else if last basePath = 0x2F \<and> hd tail_path = 0x2F then basePath @ tl tail_path
      else if last basePath \<noteq> 0x2F \<and> hd tail_path \<noteq> 0x2F then basePath @ [0x2F] @ tail_path
      else basePath @ tail_path)"

text \<open>What the cracker of Windows reports; the scheme is \<open>Some True\<close> for https, \<open>Some False\<close> for http.\<close>

record cracked_url =
  ck_scheme :: "bool option"
  ck_host :: wstr
  ck_user_length :: nat
  ck_password_length :: nat
  ck_path :: wstr
  ck_extra_length :: nat
  ck_port :: nat

record server_address =
  sa_secure :: bool
  sa_port :: nat
  sa_host :: wstr
  sa_basePath :: wstr

definition ParseServerUrl :: "(wstr \<Rightarrow> cracked_url option) \<Rightarrow> wstr \<Rightarrow> server_address option" where
  "ParseServerUrl crack url =
     (if url = [] \<or> length url > 2048 \<or> 0 \<in> set url then None
      else case crack url of
        None \<Rightarrow> None
      | Some c \<Rightarrow>
          if ck_scheme c = None \<or> ck_host c = [] \<or> ck_user_length c \<noteq> 0 \<or> ck_password_length c \<noteq> 0 \<or> ck_extra_length c \<noteq> 0 then None
          else Some \<lparr>sa_secure = (ck_scheme c = Some True), sa_port = ck_port c, sa_host = ck_host c,
            sa_basePath = rev (dropWhile (\<lambda>ch. ch = 0x2F) (rev (ck_path c)))\<rparr>)"

subsection \<open>Delays\<close>

text \<open>The delay after an attempt and the next index; a connection that came up starts over.\<close>

definition next_delay :: "bool \<Rightarrow> nat \<Rightarrow> nat \<times> nat" where
  "next_delay connectedOnce reconnectIndex =
     (let reconnectIndex = (if connectedOnce then 0 else reconnectIndex);
          delaySeconds = kReconnectDelaysSeconds ! min reconnectIndex (length kReconnectDelaysSeconds - 1)
      in (delaySeconds, if reconnectIndex + 1 < length kReconnectDelaysSeconds then reconnectIndex + 1 else reconnectIndex))"

subsection \<open>Sanitised texts\<close>

lemma continuation_range: "continuation b \<longleftrightarrow> 0x80 \<le> unat b \<and> unat b \<le> 0xBF"
proof -
  have all: "list_all (\<lambda>n. ((of_nat n :: byte) AND 0xC0 = 0x80) = (0x80 \<le> n \<and> n \<le> 0xBF)) [0..<256]" by code_simp
  have "unat b < 256" using unsigned_less [of b] by simp
  then have "unat b \<in> set [0..<256]" by simp
  from bspec [OF all [unfolded list_all_iff] this] show ?thesis unfolding continuation_def by simp
qed

lemma blank_valid: "IsValidUtf8 bs \<Longrightarrow> IsValidUtf8 (map blank_control bs)"
proof (induction bs rule: length_induct)
  case (1 bs)
  show ?case
  proof (cases bs)
    case (Cons a r)
    have same: "0x80 \<le> unat x \<Longrightarrow> blank_control x = x" for x by (auto simp: blank_control_def byte_nat)
    have low: "unat a < 0x80 \<Longrightarrow> unat (blank_control a) < 0x80" by (simp add: blank_control_def)
    from 1 Cons show ?thesis unfolding Cons IsValidUtf8_shapes
      by (elim disjE exE conjE) (force simp: IsValidUtf8_shapes same low)+
  qed simp
qed

lemma take_valid:
  "IsValidUtf8 bs \<Longrightarrow> e \<le> length bs \<Longrightarrow> e = length bs \<or> \<not> continuation (bs ! e) \<Longrightarrow> IsValidUtf8 (take e bs)"
proof (induction bs arbitrary: e rule: length_induct)
  case (1 bs)
  show ?case
  proof (cases "e = 0 \<or> e = length bs")
    case False
    then obtain a r where bs: "bs = a # r" using 1(3) by (cases bs) auto
    have nc: "\<not> continuation (bs ! e)" using 1(4) False by simp
    have IH: "IsValidUtf8 (take k s)" if "length s < length bs" "IsValidUtf8 s" "k \<le> length s" "k = length s \<or> \<not> continuation (s ! k)" for s k
      using 1(1) that by blast
    obtain k where e: "e = Suc k" using False by (cases e) auto
    from 1(2) show ?thesis unfolding bs IsValidUtf8_shapes
    proof (elim disjE exE conjE, goal_cases)
      case 1
      then show ?case using IH [of r k] nc 1 \<open>e \<le> length bs\<close> by (simp add: bs e IsValidUtf8_shapes)
    next
      case (2 b s)
      then obtain k2 where "k = Suc k2" using nc by (cases k) (auto simp: bs e continuation_range)
      then show ?case using IH [of s k2] nc 2 \<open>e \<le> length bs\<close> by (simp add: bs e IsValidUtf8_shapes)
    next
      case (3 b c s)
      then obtain k3 where "k = Suc (Suc k3)" using nc by (cases k; cases "k - 1") (auto simp: bs e continuation_range split: if_splits)
      then show ?case using IH [of s k3] nc 3 \<open>e \<le> length bs\<close> by (simp add: bs e IsValidUtf8_shapes)
    next
      case (4 b c d s)
      then obtain k4 where "k = Suc (Suc (Suc k4))"
        using nc by (cases k; cases "k - 1"; cases "k - 2") (auto simp: bs e continuation_range split: if_splits)
      then show ?case using IH [of s k4] nc 4 \<open>e \<le> length bs\<close> by (simp add: bs e IsValidUtf8_shapes)
    qed
  qed (use 1 in auto)
qed

lemma cut_end_le: "cut_end bs e \<le> e"
  by (induction e) auto

lemma cut_end_boundary: "e < length bs \<Longrightarrow> cut_end bs e = 0 \<or> \<not> continuation (bs ! cut_end bs e)"
  by (induction e) auto

lemma SanitizeServerText_JStr:
  "json_find key j = Some (JStr t) \<Longrightarrow> SanitizeServerText j key fallback =
     (if length t > 256 then take (cut_end (map blank_control t) 256) (map blank_control t) else map blank_control t)"
  by (simp add: SanitizeServerText_def Let_def)

text \<open>
  A text of the server that is shown to the user is at most 256 bytes long, has no control
  character, stays valid UTF-8 (it is cut between characters) and is unchanged when it was short and clean;
  a code is one to 64 letters, digits, underscores, hyphens and dots.
\<close>

theorem server_text_is_clean:
  assumes "json_find key j = Some (JStr t)"
  shows "length (SanitizeServerText j key fallback) \<le> 256 \<and>
    list_all (\<lambda>b. 0x20 \<le> b \<and> b \<noteq> 0x7F) (SanitizeServerText j key fallback) \<and>
    (IsValidUtf8 t \<longrightarrow> IsValidUtf8 (SanitizeServerText j key fallback)) \<and>
    (length t \<le> 256 \<and> list_all (\<lambda>b. 0x20 \<le> b \<and> b \<noteq> 0x7F) t \<longrightarrow> SanitizeServerText j key fallback = t) \<and>
    length (SanitizeServerCode j key fallback) \<in> {1..64} \<and> list_all code_char (SanitizeServerCode j key fallback)"
proof -
  let ?m = "map blank_control t"
  note eq = SanitizeServerText_JStr [OF assms, of fallback]
  have clean: "list_all (\<lambda>b. 0x20 \<le> b \<and> b \<noteq> 0x7F) ?m"
    by (auto simp: list_all_iff blank_control_def not_less)
  have "list_all (\<lambda>b. 0x20 \<le> b \<and> b \<noteq> 0x7F) (SanitizeServerText j key fallback)"
    using clean unfolding eq by (simp only: list_all_iff split: if_split) (blast dest: in_set_takeD)
  moreover have "length (SanitizeServerText j key fallback) \<le> 256"
    unfolding eq using cut_end_le [of ?m 256] by simp
  moreover have "IsValidUtf8 (SanitizeServerText j key fallback)" if "IsValidUtf8 t"
  proof (cases "length t > 256")
    case True
    then have len: "256 < length ?m" by simp
    have "cut_end ?m 256 \<le> length ?m" using cut_end_le [of ?m 256] len by linarith
    then show ?thesis unfolding eq using True take_valid [OF blank_valid [OF that], of "cut_end ?m 256"] cut_end_boundary [OF len]
      by (cases "cut_end ?m 256 = 0") simp_all
  qed (simp add: eq blank_valid that)
  moreover have "?m = t" if "list_all (\<lambda>b. 0x20 \<le> b \<and> b \<noteq> 0x7F) t"
    using that by (intro map_idI) (auto simp: list_all_iff blank_control_def)
  moreover have "length (SanitizeServerCode j key fallback) \<in> {1..64} \<and> list_all code_char (SanitizeServerCode j key fallback)"
  proof -
    have "list_all code_char (ascii ''server_error'') \<and> length (ascii ''server_error'') = 12" by (simp add: code_char_def)
    then show ?thesis
      by (auto simp: SanitizeServerCode_def Let_def list_all_iff list_ex_iff Suc_le_eq simp del: ascii_Cons)
  qed
  ultimately show ?thesis using eq by simp
qed

theorem server_text_is_clean_witness:
  "SanitizeServerText (make_object [(ascii ''message'', JStr [0x4F, 0x4B])]) (ascii ''message'') [] = [0x4F, 0x4B]"
proof -
  have "json_find (ascii ''message'') (make_object [(ascii ''message'', JStr [0x4F, 0x4B])]) = Some (JStr [0x4F, 0x4B])"
    by simp
  from server_text_is_clean [OF this, of "[]"] show ?thesis by simp
qed

end
