(* ===== verification/CloudClient.thy ===== *)
theory CloudClient
  imports ClientText
begin

text \<open>
  The state of the cloud client and every operation that changes it under its lock (\<^verbatim>\<open>CloudMatchClient::Impl\<close>):
  the command queue, the pending acknowledgements, the latest snapshot, the remembered room, the queue of
  messages to the dialog, and the accounting of reserved places in that queue. Time is a number of
  milliseconds. The generation and sequence counters are natural numbers: they count configurations and
  commands, and their 64 bits are not exhausted; the acknowledgement number is a word, because the code
  tests for its last value. The table of pending acknowledgements is a list whose order stands for the
  order in which the hash table is visited; nothing that is proved depends on it. \<open>parse\<close>, \<open>dump\<close> and the
  outcome of a transmission are parameters; an exception that leaves the worker thread, which ends the
  program, is \<open>None\<close>.
\<close>

definition kMaxCommandQueueSize :: nat where "kMaxCommandQueueSize = 64"
definition kMaxPendingAcks :: nat where "kMaxPendingAcks = 64"
definition kMaxInboundMessageQueueSize :: nat where "kMaxInboundMessageQueueSize = 128"
definition kMaxProtectedResultCapacity :: nat where "kMaxProtectedResultCapacity = 96"
definition kAckTimeout :: nat where "kAckTimeout = 8000"
definition kTransientCommandTimeout :: nat where "kTransientCommandTimeout = 8000"
definition kSnapshotSizingAckId :: u64 where "kSnapshotSizingAckId = - 2"
definition kMaxSafeRevision :: u64 where "kMaxSafeRevision = 9007199254740991"

datatype CommandKind =
    registerDevice | joinRoom | renameRoom | leaveRoom | uploadSnapshot | requestComparison | requestSnapshot
  | joinUnified | renameUnified | requestBroadcasters | requestBroadcasterSnapshot | requestSyncHistory
  | requestSyncRelations | recordSync | startRealtime | heartbeatRealtime | stopRealtime

definition IsTransientRequest :: "CommandKind \<Rightarrow> bool" where
  "IsTransientRequest kind \<longleftrightarrow> kind \<in> {requestComparison, requestSnapshot, requestBroadcasters,
     requestBroadcasterSnapshot, requestSyncHistory, requestSyncRelations}"

fun ResultTypeForCommand :: "CommandKind \<Rightarrow> bytes" where
  "ResultTypeForCommand registerDevice = ascii ''device_registration_error''"
| "ResultTypeForCommand joinRoom = ascii ''room_join_result''"
| "ResultTypeForCommand renameRoom = ascii ''room_rename_result''"
| "ResultTypeForCommand leaveRoom = ascii ''room_leave_result''"
| "ResultTypeForCommand uploadSnapshot = ascii ''snapshot_upload_result''"
| "ResultTypeForCommand requestComparison = ascii ''room_comparison_result''"
| "ResultTypeForCommand requestSnapshot = ascii ''snapshot_result''"
| "ResultTypeForCommand joinUnified = ascii ''broadcaster_join_result''"
| "ResultTypeForCommand renameUnified = ascii ''broadcaster_rename_result''"
| "ResultTypeForCommand requestBroadcasters = ascii ''broadcasters_list_result''"
| "ResultTypeForCommand requestBroadcasterSnapshot = ascii ''broadcaster_snapshot_result''"
| "ResultTypeForCommand requestSyncHistory = ascii ''sync_history_result''"
| "ResultTypeForCommand requestSyncRelations = ascii ''sync_relations_result''"
| "ResultTypeForCommand recordSync = ascii ''sync_record_result''"
| "ResultTypeForCommand startRealtime = ascii ''realtime_start_result''"
| "ResultTypeForCommand heartbeatRealtime = ascii ''realtime_heartbeat_result''"
| "ResultTypeForCommand stopRealtime = ascii ''realtime_stop_result''"

definition IsCoalescibleNotification :: "bytes \<Rightarrow> bool" where
  "IsCoalescibleNotification t \<longleftrightarrow> t \<in> set (map ascii [''room_changed'', ''room_presence'',
     ''broadcasters_changed'', ''sync_relations_changed'', ''realtime_snapshot''])"

definition IsProtectedInboundResult :: "bytes \<Rightarrow> bool" where
  "IsProtectedInboundResult t \<longleftrightarrow> t \<in> set (map ascii [''device_registered'', ''device_registration_error'',
     ''room_join_result'', ''snapshot_upload_result'', ''room_rename_result'', ''room_leave_result'',
     ''room_comparison_result'', ''snapshot_result'', ''broadcaster_join_result'', ''broadcaster_rename_result'',
     ''broadcasters_list_result'', ''broadcaster_snapshot_result'', ''sync_history_result'', ''sync_relations_result'',
     ''sync_record_result'', ''realtime_start_result'', ''realtime_heartbeat_result'', ''realtime_stop_result''])"

subsection \<open>The state\<close>

record client_config =
  cf_serverValid :: bool
  cf_credentialsValid :: bool
  cf_secure :: bool
  cf_port :: nat
  cf_host :: wstr
  cf_basePath :: wstr
  cf_deviceId :: bytes
  cf_deviceToken :: bytes
  cf_licenseDeviceId :: bytes
  cf_licenseSessionToken :: bytes
  cf_generation :: nat

record client_command =
  cm_kind :: CommandKind
  cm_argument :: bytes
  cm_secondArgument :: bytes
  cm_requestId :: bytes
  cm_generation :: nat
  cm_sequence :: nat
  cm_clientRevision :: u64
  cm_pageLimit :: nat
  cm_deadline :: "nat option"
  cm_reservation :: bool

record desired_room =
  dr_roomId :: bytes
  dr_broadcasterName :: bytes
  dr_generation :: nat
  dr_confirmedRenameSequence :: nat

record pending_snapshot =
  ps_generation :: nat
  ps_clientRevision :: u64
  ps_jsonText :: bytes
  ps_reservation :: bool

record pending_ack =
  pa_kind :: CommandKind
  pa_resultType :: bytes
  pa_requestId :: bytes
  pa_clientRevision :: u64
  pa_deadline :: nat
  pa_reservation :: bool
  pa_targetDeviceId :: bytes
  pa_commandSequence :: nat

record inbound_message =
  im_generation :: nat
  im_type :: bytes
  im_coalesceKey :: bytes
  im_serialized :: bytes
  im_coalescible :: bool
  im_sensitive :: bool
  im_protected :: bool

record client_status =
  st_configured :: bool
  st_connecting :: bool
  st_connected :: bool
  st_reconnecting :: bool
  st_roomId :: bytes
  st_roomName :: bytes
  st_broadcasterName :: bytes
  st_statusText :: bytes
  st_generation :: nat
  st_connectionGeneration :: nat
  st_roomRevision :: u64
  st_comparisonRevision :: u64
  st_presenceRevision :: u64

record client =
  cl_config :: client_config
  cl_configGeneration :: nat
  cl_stopping :: bool
  cl_stopRequested :: bool
  cl_started :: bool
  cl_commands :: "client_command list"
  cl_latestSnapshot :: "pending_snapshot option"
  cl_desiredRoom :: "desired_room option"
  cl_joinPending :: "nat option"
  cl_joinInFlight :: "nat option"
  cl_nextCommandSequence :: nat
  cl_connectionCounter :: nat
  cl_outboundLimit :: nat
  cl_status :: client_status
  cl_inbound :: "inbound_message list"
  cl_queued :: nat
  cl_reservations :: nat
  cl_pendingAcks :: "(u64 \<times> pending_ack) list"
  cl_nextAckId :: u64

definition generation :: "client \<Rightarrow> nat" where
  "generation c = cf_generation (cl_config c)"

definition empty_status :: client_status where
  "empty_status = \<lparr>st_configured = False, st_connecting = False, st_connected = False, st_reconnecting = False,
     st_roomId = [], st_roomName = [], st_broadcasterName = [], st_statusText = [], st_generation = 0,
     st_connectionGeneration = 0, st_roomRevision = 0, st_comparisonRevision = 0, st_presenceRevision = 0\<rparr>"

definition empty_config :: client_config where
  "empty_config = \<lparr>cf_serverValid = False, cf_credentialsValid = False, cf_secure = False, cf_port = 0, cf_host = [],
     cf_basePath = [], cf_deviceId = [], cf_deviceToken = [], cf_licenseDeviceId = [], cf_licenseSessionToken = [], cf_generation = 0\<rparr>"

definition init_client :: client where
  "init_client = \<lparr>cl_config = empty_config, cl_configGeneration = 0, cl_stopping = False, cl_stopRequested = False,
     cl_started = False, cl_commands = [], cl_latestSnapshot = None, cl_desiredRoom = None, cl_joinPending = None,
     cl_joinInFlight = None, cl_nextCommandSequence = 1, cl_connectionCounter = 0,
     cl_outboundLimit = kMaxCloudMatchPayloadBytes, cl_status = empty_status, cl_inbound = [], cl_queued = 0,
     cl_reservations = 0, cl_pendingAcks = [], cl_nextAckId = 1\<rparr>"

definition set_text :: "string \<Rightarrow> client \<Rightarrow> client" where
  "set_text t c = c\<lparr>cl_status := (cl_status c)\<lparr>st_statusText := ascii t\<rparr>\<rparr>"

subsection \<open>Places for results\<close>

text \<open>
  A result of a command must never be dropped, so a command is accepted only with a reserved place in the
  queue of messages. Notifications take what is left; the oldest one makes room.
\<close>

fun drop_oldest :: "inbound_message list \<Rightarrow> inbound_message list option" where
  "drop_oldest [] = None"
| "drop_oldest (m # q) = (if \<not> im_protected m then Some q else map_option ((#) m) (drop_oldest q))"

lemma drop_oldest_length: "drop_oldest q = Some q' \<Longrightarrow> length q = Suc (length q')"
  by (induction q arbitrary: q') (auto split: if_splits)

function make_room :: "nat \<Rightarrow> inbound_message list \<Rightarrow> bool \<times> inbound_message list" where
  "make_room reservations q =
     (if length q + reservations \<ge> kMaxInboundMessageQueueSize
      then case drop_oldest q of None \<Rightarrow> (False, q) | Some q' \<Rightarrow> make_room reservations q'
      else (True, q))"
  by pat_completeness auto
termination by (relation "measure (\<lambda>(r, q). length q)") (auto dest: drop_oldest_length)

declare make_room.simps [simp del]

definition ReserveProtectedResult :: "bool \<Rightarrow> client \<Rightarrow> bool \<times> client" where
  "ReserveProtectedResult reportQueueFull c =
     (if cl_queued c + cl_reservations c \<ge> kMaxProtectedResultCapacity
      then (False, if reportQueueFull then set_text ''queue_full'' c else c)
      else case make_room (cl_reservations c) (cl_inbound c) of
        (False, q) \<Rightarrow> (False, let c = c\<lparr>cl_inbound := q\<rparr> in if reportQueueFull then set_text ''queue_full'' c else c)
      | (True, q) \<Rightarrow> (True, c\<lparr>cl_inbound := q, cl_reservations := cl_reservations c + 1\<rparr>))"

definition ReleaseProtectedReservation :: "bool \<Rightarrow> client \<Rightarrow> client" where
  "ReleaseProtectedReservation reservation c =
     (if reservation \<and> cl_reservations c > 0 then c\<lparr>cl_reservations := cl_reservations c - 1\<rparr> else c)"

text \<open>
  A message is put into the queue. The reservation is the flag behind the pointer of the code, \<open>None\<close> for the
  null pointer; its new value is returned.
\<close>

definition coalesce :: "inbound_message \<Rightarrow> inbound_message list \<Rightarrow> inbound_message list option" where
  "coalesce incoming q =
     (let same = (\<lambda>m. im_generation m = im_generation incoming \<and> im_type m = im_type incoming \<and>
                    im_coalesceKey m = im_coalesceKey incoming);
          later = takeWhile (Not \<circ> same) (rev q); rest = dropWhile (Not \<circ> same) (rev q) in
      case rest of
        [] \<Rightarrow> None
      | m # earlier \<Rightarrow> Some (rev earlier @
          m\<lparr>im_serialized := im_serialized incoming, im_sensitive := im_sensitive incoming\<rparr> # rev later))"

definition EnqueueInboundMessage :: "nat \<Rightarrow> bytes \<Rightarrow> bytes \<Rightarrow> bytes \<Rightarrow> bool \<Rightarrow> bool option \<Rightarrow> client \<Rightarrow> bool option \<times> client" where
  "EnqueueInboundMessage gen t serialized coalesceKey sensitive reservation c =
     (let incoming = \<lparr>im_generation = gen, im_type = t, im_coalesceKey = coalesceKey, im_serialized = serialized,
            im_coalescible = IsCoalescibleNotification t, im_sensitive = sensitive, im_protected = IsProtectedInboundResult t\<rparr> in
      if generation c \<noteq> gen then (reservation, c)
      else if im_protected incoming then
        (if reservation \<noteq> Some True \<or> cl_reservations c = 0 then (reservation, c)
         else (Some False, c\<lparr>cl_reservations := cl_reservations c - 1, cl_queued := cl_queued c + 1,
                 cl_inbound := cl_inbound c @ [incoming]\<rparr>))
      else case (if im_coalescible incoming then coalesce incoming (cl_inbound c) else None) of
        Some q \<Rightarrow> (reservation, c\<lparr>cl_inbound := q\<rparr>)
      | None \<Rightarrow>
          if length (cl_inbound c) + cl_reservations c \<ge> kMaxInboundMessageQueueSize
          then (case drop_oldest (cl_inbound c) of
                  None \<Rightarrow> (reservation, c)
                | Some q \<Rightarrow> (reservation, c\<lparr>cl_inbound := q @ [incoming]\<rparr>))
          else (reservation, c\<lparr>cl_inbound := cl_inbound c @ [incoming]\<rparr>))"

definition jset :: "bytes \<Rightarrow> json \<Rightarrow> json \<Rightarrow> json" where
  "jset k v j = (case j of JObj kvs \<Rightarrow> JObj (insert_key k v kvs) | _ \<Rightarrow> j)"

text \<open>The short message that replaces a result that cannot be printed or is too large.\<close>

definition copy_number :: "bytes \<Rightarrow> json \<Rightarrow> json \<Rightarrow> json" where
  "copy_number k message j =
     (case json_find k message of
        Some v \<Rightarrow> if is_number_unsigned v \<or> is_number_integer v then jset k v j else j
      | None \<Rightarrow> j)"

definition copy_id :: "bytes \<Rightarrow> json \<Rightarrow> json \<Rightarrow> json" where
  "copy_id k message j =
     (case json_find k message of
        Some (JStr v) \<Rightarrow> if v \<noteq> [] \<and> length v \<le> 128 then jset k (JStr v) j else j
      | _ \<Rightarrow> j)"

definition fallback_message :: "bytes \<Rightarrow> json \<Rightarrow> json" where
  "fallback_message t message =
     (let base = make_object [(ascii ''type'', JStr t), (ascii ''ok'', JBool False), (ascii ''code'', JStr (ascii ''payload_too_large''))];
          j = (if t = ascii ''snapshot_upload_result'' then copy_number (ascii ''clientRevision'') message base
               else if t = ascii ''snapshot_result''
               then copy_id (ascii ''targetDeviceId'') message (copy_number (ascii ''clientRevision'') message base)
               else base)
      in copy_id (ascii ''requestId'') message j)"

definition NotifyJson :: "printer \<Rightarrow> nat \<Rightarrow> json \<Rightarrow> bytes \<Rightarrow> bool \<Rightarrow> bool option \<Rightarrow> client \<Rightarrow> bool option \<times> client" where
  "NotifyJson dump gen message coalesceKey sensitive reservation c =
     (case json_find (ascii ''type'') message of
        Some (JStr t) \<Rightarrow>
          (let serialized = (case dump message of Some bs \<Rightarrow> bs | None \<Rightarrow> []) in
           if serialized = [] \<or> length serialized > kMaxCloudMatchInboundPayloadBytes then
             (if reservation \<noteq> Some True \<or> \<not> IsProtectedInboundResult t then (reservation, c)
              else case dump (fallback_message t message) of
                None \<Rightarrow> (reservation, c)
              | Some bs \<Rightarrow> EnqueueInboundMessage gen t bs coalesceKey sensitive reservation c)
           else EnqueueInboundMessage gen t serialized coalesceKey sensitive reservation c)
      | _ \<Rightarrow> (reservation, c))"

definition NotifyCloudError :: "printer \<Rightarrow> nat \<Rightarrow> bytes \<Rightarrow> bytes \<Rightarrow> int \<Rightarrow> client \<Rightarrow> client" where
  "NotifyCloudError dump gen code message until c =
     snd (NotifyJson dump gen (make_object
       ([(ascii ''type'', JStr (ascii ''cloud_error'')), (ascii ''ok'', JBool False), (ascii ''code'', JStr code)] @
        (if message \<noteq> [] then [(ascii ''message'', JStr message)] else []) @
        (if until = 0 then [(ascii ''bannedUntil'', JNull)]
         else if until > 0 then [(ascii ''bannedUntil'', JInt (word_of_int until))] else [])))
       [] False None c)"

subsection \<open>Operations of the dialog\<close>

definition clear_work :: "client \<Rightarrow> client" where
  "clear_work c = c\<lparr>cl_commands := [], cl_latestSnapshot := None, cl_pendingAcks := [], cl_nextAckId := 1,
     cl_desiredRoom := None, cl_joinPending := None, cl_joinInFlight := None, cl_inbound := [],
     cl_queued := 0, cl_reservations := 0\<rparr>"

definition ApplyConfig :: "client_config \<Rightarrow> bool \<Rightarrow> client \<Rightarrow> bool \<times> client" where
  "ApplyConfig parsed validUrl c =
     (let gen = cl_configGeneration c + 1;
          config = parsed\<lparr>cf_generation := gen\<rparr> in
      (validUrl, (clear_work c)\<lparr>cl_configGeneration := gen, cl_config := config,
         cl_outboundLimit := kMaxCloudMatchPayloadBytes,
         cl_status := empty_status\<lparr>st_configured := cf_credentialsValid config, st_generation := gen,
           st_statusText := ascii (if validUrl then (if cf_credentialsValid config then ''configured'' else ''credentials_required'')
             else ''invalid_server_url'')\<rparr>\<rparr>))"

definition Configure :: "(wstr \<Rightarrow> cracked_url option) \<Rightarrow> wstr \<Rightarrow> bytes \<Rightarrow> bytes \<Rightarrow> bytes \<Rightarrow> bytes \<Rightarrow> client \<Rightarrow> bool \<times> client" where
  "Configure crack serverUrl deviceId deviceToken licenseDeviceId licenseSessionToken c =
     (let address = ParseServerUrl crack serverUrl; validUrl = address \<noteq> None;
          parsed = (case address of
              None \<Rightarrow> empty_config
            | Some a \<Rightarrow> empty_config\<lparr>cf_serverValid := True, cf_secure := sa_secure a, cf_port := sa_port a,
                cf_host := sa_host a, cf_basePath := sa_basePath a\<rparr>)
      in ApplyConfig (parsed\<lparr>cf_deviceId := deviceId, cf_deviceToken := deviceToken,
            cf_licenseDeviceId := licenseDeviceId, cf_licenseSessionToken := licenseSessionToken,
            cf_credentialsValid := validUrl \<and> deviceId \<noteq> [] \<and> deviceToken \<noteq> []\<rparr>) validUrl c)"

text \<open>Starting the worker thread; the parameter says whether the thread could be created.\<close>

definition Start :: "bool \<Rightarrow> client \<Rightarrow> bool \<times> client" where
  "Start created c =
     (if cl_started c then (True, c)
      else if cl_stopping c then (False, c)
      else let c = c\<lparr>cl_stopRequested := False\<rparr> in
        if created then (True, c\<lparr>cl_started := True\<rparr>) else (False, set_text ''worker_start_failed'' c))"

text \<open>\<^verbatim>\<open>Stop\<close> in its two halves: before and after the worker thread has been joined.\<close>

definition StopBegin :: "client \<Rightarrow> client" where
  "StopBegin c = c\<lparr>cl_stopping := True, cl_stopRequested := True, cl_configGeneration := cl_configGeneration c + 1\<rparr>"

definition StopEnd :: "nat \<Rightarrow> client \<Rightarrow> client" where
  "StopEnd stopGeneration c = (clear_work c)\<lparr>cl_started := False, cl_stopping := False, cl_stopRequested := False,
     cl_config := empty_config\<lparr>cf_generation := stopGeneration\<rparr>, cl_outboundLimit := kMaxCloudMatchPayloadBytes,
     cl_status := empty_status\<lparr>st_statusText := ascii ''stopped''\<rparr>\<rparr>"

definition EnqueueCommandLocked :: "nat \<Rightarrow> nat \<Rightarrow> CommandKind \<Rightarrow> bytes \<Rightarrow> bytes \<Rightarrow> bytes \<Rightarrow> u64 \<Rightarrow> nat \<Rightarrow> client \<Rightarrow> bool \<times> client" where
  "EnqueueCommandLocked now gen kind argument secondArgument requestId clientRevision pageLimit c =
     (if cl_stopping c \<or> generation c \<noteq> gen \<or> cl_configGeneration c \<noteq> gen \<or> \<not> cf_serverValid (cl_config c) \<or>
         (kind \<noteq> registerDevice \<and> \<not> cf_credentialsValid (cl_config c))
      then (False, set_text ''not_configured'' c)
      else if length (cl_commands c) \<ge> kMaxCommandQueueSize then (False, set_text ''queue_full'' c)
      else case ReserveProtectedResult True c of
        (False, c) \<Rightarrow> (False, c)
      | (True, c) \<Rightarrow>
          (True, c\<lparr>cl_nextCommandSequence := cl_nextCommandSequence c + 1,
             cl_commands := cl_commands c @ [\<lparr>cm_kind = kind, cm_argument = argument, cm_secondArgument = secondArgument,
               cm_requestId = requestId, cm_generation = gen, cm_sequence = cl_nextCommandSequence c,
               cm_clientRevision = clientRevision, cm_pageLimit = pageLimit,
               cm_deadline = (if IsTransientRequest kind then Some (now + kTransientCommandTimeout) else None),
               cm_reservation = True\<rparr>]\<rparr>))"

definition EnqueueCommand :: "nat \<Rightarrow> CommandKind \<Rightarrow> bytes \<Rightarrow> bytes \<Rightarrow> bytes \<Rightarrow> client \<Rightarrow> bool \<times> client" where
  "EnqueueCommand now kind argument secondArgument requestId c =
     EnqueueCommandLocked now (generation c) kind argument secondArgument requestId 0 0 c"

definition JoinRoomLocked :: "nat \<Rightarrow> nat \<Rightarrow> bytes \<Rightarrow> bytes \<Rightarrow> client \<Rightarrow> bool \<times> client" where
  "JoinRoomLocked now gen roomId broadcasterName c =
     (if generation c \<noteq> gen then (False, c)
      else case EnqueueCommandLocked now gen joinRoom roomId broadcasterName [] 0 0 c of
        (False, c) \<Rightarrow> (False, c)
      | (True, c) \<Rightarrow> (True, c\<lparr>cl_desiredRoom := Some \<lparr>dr_roomId = roomId, dr_broadcasterName = broadcasterName,
              dr_generation = gen, dr_confirmedRenameSequence = 0\<rparr>,
            cl_joinPending := Some gen, cl_joinInFlight := None\<rparr>))"

definition good_name :: "bytes \<Rightarrow> bool" where
  "good_name n \<longleftrightarrow> n \<noteq> [] \<and> length n \<le> kMaxBroadcasterNameBytes"

definition RegisterDevice :: "nat \<Rightarrow> bytes \<Rightarrow> client \<Rightarrow> bool \<times> client" where
  "RegisterDevice now deviceId c =
     (if deviceId = [] \<or> length deviceId > 128 then (False, c) else EnqueueCommand now registerDevice deviceId [] [] c)"

definition JoinRoom :: "nat \<Rightarrow> bytes \<Rightarrow> bytes \<Rightarrow> client \<Rightarrow> bool \<times> client" where
  "JoinRoom now roomId broadcasterName c =
     (if roomId = [] \<or> length roomId > 64 \<or> \<not> good_name broadcasterName then (False, c)
      else JoinRoomLocked now (generation c) roomId broadcasterName c)"

definition JoinUnifiedPool :: "nat \<Rightarrow> bytes \<Rightarrow> client \<Rightarrow> bool \<times> client" where
  "JoinUnifiedPool now broadcasterName c =
     (if \<not> good_name broadcasterName then (False, c) else EnqueueCommand now joinUnified broadcasterName [] [] c)"

definition Rename :: "nat \<Rightarrow> bytes \<Rightarrow> client \<Rightarrow> bool \<times> client" where
  "Rename now broadcasterName c =
     (if \<not> good_name broadcasterName then (False, c)
      else EnqueueCommandLocked now (generation c) renameRoom broadcasterName [] [] 0 0 c)"

definition RenameUnified :: "nat \<Rightarrow> bytes \<Rightarrow> client \<Rightarrow> bool \<times> client" where
  "RenameUnified now broadcasterName c =
     (if \<not> good_name broadcasterName then (False, c) else EnqueueCommand now renameUnified broadcasterName [] [] c)"

definition LeaveRoom :: "nat \<Rightarrow> client \<Rightarrow> bool \<times> client" where
  "LeaveRoom now c =
     (case EnqueueCommandLocked now (generation c) leaveRoom [] [] [] 0 0 c of
        (False, c) \<Rightarrow> (False, c)
      | (True, c) \<Rightarrow> (True, c\<lparr>cl_desiredRoom := None, cl_joinPending := None, cl_joinInFlight := None\<rparr>))"

definition RequestBroadcasterDirectory :: "nat \<Rightarrow> bytes \<Rightarrow> client \<Rightarrow> bool \<times> client" where
  "RequestBroadcasterDirectory now requestId = EnqueueCommand now requestBroadcasters [] [] requestId"

definition RequestBroadcasterSnapshot :: "nat \<Rightarrow> bytes \<Rightarrow> bytes \<Rightarrow> client \<Rightarrow> bool \<times> client" where
  "RequestBroadcasterSnapshot now requestId targetDeviceId c =
     (if requestId = [] \<or> targetDeviceId = [] \<or> length targetDeviceId > 128 then (False, c)
      else EnqueueCommand now requestBroadcasterSnapshot targetDeviceId [] requestId c)"

definition RequestSyncHistory :: "nat \<Rightarrow> bytes \<Rightarrow> client \<Rightarrow> bool \<times> client" where
  "RequestSyncHistory now requestId = EnqueueCommand now requestSyncHistory [] [] requestId"

definition RequestSyncRelations :: "nat \<Rightarrow> bytes \<Rightarrow> client \<Rightarrow> bool \<times> client" where
  "RequestSyncRelations now requestId = EnqueueCommand now requestSyncRelations [] [] requestId"

text \<open>\<open>None\<close>: the printer throws on a text that is not UTF-8.\<close>

definition RecordCloudSync :: "printer \<Rightarrow> nat \<Rightarrow> bytes \<Rightarrow> bytes \<Rightarrow> bytes \<Rightarrow> bytes \<Rightarrow> u64 \<Rightarrow> bool \<Rightarrow> client \<Rightarrow> (bool \<times> client) option" where
  "RecordCloudSync dump now requestId targetDeviceId targetName syncType snapshotRevision merged c =
     (if requestId = [] \<or> targetDeviceId = [] \<or> targetName = [] \<or>
         (syncType \<noteq> ascii ''once'' \<and> syncType \<noteq> ascii ''realtime'') \<or> snapshotRevision = 0 then Some (False, c)
      else map_option (\<lambda>payload. EnqueueCommand now recordSync payload [] requestId c)
        (dump (make_object [(ascii ''targetDeviceId'', JStr targetDeviceId), (ascii ''targetName'', JStr targetName),
           (ascii ''syncType'', JStr syncType), (ascii ''snapshotRevision'', JUInt snapshotRevision), (ascii ''merged'', JBool merged)])))"

definition StartRealtimeSync :: "printer \<Rightarrow> nat \<Rightarrow> bytes \<Rightarrow> bytes \<Rightarrow> bytes \<Rightarrow> client \<Rightarrow> (bool \<times> client) option" where
  "StartRealtimeSync dump now requestId targetDeviceId targetName c =
     (if requestId = [] \<or> targetDeviceId = [] \<or> targetName = [] then Some (False, c)
      else map_option (\<lambda>payload. EnqueueCommand now startRealtime payload [] requestId c)
        (dump (make_object [(ascii ''targetDeviceId'', JStr targetDeviceId), (ascii ''targetName'', JStr targetName)])))"

definition HeartbeatRealtimeSync :: "nat \<Rightarrow> bytes \<Rightarrow> client \<Rightarrow> bool \<times> client" where
  "HeartbeatRealtimeSync now requestId = EnqueueCommand now heartbeatRealtime [] [] requestId"

definition StopRealtimeSync :: "nat \<Rightarrow> bytes \<Rightarrow> client \<Rightarrow> bool \<times> client" where
  "StopRealtimeSync now requestId = EnqueueCommand now stopRealtime [] [] requestId"

definition token_char :: "byte \<Rightarrow> bool" where
  "token_char v \<longleftrightarrow> (0x41 \<le> v \<and> v \<le> 0x5A) \<or> (0x61 \<le> v \<and> v \<le> 0x7A) \<or> (0x30 \<le> v \<and> v \<le> 0x39) \<or> v = 0x5F \<or> v = 0x2D"

definition RequestComparison :: "nat \<Rightarrow> bytes \<Rightarrow> bytes \<Rightarrow> nat \<Rightarrow> bytes \<Rightarrow> client \<Rightarrow> bool \<times> client" where
  "RequestComparison now requestId cursor limit comparisonToken c =
     (if requestId = [] \<or> length requestId > 128 \<or> length cursor > 128 \<or> limit = 0 \<or> limit > 64 \<or>
         (cursor = []) \<noteq> (comparisonToken = []) \<or>
         (comparisonToken \<noteq> [] \<and> (length comparisonToken < 32 \<or> length comparisonToken > 128 \<or> \<not> list_all token_char comparisonToken))
      then (False, c)
      else if \<not> st_connected (cl_status c) then (False, set_text ''not_connected'' c)
      else EnqueueCommandLocked now (generation c) requestComparison cursor comparisonToken requestId 0 limit c)"

definition RequestSnapshot :: "nat \<Rightarrow> bytes \<Rightarrow> bytes \<Rightarrow> u64 \<Rightarrow> client \<Rightarrow> bool \<times> client" where
  "RequestSnapshot now requestId targetDeviceId clientRevision c =
     (if requestId = [] \<or> length requestId > 128 \<or> targetDeviceId = [] \<or> length targetDeviceId > 128 \<or> clientRevision = 0
      then (False, c)
      else if \<not> st_connected (cl_status c) then (False, set_text ''not_connected'' c)
      else EnqueueCommandLocked now (generation c) requestSnapshot targetDeviceId [] requestId clientRevision 0 c)"

text \<open>Cancelling removes the queued and the pending transient requests of an identifier and gives their places back.\<close>

definition cancels_command :: "bytes \<Rightarrow> client_command \<Rightarrow> bool" where
  "cancels_command requestId cmd \<longleftrightarrow> IsTransientRequest (cm_kind cmd) \<and> cm_requestId cmd = requestId"

definition cancels_ack :: "bytes \<Rightarrow> pending_ack \<Rightarrow> bool" where
  "cancels_ack requestId p \<longleftrightarrow> IsTransientRequest (pa_kind p) \<and> pa_requestId p = requestId"

definition CancelRequest :: "bytes \<Rightarrow> client \<Rightarrow> bool \<times> client" where
  "CancelRequest requestId c =
     (if requestId = [] \<or> length requestId > 128 then (False, c)
      else
        let cs = filter (cancels_command requestId) (cl_commands c);
            ps = filter (cancels_ack requestId \<circ> snd) (cl_pendingAcks c);
            c = fold (\<lambda>cmd. ReleaseProtectedReservation (cm_reservation cmd)) cs c;
            c = fold (\<lambda>p. ReleaseProtectedReservation (pa_reservation (snd p))) ps c
        in (cs \<noteq> [] \<or> ps \<noteq> [],
            c\<lparr>cl_commands := filter (Not \<circ> cancels_command requestId) (cl_commands c),
              cl_pendingAcks := filter (Not \<circ> cancels_ack requestId \<circ> snd) (cl_pendingAcks c)\<rparr>))"

text \<open>One round of the loop that hands messages to the dialog; the message is delivered when its generation is current.\<close>

definition DispatchMessage :: "client \<Rightarrow> (inbound_message \<times> bool \<times> client) option" where
  "DispatchMessage c =
     (case cl_inbound c of
        [] \<Rightarrow> None
      | m # q \<Rightarrow> Some (m, im_generation m = generation c,
          c\<lparr>cl_inbound := q, cl_queued := (if im_protected m \<and> cl_queued c > 0 then cl_queued c - 1 else cl_queued c)\<rparr>))"

fun DispatchMessages :: "nat \<Rightarrow> client \<Rightarrow> inbound_message list \<times> nat \<times> client" where
  "DispatchMessages 0 c = ([], 0, c)"
| "DispatchMessages (Suc maxCount) c =
     (case DispatchMessage c of
        None \<Rightarrow> ([], 0, c)
      | Some (m, current, c) \<Rightarrow>
          (case DispatchMessages maxCount c of (ms, n, c) \<Rightarrow> (if current then m # ms else ms, n + 1, c)))"

subsection \<open>Uploading a snapshot\<close>

definition upload_failure :: "SnapshotUploadEncodeResult \<Rightarrow> u64 \<Rightarrow> json" where
  "upload_failure result clientRevision =
     make_object [(ascii ''type'', JStr (ascii ''snapshot_upload_result'')), (ascii ''ok'', JBool False),
       (ascii ''code'', JStr (ascii (if result = payloadTooLarge then ''payload_too_large'' else ''invalid_payload''))),
       (ascii ''clientRevision'', JUInt clientRevision)]"

definition NotifySnapshotUploadFailure :: "printer \<Rightarrow> nat \<Rightarrow> u64 \<Rightarrow> SnapshotUploadEncodeResult \<Rightarrow> bool \<Rightarrow> client \<Rightarrow> client" where
  "NotifySnapshotUploadFailure dump gen clientRevision result reservation c =
     snd (NotifyJson dump gen (upload_failure result clientRevision) [] False (Some reservation) c)"

definition NotifySnapshotCanceled :: "printer \<Rightarrow> pending_snapshot \<Rightarrow> client \<Rightarrow> client" where
  "NotifySnapshotCanceled dump s c =
     snd (NotifyJson dump (ps_generation s)
       (make_object [(ascii ''type'', JStr (ascii ''snapshot_upload_result'')), (ascii ''ok'', JBool False),
          (ascii ''code'', JStr (ascii ''canceled'')), (ascii ''clientRevision'', JUInt (ps_clientRevision s))])
       [] False (Some (ps_reservation s)) c)"

text \<open>The second critical section: the snapshot takes the place of the one that waits, which is returned.\<close>

definition place_snapshot :: "nat \<Rightarrow> u64 \<Rightarrow> bytes \<Rightarrow> client \<Rightarrow> bool \<times> pending_snapshot option \<times> client" where
  "place_snapshot gen clientRevision snapshotJson c =
     (if generation c \<noteq> gen then (False, None, c)
      else if \<not> cf_credentialsValid (cl_config c) then (False, None, set_text ''not_configured'' c)
      else case ReserveProtectedResult True c of
        (False, c) \<Rightarrow> (False, None, c)
      | (True, c) \<Rightarrow> (True, cl_latestSnapshot c, c\<lparr>cl_latestSnapshot := Some \<lparr>ps_generation = gen,
            ps_clientRevision = clientRevision, ps_jsonText = snapshotJson, ps_reservation = True\<rparr>\<rparr>))"

definition UploadSnapshot :: "parser \<Rightarrow> printer \<Rightarrow> bytes \<Rightarrow> client \<Rightarrow> bool \<times> client" where
  "UploadSnapshot parse dump snapshotJson c =
     (let gen = generation c; clientRevision = ExtractSnapshotClientRevision parse snapshotJson;
          encoded = fst (EncodeSnapshotUploadEvent parse dump snapshotJson kSnapshotSizingAckId (cl_outboundLimit c)) in
      if encoded \<noteq> upload_success then
        (case ReserveProtectedResult True c of
           (False, c) \<Rightarrow> (False, c)
         | (True, c) \<Rightarrow> (False, NotifySnapshotUploadFailure dump gen clientRevision encoded True c))
      else case place_snapshot gen clientRevision snapshotJson c of
        (accepted, canceled, c) \<Rightarrow>
          (accepted, case canceled of None \<Rightarrow> c | Some s \<Rightarrow> NotifySnapshotCanceled dump s c))"

end
