(* ===== verification/CloudWorker.thy ===== *)
theory CloudWorker
  imports CloudClient
begin

text \<open>
  What the worker thread of the cloud client does with the queues: sending commands and snapshots and
  tracking their acknowledgements, handling acknowledgements, events, time-outs and lost connections,
  and replaying a remembered room (\<^verbatim>\<open>CloudMatchClient::Impl\<close>). A transmission is the parameter \<open>send\<close>, which says
  whether a packet went out.
\<close>

definition ShouldAbort :: "nat \<Rightarrow> client \<Rightarrow> bool" where
  "ShouldAbort gen c \<longleftrightarrow> cl_stopRequested c \<or> cl_configGeneration c \<noteq> gen"

definition UpdateStatus :: "nat \<Rightarrow> (client_status \<Rightarrow> client_status) \<Rightarrow> client \<Rightarrow> client" where
  "UpdateStatus gen update c = (if generation c \<noteq> gen then c else c\<lparr>cl_status := update (cl_status c)\<rparr>)"

definition UpdateOutboundLimit :: "nat \<Rightarrow> nat \<Rightarrow> client \<Rightarrow> client" where
  "UpdateOutboundLimit gen limit c =
     (if generation c \<noteq> gen then c else c\<lparr>cl_outboundLimit := min limit kMaxCloudMatchPayloadBytes\<rparr>)"

subsection \<open>Taking commands\<close>

definition is_registration :: "nat \<Rightarrow> client_command \<Rightarrow> bool" where
  "is_registration gen cmd \<longleftrightarrow> cm_generation cmd = gen \<and> cm_kind cmd = registerDevice"

fun extract_first :: "('a \<Rightarrow> bool) \<Rightarrow> 'a list \<Rightarrow> ('a \<times> 'a list) option" where
  "extract_first P [] = None"
| "extract_first P (x # xs) = (if P x then Some (x, xs) else map_option (\<lambda>(y, ys). (y, x # ys)) (extract_first P xs))"

definition PopRegistrationCommand :: "nat \<Rightarrow> client \<Rightarrow> (client_command \<times> client) option" where
  "PopRegistrationCommand gen c =
     map_option (\<lambda>(cmd, rest). (cmd, c\<lparr>cl_commands := rest\<rparr>)) (extract_first (is_registration gen) (cl_commands c))"

definition HasRegistrationCommand :: "nat \<Rightarrow> client \<Rightarrow> bool" where
  "HasRegistrationCommand gen c \<longleftrightarrow> list_ex (is_registration gen) (cl_commands c)"

text \<open>The section of the sending loop that takes the next command: stale ones are dropped first.\<close>

definition pop_command :: "nat \<Rightarrow> client \<Rightarrow> client_command option \<times> client" where
  "pop_command gen c =
     (let cs = dropWhile (\<lambda>cmd. cm_generation cmd \<noteq> gen) (cl_commands c) in
      case cs of
        [] \<Rightarrow> (None, c\<lparr>cl_commands := cs\<rparr>)
      | cmd # rest \<Rightarrow>
          if cm_kind cmd \<noteq> registerDevice \<and> length (cl_pendingAcks c) < kMaxPendingAcks
          then (Some cmd, c\<lparr>cl_commands := rest\<rparr>) else (None, c\<lparr>cl_commands := cs\<rparr>))"

definition registration_error :: "bytes \<Rightarrow> json" where
  "registration_error code = make_object [(ascii ''type'', JStr (ascii ''device_registration_error'')),
     (ascii ''ok'', JBool False), (ascii ''code'', JStr code)]"

definition NotifyRegistrationError :: "printer \<Rightarrow> nat \<Rightarrow> bytes \<Rightarrow> client_command \<Rightarrow> client \<Rightarrow> client" where
  "NotifyRegistrationError dump gen code cmd c =
     snd (NotifyJson dump gen (registration_error code) [] False (Some (cm_reservation cmd)) c)"

text \<open>
  The outcome of a registration over the network: nothing (the client was stopped or configured anew), a
  failure before a response, or the status and body of the response.
\<close>

datatype registration_outcome = Aborted | NetworkError bytes | Response nat bytes

definition FinishRegistration :: "parser \<Rightarrow> printer \<Rightarrow> nat \<Rightarrow> client_command \<Rightarrow> registration_outcome \<Rightarrow> client \<Rightarrow> client" where
  "FinishRegistration parse dump gen cmd outcome c =
     (case outcome of
        Aborted \<Rightarrow> c
      | NetworkError code \<Rightarrow> NotifyRegistrationError dump gen code cmd c
      | Response httpStatus body \<Rightarrow>
          if ShouldAbort gen c then c
          else if httpStatus = 409 then NotifyRegistrationError dump gen (ascii ''device_already_registered'') cmd c
          else if httpStatus \<noteq> 201 then NotifyRegistrationError dump gen (ascii ''registration_failed'') cmd c
          else case parse body of
            None \<Rightarrow> NotifyRegistrationError dump gen (ascii ''invalid_response'') cmd c
          | Some response \<Rightarrow>
              (case json_find (ascii ''deviceToken'') response of
                 Some (JStr token) \<Rightarrow>
                   snd (NotifyJson dump gen (make_object [(ascii ''type'', JStr (ascii ''device_registered'')), (ascii ''ok'', JBool True),
                     (ascii ''deviceId'', JStr (cm_argument cmd)), (ascii ''deviceToken'', JStr token)]) [] True (Some (cm_reservation cmd)) c)
               | _ \<Rightarrow> NotifyRegistrationError dump gen (ascii ''invalid_response'') cmd c))"

subsection \<open>Sending with an acknowledgement\<close>

text \<open>The event a command becomes; \<open>None\<close> for a payload that does not parse, the empty name for the kinds sent elsewhere.\<close>

definition command_event :: "parser \<Rightarrow> client_command \<Rightarrow> (bytes \<times> json) option" where
  "command_event parse cmd =
     (let stored = (\<lambda>name. case parse (cm_argument cmd) of
            Some payload \<Rightarrow> if is_object payload then Some (ascii name, payload) else None | None \<Rightarrow> None) in
      case cm_kind cmd of
        joinRoom \<Rightarrow> Some (ascii ''room:join'', make_object [(ascii ''roomId'', JStr (cm_argument cmd)),
          (ascii ''broadcasterName'', JStr (cm_secondArgument cmd))])
      | renameRoom \<Rightarrow> Some (ascii ''room:rename'', make_object [(ascii ''broadcasterName'', JStr (cm_argument cmd))])
      | leaveRoom \<Rightarrow> Some (ascii ''room:leave'', make_object [])
      | requestComparison \<Rightarrow> Some (ascii ''room:comparison'', make_object
          ((ascii ''limit'', JUInt (of_nat (if cm_pageLimit cmd = 0 then 64 else cm_pageLimit cmd))) #
           (if cm_argument cmd = [] then [] else [(ascii ''cursor'', JStr (cm_argument cmd)),
              (ascii ''comparisonToken'', JStr (cm_secondArgument cmd))])))
      | requestSnapshot \<Rightarrow> Some (ascii ''snapshot:get'', make_object [(ascii ''targetDeviceId'', JStr (cm_argument cmd)),
          (ascii ''clientRevision'', JUInt (cm_clientRevision cmd))])
      | joinUnified \<Rightarrow> Some (ascii ''broadcaster:join'', make_object [(ascii ''broadcasterName'', JStr (cm_argument cmd))])
      | renameUnified \<Rightarrow> Some (ascii ''broadcaster:rename'', make_object [(ascii ''broadcasterName'', JStr (cm_argument cmd))])
      | requestBroadcasters \<Rightarrow> Some (ascii ''broadcasters:list'', make_object [])
      | requestBroadcasterSnapshot \<Rightarrow> Some (ascii ''broadcaster:snapshot'', make_object [(ascii ''targetDeviceId'', JStr (cm_argument cmd))])
      | requestSyncHistory \<Rightarrow> Some (ascii ''sync:history'', make_object [])
      | requestSyncRelations \<Rightarrow> Some (ascii ''sync:relations'', make_object [])
      | recordSync \<Rightarrow> stored ''sync:record''
      | startRealtime \<Rightarrow> stored ''sync:realtime:start''
      | heartbeatRealtime \<Rightarrow> Some (ascii ''sync:realtime:heartbeat'', make_object [])
      | stopRealtime \<Rightarrow> Some (ascii ''sync:realtime:stop'', make_object [])
      | uploadSnapshot \<Rightarrow> Some ([], JNull)
      | registerDevice \<Rightarrow> Some ([], JNull))"

text \<open>An acknowledgement number, \<open>None\<close> when the last one is used up.\<close>

definition next_ack :: "client \<Rightarrow> (u64 \<times> client) option" where
  "next_ack c = (if cl_nextAckId c = - 1 then None else Some (cl_nextAckId c, c\<lparr>cl_nextAckId := cl_nextAckId c + 1\<rparr>))"

definition emplace_ack :: "u64 \<Rightarrow> pending_ack \<Rightarrow> client \<Rightarrow> client" where
  "emplace_ack ackId p c =
     (if map_of (cl_pendingAcks c) ackId = None then c\<lparr>cl_pendingAcks := cl_pendingAcks c @ [(ackId, p)]\<rparr> else c)"

text \<open>The last section of \<^verbatim>\<open>SendEventWithAck\<close>: the reservation of the command moves to the acknowledgement.\<close>

definition names_target :: "CommandKind \<Rightarrow> bool" where
  "names_target kind \<longleftrightarrow> kind = requestSnapshot \<or> kind = requestBroadcasterSnapshot"

definition ack_of_command :: "nat \<Rightarrow> client_command \<Rightarrow> pending_ack" where
  "ack_of_command deadline cmd = \<lparr>pa_kind = cm_kind cmd, pa_resultType = ResultTypeForCommand (cm_kind cmd),
     pa_requestId = cm_requestId cmd, pa_clientRevision = cm_clientRevision cmd, pa_deadline = deadline,
     pa_reservation = cm_reservation cmd, pa_targetDeviceId = (if names_target (cm_kind cmd) then cm_argument cmd else []),
     pa_commandSequence = cm_sequence cmd\<rparr>"

definition track_command :: "nat \<Rightarrow> nat \<Rightarrow> u64 \<Rightarrow> client_command \<Rightarrow> client \<Rightarrow> bool \<times> client_command \<times> client" where
  "track_command now gen ackId cmd c =
     (if generation c \<noteq> gen then (False, cmd, c)
      else
        let c = emplace_ack ackId (ack_of_command (now + kAckTimeout) cmd) c;
            c = (if cm_kind cmd = joinRoom \<and> (\<exists>r. cl_desiredRoom c = Some r \<and> dr_generation r = gen) \<and> cl_joinPending c = Some gen
                 then c\<lparr>cl_joinInFlight := Some gen\<rparr> else c)
        in (True, cmd\<lparr>cm_reservation := False\<rparr>, c))"

text \<open>
  \<^verbatim>\<open>SendQueuedCommand\<close> with \<^verbatim>\<open>SendEventWithAck\<close>: whether the connection is still good, the command with the
  reservation it still holds, and the state. A command that meets a full table of acknowledgements is dropped.
\<close>

definition SendQueuedCommand :: "parser \<Rightarrow> printer \<Rightarrow> (bytes \<Rightarrow> bool) \<Rightarrow> nat \<Rightarrow> nat \<Rightarrow> client_command \<Rightarrow> client \<Rightarrow> bool \<times> client_command \<times> client" where
  "SendQueuedCommand parse dump send now gen cmd c =
     (case command_event parse cmd of
        None \<Rightarrow> (False, cmd, c)
      | Some (eventName, payload) \<Rightarrow>
          if eventName = [] then (True, cmd, c)
          else if generation c \<noteq> gen then (False, cmd, c)
          else if length (cl_pendingAcks c) \<ge> kMaxPendingAcks then (True, cmd, c)
          else case next_ack c of
            None \<Rightarrow> (False, cmd, NotifyCloudError dump gen (ascii ''ack_id_exhausted'') [] (- 1) c)
          | Some (ackId, c) \<Rightarrow>
              let packet = EncodeSocketEventAck dump eventName payload ackId in
              if packet = [] \<or> \<not> send packet \<or> ShouldAbort gen c then (False, cmd, c)
              else track_command now gen ackId cmd c)"

definition TakeLatestSnapshotForSend :: "nat \<Rightarrow> client \<Rightarrow> pending_snapshot option \<times> client" where
  "TakeLatestSnapshotForSend gen c =
     (case cl_latestSnapshot c of
        None \<Rightarrow> (None, c)
      | Some s \<Rightarrow> if ps_generation s \<noteq> gen \<or> generation c \<noteq> gen then (None, c) else (Some s, c\<lparr>cl_latestSnapshot := None\<rparr>))"

definition ack_of_snapshot :: "nat \<Rightarrow> pending_snapshot \<Rightarrow> pending_ack" where
  "ack_of_snapshot deadline s = \<lparr>pa_kind = uploadSnapshot, pa_resultType = ascii ''snapshot_upload_result'', pa_requestId = [],
     pa_clientRevision = ps_clientRevision s, pa_deadline = deadline, pa_reservation = ps_reservation s, pa_targetDeviceId = [],
     pa_commandSequence = 0\<rparr>"

datatype SnapshotSendResult = snapshot_sent | snapshot_rejected | snapshot_transportFailure

definition SendSnapshotWithAck :: "parser \<Rightarrow> printer \<Rightarrow> (bytes \<Rightarrow> bool) \<Rightarrow> nat \<Rightarrow> nat \<Rightarrow> nat \<Rightarrow> pending_snapshot \<Rightarrow> client \<Rightarrow> SnapshotSendResult \<times> client" where
  "SendSnapshotWithAck parse dump send now gen outboundLimit s c =
     (if generation c \<noteq> gen then (snapshot_transportFailure, c)
      else case next_ack c of
        None \<Rightarrow> (snapshot_transportFailure, NotifyCloudError dump gen (ascii ''ack_id_exhausted'') [] (- 1) c)
      | Some (ackId, c) \<Rightarrow>
          (case EncodeSnapshotUploadEvent parse dump (ps_jsonText s) ackId outboundLimit of
             (encoded, packet) \<Rightarrow>
               if encoded \<noteq> upload_success
               then (snapshot_rejected, NotifySnapshotUploadFailure dump gen (ps_clientRevision s) encoded (ps_reservation s) c)
               else if \<not> send packet \<or> ShouldAbort gen c then (snapshot_transportFailure, c)
               else (snapshot_sent, emplace_ack ackId (ack_of_snapshot (now + kAckTimeout) s) c)))"

text \<open>A command or snapshot that could not be sent goes back; a newer snapshot takes precedence.\<close>

definition put_back_command :: "nat \<Rightarrow> client_command \<Rightarrow> client \<Rightarrow> client" where
  "put_back_command gen cmd c =
     (if generation c = gen \<and> cm_reservation cmd then c\<lparr>cl_commands := cmd # cl_commands c\<rparr> else c)"

definition put_back_snapshot :: "nat \<Rightarrow> pending_snapshot \<Rightarrow> client \<Rightarrow> bool \<times> client" where
  "put_back_snapshot gen s c =
     (if cl_latestSnapshot c = None \<and> generation c = gen then (False, c\<lparr>cl_latestSnapshot := Some s\<rparr>)
      else (generation c = gen \<and> ps_reservation s, c))"

definition send_latest_snapshot :: "parser \<Rightarrow> printer \<Rightarrow> (bytes \<Rightarrow> bool) \<Rightarrow> nat \<Rightarrow> nat \<Rightarrow> nat \<Rightarrow> client \<Rightarrow> bool \<times> client" where
  "send_latest_snapshot parse dump send now gen outboundLimit c =
     (if \<not> (generation c = gen \<and> length (cl_pendingAcks c) < kMaxPendingAcks) then (True, c)
      else case TakeLatestSnapshotForSend gen c of
        (None, c) \<Rightarrow> (True, c)
      | (Some s, c) \<Rightarrow>
          (case SendSnapshotWithAck parse dump send now gen outboundLimit s c of
             (snapshot_transportFailure, c) \<Rightarrow>
               (case put_back_snapshot gen s c of
                  (canceled, c) \<Rightarrow> (False, if canceled then NotifySnapshotCanceled dump s c else c))
           | (_, c) \<Rightarrow> (True, c)))"

subsection \<open>Failures\<close>

text \<open>The message of a command whose acknowledgement failed.\<close>

definition add_identity :: "pending_ack \<Rightarrow> json \<Rightarrow> json" where
  "add_identity p j =
     (let j = (if pa_requestId p \<noteq> [] then jset (ascii ''requestId'') (JStr (pa_requestId p)) j else j) in
      if pa_kind p = uploadSnapshot then jset (ascii ''clientRevision'') (JUInt (pa_clientRevision p)) j
      else if names_target (pa_kind p)
      then jset (ascii ''clientRevision'') (JUInt (pa_clientRevision p)) (jset (ascii ''targetDeviceId'') (JStr (pa_targetDeviceId p)) j)
      else j)"

definition failure_message :: "pending_ack \<Rightarrow> string \<Rightarrow> json" where
  "failure_message p code =
     add_identity p (make_object [(ascii ''type'', JStr (pa_resultType p)), (ascii ''ok'', JBool False), (ascii ''code'', JStr (ascii code))])"

definition NotifyPendingAckFailure :: "printer \<Rightarrow> nat \<Rightarrow> pending_ack \<Rightarrow> string \<Rightarrow> client \<Rightarrow> client" where
  "NotifyPendingAckFailure dump gen p code c =
     snd (NotifyJson dump gen (failure_message p code) [] False (Some (pa_reservation p)) c)"

definition NotifyQueuedCommandFailure :: "printer \<Rightarrow> client_command \<Rightarrow> string \<Rightarrow> client \<Rightarrow> client" where
  "NotifyQueuedCommandFailure dump cmd code c =
     NotifyPendingAckFailure dump (cm_generation cmd) ((ack_of_command 0 cmd)\<lparr>pa_commandSequence := 0\<rparr>) code c"

definition settle_join :: "nat \<Rightarrow> client \<Rightarrow> client" where
  "settle_join gen c =
     (let c = (if cl_joinPending c = Some gen then c\<lparr>cl_joinPending := None\<rparr> else c) in
      if cl_joinInFlight c = Some gen then c\<lparr>cl_joinInFlight := None\<rparr> else c)"

definition take_expired_acks :: "nat \<Rightarrow> nat \<Rightarrow> client \<Rightarrow> pending_ack list \<times> client" where
  "take_expired_acks now gen c =
     (if generation c \<noteq> gen then ([], c)
      else let expired = map snd (filter (\<lambda>e. pa_deadline (snd e) \<le> now) (cl_pendingAcks c));
               c = c\<lparr>cl_pendingAcks := filter (\<lambda>e. \<not> pa_deadline (snd e) \<le> now) (cl_pendingAcks c)\<rparr>
           in (expired, if list_ex (\<lambda>p. pa_kind p = joinRoom) expired then settle_join gen c else c))"

definition ExpireAcks :: "printer \<Rightarrow> nat \<Rightarrow> nat \<Rightarrow> client \<Rightarrow> client" where
  "ExpireAcks dump now gen c =
     (case take_expired_acks now gen c of
        (expired, c) \<Rightarrow> fold (\<lambda>p. NotifyPendingAckFailure dump gen p ''timeout'') expired c)"

definition take_commands :: "nat \<Rightarrow> (client_command \<Rightarrow> bool) \<Rightarrow> client \<Rightarrow> client_command list \<times> client" where
  "take_commands gen P c =
     (if generation c \<noteq> gen then ([], c)
      else (filter (\<lambda>cmd. cm_generation cmd = gen \<and> IsTransientRequest (cm_kind cmd) \<and> P cmd) (cl_commands c),
            c\<lparr>cl_commands := filter (\<lambda>cmd. \<not> (cm_generation cmd = gen \<and> IsTransientRequest (cm_kind cmd) \<and> P cmd)) (cl_commands c)\<rparr>))"

definition FailQueuedTransientRequests :: "printer \<Rightarrow> nat \<Rightarrow> string \<Rightarrow> client \<Rightarrow> client" where
  "FailQueuedTransientRequests dump gen code c =
     (case take_commands gen (\<lambda>_. True) c of
        (failed, c) \<Rightarrow> fold (\<lambda>cmd. NotifyQueuedCommandFailure dump cmd code) failed c)"

definition expired_command :: "nat \<Rightarrow> client_command \<Rightarrow> bool" where
  "expired_command now cmd \<longleftrightarrow> (case cm_deadline cmd of None \<Rightarrow> False | Some deadline \<Rightarrow> deadline \<le> now)"

definition ExpireQueuedTransientRequests :: "printer \<Rightarrow> nat \<Rightarrow> nat \<Rightarrow> client \<Rightarrow> client" where
  "ExpireQueuedTransientRequests dump now gen c =
     (case take_commands gen (expired_command now) c of
        (expired, c) \<Rightarrow> fold (\<lambda>cmd. NotifyQueuedCommandFailure dump cmd ''timeout'') expired c)"

definition take_pending_acks :: "nat \<Rightarrow> client \<Rightarrow> pending_ack list \<times> client" where
  "take_pending_acks gen c =
     (if generation c \<noteq> gen then ([], c)
      else let failed = map snd (cl_pendingAcks c); c = c\<lparr>cl_pendingAcks := []\<rparr> in
        (failed,
         if cl_joinInFlight c = Some gen
         then c\<lparr>cl_joinInFlight := None,
                cl_joinPending := (if \<exists>r. cl_desiredRoom c = Some r \<and> dr_generation r = gen then Some gen else cl_joinPending c)\<rparr>
         else c))"

definition FailPendingAcks :: "printer \<Rightarrow> nat \<Rightarrow> string \<Rightarrow> client \<Rightarrow> client" where
  "FailPendingAcks dump gen code c =
     (case take_pending_acks gen c of
        (failed, c) \<Rightarrow> fold (\<lambda>p. NotifyPendingAckFailure dump gen p code) failed c)"

end
