(* ===== verification/CloudSession.thy ===== *)
theory CloudSession
  imports CloudWorker
begin

text \<open>
  A connection of the cloud client: the handshake, the remembered room that is joined again, the packets
  of the server (acknowledgements and events), the rounds of the worker thread and what it does when a
  connection ends (\<^verbatim>\<open>CloudMatchClient::Impl\<close>), and the status line shown to the user
  (\<^verbatim>\<open>CloudMatchStatusDisplay.cpp\<close>). \<open>None\<close> is an exception that leaves the worker thread and ends the program.
\<close>

definition SendText :: "(bytes \<Rightarrow> bool) \<Rightarrow> nat \<Rightarrow> nat \<Rightarrow> client \<Rightarrow> bytes \<Rightarrow> bool" where
  "SendText transmit gen outboundLimit c packet \<longleftrightarrow>
     \<not> ShouldAbort gen c \<and> packet \<noteq> [] \<and> length packet \<le> outboundLimit \<and> transmit packet"

subsection \<open>Acknowledgements\<close>

definition take_ack :: "nat \<Rightarrow> u64 \<Rightarrow> client \<Rightarrow> pending_ack option \<times> client" where
  "take_ack gen ackId c =
     (if generation c \<noteq> gen then (None, c)
      else case map_of (cl_pendingAcks c) ackId of
        None \<Rightarrow> (None, c)
      | Some p \<Rightarrow>
          let c = c\<lparr>cl_pendingAcks := filter (\<lambda>e. fst e \<noteq> ackId) (cl_pendingAcks c)\<rparr> in
          (Some p, if pa_kind p = joinRoom then settle_join gen c else c))"

definition CommitRememberedRenameFromAck :: "nat \<Rightarrow> nat \<Rightarrow> json \<Rightarrow> client \<Rightarrow> bool \<times> client" where
  "CommitRememberedRenameFromAck gen commandSequence payload c =
     (if commandSequence = 0 then (False, c)
      else case json_find (ascii ''broadcasterName'') payload of
        Some (JStr confirmedName) \<Rightarrow>
          if \<not> good_name confirmedName \<or> generation c \<noteq> gen then (False, c)
          else (case cl_desiredRoom c of
              None \<Rightarrow> (False, c)
            | Some r \<Rightarrow>
                if dr_generation r \<noteq> gen \<or> commandSequence \<le> dr_confirmedRenameSequence r then (False, c)
                else (True, c\<lparr>cl_desiredRoom := Some (r\<lparr>dr_broadcasterName := confirmedName,
                        dr_confirmedRenameSequence := commandSequence\<rparr>)\<rparr>))
      | _ \<Rightarrow> (False, c))"

text \<open>The member of an object as a text: the given one when it is absent, an exception when it is something else.\<close>

definition string_value :: "bytes \<Rightarrow> json \<Rightarrow> bytes \<Rightarrow> bytes option" where
  "string_value key j absent =
     (case json_find key j of None \<Rightarrow> Some absent | Some (JStr v) \<Rightarrow> Some v | Some _ \<Rightarrow> None)"

definition read_revision :: "json \<Rightarrow> u64" where
  "read_revision payload =
     (case ReadBoundedUnsigned payload (ascii ''comparisonRevision'') kMaxSafeRevision 0 of
        (True, revision) \<Rightarrow> revision
      | (False, revision) \<Rightarrow> snd (ReadBoundedUnsigned payload (ascii ''roomRevision'') kMaxSafeRevision revision))"

definition raise_revision :: "u64 \<Rightarrow> client_status \<Rightarrow> client_status" where
  "raise_revision revision s =
     s\<lparr>st_comparisonRevision := max (st_comparisonRevision s) revision, st_roomRevision := max (st_comparisonRevision s) revision\<rparr>"

definition read_room :: "json \<Rightarrow> client_status \<Rightarrow> (bytes \<times> bytes) option" where
  "read_room payload s =
     (case json_find (ascii ''room'') payload of
        Some room \<Rightarrow>
          if is_object room
          then (case string_value (ascii ''id'') room (st_roomId s) of None \<Rightarrow> None
                | Some roomId \<Rightarrow> map_option (Pair roomId) (string_value (ascii ''displayName'') room (st_roomName s)))
          else Some (st_roomId s, st_roomName s)
      | None \<Rightarrow> Some (st_roomId s, st_roomName s))"

definition status_from_ack :: "CommandKind \<Rightarrow> json \<Rightarrow> client_status \<Rightarrow> client_status option" where
  "status_from_ack kind payload s =
     (if kind \<in> {joinRoom, renameRoom, joinUnified, renameUnified} then
        (case read_room payload s of None \<Rightarrow> None
         | Some (roomId, roomName) \<Rightarrow>
             map_option (\<lambda>name. (raise_revision (read_revision payload)
                 (s\<lparr>st_roomId := roomId, st_roomName := roomName, st_broadcasterName := name\<rparr>))
                 \<lparr>st_statusText := ascii (if kind \<in> {joinUnified, renameUnified} then ''in_unified_pool'' else ''in_room'')\<rparr>)
               (string_value (ascii ''broadcasterName'') payload (st_broadcasterName s)))
      else if kind = leaveRoom then
        Some (s\<lparr>st_roomId := [], st_roomName := [], st_broadcasterName := [], st_roomRevision := 0,
           st_comparisonRevision := 0, st_presenceRevision := 0, st_statusText := ascii ''connected''\<rparr>)
      else Some (raise_revision (read_revision payload) s))"

definition UpdateStatusFromAck :: "nat \<Rightarrow> CommandKind \<Rightarrow> json \<Rightarrow> client \<Rightarrow> client option" where
  "UpdateStatusFromAck gen kind payload c =
     (if generation c \<noteq> gen then Some c
      else map_option (\<lambda>s. c\<lparr>cl_status := s\<rparr>) (status_from_ack kind payload (cl_status c)))"

definition ack_succeeded :: "json \<Rightarrow> bool" where
  "ack_succeeded payload \<longleftrightarrow> json_find (ascii ''ok'') payload = Some (JBool True)"

definition ack_refusal :: "json \<Rightarrow> json" where
  "ack_refusal payload =
     (let validOk = (case json_find (ascii ''ok'') payload of Some (JBool _) \<Rightarrow> True | _ \<Rightarrow> False);
          code = (if validOk then SanitizeServerCode payload (ascii ''code'') (ascii ''server_error'') else ascii ''invalid_response'');
          j = make_object [(ascii ''ok'', JBool False), (ascii ''code'', JStr code)];
          message = SanitizeServerText payload (ascii ''message'') [];
          retryAfter = ReadBoundedUnsigned payload (ascii ''retryAfterMs'') 60000 0 in
      if \<not> validOk then j
      else
        let j = (if message \<noteq> [] then jset (ascii ''message'') (JStr message) j else j) in
        if fst retryAfter \<and> snd retryAfter > 0 then jset (ascii ''retryAfterMs'') (JUInt (snd retryAfter)) j else j)"

definition answer_message :: "pending_ack \<Rightarrow> json \<Rightarrow> json" where
  "answer_message p j = add_identity p (jset (ascii ''type'') (JStr (pa_resultType p)) j)"

definition NotifyAnswer :: "printer \<Rightarrow> nat \<Rightarrow> pending_ack \<Rightarrow> json \<Rightarrow> client \<Rightarrow> client" where
  "NotifyAnswer dump gen p payload c =
     snd (NotifyJson dump gen (answer_message p (if ack_succeeded payload then payload else ack_refusal payload))
       [] False (Some (pa_reservation p)) c)"

definition update_from_ack :: "nat \<Rightarrow> pending_ack \<Rightarrow> json \<Rightarrow> client \<Rightarrow> client option" where
  "update_from_ack gen p payload c =
     (if \<not> ack_succeeded payload then Some c
      else case (if pa_kind p = renameRoom then CommitRememberedRenameFromAck gen (pa_commandSequence p) payload c else (True, c)) of
        (updateStatus, c) \<Rightarrow> if updateStatus then UpdateStatusFromAck gen (pa_kind p) payload c else Some c)"

definition HandleAck :: "printer \<Rightarrow> nat \<Rightarrow> u64 \<Rightarrow> json \<Rightarrow> client \<Rightarrow> client option" where
  "HandleAck dump gen ackId payload c =
     (case take_ack gen ackId c of
        (None, c) \<Rightarrow> Some c
      | (Some p, c) \<Rightarrow> map_option (NotifyAnswer dump gen p payload) (update_from_ack gen p payload c))"

subsection \<open>Events\<close>

definition notification :: "string \<Rightarrow> json \<Rightarrow> json" where
  "notification t payload = jset (ascii ''type'') (JStr (ascii t)) payload"

definition HandleServerEvent :: "printer \<Rightarrow> nat \<Rightarrow> bytes \<Rightarrow> json \<Rightarrow> client \<Rightarrow> client option" where
  "HandleServerEvent dump gen name payload c =
     (if name = ascii ''room:changed'' then
        if \<not> is_object payload then Some (NotifyCloudError dump gen (ascii ''invalid_event_payload'') [] (- 1) c)
        else map_option (\<lambda>key.
               snd (NotifyJson dump gen (notification ''room_changed'' payload) key False None
                 (UpdateStatus gen (raise_revision (read_revision payload)) c)))
             (string_value (ascii ''roomId'') payload [])
      else if name = ascii ''room:presence'' then
        if \<not> is_object payload then Some (NotifyCloudError dump gen (ascii ''invalid_event_payload'') [] (- 1) c)
        else (case (string_value (ascii ''roomId'') payload [], string_value (ascii ''deviceId'') payload []) of
            (Some roomId, Some deviceId) \<Rightarrow>
              let revision = ReadBoundedUnsigned payload (ascii ''presenceRevision'') kMaxSafeRevision 0;
                  c = (if fst revision
                       then UpdateStatus gen (\<lambda>s. s\<lparr>st_presenceRevision := max (st_presenceRevision s) (snd revision)\<rparr>) c else c)
              in Some (snd (NotifyJson dump gen (notification ''room_presence'' payload) (roomId @ [0x0A] @ deviceId) False None c))
          | _ \<Rightarrow> None)
      else if name \<in> {ascii ''broadcasters:changed'', ascii ''sync:relations_changed'', ascii ''sync:realtime_snapshot''} then
        if \<not> is_object payload then Some (NotifyCloudError dump gen (ascii ''invalid_event_payload'') [] (- 1) c)
        else if name = ascii ''sync:realtime_snapshot'' then
          map_option (\<lambda>key. snd (NotifyJson dump gen (notification ''realtime_snapshot'' payload) key True None c))
            (string_value (ascii ''sourceDeviceId'') payload [])
        else Some (snd (NotifyJson dump gen
               (notification (if name = ascii ''broadcasters:changed'' then ''broadcasters_changed'' else ''sync_relations_changed'') payload)
               [] False None c))
      else if name = ascii ''session:error'' then
        Some (if is_object payload
          then NotifyCloudError dump gen (SanitizeServerCode payload (ascii ''code'') (ascii ''session_error''))
                 (SanitizeServerText payload (ascii ''message'') []) (ReadServerBanUntil payload) c
          else NotifyCloudError dump gen (ascii ''session_error'') [] (- 1) c)
      else Some c)"

subsection \<open>The remembered room\<close>

text \<open>A room that was joined is joined again on every new connection of the same configuration.\<close>

definition HasJoinCommandOrAckLocked :: "nat \<Rightarrow> client \<Rightarrow> bool" where
  "HasJoinCommandOrAckLocked gen c \<longleftrightarrow>
     list_ex (\<lambda>cmd. cm_generation cmd = gen \<and> cm_kind cmd = joinRoom) (cl_commands c) \<or>
     list_ex (\<lambda>e. pa_kind (snd e) = joinRoom) (cl_pendingAcks c)"

definition desires_room :: "nat \<Rightarrow> client \<Rightarrow> bool" where
  "desires_room gen c \<longleftrightarrow> (case cl_desiredRoom c of None \<Rightarrow> False | Some r \<Rightarrow> dr_generation r = gen)"

definition MarkDesiredJoinPendingForConnection :: "nat \<Rightarrow> client \<Rightarrow> client" where
  "MarkDesiredJoinPendingForConnection gen c =
     (if generation c \<noteq> gen \<or> \<not> desires_room gen c then c
      else c\<lparr>cl_joinPending := Some gen, cl_joinInFlight := None\<rparr>)"

datatype RememberedJoinPreparation = join_noDesired | join_alreadyInFlight | join_noCapacity | join_ready client_command

definition PrepareRememberedJoin :: "nat \<Rightarrow> client \<Rightarrow> RememberedJoinPreparation \<times> client" where
  "PrepareRememberedJoin gen c =
     (case cl_desiredRoom c of
        None \<Rightarrow> (join_noDesired, c)
      | Some r \<Rightarrow>
          if generation c \<noteq> gen \<or> dr_generation r \<noteq> gen \<or> cl_joinPending c \<noteq> Some gen then (join_noDesired, c)
          else if cl_joinInFlight c = Some gen \<or> HasJoinCommandOrAckLocked gen c then (join_alreadyInFlight, c)
          else if length (cl_pendingAcks c) \<ge> kMaxPendingAcks then (join_noCapacity, c)
          else case ReserveProtectedResult False c of
            (False, c) \<Rightarrow> (join_noCapacity, c)
          | (True, c) \<Rightarrow> (join_ready \<lparr>cm_kind = joinRoom, cm_argument = dr_roomId r, cm_secondArgument = dr_broadcasterName r,
               cm_requestId = [], cm_generation = gen, cm_sequence = 0, cm_clientRevision = 0, cm_pageLimit = 0,
               cm_deadline = None, cm_reservation = True\<rparr>, c))"

definition ReleaseRememberedJoinReservation :: "client_command \<Rightarrow> client \<Rightarrow> client" where
  "ReleaseRememberedJoinReservation join c =
     (if generation c = cm_generation join \<and> cm_reservation join \<and> cl_reservations c > 0
      then c\<lparr>cl_reservations := cl_reservations c - 1\<rparr> else c)"

datatype RememberedJoinResult = room_noDesired | room_alreadyInFlight | room_noCapacity | room_sent | room_networkFailure

definition SendRememberedJoinIfNeeded ::
  "parser \<Rightarrow> printer \<Rightarrow> (bytes \<Rightarrow> bool) \<Rightarrow> nat \<Rightarrow> nat \<Rightarrow> client \<Rightarrow> RememberedJoinResult \<times> client" where
  "SendRememberedJoinIfNeeded parse dump send now gen c =
     (case PrepareRememberedJoin gen c of
        (join_noDesired, c) \<Rightarrow> (room_noDesired, c)
      | (join_alreadyInFlight, c) \<Rightarrow> (room_alreadyInFlight, c)
      | (join_noCapacity, c) \<Rightarrow> (room_noCapacity, c)
      | (join_ready join, c) \<Rightarrow>
          (case SendQueuedCommand parse dump send now gen join c of
             (True, _, c) \<Rightarrow> (room_sent, c)
           | (False, join, c) \<Rightarrow> (room_networkFailure, ReleaseRememberedJoinReservation join c)))"

subsection \<open>Outgoing work\<close>

text \<open>The commands are sent one after the other until none is left or the connection fails.\<close>

lemma NotifyJson_work:
  "cl_commands (snd (NotifyJson dump gen j key sensitive r c)) = cl_commands c"
  "cl_pendingAcks (snd (NotifyJson dump gen j key sensitive r c)) = cl_pendingAcks c"
  "cl_latestSnapshot (snd (NotifyJson dump gen j key sensitive r c)) = cl_latestSnapshot c"
  "cl_config (snd (NotifyJson dump gen j key sensitive r c)) = cl_config c"
  by (auto simp: NotifyJson_def EnqueueInboundMessage_def Let_def split: option.splits json.splits)

lemma NotifyCloudError_work:
  "cl_commands (NotifyCloudError dump gen code t u c) = cl_commands c"
  "cl_pendingAcks (NotifyCloudError dump gen code t u c) = cl_pendingAcks c"
  "cl_latestSnapshot (NotifyCloudError dump gen code t u c) = cl_latestSnapshot c"
  "cl_config (NotifyCloudError dump gen code t u c) = cl_config c"
  by (simp_all add: NotifyCloudError_def NotifyJson_work)

lemma SendQueuedCommand_commands:
  "cl_commands (snd (snd (SendQueuedCommand parse dump send now gen cmd c))) = cl_commands c"
  by (auto simp: SendQueuedCommand_def next_ack_def track_command_def emplace_ack_def Let_def NotifyCloudError_work
      split: option.splits prod.splits)

lemma SendQueuedCommand_kept:
  "(sent, kept, c') = SendQueuedCommand parse dump send now gen cmd c \<Longrightarrow> cl_commands c' = cl_commands c"
  using SendQueuedCommand_commands [of parse dump send now gen cmd c] by (metis snd_conv)

lemma pop_command_shorter:
  "pop_command gen c = (Some cmd, c') \<Longrightarrow> length (cl_commands c') < length (cl_commands c)"
  using length_dropWhile_le [of "\<lambda>cmd. cm_generation cmd \<noteq> gen" "cl_commands c"]
  by (auto simp: pop_command_def Let_def split: list.splits if_splits)

function send_commands :: "parser \<Rightarrow> printer \<Rightarrow> (client \<Rightarrow> bytes \<Rightarrow> bool) \<Rightarrow> nat \<Rightarrow> nat \<Rightarrow> client \<Rightarrow> bool \<times> client" where
  "send_commands parse dump send now gen c =
     (case pop_command gen c of
        (None, c) \<Rightarrow> (True, c)
      | (Some cmd, c) \<Rightarrow>
          if ShouldAbort gen c then (False, c)
          else case SendQueuedCommand parse dump (send c) now gen cmd c of
            (False, cmd, c) \<Rightarrow> (False, put_back_command gen cmd c)
          | (True, _, c) \<Rightarrow> if ShouldAbort gen c then (False, c) else send_commands parse dump send now gen c)"
  by pat_completeness auto
termination
  by (relation "measure (\<lambda>(parse, dump, send, now, gen, c). length (cl_commands c))")
    (auto dest!: pop_command_shorter [OF sym] SendQueuedCommand_kept)

declare send_commands.simps [simp del]

lemma FinishRegistration_work: "cl_commands (FinishRegistration parse dump gen cmd outcome c) = cl_commands c"
  by (auto simp: FinishRegistration_def NotifyRegistrationError_def NotifyJson_work split: registration_outcome.splits option.splits json.splits)

lemma extract_first_shorter: "extract_first P xs = Some (x, ys) \<Longrightarrow> length ys < length xs"
  by (induction xs arbitrary: ys) (auto split: if_splits)

function ProcessRegistrationCommands :: "parser \<Rightarrow> printer \<Rightarrow> (client_command \<Rightarrow> registration_outcome) \<Rightarrow> nat \<Rightarrow> client \<Rightarrow> client" where
  "ProcessRegistrationCommands parse dump register gen c =
     (if ShouldAbort gen c then c
      else case PopRegistrationCommand gen c of
        None \<Rightarrow> c
      | Some (cmd, c) \<Rightarrow> ProcessRegistrationCommands parse dump register gen (FinishRegistration parse dump gen cmd (register cmd) c))"
  by pat_completeness auto
termination
  by (relation "measure (\<lambda>(parse, dump, register, gen, c). length (cl_commands c))")
    (auto simp: PopRegistrationCommand_def FinishRegistration_work dest!: extract_first_shorter)

declare ProcessRegistrationCommands.simps [simp del]

text \<open>One turn of the sending side: registrations, requests that waited too long, the commands, the latest snapshot.\<close>

definition ProcessOutgoing ::
  "parser \<Rightarrow> printer \<Rightarrow> (client_command \<Rightarrow> registration_outcome) \<Rightarrow> (client \<Rightarrow> bytes \<Rightarrow> bool) \<Rightarrow> nat \<Rightarrow> nat \<Rightarrow> nat \<Rightarrow> client \<Rightarrow> bool \<times> client" where
  "ProcessOutgoing parse dump register send now gen outboundLimit c =
     (let c = ProcessRegistrationCommands parse dump register gen c in
      if ShouldAbort gen c then (False, c)
      else case send_commands parse dump send now gen (ExpireQueuedTransientRequests dump now gen c) of
        (False, c) \<Rightarrow> (False, c)
      | (True, c) \<Rightarrow> send_latest_snapshot parse dump (send c) now gen outboundLimit c)"

subsection \<open>The handshake\<close>

record connection =
  cn_pingIntervalMs :: dword
  cn_pingTimeoutMs :: dword
  cn_outboundLimit :: nat

definition new_connection :: connection where
  "new_connection = \<lparr>cn_pingIntervalMs = 25000, cn_pingTimeoutMs = 20000, cn_outboundLimit = kMaxCloudMatchPayloadBytes\<rparr>"

datatype ReceiveResult = recv_poll | recv_message bytes | recv_closed | recv_rejected | recv_failed

datatype handshake_result = hs_waiting | hs_connected | hs_refused

record handshake =
  hs_connection :: connection
  hs_sentConnect :: bool
  hs_useLicenseSession :: bool

text \<open>One round of the loop that waits for the namespace, after the packet has been received.\<close>

definition open_packet :: "printer \<Rightarrow> (bytes \<Rightarrow> bool) \<Rightarrow> client_config \<Rightarrow> EngineIoOpenPacket \<Rightarrow> handshake \<Rightarrow> client \<Rightarrow> handshake_result \<times> handshake \<times> client" where
  "open_packet dump transmit active opened h c =
     (let gen = cf_generation active; cn = hs_connection h;
          outboundLimit = (case maxPayload opened of None \<Rightarrow> cn_outboundLimit cn | Some m \<Rightarrow> min (unat m) kMaxCloudMatchPayloadBytes);
          cn = cn\<lparr>cn_pingIntervalMs := pingIntervalMs opened, cn_pingTimeoutMs := pingTimeoutMs opened, cn_outboundLimit := outboundLimit\<rparr>;
          h = h\<lparr>hs_connection := cn\<rparr>;
          c = UpdateOutboundLimit gen outboundLimit c;
          license = (if hs_useLicenseSession h then (cf_licenseDeviceId active, cf_licenseSessionToken active) else ([], []));
          packet = EncodeSocketIoConnectPacket dump (cf_deviceId active) (cf_deviceToken active) 1 (fst license) (snd license) in
      if ShouldAbort gen c \<or> \<not> SendText transmit gen outboundLimit c packet then (hs_refused, h, c)
      else (hs_waiting, h\<lparr>hs_sentConnect := True\<rparr>, c))"

definition connect_error :: "printer \<Rightarrow> client_config \<Rightarrow> SocketIoConnectError \<Rightarrow> handshake \<Rightarrow> client \<Rightarrow> handshake_result \<times> handshake \<times> client" where
  "connect_error dump active e h c =
     (if hs_sentConnect h \<and> hs_useLicenseSession h \<and> err_code e = ascii ''invalid_auth'' \<and>
         cf_licenseDeviceId active \<noteq> [] \<and> cf_licenseSessionToken active \<noteq> []
      then (hs_refused, h\<lparr>hs_useLicenseSession := False\<rparr>, c)
      else
        let j = make_object [(ascii ''code'', JStr (err_code e)), (ascii ''message'', JStr (err_message e))] in
        (hs_refused, h, NotifyCloudError dump (cf_generation active)
           (SanitizeServerCode j (ascii ''code'') (ascii ''connect_error'')) (SanitizeServerText j (ascii ''message'') [])
           (if hasBannedUntil e then bannedUntil e else - 1) c))"

definition handshake_packet ::
  "parser \<Rightarrow> printer \<Rightarrow> (bytes \<Rightarrow> bool) \<Rightarrow> bytes \<Rightarrow> client_config \<Rightarrow> bytes \<Rightarrow> handshake \<Rightarrow> client \<Rightarrow> handshake_result \<times> handshake \<times> client" where
  "handshake_packet parse dump transmit clientVersion active packet h c =
     (let gen = cf_generation active; outboundLimit = cn_outboundLimit (hs_connection h) in
      if IsEngineIoPingPacket packet then
        (if SendText transmit gen outboundLimit c MakeEngineIoPongPacket then (hs_waiting, h, c) else (hs_refused, h, c))
      else case ParseEngineIoPacket parse packet of
        Some opened \<Rightarrow> open_packet dump transmit active opened h c
      | None \<Rightarrow>
          if hs_sentConnect h \<and> ParseSocketIoNamespaceConnected parse packet \<noteq> None then
            (let info = EncodeSocketEvent dump (ascii ''client:info'') (make_object [(ascii ''clientVersion'', JStr clientVersion)]) in
             if clientVersion \<noteq> [] \<and> info \<noteq> [] \<and> \<not> SendText transmit gen outboundLimit c info then (hs_refused, h, c)
             else (hs_connected, h, c))
          else case ParseSocketIoConnectError parse packet of
            Some e \<Rightarrow> connect_error dump active e h c
          | None \<Rightarrow>
              if IsSocketIoDisconnectPacket packet then (hs_refused, h, c)
              else (hs_refused, h, NotifyCloudError dump gen (ascii ''unknown_packet'') [] (- 1) c))"

definition handshake_round ::
  "parser \<Rightarrow> printer \<Rightarrow> (bytes \<Rightarrow> bool) \<Rightarrow> bytes \<Rightarrow> client_config \<Rightarrow> ReceiveResult \<Rightarrow> handshake \<Rightarrow> client \<Rightarrow> handshake_result \<times> handshake \<times> client" where
  "handshake_round parse dump transmit clientVersion active received h c =
     (case received of
        recv_poll \<Rightarrow> (hs_waiting, h, c)
      | recv_closed \<Rightarrow> (hs_refused, h, c)
      | recv_failed \<Rightarrow> (hs_refused, h, c)
      | recv_rejected \<Rightarrow> (hs_refused, h, NotifyCloudError dump (cf_generation active) (ascii ''binary_or_invalid_message'') [] (- 1) c)
      | recv_message packet \<Rightarrow> handshake_packet parse dump transmit clientVersion active packet h c)"

text \<open>The loop over the packets that arrive before the deadline.\<close>

fun WaitForNamespaceConnection ::
  "parser \<Rightarrow> printer \<Rightarrow> (bytes \<Rightarrow> bool) \<Rightarrow> bytes \<Rightarrow> client_config \<Rightarrow> ReceiveResult list \<Rightarrow> handshake \<Rightarrow> client \<Rightarrow> bool \<times> handshake \<times> client" where
  "WaitForNamespaceConnection parse dump transmit clientVersion active [] h c = (False, h, c)"
| "WaitForNamespaceConnection parse dump transmit clientVersion active (received # rest) h c =
     (if ShouldAbort (cf_generation active) c then (False, h, c)
      else case handshake_round parse dump transmit clientVersion active received h c of
        (hs_waiting, h, c) \<Rightarrow> WaitForNamespaceConnection parse dump transmit clientVersion active rest h c
      | (hs_connected, h, c) \<Rightarrow> (True, h, c)
      | (hs_refused, h, c) \<Rightarrow> (False, h, c))"

subsection \<open>The connected loop\<close>

definition is_stale :: "connection \<Rightarrow> nat \<Rightarrow> nat \<Rightarrow> bool" where
  "is_stale cn now lastServerActivity \<longleftrightarrow>
     now - lastServerActivity > unat (cn_pingIntervalMs cn) + unat (cn_pingTimeoutMs cn)"

text \<open>A packet of the server; the flag says whether the connection is kept.\<close>

definition handle_packet :: "parser \<Rightarrow> printer \<Rightarrow> (bytes \<Rightarrow> bool) \<Rightarrow> nat \<Rightarrow> connection \<Rightarrow> bytes \<Rightarrow> client \<Rightarrow> (bool \<times> client) option" where
  "handle_packet parse dump transmit gen cn packet c =
     (if IsEngineIoPingPacket packet then Some (SendText transmit gen (cn_outboundLimit cn) c MakeEngineIoPongPacket, c)
      else if IsSocketIoDisconnectPacket packet then Some (False, c)
      else case ParseSocketIoAck parse packet of
        Some (ackId, payload) \<Rightarrow> map_option (Pair True) (HandleAck dump gen ackId payload c)
      | None \<Rightarrow>
          (case ParseSocketIoEvent parse packet of
             Some (name, payload) \<Rightarrow> map_option (Pair True) (HandleServerEvent dump gen name payload c)
           | None \<Rightarrow> Some (False, NotifyCloudError dump gen (ascii ''unknown_packet'') [] (- 1) c)))"

text \<open>
  A round of the worker thread on a connection: the remembered room, the outgoing work, the expired
  acknowledgements, and what has arrived, \<open>None\<close> when nothing did within the 25 ms. It returns whether the
  connection goes on, the time of the last activity of the server, and the state.
\<close>

definition connected_round ::
  "parser \<Rightarrow> printer \<Rightarrow> (client_command \<Rightarrow> registration_outcome) \<Rightarrow> (bytes \<Rightarrow> bool) \<Rightarrow> nat \<Rightarrow> nat \<Rightarrow> connection \<Rightarrow>
     ReceiveResult option \<Rightarrow> nat \<Rightarrow> client \<Rightarrow> (bool \<times> nat \<times> client) option" where
  "connected_round parse dump register transmit now gen cn received activity c =
     (case SendRememberedJoinIfNeeded parse dump (SendText transmit gen (cn_outboundLimit cn) c) now gen c of
        (room_networkFailure, c) \<Rightarrow> Some (False, activity, c)
      | (_, c) \<Rightarrow>
         (case ProcessOutgoing parse dump register (SendText transmit gen (cn_outboundLimit cn)) now gen (cn_outboundLimit cn) c of
            (False, c) \<Rightarrow> Some (False, activity, c)
          | (True, c) \<Rightarrow>
              let c = ExpireAcks dump now gen c;
                  stale = (\<lambda>activity c. if is_stale cn now activity
                      then (False, activity, NotifyCloudError dump gen (ascii ''connection_stale'') [] (- 1) c) else (True, activity, c)) in
              (case received of
                 None \<Rightarrow> Some (stale activity c)
               | Some recv_closed \<Rightarrow> Some (False, activity, c)
               | Some recv_failed \<Rightarrow> Some (False, activity, c)
               | Some recv_rejected \<Rightarrow> Some (False, activity, NotifyCloudError dump gen (ascii ''binary_or_invalid_message'') [] (- 1) c)
               | Some recv_poll \<Rightarrow> Some (stale activity c)
               | Some (recv_message packet) \<Rightarrow>
                   map_option (\<lambda>(keep, c). if keep then stale now c else (False, now, c))
                     (handle_packet parse dump transmit gen cn packet c))))"

subsection \<open>The worker thread between connections\<close>

record worker =
  wk_reconnectIndex :: nat
  wk_reconnecting :: bool
  wk_useLicenseSession :: bool
  wk_observedGeneration :: nat

definition observe_config :: "nat \<Rightarrow> worker \<Rightarrow> worker" where
  "observe_config gen w =
     (if wk_observedGeneration w \<noteq> gen
      then \<lparr>wk_reconnectIndex = 0, wk_reconnecting = False, wk_useLicenseSession = True, wk_observedGeneration = gen\<rparr> else w)"

definition start_connecting :: "nat \<Rightarrow> worker \<Rightarrow> client \<Rightarrow> client" where
  "start_connecting gen w c = UpdateStatus gen (\<lambda>s. s\<lparr>st_connecting := \<not> wk_reconnecting w, st_connected := False,
     st_reconnecting := wk_reconnecting w, st_statusText := ascii (if wk_reconnecting w then ''reconnecting'' else ''connecting'')\<rparr>) c"

definition idle_status :: "nat \<Rightarrow> client \<Rightarrow> client" where
  "idle_status gen c = UpdateStatus gen (\<lambda>s. s\<lparr>st_connecting := False, st_connected := False, st_reconnecting := False\<rparr>) c"

definition connection_up :: "nat \<Rightarrow> client \<Rightarrow> bool \<times> client" where
  "connection_up gen c =
     (if generation c \<noteq> gen then (False, c)
      else let n = cl_connectionCounter c + 1 in
        (True, c\<lparr>cl_connectionCounter := n, cl_status := (cl_status c)\<lparr>st_connecting := False, st_connected := True,
           st_reconnecting := False, st_connectionGeneration := n, st_statusText := ascii ''connected''\<rparr>\<rparr>))"

definition ClearPendingAcksLocked :: "client \<Rightarrow> client" where
  "ClearPendingAcksLocked c = c\<lparr>cl_pendingAcks := [], cl_nextAckId := 1\<rparr>"

text \<open>
  What the worker does when a connection has ended: the delay in seconds before the next attempt, \<open>None\<close>
  for none. Refusing the licence session of an old server is retried at once without it.
\<close>

definition connection_ended ::
  "printer \<Rightarrow> nat \<Rightarrow> bool \<Rightarrow> bool \<Rightarrow> worker \<Rightarrow> client \<Rightarrow> nat option \<times> worker \<times> client" where
  "connection_ended dump gen connectedOnce useLicenseSession w c =
     (let attempted = wk_useLicenseSession w; w = w\<lparr>wk_useLicenseSession := useLicenseSession\<rparr> in
      if ShouldAbort gen c then (None, w, ClearPendingAcksLocked c)
      else if attempted \<and> \<not> useLicenseSession then (None, w, c)
      else
        let c = FailPendingAcks dump gen ''connection_lost'' (FailQueuedTransientRequests dump gen ''connection_lost'' c);
            c = UpdateStatus gen (\<lambda>s. s\<lparr>st_connecting := False, st_connected := False, st_reconnecting := True,
                  st_statusText := ascii ''reconnecting''\<rparr>) c
        in case next_delay connectedOnce (wk_reconnectIndex w) of
             (delay, i) \<Rightarrow> (Some delay, w\<lparr>wk_reconnecting := True, wk_reconnectIndex := i\<rparr>, c))"

subsection \<open>The status line\<close>

datatype CloudMatchDisplayState = display_online | display_reconnecting | display_offline | display_notJoined

record display_context =
  dc_hasJoinedRoom :: bool
  dc_hasPendingRoom :: bool
  dc_roomConfirmed :: bool
  dc_joining :: bool
  dc_registering :: bool
  dc_restoring :: bool
  dc_roomName :: wstr
  dc_broadcasterName :: wstr

definition BuildCloudMatchDisplayStatus :: "client_status \<Rightarrow> display_context \<Rightarrow> CloudMatchDisplayState \<times> wstr" where
  "BuildCloudMatchDisplayStatus s d =
     (if \<not> (dc_hasJoinedRoom d \<or> dc_hasPendingRoom d)
      then (display_notJoined, [0x672A, 0x52A0, 0x5165, 0x4E91, 0x7AEF, 0x623F, 0x95F4])
      else if dc_hasPendingRoom d \<or> dc_joining d \<or> dc_registering d \<or> dc_restoring d \<or> st_connecting s \<or> st_reconnecting s
      then (display_reconnecting, dc_roomName d @ [0x20, 0xB7, 0x20, 0x91CD, 0x8FDE, 0x4E2D])
      else if st_connected s \<and> dc_roomConfirmed d
      then (display_online, dc_roomName d @ [0x20, 0xB7, 0x20] @ dc_broadcasterName d)
      else (display_offline, dc_roomName d @ [0x20, 0xB7, 0x20, 0x79BB, 0x7EBF]))"

fun CloudMatchDisplayStateName :: "CloudMatchDisplayState \<Rightarrow> bytes" where
  "CloudMatchDisplayStateName display_online = ascii ''online''"
| "CloudMatchDisplayStateName display_reconnecting = ascii ''reconnecting''"
| "CloudMatchDisplayStateName display_offline = ascii ''offline''"
| "CloudMatchDisplayStateName display_notJoined = ascii ''not-joined''"

end
