(* ===== verification/ClientLedger.thy ===== *)
theory ClientLedger
  imports CloudSession "HOL-Library.Multiset"
begin

text \<open>
  The accounts of the cloud client. An accepted command or snapshot is an obligation: it owns a reserved
  place in the queue of messages until its result is put there. Between two critical sections an
  obligation is in the hands of a thread. The step relation interleaves the critical sections of the
  dialog and of the worker thread in any order; ghost counters say what became of the obligations since
  the last configuration.
\<close>

subsection \<open>Effects of the critical sections\<close>

definition same_work :: "client \<Rightarrow> client \<Rightarrow> bool" where
  "same_work c d \<longleftrightarrow> cl_commands d = cl_commands c \<and> cl_latestSnapshot d = cl_latestSnapshot c \<and>
     cl_pendingAcks d = cl_pendingAcks c \<and> cl_nextAckId d = cl_nextAckId c \<and> cl_config d = cl_config c \<and>
     cl_configGeneration d = cl_configGeneration c \<and> cl_stopping d = cl_stopping c \<and> cl_stopRequested d = cl_stopRequested c"

definition same_queue :: "client \<Rightarrow> client \<Rightarrow> bool" where
  "same_queue c d \<longleftrightarrow> cl_inbound d = cl_inbound c \<and> cl_queued d = cl_queued c \<and> cl_reservations d = cl_reservations c"

definition room_ok :: "client \<Rightarrow> bool" where
  "room_ok c \<longleftrightarrow> cl_queued c = length (filter im_protected (cl_inbound c)) \<and>
     length (cl_inbound c) + cl_reservations c \<le> kMaxInboundMessageQueueSize \<and>
     cl_queued c + cl_reservations c \<le> kMaxProtectedResultCapacity"

lemma same_work_refl [simp]: "same_work c c" by (simp add: same_work_def)
lemma same_queue_refl [simp]: "same_queue c c" by (simp add: same_queue_def)

lemma same_work_trans: "same_work a b \<Longrightarrow> same_work b c \<Longrightarrow> same_work a c"
  by (simp add: same_work_def)

lemma same_queue_trans: "same_queue a b \<Longrightarrow> same_queue b c \<Longrightarrow> same_queue a c"
  by (simp add: same_queue_def)

lemma same_work_generation: "same_work c d \<Longrightarrow> generation d = generation c"
  by (simp add: same_work_def generation_def)

lemma room_ok_same: "same_queue c d \<Longrightarrow> room_ok d = room_ok c"
  by (simp add: same_queue_def room_ok_def)

lemma drop_oldest_effect:
  "drop_oldest q = Some q' \<Longrightarrow> filter im_protected q' = filter im_protected q \<and> length q = Suc (length q')"
  by (induction q arbitrary: q') (auto split: if_splits)

lemma drop_oldest_None: "drop_oldest q = None \<Longrightarrow> filter im_protected q = q"
  by (induction q) (auto split: if_splits)

lemma make_room_effect:
  "make_room r q = (ok, q') \<Longrightarrow> filter im_protected q' = filter im_protected q \<and> length q' \<le> length q \<and>
     (if ok then length q' + r < kMaxInboundMessageQueueSize
      else length (filter im_protected q) + r \<ge> kMaxInboundMessageQueueSize)"
proof (induction r q arbitrary: ok q' rule: make_room.induct)
  case (1 r q)
  show ?case
  proof (cases "length q + r \<ge> kMaxInboundMessageQueueSize")
    case True
    show ?thesis
    proof (cases "drop_oldest q")
      case None
      then show ?thesis using 1(2) True drop_oldest_None [of q] by (simp add: make_room.simps [of r q])
    next
      case (Some p)
      note e = drop_oldest_effect [OF Some]
      have "make_room r p = (ok, q')" using 1(2) True Some by (simp add: make_room.simps [of r q])
      from 1(1) [OF True Some this] e show ?thesis by (auto split: if_splits)
    qed
  next
    case False
    then show ?thesis using 1(2) by (auto simp: make_room.simps [of r q])
  qed
qed

text \<open>
  With the accounts in order a place is refused exactly when all 96 places are taken: the notifications
  never stand in the way of a result.
\<close>

lemma Reserve_effect:
  assumes "ReserveProtectedResult report c = (ok, d)" "room_ok c"
  shows "same_work c d \<and> room_ok d \<and> cl_reservations d = cl_reservations c + of_bool ok \<and> cl_queued d = cl_queued c \<and>
    ok = (cl_queued c + cl_reservations c < kMaxProtectedResultCapacity)"
proof (cases "cl_queued c + cl_reservations c \<ge> kMaxProtectedResultCapacity")
  case True
  with assms show ?thesis
    by (auto simp: ReserveProtectedResult_def set_text_def same_work_def room_ok_def split: if_splits)
next
  case False
  obtain ok' q where mr: "make_room (cl_reservations c) (cl_inbound c) = (ok', q)" by force
  have "ok'"
  proof (rule ccontr)
    assume "\<not> ok'"
    with make_room_effect [OF mr] have "length (filter im_protected (cl_inbound c)) + cl_reservations c \<ge> kMaxInboundMessageQueueSize" by simp
    with assms(2) False show False by (simp add: room_ok_def kMaxInboundMessageQueueSize_def kMaxProtectedResultCapacity_def)
  qed
  with assms False make_room_effect [OF mr] show ?thesis
    by (auto simp: ReserveProtectedResult_def mr same_work_def room_ok_def)
qed

lemma coalesce_effect:
  assumes "coalesce m q = Some q'" "\<not> im_protected m" "IsCoalescibleNotification (im_type m)"
  shows "length q' = length q \<and> map im_protected q' = map im_protected q"
proof -
  let ?same = "\<lambda>x. im_generation x = im_generation m \<and> im_type x = im_type m \<and> im_coalesceKey x = im_coalesceKey m"
  let ?t = "takeWhile (Not \<circ> ?same) (rev q)" and ?d = "dropWhile (Not \<circ> ?same) (rev q)"
  have q: "q = rev (?t @ ?d)" by simp
  obtain x earlier where d: "?d = x # earlier" using assms(1) by (cases ?d) (auto simp: coalesce_def Let_def)
  obtain t where t: "?t = t" by simp
  have "q' = rev earlier @ x\<lparr>im_serialized := im_serialized m, im_sensitive := im_sensitive m\<rparr> # rev t"
    using assms(1) by (simp add: coalesce_def Let_def d t)
  moreover have "q = rev earlier @ x # rev t" using q unfolding d t by simp
  ultimately show ?thesis by simp
qed

lemma filter_by_map:
  assumes "map P xs = map P ys"
  shows "length (filter P xs) = length (filter P ys)"
proof -
  have f: "length (filter P zs) = length (filter (\<lambda>b. b) (map P zs))" for zs by (induction zs) auto
  show ?thesis by (simp only: f assms)
qed

text \<open>A message: either the result of an obligation takes its place, or nothing is taken from the results.\<close>

definition takes_place :: "nat \<Rightarrow> bytes \<Rightarrow> bool option \<Rightarrow> client \<Rightarrow> bool" where
  "takes_place gen t r c \<longleftrightarrow> generation c = gen \<and> IsProtectedInboundResult t \<and> r = Some True \<and> cl_reservations c > 0"

lemma protected_types:
  "IsProtectedInboundResult (ResultTypeForCommand k)"
  "IsProtectedInboundResult (ascii ''device_registered'')"
  "IsProtectedInboundResult (ascii ''device_registration_error'')"
  "IsProtectedInboundResult (ascii ''snapshot_upload_result'')"
  by (cases k; simp add: IsProtectedInboundResult_def del: ascii_Cons)
    (simp_all add: IsProtectedInboundResult_def del: ascii_Cons)

lemma Enqueue_effect:
  assumes "EnqueueInboundMessage gen t s k sens r c = (r', d)" "room_ok c"
  shows "same_work c d \<and> room_ok d \<and>
    (if takes_place gen t r c
     then r' = Some False \<and> cl_reservations c = Suc (cl_reservations d) \<and> cl_queued d = Suc (cl_queued c) \<and>
       (\<exists>m. cl_inbound d = cl_inbound c @ [m] \<and> im_protected m \<and> im_generation m = gen \<and> im_type m = t \<and> im_serialized m = s)
     else r' = r \<and> cl_reservations d = cl_reservations c \<and> cl_queued d = cl_queued c)"
proof (cases "generation c = gen")
  case False
  with assms show ?thesis by (simp add: EnqueueInboundMessage_def takes_place_def)
next
  case gen: True
  define m where "m = \<lparr>im_generation = gen, im_type = t, im_coalesceKey = k, im_serialized = s,
            im_coalescible = IsCoalescibleNotification t, im_sensitive = sens, im_protected = IsProtectedInboundResult t\<rparr>"
  have pm: "im_protected m = IsProtectedInboundResult t" "im_coalescible m = IsCoalescibleNotification t"
      "im_generation m = gen" "im_type m = t" "im_serialized m = s" by (simp_all add: m_def)
  have eq: "(r', d) =
      (if im_protected m then
        (if r \<noteq> Some True \<or> cl_reservations c = 0 then (r, c)
         else (Some False, c\<lparr>cl_reservations := cl_reservations c - 1, cl_queued := cl_queued c + 1,
                 cl_inbound := cl_inbound c @ [m]\<rparr>))
      else case (if im_coalescible m then coalesce m (cl_inbound c) else None) of
        Some q \<Rightarrow> (r, c\<lparr>cl_inbound := q\<rparr>)
      | None \<Rightarrow>
          if length (cl_inbound c) + cl_reservations c \<ge> kMaxInboundMessageQueueSize
          then (case drop_oldest (cl_inbound c) of
                  None \<Rightarrow> (r, c)
                | Some q \<Rightarrow> (r, c\<lparr>cl_inbound := q @ [m]\<rparr>))
          else (r, c\<lparr>cl_inbound := cl_inbound c @ [m]\<rparr>))"
    unfolding assms(1) [symmetric] EnqueueInboundMessage_def m_def [symmetric] Let_def using gen by (simp only: if_False if_True simp_thms)
  show ?thesis
  proof (cases "IsProtectedInboundResult t")
    case True
    show ?thesis
    proof (cases "takes_place gen t r c")
      case tp: True
      then have d: "r' = Some False" "d = c\<lparr>cl_reservations := cl_reservations c - 1, cl_queued := cl_queued c + 1,
                 cl_inbound := cl_inbound c @ [m]\<rparr>"
        using eq True pm by (simp_all add: takes_place_def)
      have "im_protected m" using True pm by simp
      with tp assms(2) pm show ?thesis by (auto simp: d takes_place_def same_work_def room_ok_def)
    next
      case False
      with eq assms(2) True gen pm show ?thesis by (auto simp: takes_place_def split: if_splits)
    qed
  next
    case unp: False
    then have nt: "\<not> takes_place gen t r c" and um: "\<not> im_protected m" by (simp_all add: takes_place_def pm)
    show ?thesis
    proof (cases "if im_coalescible m then coalesce m (cl_inbound c) else None")
      case (Some q)
      then have co: "IsCoalescibleNotification t" "coalesce m (cl_inbound c) = Some q" by (auto simp: pm split: if_splits)
      have d: "r' = r" "d = c\<lparr>cl_inbound := q\<rparr>" using eq um Some by simp_all
      have "IsCoalescibleNotification (im_type m)" using co(1) by (simp add: pm)
      from coalesce_effect [OF co(2) um this] have "length q = length (cl_inbound c)"
        "length (filter im_protected q) = length (filter im_protected (cl_inbound c))" using filter_by_map by blast+
      with assms(2) nt show ?thesis by (simp add: d same_work_def room_ok_def)
    next
      case None
      consider (full) "length (cl_inbound c) + cl_reservations c \<ge> kMaxInboundMessageQueueSize" "drop_oldest (cl_inbound c) = None"
        | (room) q where "length (cl_inbound c) + cl_reservations c \<ge> kMaxInboundMessageQueueSize" "drop_oldest (cl_inbound c) = Some q"
        | (free) "length (cl_inbound c) + cl_reservations c < kMaxInboundMessageQueueSize"
        by (cases "drop_oldest (cl_inbound c)"; force)
      then show ?thesis
      proof cases
        case full
        with eq um None assms(2) nt show ?thesis by simp
      next
        case (room q)
        then have d: "r' = r" "d = c\<lparr>cl_inbound := q @ [m]\<rparr>" using eq um None by simp_all
        from drop_oldest_effect [OF room(2)] assms(2) nt um show ?thesis by (simp add: d same_work_def room_ok_def)
      next
        case free
        then have d: "r' = r" "d = c\<lparr>cl_inbound := cl_inbound c @ [m]\<rparr>" using eq um None by simp_all
        with free assms(2) nt um show ?thesis by (simp add: d same_work_def room_ok_def)
      qed
    qed
  qed
qed

definition message_type :: "json \<Rightarrow> bytes option" where
  "message_type j = (case json_find (ascii ''type'') j of Some (JStr t) \<Rightarrow> Some t | _ \<Rightarrow> None)"

text \<open>A result can be printed when it is printed small enough, or else its short replacement is.\<close>

definition printable :: "printer \<Rightarrow> bytes \<Rightarrow> json \<Rightarrow> bool" where
  "printable dump t j \<longleftrightarrow>
     (case dump j of Some bs \<Rightarrow> bs \<noteq> [] \<and> length bs \<le> kMaxCloudMatchInboundPayloadBytes | None \<Rightarrow> False) \<or>
     dump (fallback_message t j) \<noteq> None"

lemma NotifyJson_effect:
  assumes "NotifyJson dump gen j k sens r c = (r', d)" "room_ok c"
  shows "same_work c d \<and> room_ok d \<and>
    (if \<exists>t. message_type j = Some t \<and> takes_place gen t r c \<and> printable dump t j
     then r' = Some False \<and> cl_reservations c = Suc (cl_reservations d) \<and> cl_queued d = Suc (cl_queued c)
     else r' = r \<and> cl_reservations d = cl_reservations c \<and> cl_queued d = cl_queued c)"
proof (cases "message_type j")
  case None
  then have "r' = r" "d = c" using assms(1) by (auto simp: NotifyJson_def message_type_def split: option.splits json.splits)
  with assms(2) None show ?thesis by simp
next
  case (Some t)
  then have t: "json_find (ascii ''type'') j = Some (JStr t)" by (auto simp: message_type_def split: option.splits json.splits)
  have act: "(r', d) =
      (if (case dump j of Some bs \<Rightarrow> bs = [] \<or> length bs > kMaxCloudMatchInboundPayloadBytes | None \<Rightarrow> True)
       then if r \<noteq> Some True \<or> \<not> IsProtectedInboundResult t then (r, c)
         else (case dump (fallback_message t j) of None \<Rightarrow> (r, c) | Some bs \<Rightarrow> EnqueueInboundMessage gen t bs k sens r c)
       else EnqueueInboundMessage gen t (the (dump j)) k sens r c)"
    unfolding assms(1) [symmetric] NotifyJson_def t option.simps json.simps Let_def
    by (cases "dump j") (simp_all del: ascii_Cons)
  consider (small) bs where "EnqueueInboundMessage gen t bs k sens r c = (r', d)" "printable dump t j"
    | (idle) "r' = r" "d = c" "r \<noteq> Some True \<or> \<not> IsProtectedInboundResult t \<or> \<not> printable dump t j"
    using act by (auto simp: printable_def split: if_splits option.splits)
  then show ?thesis
  proof cases
    case small
    with Enqueue_effect [OF small(1) assms(2)] Some show ?thesis by (auto split: if_splits)
  next
    case idle
    with assms(2) Some show ?thesis by (auto simp: takes_place_def)
  qed
qed

lemma Notify_effect:
  assumes "room_ok c"
  shows "same_work c (snd (NotifyJson dump gen j k sens r c))" "room_ok (snd (NotifyJson dump gen j k sens r c))"
  using NotifyJson_effect [OF _ assms, of dump gen j k sens r] by (metis prod.collapse)+

text \<open>Cancelling gives back one place for each obligation it removes.\<close>

lemma Release_fold:
  "list_all f xs \<Longrightarrow> fold (\<lambda>x. ReleaseProtectedReservation (f x)) xs c =
     c\<lparr>cl_reservations := cl_reservations c - length xs\<rparr>"
  by (induction xs arbitrary: c) (auto simp: ReleaseProtectedReservation_def)

subsection \<open>The step relation\<close>

datatype held = HeldCommand client_command | HeldSnapshot pending_snapshot | HeldAck nat pending_ack | HeldPlace nat

fun held_generation :: "held \<Rightarrow> nat" where
  "held_generation (HeldCommand cmd) = cm_generation cmd"
| "held_generation (HeldSnapshot s) = ps_generation s"
| "held_generation (HeldAck gen p) = gen"
| "held_generation (HeldPlace gen) = gen"

fun held_reserved :: "held \<Rightarrow> bool" where
  "held_reserved (HeldCommand cmd) = (cm_reservation cmd \<and> cm_kind cmd \<noteq> uploadSnapshot)"
| "held_reserved (HeldSnapshot s) = ps_reservation s"
| "held_reserved (HeldAck gen p) = pa_reservation p"
| "held_reserved (HeldPlace gen) = True"

record ledger =
  lg_client :: client
  lg_held :: "held multiset"
  lg_worker :: nat
  lg_ack :: "u64 option"
  lg_accepted :: nat
  lg_answered :: nat
  lg_cancelled :: nat
  lg_unprinted :: nat
  lg_overrun :: nat
  lg_stopped :: nat

definition init_ledger :: ledger where
  "init_ledger = \<lparr>lg_client = init_client, lg_held = {#}, lg_worker = 0, lg_ack = None, lg_accepted = 0, lg_answered = 0,
     lg_cancelled = 0, lg_unprinted = 0, lg_overrun = 0, lg_stopped = 0\<rparr>"

definition close_books :: "ledger \<Rightarrow> ledger" where
  "close_books l = l\<lparr>lg_accepted := 0, lg_answered := 0, lg_cancelled := 0, lg_unprinted := 0, lg_overrun := 0, lg_stopped := 0\<rparr>"

definition work_count :: "client \<Rightarrow> nat" where
  "work_count c = length (cl_commands c) + (if cl_latestSnapshot c = None then 0 else 1) + length (cl_pendingAcks c)"

definition hands_count :: "nat \<Rightarrow> held multiset \<Rightarrow> nat" where
  "hands_count gen H = size (filter_mset (\<lambda>h. held_generation h = gen) H)"

definition owed :: "ledger \<Rightarrow> nat" where
  "owed l = work_count (lg_client l) + hands_count (generation (lg_client l)) (lg_held l)"

text \<open>
  One rule for every critical section. Sections of the worker thread use the generation it copied; the
  acknowledgement number it has taken is its own until it is used.
\<close>

inductive ledger_step :: "printer \<Rightarrow> ledger \<Rightarrow> ledger \<Rightarrow> bool" for dump where
  enqueue: "EnqueueCommandLocked now gen kind a b r revision limit (lg_client l) = (ok, d) \<Longrightarrow> kind \<noteq> uploadSnapshot \<Longrightarrow>
    ledger_step dump l (l\<lparr>lg_client := d, lg_accepted := lg_accepted l + of_bool ok\<rparr>)"
| reserve: "ReserveProtectedResult report (lg_client l) = (ok, d) \<Longrightarrow> held_reserved h \<Longrightarrow>
    held_generation h = generation (lg_client l) \<Longrightarrow>
    ledger_step dump l (l\<lparr>lg_client := d, lg_held := (if ok then add_mset h (lg_held l) else lg_held l),
      lg_accepted := lg_accepted l + of_bool ok\<rparr>)"
| release: "HeldCommand cmd \<in># lg_held l \<Longrightarrow>
    ledger_step dump l (l\<lparr>lg_client := ReleaseRememberedJoinReservation cmd (lg_client l), lg_held := lg_held l - {#HeldCommand cmd#},
      lg_cancelled := lg_cancelled l + of_bool (generation (lg_client l) = cm_generation cmd)\<rparr>)"
| place: "place_snapshot gen revision js (lg_client l) = (ok, old, d) \<Longrightarrow>
    ledger_step dump l (l\<lparr>lg_client := d, lg_held := (case old of None \<Rightarrow> lg_held l | Some s \<Rightarrow> add_mset (HeldSnapshot s) (lg_held l)),
      lg_accepted := lg_accepted l + of_bool ok\<rparr>)"
| cancel: "CancelRequest r (lg_client l) = (ok, d) \<Longrightarrow>
    ledger_step dump l (l\<lparr>lg_client := d, lg_cancelled := lg_cancelled l + (work_count (lg_client l) - work_count d)\<rparr>)"
| dispatch: "DispatchMessage (lg_client l) = Some (m, current, d) \<Longrightarrow> ledger_step dump l (l\<lparr>lg_client := d\<rparr>)"
| configure: "\<not> cl_stopping (lg_client l) \<Longrightarrow>
    ledger_step dump l (close_books (l\<lparr>lg_client := snd (ApplyConfig parsed valid (lg_client l))\<rparr>))"
| start: "ledger_step dump l (l\<lparr>lg_client := snd (Start created (lg_client l))\<rparr>)"
| stop_begin: "\<not> cl_stopping (lg_client l) \<Longrightarrow> ledger_step dump l (l\<lparr>lg_client := StopBegin (lg_client l)\<rparr>)"
| stop_end: "cl_stopping (lg_client l) \<Longrightarrow>
    ledger_step dump l (close_books (l\<lparr>lg_client := StopEnd (cl_configGeneration (lg_client l)) (lg_client l)\<rparr>))"
| copy_config: "ledger_step dump l (l\<lparr>lg_worker := generation (lg_client l), lg_ack := None\<rparr>)"
| pop_registration: "PopRegistrationCommand (lg_worker l) (lg_client l) = Some (cmd, d) \<Longrightarrow>
    ledger_step dump l (l\<lparr>lg_client := d, lg_held := add_mset (HeldCommand cmd) (lg_held l)\<rparr>)"
| pop: "pop_command (lg_worker l) (lg_client l) = (cmd, d) \<Longrightarrow>
    ledger_step dump l (l\<lparr>lg_client := d,
      lg_held := (case cmd of None \<Rightarrow> lg_held l | Some x \<Rightarrow> add_mset (HeldCommand x) (lg_held l)),
      lg_overrun := lg_overrun l + (work_count (lg_client l) - work_count d - (if cmd = None then 0 else 1))\<rparr>)"
| take_snapshot: "TakeLatestSnapshotForSend (lg_worker l) (lg_client l) = (Some s, d) \<Longrightarrow>
    ledger_step dump l (l\<lparr>lg_client := d, lg_held := add_mset (HeldSnapshot s) (lg_held l)\<rparr>)"
| take_ack: "take_ack (lg_worker l) ackId (lg_client l) = (Some p, d) \<Longrightarrow>
    ledger_step dump l (l\<lparr>lg_client := d, lg_held := add_mset (HeldAck (lg_worker l) p) (lg_held l)\<rparr>)"
| take_expired: "take_expired_acks now (lg_worker l) (lg_client l) = (ps, d) \<Longrightarrow>
    ledger_step dump l (l\<lparr>lg_client := d, lg_held := lg_held l + mset (map (HeldAck (lg_worker l)) ps)\<rparr>)"
| take_commands: "take_commands (lg_worker l) P (lg_client l) = (cs, d) \<Longrightarrow>
    ledger_step dump l (l\<lparr>lg_client := d, lg_held := lg_held l + mset (map HeldCommand cs)\<rparr>)"
| take_pending: "take_pending_acks (lg_worker l) (lg_client l) = (ps, d) \<Longrightarrow>
    ledger_step dump l (l\<lparr>lg_client := d, lg_held := lg_held l + mset (map (HeldAck (lg_worker l)) ps)\<rparr>)"
| take_number: "generation (lg_client l) = lg_worker l \<Longrightarrow> length (cl_pendingAcks (lg_client l)) < kMaxPendingAcks \<Longrightarrow>
    next_ack (lg_client l) = Some (i, d) \<Longrightarrow> ledger_step dump l (l\<lparr>lg_client := d, lg_ack := Some i\<rparr>)"
| track: "HeldCommand cmd \<in># lg_held l \<Longrightarrow> cm_generation cmd = lg_worker l \<Longrightarrow> lg_ack l = Some i \<Longrightarrow>
    track_command now (lg_worker l) i cmd (lg_client l) = (True, cmd', d) \<Longrightarrow>
    ledger_step dump l (l\<lparr>lg_client := d, lg_held := lg_held l - {#HeldCommand cmd#}, lg_ack := None\<rparr>)"
| track_snapshot: "HeldSnapshot s \<in># lg_held l \<Longrightarrow> ps_generation s = lg_worker l \<Longrightarrow> lg_ack l = Some i \<Longrightarrow>
    generation (lg_client l) = lg_worker l \<Longrightarrow>
    ledger_step dump l (l\<lparr>lg_client := emplace_ack i (ack_of_snapshot deadline s) (lg_client l),
      lg_held := lg_held l - {#HeldSnapshot s#}, lg_ack := None\<rparr>)"
| put_back: "HeldCommand cmd \<in># lg_held l \<Longrightarrow> cm_generation cmd = lg_worker l \<Longrightarrow>
    ledger_step dump l (l\<lparr>lg_client := put_back_command (lg_worker l) cmd (lg_client l), lg_held := lg_held l - {#HeldCommand cmd#}\<rparr>)"
| put_snapshot_back: "HeldSnapshot s \<in># lg_held l \<Longrightarrow> ps_generation s = lg_worker l \<Longrightarrow>
    put_back_snapshot (lg_worker l) s (lg_client l) = (False, d) \<Longrightarrow>
    ledger_step dump l (l\<lparr>lg_client := d, lg_held := lg_held l - {#HeldSnapshot s#}\<rparr>)"
| answer: "h \<in># lg_held l \<Longrightarrow> message_type j = Some t \<Longrightarrow> IsProtectedInboundResult t \<Longrightarrow>
    NotifyJson dump (held_generation h) j k sens (Some True) (lg_client l) = (r, d) \<Longrightarrow>
    ledger_step dump l (l\<lparr>lg_client := d, lg_held := lg_held l - {#h#}, lg_answered := lg_answered l + of_bool (r = Some False),
      lg_unprinted := lg_unprinted l + of_bool (r = Some True \<and> held_generation h = generation (lg_client l))\<rparr>)"
| abort: "h \<in># lg_held l \<Longrightarrow> ShouldAbort (held_generation h) (lg_client l) \<Longrightarrow>
    ledger_step dump l (l\<lparr>lg_held := lg_held l - {#h#},
      lg_stopped := lg_stopped l + of_bool (held_generation h = generation (lg_client l))\<rparr>)"
| clear_acks: "ShouldAbort (lg_worker l) (lg_client l) \<Longrightarrow>
    ledger_step dump l (l\<lparr>lg_client := ClearPendingAcksLocked (lg_client l), lg_ack := None,
      lg_stopped := lg_stopped l + length (cl_pendingAcks (lg_client l))\<rparr>)"
| notify: "ledger_step dump l (l\<lparr>lg_client := snd (NotifyJson dump gen j k sens None (lg_client l))\<rparr>)"
| quiet: "same_work (lg_client l) d \<Longrightarrow> same_queue (lg_client l) d \<Longrightarrow> ledger_step dump l (l\<lparr>lg_client := d\<rparr>)"

inductive reachable :: "printer \<Rightarrow> ledger \<Rightarrow> bool" for dump where
  initial: "reachable dump init_ledger"
| step: "reachable dump l \<Longrightarrow> ledger_step dump l l' \<Longrightarrow> reachable dump l'"

subsection \<open>The invariant\<close>

definition items_ok :: "client \<Rightarrow> bool" where
  "items_ok c \<longleftrightarrow> list_all (\<lambda>cmd. cm_generation cmd = generation c \<and> cm_reservation cmd \<and> cm_kind cmd \<noteq> uploadSnapshot) (cl_commands c) \<and>
     (\<forall>s. cl_latestSnapshot c = Some s \<longrightarrow> ps_generation s = generation c \<and> ps_reservation s) \<and>
     list_all (\<lambda>e. pa_reservation (snd e) \<and> IsProtectedInboundResult (pa_resultType (snd e))) (cl_pendingAcks c)"

definition hands_ok :: "ledger \<Rightarrow> bool" where
  "hands_ok l \<longleftrightarrow> (\<forall>h \<in># lg_held l. held_reserved h \<and> held_generation h \<le> generation (lg_client l)) \<and>
     lg_worker l \<le> generation (lg_client l)"

definition acks_ok :: "ledger \<Rightarrow> bool" where
  "acks_ok l \<longleftrightarrow> (let c = lg_client l; acks = cl_pendingAcks c in
     distinct (map fst acks) \<and> (\<forall>i \<in> fst ` set acks. i < cl_nextAckId c) \<and> length acks \<le> kMaxPendingAcks \<and>
     (acks \<noteq> [] \<longrightarrow> lg_worker l = generation c) \<and>
     (\<forall>i. lg_ack l = Some i \<longrightarrow> lg_worker l = generation c \<longrightarrow>
        i < cl_nextAckId c \<and> i \<notin> fst ` set acks \<and> length acks < kMaxPendingAcks))"

definition modes_ok :: "client \<Rightarrow> bool" where
  "modes_ok c \<longleftrightarrow> (if cl_stopping c then generation c < cl_configGeneration c
     else cl_configGeneration c = generation c \<and> \<not> cl_stopRequested c)"

definition books_ok :: "ledger \<Rightarrow> bool" where
  "books_ok l \<longleftrightarrow> (let lost = lg_unprinted l + lg_overrun l + lg_stopped l in
     cl_reservations (lg_client l) = owed l + lost \<and>
     lg_accepted l = lg_answered l + lg_cancelled l + owed l + lost \<and>
     (lg_stopped l = 0 \<or> cl_stopping (lg_client l)))"

definition ledger_ok :: "ledger \<Rightarrow> bool" where
  "ledger_ok l \<longleftrightarrow> room_ok (lg_client l) \<and> items_ok (lg_client l) \<and> modes_ok (lg_client l) \<and> hands_ok l \<and> acks_ok l \<and> books_ok l"

lemma ledger_okI:
  "room_ok (lg_client l) \<Longrightarrow> items_ok (lg_client l) \<Longrightarrow> modes_ok (lg_client l) \<Longrightarrow> hands_ok l \<Longrightarrow> acks_ok l \<Longrightarrow> books_ok l \<Longrightarrow> ledger_ok l"
  by (simp add: ledger_ok_def)

lemma ledger_okD:
  assumes "ledger_ok l"
  shows "room_ok (lg_client l)" "items_ok (lg_client l)" "modes_ok (lg_client l)" "hands_ok l" "acks_ok l" "books_ok l"
  using assms by (simp_all add: ledger_ok_def)

lemma hands_count_simps [simp]:
  "hands_count gen {#} = 0"
  "hands_count gen (add_mset h H) = hands_count gen H + of_bool (held_generation h = gen)"
  "hands_count gen (H + K) = hands_count gen H + hands_count gen K"
  by (simp_all add: hands_count_def)

lemma hands_count_remove:
  "h \<in># H \<Longrightarrow> hands_count gen H = hands_count gen (H - {#h#}) + of_bool (held_generation h = gen)"
  by (metis hands_count_simps(2) insert_DiffM)

lemma hands_count_mset: "(\<And>x. x \<in> set xs \<Longrightarrow> held_generation (f x) = gen) \<Longrightarrow> hands_count gen (mset (map f xs)) = length xs"
  by (induction xs) (simp_all add: hands_count_def)

lemma hands_count_fresh: "(\<And>h. h \<in># H \<Longrightarrow> held_generation h < gen) \<Longrightarrow> hands_count gen H = 0"
  by (auto simp: hands_count_def dest: multi_member_split)

end
