(* ===== verification/LedgerInvariant.thy ===== *)
theory LedgerInvariant
  imports ClientLedger
begin

text \<open>
  Every critical section keeps the invariant of the accounts: one lemma for each rule of the step relation,
  grouped by what the section does with the work (nothing, adding, taking, putting back, a new
  configuration), and the invariant of all reachable states.
\<close>

lemma generation_update [simp]:
  "generation (c\<lparr>cl_commands := v1\<rparr>) = generation c" "generation (c\<lparr>cl_latestSnapshot := v2\<rparr>) = generation c"
  "generation (c\<lparr>cl_pendingAcks := v3\<rparr>) = generation c" "generation (c\<lparr>cl_nextAckId := v4\<rparr>) = generation c"
  "generation (c\<lparr>cl_joinPending := v5\<rparr>) = generation c" "generation (c\<lparr>cl_joinInFlight := v5\<rparr>) = generation c"
  "generation (c\<lparr>cl_reservations := v6\<rparr>) = generation c" "generation (c\<lparr>cl_status := v7\<rparr>) = generation c"
  "generation (c\<lparr>cl_nextCommandSequence := v6\<rparr>) = generation c"
  by (simp_all add: generation_def)

lemma same_work_ok:
  assumes "same_work c d"
  shows "items_ok d = items_ok c" "modes_ok d = modes_ok c" "work_count d = work_count c" "generation d = generation c"
    "cl_stopping d = cl_stopping c"
proof -
  show g: "generation d = generation c" by (rule same_work_generation [OF assms])
  show "items_ok d = items_ok c" "modes_ok d = modes_ok c" "work_count d = work_count c" "cl_stopping d = cl_stopping c"
    using assms unfolding items_ok_def modes_ok_def work_count_def g by (simp_all add: same_work_def split: option.split)
qed

lemma acks_ok_same:
  assumes "same_work (lg_client l) (lg_client l')" "lg_worker l' = lg_worker l" "lg_ack l' = lg_ack l"
  shows "acks_ok l' = acks_ok l"
  using assms same_work_generation [OF assms(1)] by (simp add: acks_ok_def same_work_def Let_def)

text \<open>A section that leaves the work alone is right when the hands and the books are.\<close>

lemma same_work_ledger:
  assumes "ledger_ok l" "same_work (lg_client l) (lg_client l')" "lg_worker l' = lg_worker l" "lg_ack l' = lg_ack l"
    "room_ok (lg_client l')" "\<And>h. h \<in># lg_held l' \<Longrightarrow> held_reserved h \<and> held_generation h \<le> generation (lg_client l)" "books_ok l'"
  shows "ledger_ok l'"
proof (rule ledger_okI)
  note ok = ledger_okD [OF assms(1)]
  show "items_ok (lg_client l')" "modes_ok (lg_client l')" using ok same_work_ok [OF assms(2)] by simp_all
  show "acks_ok l'" using ok acks_ok_same [OF assms(2-4)] by simp
  show "hands_ok l'" using assms(3,6) ok(4) same_work_ok(4) [OF assms(2)] by (auto simp: hands_ok_def)
qed (rule assms)+

lemma quiet_ok:
  assumes ok: "ledger_ok l" and sw: "same_work (lg_client l) d" and sq: "same_queue (lg_client l) d"
  shows "ledger_ok (l\<lparr>lg_client := d\<rparr>)"
proof -
  have "room_ok d" using ledger_okD(1) [OF ok] room_ok_same [OF sq] by simp
  moreover have "books_ok (l\<lparr>lg_client := d\<rparr>)"
    using ledger_okD(6) [OF ok] same_work_ok [OF sw] sq by (simp add: books_ok_def owed_def same_queue_def)
  ultimately show ?thesis using ledger_okD(4) [OF ok] sw by (intro same_work_ledger [OF ok]) (auto simp: hands_ok_def)
qed

lemma notify_ok:
  assumes ok: "ledger_ok l"
  shows "ledger_ok (l\<lparr>lg_client := snd (NotifyJson dump gen j k sens None (lg_client l))\<rparr>)"
proof -
  obtain r d where n: "NotifyJson dump gen j k sens None (lg_client l) = (r, d)" by force
  have e: "same_work (lg_client l) d" "room_ok d" "cl_reservations d = cl_reservations (lg_client l)"
    using NotifyJson_effect [OF n ledger_okD(1) [OF ok]] by (auto simp: takes_place_def)
  have "books_ok (l\<lparr>lg_client := d\<rparr>)"
    using ledger_okD(6) [OF ok] same_work_ok [OF e(1)] e(3) by (simp add: books_ok_def owed_def)
  then show ?thesis unfolding n snd_conv using ledger_okD(4) [OF ok] e
    by (intro same_work_ledger [OF ok]) (auto simp: hands_ok_def)
qed

lemma hand_owed:
  assumes "ledger_ok l" "h \<in># lg_held l" "held_generation h = generation (lg_client l)"
  shows "cl_reservations (lg_client l) > 0"
  using ledger_okD(6) [OF assms(1)] hands_count_remove [OF assms(2), of "generation (lg_client l)"] assms(3)
  by (simp add: books_ok_def owed_def Let_def)

lemma hands_in: "ledger_ok l \<Longrightarrow> h \<in># lg_held l \<Longrightarrow> held_reserved h \<and> held_generation h \<le> generation (lg_client l)"
  by (simp add: ledger_ok_def hands_ok_def)

lemma answer_ok:
  assumes ok: "ledger_ok l" and h: "h \<in># lg_held l" and t: "message_type j = Some t" "IsProtectedInboundResult t"
    and n: "NotifyJson dump (held_generation h) j k sens (Some True) (lg_client l) = (r, d)"
  shows "ledger_ok (l\<lparr>lg_client := d, lg_held := lg_held l - {#h#}, lg_answered := lg_answered l + of_bool (r = Some False),
      lg_unprinted := lg_unprinted l + of_bool (r = Some True \<and> held_generation h = generation (lg_client l))\<rparr>)" (is "ledger_ok ?l")
proof -
  note e = NotifyJson_effect [OF n ledger_okD(1) [OF ok]]
  note o = hands_count_remove [OF h, of "generation (lg_client l)"]
  have sw: "same_work (lg_client l) d" using e by simp
  have "books_ok ?l"
  proof (cases "held_generation h = generation (lg_client l)")
    case True
    with hand_owed [OF ok h] have "takes_place (held_generation h) t (Some True) (lg_client l)" by (simp add: takes_place_def t)
    with e o True t ledger_okD(6) [OF ok] same_work_ok [OF sw] show ?thesis
      by (cases "printable dump t j") (auto simp: books_ok_def owed_def Let_def)
  next
    case False
    then have "\<not> takes_place (held_generation h) t (Some True) (lg_client l)" by (simp add: takes_place_def)
    with e o False t ledger_okD(6) [OF ok] same_work_ok [OF sw] show ?thesis
      by (auto simp: books_ok_def owed_def Let_def)
  qed
  with e hands_in [OF ok] show ?thesis by (intro same_work_ledger [OF ok]) (auto dest: in_diffD)
qed

lemma reserve_ok:
  assumes ok: "ledger_ok l" and r: "ReserveProtectedResult report (lg_client l) = (b, d)" "held_reserved h"
    "held_generation h = generation (lg_client l)"
  shows "ledger_ok (l\<lparr>lg_client := d, lg_held := (if b then add_mset h (lg_held l) else lg_held l),
      lg_accepted := lg_accepted l + of_bool b\<rparr>)"
proof -
  note e = Reserve_effect [OF r(1) ledger_okD(1) [OF ok]]
  then have sw: "same_work (lg_client l) d" by simp
  from e ledger_okD(6) [OF ok] same_work_ok [OF sw] r(3) hands_in [OF ok] r(2) show ?thesis
    by (intro same_work_ledger [OF ok]) (auto simp: books_ok_def owed_def Let_def)
qed

lemma release_ok:
  assumes ok: "ledger_ok l" and h: "HeldCommand cmd \<in># lg_held l"
  shows "ledger_ok (l\<lparr>lg_client := ReleaseRememberedJoinReservation cmd (lg_client l), lg_held := lg_held l - {#HeldCommand cmd#},
      lg_cancelled := lg_cancelled l + of_bool (generation (lg_client l) = cm_generation cmd)\<rparr>)"
proof -
  note o = hands_count_remove [OF h, of "generation (lg_client l)"]
  have rs: "cm_reservation cmd" using hands_in [OF ok h] by simp
  have pos: "cm_generation cmd = generation (lg_client l) \<Longrightarrow> cl_reservations (lg_client l) > 0" using hand_owed [OF ok h] by simp
  have sw: "same_work (lg_client l) (ReleaseRememberedJoinReservation cmd (lg_client l))"
    by (simp add: ReleaseRememberedJoinReservation_def same_work_def)
  have "room_ok (ReleaseRememberedJoinReservation cmd (lg_client l))"
    using ledger_okD(1) [OF ok] by (auto simp: room_ok_def ReleaseRememberedJoinReservation_def)
  moreover have "books_ok (l\<lparr>lg_client := ReleaseRememberedJoinReservation cmd (lg_client l), lg_held := lg_held l - {#HeldCommand cmd#},
      lg_cancelled := lg_cancelled l + of_bool (generation (lg_client l) = cm_generation cmd)\<rparr>)"
    using ledger_okD(6) [OF ok] same_work_ok [OF sw] o pos rs
    by (cases "generation (lg_client l) = cm_generation cmd") (auto simp: books_ok_def owed_def Let_def ReleaseRememberedJoinReservation_def)
  ultimately show ?thesis using sw hands_in [OF ok] by (intro same_work_ledger [OF ok]) (auto dest: in_diffD)
qed

lemma dispatch_ok:
  assumes ok: "ledger_ok l" and d: "DispatchMessage (lg_client l) = Some (m, current, d)"
  shows "ledger_ok (l\<lparr>lg_client := d\<rparr>)"
proof -
  obtain q where q: "cl_inbound (lg_client l) = m # q"
    "d = (lg_client l)\<lparr>cl_inbound := q, cl_queued := (if im_protected m \<and> cl_queued (lg_client l) > 0 then cl_queued (lg_client l) - 1 else cl_queued (lg_client l))\<rparr>"
    using d by (auto simp: DispatchMessage_def split: list.splits)
  have sw: "same_work (lg_client l) d" by (simp add: q(2) same_work_def)
  have "room_ok d" using ledger_okD(1) [OF ok] q(1) by (auto simp: room_ok_def q(2) split: if_splits)
  with sw ledger_okD(6) [OF ok] same_work_ok [OF sw] hands_in [OF ok] show ?thesis
    by (intro same_work_ledger [OF ok]) (auto simp: books_ok_def owed_def Let_def q(2))
qed

lemma start_ok: "ledger_ok l \<Longrightarrow> ledger_ok (l\<lparr>lg_client := snd (Start created (lg_client l))\<rparr>)"
  by (auto simp: Start_def set_text_def Let_def ledger_ok_def room_ok_def items_ok_def modes_ok_def hands_ok_def acks_ok_def books_ok_def
      owed_def work_count_def generation_def split: if_splits option.splits)

lemma abort_ok:
  assumes ok: "ledger_ok l" and h: "h \<in># lg_held l" "ShouldAbort (held_generation h) (lg_client l)"
  shows "ledger_ok (l\<lparr>lg_held := lg_held l - {#h#},
      lg_stopped := lg_stopped l + of_bool (held_generation h = generation (lg_client l))\<rparr>)"
proof -
  note o = hands_count_remove [OF h(1), of "generation (lg_client l)"]
  have "held_generation h = generation (lg_client l) \<Longrightarrow> cl_stopping (lg_client l)"
    using h(2) ledger_okD(3) [OF ok] by (auto simp: modes_ok_def ShouldAbort_def split: if_splits)
  with o ledger_okD(1,6) [OF ok] hands_in [OF ok] show ?thesis
    by (intro same_work_ledger [OF ok]) (auto simp: books_ok_def owed_def Let_def dest: in_diffD)
qed

subsection \<open>Sections that change the work\<close>

lemma Enqueue_accepted:
  assumes "EnqueueCommandLocked now gen kind a b r revision limit c = (True, d)"
  obtains x cmd where "ReserveProtectedResult True c = (True, x)" "generation c = gen"
    "cm_generation cmd = gen" "cm_reservation cmd" "cm_kind cmd = kind"
    "d = x\<lparr>cl_nextCommandSequence := cl_nextCommandSequence x + 1, cl_commands := cl_commands x @ [cmd]\<rparr>"
proof -
  have g: "generation c = gen" using assms by (auto simp: EnqueueCommandLocked_def split: if_splits)
  obtain x where x: "ReserveProtectedResult True c = (True, x)"
    using assms by (auto simp: EnqueueCommandLocked_def split: if_splits prod.splits bool.splits)
  define cmd where "cmd = \<lparr>cm_kind = kind, cm_argument = a, cm_secondArgument = b,
               cm_requestId = r, cm_generation = gen, cm_sequence = cl_nextCommandSequence x,
               cm_clientRevision = revision, cm_pageLimit = limit,
               cm_deadline = (if IsTransientRequest kind then Some (now + kTransientCommandTimeout) else None),
               cm_reservation = True\<rparr>"
  have d: "d = x\<lparr>cl_nextCommandSequence := cl_nextCommandSequence x + 1, cl_commands := cl_commands x @ [cmd]\<rparr>"
    using assms unfolding EnqueueCommandLocked_def x cmd_def [symmetric] by (simp split: if_splits add: cmd_def)
  then show ?thesis by (rule that [OF x g, rotated 3]) (simp_all add: cmd_def)
qed

lemma enqueue_ok:
  assumes ok: "ledger_ok l" and e: "EnqueueCommandLocked now gen kind a b r revision limit (lg_client l) = (done, d)" and k: "kind \<noteq> uploadSnapshot"
  shows "ledger_ok (l\<lparr>lg_client := d, lg_accepted := lg_accepted l + of_bool done\<rparr>)"
proof (cases "done")
  case False
  then have sw: "same_work (lg_client l) d" and rm: "room_ok d" "cl_reservations d = cl_reservations (lg_client l)"
    using e ledger_okD(1) [OF ok] Reserve_effect [of True "lg_client l" False]
    by (auto simp: EnqueueCommandLocked_def set_text_def same_work_def room_ok_def split: if_splits prod.splits bool.splits)
  then show ?thesis using ledger_okD(4,6) [OF ok] False same_work_ok [OF sw]
    by (intro same_work_ledger [OF ok]) (auto simp: hands_ok_def books_ok_def owed_def)
next
  case True
  obtain x cmd where x: "ReserveProtectedResult True (lg_client l) = (True, x)" "generation (lg_client l) = gen"
    "cm_generation cmd = gen" "cm_reservation cmd" "cm_kind cmd \<noteq> uploadSnapshot"
    "d = x\<lparr>cl_nextCommandSequence := cl_nextCommandSequence x + 1, cl_commands := cl_commands x @ [cmd]\<rparr>"
    using Enqueue_accepted [OF e [unfolded eqTrueI [OF True]]] k by metis
  note r = Reserve_effect [OF x(1) ledger_okD(1) [OF ok]]
  then have sw: "same_work (lg_client l) x" by simp
  note ok' = ledger_okD [OF ok]
  have g: "generation d = generation (lg_client l)" using same_work_ok(4) [OF sw] by (simp add: x(6) generation_def)
  have f: "cl_latestSnapshot d = cl_latestSnapshot x" "cl_pendingAcks d = cl_pendingAcks x" "cl_commands d = cl_commands x @ [cmd]"
    "cl_nextAckId d = cl_nextAckId x" "cl_configGeneration d = cl_configGeneration x" "cl_stopping d = cl_stopping x"
    "cl_stopRequested d = cl_stopRequested x" "cl_inbound d = cl_inbound x" "cl_queued d = cl_queued x" "cl_reservations d = cl_reservations x"
    by (simp_all add: x(6))
  have "room_ok d" using r by (simp add: room_ok_def f)
  moreover have "items_ok d" using ok'(2) sw x(2-5) by (simp add: items_ok_def f g same_work_def split: option.splits)
  moreover have "modes_ok d" using ok'(3) sw by (simp add: modes_ok_def f g same_work_def)
  moreover have "hands_ok (l\<lparr>lg_client := d, lg_accepted := lg_accepted l + of_bool done\<rparr>)" using ok'(4) by (simp add: hands_ok_def g)
  moreover have "acks_ok (l\<lparr>lg_client := d, lg_accepted := lg_accepted l + of_bool done\<rparr>)"
    using ok'(5) sw by (simp add: acks_ok_def g f same_work_def Let_def)
  moreover have "books_ok (l\<lparr>lg_client := d, lg_accepted := lg_accepted l + of_bool done\<rparr>)"
    using ok'(6) sw r True by (simp add: books_ok_def owed_def work_count_def g f same_work_def Let_def)
  ultimately show ?thesis by (simp add: ledger_ok_def)
qed

lemma place_ok:
  assumes ok: "ledger_ok l" and p: "place_snapshot gen revision js (lg_client l) = (placed, old, d)"
  shows "ledger_ok (l\<lparr>lg_client := d, lg_held := (case old of None \<Rightarrow> lg_held l | Some s \<Rightarrow> add_mset (HeldSnapshot s) (lg_held l)),
      lg_accepted := lg_accepted l + of_bool placed\<rparr>)" (is "ledger_ok ?l")
proof (cases placed)
  case False
  then have o: "old = None" and sw: "same_work (lg_client l) d" and rm: "room_ok d" "cl_reservations d = cl_reservations (lg_client l)"
    using p ledger_okD(1) [OF ok] Reserve_effect [of True "lg_client l" False]
    by (auto simp: place_snapshot_def set_text_def same_work_def room_ok_def split: if_splits prod.splits bool.splits)
  then show ?thesis using ledger_okD(4,6) [OF ok] False same_work_ok [OF sw]
    by (intro same_work_ledger [OF ok]) (auto simp: hands_ok_def books_ok_def owed_def)
next
  case True
  note ok' = ledger_okD [OF ok]
  obtain x s where x: "ReserveProtectedResult True (lg_client l) = (True, x)" "generation (lg_client l) = gen"
      "old = cl_latestSnapshot x" "ps_generation s = gen" "ps_reservation s" "d = x\<lparr>cl_latestSnapshot := Some s\<rparr>"
  proof -
    have g: "generation (lg_client l) = gen" using p True by (auto simp: place_snapshot_def split: if_splits)
    obtain x where x: "ReserveProtectedResult True (lg_client l) = (True, x)"
      using p True by (auto simp: place_snapshot_def split: if_splits prod.splits bool.splits)
    have d: "d = x\<lparr>cl_latestSnapshot := Some \<lparr>ps_generation = gen, ps_clientRevision = revision, ps_jsonText = js, ps_reservation = True\<rparr>\<rparr>"
      "old = cl_latestSnapshot x" using p True unfolding place_snapshot_def x by (auto split: if_splits)
    show ?thesis by (rule that [OF x g d(2) _ _ d(1)]) simp_all
  qed
  note r = Reserve_effect [OF x(1) ok'(1)]
  then have sw: "same_work (lg_client l) x" by simp
  note sw' = sw [unfolded same_work_def] and g = same_work_ok(4) [OF sw]
  have "room_ok d" using r by (simp add: room_ok_def x(6))
  moreover have "items_ok d" using ok'(2) sw' g x(2,4,5) by (simp add: items_ok_def x(6) split: option.splits)
  moreover have "modes_ok d" using ok'(3) sw' g by (simp add: modes_ok_def x(6))
  moreover have "hands_ok ?l" using ok'(2,4) sw' g by (auto simp: hands_ok_def items_ok_def x(3,6) split: option.splits)
  moreover have "acks_ok ?l" using ok'(5) sw' g by (simp add: acks_ok_def x(6) Let_def)
  moreover have "books_ok ?l"
    using ok'(2,6) sw' g r True by (cases old) (auto simp: books_ok_def items_ok_def owed_def work_count_def x(6) Let_def simp flip: x(3))
  ultimately show ?thesis by (simp add: ledger_ok_def)
qed

lemma cancel_effect:
  assumes "CancelRequest r c = (b, d)" "items_ok c"
  shows "\<exists>cs as. d = c\<lparr>cl_commands := cs, cl_pendingAcks := as, cl_reservations := cl_reservations c - (work_count c - work_count d)\<rparr> \<and>
    set cs \<subseteq> set (cl_commands c) \<and> (\<exists>P. as = filter P (cl_pendingAcks c)) \<and> work_count d \<le> work_count c"
proof (cases "r = [] \<or> length r > 128")
  case True
  then show ?thesis using assms(1) by (auto simp: CancelRequest_def intro!: exI [of _ "\<lambda>_. True"] exI [of _ "cl_commands c"] exI [of _ "cl_pendingAcks c"])
next
  case False
  let ?cs = "filter (cancels_command r) (cl_commands c)" and ?as = "filter (cancels_ack r \<circ> snd) (cl_pendingAcks c)"
  have "list_all cm_reservation ?cs" "list_all (pa_reservation \<circ> snd) ?as"
    using assms(2) by (auto simp: items_ok_def list_all_iff)
  from Release_fold [OF this(1)] Release_fold [OF this(2)]
  have d: "d = c\<lparr>cl_commands := filter (Not \<circ> cancels_command r) (cl_commands c),
      cl_pendingAcks := filter (Not \<circ> cancels_ack r \<circ> snd) (cl_pendingAcks c),
      cl_reservations := cl_reservations c - length ?cs - length ?as\<rparr>"
    using assms(1) False by (auto simp: CancelRequest_def Let_def comp_def)
  have "length (cl_commands c) = length ?cs + length (filter (Not \<circ> cancels_command r) (cl_commands c))"
    "length (cl_pendingAcks c) = length ?as + length (filter (Not \<circ> cancels_ack r \<circ> snd) (cl_pendingAcks c))"
    using sum_length_filter_compl [of "cancels_command r" "cl_commands c"] sum_length_filter_compl [of "cancels_ack r \<circ> snd" "cl_pendingAcks c"]
    by (simp_all add: comp_def)
  then have "work_count c - work_count d = length ?cs + length ?as" "work_count d \<le> work_count c" by (simp_all add: work_count_def d)
  then show ?thesis unfolding d by (auto intro!: exI)
qed

lemma cancel_ok:
  assumes ok: "ledger_ok l" and c: "CancelRequest r (lg_client l) = (b, d)"
  shows "ledger_ok (l\<lparr>lg_client := d, lg_cancelled := lg_cancelled l + (work_count (lg_client l) - work_count d)\<rparr>)" (is "ledger_ok ?l")
proof -
  note ok' = ledger_okD [OF ok]
  obtain cs as P where d: "d = (lg_client l)\<lparr>cl_commands := cs, cl_pendingAcks := as,
        cl_reservations := cl_reservations (lg_client l) - (work_count (lg_client l) - work_count d)\<rparr>"
      "set cs \<subseteq> set (cl_commands (lg_client l))" "as = filter P (cl_pendingAcks (lg_client l))" "work_count d \<le> work_count (lg_client l)"
    using cancel_effect [OF c ok'(2)] by metis
  define n where "n = work_count (lg_client l) - work_count d"
  note d1 = d(1) [folded n_def]
  have "room_ok d" using ok'(1) by (auto simp: d1 room_ok_def)
  moreover have "items_ok d" using ok'(2) d(2) by (auto simp: d1 d(3) items_ok_def list_all_iff)
  moreover have "modes_ok d" using ok'(3) by (simp add: d1 modes_ok_def)
  moreover have "hands_ok ?l" using ok'(4) by (simp add: d1 hands_ok_def)
  moreover have "acks_ok ?l"
    using ok'(5) by (auto simp: d1 d(3) acks_ok_def Let_def distinct_map_filter intro: le_trans [OF length_filter_le] le_less_trans [OF length_filter_le])
  moreover have "books_ok ?l"
  proof -
    have "work_count (lg_client l) = n + work_count d" using d(4) by (simp add: n_def)
    moreover have "generation d = generation (lg_client l)" "cl_stopping d = cl_stopping (lg_client l)"
      "cl_reservations d = cl_reservations (lg_client l) - n" by (simp_all add: d1)
    ultimately show ?thesis using ok'(6) by (simp add: books_ok_def owed_def Let_def flip: n_def)
  qed
  ultimately show ?thesis by (simp add: ledger_ok_def)
qed

text \<open>Taking items out of the queues: what is taken is in the hands of the thread or counted as lost.\<close>

lemma take_ledger:
  assumes ok: "ledger_ok l"
    and same: "same_queue (lg_client l) (lg_client l')" "cl_config (lg_client l') = cl_config (lg_client l)"
      "cl_configGeneration (lg_client l') = cl_configGeneration (lg_client l)" "cl_stopping (lg_client l') = cl_stopping (lg_client l)"
      "cl_stopRequested (lg_client l') = cl_stopRequested (lg_client l)" "cl_nextAckId (lg_client l') = cl_nextAckId (lg_client l)"
    and sub: "set (cl_commands (lg_client l')) \<subseteq> set (cl_commands (lg_client l))"
      "cl_latestSnapshot (lg_client l') \<in> {None, cl_latestSnapshot (lg_client l)}"
      "cl_pendingAcks (lg_client l') = filter P (cl_pendingAcks (lg_client l))"
    and K: "\<And>h. h \<in># K \<Longrightarrow> held_reserved h \<and> held_generation h = generation (lg_client l)"
    and count: "work_count (lg_client l) = work_count (lg_client l') + size K + n"
    and l': "lg_held l' = lg_held l + K" "lg_worker l' = lg_worker l" "lg_ack l' = lg_ack l" "lg_accepted l' = lg_accepted l"
      "lg_answered l' = lg_answered l" "lg_cancelled l' = lg_cancelled l" "lg_unprinted l' = lg_unprinted l"
      "lg_overrun l' = lg_overrun l + n" "lg_stopped l' = lg_stopped l"
  shows "ledger_ok l'"
proof -
  note ok' = ledger_okD [OF ok]
  have g: "generation (lg_client l') = generation (lg_client l)" by (simp add: generation_def same)
  have "hands_count (generation (lg_client l)) K = size K"
    unfolding hands_count_def using K by (metis (mono_tags, lifting) filter_mset_cong filter_mset_True)
  with count have "books_ok l'" using ok'(6) same(1,4) by (simp add: books_ok_def owed_def l' g same_queue_def Let_def)
  moreover have "room_ok (lg_client l')" using ok'(1) room_ok_same [OF same(1)] by simp
  moreover have "items_ok (lg_client l')" using ok'(2) sub by (auto simp: items_ok_def g list_all_iff)
  moreover have "modes_ok (lg_client l')" using ok'(3) by (simp add: modes_ok_def same g)
  moreover have "hands_ok l'" using ok'(4) K by (auto simp: hands_ok_def l' g)
  moreover have "acks_ok l'"
    using ok'(5) by (auto simp: acks_ok_def Let_def sub(3) l' g same distinct_map_filter
        intro: le_trans [OF length_filter_le] le_less_trans [OF length_filter_le])
  ultimately show ?thesis by (simp add: ledger_ok_def)
qed

lemma extract_first_effect:
  "extract_first P xs = Some (x, ys) \<Longrightarrow> P x \<and> x \<in> set xs \<and> set ys \<subseteq> set xs \<and> length xs = Suc (length ys)"
  by (induction xs arbitrary: ys) (auto split: if_splits)

lemma command_ok: "ledger_ok l \<Longrightarrow> cmd \<in> set (cl_commands (lg_client l)) \<Longrightarrow> cm_generation cmd = generation (lg_client l) \<and> cm_reservation cmd \<and> cm_kind cmd \<noteq> uploadSnapshot"
  by (auto simp: ledger_ok_def items_ok_def list_all_iff)

lemma ack_ok: "ledger_ok l \<Longrightarrow> e \<in> set (cl_pendingAcks (lg_client l)) \<Longrightarrow> pa_reservation (snd e)"
  by (auto simp: ledger_ok_def items_ok_def list_all_iff)

lemma filter_True_id: "xs = filter (\<lambda>_. True) xs" by simp

lemma pop_registration_ok:
  assumes ok: "ledger_ok l" and p: "PopRegistrationCommand (lg_worker l) (lg_client l) = Some (cmd, d)"
  shows "ledger_ok (l\<lparr>lg_client := d, lg_held := add_mset (HeldCommand cmd) (lg_held l)\<rparr>)"
proof -
  obtain rest where e: "extract_first (is_registration (lg_worker l)) (cl_commands (lg_client l)) = Some (cmd, rest)"
    and d: "d = (lg_client l)\<lparr>cl_commands := rest\<rparr>" using p by (auto simp: PopRegistrationCommand_def)
  note x = extract_first_effect [OF e]
  from x command_ok [OF ok] show ?thesis
    by (intro take_ledger [OF ok, where K="{#HeldCommand cmd#}" and n=0 and P="\<lambda>_. True"]) (auto simp: d same_queue_def work_count_def)
qed

lemma pop_effect:
  assumes "pop_command gen c = (cmd, d)"
  obtains cs where "d = c\<lparr>cl_commands := cs\<rparr>" "set cs \<subseteq> set (cl_commands c)" "set_option cmd \<subseteq> set (cl_commands c)"
    "length cs + (if cmd = None then 0 else 1) \<le> length (cl_commands c)"
proof -
  define cs where "cs = dropWhile (\<lambda>cmd. cm_generation cmd \<noteq> gen) (cl_commands c)"
  have sub: "set cs \<subseteq> set (cl_commands c)" "length cs \<le> length (cl_commands c)"
    unfolding cs_def by (auto dest: set_dropWhileD simp: length_dropWhile_le)
  have "d = c\<lparr>cl_commands := (if cmd = None then cs else tl cs)\<rparr> \<and> (cmd = None \<or> cs \<noteq> [] \<and> cmd = Some (hd cs))"
    using assms unfolding pop_command_def cs_def [symmetric] Let_def by (auto split: list.splits if_splits)
  then show ?thesis using sub by (intro that [of "if cmd = None then cs else tl cs"]) (cases cs; auto)+
qed

lemma pop_ok:
  assumes ok: "ledger_ok l" and p: "pop_command (lg_worker l) (lg_client l) = (cmd, d)"
  shows "ledger_ok (l\<lparr>lg_client := d,
      lg_held := (case cmd of None \<Rightarrow> lg_held l | Some x \<Rightarrow> add_mset (HeldCommand x) (lg_held l)),
      lg_overrun := lg_overrun l + (work_count (lg_client l) - work_count d - (if cmd = None then 0 else 1))\<rparr>)"
proof -
  obtain cs where d: "d = (lg_client l)\<lparr>cl_commands := cs\<rparr>" and cs: "set cs \<subseteq> set (cl_commands (lg_client l))"
      "set_option cmd \<subseteq> set (cl_commands (lg_client l))" "length cs + (if cmd = None then 0 else 1) \<le> length (cl_commands (lg_client l))"
    using pop_effect [OF p] by metis
  show ?thesis
    using cs command_ok [OF ok]
    by (intro take_ledger [OF ok, where K="case cmd of None \<Rightarrow> {#} | Some x \<Rightarrow> {#HeldCommand x#}" and P="\<lambda>_. True"
          and n="work_count (lg_client l) - work_count d - (if cmd = None then 0 else 1)"])
      (auto simp: d same_queue_def work_count_def split: option.splits)
qed

lemma take_snapshot_ok:
  assumes ok: "ledger_ok l" and t: "TakeLatestSnapshotForSend (lg_worker l) (lg_client l) = (Some s, d)"
  shows "ledger_ok (l\<lparr>lg_client := d, lg_held := add_mset (HeldSnapshot s) (lg_held l)\<rparr>)"
proof -
  have d: "d = (lg_client l)\<lparr>cl_latestSnapshot := None\<rparr>" and s: "cl_latestSnapshot (lg_client l) = Some s"
    using t by (auto simp: TakeLatestSnapshotForSend_def split: option.splits if_splits)
  from s ledger_okD(2) [OF ok] show ?thesis
    by (intro take_ledger [OF ok, where K="{#HeldSnapshot s#}" and n=0 and P="\<lambda>_. True"])
      (auto simp: d same_queue_def work_count_def items_ok_def)
qed

lemma settle_join_simps [simp]:
  "cl_config (settle_join g c) = cl_config c" "cl_commands (settle_join g c) = cl_commands c"
  "cl_latestSnapshot (settle_join g c) = cl_latestSnapshot c" "cl_pendingAcks (settle_join g c) = cl_pendingAcks c"
  "cl_nextAckId (settle_join g c) = cl_nextAckId c" "cl_configGeneration (settle_join g c) = cl_configGeneration c"
  "cl_stopping (settle_join g c) = cl_stopping c" "cl_stopRequested (settle_join g c) = cl_stopRequested c"
  "cl_inbound (settle_join g c) = cl_inbound c" "cl_queued (settle_join g c) = cl_queued c"
  "cl_reservations (settle_join g c) = cl_reservations c" "generation (settle_join g c) = generation c"
  by (simp_all add: settle_join_def Let_def generation_def)

lemma filter_key_length:
  "distinct (map fst xs) \<Longrightarrow> map_of xs k = Some v \<Longrightarrow> length xs = Suc (length (filter (\<lambda>e. fst e \<noteq> k) xs))"
proof (induction xs)
  case (Cons x xs)
  obtain a b where x: "x = (a, b)" by force
  have "k \<notin> fst ` set xs \<Longrightarrow> filter (\<lambda>e. fst e \<noteq> k) xs = xs" by (auto simp: filter_id_conv)
  with Cons show ?case by (cases "a = k") (simp_all add: x)
qed simp

lemma take_ack_ok:
  assumes ok: "ledger_ok l" and t: "take_ack (lg_worker l) i (lg_client l) = (Some p, d)"
  shows "ledger_ok (l\<lparr>lg_client := d, lg_held := add_mset (HeldAck (lg_worker l) p) (lg_held l)\<rparr>)"
proof -
  let ?as = "filter (\<lambda>e. fst e \<noteq> i) (cl_pendingAcks (lg_client l))"
  have g: "generation (lg_client l) = lg_worker l" and p: "map_of (cl_pendingAcks (lg_client l)) i = Some p"
    and d: "d = (let c = (lg_client l)\<lparr>cl_pendingAcks := ?as\<rparr> in if pa_kind p = joinRoom then settle_join (lg_worker l) c else c)"
    using t by (auto simp: take_ack_def Let_def split: if_splits option.splits)
  have len: "length (cl_pendingAcks (lg_client l)) = Suc (length ?as)"
    using filter_key_length [OF _ p] ledger_okD(5) [OF ok] by (simp add: acks_ok_def Let_def)
  have "pa_reservation p" using ack_ok [OF ok map_of_SomeD [OF p]] by simp
  with len g show ?thesis
    by (intro take_ledger [OF ok, where K="{#HeldAck (lg_worker l) p#}" and n=0 and P="\<lambda>e. fst e \<noteq> i"])
      (auto simp: d same_queue_def work_count_def Let_def)
qed

lemma take_expired_ok:
  assumes ok: "ledger_ok l" and t: "take_expired_acks now (lg_worker l) (lg_client l) = (ps, d)"
  shows "ledger_ok (l\<lparr>lg_client := d, lg_held := lg_held l + mset (map (HeldAck (lg_worker l)) ps)\<rparr>)"
proof (cases "generation (lg_client l) = lg_worker l")
  case False
  then have "ps = []" "d = lg_client l" using t by (auto simp: take_expired_acks_def)
  with ok show ?thesis by simp
next
  case True
  let ?P = "\<lambda>e. pa_deadline (snd e) \<le> now"
  have ps: "ps = map snd (filter ?P (cl_pendingAcks (lg_client l)))"
    and d: "d = (let c = (lg_client l)\<lparr>cl_pendingAcks := filter (\<lambda>e. \<not> ?P e) (cl_pendingAcks (lg_client l))\<rparr> in
              if list_ex (\<lambda>p. pa_kind p = joinRoom) ps then settle_join (lg_worker l) c else c)"
    using t True by (auto simp: take_expired_acks_def Let_def)
  have "length (cl_pendingAcks (lg_client l)) = length ps + length (filter (\<lambda>e. \<not> ?P e) (cl_pendingAcks (lg_client l)))"
    using sum_length_filter_compl [of ?P "cl_pendingAcks (lg_client l)"] by (simp add: ps)
  moreover have "p \<in> set ps \<Longrightarrow> pa_reservation p" for p using ack_ok [OF ok] by (auto simp: ps)
  ultimately show ?thesis using True
    by (intro take_ledger [OF ok, where K="mset (map (HeldAck (lg_worker l)) ps)" and n=0 and P="\<lambda>e. \<not> ?P e"])
      (auto simp: d same_queue_def work_count_def Let_def)
qed

lemma take_commands_ok:
  assumes ok: "ledger_ok l" and t: "take_commands (lg_worker l) P (lg_client l) = (cs, d)"
  shows "ledger_ok (l\<lparr>lg_client := d, lg_held := lg_held l + mset (map HeldCommand cs)\<rparr>)"
proof (cases "generation (lg_client l) = lg_worker l")
  case False
  then have "cs = []" "d = lg_client l" using t by (auto simp: take_commands_def)
  with ok show ?thesis by simp
next
  case True
  define Q where "Q = (\<lambda>cmd. cm_generation cmd = lg_worker l \<and> IsTransientRequest (cm_kind cmd) \<and> P cmd)"
  have cs: "cs = filter Q (cl_commands (lg_client l))" and d: "d = (lg_client l)\<lparr>cl_commands := filter (\<lambda>cmd. \<not> Q cmd) (cl_commands (lg_client l))\<rparr>"
    using t True by (auto simp: take_commands_def Q_def)
  have "length (cl_commands (lg_client l)) = length cs + length (filter (\<lambda>cmd. \<not> Q cmd) (cl_commands (lg_client l)))"
    using sum_length_filter_compl [of Q "cl_commands (lg_client l)"] by (simp add: cs)
  moreover have "cmd \<in> set cs \<Longrightarrow> cm_generation cmd = lg_worker l \<and> cm_reservation cmd \<and> cm_kind cmd \<noteq> uploadSnapshot" for cmd
    using command_ok [OF ok] True by (auto simp: cs)
  ultimately show ?thesis using True
    by (intro take_ledger [OF ok, where K="mset (map HeldCommand cs)" and n=0 and P="\<lambda>_. True"])
      (auto simp: d same_queue_def work_count_def)
qed

lemma take_pending_ok:
  assumes ok: "ledger_ok l" and t: "take_pending_acks (lg_worker l) (lg_client l) = (ps, d)"
  shows "ledger_ok (l\<lparr>lg_client := d, lg_held := lg_held l + mset (map (HeldAck (lg_worker l)) ps)\<rparr>)"
proof (cases "generation (lg_client l) = lg_worker l")
  case False
  then have "ps = []" "d = lg_client l" using t by (auto simp: take_pending_acks_def)
  with ok show ?thesis by simp
next
  case True
  let ?c = "(lg_client l)\<lparr>cl_pendingAcks := []\<rparr>"
  have ps: "ps = map snd (cl_pendingAcks (lg_client l))" and d: "cl_commands d = cl_commands ?c" "cl_pendingAcks d = []"
      "cl_latestSnapshot d = cl_latestSnapshot ?c" "cl_config d = cl_config ?c" "cl_configGeneration d = cl_configGeneration ?c"
      "cl_stopping d = cl_stopping ?c" "cl_stopRequested d = cl_stopRequested ?c" "cl_nextAckId d = cl_nextAckId ?c" "same_queue ?c d"
    using t True by (auto simp: take_pending_acks_def Let_def same_queue_def split: if_splits)
  have "p \<in> set ps \<Longrightarrow> pa_reservation p" for p using ack_ok [OF ok] by (auto simp: ps)
  moreover have "length ps = length (cl_pendingAcks (lg_client l))" by (simp add: ps)
  ultimately show ?thesis using True d
    by (intro take_ledger [OF ok, where K="mset (map (HeldAck (lg_worker l)) ps)" and n=0 and P="\<lambda>_. False"])
      (auto simp: same_queue_def work_count_def)
qed

subsection \<open>Configurations and the worker thread\<close>

lemma fresh_books:
  assumes hands: "\<And>h. h \<in># lg_held l \<Longrightarrow> held_reserved h \<and> held_generation h < generation d" and w: "lg_worker l < generation d"
    and c: "cl_commands d = []" "cl_latestSnapshot d = None" "cl_pendingAcks d = []" "cl_inbound d = []" "cl_queued d = 0"
      "cl_reservations d = 0" "modes_ok d"
  shows "ledger_ok (close_books (l\<lparr>lg_client := d\<rparr>))"
proof -
  have "hands_count (generation d) (lg_held l) = 0" by (rule hands_count_fresh) (simp add: hands)
  with hands w c show ?thesis
    by (auto simp: ledger_ok_def close_books_def room_ok_def items_ok_def hands_ok_def acks_ok_def books_ok_def owed_def work_count_def
        kMaxInboundMessageQueueSize_def Let_def order_less_imp_le)
qed

lemma configure_ok:
  assumes ok: "ledger_ok l" and run: "\<not> cl_stopping (lg_client l)"
  shows "ledger_ok (close_books (l\<lparr>lg_client := snd (ApplyConfig parsed valid (lg_client l))\<rparr>))"
proof (rule fresh_books)
  note m = ledger_okD(3) [OF ok, unfolded modes_ok_def] run
  have g: "generation (snd (ApplyConfig parsed valid (lg_client l))) = cl_configGeneration (lg_client l) + 1"
    by (simp add: ApplyConfig_def Let_def generation_def)
  with hands_in [OF ok] m show "h \<in># lg_held l \<Longrightarrow> held_reserved h \<and> held_generation h < generation (snd (ApplyConfig parsed valid (lg_client l)))" for h
    by (auto simp: less_Suc_eq_le)
  from g m ledger_okD(4) [OF ok] show "lg_worker l < generation (snd (ApplyConfig parsed valid (lg_client l)))"
    by (auto simp: hands_ok_def)
  from g m show "modes_ok (snd (ApplyConfig parsed valid (lg_client l)))"
    by (simp add: modes_ok_def) (simp add: ApplyConfig_def clear_work_def Let_def)
qed (simp_all add: ApplyConfig_def clear_work_def Let_def)

lemma stop_end_ok:
  assumes ok: "ledger_ok l" and run: "cl_stopping (lg_client l)"
  shows "ledger_ok (close_books (l\<lparr>lg_client := StopEnd (cl_configGeneration (lg_client l)) (lg_client l)\<rparr>))"
proof (rule fresh_books)
  note m = ledger_okD(3) [OF ok, unfolded modes_ok_def] run
  have g: "generation (StopEnd (cl_configGeneration (lg_client l)) (lg_client l)) = cl_configGeneration (lg_client l)"
    by (simp add: StopEnd_def generation_def)
  from hands_in [OF ok] m show "h \<in># lg_held l \<Longrightarrow> held_reserved h \<and> held_generation h < generation (StopEnd (cl_configGeneration (lg_client l)) (lg_client l))" for h
    by (auto simp: g intro: le_less_trans)
  from m ledger_okD(4) [OF ok] show "lg_worker l < generation (StopEnd (cl_configGeneration (lg_client l)) (lg_client l))"
    by (auto simp: g hands_ok_def)
  show "modes_ok (StopEnd (cl_configGeneration (lg_client l)) (lg_client l))"
    by (simp add: modes_ok_def g) (simp add: StopEnd_def clear_work_def)
qed (simp_all add: StopEnd_def clear_work_def)

lemma stop_begin_ok: "ledger_ok l \<Longrightarrow> \<not> cl_stopping (lg_client l) \<Longrightarrow> ledger_ok (l\<lparr>lg_client := StopBegin (lg_client l)\<rparr>)"
  by (auto simp: StopBegin_def ledger_ok_def room_ok_def items_ok_def modes_ok_def hands_ok_def acks_ok_def books_ok_def
      owed_def work_count_def generation_def Let_def)

lemma copy_config_ok: "ledger_ok l \<Longrightarrow> ledger_ok (l\<lparr>lg_worker := generation (lg_client l), lg_ack := None\<rparr>)"
  by (auto simp: ledger_ok_def hands_ok_def acks_ok_def books_ok_def owed_def Let_def)

lemma clear_acks_ok:
  assumes ok: "ledger_ok l" and a: "ShouldAbort (lg_worker l) (lg_client l)"
  shows "ledger_ok (l\<lparr>lg_client := ClearPendingAcksLocked (lg_client l), lg_ack := None,
      lg_stopped := lg_stopped l + length (cl_pendingAcks (lg_client l))\<rparr>)"
proof -
  note ok' = ledger_okD [OF ok]
  have "cl_pendingAcks (lg_client l) \<noteq> [] \<Longrightarrow> cl_stopping (lg_client l)"
    using a ok'(3,5) by (auto simp: ShouldAbort_def modes_ok_def acks_ok_def Let_def split: if_splits)
  with ok' show ?thesis
    by (auto simp: ledger_ok_def ClearPendingAcksLocked_def room_ok_def items_ok_def modes_ok_def hands_ok_def acks_ok_def books_ok_def
        owed_def work_count_def Let_def generation_def)
qed

lemma word_less_succ: "x \<noteq> - 1 \<Longrightarrow> x < x + (1 :: u64)"
proof -
  assume "x \<noteq> - 1"
  then have "1 + x \<noteq> 0" by (metis add.commute add_eq_0_iff)
  from unatSuc [OF this] show ?thesis by (simp add: word_less_nat_alt add.commute)
qed

lemma take_number_ok:
  assumes ok: "ledger_ok l" and g: "generation (lg_client l) = lg_worker l" "length (cl_pendingAcks (lg_client l)) < kMaxPendingAcks"
    and n: "next_ack (lg_client l) = Some (i, d)"
  shows "ledger_ok (l\<lparr>lg_client := d, lg_ack := Some i\<rparr>)" (is "ledger_ok ?l")
proof -
  note ok' = ledger_okD [OF ok]
  have i: "i = cl_nextAckId (lg_client l)" "i < i + 1" and d: "d = (lg_client l)\<lparr>cl_nextAckId := i + 1\<rparr>"
    using n word_less_succ by (auto simp: next_ack_def split: if_splits)
  have "\<forall>j \<in> fst ` set (cl_pendingAcks (lg_client l)). j < i" using ok'(5) i by (auto simp: acks_ok_def Let_def)
  then have "acks_ok ?l" using ok'(5) i(2) g by (auto simp: acks_ok_def Let_def d intro: order_less_trans)
  with ok' show ?thesis
    by (simp add: ledger_ok_def room_ok_def items_ok_def modes_ok_def hands_ok_def books_ok_def owed_def work_count_def d)
qed

text \<open>An obligation goes from the hands of a thread back into a queue.\<close>

lemma return_ledger:
  assumes ok: "ledger_ok l" and h: "h \<in># lg_held l" "held_generation h = generation (lg_client l)"
    and same: "same_queue (lg_client l) (lg_client l')" "cl_config (lg_client l') = cl_config (lg_client l)"
      "cl_configGeneration (lg_client l') = cl_configGeneration (lg_client l)" "cl_stopping (lg_client l') = cl_stopping (lg_client l)"
      "cl_stopRequested (lg_client l') = cl_stopRequested (lg_client l)"
    and work: "items_ok (lg_client l')" "acks_ok l'" "work_count (lg_client l') = Suc (work_count (lg_client l))"
    and l': "lg_held l' = lg_held l - {#h#}" "lg_worker l' = lg_worker l" "lg_accepted l' = lg_accepted l"
      "lg_answered l' = lg_answered l" "lg_cancelled l' = lg_cancelled l" "lg_unprinted l' = lg_unprinted l"
      "lg_overrun l' = lg_overrun l" "lg_stopped l' = lg_stopped l"
  shows "ledger_ok l'"
proof -
  note ok' = ledger_okD [OF ok]
  have g: "generation (lg_client l') = generation (lg_client l)" by (simp add: generation_def same)
  note o = hands_count_remove [OF h(1), of "generation (lg_client l)"]
  have "books_ok l'" using ok'(6) same(1,4) o h(2) work(3) by (simp add: books_ok_def owed_def l' g same_queue_def Let_def)
  moreover have "room_ok (lg_client l')" using ok'(1) room_ok_same [OF same(1)] by simp
  moreover have "modes_ok (lg_client l')" using ok'(3) by (simp add: modes_ok_def same g)
  moreover have "hands_ok l'" using ok'(4) by (auto simp: hands_ok_def l' g dest: in_diffD)
  ultimately show ?thesis using work by (simp add: ledger_ok_def)
qed

lemma stale_ledger:
  assumes ok: "ledger_ok l" and h: "h \<in># lg_held l" "held_generation h \<noteq> generation (lg_client l)"
  shows "ledger_ok (l\<lparr>lg_held := lg_held l - {#h#}\<rparr>)"
  using hands_count_remove [OF h(1), of "generation (lg_client l)"] h(2) ledger_okD(1,6) [OF ok] hands_in [OF ok]
  by (intro same_work_ledger [OF ok]) (auto simp: books_ok_def owed_def Let_def dest: in_diffD)

lemma emplace_effect:
  assumes ok: "ledger_ok l" and a: "lg_ack l = Some i" "generation (lg_client l) = lg_worker l"
  shows "emplace_ack i p (lg_client l) = (lg_client l)\<lparr>cl_pendingAcks := cl_pendingAcks (lg_client l) @ [(i, p)]\<rparr>"
    "i \<notin> fst ` set (cl_pendingAcks (lg_client l))" "length (cl_pendingAcks (lg_client l)) < kMaxPendingAcks" "i < cl_nextAckId (lg_client l)"
proof -
  show "i \<notin> fst ` set (cl_pendingAcks (lg_client l))" "length (cl_pendingAcks (lg_client l)) < kMaxPendingAcks" "i < cl_nextAckId (lg_client l)"
    using ledger_okD(5) [OF ok] a by (auto simp: acks_ok_def Let_def)
  then have "map_of (cl_pendingAcks (lg_client l)) i = None" by (simp add: map_of_eq_None_iff)
  then show "emplace_ack i p (lg_client l) = (lg_client l)\<lparr>cl_pendingAcks := cl_pendingAcks (lg_client l) @ [(i, p)]\<rparr>"
    by (simp add: emplace_ack_def)
qed

lemma emplace_ok:
  assumes ok: "ledger_ok l" and h: "h \<in># lg_held l" "held_generation h = lg_worker l" and i: "lg_ack l = Some i"
    and g: "generation (lg_client l) = lg_worker l"
    and p: "pa_reservation p" "IsProtectedInboundResult (pa_resultType p)"
    and d: "cl_pendingAcks d = cl_pendingAcks (emplace_ack i p (lg_client l))" "same_queue (lg_client l) d"
      "cl_config d = cl_config (lg_client l)" "cl_configGeneration d = cl_configGeneration (lg_client l)" "cl_stopping d = cl_stopping (lg_client l)"
      "cl_stopRequested d = cl_stopRequested (lg_client l)" "cl_commands d = cl_commands (lg_client l)"
      "cl_latestSnapshot d = cl_latestSnapshot (lg_client l)" "cl_nextAckId d = cl_nextAckId (lg_client l)"
  shows "ledger_ok (l\<lparr>lg_client := d, lg_held := lg_held l - {#h#}, lg_ack := None\<rparr>)" (is "ledger_ok ?l")
proof -
  note ok' = ledger_okD [OF ok]
  note e = emplace_effect [OF ok i g]
  have ad: "cl_pendingAcks d = cl_pendingAcks (lg_client l) @ [(i, p)]" by (simp add: d e(1))
  have g': "generation d = generation (lg_client l)" by (simp add: generation_def d)
  have "items_ok d" using ok'(2) p by (simp add: items_ok_def ad d g')
  moreover have "acks_ok ?l" using ok'(5) e(2-4) g by (auto simp: acks_ok_def Let_def ad d g')
  moreover have "work_count d = Suc (work_count (lg_client l))" by (simp add: work_count_def ad d)
  ultimately show ?thesis using d h g by (intro return_ledger [OF ok h(1)]) auto
qed

lemma track_ok:
  assumes ok: "ledger_ok l" and h: "HeldCommand cmd \<in># lg_held l" "cm_generation cmd = lg_worker l" and i: "lg_ack l = Some i"
    and t: "track_command now (lg_worker l) i cmd (lg_client l) = (True, cmd', d)"
  shows "ledger_ok (l\<lparr>lg_client := d, lg_held := lg_held l - {#HeldCommand cmd#}, lg_ack := None\<rparr>)"
proof -
  have g: "generation (lg_client l) = lg_worker l" using t by (auto simp: track_command_def split: if_splits)
  have "cm_reservation cmd" using hands_in [OF ok h(1)] by simp
  then have p: "pa_reservation (ack_of_command (now + kAckTimeout) cmd)" "IsProtectedInboundResult (pa_resultType (ack_of_command (now + kAckTimeout) cmd))"
    by (simp_all add: ack_of_command_def protected_types)
  note e = emplace_effect(1) [OF ok i g, of "ack_of_command (now + kAckTimeout) cmd"]
  show ?thesis
    using t h g by (intro emplace_ok [OF ok h(1) _ i g p]) (auto simp: track_command_def e Let_def same_queue_def split: if_splits)
qed

lemma track_snapshot_ok:
  assumes ok: "ledger_ok l" and h: "HeldSnapshot s \<in># lg_held l" "ps_generation s = lg_worker l" and i: "lg_ack l = Some i"
    and g: "generation (lg_client l) = lg_worker l"
  shows "ledger_ok (l\<lparr>lg_client := emplace_ack i (ack_of_snapshot deadline s) (lg_client l),
      lg_held := lg_held l - {#HeldSnapshot s#}, lg_ack := None\<rparr>)"
proof -
  have "ps_reservation s" using hands_in [OF ok h(1)] by simp
  then have p: "pa_reservation (ack_of_snapshot deadline s)" "IsProtectedInboundResult (pa_resultType (ack_of_snapshot deadline s))"
    by (simp_all add: ack_of_snapshot_def protected_types del: ascii_Cons)
  note e = emplace_effect(1) [OF ok i g, of "ack_of_snapshot deadline s"]
  show ?thesis using h g by (intro emplace_ok [OF ok h(1) _ i g p]) (simp_all add: e same_queue_def)
qed

lemma put_back_ok:
  assumes ok: "ledger_ok l" and h: "HeldCommand cmd \<in># lg_held l" "cm_generation cmd = lg_worker l"
  shows "ledger_ok (l\<lparr>lg_client := put_back_command (lg_worker l) cmd (lg_client l), lg_held := lg_held l - {#HeldCommand cmd#}\<rparr>)" (is "ledger_ok ?l")
proof (cases "generation (lg_client l) = lg_worker l")
  case False
  then have "put_back_command (lg_worker l) cmd (lg_client l) = lg_client l" by (simp add: put_back_command_def)
  with stale_ledger [OF ok h(1)] False h(2) show ?thesis by simp
next
  case True
  note ok' = ledger_okD [OF ok]
  have "cm_reservation cmd" "cm_kind cmd \<noteq> uploadSnapshot" using hands_in [OF ok h(1)] by simp_all
  with True have d: "put_back_command (lg_worker l) cmd (lg_client l) = (lg_client l)\<lparr>cl_commands := cmd # cl_commands (lg_client l)\<rparr>"
    by (simp add: put_back_command_def)
  have "acks_ok ?l" using ok'(5) by (simp add: acks_ok_def d Let_def)
  moreover have "items_ok (put_back_command (lg_worker l) cmd (lg_client l))"
    using ok'(2) \<open>cm_reservation cmd\<close> \<open>cm_kind cmd \<noteq> uploadSnapshot\<close> h(2) True by (simp add: items_ok_def d)
  ultimately show ?thesis using h True
    by (intro return_ledger [OF ok h(1)]) (auto simp: d same_queue_def work_count_def)
qed

lemma put_snapshot_back_ok:
  assumes ok: "ledger_ok l" and h: "HeldSnapshot s \<in># lg_held l" "ps_generation s = lg_worker l"
    and p: "put_back_snapshot (lg_worker l) s (lg_client l) = (False, d)"
  shows "ledger_ok (l\<lparr>lg_client := d, lg_held := lg_held l - {#HeldSnapshot s#}\<rparr>)" (is "ledger_ok ?l")
proof (cases "generation (lg_client l) = lg_worker l")
  case False
  then have "d = lg_client l" using p by (auto simp: put_back_snapshot_def split: if_splits)
  with stale_ledger [OF ok h(1)] False h(2) show ?thesis by simp
next
  case True
  note ok' = ledger_okD [OF ok]
  have r: "ps_reservation s" using hands_in [OF ok h(1)] by simp
  with True p have d: "d = (lg_client l)\<lparr>cl_latestSnapshot := Some s\<rparr>" "cl_latestSnapshot (lg_client l) = None"
    by (auto simp: put_back_snapshot_def split: if_splits)
  have "acks_ok ?l" using ok'(5) by (simp add: acks_ok_def d Let_def)
  moreover have "items_ok d" using ok'(2) r h(2) True by (simp add: items_ok_def d)
  ultimately show ?thesis using h True
    by (intro return_ledger [OF ok h(1)]) (auto simp: d same_queue_def work_count_def)
qed

lemmas section_ok = enqueue_ok reserve_ok release_ok place_ok cancel_ok dispatch_ok configure_ok start_ok stop_begin_ok stop_end_ok
  copy_config_ok pop_registration_ok pop_ok take_snapshot_ok take_ack_ok take_expired_ok take_commands_ok take_pending_ok take_number_ok
  track_ok track_snapshot_ok put_back_ok put_snapshot_back_ok answer_ok abort_ok clear_acks_ok notify_ok quiet_ok

lemma step_ok: "ledger_step dump l l' \<Longrightarrow> ledger_ok l \<Longrightarrow> ledger_ok l'"
  by (induction rule: ledger_step.induct) (assumption | rule section_ok)+

lemma init_ok: "ledger_ok init_ledger"
  by (simp add: ledger_ok_def init_ledger_def init_client_def room_ok_def items_ok_def modes_ok_def hands_ok_def acks_ok_def books_ok_def
      owed_def work_count_def generation_def empty_config_def kMaxInboundMessageQueueSize_def)

lemma reachable_ok: "reachable dump l \<Longrightarrow> ledger_ok l"
  by (induction rule: reachable.induct) (auto intro: init_ok step_ok)

end
