(* ===== verification/LedgerAnswers.thy ===== *)
theory LedgerAnswers
  imports LedgerInvariant
begin

text \<open>
  What the accounts of the cloud client say: every accepted command is accounted for, every request is
  answered when it has waited too long or the connection is lost, and the one way an old worker can
  lose a command.
\<close>

lemma printed_step:
  assumes "ledger_step dump l l'" "ledger_ok l" "\<And>t j. printable dump t j" "lg_unprinted l = 0"
  shows "lg_unprinted l' = 0"
  using assms
proof (induction rule: ledger_step.induct)
  case (answer h l j t k sens r d)
  show ?case
  proof (cases "held_generation h = generation (lg_client l)")
    case True
    with hand_owed [OF answer(5,1)] have "takes_place (held_generation h) t (Some True) (lg_client l)"
      by (simp add: takes_place_def answer)
    with NotifyJson_effect [OF answer(4) ledger_okD(1) [OF answer(5)]] answer show ?thesis by auto
  qed (use answer in simp)
qed (simp_all add: close_books_def)

lemma reachable_printed:
  "reachable dump l \<Longrightarrow> (\<And>t j. printable dump t j) \<Longrightarrow> lg_unprinted l = 0"
proof (induction rule: reachable.induct)
  case (step l l')
  then show ?case using printed_step reachable_ok by blast
qed (simp add: init_ledger_def)


text \<open>
  Property C36. A worker that still holds an old configuration and reaches the section that takes the next
  command removes every command of the new configuration from the queue, without answering any.
\<close>

theorem stale_worker_drops_commands:
  assumes "reachable dump l" "lg_worker l \<noteq> generation (lg_client l)"
  shows "pop_command (lg_worker l) (lg_client l) = (None, (lg_client l)\<lparr>cl_commands := []\<rparr>)"
proof -
  have none: "dropWhile (\<lambda>cmd. cm_generation cmd \<noteq> lg_worker l) (cl_commands (lg_client l)) = []"
    using ledger_okD(2) [OF reachable_ok [OF assms(1)]] assms(2) by (auto simp: dropWhile_eq_Nil_conv items_ok_def list_all_iff)
  show ?thesis unfolding pop_command_def none by simp
qed

text \<open>A run that loses a command: the dialog configures a server and asks for the directory before the worker has seen it.\<close>

definition demo_config :: client_config where
  "demo_config = empty_config\<lparr>cf_serverValid := True, cf_credentialsValid := True\<rparr>"

definition demo_client :: client where
  "demo_client = snd (EnqueueCommandLocked 0 1 requestBroadcasters [] [] (ascii ''r'') 0 0 (snd (ApplyConfig demo_config True init_client)))"

definition demo_ledger :: ledger where
  "demo_ledger = init_ledger\<lparr>lg_client := demo_client, lg_accepted := 1\<rparr>"

lemma demo_reachable: "reachable dump demo_ledger"
proof -
  let ?c = "snd (ApplyConfig demo_config True init_client)"
  have "reachable dump (close_books (init_ledger\<lparr>lg_client := snd (ApplyConfig demo_config True (lg_client init_ledger))\<rparr>))"
    by (rule reachable.step [OF reachable.initial ledger_step.configure]) (simp add: init_ledger_def init_client_def)
  moreover have "close_books (init_ledger\<lparr>lg_client := snd (ApplyConfig demo_config True (lg_client init_ledger))\<rparr>) = init_ledger\<lparr>lg_client := ?c\<rparr>"
    by (simp add: init_ledger_def close_books_def)
  ultimately have r: "reachable dump (init_ledger\<lparr>lg_client := ?c\<rparr>)" by simp
  obtain b d where e: "EnqueueCommandLocked 0 1 requestBroadcasters [] [] (ascii ''r'') 0 0 ?c = (b, d)" by force
  have "b" using e by (auto simp: EnqueueCommandLocked_def ApplyConfig_def Let_def generation_def clear_work_def init_client_def
        demo_config_def empty_config_def ReserveProtectedResult_def kMaxProtectedResultCapacity_def kMaxCommandQueueSize_def
        make_room.simps kMaxInboundMessageQueueSize_def split: if_splits)
  with e reachable.step [OF r ledger_step.enqueue [of 0 1 requestBroadcasters "[]" "[]" "ascii ''r''" 0 0 _ b d]]
  show ?thesis by (simp add: demo_ledger_def demo_client_def init_ledger_def)
qed

lemma demo_values:
  "generation demo_client = 1" "length (cl_commands demo_client) = 1" "cl_reservations demo_client = 1" "cl_inbound demo_client = []"
  by (simp_all add: demo_client_def EnqueueCommandLocked_def ApplyConfig_def Let_def generation_def clear_work_def init_client_def
      demo_config_def empty_config_def ReserveProtectedResult_def kMaxProtectedResultCapacity_def kMaxCommandQueueSize_def
      make_room.simps kMaxInboundMessageQueueSize_def)


theorem stale_worker_drops_commands_witness:
  "pop_command 0 demo_client = (None, demo_client\<lparr>cl_commands := []\<rparr>) \<and> length (cl_commands demo_client) = 1"
  using stale_worker_drops_commands [OF demo_reachable [of "\<lambda>j. Some []"]] demo_values(1,2)
  by (simp add: demo_ledger_def init_ledger_def)

subsection \<open>Every request is answered\<close>

lemma find_jset: "is_object j \<Longrightarrow> json_find x (jset k v j) = (if x = k then Some v else json_find x j)"
proof -
  have "map_of (insert_key k v kvs) x = (if x = k then Some v else map_of kvs x)" for kvs :: "(bytes \<times> json) list"
    by (induction k v kvs rule: insert_key.induct) auto
  then show "is_object j \<Longrightarrow> ?thesis" by (cases j) (simp_all add: jset_def)
qed

lemma is_object_jset [simp]: "is_object (jset k v j) = is_object j"
  by (cases j) (simp_all add: jset_def)

lemma type_key: "ascii ''type'' \<noteq> ascii ''requestId''" "ascii ''type'' \<noteq> ascii ''clientRevision''" "ascii ''type'' \<noteq> ascii ''targetDeviceId''"
  "ascii ''type'' \<noteq> ascii ''ok''" "ascii ''type'' \<noteq> ascii ''code''"
  by simp_all

lemma message_type_add_identity: "is_object j \<Longrightarrow> message_type (add_identity p j) = message_type j"
  by (auto simp: message_type_def add_identity_def Let_def find_jset type_key simp del: ascii_Cons)

lemma message_type_failure: "message_type (failure_message p code) = Some (pa_resultType p)"
  unfolding failure_message_def
  by (subst message_type_add_identity) (simp_all add: message_type_def type_key [symmetric] type_key del: ascii_Cons)

lemma answer_effect:
  assumes "room_ok c" "generation c = gen" "cl_reservations c > 0" "message_type j = Some t" "IsProtectedInboundResult t" "printable dump t j"
  shows "let d = snd (NotifyJson dump gen j k sens (Some True) c) in same_work c d \<and> room_ok d \<and>
     cl_reservations c = Suc (cl_reservations d) \<and> cl_queued d = Suc (cl_queued c)"
proof -
  obtain r d where n: "NotifyJson dump gen j k sens (Some True) c = (r, d)" by force
  have "takes_place gen t (Some True) c" using assms by (simp add: takes_place_def)
  with NotifyJson_effect [OF n assms(1)] assms show ?thesis by (auto simp: n Let_def)
qed

definition answered_all :: "client \<Rightarrow> nat \<Rightarrow> client \<Rightarrow> bool" where
  "answered_all c n d \<longleftrightarrow> same_work c d \<and> room_ok d \<and> cl_reservations c = cl_reservations d + n \<and> cl_queued d = cl_queued c + n"

lemma answered_all_0 [simp]: "room_ok c \<Longrightarrow> answered_all c 0 c" by (simp add: answered_all_def)

lemma answered_all_trans: "answered_all c m d \<Longrightarrow> answered_all d n e \<Longrightarrow> answered_all c (m + n) e"
  by (auto simp: answered_all_def intro: same_work_trans)

definition answerable :: "printer \<Rightarrow> string \<Rightarrow> pending_ack \<Rightarrow> bool" where
  "answerable dump code p \<longleftrightarrow> printable dump (pa_resultType p) (failure_message p code)"

lemma failure_answers:
  assumes "room_ok c" "generation c = gen" "cl_reservations c > 0" "pa_reservation p" "IsProtectedInboundResult (pa_resultType p)"
    "answerable dump code p"
  shows "answered_all c 1 (NotifyPendingAckFailure dump gen p code c)"
  using answer_effect [OF assms(1-3) message_type_failure assms(5) assms(6) [unfolded answerable_def], of "[]" False] assms(4)
  by (simp add: answered_all_def NotifyPendingAckFailure_def Let_def)

lemma failures_answer:
  "room_ok c \<Longrightarrow> generation c = gen \<Longrightarrow> length ps \<le> cl_reservations c \<Longrightarrow>
   list_all (\<lambda>p. pa_reservation p \<and> IsProtectedInboundResult (pa_resultType p) \<and> answerable dump code p) ps \<Longrightarrow>
   answered_all c (length ps) (fold (\<lambda>p. NotifyPendingAckFailure dump gen p code) ps c)"
proof (induction ps arbitrary: c)
  case (Cons p ps)
  let ?d = "NotifyPendingAckFailure dump gen p code c"
  have a: "answered_all c 1 ?d" using Cons.prems by (intro failure_answers) auto
  then have "answered_all ?d (length ps) (fold (\<lambda>p. NotifyPendingAckFailure dump gen p code) ps ?d)"
    using Cons.prems by (intro Cons.IH) (auto simp: answered_all_def same_work_generation)
  from answered_all_trans [OF a this] show ?case by simp
qed simp

text \<open>What the four sections that give up requests do: the remaining work, and one result for each request given up.\<close>

definition gives_up :: "client \<Rightarrow> client_command list \<Rightarrow> (u64 \<times> pending_ack) list \<Rightarrow> client \<Rightarrow> bool" where
  "gives_up c cs as d \<longleftrightarrow> cl_commands d = cs \<and> cl_pendingAcks d = as \<and> cl_latestSnapshot d = cl_latestSnapshot c \<and>
     cl_config d = cl_config c \<and> room_ok d \<and> items_ok d \<and>
     cl_queued d + length cs + length as = cl_queued c + length (cl_commands c) + length (cl_pendingAcks c) \<and>
     cl_reservations d + cl_queued d = cl_reservations c + cl_queued c"

lemma gives_upI:
  assumes "answered_all e n d" "room_ok c" "items_ok c" "same_queue c e"
    "cl_commands e = cs" "cl_pendingAcks e = as" "set cs \<subseteq> set (cl_commands c)" "set as \<subseteq> set (cl_pendingAcks c)"
    "cl_latestSnapshot e = cl_latestSnapshot c" "cl_config e = cl_config c"
    "n + length cs + length as = length (cl_commands c) + length (cl_pendingAcks c)"
  shows "gives_up c cs as d"
proof -
  have sw: "same_work e d" using assms(1) by (simp add: answered_all_def)
  have "generation d = generation c" using same_work_generation [OF sw] assms(10) by (simp add: generation_def)
  then have "items_ok d" using sw assms(3,5-9) by (auto simp: items_ok_def same_work_def list_all_iff)
  with assms sw show ?thesis by (auto simp: gives_up_def answered_all_def same_work_def same_queue_def)
qed

lemma gives_up_trans: "gives_up c cs as d \<Longrightarrow> gives_up d cs' as' e \<Longrightarrow> gives_up c cs' as' e"
  by (auto simp: gives_up_def)

lemma work_within:
  assumes "length xs \<le> length (cl_commands c) + length (cl_pendingAcks c)" "work_count c \<le> cl_reservations c"
  shows "length xs \<le> cl_reservations c"
  using assms by (simp add: work_count_def)

lemma ExpireAcks_gives_up:
  assumes "room_ok c" "items_ok c" "work_count c \<le> cl_reservations c" "generation c = gen"
    "list_all (answerable dump ''timeout'' \<circ> snd) (cl_pendingAcks c)"
  shows "gives_up c (cl_commands c) (filter (\<lambda>e. now < pa_deadline (snd e)) (cl_pendingAcks c)) (ExpireAcks dump now gen c)"
proof -
  let ?P = "\<lambda>e. pa_deadline (snd e) \<le> now"
  define ps where "ps = map snd (filter ?P (cl_pendingAcks c))"
  define e where "e = snd (take_expired_acks now gen c)"
  have t: "take_expired_acks now gen c = (ps, e)" using assms(4) by (simp add: take_expired_acks_def ps_def e_def Let_def)
  have e: "same_queue c e" "cl_commands e = cl_commands c" "cl_pendingAcks e = filter (\<lambda>e. \<not> ?P e) (cl_pendingAcks c)"
      "cl_latestSnapshot e = cl_latestSnapshot c" "cl_config e = cl_config c"
    using assms(4) by (simp_all add: e_def take_expired_acks_def Let_def same_queue_def)
  have n: "length ps + length (filter (\<lambda>e. \<not> ?P e) (cl_pendingAcks c)) = length (cl_pendingAcks c)"
    using sum_length_filter_compl [of ?P "cl_pendingAcks c"] by (simp add: ps_def)
  have "answered_all e (length ps) (fold (\<lambda>p. NotifyPendingAckFailure dump gen p ''timeout'') ps e)"
  proof (rule failures_answer)
    show "room_ok e" using assms(1) room_ok_same [OF e(1)] by simp
    show "generation e = gen" using assms(4) by (simp add: generation_def e)
    show "length ps \<le> cl_reservations e" using n e(1) work_within [OF _ assms(3), of ps] by (simp add: same_queue_def)
    show "list_all (\<lambda>p. pa_reservation p \<and> IsProtectedInboundResult (pa_resultType p) \<and> answerable dump ''timeout'' p) ps"
      using assms(2,5) by (auto simp: ps_def items_ok_def list_all_iff)
  qed
  from gives_upI [OF this assms(1,2) e(1-3) _ _ e(4,5)] n show ?thesis
    by (simp add: ExpireAcks_def t not_le)
qed

definition queued_ack :: "client_command \<Rightarrow> pending_ack" where
  "queued_ack cmd = (ack_of_command 0 cmd)\<lparr>pa_commandSequence := 0\<rparr>"

lemma give_up_commands:
  assumes "room_ok c" "items_ok c" "work_count c \<le> cl_reservations c" "generation c = gen"
    "list_all (answerable dump code \<circ> queued_ack) (cl_commands c)"
  shows "gives_up c (filter (\<lambda>cmd. \<not> (IsTransientRequest (cm_kind cmd) \<and> P cmd)) (cl_commands c)) (cl_pendingAcks c)
    (case take_commands gen P c of (cs, e) \<Rightarrow> fold (\<lambda>cmd. NotifyQueuedCommandFailure dump cmd code) cs e)"
proof -
  let ?Q = "\<lambda>cmd. IsTransientRequest (cm_kind cmd) \<and> P cmd"
  define cs where "cs = filter ?Q (cl_commands c)"
  define e where "e = c\<lparr>cl_commands := filter (\<lambda>cmd. \<not> ?Q cmd) (cl_commands c)\<rparr>"
  have gen: "cmd \<in> set (cl_commands c) \<Longrightarrow> cm_generation cmd = gen" for cmd
    using assms(2,4) by (simp add: items_ok_def list_all_iff)
  have t: "take_commands gen P c = (cs, e)"
    using assms(4) gen by (auto simp: take_commands_def cs_def e_def intro!: filter_cong arg_cong [of _ _ "\<lambda>x. cl_commands_update (\<lambda>_. x) c"])
  have e: "same_queue c e" "cl_commands e = filter (\<lambda>cmd. \<not> ?Q cmd) (cl_commands c)" "cl_pendingAcks e = cl_pendingAcks c"
      "cl_latestSnapshot e = cl_latestSnapshot c" "cl_config e = cl_config c"
    by (simp_all add: e_def same_queue_def)
  have n: "length cs + length (filter (\<lambda>cmd. \<not> ?Q cmd) (cl_commands c)) = length (cl_commands c)"
    using sum_length_filter_compl [of ?Q "cl_commands c"] by (simp add: cs_def)
  have f: "fold (\<lambda>cmd. NotifyQueuedCommandFailure dump cmd code) cs x = fold (\<lambda>p. NotifyPendingAckFailure dump gen p code) (map queued_ack cs) x" for x
    unfolding fold_map comp_def
    by (rule fold_cong) (auto simp: NotifyQueuedCommandFailure_def queued_ack_def cs_def gen)
  have "answered_all e (length (map queued_ack cs)) (fold (\<lambda>p. NotifyPendingAckFailure dump gen p code) (map queued_ack cs) e)"
  proof (rule failures_answer)
    show "room_ok e" using assms(1) room_ok_same [OF e(1)] by simp
    show "generation e = gen" using assms(4) by (simp add: generation_def e)
    show "length (map queued_ack cs) \<le> cl_reservations e" using n e(1) work_within [OF _ assms(3), of cs] by (simp add: same_queue_def)
    show "list_all (\<lambda>p. pa_reservation p \<and> IsProtectedInboundResult (pa_resultType p) \<and> answerable dump code p) (map queued_ack cs)"
      using assms(2,5) by (auto simp: cs_def items_ok_def list_all_iff queued_ack_def ack_of_command_def protected_types)
  qed
  from gives_upI [OF this assms(1,2) e(1-3) _ _ e(4,5)] n show ?thesis by (simp add: t f)
qed

lemma FailPendingAcks_gives_up:
  assumes "room_ok c" "items_ok c" "work_count c \<le> cl_reservations c" "generation c = gen"
    "list_all (answerable dump code \<circ> snd) (cl_pendingAcks c)"
  shows "gives_up c (cl_commands c) [] (FailPendingAcks dump gen code c)"
proof -
  define ps where "ps = map snd (cl_pendingAcks c)"
  define e where "e = snd (take_pending_acks gen c)"
  have t: "take_pending_acks gen c = (ps, e)" using assms(4) by (simp add: take_pending_acks_def ps_def e_def Let_def)
  have e: "same_queue c e" "cl_commands e = cl_commands c" "cl_pendingAcks e = []"
      "cl_latestSnapshot e = cl_latestSnapshot c" "cl_config e = cl_config c"
    using assms(4) by (simp_all add: e_def take_pending_acks_def Let_def same_queue_def)
  have n: "length ps = length (cl_pendingAcks c)" by (simp add: ps_def)
  have "answered_all e (length ps) (fold (\<lambda>p. NotifyPendingAckFailure dump gen p code) ps e)"
  proof (rule failures_answer)
    show "room_ok e" using assms(1) room_ok_same [OF e(1)] by simp
    show "generation e = gen" using assms(4) by (simp add: generation_def e)
    show "length ps \<le> cl_reservations e" using n e(1) work_within [OF _ assms(3), of ps] by (simp add: same_queue_def)
    show "list_all (\<lambda>p. pa_reservation p \<and> IsProtectedInboundResult (pa_resultType p) \<and> answerable dump code p) ps"
      using assms(2,5) by (auto simp: ps_def items_ok_def list_all_iff)
  qed
  from gives_upI [OF this assms(1,2) e(1-3) _ _ e(4,5)] n show ?thesis by (simp add: FailPendingAcks_def t)
qed

lemma reachable_client:
  assumes "reachable dump l"
  shows "room_ok (lg_client l)" "items_ok (lg_client l)" "work_count (lg_client l) \<le> cl_reservations (lg_client l)"
  using ledger_okD(1,2,6) [OF reachable_ok [OF assms]] by (auto simp: books_ok_def owed_def Let_def)

lemma gives_up_within:
  assumes "gives_up c cs as d" "work_count c \<le> cl_reservations c"
  shows "work_count d \<le> cl_reservations d"
  using assms by (simp add: gives_up_def work_count_def split: if_splits)

text \<open>
  Property C6. What has waited too long is answered: after the worker has looked for expired
  acknowledgements and requests at a time, none is left that was due, everything else still waits in its
  order, and the queue holds one result more for each that was given up.
\<close>

theorem overdue_requests_answered:
  assumes "reachable dump l" "generation (lg_client l) = gen"
    "list_all (answerable dump ''timeout'' \<circ> snd) (cl_pendingAcks (lg_client l))"
    "list_all (answerable dump ''timeout'' \<circ> queued_ack) (cl_commands (lg_client l))"
  shows "let c = lg_client l; d = ExpireQueuedTransientRequests dump now gen (ExpireAcks dump now gen c) in
    cl_pendingAcks d = filter (\<lambda>e. now < pa_deadline (snd e)) (cl_pendingAcks c) \<and>
    cl_commands d = filter (\<lambda>cmd. \<not> (IsTransientRequest (cm_kind cmd) \<and> expired_command now cmd)) (cl_commands c) \<and>
    cl_queued d + length (cl_commands d) + length (cl_pendingAcks d) =
      cl_queued c + length (cl_commands c) + length (cl_pendingAcks c)"
proof -
  note r = reachable_client [OF assms(1)]
  let ?x = "ExpireAcks dump now gen (lg_client l)"
  note a = ExpireAcks_gives_up [OF r assms(2,3), of now]
  have x: "room_ok ?x" "items_ok ?x" "cl_commands ?x = cl_commands (lg_client l)" "generation ?x = gen"
    using a assms(2) by (auto simp: gives_up_def generation_def)
  have "list_all (answerable dump ''timeout'' \<circ> queued_ack) (cl_commands ?x)" using assms(4) x(3) by simp
  from give_up_commands [OF x(1,2) gives_up_within [OF a r(3)] x(4) this, of "expired_command now"] a x(3)
  show ?thesis by (auto simp: gives_up_def Let_def ExpireQueuedTransientRequests_def)
qed

text \<open>
  Property C7. When a connection ends and the client is neither stopped nor configured anew, every pending
  acknowledgement and every queued transient request is answered; other commands stay for the next
  connection, which is tried after one of the delays.
\<close>

theorem lost_connection_answers_requests:
  assumes "reachable dump l" "\<not> ShouldAbort gen (lg_client l)" "generation (lg_client l) = gen"
    "wk_useLicenseSession w \<longrightarrow> useLicenseSession"
    "list_all (answerable dump ''connection_lost'' \<circ> snd) (cl_pendingAcks (lg_client l))"
    "list_all (answerable dump ''connection_lost'' \<circ> queued_ack) (cl_commands (lg_client l))"
  shows "let c = lg_client l; (delay, w', d) = connection_ended dump gen connectedOnce useLicenseSession w c in
    set_option delay \<subseteq> set kReconnectDelaysSeconds \<and> delay \<noteq> None \<and> cl_pendingAcks d = [] \<and>
    cl_commands d = filter (\<lambda>cmd. \<not> IsTransientRequest (cm_kind cmd)) (cl_commands c) \<and>
    cl_queued d + length (cl_commands d) = cl_queued c + length (cl_commands c) + length (cl_pendingAcks c)"
proof -
  note r = reachable_client [OF assms(1)]
  let ?x = "FailQueuedTransientRequests dump gen ''connection_lost'' (lg_client l)"
  note a = give_up_commands [OF r assms(3,6), of "\<lambda>_. True", folded FailQueuedTransientRequests_def]
  have x: "room_ok ?x" "items_ok ?x" "cl_pendingAcks ?x = cl_pendingAcks (lg_client l)" "generation ?x = gen"
    using a assms(3) by (auto simp: gives_up_def generation_def)
  have "list_all (answerable dump ''connection_lost'' \<circ> snd) (cl_pendingAcks ?x)" using assms(5) x(3) by simp
  from FailPendingAcks_gives_up [OF x(1,2) gives_up_within [OF a r(3)] x(4) this] a x(3)
  have f: "cl_pendingAcks (FailPendingAcks dump gen ''connection_lost'' ?x) = []"
    "cl_commands (FailPendingAcks dump gen ''connection_lost'' ?x) = filter (\<lambda>cmd. \<not> IsTransientRequest (cm_kind cmd)) (cl_commands (lg_client l))"
    "cl_queued (FailPendingAcks dump gen ''connection_lost'' ?x) + length (filter (\<lambda>cmd. \<not> IsTransientRequest (cm_kind cmd)) (cl_commands (lg_client l))) =
      cl_queued (lg_client l) + length (cl_commands (lg_client l)) + length (cl_pendingAcks (lg_client l))"
    by (auto simp: gives_up_def)
  have "fst (next_delay connectedOnce i) \<in> set kReconnectDelaysSeconds" for i
    unfolding next_delay_def Let_def fst_conv by (rule nth_mem) (auto simp: kReconnectDelaysSeconds_def)
  moreover obtain delay i where n: "next_delay connectedOnce (wk_reconnectIndex w) = (delay, i)" by force
  ultimately have "delay \<in> set kReconnectDelaysSeconds" by (metis fst_conv)
  with f n assms(2,4) show ?thesis by (auto simp: connection_ended_def UpdateStatus_def Let_def)
qed

theorem overdue_requests_answered_witness:
  "let d = ExpireQueuedTransientRequests (\<lambda>j. Some [0]) 8000 1 (ExpireAcks (\<lambda>j. Some [0]) 8000 1 demo_client) in
     cl_commands d = [] \<and> cl_queued d = 1"
proof -
  have c: "list_all (\<lambda>cmd. IsTransientRequest (cm_kind cmd) \<and> expired_command 8000 cmd) (cl_commands demo_client)"
    "cl_pendingAcks demo_client = []" "cl_queued demo_client = 0"
    by (simp_all add: demo_client_def EnqueueCommandLocked_def ApplyConfig_def Let_def generation_def clear_work_def init_client_def
      demo_config_def empty_config_def ReserveProtectedResult_def kMaxProtectedResultCapacity_def kMaxCommandQueueSize_def
      make_room.simps kMaxInboundMessageQueueSize_def IsTransientRequest_def expired_command_def kTransientCommandTimeout_def)
  have a: "answerable (\<lambda>j. Some [0]) code p" for code p by (simp add: answerable_def printable_def kMaxCloudMatchInboundPayloadBytes_def)
  have "filter (\<lambda>cmd. \<not> (IsTransientRequest (cm_kind cmd) \<and> expired_command 8000 cmd)) (cl_commands demo_client) = []"
    using c(1) by (auto simp: filter_empty_conv list_all_iff)
  then show ?thesis
    using overdue_requests_answered [OF demo_reachable [of "\<lambda>j. Some [0]"], of 1 8000] c demo_values a
    by (auto simp: demo_ledger_def Let_def list_all_iff)
qed

theorem lost_connection_answers_requests_witness:
  "let (delay, w', d) = connection_ended (\<lambda>j. Some [0]) 1 True True
       \<lparr>wk_reconnectIndex = 3, wk_reconnecting = False, wk_useLicenseSession = True, wk_observedGeneration = 1\<rparr> demo_client in
     delay \<noteq> None \<and> cl_commands d = [] \<and> cl_queued d = 1"
proof -
  have c: "list_all (\<lambda>cmd. IsTransientRequest (cm_kind cmd)) (cl_commands demo_client)"
    "cl_pendingAcks demo_client = []" "cl_queued demo_client = 0" "\<not> ShouldAbort 1 demo_client"
    by (simp_all add: demo_client_def EnqueueCommandLocked_def ApplyConfig_def Let_def generation_def clear_work_def init_client_def
      demo_config_def empty_config_def ReserveProtectedResult_def kMaxProtectedResultCapacity_def kMaxCommandQueueSize_def
      make_room.simps kMaxInboundMessageQueueSize_def IsTransientRequest_def ShouldAbort_def)
  have a: "answerable (\<lambda>j. Some [0]) code p" for code p by (simp add: answerable_def printable_def kMaxCloudMatchInboundPayloadBytes_def)
  have "filter (\<lambda>cmd. \<not> IsTransientRequest (cm_kind cmd)) (cl_commands demo_client) = []"
    using c(1) by (auto simp: filter_empty_conv list_all_iff)
  then show ?thesis
    using lost_connection_answers_requests [OF demo_reachable [of "\<lambda>j. Some [0]"], of 1
        "\<lparr>wk_reconnectIndex = 3, wk_reconnecting = False, wk_useLicenseSession = True, wk_observedGeneration = 1\<rparr>" True True] c demo_values a
    by (auto simp: demo_ledger_def Let_def list_all_iff split: prod.splits)
qed

end
