(* ===== verification/LedgerRuns.thy ===== *)
theory LedgerRuns
  imports LedgerAnswers
begin

text \<open>
  The rounds of the worker thread and the operations of the dialog, as they are composed in the code, are
  runs of the step relation: nothing they do escapes the accounts.
\<close>

definition run :: "printer \<Rightarrow> ledger \<Rightarrow> client \<Rightarrow> held multiset \<Rightarrow> bool" where
  "run dump l d H \<longleftrightarrow> (\<exists>l'. (ledger_step dump)\<^sup>*\<^sup>* l l' \<and> lg_client l' = d \<and> lg_held l' = H \<and> lg_worker l' = lg_worker l)"

lemma run_refl: "run dump l (lg_client l) (lg_held l)"
  by (auto simp: run_def)

lemma run_step:
  "ledger_step dump l l' \<Longrightarrow> lg_worker l' = lg_worker l \<Longrightarrow> run dump l (lg_client l') (lg_held l')"
  by (auto simp: run_def)

text \<open>Continuing a run from wherever it has come to.\<close>

lemma run_trans:
  assumes "run dump l c H" "\<And>l'. ledger_ok l' \<Longrightarrow> lg_client l' = c \<Longrightarrow> lg_held l' = H \<Longrightarrow> lg_worker l' = lg_worker l \<Longrightarrow> run dump l' d K"
    "ledger_ok l"
  shows "run dump l d K"
proof -
  from assms(1) obtain l' where l': "(ledger_step dump)\<^sup>*\<^sup>* l l'" "lg_client l' = c" "lg_held l' = H" "lg_worker l' = lg_worker l"
    by (auto simp: run_def)
  from l'(1) assms(3) have "ledger_ok l'" by (induction rule: rtranclp_induct) (auto intro: step_ok)
  from assms(2) [OF this l'(2-4)] l'(1,4) show ?thesis by (auto simp: run_def intro: rtranclp_trans)
qed

lemma run_reachable: "run dump l d H \<Longrightarrow> reachable dump l \<Longrightarrow>
    \<exists>l'. reachable dump l' \<and> lg_client l' = d \<and> lg_held l' = H \<and> lg_worker l' = lg_worker l"
proof -
  have "(ledger_step dump)\<^sup>*\<^sup>* l l' \<Longrightarrow> reachable dump l \<Longrightarrow> reachable dump l'" for l'
    by (induction rule: rtranclp_induct) (auto intro: reachable.step)
  then show "run dump l d H \<Longrightarrow> reachable dump l \<Longrightarrow> ?thesis" by (auto simp: run_def)
qed

subsection \<open>Messages\<close>

lemma notify_run: "run dump l (snd (NotifyJson dump gen j k sens None (lg_client l))) (lg_held l)"
  using run_step [OF ledger_step.notify [where l=l and dump=dump and gen=gen and j=j and k=k and sens=sens]] by simp

lemma error_run: "run dump l (NotifyCloudError dump gen code t u (lg_client l)) (lg_held l)"
  unfolding NotifyCloudError_def by (rule notify_run)

lemma quiet_run: "same_work (lg_client l) d \<Longrightarrow> same_queue (lg_client l) d \<Longrightarrow> run dump l d (lg_held l)"
  using run_step [OF ledger_step.quiet, of l d dump] by simp

lemma status_run: "run dump l (UpdateStatus gen f (lg_client l)) (lg_held l)"
  by (rule quiet_run) (simp_all add: UpdateStatus_def same_work_def same_queue_def)

lemma answer_run:
  assumes "h \<in># lg_held l" "message_type j = Some t" "IsProtectedInboundResult t" "gen = held_generation h"
  shows "run dump l (snd (NotifyJson dump gen j k sens (Some True) (lg_client l))) (lg_held l - {#h#})"
proof -
  obtain r d where n: "NotifyJson dump (held_generation h) j k sens (Some True) (lg_client l) = (r, d)" by force
  from run_step [OF ledger_step.answer [OF assms(1-3) n]] show ?thesis by (simp add: n assms(4))
qed

lemma failure_run:
  assumes "HeldAck gen p \<in># lg_held l" "pa_reservation p" "IsProtectedInboundResult (pa_resultType p)"
  shows "run dump l (NotifyPendingAckFailure dump gen p code (lg_client l)) (lg_held l - {#HeldAck gen p#})"
  using answer_run [OF assms(1) message_type_failure assms(3), where gen=gen and dump=dump and k="[]" and sens=False and code1=code] assms(2)
  by (simp add: NotifyPendingAckFailure_def)

lemma failures_run:
  assumes "ledger_ok l" "lg_held l = H + mset (map (HeldAck gen) ps)"
    "list_all (\<lambda>p. pa_reservation p \<and> IsProtectedInboundResult (pa_resultType p)) ps"
  shows "run dump l (fold (\<lambda>p. NotifyPendingAckFailure dump gen p code) ps (lg_client l)) H"
  using assms
proof (induction ps arbitrary: l)
  case Nil
  then show ?case using run_refl [of dump l] by simp
next
  case (Cons p ps)
  have f: "run dump l (NotifyPendingAckFailure dump gen p code (lg_client l)) (H + mset (map (HeldAck gen) ps))"
    using failure_run [of gen p l dump code] Cons.prems by simp
  have "run dump l (fold (\<lambda>p. NotifyPendingAckFailure dump gen p code) ps (NotifyPendingAckFailure dump gen p code (lg_client l))) H"
  proof (rule run_trans [OF f _ Cons.prems(1)], goal_cases)
    case (1 l')
    then show ?case using Cons.IH [OF 1(1,3)] Cons.prems(3) by simp
  qed
  then show ?case by simp
qed

lemma command_failures_run:
  assumes "ledger_ok l" "lg_held l = H + mset (map HeldCommand cs)" "list_all cm_reservation cs"
  shows "run dump l (fold (\<lambda>cmd. NotifyQueuedCommandFailure dump cmd code) cs (lg_client l)) H"
  using assms
proof (induction cs arbitrary: l)
  case Nil
  then show ?case using run_refl [of dump l] by simp
next
  case (Cons cmd cs)
  have t: "IsProtectedInboundResult (pa_resultType (queued_ack cmd))" by (simp add: queued_ack_def ack_of_command_def protected_types)
  have h: "HeldCommand cmd \<in># lg_held l" using Cons.prems(2) by simp
  have "run dump l (snd (NotifyJson dump (cm_generation cmd) (failure_message (queued_ack cmd) code) [] False (Some True) (lg_client l)))
      (H + mset (map HeldCommand cs))"
    using answer_run [OF h message_type_failure t, where gen="cm_generation cmd" and dump=dump and k="[]" and sens=False and code1=code] Cons.prems(2) by simp
  then have f: "run dump l (NotifyQueuedCommandFailure dump cmd code (lg_client l)) (H + mset (map HeldCommand cs))"
    using Cons.prems(3) by (simp add: NotifyQueuedCommandFailure_def NotifyPendingAckFailure_def queued_ack_def ack_of_command_def)
  have "run dump l (fold (\<lambda>cmd. NotifyQueuedCommandFailure dump cmd code) cs (NotifyQueuedCommandFailure dump cmd code (lg_client l))) H"
  proof (rule run_trans [OF f _ Cons.prems(1)], goal_cases)
    case (1 l')
    then show ?case using Cons.IH [OF 1(1,3)] Cons.prems(3) by simp
  qed
  then show ?case by simp
qed

subsection \<open>Giving up\<close>

lemma ExpireAcks_run:
  assumes ok: "ledger_ok l" and gen: "gen = lg_worker l"
  shows "run dump l (ExpireAcks dump now gen (lg_client l)) (lg_held l)"
proof -
  obtain ps e where t: "take_expired_acks now gen (lg_client l) = (ps, e)" by force
  have s: "run dump l e (lg_held l + mset (map (HeldAck gen) ps))"
    using run_step [OF ledger_step.take_expired [of now l ps e dump]] t gen by simp
  have p: "list_all (\<lambda>p. pa_reservation p \<and> IsProtectedInboundResult (pa_resultType p)) ps"
    using t ledger_okD(2) [OF ok] by (auto simp: take_expired_acks_def Let_def items_ok_def list_all_iff split: if_splits)
  show ?thesis unfolding ExpireAcks_def t prod.case
  proof (rule run_trans [OF s _ ok], goal_cases)
    case (1 l')
    then show ?case using failures_run [OF 1(1,3) p] by simp
  qed
qed

lemma FailPendingAcks_run:
  assumes ok: "ledger_ok l" and gen: "gen = lg_worker l"
  shows "run dump l (FailPendingAcks dump gen code (lg_client l)) (lg_held l)"
proof -
  obtain ps e where t: "take_pending_acks gen (lg_client l) = (ps, e)" by force
  have s: "run dump l e (lg_held l + mset (map (HeldAck gen) ps))"
    using run_step [OF ledger_step.take_pending [of l ps e dump]] t gen by simp
  have p: "list_all (\<lambda>p. pa_reservation p \<and> IsProtectedInboundResult (pa_resultType p)) ps"
    using t ledger_okD(2) [OF ok] by (auto simp: take_pending_acks_def Let_def items_ok_def list_all_iff split: if_splits)
  show ?thesis unfolding FailPendingAcks_def t prod.case
  proof (rule run_trans [OF s _ ok], goal_cases)
    case (1 l')
    then show ?case using failures_run [OF 1(1,3) p] by simp
  qed
qed

lemma give_up_run:
  assumes ok: "ledger_ok l" and gen: "gen = lg_worker l"
  shows "run dump l (case take_commands gen P (lg_client l) of (cs, e) \<Rightarrow> fold (\<lambda>cmd. NotifyQueuedCommandFailure dump cmd code) cs e) (lg_held l)"
proof -
  obtain cs e where t: "take_commands gen P (lg_client l) = (cs, e)" by force
  have s: "run dump l e (lg_held l + mset (map HeldCommand cs))"
    using run_step [OF ledger_step.take_commands [of l P cs e dump]] t gen by simp
  have p: "list_all cm_reservation cs"
    using t ledger_okD(2) [OF ok] by (auto simp: take_commands_def items_ok_def list_all_iff split: if_splits)
  show ?thesis unfolding t prod.case
  proof (rule run_trans [OF s _ ok], goal_cases)
    case (1 l')
    then show ?case using command_failures_run [OF 1(1,3) p] by simp
  qed
qed

lemma fail_queued_run:
  assumes "ledger_ok l" "gen = lg_worker l"
  shows "run dump l (FailQueuedTransientRequests dump gen code (lg_client l)) (lg_held l)"
  unfolding FailQueuedTransientRequests_def by (rule give_up_run [OF assms])

lemma expire_queued_run:
  assumes "ledger_ok l" "gen = lg_worker l"
  shows "run dump l (ExpireQueuedTransientRequests dump now gen (lg_client l)) (lg_held l)"
  unfolding ExpireQueuedTransientRequests_def by (rule give_up_run [OF assms])

subsection \<open>Sending\<close>

lemma take_number_run:
  assumes "generation (lg_client l) = lg_worker l" "length (cl_pendingAcks (lg_client l)) < kMaxPendingAcks" "next_ack (lg_client l) = Some (i, d)"
  shows "ledger_step dump l (l\<lparr>lg_client := d, lg_ack := Some i\<rparr>)"
  by (rule ledger_step.take_number [OF assms])

text \<open>Sending a command: either it waits for its acknowledgement, or it is still in the hands of the worker.\<close>

lemma SendQueuedCommand_run:
  assumes ok: "ledger_ok l" and h: "HeldCommand cmd \<in># lg_held l" "cm_generation cmd = lg_worker l" "cm_kind cmd \<noteq> registerDevice"
    and len: "length (cl_pendingAcks (lg_client l)) < kMaxPendingAcks"
    and s: "SendQueuedCommand parse dump send now (lg_worker l) cmd (lg_client l) = (sent, cmd', d)"
  shows "run dump l d (if sent then lg_held l - {#HeldCommand cmd#} else lg_held l) \<and> (sent \<or> cmd' = cmd)"
proof -
  have kind: "cm_kind cmd \<noteq> uploadSnapshot" using hands_in [OF ok h(1)] by simp
  have name: "command_event parse cmd = Some (nm, payload) \<Longrightarrow> nm \<noteq> []" for nm payload
    using kind h(3) by (cases "cm_kind cmd") (auto simp: command_event_def Let_def split: option.splits if_splits)
  show ?thesis
  proof (cases "command_event parse cmd")
    case None
    with s run_refl [of dump l] show ?thesis by (auto simp: SendQueuedCommand_def)
  next
    case (Some e)
    obtain nm payload where e: "e = (nm, payload)" by force
    note ne = name [OF Some [unfolded e]]
    show ?thesis
    proof (cases "generation (lg_client l) = lg_worker l")
      case False
      with s ne Some e run_refl [of dump l] show ?thesis by (auto simp: SendQueuedCommand_def)
    next
      case g: True
      show ?thesis
      proof (cases "next_ack (lg_client l)")
        case None
        with s ne Some e g len error_run [of dump l "lg_worker l"] show ?thesis by (auto simp: SendQueuedCommand_def)
      next
        case n: (Some ia)
        obtain i c where ia: "ia = (i, c)" by force
        let ?l = "l\<lparr>lg_client := c, lg_ack := Some i\<rparr>"
        note step = take_number_run [OF g len n [unfolded ia], of dump]
        from s ne Some e g len n ia have s': "(let packet = EncodeSocketEventAck dump nm payload i in
              if packet = [] \<or> \<not> send packet \<or> ShouldAbort (lg_worker l) c then (False, cmd, c)
              else track_command now (lg_worker l) i cmd c) = (sent, cmd', d)"
          by (simp add: SendQueuedCommand_def)
        show ?thesis
        proof (cases "EncodeSocketEventAck dump nm payload i = [] \<or> \<not> send (EncodeSocketEventAck dump nm payload i) \<or> ShouldAbort (lg_worker l) c")
          case True
          then have "(False, cmd, c) = (sent, cmd', d)" using s' by (simp add: Let_def split: if_splits)
          with run_step [OF step] show ?thesis by simp
        next
          case False
          then have t: "track_command now (lg_worker l) i cmd c = (sent, cmd', d)" using s' by (simp add: Let_def)
          have "generation c = lg_worker l" using n ia g by (auto simp: next_ack_def generation_def split: if_splits)
          then have "sent" using t by (auto simp: track_command_def Let_def)
          have t': "track_command now (lg_worker ?l) i cmd (lg_client ?l) = (True, cmd', d)" using t \<open>sent\<close> by simp
          have m: "HeldCommand cmd \<in># lg_held ?l" "cm_generation cmd = lg_worker ?l" "lg_ack ?l = Some i" using h by simp_all
          from ledger_step.track [OF m t', of dump] have "ledger_step dump ?l (?l\<lparr>lg_client := d, lg_held := lg_held l - {#HeldCommand cmd#}, lg_ack := None\<rparr>)"
            by simp
          from converse_rtranclp_into_rtranclp [of "ledger_step dump", OF step r_into_rtranclp [of "ledger_step dump", OF this]]
          show ?thesis using \<open>sent\<close> by (auto simp: run_def)
        qed
      qed
    qed
  qed
qed

lemma run_then:
  assumes "run dump l c H" "ledger_ok l"
    "\<And>l'. ledger_ok l' \<Longrightarrow> lg_held l' = H \<Longrightarrow> lg_worker l' = lg_worker l \<Longrightarrow> c = lg_client l' \<Longrightarrow> run dump l' d K"
  shows "run dump l d K"
  using run_trans [OF assms(1) _ assms(2)] assms(3) by metis

lemma pop_some:
  assumes "pop_command gen c = (Some cmd, d)"
  shows "cm_generation cmd = gen \<and> cm_kind cmd \<noteq> registerDevice \<and> length (cl_pendingAcks d) < kMaxPendingAcks"
  using assms by (auto simp: pop_command_def Let_def dropWhile_eq_Cons_conv split: list.splits if_splits)

lemma send_commands_run:
  "ledger_ok l \<Longrightarrow> gen = lg_worker l \<Longrightarrow> c = lg_client l \<Longrightarrow> send_commands parse dump send now gen c = (ok, d) \<Longrightarrow> run dump l d (lg_held l)"
proof (induction parse dump send now gen c arbitrary: l ok d rule: send_commands.induct)
  case (1 parse dump send now gen c)
  note ok = 1(2) and gen = 1(3) and c = 1(4)
  obtain q e where p: "pop_command gen c = (q, e)" by force
  have step: "run dump l e (case q of None \<Rightarrow> lg_held l | Some x \<Rightarrow> add_mset (HeldCommand x) (lg_held l))"
    using run_step [OF ledger_step.pop [of l q e dump]] p gen c by simp
  show ?case
  proof (cases q)
    case None
    then have "d = e" using 1(5) p by (subst (asm) send_commands.simps) simp
    with step None show ?thesis by simp
  next
    case (Some cmd)
    have s: "run dump l e (add_mset (HeldCommand cmd) (lg_held l))" using step Some by simp
    note ps = pop_some [OF p [unfolded Some]]
    show ?thesis
    proof (rule run_then [OF s ok])
      fix l' assume ok': "ledger_ok l'" and held: "lg_held l' = add_mset (HeldCommand cmd) (lg_held l)" and w: "lg_worker l' = lg_worker l" and e: "e = lg_client l'"
      have h: "HeldCommand cmd \<in># lg_held l'" "cm_generation cmd = lg_worker l'" "cm_kind cmd \<noteq> registerDevice"
        using held ps gen w by simp_all
      show "run dump l' d (lg_held l)"
      proof (cases "ShouldAbort gen e")
        case True
        then have "d = lg_client l'" using 1(5) p Some e by (subst (asm) send_commands.simps) simp
        moreover have "ShouldAbort (held_generation (HeldCommand cmd)) (lg_client l')" using True e ps by simp
        ultimately show ?thesis using run_step [OF ledger_step.abort [OF h(1)], of dump] held by simp
      next
        case na: False
        obtain sent kept f where s: "SendQueuedCommand parse dump (send e) now gen cmd e = (sent, kept, f)" by (metis prod_cases3)
        from SendQueuedCommand_run [OF ok' h, of parse dump "send e" now sent kept f] s ps e w gen
        have r: "run dump l' f (if sent then lg_held l else lg_held l')" "sent \<or> kept = cmd" by (auto simp: held)
        show ?thesis
        proof (cases sent)
          case False
          then have d: "d = put_back_command gen cmd f" using 1(5) p Some na s r(2) by (subst (asm) send_commands.simps) simp
          show ?thesis
          proof (rule run_then [OF r(1) ok'], goal_cases)
            case (1 m)
            then have "HeldCommand cmd \<in># lg_held m" "cm_generation cmd = lg_worker m" using h False by simp_all
            from run_step [OF ledger_step.put_back [OF this, of dump]] 1 show ?case using d held False gen w by simp
          qed
        next
          case sent: True
          show ?thesis
          proof (rule run_then [OF r(1) ok'], goal_cases)
            case (1 m)
            show ?case
            proof (cases "ShouldAbort gen f")
              case True
              then have "d = f" using "1.prems"(4) p Some na s sent by (subst (asm) send_commands.simps) simp
              with run_refl [of dump m] 1 sent show ?thesis by simp
            next
              case False
              then have "send_commands parse dump send now gen f = (ok, d)"
                using "1.prems"(4) p Some na s sent by (subst (asm) send_commands.simps) simp
              with "1.IH" [OF p [symmetric] Some na s [symmetric] eqTrueI [OF sent] refl False, of m ok d] sent 1 gen w
              show ?thesis by simp
            qed
          qed
        qed
      qed
    qed
  qed
qed

subsection \<open>Registrations and snapshots\<close>

lemma own_message_types:
  "message_type (registration_error code) = Some (ascii ''device_registration_error'')"
  "message_type (upload_failure result revision) = Some (ascii ''snapshot_upload_result'')"
  "message_type (make_object [(ascii ''type'', JStr t), (ascii ''ok'', x), (ascii ''code'', y), (ascii ''clientRevision'', z)]) = Some t"
  "message_type (make_object [(ascii ''type'', JStr t), (ascii ''ok'', x), (ascii ''deviceId'', y), (ascii ''deviceToken'', z)]) = Some t"
  by (simp_all add: message_type_def registration_error_def upload_failure_def)

lemma FinishRegistration_run:
  assumes ok: "ledger_ok l" and h: "HeldCommand cmd \<in># lg_held l" and gen: "cm_generation cmd = gen" and out: "outcome \<noteq> Aborted"
  shows "run dump l (FinishRegistration parse dump gen cmd outcome (lg_client l)) (lg_held l - {#HeldCommand cmd#})"
proof -
  have r: "cm_reservation cmd" using hands_in [OF ok h] by simp
  have answer: "message_type j = Some t \<Longrightarrow> IsProtectedInboundResult t \<Longrightarrow>
      run dump l (snd (NotifyJson dump gen j k sens (Some (cm_reservation cmd)) (lg_client l))) (lg_held l - {#HeldCommand cmd#})" for j t k sens
    using answer_run [OF h, of j t gen dump k sens] gen r by simp
  have err: "run dump l (NotifyRegistrationError dump gen code cmd (lg_client l)) (lg_held l - {#HeldCommand cmd#})" for code
    unfolding NotifyRegistrationError_def by (rule answer [OF own_message_types(1) protected_types(3)])
  have success: "run dump l (snd (NotifyJson dump gen (make_object [(ascii ''type'', JStr (ascii ''device_registered'')), (ascii ''ok'', JBool True),
        (ascii ''deviceId'', JStr (cm_argument cmd)), (ascii ''deviceToken'', JStr token)]) [] True (Some (cm_reservation cmd)) (lg_client l)))
      (lg_held l - {#HeldCommand cmd#})" for token
    by (rule answer [OF own_message_types(4) protected_types(2)])
  have ab: "ShouldAbort gen (lg_client l) \<Longrightarrow> run dump l (lg_client l) (lg_held l - {#HeldCommand cmd#})"
    using run_step [OF ledger_step.abort [OF h], of dump] gen by simp
  show ?thesis
    using out err success ab
    by (auto simp: FinishRegistration_def simp del: ascii_Cons split: registration_outcome.splits option.splits json.splits)
qed

lemma registrations_run:
  "ledger_ok l \<Longrightarrow> gen = lg_worker l \<Longrightarrow> c = lg_client l \<Longrightarrow> \<forall>cmd. register cmd \<noteq> Aborted \<Longrightarrow>
     run dump l (ProcessRegistrationCommands parse dump register gen c) (lg_held l)"
proof (induction parse dump register gen c arbitrary: l rule: ProcessRegistrationCommands.induct)
  case (1 parse dump register gen c)
  show ?case
  proof (cases "ShouldAbort gen c \<or> PopRegistrationCommand gen c = None")
    case True
    then have "ProcessRegistrationCommands parse dump register gen c = c" by (subst ProcessRegistrationCommands.simps) auto
    with run_refl [of dump l] 1(4) show ?thesis by simp
  next
    case False
    then obtain cmd e where p: "PopRegistrationCommand gen c = Some (cmd, e)" and na: "\<not> ShouldAbort gen c" by auto
    have step: "run dump l e (add_mset (HeldCommand cmd) (lg_held l))"
      using run_step [OF ledger_step.pop_registration [of l cmd e dump]] p 1(3,4) by simp
    have g: "cm_generation cmd = gen" using p by (auto simp: PopRegistrationCommand_def is_registration_def dest!: extract_first_effect)
    have eq: "ProcessRegistrationCommands parse dump register gen c =
        ProcessRegistrationCommands parse dump register gen (FinishRegistration parse dump gen cmd (register cmd) e)"
      using p na by (subst ProcessRegistrationCommands.simps) simp
    have fin: "run dump l (FinishRegistration parse dump gen cmd (register cmd) e) (lg_held l)"
    proof (rule run_then [OF step 1(2)], goal_cases)
      case (1 m)
      then show ?case using FinishRegistration_run [OF 1(1), of cmd gen "register cmd" dump parse] g "1.prems"(4) by simp
    qed
    show ?thesis unfolding eq
    proof (rule run_then [OF fin 1(2)], goal_cases)
      case (1 m)
      from "1.IH" [OF na p refl, of m] 1 "1.prems"(2,4) show ?case by simp
    qed
  qed
qed

lemma snapshot_answer_run:
  assumes ok: "ledger_ok l" and h: "HeldSnapshot s \<in># lg_held l" and t: "message_type j = Some (ascii ''snapshot_upload_result'')"
    and gen: "gen = ps_generation s"
  shows "run dump l (snd (NotifyJson dump gen j k sens (Some (ps_reservation s)) (lg_client l))) (lg_held l - {#HeldSnapshot s#})"
  using answer_run [OF h t protected_types(4), of gen dump k sens] gen hands_in [OF ok h] by simp

lemma put_snapshot_run:
  assumes ok: "ledger_ok l" and h: "HeldSnapshot s \<in># lg_held l" "ps_generation s = lg_worker l" and p: "put_back_snapshot (lg_worker l) s (lg_client l) = (b, d)"
  shows "run dump l (if b then NotifySnapshotCanceled dump s d else d) (lg_held l - {#HeldSnapshot s#})"
proof (cases b)
  case True
  then have "d = lg_client l" using p by (auto simp: put_back_snapshot_def split: if_splits)
  then show ?thesis using True snapshot_answer_run [OF ok h(1) own_message_types(3) refl] by (simp add: NotifySnapshotCanceled_def)
next
  case False
  then have p': "put_back_snapshot (lg_worker l) s (lg_client l) = (False, d)" using p by simp
  from run_step [OF ledger_step.put_snapshot_back [OF h p', of dump]] False show ?thesis by simp
qed

lemma send_snapshot_run:
  assumes ok: "ledger_ok l" and gen: "gen = lg_worker l"
  shows "run dump l (snd (send_latest_snapshot parse dump send now gen limit (lg_client l))) (lg_held l)"
proof (cases "generation (lg_client l) = gen \<and> length (cl_pendingAcks (lg_client l)) < kMaxPendingAcks")
  case False
  then show ?thesis using run_refl [of dump l] by (auto simp: send_latest_snapshot_def)
next
  case g: True
  obtain q e where t: "TakeLatestSnapshotForSend gen (lg_client l) = (q, e)" by force
  show ?thesis
  proof (cases q)
    case None
    then have "e = lg_client l" using t by (auto simp: TakeLatestSnapshotForSend_def split: option.splits if_splits)
    then show ?thesis using run_refl [of dump l] g t None by (simp add: send_latest_snapshot_def)
  next
    case (Some s)
    have sg: "ps_generation s = gen" "generation e = gen" "cl_pendingAcks e = cl_pendingAcks (lg_client l)"
      using t Some by (auto simp: TakeLatestSnapshotForSend_def split: option.splits if_splits)
    have step: "run dump l e (add_mset (HeldSnapshot s) (lg_held l))"
      using run_step [OF ledger_step.take_snapshot [of l s e dump]] t Some gen by simp
    obtain r f where s: "SendSnapshotWithAck parse dump send now gen limit s e = (r, f)" by force
    have eq: "snd (send_latest_snapshot parse dump send now gen limit (lg_client l)) =
        (case r of snapshot_transportFailure \<Rightarrow> (case put_back_snapshot gen s f of (b, d) \<Rightarrow> if b then NotifySnapshotCanceled dump s d else d) | _ \<Rightarrow> f)"
      using g t Some s by (auto simp: send_latest_snapshot_def split: SnapshotSendResult.splits prod.splits)
    show ?thesis unfolding eq
    proof (rule run_then [OF step ok], goal_cases)
      case (1 m)
      have h: "HeldSnapshot s \<in># lg_held m" "ps_generation s = lg_worker m" using 1 sg gen by simp_all
      have returned: "run dump m' (case put_back_snapshot gen s (lg_client m') of (b, d) \<Rightarrow> if b then NotifySnapshotCanceled dump s d else d) (lg_held l)"
        if "ledger_ok m'" "lg_held m' = lg_held m" "lg_worker m' = lg_worker m" for m'
        using put_snapshot_run [OF that(1), of s _ _ dump] h that 1 gen by (auto split: prod.splits)
      show ?case
      proof (cases "next_ack e")
        case None
        then have rf: "r = snapshot_transportFailure" "f = NotifyCloudError dump gen (ascii ''ack_id_exhausted'') [] (- 1) e"
          using s sg by (simp_all add: SendSnapshotWithAck_def)
        have "run dump m f (lg_held m)" unfolding rf(2) using error_run [of dump m] 1(4) by simp
        then show ?thesis
        proof (rule run_then [OF _ 1(1)], goal_cases)
          case (1 m')
          then show ?case using returned [of m'] rf(1) by simp
        qed
      next
        case n: (Some ia)
        obtain i c where ia: "ia = (i, c)" by force
        let ?m = "m\<lparr>lg_client := c, lg_ack := Some i\<rparr>"
        have step2: "ledger_step dump m ?m"
          using take_number_run [of m i c dump] 1 sg gen g n ia by simp
        obtain b packet where en: "EncodeSnapshotUploadEvent parse dump (ps_jsonText s) i limit = (b, packet)" by force
        have s': "(r, f) = (if b \<noteq> upload_success then (snapshot_rejected, NotifySnapshotUploadFailure dump gen (ps_clientRevision s) b (ps_reservation s) c)
            else if \<not> send packet \<or> ShouldAbort gen c then (snapshot_transportFailure, c)
            else (snapshot_sent, emplace_ack i (ack_of_snapshot (now + kAckTimeout) s) c))"
          using s sg n ia en by (simp add: SendSnapshotWithAck_def)
        have r1: "run dump m c (lg_held m)" using run_step [OF step2] by simp
        have gc: "generation c = gen" using n ia sg by (auto simp: next_ack_def generation_def split: if_splits)
        consider (bad) "b \<noteq> upload_success" | (fail) "b = upload_success" "\<not> send packet \<or> ShouldAbort gen c"
          | (sent) "b = upload_success" "\<not> (\<not> send packet \<or> ShouldAbort gen c)" by blast
        then show ?thesis
        proof cases
          case bad
          with s' have rf: "r = snapshot_rejected" "f = NotifySnapshotUploadFailure dump gen (ps_clientRevision s) b (ps_reservation s) c" by simp_all
          show ?thesis
          proof (rule run_then [OF r1 1(1)], goal_cases)
            case (1 m')
            then have "HeldSnapshot s \<in># lg_held m'" using h by simp
            from snapshot_answer_run [OF 1(1) this own_message_types(2), of gen dump b "ps_clientRevision s" "[]" False] 1 sg rf \<open>lg_held m = _\<close>
            show ?case by (simp add: NotifySnapshotUploadFailure_def)
          qed
        next
          case fail
          with s' have rf: "r = snapshot_transportFailure" "f = c" by simp_all
          show ?thesis
          proof (rule run_then [OF r1 1(1)], goal_cases)
            case (1 m')
            then show ?case using returned [of m'] rf by simp
          qed
        next
          case sent
          with s' have rf: "r = snapshot_sent" "f = emplace_ack i (ack_of_snapshot (now + kAckTimeout) s) c" by simp_all
          have "ledger_step dump ?m (?m\<lparr>lg_client := emplace_ack i (ack_of_snapshot (now + kAckTimeout) s) (lg_client ?m),
              lg_held := lg_held ?m - {#HeldSnapshot s#}, lg_ack := None\<rparr>)"
            by (rule ledger_step.track_snapshot) (use h gc 1 gen in simp_all)
          from converse_rtranclp_into_rtranclp [of "ledger_step dump", OF step2 r_into_rtranclp [of "ledger_step dump", OF this]]
          show ?thesis using rf 1 by (auto simp: run_def)
        qed
      qed
    qed
  qed
qed

subsection \<open>The remembered room and the packets of the server\<close>

lemma remembered_join_run:
  assumes ok: "ledger_ok l" and gen: "gen = lg_worker l"
  shows "run dump l (snd (SendRememberedJoinIfNeeded parse dump send now gen (lg_client l))) (lg_held l)"
proof -
  obtain q e where p: "PrepareRememberedJoin gen (lg_client l) = (q, e)" by force
  show ?thesis
  proof (cases "\<exists>join. q = join_ready join")
    case False
    have "\<exists>ok. ReserveProtectedResult False (lg_client l) = (ok, e) \<and> \<not> ok \<or> e = lg_client l"
      using p False by (auto simp: PrepareRememberedJoin_def split: option.splits if_splits prod.splits bool.splits)
    then have "run dump l e (lg_held l)"
    proof (elim exE disjE conjE)
      fix b assume "ReserveProtectedResult False (lg_client l) = (b, e)" "\<not> b"
      then show ?thesis
        using run_step [OF ledger_step.reserve [of False l b e "HeldPlace (generation (lg_client l))" dump]] by simp
    qed (use run_refl [of dump l] in simp)
    then show ?thesis using p False by (auto simp: SendRememberedJoinIfNeeded_def split: RememberedJoinPreparation.splits)
  next
    case True
    then obtain join where q: "q = join_ready join" by blast
    have g: "generation (lg_client l) = gen" and len: "length (cl_pendingAcks (lg_client l)) < kMaxPendingAcks"
      and r: "ReserveProtectedResult False (lg_client l) = (True, e)"
      and j: "cm_generation join = gen" "cm_kind join = joinRoom" "cm_reservation join"
      using p q by (auto simp: PrepareRememberedJoin_def split: option.splits if_splits prod.splits bool.splits)
    have step: "run dump l e (add_mset (HeldCommand join) (lg_held l))"
      using run_step [OF ledger_step.reserve [OF r, of "HeldCommand join" dump]] g j by simp
    have len': "length (cl_pendingAcks e) < kMaxPendingAcks"
      using Reserve_effect [OF r ledger_okD(1) [OF ok]] len by (simp add: same_work_def)
    obtain sent kept f where s: "SendQueuedCommand parse dump send now gen join e = (sent, kept, f)" by (metis prod_cases3)
    show ?thesis
    proof (rule run_then [OF step ok], goal_cases)
      case (1 m)
      have h: "HeldCommand join \<in># lg_held m" using 1 by simp
      from SendQueuedCommand_run [OF 1(1) h, of parse dump send now sent kept f] s j len' 1 gen
      have r: "run dump m f (if sent then lg_held l else lg_held m)" "sent \<or> kept = join" by auto
      show ?case
      proof (cases sent)
        case True
        with r p q s show ?thesis by (simp add: SendRememberedJoinIfNeeded_def)
      next
        case False
        with r p q s have eq: "snd (SendRememberedJoinIfNeeded parse dump send now gen (lg_client l)) = ReleaseRememberedJoinReservation join f"
          by (simp add: SendRememberedJoinIfNeeded_def)
        show ?thesis unfolding eq
        proof (rule run_then [OF r(1) 1(1)], goal_cases)
          case (1 n)
          then have "HeldCommand join \<in># lg_held n" using h False by simp
          from run_step [OF ledger_step.release [OF this, of dump]] 1 \<open>lg_held m = _\<close> False show ?case by simp
        qed
      qed
    qed
  qed
qed

lemma answer_type: "message_type (answer_message p (if ack_succeeded payload then payload else ack_refusal payload)) = Some (pa_resultType p)"
proof -
  have "is_object payload" if "ack_succeeded payload" using that by (cases payload) (auto simp: ack_succeeded_def)
  moreover have "is_object (ack_refusal payload)" by (simp add: ack_refusal_def Let_def del: ascii_Cons)
  ultimately have o: "is_object (if ack_succeeded payload then payload else ack_refusal payload)" by simp
  show ?thesis unfolding answer_message_def
    by (subst message_type_add_identity) (simp_all add: o message_type_def find_jset del: ascii_Cons)
qed

lemma update_from_ack_same:
  assumes "update_from_ack gen p payload c = Some d"
  shows "same_work c d \<and> same_queue c d"
proof -
  have commit: "same_work c (snd (CommitRememberedRenameFromAck gen n payload c)) \<and> same_queue c (snd (CommitRememberedRenameFromAck gen n payload c))" for n
    by (auto simp: CommitRememberedRenameFromAck_def same_work_def same_queue_def split: option.splits json.splits)
  have status: "UpdateStatusFromAck gen k payload x = Some y \<Longrightarrow> same_work x y \<and> same_queue x y" for k x y
    by (auto simp: UpdateStatusFromAck_def same_work_def same_queue_def split: if_splits)
  obtain u e where u: "(if pa_kind p = renameRoom then CommitRememberedRenameFromAck gen (pa_commandSequence p) payload c else (True, c)) = (u, e)"
    by force
  have e: "same_work c e \<and> same_queue c e" using commit [of "pa_commandSequence p"] u by (auto split: if_splits)
  show ?thesis
  proof (cases "ack_succeeded payload \<and> u")
    case True
    with assms u have "UpdateStatusFromAck gen (pa_kind p) payload e = Some d" by (simp add: update_from_ack_def)
    with status e show ?thesis by (blast intro: same_work_trans same_queue_trans)
  next
    case False
    with assms u e show ?thesis by (auto simp: update_from_ack_def split: if_splits)
  qed
qed

lemma HandleAck_run:
  assumes ok: "ledger_ok l" and gen: "gen = lg_worker l" and a: "HandleAck dump gen ackId payload (lg_client l) = Some d"
  shows "run dump l d (lg_held l)"
proof -
  obtain q e where t: "take_ack gen ackId (lg_client l) = (q, e)" by force
  show ?thesis
  proof (cases q)
    case None
    then have "e = lg_client l" using t by (auto simp: take_ack_def Let_def split: if_splits option.splits)
    with a t None run_refl [of dump l] show ?thesis by (simp add: HandleAck_def)
  next
    case (Some p)
    have m: "map_of (cl_pendingAcks (lg_client l)) ackId = Some p" using t Some by (auto simp: take_ack_def Let_def split: if_splits option.splits)
    then have p: "pa_reservation p" "IsProtectedInboundResult (pa_resultType p)"
      using ledger_okD(2) [OF ok] by (auto simp: items_ok_def list_all_iff dest!: map_of_SomeD)
    have step: "run dump l e (add_mset (HeldAck gen p) (lg_held l))"
      using run_step [OF ledger_step.take_ack [of l ackId p e dump]] t Some gen by simp
    obtain f where f: "update_from_ack gen p payload e = Some f" "d = NotifyAnswer dump gen p payload f"
      using a t Some by (auto simp: HandleAck_def)
    have "run dump l f (add_mset (HeldAck gen p) (lg_held l))"
    proof (rule run_then [OF step ok], goal_cases)
      case (1 n)
      then show ?case using quiet_run [of n f dump] update_from_ack_same [OF f(1)] by simp
    qed
    then show ?thesis
    proof (rule run_then [OF _ ok], goal_cases)
      case (1 n)
      then have "HeldAck gen p \<in># lg_held n" by simp
      from answer_run [OF this answer_type [of p payload] p(2), of gen dump "[]" False] 1 p(1) f(2) show ?case
        by (simp add: NotifyAnswer_def)
    qed
  qed
qed

lemma event_run:
  assumes ok: "ledger_ok l" and a: "HandleServerEvent dump gen name payload (lg_client l) = Some d"
  shows "run dump l d (lg_held l)"
proof -
  have status_then: "run dump l (snd (NotifyJson dump gen j k sens None (UpdateStatus gen f (lg_client l)))) (lg_held l)" for j k sens f
  proof (rule run_then [OF status_run [of dump l gen f] ok], goal_cases)
    case (1 m)
    then show ?case using notify_run [of dump m gen j k sens] by simp
  qed
  show ?thesis
    using a status_then notify_run [of dump l] error_run [of dump l] run_refl [of dump l]
    by (auto simp: HandleServerEvent_def Let_def simp del: ascii_Cons split: if_splits option.splits)
qed

lemma packet_run:
  assumes ok: "ledger_ok l" and gen: "gen = lg_worker l" and a: "handle_packet parse dump transmit gen cn packet (lg_client l) = Some (keep, d)"
  shows "run dump l d (lg_held l)"
  using a run_refl [of dump l] error_run [of dump l] HandleAck_run [OF ok gen] event_run [OF ok]
  by (auto simp: handle_packet_def simp del: ascii_Cons split: if_splits option.splits)

subsection \<open>Rounds\<close>

lemma outgoing_run:
  assumes ok: "ledger_ok l" and gen: "gen = lg_worker l" and reg: "\<forall>cmd. register cmd \<noteq> Aborted"
  shows "run dump l (snd (ProcessOutgoing parse dump register send now gen limit (lg_client l))) (lg_held l)"
proof -
  let ?c = "ProcessRegistrationCommands parse dump register gen (lg_client l)"
  note r = registrations_run [OF ok gen refl reg, of dump parse]
  show ?thesis
  proof (cases "ShouldAbort gen ?c")
    case True
    with r show ?thesis by (simp add: ProcessOutgoing_def Let_def)
  next
    case False
    let ?e = "ExpireQueuedTransientRequests dump now gen ?c"
    have e: "run dump l ?e (lg_held l)"
    proof (rule run_then [OF r ok], goal_cases)
      case (1 m)
      then show ?case using expire_queued_run [OF 1(1), of gen dump now] gen by simp
    qed
    obtain b f where s: "send_commands parse dump send now gen ?e = (b, f)" by force
    have f: "run dump l f (lg_held l)"
    proof (rule run_then [OF e ok], goal_cases)
      case (1 m)
      then show ?case using send_commands_run [OF 1(1) _ refl, of gen parse dump send now b f] s gen by simp
    qed
    show ?thesis
    proof (cases b)
      case False
      with f s \<open>\<not> ShouldAbort gen ?c\<close> show ?thesis by (simp add: ProcessOutgoing_def Let_def)
    next
      case True
      with s False have eq: "snd (ProcessOutgoing parse dump register send now gen limit (lg_client l)) =
          snd (send_latest_snapshot parse dump (send f) now gen limit f)" by (simp add: ProcessOutgoing_def Let_def)
      show ?thesis unfolding eq
      proof (rule run_then [OF f ok], goal_cases)
        case (1 m)
        then show ?case using send_snapshot_run [OF 1(1), of gen dump parse "send f" now limit] gen by simp
      qed
    qed
  qed
qed

lemma connected_round_run:
  assumes ok: "ledger_ok l" and gen: "gen = lg_worker l" and reg: "\<forall>cmd. register cmd \<noteq> Aborted"
    and round: "connected_round parse dump register transmit now gen cn received activity (lg_client l) = Some (keep, activity', d)"
  shows "run dump l d (lg_held l)"
proof -
  obtain j c1 where j: "SendRememberedJoinIfNeeded parse dump (SendText transmit gen (cn_outboundLimit cn) (lg_client l)) now gen (lg_client l) = (j, c1)"
    by force
  obtain b c2 where o2: "ProcessOutgoing parse dump register (SendText transmit gen (cn_outboundLimit cn)) now gen (cn_outboundLimit cn) c1 = (b, c2)"
    by force
  let ?c3 = "ExpireAcks dump now gen c2"
  have r1: "run dump l c1 (lg_held l)"
    using remembered_join_run [OF ok gen, of dump parse "SendText transmit gen (cn_outboundLimit cn) (lg_client l)" now] j by simp
  have r2: "run dump l c2 (lg_held l)"
  proof (rule run_then [OF r1 ok], goal_cases)
    case (1 m)
    then show ?case
      using outgoing_run [OF 1(1) _ reg, where gen=gen and dump=dump and parse=parse and send="SendText transmit gen (cn_outboundLimit cn)"
        and now=now and limit="cn_outboundLimit cn"] o2 gen by simp
  qed
  have r3: "run dump l ?c3 (lg_held l)"
  proof (rule run_then [OF r2 ok], goal_cases)
    case (1 m)
    then show ?case using ExpireAcks_run [OF 1(1), of gen dump now] gen by simp
  qed
  have err: "run dump l (NotifyCloudError dump gen code t u x) (lg_held l)" if "run dump l x (lg_held l)" for x code t u
  proof (rule run_then [OF that ok], goal_cases)
    case (1 m)
    then show ?case using error_run [of dump m gen code t u] by simp
  qed
  have pk: "run dump l x (lg_held l)" if "handle_packet parse dump transmit gen cn packet ?c3 = Some (k, x)" for packet k x
  proof (rule run_then [OF r3 ok], goal_cases)
    case (1 m)
    then show ?case using packet_run [OF 1(1), of gen parse dump transmit cn packet k x] that gen by simp
  qed
  show ?thesis
  proof (cases "j = room_networkFailure")
    case True
    with round j r1 show ?thesis by (simp add: connected_round_def)
  next
    case False
    then have rd: "(case (b, c2) of (False, c) \<Rightarrow> Some (False, activity, c)
          | (True, c) \<Rightarrow>
              let c = ExpireAcks dump now gen c;
                  stale = (\<lambda>activity c. if is_stale cn now activity
                      then (False, activity, NotifyCloudError dump gen (ascii ''connection_stale'') [] (- 1) c) else (True, activity, c)) in
              (case received of
                 None \<Rightarrow> Some (stale activity c)
               | Some recv_closed \<Rightarrow> Some (False, activity, c)
               | Some recv_failed \<Rightarrow> Some (False, activity, c)
               | Some recv_rejected \<Rightarrow> Some (False, activity, NotifyCloudError dump gen (ascii ''binary_or_invalid_message'') [] (- 1) c)
               | Some recv_poll \<Rightarrow> Some (stale activity c)
               | Some (recv_message packet) \<Rightarrow>
                   map_option (\<lambda>(keep, c). if keep then stale now c else (False, now, c))
                     (handle_packet parse dump transmit gen cn packet c))) = Some (keep, activity', d)"
      using round by (cases j) (simp_all only: connected_round_def j o2 prod.case RememberedJoinResult.case RememberedJoinResult.distinct simp_thms)
    show ?thesis
    proof (cases b)
      case False
      with rd r2 show ?thesis by simp
    next
      case True
      with rd show ?thesis
        using r3 err pk by (auto simp: Let_def simp del: ascii_Cons split: option.splits ReceiveResult.splits if_splits)
    qed
  qed
qed



end
