(* ===== verification/ClientErrors.thy ===== *)
theory ClientErrors
  imports LedgerInvariant
begin

text \<open>
  The error paths of the cloud client: answers of the server with members of an unexpected type, commands
  that cannot be encoded, and the classification of the status line.
\<close>

definition not_string :: "bytes \<Rightarrow> json \<Rightarrow> bool" where
  "not_string key j \<longleftrightarrow> (case json_find key j of None \<Rightarrow> False | Some (JStr v) \<Rightarrow> False | Some _ \<Rightarrow> True)"

definition ill_typed_room :: "json \<Rightarrow> bool" where
  "ill_typed_room payload \<longleftrightarrow> not_string (ascii ''broadcasterName'') payload \<or>
     (case json_find (ascii ''room'') payload of
        Some room \<Rightarrow> is_object room \<and> (not_string (ascii ''id'') room \<or> not_string (ascii ''displayName'') room)
      | None \<Rightarrow> False)"

lemma string_value_None: "string_value key j v = None \<longleftrightarrow> not_string key j"
  by (auto simp: string_value_def not_string_def split: option.splits json.splits)

lemma string_value_Some: "string_value key j v = Some x \<Longrightarrow> \<not> not_string key j"
  using string_value_None [of key j v] by simp

lemma status_from_ack_None:
  "status_from_ack kind payload s = None \<longleftrightarrow> kind \<in> {joinRoom, renameRoom, joinUnified, renameUnified} \<and> ill_typed_room payload"
proof -
  have "read_room payload s = None \<longleftrightarrow>
      (case json_find (ascii ''room'') payload of
        Some room \<Rightarrow> is_object room \<and> (not_string (ascii ''id'') room \<or> not_string (ascii ''displayName'') room)
      | None \<Rightarrow> False)"
    by (auto simp: read_room_def string_value_None simp del: ascii_Cons dest: string_value_Some split: option.splits)
  then show ?thesis
    by (auto simp: status_from_ack_def ill_typed_room_def string_value_None simp del: ascii_Cons dest: string_value_Some split: option.splits)
qed

lemma take_ack_generation: "take_ack gen i c = (Some p, d) \<Longrightarrow> generation d = gen"
  by (auto simp: take_ack_def Let_def split: if_splits option.splits)

lemma Commit_generation: "generation (snd (CommitRememberedRenameFromAck gen n payload c)) = generation c"
  by (auto simp: CommitRememberedRenameFromAck_def generation_def split: option.splits json.splits)

text \<open>
  Property C37. An acknowledgement ends the program (an exception leaves the worker thread) exactly when it
  confirms a join or a rename that the client waits for and the name or the members of the room are
  there but are not texts; a rename must first have passed its own checks.
\<close>

theorem ill_typed_ack_ends_program:
  "HandleAck dump gen ackId payload c = None \<longleftrightarrow>
     (case take_ack gen ackId c of
        (Some p, d) \<Rightarrow> ack_succeeded payload \<and> pa_kind p \<in> {joinRoom, renameRoom, joinUnified, renameUnified} \<and> ill_typed_room payload \<and>
          (if pa_kind p = renameRoom then fst (CommitRememberedRenameFromAck gen (pa_commandSequence p) payload d) else True)
      | (None, d) \<Rightarrow> False)"
proof -
  obtain q d where t: "take_ack gen ackId c = (q, d)" by force
  show ?thesis
  proof (cases q)
    case None
    then show ?thesis by (simp add: HandleAck_def t)
  next
    case (Some p)
    have g: "generation d = gen" using take_ack_generation t Some by metis
    obtain u e where u: "CommitRememberedRenameFromAck gen (pa_commandSequence p) payload d = (u, e)" by force
    have "generation e = gen" using Commit_generation [of gen "pa_commandSequence p" payload d] g by (simp add: u)
    with g show ?thesis
      by (auto simp: HandleAck_def t Some update_from_ack_def u UpdateStatusFromAck_def status_from_ack_None)
  qed
qed

text \<open>
  A command whose event cannot be encoded is put back at the head of the queue and the
  connection is given up, so it is met first on every later connection and nothing behind it is sent.
\<close>

theorem unencodable_command_blocks_queue:
  assumes "cl_commands c = cmd # rest" "cm_generation cmd = gen" "generation c = gen" "cm_reservation cmd" "cm_kind cmd \<noteq> registerDevice"
    "length (cl_pendingAcks c) < kMaxPendingAcks" "\<not> ShouldAbort gen c" "cl_nextAckId c \<noteq> - 1"
    "command_event parse cmd = Some (name, payload)" "name \<noteq> []" "EncodeSocketEventAck dump name payload (cl_nextAckId c) = []"
  shows "send_commands parse dump send now gen c = (False, c\<lparr>cl_nextAckId := cl_nextAckId c + 1\<rparr>)"
proof -
  let ?d = "c\<lparr>cl_commands := rest\<rparr>"
  have p: "pop_command gen c = (Some cmd, ?d)" using assms(1,2,5,6) by (simp add: pop_command_def)
  have s: "SendQueuedCommand parse dump (send ?d) now gen cmd ?d = (False, cmd, ?d\<lparr>cl_nextAckId := cl_nextAckId c + 1\<rparr>)"
    using assms(3,6,8-11) by (simp add: SendQueuedCommand_def next_ack_def Let_def)
  have "\<not> ShouldAbort gen ?d" using assms(7) by (simp add: ShouldAbort_def)
  then show ?thesis
    using assms(1,3,4) unfolding send_commands.simps [of parse dump send now gen c] p s by (simp add: s put_back_command_def)
qed

definition stuck_client :: client where
  "stuck_client = init_client\<lparr>cl_commands := [\<lparr>cm_kind = renameRoom, cm_argument = [0xFF], cm_secondArgument = [], cm_requestId = [],
     cm_generation = 0, cm_sequence = 1, cm_clientRevision = 0, cm_pageLimit = 0, cm_deadline = None, cm_reservation = True\<rparr>],
     cl_reservations := 1\<rparr>"

theorem unencodable_command_blocks_queue_witness:
  "send_commands (\<lambda>bs. None) (\<lambda>j. None) (\<lambda>c bs. True) 0 0 stuck_client = (False, stuck_client\<lparr>cl_nextAckId := 2\<rparr>)"
proof -
  have "command_event (\<lambda>bs. None) (hd (cl_commands stuck_client)) =
      Some (ascii ''room:rename'', make_object [(ascii ''broadcasterName'', JStr [0xFF])])"
    by (simp add: stuck_client_def command_event_def)
  moreover have "EncodeSocketEventAck (\<lambda>j. None) n p i = []" for n p i
    by (simp add: EncodeSocketEventAck_def EncodeWithPrefix_def)
  moreover have "cl_nextAckId stuck_client = 1" "generation stuck_client = 0"
    by (simp_all add: stuck_client_def init_client_def generation_def empty_config_def)
  ultimately show ?thesis
    using unencodable_command_blocks_queue [where c=stuck_client and cmd="hd (cl_commands stuck_client)" and rest="[]" and gen=0
        and parse="\<lambda>bs. None" and dump="\<lambda>j. None" and send="\<lambda>c bs. True" and now=0]
    by (simp add: stuck_client_def init_client_def kMaxPendingAcks_def ShouldAbort_def)
qed

text \<open>
  The status line: without a joined or pending room it says so, it is \<open>online\<close> only with a
  connection and a confirmed room while nothing is in progress, and its text begins with the name of the room.
\<close>

theorem status_line_classified:
  "case BuildCloudMatchDisplayStatus s d of (state, line) \<Rightarrow>
     (state = display_notJoined \<longleftrightarrow> \<not> dc_hasJoinedRoom d \<and> \<not> dc_hasPendingRoom d) \<and>
     (state = display_online \<longleftrightarrow> dc_hasJoinedRoom d \<and> st_connected s \<and> dc_roomConfirmed d \<and>
        \<not> (dc_hasPendingRoom d \<or> dc_joining d \<or> dc_registering d \<or> dc_restoring d \<or> st_connecting s \<or> st_reconnecting s)) \<and>
     (if state = display_notJoined then True else take (length (dc_roomName d)) line = dc_roomName d)"
  by (auto simp: BuildCloudMatchDisplayStatus_def)

end
