(* ===== verification/LanFrames.thy ===== *)
theory LanFrames
  imports LibrarySnapshot
begin

text \<open>
  The frames of the LAN service (\<^verbatim>\<open>KeyMappingLanService.cpp\<close>): a payload is sent behind its length in
  four bytes, most significant first. A socket delivers bytes in pieces of its own choosing; a piece is what
  one call of \<^verbatim>\<open>recv\<close> returns at most, and no piece is left when the connection has ended or timed out.
\<close>

definition kProtocolVersion :: int where "kProtocolVersion = 1"
definition kMaximumActiveMask :: "32 word" where "kMaximumActiveMask = 0x3FFF"
definition kMaximumPayloadBytes :: nat where "kMaximumPayloadBytes = 65536"
definition kStateHeartbeatMs :: int where "kStateHeartbeatMs = 250"
definition kServerHeartbeatTimeoutMs :: int where "kServerHeartbeatTimeoutMs = 1000"
definition kReconnectIntervalMs :: int where "kReconnectIntervalMs = 2000"
definition kTeamSyncDebounceMs :: int where "kTeamSyncDebounceMs = 200"

subsection \<open>Sending\<close>

text \<open>\<open>counts\<close> are the results of the calls of \<^verbatim>\<open>send\<close>; what has been sent, and whether all of it was.\<close>

fun SendAll :: "int list \<Rightarrow> bytes \<Rightarrow> bytes \<times> bool \<times> int list" where
  "SendAll counts [] = ([], True, counts)"
| "SendAll [] (b # data) = ([], False, [])"
| "SendAll (accepted # counts) (b # data) =
     (if accepted \<le> 0 then ([], False, counts)
      else case SendAll counts (drop (nat accepted) (b # data)) of
        (sent, ok, rest) \<Rightarrow> (take (nat accepted) (b # data) @ sent, ok, rest))"

definition htonl :: "32 word \<Rightarrow> bytes" where
  "htonl n = [ucast (drop_bit 24 n), ucast (drop_bit 16 n), ucast (drop_bit 8 n), ucast n]"

definition ntohl :: "bytes \<Rightarrow> 32 word" where
  "ntohl bs = foldl (\<lambda>n b. push_bit 8 n OR ucast b) 0 bs"

definition frame_of :: "bytes \<Rightarrow> bytes" where
  "frame_of payload = htonl (of_nat (length payload)) @ payload"

definition frame_fits :: "bytes \<Rightarrow> bool" where
  "frame_fits payload \<longleftrightarrow> payload \<noteq> [] \<and> length payload \<le> kMaximumPayloadBytes"

definition SendJsonFrame :: "int list \<Rightarrow> bytes \<Rightarrow> bytes \<times> bool \<times> int list" where
  "SendJsonFrame counts payload =
     (if \<not> frame_fits payload then ([], False, counts)
      else case SendAll counts (htonl (of_nat (length payload))) of
        (sent, False, rest) \<Rightarrow> (sent, False, rest)
      | (sent, True, rest) \<Rightarrow> (case SendAll rest payload of (sent', ok, rest) \<Rightarrow> (sent @ sent', ok, rest)))"

subsection \<open>Receiving\<close>

text \<open>A call of \<^verbatim>\<open>recv\<close> for \<open>n\<close> bytes takes as many of the next piece; an empty piece ends the reading.\<close>

fun ReceiveAll :: "nat \<Rightarrow> bytes list \<Rightarrow> bytes option \<times> bytes list" where
  "ReceiveAll 0 pieces = (Some [], pieces)"
| "ReceiveAll (Suc n) [] = (None, [])"
| "ReceiveAll (Suc n) (piece # pieces) =
     (if piece = [] then (None, pieces)
      else if length piece > Suc n then (Some (take (Suc n) piece), drop (Suc n) piece # pieces)
      else case ReceiveAll (Suc n - length piece) pieces of
        (Some rest, left) \<Rightarrow> (Some (piece @ rest), left)
      | r \<Rightarrow> r)"

definition ReceiveJsonFrame :: "bytes list \<Rightarrow> bytes option \<times> bytes list" where
  "ReceiveJsonFrame pieces =
     (case ReceiveAll 4 pieces of
        (None, left) \<Rightarrow> (None, left)
      | (Some networkLength, left) \<Rightarrow>
          let n = unat (ntohl networkLength) in
          if n = 0 \<or> n > kMaximumPayloadBytes then (None, left) else ReceiveAll n left)"

subsection \<open>Frames arrive as they were sent\<close>

lemma send_all: "SendAll counts data = (sent, True, rest) \<Longrightarrow> sent = data"
proof (induction counts data arbitrary: sent rest rule: SendAll.induct)
  case (3 accepted counts d data)
  then show ?case by (auto split: if_splits prod.splits)
qed auto

lemma send_all_prefix: "SendAll counts data = (sent, ok, rest) \<Longrightarrow> \<exists>n. sent = take n data"
proof (induction counts data arbitrary: sent ok rest rule: SendAll.induct)
  case (3 accepted counts d data)
  show ?case
  proof (cases "accepted \<le> 0")
    case True
    then show ?thesis using 3 by (auto intro: exI [of _ 0])
  next
    case False
    then obtain sent' where s: "SendAll counts (drop (nat accepted) (d # data)) = (sent', ok, rest)"
      "sent = take (nat accepted) (d # data) @ sent'"
      using "3.prems" by (auto split: prod.splits)
    then obtain n where "sent' = take n (drop (nat accepted) (d # data))" using "3.IH" [OF False] by blast
    then have "sent = take (nat accepted + n) (d # data)" by (simp only: s(2) take_add)
    then show ?thesis by blast
  qed
qed auto

lemma receive_all:
  assumes "list_all (\<lambda>p. p \<noteq> []) pieces" "n \<le> length (concat pieces)"
  shows "\<exists>left. ReceiveAll n pieces = (Some (take n (concat pieces)), left) \<and> concat left = drop n (concat pieces) \<and>
     list_all (\<lambda>p. p \<noteq> []) left"
  using assms
proof (induction n pieces rule: ReceiveAll.induct)
  case (3 n piece pieces)
  show ?case
  proof (cases "length piece > Suc n")
    case True
    then show ?thesis using 3 by auto
  next
    case False
    then have "\<exists>left. ReceiveAll (Suc n - length piece) pieces = (Some (take (Suc n - length piece) (concat pieces)), left) \<and>
        concat left = drop (Suc n - length piece) (concat pieces) \<and> list_all (\<lambda>p. p \<noteq> []) left"
      using 3 by simp
    then show ?thesis using False 3 by auto
  qed
qed auto

lemma ntohl_htonl: "ntohl (htonl n) = n"
proof (rule bit_word_eqI)
  fix i assume i: "i < LENGTH(32)"
  show "bit (ntohl (htonl n)) i = bit n i"
    by (cases "i < 8"; cases "i < 16"; cases "i < 24") (use i in \<open>auto simp: ntohl_def htonl_def bit_simps\<close>)
qed

lemma length_htonl [simp]: "length (htonl n) = 4"
  by (simp add: htonl_def)

lemma receive_frame:
  assumes "frame_fits payload" "list_all (\<lambda>p. p \<noteq> []) pieces" "concat pieces = frame_of payload @ rest"
  shows "\<exists>left. ReceiveJsonFrame pieces = (Some payload, left) \<and> concat left = rest \<and> list_all (\<lambda>p. p \<noteq> []) left"
proof -
  have len: "unat (of_nat (length payload) :: 32 word) = length payload"
    using assms(1) by (simp add: frame_fits_def kMaximumPayloadBytes_def unat_of_nat take_bit_nat_eq_self_iff)
  obtain l1 where l1: "ReceiveAll 4 pieces = (Some (htonl (of_nat (length payload))), l1)" "concat l1 = payload @ rest" "list_all (\<lambda>p. p \<noteq> []) l1"
    using receive_all [OF assms(2), of 4] by (auto simp: assms(3) frame_of_def)
  obtain l2 where l2: "ReceiveAll (length payload) l1 = (Some payload, l2)" "concat l2 = rest" "list_all (\<lambda>p. p \<noteq> []) l2"
    using receive_all [OF l1(3), of "length payload"] by (auto simp: l1(2))
  show ?thesis using l1(1) l2 assms(1) len
    by (simp add: ReceiveJsonFrame_def ntohl_htonl frame_fits_def)
qed

fun receive_frames :: "nat \<Rightarrow> bytes list \<Rightarrow> bytes option list" where
  "receive_frames 0 pieces = []"
| "receive_frames (Suc n) pieces = (case ReceiveJsonFrame pieces of (r, left) \<Rightarrow> r # receive_frames n left)"

text \<open>Property C15. Payloads that fit are received one by one as they were sent, however the connection cuts their bytes into pieces.\<close>

theorem frames_arrive:
  assumes "list_all frame_fits payloads" "list_all (\<lambda>p. p \<noteq> []) pieces" "concat pieces = concat (map frame_of payloads)"
  shows "receive_frames (length payloads) pieces = map Some payloads"
  using assms
proof (induction payloads arbitrary: pieces)
  case (Cons payload payloads)
  obtain left where "ReceiveJsonFrame pieces = (Some payload, left)" "concat left = concat (map frame_of payloads)" "list_all (\<lambda>p. p \<noteq> []) left"
    using receive_frame [of payload pieces "concat (map frame_of payloads)"] Cons.prems by auto
  then show ?case using Cons by simp
qed simp

lemma frames_arrive_witness:
  "receive_frames (length [[7], [8, 9 :: byte]]) [[0, 0], [0, 1, 7, 0, 0], [0, 2, 8], [9]] = map Some [[7], [8, 9]]"
  by (rule frames_arrive) (simp_all add: frame_fits_def kMaximumPayloadBytes_def frame_of_def htonl_def)

text \<open>What a frame puts on the connection, whatever the socket accepts, is a beginning of the frame, and all of it when the call succeeds.\<close>

lemma send_frame:
  assumes "SendJsonFrame counts payload = (sent, ok, rest)"
  shows "(ok \<longrightarrow> frame_fits payload \<and> sent = frame_of payload) \<and> (\<exists>n. sent = take n (frame_of payload))"
proof (cases "frame_fits payload")
  case True
  obtain s1 ok1 r1 where s1: "SendAll counts (htonl (of_nat (length payload))) = (s1, ok1, r1)" by (metis prod_cases3)
  show ?thesis
  proof (cases ok1)
    case False
    obtain n where "s1 = take n (htonl (of_nat (length payload)))" using send_all_prefix [OF s1] by blast
    then have "s1 = take (min n 4) (frame_of payload)" by (simp add: frame_of_def min_def)
    moreover have "sent = s1 \<and> \<not> ok" using assms True s1 False by (simp add: SendJsonFrame_def)
    ultimately show ?thesis by blast
  next
    case ok: True
    obtain s2 ok2 r2 where s2: "SendAll r1 payload = (s2, ok2, r2)" by (metis prod_cases3)
    obtain n where n: "s2 = take n payload" using send_all_prefix [OF s2] by blast
    have "sent = htonl (of_nat (length payload)) @ s2" "ok = ok2"
      using assms True s1 s2 ok send_all [of counts _ s1 r1] by (auto simp: SendJsonFrame_def)
    moreover have "htonl (of_nat (length payload)) @ s2 = take (4 + n) (frame_of payload)" by (simp add: n frame_of_def)
    ultimately have "\<exists>n. sent = take n (frame_of payload)" "ok \<longrightarrow> sent = frame_of payload"
      using s2 send_all [of r1 payload s2 r2] by (metis, auto simp: frame_of_def)
    then show ?thesis using True by simp
  qed
qed (use assms in \<open>auto simp: SendJsonFrame_def intro: exI [of _ 0]\<close>)

end
