(* ===== verification/LanState.thy ===== *)
theory LanState
  imports LanFrames
begin

text \<open>
  The shared state of the LAN service and the calls of the dialog. The threads of the service run between
  these calls; what they notify and send is appended to the log of events. Starting a thread, the socket
  library and the list of local addresses are inputs; joining a thread runs what it still does, an argument.
\<close>

record lan_env =
  ne_dump :: "json \<Rightarrow> bytes option"
  ne_parse :: "bytes \<Rightarrow> json option"
  ne_float_int :: "u64 \<Rightarrow> int"

subsection \<open>Members read with a default\<close>

text \<open>\<open>None\<close> is the exception of the json library, for a value of the wrong type and for one that is no object.\<close>

fun number_word :: "lan_env \<Rightarrow> json \<Rightarrow> 'a :: len word option" where
  "number_word env (JInt n) = Some (ucast n)"
| "number_word env (JUInt n) = Some (ucast n)"
| "number_word env (JFloat bits) = Some (word_of_int (ne_float_int env bits))"
| "number_word env (JBool b) = Some (if b then 1 else 0)"
| "number_word env _ = None"

definition value_word :: "lan_env \<Rightarrow> string \<Rightarrow> json \<Rightarrow> 'a :: len word option" where
  "value_word env k j = (case jvalue (ascii k) (JUInt 0) j of Some v \<Rightarrow> number_word env v | None \<Rightarrow> None)"

definition value_int :: "lan_env \<Rightarrow> string \<Rightarrow> json \<Rightarrow> int option" where
  "value_int env k j = map_option (\<lambda>w :: 32 word. sint w) (value_word env k j)"

abbreviation value_text :: "string \<Rightarrow> json \<Rightarrow> bytes option" where "value_text k \<equiv> jvalue_string (ascii k) []"

abbreviation value_flag :: "string \<Rightarrow> json \<Rightarrow> bool option" where "value_flag k \<equiv> jvalue_bool (ascii k) False"

definition text_json :: "string \<Rightarrow> json" where "text_json s = JStr (ascii s)"

definition version_json :: json where "version_json = JInt (word_of_int kProtocolVersion)"

definition word_json :: "32 word \<Rightarrow> json" where "word_json n = JUInt (ucast n)"

subsection \<open>The state\<close>

datatype KeyMappingLanRole = Standalone | Server | Client

record KeyMappingLanServerInfo =
  si_id :: bytes
  si_name :: bytes
  si_address :: bytes
  si_port :: "16 word"

record KeyMappingLanStatusSnapshot =
  ss_role :: KeyMappingLanRole
  ss_running :: bool
  ss_connected :: bool
  ss_reconnecting :: bool
  ss_discovering :: bool
  ss_teamSyncSupported :: bool
  ss_teamSyncPushSupported :: bool
  ss_teamSyncBidirectionalSupported :: bool
  ss_teamSyncSubscribed :: bool
  ss_teamSyncClientWriteAllowed :: bool
  ss_teamSyncAutoSend :: bool
  ss_status :: bytes
  ss_remoteDeviceName :: bytes
  ss_serverId :: bytes
  ss_serverAddress :: bytes
  ss_pairCode :: bytes
  ss_port :: "16 word"
  ss_localAddresses :: "bytes list"
  ss_discoveredServers :: "KeyMappingLanServerInfo list"

record TeamSyncProposalResult =
  pr_sourceId :: bytes
  pr_proposalId :: "32 word"
  pr_accepted :: bool
  pr_reason :: bytes

datatype lan_event = FrameSent bytes | RefusalSent bytes | DatagramSent bytes | StateChanged | TeamSyncMessage bytes

record lan =
  ln_wsaReady :: bool
  ln_running :: bool
  ln_discoveryRunning :: bool
  ln_localActiveMask :: "32 word"
  ln_remoteActiveMask :: "32 word"
  ln_requestId :: "32 word"
  ln_pending :: bool
  ln_subscriptionDesired :: bool
  ln_subscriptionId :: "32 word"
  ln_revision :: u64
  ln_clientWriteAllowed :: bool
  ln_autoSend :: bool
  ln_policyGeneration :: "32 word"
  ln_status :: KeyMappingLanStatusSnapshot
  ln_deviceName :: bytes
  ln_localDeviceId :: bytes
  ln_snapshot :: bytes
  ln_proposalResults :: "TeamSyncProposalResult list"
  ln_events :: "lan_event list"

definition emit :: "lan_event \<Rightarrow> lan \<Rightarrow> lan" where
  "emit e l = l\<lparr>ln_events := ln_events l @ [e]\<rparr>"

definition with_status :: "(KeyMappingLanStatusSnapshot \<Rightarrow> KeyMappingLanStatusSnapshot) \<Rightarrow> lan \<Rightarrow> lan" where
  "with_status f l = l\<lparr>ln_status := f (ln_status l)\<rparr>"

definition NotifyStateChanged :: "lan \<Rightarrow> lan" where "NotifyStateChanged = emit StateChanged"

definition NotifyTeamSyncMessage :: "bytes \<Rightarrow> lan \<Rightarrow> lan" where "NotifyTeamSyncMessage message = emit (TeamSyncMessage message)"

subsection \<open>Calls of the dialog\<close>

definition SetTeamSyncSnapshot :: "bytes \<Rightarrow> lan \<Rightarrow> lan" where
  "SetTeamSyncSnapshot snapshot l =
     (if ln_snapshot l = snapshot then l else l\<lparr>ln_snapshot := snapshot, ln_revision := ln_revision l + 1\<rparr>)"

definition SetRemoteTeamSyncSnapshot :: "bytes \<Rightarrow> u64 \<Rightarrow> lan \<Rightarrow> lan" where
  "SetRemoteTeamSyncSnapshot snapshot revision l = l\<lparr>ln_snapshot := snapshot\<rparr>"

definition SetTeamSyncClientWriteAllowed :: "bool \<Rightarrow> lan \<Rightarrow> lan" where
  "SetTeamSyncClientWriteAllowed allowed l =
     NotifyStateChanged (with_status (\<lambda>s. s\<lparr>ss_teamSyncClientWriteAllowed := allowed\<rparr>)
       (l\<lparr>ln_clientWriteAllowed := allowed,
          ln_policyGeneration := (if ln_clientWriteAllowed l \<noteq> allowed then ln_policyGeneration l + 1 else ln_policyGeneration l)\<rparr>))"

definition SetTeamSyncAutoSend :: "bool \<Rightarrow> lan \<Rightarrow> lan" where
  "SetTeamSyncAutoSend enabled l =
     NotifyStateChanged (with_status (\<lambda>s. s\<lparr>ss_teamSyncAutoSend := enabled\<rparr>) (l\<lparr>ln_autoSend := enabled\<rparr>))"

definition CompleteTeamSyncProposal :: "bytes \<Rightarrow> 32 word \<Rightarrow> bool \<Rightarrow> bytes \<Rightarrow> lan \<Rightarrow> lan" where
  "CompleteTeamSyncProposal sourceId proposalId accepted reason l =
     (if sourceId = [] \<or> proposalId = 0 then l
      else l\<lparr>ln_proposalResults := ln_proposalResults l @
        [\<lparr>pr_sourceId = sourceId, pr_proposalId = proposalId, pr_accepted = accepted, pr_reason = reason\<rparr>]\<rparr>)"

text \<open>\<open>finish\<close> is what the joined thread does after the flag is cleared and its sockets are closed.\<close>

definition StopNetwork :: "(lan \<Rightarrow> lan) \<Rightarrow> lan \<Rightarrow> lan" where
  "StopNetwork finish l =
     NotifyStateChanged (with_status (\<lambda>s. s\<lparr>ss_running := False, ss_connected := False, ss_reconnecting := False,
         ss_teamSyncPushSupported := False, ss_teamSyncBidirectionalSupported := False, ss_teamSyncSubscribed := False,
         ss_teamSyncClientWriteAllowed := False, ss_remoteDeviceName := [],
         ss_status := (if ss_status s \<noteq> [] then ascii ''stopped'' else ss_status s)\<rparr>)
       ((finish (l\<lparr>ln_running := False\<rparr>))\<lparr>ln_remoteActiveMask := 0, ln_pending := False, ln_proposalResults := []\<rparr>))"

definition StopDiscovery :: "(lan \<Rightarrow> lan) \<Rightarrow> lan \<Rightarrow> lan" where
  "StopDiscovery finish l = with_status (\<lambda>s. s\<lparr>ss_discovering := False\<rparr>) (finish (l\<lparr>ln_discoveryRunning := False\<rparr>))"

definition SetRole :: "(lan \<Rightarrow> lan) \<Rightarrow> (lan \<Rightarrow> lan) \<Rightarrow> KeyMappingLanRole \<Rightarrow> lan \<Rightarrow> lan" where
  "SetRole finish finishDiscovery role l =
     (let l = StopDiscovery finishDiscovery (StopNetwork finish l)
      in NotifyStateChanged (with_status (\<lambda>s. s\<lparr>ss_role := role, ss_status := [], ss_teamSyncPushSupported := (role = Server),
         ss_teamSyncBidirectionalSupported := (role = Server), ss_teamSyncSubscribed := False,
         ss_teamSyncClientWriteAllowed := (role = Server \<and> ln_clientWriteAllowed l)\<rparr>) l))"

datatype lan_error =
    WinsockFailed | BadServerArguments | ServerThreadFailed | BadClientArguments | ClientThreadFailed
  | DiscoveryUnavailable | DiscoveryThreadFailed | NotClientRole | NotConnected | NotSupported | AlreadyPending

definition thread_failed :: "lan \<Rightarrow> lan" where
  "thread_failed l = with_status (\<lambda>s. s\<lparr>ss_running := False, ss_status := ascii ''thread_start_failed''\<rparr>) (l\<lparr>ln_running := False\<rparr>)"

definition StartServer :: "(lan \<Rightarrow> lan) \<Rightarrow> bool \<Rightarrow> bytes list \<Rightarrow> 16 word \<Rightarrow> bytes \<Rightarrow> bytes \<Rightarrow> bytes \<Rightarrow> lan \<Rightarrow> lan_error option \<times> lan" where
  "StartServer finish threadStarts addresses port pairCode serverId deviceName l =
     (if \<not> ln_wsaReady l then (Some WinsockFailed, l)
      else if port = 0 \<or> length pairCode \<noteq> 4 then (Some BadServerArguments, l)
      else
        let l = (StopNetwork finish l)\<lparr>ln_deviceName := deviceName, ln_localDeviceId := serverId, ln_remoteActiveMask := 0\<rparr>;
            l = with_status (\<lambda>s. s\<lparr>ss_role := Server, ss_running := True, ss_connected := False, ss_reconnecting := False,
              ss_status := ascii ''starting'', ss_teamSyncSupported := True, ss_teamSyncPushSupported := True,
              ss_teamSyncBidirectionalSupported := True, ss_teamSyncSubscribed := False,
              ss_teamSyncClientWriteAllowed := ln_clientWriteAllowed l, ss_remoteDeviceName := [], ss_serverId := serverId,
              ss_serverAddress := [], ss_pairCode := pairCode, ss_port := port, ss_localAddresses := addresses\<rparr>) l;
            l = l\<lparr>ln_running := True\<rparr>
        in if threadStarts then (None, NotifyStateChanged l) else (Some ServerThreadFailed, thread_failed l))"

definition StartClient :: "(lan \<Rightarrow> lan) \<Rightarrow> bool \<Rightarrow> bytes \<Rightarrow> 16 word \<Rightarrow> bytes \<Rightarrow> bytes \<Rightarrow> bytes \<Rightarrow> lan \<Rightarrow> lan_error option \<times> lan" where
  "StartClient finish threadStarts address port pairCode clientId deviceName l =
     (if \<not> ln_wsaReady l then (Some WinsockFailed, l)
      else if address = [] \<or> port = 0 \<or> length pairCode \<noteq> 4 then (Some BadClientArguments, l)
      else
        let l = (StopNetwork finish l)\<lparr>ln_deviceName := deviceName, ln_localDeviceId := clientId\<rparr>;
            l = with_status (\<lambda>s. s\<lparr>ss_role := Client, ss_running := True, ss_connected := False, ss_reconnecting := False,
              ss_status := ascii ''connecting'', ss_teamSyncSupported := False, ss_teamSyncPushSupported := False,
              ss_teamSyncBidirectionalSupported := False, ss_teamSyncSubscribed := False, ss_teamSyncClientWriteAllowed := False,
              ss_teamSyncAutoSend := ln_autoSend l, ss_remoteDeviceName := [], ss_serverAddress := address,
              ss_pairCode := pairCode, ss_port := port\<rparr>) l;
            l = l\<lparr>ln_running := True\<rparr>
        in if threadStarts then (None, NotifyStateChanged l) else (Some ClientThreadFailed, thread_failed l))"

definition DiscoverServers :: "(lan \<Rightarrow> lan) \<Rightarrow> bool \<Rightarrow> 16 word \<Rightarrow> lan \<Rightarrow> lan_error option \<times> lan" where
  "DiscoverServers finishDiscovery threadStarts port l =
     (if \<not> ln_wsaReady l \<or> port = 0 then (Some DiscoveryUnavailable, l)
      else
        let l = with_status (\<lambda>s. s\<lparr>ss_discovering := True, ss_discoveredServers := []\<rparr>) (StopDiscovery finishDiscovery l);
            l = l\<lparr>ln_discoveryRunning := True\<rparr>
        in if threadStarts then (None, NotifyStateChanged l)
           else (Some DiscoveryThreadFailed, with_status (\<lambda>s. s\<lparr>ss_discovering := False\<rparr>) (l\<lparr>ln_discoveryRunning := False\<rparr>)))"

definition SetLocalActiveMask :: "32 word \<Rightarrow> lan \<Rightarrow> lan" where
  "SetLocalActiveMask activeMask l = l\<lparr>ln_localActiveMask := and activeMask kMaximumActiveMask\<rparr>"

definition GetRemoteActiveMask :: "lan \<Rightarrow> 32 word" where
  "GetRemoteActiveMask l = and (ln_remoteActiveMask l) kMaximumActiveMask"

text \<open>Identifiers count up and pass over zero.\<close>

definition next_nonzero :: "32 word \<Rightarrow> 32 word" where
  "next_nonzero n = (if n + 1 = 0 then 1 else n + 1)"

definition RequestTeamSync :: "lan \<Rightarrow> lan_error option \<times> lan" where
  "RequestTeamSync l =
     (let s = ln_status l in
      if ss_role s \<noteq> Client then (Some NotClientRole, l)
      else if \<not> ss_running s \<or> \<not> ss_connected s \<or> \<not> ln_running l then (Some NotConnected, l)
      else if \<not> ss_teamSyncSupported s then (Some NotSupported, l)
      else if ln_pending l then (Some AlreadyPending, l)
      else (None, l\<lparr>ln_pending := True, ln_requestId := next_nonzero (ln_requestId l)\<rparr>))"

definition SetTeamSyncSubscribed :: "bool \<Rightarrow> lan \<Rightarrow> lan" where
  "SetTeamSyncSubscribed enabled l =
     NotifyStateChanged (with_status (\<lambda>s. s\<lparr>ss_teamSyncSubscribed := (enabled \<and> ss_role s = Client \<and> ss_connected s \<and> ss_teamSyncPushSupported s)\<rparr>)
       (l\<lparr>ln_subscriptionDesired := enabled,
          ln_subscriptionId := (if ln_subscriptionDesired l \<noteq> enabled then next_nonzero (ln_subscriptionId l) else ln_subscriptionId l)\<rparr>))"

definition IsTeamSyncPending :: "lan \<Rightarrow> bool" where "IsTeamSyncPending = ln_pending"

definition GetStatusSnapshot :: "lan \<Rightarrow> KeyMappingLanStatusSnapshot" where "GetStatusSnapshot = ln_status"

subsection \<open>Sending a json frame\<close>

text \<open>
  \<open>transmit\<close> tells of a payload whether the socket takes it. \<open>None\<close> is an exception of the printer, else the
  flag tells whether the frame was sent.
\<close>

definition send_payload :: "(bytes \<Rightarrow> bool) \<Rightarrow> bytes \<Rightarrow> lan \<Rightarrow> bool \<times> lan" where
  "send_payload transmit payload l =
     (if frame_fits payload \<and> transmit payload then (True, emit (FrameSent payload) l) else (False, l))"

definition send_json :: "lan_env \<Rightarrow> (bytes \<Rightarrow> bool) \<Rightarrow> json \<Rightarrow> lan \<Rightarrow> (bool \<times> lan) option" where
  "send_json env transmit j l = map_option (\<lambda>payload. send_payload transmit payload l) (ne_dump env j)"

text \<open>A frame whose failure to be sent is not looked at.\<close>

definition send_unchecked :: "lan_env \<Rightarrow> (bytes \<Rightarrow> bool) \<Rightarrow> json \<Rightarrow> lan \<Rightarrow> lan option" where
  "send_unchecked env transmit j l = map_option snd (send_json env transmit j l)"

definition notify_json :: "lan_env \<Rightarrow> json \<Rightarrow> lan \<Rightarrow> lan option" where
  "notify_json env j l = map_option (\<lambda>message. NotifyTeamSyncMessage message l) (ne_dump env j)"

definition elapsed_ms :: "int \<Rightarrow> int \<Rightarrow> int" where
  "elapsed_ms now since = (if now \<ge> since then (now - since) div 1000000 else - ((since - now) div 1000000))"

end
