(* ===== verification/LanClient.thy ===== *)
theory LanClient
  imports LanState
begin

text \<open>
  The client of the LAN service (\<^verbatim>\<open>ClientThreadMain\<close>): the greeting, a round of its loop cut into the steps
  that send and the step that receives, and the end of a connection. Other threads run between the steps.
  \<open>None\<close> is an exception that leaves the thread; else a flag tells whether the loop goes on.
\<close>

type_synonym 's outcome = "(bool \<times> 's \<times> lan) option"

definition on_sent :: "(bool \<times> lan) option \<Rightarrow> 's \<Rightarrow> (lan \<Rightarrow> 's \<times> lan) \<Rightarrow> 's outcome" where
  "on_sent r s f = (case r of None \<Rightarrow> None | Some (False, l) \<Rightarrow> Some (False, s, l) | Some (True, l) \<Rightarrow> Some (True, f l))"

subsection \<open>The messages of the client\<close>

definition hello_json :: "KeyMappingLanStatusSnapshot \<Rightarrow> lan \<Rightarrow> json" where
  "hello_json startup l = make_object [(ascii ''type'', text_json ''hello''), (ascii ''version'', version_json),
     (ascii ''pairCode'', JStr (ss_pairCode startup)), (ascii ''clientId'', JStr (ln_localDeviceId l)), (ascii ''name'', JStr (ln_deviceName l))]"

definition state_json :: "32 word \<Rightarrow> json" where
  "state_json activeMask = make_object [(ascii ''type'', text_json ''state''), (ascii ''activeMask'', word_json activeMask)]"

definition subscribe_json :: "bool \<Rightarrow> 32 word \<Rightarrow> json" where
  "subscribe_json enabled subscriptionId = make_object [(ascii ''type'', text_json ''team_sync_subscribe''), (ascii ''version'', version_json),
     (ascii ''enabled'', JBool enabled), (ascii ''subscriptionId'', word_json subscriptionId)]"

definition propose_json :: "32 word \<Rightarrow> u64 \<Rightarrow> json \<Rightarrow> json" where
  "propose_json proposalId revision snapshot = make_object [(ascii ''type'', text_json ''team_sync_propose''), (ascii ''version'', version_json),
     (ascii ''proposalId'', word_json proposalId), (ascii ''clientRevision'', JUInt revision), (ascii ''snapshot'', snapshot)]"

definition request_json :: "32 word \<Rightarrow> json" where
  "request_json requestId = make_object [(ascii ''type'', text_json ''team_sync_request''), (ascii ''version'', version_json),
     (ascii ''requestId'', word_json requestId)]"

definition local_error_json :: json where
  "local_error_json = make_object [(ascii ''type'', text_json ''team_sync_error''), (ascii ''version'', version_json),
     (ascii ''reason'', text_json ''invalid_local_snapshot'')]"

definition request_error_json :: "32 word \<Rightarrow> string \<Rightarrow> json" where
  "request_error_json requestId reason = make_object [(ascii ''type'', text_json ''team_sync_error''), (ascii ''version'', version_json),
     (ascii ''requestId'', word_json requestId), (ascii ''reason'', text_json reason)]"

definition pong_json :: json where "pong_json = make_object [(ascii ''type'', text_json ''pong'')]"

subsection \<open>The greeting\<close>

definition add_capability :: "json \<Rightarrow> KeyMappingLanStatusSnapshot \<Rightarrow> KeyMappingLanStatusSnapshot" where
  "add_capability c s =
     (if \<not> is_string c then s
      else s\<lparr>ss_teamSyncSupported := (ss_teamSyncSupported s \<or> get_string c = ascii ''team_sync_v1''),
             ss_teamSyncPushSupported := (ss_teamSyncPushSupported s \<or> get_string c = ascii ''team_sync_push_v1''),
             ss_teamSyncBidirectionalSupported := (ss_teamSyncBidirectionalSupported s \<or> get_string c = ascii ''team_sync_bidirectional_v1'')\<rparr>)"

text \<open>A member of the wrong type ends the update of the status half way; the flag tells of that.\<close>

definition accept_response :: "json \<Rightarrow> lan \<Rightarrow> bool \<times> lan" where
  "accept_response response l =
     (let l = with_status (\<lambda>s. s\<lparr>ss_connected := True, ss_reconnecting := False, ss_status := ascii ''connected''\<rparr>) l in
      case value_text ''serverId'' response of
        None \<Rightarrow> (False, l)
      | Some serverId \<Rightarrow>
          let l = with_status (\<lambda>s. s\<lparr>ss_serverId := serverId\<rparr>) l in
          case value_text ''name'' response of
            None \<Rightarrow> (False, l)
          | Some name \<Rightarrow>
              let l = with_status (\<lambda>s. s\<lparr>ss_remoteDeviceName := name, ss_teamSyncSupported := False, ss_teamSyncPushSupported := False,
                    ss_teamSyncBidirectionalSupported := False, ss_teamSyncSubscribed := False, ss_teamSyncClientWriteAllowed := False,
                    ss_teamSyncAutoSend := ln_autoSend l\<rparr>) l
              in (True, case json_find (ascii ''capabilities'') response of
                    Some (JArr cs) \<Rightarrow> with_status (fold add_capability cs) l
                  | _ \<Rightarrow> l))"

definition read_response :: "lan_env \<Rightarrow> bytes \<Rightarrow> lan \<Rightarrow> bool \<times> bytes \<times> lan" where
  "read_response env payload l =
     (case ne_parse env payload of
        None \<Rightarrow> (False, [], l)
      | Some response \<Rightarrow>
          (case value_text ''type'' response of
             None \<Rightarrow> (False, [], l)
           | Some t \<Rightarrow>
               if t = ascii ''accepted'' then
                 (case value_int env ''version'' response of
                    None \<Rightarrow> (False, [], l)
                  | Some v \<Rightarrow> if v = kProtocolVersion then (case accept_response response l of (ok, l) \<Rightarrow> (ok, [], l)) else (False, [], l))
               else if t = ascii ''rejected'' then
                 (case jvalue_string (ascii ''reason'') (ascii ''rejected'') response of None \<Rightarrow> (False, [], l) | Some reason \<Rightarrow> (False, reason, l))
               else (False, [], l)))"

text \<open>\<open>answer\<close> is what arrives after the greeting was sent; the attempt ends in one of four ways.\<close>

datatype attempt = Unreachable lan | Untracked lan | Rejected lan | Closed lan | Opened lan

definition reconnecting :: "lan \<Rightarrow> lan" where
  "reconnecting = with_status (\<lambda>s. s\<lparr>ss_connected := False, ss_reconnecting := True, ss_status := ascii ''reconnecting''\<rparr>)"

definition open_connection ::
  "lan_env \<Rightarrow> KeyMappingLanStatusSnapshot \<Rightarrow> bool \<Rightarrow> bool \<Rightarrow> (bytes \<Rightarrow> bool) \<Rightarrow> bytes option \<Rightarrow> lan \<Rightarrow> attempt option" where
  "open_connection env startup connects tracked transmit answer l =
     (if \<not> connects then Some (Unreachable (NotifyStateChanged (reconnecting l)))
      else if \<not> tracked then Some (Untracked l)
      else case send_json env transmit (hello_json startup l) l of
        None \<Rightarrow> None
      | Some (sent, l) \<Rightarrow>
          (case (if sent then answer else None) of
             None \<Rightarrow> Some (Closed l)
           | Some payload \<Rightarrow>
               (case read_response env payload l of (accepted, reason, l) \<Rightarrow>
                  if reason \<noteq> [] then
                    Some (Rejected (NotifyStateChanged ((with_status (\<lambda>s. s\<lparr>ss_connected := False, ss_reconnecting := False,
                      ss_running := False, ss_status := ascii ''rejected_'' @ reason\<rparr>) l)\<lparr>ln_running := False\<rparr>)))
                  else if accepted then Some (Opened (NotifyStateChanged l))
                  else Some (Closed l))))"

definition close_connection :: "lan_env \<Rightarrow> lan \<Rightarrow> lan option" where
  "close_connection env l =
     (case (if ln_pending l then notify_json env (request_error_json (ln_requestId l) ''disconnected'') (l\<lparr>ln_pending := False\<rparr>) else Some l) of
        None \<Rightarrow> None
      | Some l \<Rightarrow> Some (NotifyStateChanged
          (if ln_running l then with_status (\<lambda>s. s\<lparr>ss_connected := False, ss_reconnecting := True, ss_status := ascii ''reconnecting'',
             ss_teamSyncSubscribed := False, ss_remoteDeviceName := []\<rparr>) l else l)))"

definition client_thread_ends :: "lan \<Rightarrow> lan" where
  "client_thread_ends l = NotifyStateChanged (with_status (\<lambda>s. s\<lparr>ss_connected := False, ss_reconnecting := False, ss_running := False,
     ss_teamSyncSubscribed := False, ss_teamSyncPushSupported := False, ss_teamSyncBidirectionalSupported := False,
     ss_teamSyncClientWriteAllowed := False, ss_remoteDeviceName := []\<rparr>) l)"

end
