(* ===== verification/LanRounds.thy ===== *)
theory LanRounds
  imports LanClient
begin

text \<open>
  A round of the client loop. \<open>client_link\<close> are the local variables of a connection; the time of a round is
  read once, at its start.
\<close>

record client_link =
  ck_lastSentMask :: "32 word"
  ck_lastSentAt :: int
  ck_sentRequestId :: "32 word"
  ck_requestedAt :: int
  ck_sentSubscriptionId :: "32 word"
  ck_sentSubscriptionEnabled :: bool
  ck_lastReceivedRevision :: u64
  ck_lastObservedRevision :: u64
  ck_pendingUpload :: u64
  ck_lastUploaded :: u64
  ck_pendingChangedAt :: int
  ck_nextProposalId :: "32 word"

definition new_link :: "int \<Rightarrow> lan \<Rightarrow> client_link" where
  "new_link now l =
     \<lparr>ck_lastSentMask = kMaximumActiveMask + 1, ck_lastSentAt = now - kStateHeartbeatMs * 1000000, ck_sentRequestId = 0,
      ck_requestedAt = now, ck_sentSubscriptionId = 0, ck_sentSubscriptionEnabled = False, ck_lastReceivedRevision = 0,
      ck_lastObservedRevision = ln_revision l, ck_pendingUpload = ln_revision l, ck_lastUploaded = ln_revision l,
      ck_pendingChangedAt = now, ck_nextProposalId = 0\<rparr>"

subsection \<open>Steps that send\<close>

definition send_state :: "lan_env \<Rightarrow> (bytes \<Rightarrow> bool) \<Rightarrow> int \<Rightarrow> client_link \<Rightarrow> lan \<Rightarrow> client_link outcome" where
  "send_state env transmit now k l =
     (let activeMask = and (ln_localActiveMask l) kMaximumActiveMask in
      if activeMask \<noteq> ck_lastSentMask k \<or> elapsed_ms now (ck_lastSentAt k) \<ge> kStateHeartbeatMs
      then on_sent (send_json env transmit (state_json activeMask) l) k
        (\<lambda>l. (k\<lparr>ck_lastSentMask := activeMask, ck_lastSentAt := now\<rparr>, l))
      else Some (True, k, l))"

definition send_subscription :: "lan_env \<Rightarrow> (bytes \<Rightarrow> bool) \<Rightarrow> client_link \<Rightarrow> lan \<Rightarrow> client_link outcome" where
  "send_subscription env transmit k l =
     (let desired = ln_subscriptionDesired l; subscriptionId = ln_subscriptionId l in
      if ss_teamSyncPushSupported (ln_status l) \<and> subscriptionId \<noteq> 0 \<and>
         (subscriptionId \<noteq> ck_sentSubscriptionId k \<or> desired \<noteq> ck_sentSubscriptionEnabled k)
      then on_sent (send_json env transmit (subscribe_json desired subscriptionId) l) k
        (\<lambda>l. (k\<lparr>ck_sentSubscriptionId := subscriptionId, ck_sentSubscriptionEnabled := desired, ck_lastReceivedRevision := 0\<rparr>,
               NotifyStateChanged (with_status (\<lambda>s. s\<lparr>ss_teamSyncSubscribed := desired\<rparr>) l)))
      else Some (True, k, l))"

definition note_revision :: "int \<Rightarrow> lan \<Rightarrow> client_link \<Rightarrow> client_link" where
  "note_revision now l k =
     (if ln_revision l \<noteq> ck_lastObservedRevision k
      then k\<lparr>ck_lastObservedRevision := ln_revision l, ck_pendingUpload := ln_revision l, ck_pendingChangedAt := now\<rparr> else k)"

definition can_upload :: "lan \<Rightarrow> bool" where
  "can_upload l \<longleftrightarrow> ln_autoSend l \<and> ss_teamSyncBidirectionalSupported (ln_status l) \<and> ss_teamSyncClientWriteAllowed (ln_status l)"

definition upload_failed :: "lan_env \<Rightarrow> client_link \<Rightarrow> lan \<Rightarrow> client_link outcome" where
  "upload_failed env k l =
     map_option (\<lambda>l. (True, k\<lparr>ck_lastUploaded := ck_pendingUpload k\<rparr>, l)) (notify_json env local_error_json l)"

definition propose :: "lan_env \<Rightarrow> (bytes \<Rightarrow> bool) \<Rightarrow> client_link \<Rightarrow> lan \<Rightarrow> client_link outcome" where
  "propose env transmit k l =
     (case ne_parse env (ln_snapshot l) of
        None \<Rightarrow> upload_failed env k l
      | Some snapshot \<Rightarrow>
          let k = k\<lparr>ck_nextProposalId := next_nonzero (ck_nextProposalId k)\<rparr> in
          case ne_dump env (propose_json (ck_nextProposalId k) (ck_pendingUpload k) snapshot) of
            None \<Rightarrow> upload_failed env k l
          | Some proposal \<Rightarrow>
              (case send_payload transmit proposal l of
                 (False, l) \<Rightarrow> Some (False, k, l)
               | (True, l) \<Rightarrow> Some (True, k\<lparr>ck_lastUploaded := ck_pendingUpload k\<rparr>, l)))"

definition upload_step :: "lan_env \<Rightarrow> (bytes \<Rightarrow> bool) \<Rightarrow> int \<Rightarrow> client_link \<Rightarrow> lan \<Rightarrow> client_link outcome" where
  "upload_step env transmit now k l =
     (let k = note_revision now l k in
      if \<not> can_upload l then Some (True, k\<lparr>ck_lastUploaded := ck_pendingUpload k\<rparr>, l)
      else if ck_pendingUpload k \<noteq> ck_lastUploaded k \<and> elapsed_ms now (ck_pendingChangedAt k) \<ge> kTeamSyncDebounceMs
      then propose env transmit k l
      else Some (True, k, l))"

definition request_step :: "lan_env \<Rightarrow> (bytes \<Rightarrow> bool) \<Rightarrow> int \<Rightarrow> client_link \<Rightarrow> lan \<Rightarrow> client_link outcome" where
  "request_step env transmit now k l =
     (let requested = ln_requestId l in
      if ln_pending l \<and> requested \<noteq> 0 \<and> requested \<noteq> ck_sentRequestId k
      then on_sent (send_json env transmit (request_json requested) l) k
        (\<lambda>l. (k\<lparr>ck_sentRequestId := requested, ck_requestedAt := now\<rparr>, l))
      else if ln_pending l \<and> ck_sentRequestId k = requested \<and> elapsed_ms now (ck_requestedAt k) \<ge> 4000
      then map_option (\<lambda>l. (True, k\<lparr>ck_sentRequestId := 0\<rparr>, l))
        (notify_json env (request_error_json requested ''timeout'') (l\<lparr>ln_pending := False\<rparr>))
      else Some (True, k, l))"

subsection \<open>The step that receives\<close>

text \<open>An exception in here ends the connection.\<close>

definition unless_thrown :: "client_link \<Rightarrow> lan \<Rightarrow> (client_link \<times> lan) option \<Rightarrow> client_link outcome" where
  "unless_thrown k l r = (case r of None \<Rightarrow> Some (False, k, l) | Some (k', l') \<Rightarrow> Some (True, k', l'))"

definition receive_automatic_error :: "lan_env \<Rightarrow> json \<Rightarrow> client_link \<Rightarrow> lan \<Rightarrow> (client_link \<times> lan) option" where
  "receive_automatic_error env message k l =
     (if \<not> ln_subscriptionDesired l then Some (k, l)
      else do {
        subscriptionId \<leftarrow> value_word env ''subscriptionId'' message;
        if subscriptionId = ln_subscriptionId l then do { l \<leftarrow> notify_json env message l; Some (k, l) } else Some (k, l) })"

definition receive_answer :: "lan_env \<Rightarrow> json \<Rightarrow> client_link \<Rightarrow> lan \<Rightarrow> client_link outcome" where
  "receive_answer env message k l =
     (case value_word env ''requestId'' message of
        None \<Rightarrow> Some (False, k, l)
      | Some responseId \<Rightarrow>
          if ln_pending l \<and> responseId \<noteq> 0 \<and> responseId = ln_requestId l then
            (let l = l\<lparr>ln_pending := False\<rparr> in
             unless_thrown k l (do { l \<leftarrow> notify_json env message l; Some (k\<lparr>ck_sentRequestId := 0\<rparr>, l) }))
          else Some (True, k, l))"

definition receive_push :: "lan_env \<Rightarrow> json \<Rightarrow> client_link \<Rightarrow> lan \<Rightarrow> client_link outcome" where
  "receive_push env message k l =
     (case value_word env ''revision'' message of
        None \<Rightarrow> Some (False, k, l)
      | Some revision \<Rightarrow>
          if \<not> ln_subscriptionDesired l then Some (True, k, l)
          else case value_word env ''subscriptionId'' message of
            None \<Rightarrow> Some (False, k, l)
          | Some subscriptionId \<Rightarrow>
              if subscriptionId = ln_subscriptionId l \<and> revision > ck_lastReceivedRevision k then
                (let k = k\<lparr>ck_lastReceivedRevision := revision\<rparr> in
                 unless_thrown k l (do { l \<leftarrow> notify_json env message l; Some (k, l) }))
              else Some (True, k, l))"

definition receive_policy :: "json \<Rightarrow> client_link \<Rightarrow> lan \<Rightarrow> (client_link \<times> lan) option" where
  "receive_policy message k l =
     map_option (\<lambda>allowed. (k, NotifyStateChanged (with_status (\<lambda>s. s\<lparr>ss_teamSyncClientWriteAllowed := allowed\<rparr>) l)))
       (value_flag ''allowed'' message)"

definition receive_message :: "lan_env \<Rightarrow> (bytes \<Rightarrow> bool) \<Rightarrow> json \<Rightarrow> bytes \<Rightarrow> client_link \<Rightarrow> lan \<Rightarrow> client_link outcome" where
  "receive_message env transmit message t k l =
     (if t = ascii ''ping'' then
        (case send_json env transmit pong_json l of None \<Rightarrow> Some (False, k, l) | Some (sent, l) \<Rightarrow> Some (sent, k, l))
      else if t = ascii ''team_sync_snapshot'' then receive_answer env message k l
      else if t = ascii ''team_sync_error'' then
        (case value_flag ''automatic'' message of
           None \<Rightarrow> Some (False, k, l)
         | Some True \<Rightarrow> unless_thrown k l (receive_automatic_error env message k l)
         | Some False \<Rightarrow> receive_answer env message k l)
      else if t = ascii ''team_sync_push'' then receive_push env message k l
      else if t = ascii ''team_sync_write_policy'' then unless_thrown k l (receive_policy message k l)
      else if t = ascii ''team_sync_propose_result'' then unless_thrown k l (do { l \<leftarrow> notify_json env message l; Some (k, l) })
      else Some (True, k, l))"

text \<open>What the wait for the socket and the reading of a frame give.\<close>

datatype received = SelectFailed | Quiet | FrameBroken | Frame bytes

definition receive_step :: "lan_env \<Rightarrow> (bytes \<Rightarrow> bool) \<Rightarrow> received \<Rightarrow> client_link \<Rightarrow> lan \<Rightarrow> client_link outcome" where
  "receive_step env transmit r k l =
     (case r of
        SelectFailed \<Rightarrow> Some (False, k, l)
      | Quiet \<Rightarrow> Some (True, k, l)
      | FrameBroken \<Rightarrow> Some (False, k, l)
      | Frame payload \<Rightarrow>
          (case ne_parse env payload of
             None \<Rightarrow> Some (False, k, l)
           | Some message \<Rightarrow>
               (case value_text ''type'' message of
                  None \<Rightarrow> Some (False, k, l)
                | Some t \<Rightarrow> receive_message env transmit message t k l)))"

subsection \<open>A round, a connection, the thread\<close>

record round_input =
  ri_now :: int
  ri_transmit :: "bytes \<Rightarrow> bool"
  ri_received :: received
  ri_others :: "nat \<Rightarrow> lan \<Rightarrow> lan"

definition and_then :: "'s outcome \<Rightarrow> ('s \<Rightarrow> lan \<Rightarrow> 's outcome) \<Rightarrow> 's outcome" where
  "and_then r f = (case r of None \<Rightarrow> None | Some (False, s, l) \<Rightarrow> Some (False, s, l) | Some (True, s, l) \<Rightarrow> f s l)"

definition client_round :: "lan_env \<Rightarrow> round_input \<Rightarrow> client_link \<Rightarrow> lan \<Rightarrow> client_link outcome" where
  "client_round env i k l =
     and_then (and_then (and_then (and_then
       (send_state env (ri_transmit i) (ri_now i) k (ri_others i 0 l))
       (\<lambda>k l. send_subscription env (ri_transmit i) k (ri_others i 1 l)))
       (\<lambda>k l. upload_step env (ri_transmit i) (ri_now i) k (ri_others i 2 l)))
       (\<lambda>k l. request_step env (ri_transmit i) (ri_now i) k (ri_others i 3 l)))
       (\<lambda>k l. receive_step env (ri_transmit i) (ri_received i) k (ri_others i 4 l))"

fun client_rounds :: "lan_env \<Rightarrow> round_input list \<Rightarrow> client_link \<Rightarrow> lan \<Rightarrow> (client_link \<times> lan) option" where
  "client_rounds env [] k l = Some (k, l)"
| "client_rounds env (i # rest) k l =
     (if \<not> ln_running l then Some (k, l)
      else case client_round env i k l of
        None \<Rightarrow> None
      | Some (False, k, l) \<Rightarrow> Some (k, l)
      | Some (True, k, l) \<Rightarrow> client_rounds env rest k l)"

record connection_input =
  ci_connects :: bool
  ci_tracked :: bool
  ci_transmit :: "bytes \<Rightarrow> bool"
  ci_answer :: "bytes option"
  ci_openedAt :: int
  ci_rounds :: "round_input list"

text \<open>One turn of the outer loop; the flag tells whether the thread goes on.\<close>

definition client_attempt :: "lan_env \<Rightarrow> KeyMappingLanStatusSnapshot \<Rightarrow> connection_input \<Rightarrow> lan \<Rightarrow> (bool \<times> lan) option" where
  "client_attempt env startup c l =
     (case open_connection env startup (ci_connects c) (ci_tracked c) (ci_transmit c) (ci_answer c) l of
        None \<Rightarrow> None
      | Some (Unreachable l) \<Rightarrow> Some (True, l)
      | Some (Untracked l) \<Rightarrow> Some (True, l)
      | Some (Rejected l) \<Rightarrow> Some (False, l)
      | Some (Closed l) \<Rightarrow> map_option (Pair True) (close_connection env l)
      | Some (Opened l) \<Rightarrow>
          (case client_rounds env (ci_rounds c) (new_link (ci_openedAt c) l) l of
             None \<Rightarrow> None
           | Some (k, l) \<Rightarrow> map_option (Pair True) (close_connection env l)))"

fun client_thread :: "lan_env \<Rightarrow> KeyMappingLanStatusSnapshot \<Rightarrow> connection_input list \<Rightarrow> lan \<Rightarrow> lan option" where
  "client_thread env startup [] l = Some (client_thread_ends l)"
| "client_thread env startup (c # cs) l =
     (if \<not> ln_running l then Some (client_thread_ends l)
      else case client_attempt env startup c l of
        None \<Rightarrow> None
      | Some (False, l) \<Rightarrow> Some (client_thread_ends l)
      | Some (True, l) \<Rightarrow> client_thread env startup cs l)"

end
