(* ===== verification/LanServer.thy ===== *)
theory LanServer
  imports LanRounds
begin

text \<open>
  The server of the LAN service (\<^verbatim>\<open>ServerThreadMain\<close>): \<open>server_link\<close> are its local variables, \<open>sv_client\<close> tells
  whether there is a client socket. A round answers a discovery datagram, accepts a connection, reads a frame of
  the client and does what is due. A handler of a frame that throws is cut off and the client is dropped.
\<close>

record server_link =
  sv_client :: bool
  sv_paired :: bool
  sv_activeClientId :: bytes
  sv_subscribed :: bool
  sv_pushImmediately :: bool
  sv_subscriptionId :: "32 word"
  sv_lastPushed :: u64
  sv_pendingPush :: u64
  sv_sentPolicy :: "32 word"
  sv_acceptedAt :: int
  sv_lastHeartbeat :: int
  sv_lastPing :: int
  sv_pendingChangedAt :: int

type_synonym server_state = "server_link \<times> lan"

definition new_server :: "int \<Rightarrow> lan \<Rightarrow> server_link" where
  "new_server now l =
     \<lparr>sv_client = False, sv_paired = False, sv_activeClientId = [], sv_subscribed = False, sv_pushImmediately = False,
      sv_subscriptionId = 0, sv_lastPushed = 0, sv_pendingPush = ln_revision l, sv_sentPolicy = 0, sv_acceptedAt = now,
      sv_lastHeartbeat = now, sv_lastPing = now, sv_pendingChangedAt = now\<rparr>"

datatype binding = SocketFailed | BindFailed | NotTracked | Listening

definition server_starts :: "binding \<Rightarrow> lan \<Rightarrow> bool \<times> lan" where
  "server_starts b l =
     (let failed = (\<lambda>reason. NotifyStateChanged ((with_status (\<lambda>s. s\<lparr>ss_running := False, ss_status := ascii reason\<rparr>) l)\<lparr>ln_running := False\<rparr>))
      in case b of
        SocketFailed \<Rightarrow> (False, failed ''socket_failed'')
      | BindFailed \<Rightarrow> (False, failed ''bind_failed'')
      | NotTracked \<Rightarrow> (False, l)
      | Listening \<Rightarrow> (True, NotifyStateChanged (with_status (\<lambda>s. s\<lparr>ss_status := ascii ''listening''\<rparr>) l)))"

subsection \<open>The messages of the server\<close>

definition snapshot_error_json :: "bool \<Rightarrow> 32 word \<Rightarrow> u64 \<Rightarrow> 32 word \<Rightarrow> string \<Rightarrow> json" where
  "snapshot_error_json automatic requestId revision subscriptionId reason =
     make_object [(ascii ''type'', text_json ''team_sync_error''), (ascii ''version'', version_json), (ascii ''requestId'', word_json requestId),
       (ascii ''automatic'', JBool automatic), (ascii ''revision'', JUInt revision), (ascii ''subscriptionId'', word_json subscriptionId),
       (ascii ''reason'', text_json reason)]"

definition lan_push_json :: "u64 \<Rightarrow> 32 word \<Rightarrow> json \<Rightarrow> json" where
  "lan_push_json revision subscriptionId snapshot =
     make_object [(ascii ''type'', text_json ''team_sync_push''), (ascii ''version'', version_json), (ascii ''revision'', JUInt revision),
       (ascii ''subscriptionId'', word_json subscriptionId), (ascii ''snapshot'', snapshot)]"

definition snapshot_json :: "32 word \<Rightarrow> json \<Rightarrow> json" where
  "snapshot_json requestId snapshot =
     make_object [(ascii ''type'', text_json ''team_sync_snapshot''), (ascii ''version'', version_json), (ascii ''requestId'', word_json requestId),
       (ascii ''snapshot'', snapshot)]"

definition rejected_json :: "string \<Rightarrow> json" where
  "rejected_json reason = make_object [(ascii ''type'', text_json ''rejected''), (ascii ''reason'', text_json reason)]"

definition accepted_json :: "KeyMappingLanStatusSnapshot \<Rightarrow> lan \<Rightarrow> json" where
  "accepted_json startup l =
     make_object [(ascii ''type'', text_json ''accepted''), (ascii ''version'', version_json), (ascii ''serverId'', JStr (ss_serverId startup)),
       (ascii ''name'', JStr (ln_deviceName l)),
       (ascii ''capabilities'', JArr [text_json ''team_sync_v1'', text_json ''team_sync_push_v1'', text_json ''team_sync_bidirectional_v1''])]"

definition policy_json :: "bool \<Rightarrow> json" where
  "policy_json allowed =
     make_object [(ascii ''type'', text_json ''team_sync_write_policy''), (ascii ''version'', version_json), (ascii ''allowed'', JBool allowed)]"

definition result_json :: "32 word \<Rightarrow> bool \<Rightarrow> bytes \<Rightarrow> json" where
  "result_json proposalId accepted reason =
     make_object [(ascii ''type'', text_json ''team_sync_propose_result''), (ascii ''version'', version_json),
       (ascii ''proposalId'', word_json proposalId), (ascii ''accepted'', JBool accepted), (ascii ''reason'', JStr reason)]"

definition discovery_json :: "KeyMappingLanStatusSnapshot \<Rightarrow> lan \<Rightarrow> json" where
  "discovery_json startup l =
     make_object [(ascii ''type'', text_json ''discovery''), (ascii ''version'', version_json), (ascii ''serverId'', JStr (ss_serverId startup)),
       (ascii ''name'', JStr (ln_deviceName l)), (ascii ''port'', JUInt (ucast (ss_port startup)))]"

definition ping_json :: json where "ping_json = make_object [(ascii ''type'', text_json ''ping'')]"

subsection \<open>Sending the snapshot of the match\<close>

definition snapshot_reply :: "lan_env \<Rightarrow> bool \<Rightarrow> 32 word \<Rightarrow> u64 \<Rightarrow> 32 word \<Rightarrow> bytes \<Rightarrow> json" where
  "snapshot_reply env automatic requestId revision subscriptionId snapshotPayload =
     (let failed = snapshot_error_json automatic requestId revision subscriptionId in
      if snapshotPayload = [] then failed ''unavailable''
      else case ne_parse env snapshotPayload of
        None \<Rightarrow> failed ''snapshot_failed''
      | Some snapshot \<Rightarrow>
          if \<not> is_object snapshot then failed ''invalid_snapshot''
          else case value_int env ''version'' snapshot of
            None \<Rightarrow> failed ''snapshot_failed''
          | Some v \<Rightarrow>
              if v \<noteq> kProtocolVersion then failed ''invalid_snapshot''
              else if automatic then lan_push_json revision subscriptionId snapshot
              else snapshot_json requestId snapshot)"

definition sendTeamSyncSnapshot ::
  "lan_env \<Rightarrow> (bytes \<Rightarrow> bool) \<Rightarrow> bool \<Rightarrow> 32 word \<Rightarrow> u64 \<Rightarrow> 32 word \<Rightarrow> lan \<Rightarrow> (bool \<times> lan) option" where
  "sendTeamSyncSnapshot env transmit automatic requestId revision subscriptionId l =
     (case ne_dump env (snapshot_reply env automatic requestId revision subscriptionId (ln_snapshot l)) of
        None \<Rightarrow> None
      | Some payload \<Rightarrow>
          if length payload > kMaximumPayloadBytes
          then send_json env transmit (snapshot_error_json automatic requestId revision subscriptionId ''payload_too_large'') l
          else Some (send_payload transmit payload l))"

subsection \<open>Discovery and new connections\<close>

definition answer_discovery :: "lan_env \<Rightarrow> KeyMappingLanStatusSnapshot \<Rightarrow> bytes \<Rightarrow> lan \<Rightarrow> lan" where
  "answer_discovery env startup datagram l =
     (case do {
        request \<leftarrow> ne_parse env datagram;
        t \<leftarrow> value_text ''type'' request;
        if t = ascii ''dnf-key-mapping-discover''
        then do { v \<leftarrow> value_int env ''version'' request; if v = kProtocolVersion then ne_dump env (discovery_json startup l) else None }
        else None } of
        None \<Rightarrow> l
      | Some payload \<Rightarrow> emit (DatagramSent payload) l)"

definition accept_connection :: "lan_env \<Rightarrow> (bytes \<Rightarrow> bool) \<Rightarrow> int \<Rightarrow> server_link \<Rightarrow> lan \<Rightarrow> server_state option" where
  "accept_connection env transmit now s l =
     (if sv_client s then
        map_option (\<lambda>payload. (s, if frame_fits payload \<and> transmit payload then emit (RefusalSent payload) l else l))
          (ne_dump env (rejected_json ''busy''))
      else Some (s\<lparr>sv_client := True, sv_paired := False, sv_activeClientId := [], sv_subscribed := False, sv_subscriptionId := 0,
        sv_lastPushed := 0, sv_pushImmediately := False, sv_acceptedAt := now\<rparr>, l))"

subsection \<open>A frame of the client\<close>

definition client_gone :: "server_link \<Rightarrow> lan \<Rightarrow> server_state" where
  "client_gone s l =
     (s\<lparr>sv_client := False, sv_paired := False, sv_subscribed := False, sv_subscriptionId := 0\<rparr>,
      NotifyStateChanged (with_status (\<lambda>st. st\<lparr>ss_connected := False, ss_teamSyncSubscribed := False, ss_remoteDeviceName := [],
        ss_status := ascii ''listening''\<rparr>) (l\<lparr>ln_remoteActiveMask := 0\<rparr>)))"

definition drop_client :: "server_link \<Rightarrow> lan \<Rightarrow> server_state" where
  "drop_client s = client_gone (s\<lparr>sv_activeClientId := []\<rparr>)"

text \<open>The flag of a handler tells whether it ran to its end; \<open>thrown\<close> is a handler cut off.\<close>

definition thrown :: "server_link \<Rightarrow> lan \<Rightarrow> bool \<times> server_state" where "thrown s l = (False, s, l)"

definition ok :: "server_link \<Rightarrow> lan \<Rightarrow> bool \<times> server_state" where "ok s l = (True, s, l)"

text \<open>The permission of the client is read before the number of its changes; \<open>others\<close> run in between.\<close>

definition pair_client ::
  "lan_env \<Rightarrow> KeyMappingLanStatusSnapshot \<Rightarrow> (bytes \<Rightarrow> bool) \<Rightarrow> int \<Rightarrow> (lan \<Rightarrow> lan) \<Rightarrow> json \<Rightarrow> server_link \<Rightarrow> lan \<Rightarrow> bool \<times> server_state" where
  "pair_client env startup transmit readAt others message s l =
     (let s = s\<lparr>sv_paired := True\<rparr> in
      case value_text ''clientId'' message of
        None \<Rightarrow> thrown s l
      | Some clientId \<Rightarrow>
          let s = s\<lparr>sv_activeClientId := clientId, sv_lastHeartbeat := readAt\<rparr> in
          case send_unchecked env transmit (accepted_json startup l) l of
            None \<Rightarrow> thrown s l
          | Some l \<Rightarrow>
              (case send_unchecked env transmit (policy_json (ln_clientWriteAllowed l)) (others l) of
                 None \<Rightarrow> thrown s (others l)
               | Some l \<Rightarrow>
                   let s = s\<lparr>sv_sentPolicy := ln_policyGeneration l\<rparr>;
                       l = with_status (\<lambda>st. st\<lparr>ss_connected := True, ss_teamSyncSubscribed := False\<rparr>) l
                   in case value_text ''name'' message of
                     None \<Rightarrow> thrown s l
                   | Some name \<Rightarrow> ok s (NotifyStateChanged (with_status (\<lambda>st. st\<lparr>ss_remoteDeviceName := name, ss_status := ascii ''connected''\<rparr>) l))))"

definition handle_hello ::
  "lan_env \<Rightarrow> KeyMappingLanStatusSnapshot \<Rightarrow> (bytes \<Rightarrow> bool) \<Rightarrow> int \<Rightarrow> (lan \<Rightarrow> lan) \<Rightarrow> json \<Rightarrow> server_link \<Rightarrow> lan \<Rightarrow> bool \<times> server_state" where
  "handle_hello env startup transmit readAt others message s l =
     (case (value_int env ''version'' message, value_text ''pairCode'' message) of
        (Some v, Some code) \<Rightarrow>
          if v = kProtocolVersion \<and> code = ss_pairCode startup
          then pair_client env startup transmit readAt others message s l
          else (case send_unchecked env transmit (rejected_json (if v = kProtocolVersion then ''pair_code'' else ''version'')) l of
              None \<Rightarrow> thrown s l
            | Some l \<Rightarrow> ok (s\<lparr>sv_client := False\<rparr>) l)
      | _ \<Rightarrow> thrown s l)"

definition handle_state :: "lan_env \<Rightarrow> int \<Rightarrow> json \<Rightarrow> server_link \<Rightarrow> lan \<Rightarrow> bool \<times> server_state" where
  "handle_state env readAt message s l =
     (case value_word env ''activeMask'' message of
        None \<Rightarrow> thrown s l
      | Some activeMask \<Rightarrow>
          if activeMask \<le> kMaximumActiveMask then ok (s\<lparr>sv_lastHeartbeat := readAt\<rparr>) (l\<lparr>ln_remoteActiveMask := activeMask\<rparr>)
          else (True, drop_client s l))"

definition handle_request :: "lan_env \<Rightarrow> (bytes \<Rightarrow> bool) \<Rightarrow> json \<Rightarrow> server_link \<Rightarrow> lan \<Rightarrow> bool \<times> server_state" where
  "handle_request env transmit message s l =
     (case value_word env ''requestId'' message of
        None \<Rightarrow> thrown s l
      | Some requestId \<Rightarrow>
          (case (if requestId = 0 then send_json env transmit (request_error_json requestId ''invalid_request'') l
                 else sendTeamSyncSnapshot env transmit False requestId (ln_revision l) 0 l) of
             Some (True, l) \<Rightarrow> ok s l
           | _ \<Rightarrow> thrown s l))"

definition handle_subscribe :: "lan_env \<Rightarrow> int \<Rightarrow> json \<Rightarrow> server_link \<Rightarrow> lan \<Rightarrow> bool \<times> server_state" where
  "handle_subscribe env readAt message s l =
     (case (value_flag ''enabled'' message, value_word env ''subscriptionId'' message, value_int env ''version'' message) of
        (Some enabled, Some subscriptionId, Some v) \<Rightarrow>
          if v \<noteq> kProtocolVersion \<or> subscriptionId = 0 then thrown s l
          else ok (s\<lparr>sv_subscribed := enabled, sv_subscriptionId := subscriptionId, sv_lastPushed := 0, sv_pendingPush := ln_revision l,
                 sv_pendingChangedAt := readAt, sv_pushImmediately := enabled\<rparr>)
                 (NotifyStateChanged (with_status (\<lambda>st. st\<lparr>ss_teamSyncSubscribed := enabled\<rparr>) l))
      | _ \<Rightarrow> thrown s l)"

text \<open>A received payload is never larger than the limit, so the size is not tested again here.\<close>

definition with_source :: "bytes \<Rightarrow> json \<Rightarrow> json" where
  "with_source sourceId message =
     (case message of JObj kvs \<Rightarrow> JObj (insert_key (ascii ''sourceId'') (JStr sourceId) kvs) | _ \<Rightarrow> message)"

definition handle_proposal :: "lan_env \<Rightarrow> (bytes \<Rightarrow> bool) \<Rightarrow> json \<Rightarrow> server_link \<Rightarrow> lan \<Rightarrow> bool \<times> server_state" where
  "handle_proposal env transmit message s l =
     (case (value_word env ''proposalId'' message, value_int env ''version'' message) of
        (Some proposalId, Some v) \<Rightarrow>
          let valid = (v = kProtocolVersion \<and> proposalId \<noteq> 0 \<and>
                (case json_find (ascii ''snapshot'') message of Some snapshot \<Rightarrow> is_object snapshot | None \<Rightarrow> False))
          in (case (if \<not> ln_clientWriteAllowed l \<or> \<not> valid
                 then send_unchecked env transmit (result_json proposalId False
                   (ascii (if ln_clientWriteAllowed l then ''invalid_snapshot'' else ''write_not_allowed''))) l
                 else notify_json env (with_source (sv_activeClientId s) message) l) of
                None \<Rightarrow> thrown s l
              | Some l \<Rightarrow> ok s l)
      | _ \<Rightarrow> thrown s l)"

definition handle_message ::
  "lan_env \<Rightarrow> KeyMappingLanStatusSnapshot \<Rightarrow> (bytes \<Rightarrow> bool) \<Rightarrow> int \<Rightarrow> (lan \<Rightarrow> lan) \<Rightarrow> json \<Rightarrow> bytes \<Rightarrow> server_link \<Rightarrow> lan \<Rightarrow> bool \<times> server_state" where
  "handle_message env startup transmit readAt others message t s l =
     (if \<not> sv_paired s then
        (if t = ascii ''hello'' then handle_hello env startup transmit readAt others message s l else ok s l)
      else if t = ascii ''state'' then handle_state env readAt message s l
      else if t = ascii ''team_sync_request'' then handle_request env transmit message s l
      else if t = ascii ''team_sync_subscribe'' then handle_subscribe env readAt message s l
      else if t = ascii ''team_sync_propose'' then handle_proposal env transmit message s l
      else if t = ascii ''ping'' then
        (let s = s\<lparr>sv_lastHeartbeat := readAt\<rparr> in
         case send_unchecked env transmit pong_json l of None \<Rightarrow> thrown s l | Some l \<Rightarrow> ok s l)
      else if t = ascii ''pong'' then ok (s\<lparr>sv_lastHeartbeat := readAt\<rparr>) l
      else ok s l)"

definition server_receive ::
  "lan_env \<Rightarrow> KeyMappingLanStatusSnapshot \<Rightarrow> (bytes \<Rightarrow> bool) \<Rightarrow> int \<Rightarrow> (lan \<Rightarrow> lan) \<Rightarrow> received \<Rightarrow> server_link \<Rightarrow> lan \<Rightarrow> server_state" where
  "server_receive env startup transmit readAt others r s l =
     (case r of
        Frame payload \<Rightarrow>
          (case (case ne_parse env payload of
              None \<Rightarrow> thrown s l
            | Some message \<Rightarrow>
                (case value_text ''type'' message of
                   None \<Rightarrow> thrown s l
                 | Some t \<Rightarrow> handle_message env startup transmit readAt others message t s l)) of
             (True, s, l) \<Rightarrow> (s, l)
           | (False, s, l) \<Rightarrow> drop_client s l)
      | FrameBroken \<Rightarrow> drop_client s l
      | _ \<Rightarrow> (s, l))"

subsection \<open>What is due\<close>

definition give_up_client :: "server_link \<Rightarrow> server_link" where
  "give_up_client s = s\<lparr>sv_client := False, sv_paired := False\<rparr>"

text \<open>The flag of the steps tells whether the client is still there; \<open>None\<close> is an exception that leaves the thread.\<close>

fun send_results :: "lan_env \<Rightarrow> (bytes \<Rightarrow> bool) \<Rightarrow> TeamSyncProposalResult list \<Rightarrow> server_link \<Rightarrow> lan \<Rightarrow> server_link outcome" where
  "send_results env transmit [] s l = Some (True, s, l)"
| "send_results env transmit (r # rs) s l =
     (if pr_sourceId r \<noteq> sv_activeClientId s then send_results env transmit rs s l
      else case send_json env transmit (result_json (pr_proposalId r) (pr_accepted r) (pr_reason r)) l of
        None \<Rightarrow> None
      | Some (False, l) \<Rightarrow> Some (False, (give_up_client s)\<lparr>sv_activeClientId := []\<rparr>, l)
      | Some (True, l) \<Rightarrow> send_results env transmit rs s l)"

definition send_policy :: "lan_env \<Rightarrow> (bytes \<Rightarrow> bool) \<Rightarrow> server_link \<Rightarrow> lan \<Rightarrow> server_link outcome" where
  "send_policy env transmit s l =
     (if ln_policyGeneration l = sv_sentPolicy s then Some (True, s, l)
      else case send_json env transmit (policy_json (ln_clientWriteAllowed l)) l of
        None \<Rightarrow> None
      | Some (False, l) \<Rightarrow> Some (False, give_up_client s, l)
      | Some (True, l) \<Rightarrow> Some (True, s\<lparr>sv_sentPolicy := ln_policyGeneration l\<rparr>, l))"

definition observe_revision :: "int \<Rightarrow> lan \<Rightarrow> server_link \<Rightarrow> server_link" where
  "observe_revision now l s =
     (if sv_subscribed s \<and> ln_revision l \<noteq> sv_pendingPush s then s\<lparr>sv_pendingPush := ln_revision l, sv_pendingChangedAt := now\<rparr> else s)"

definition push_due :: "int \<Rightarrow> server_link \<Rightarrow> bool" where
  "push_due now s \<longleftrightarrow> sv_subscribed s \<and> sv_pendingPush s \<noteq> sv_lastPushed s \<and>
     (sv_pushImmediately s \<or> elapsed_ms now (sv_pendingChangedAt s) \<ge> kTeamSyncDebounceMs)"

definition send_push :: "lan_env \<Rightarrow> (bytes \<Rightarrow> bool) \<Rightarrow> int \<Rightarrow> server_link \<Rightarrow> lan \<Rightarrow> server_link outcome" where
  "send_push env transmit now s l =
     (let s = observe_revision now l s in
      if \<not> push_due now s then Some (True, s, l)
      else case sendTeamSyncSnapshot env transmit True 0 (sv_pendingPush s) (sv_subscriptionId s) l of
        None \<Rightarrow> None
      | Some (False, l) \<Rightarrow> Some (False, client_gone s l)
      | Some (True, l) \<Rightarrow> Some (True, s\<lparr>sv_lastPushed := sv_pendingPush s, sv_pushImmediately := False\<rparr>, l))"

definition heartbeat :: "lan_env \<Rightarrow> (bytes \<Rightarrow> bool) \<Rightarrow> int \<Rightarrow> server_link \<Rightarrow> lan \<Rightarrow> server_link outcome" where
  "heartbeat env transmit now s l =
     (if elapsed_ms now (sv_lastHeartbeat s) > kServerHeartbeatTimeoutMs then Some (False, client_gone s l)
      else if elapsed_ms now (sv_lastPing s) \<ge> kStateHeartbeatMs then
        (case send_json env transmit ping_json l of
           None \<Rightarrow> None
         | Some (sent, l) \<Rightarrow> Some (sent, (if sent then s else give_up_client s)\<lparr>sv_lastPing := now\<rparr>, l))
      else Some (True, s, l))"

definition server_due :: "lan_env \<Rightarrow> (bytes \<Rightarrow> bool) \<Rightarrow> int \<Rightarrow> (nat \<Rightarrow> lan \<Rightarrow> lan) \<Rightarrow> server_link \<Rightarrow> lan \<Rightarrow> server_link outcome" where
  "server_due env transmit now others s l =
     (if \<not> sv_client s then Some (True, s, l)
      else if \<not> sv_paired s then
        Some (True, if elapsed_ms now (sv_acceptedAt s) > kReconnectIntervalMs then s\<lparr>sv_client := False\<rparr> else s, l)
      else and_then (and_then (and_then
        (send_results env transmit (ln_proposalResults l) s (l\<lparr>ln_proposalResults := []\<rparr>))
        (\<lambda>s l. send_policy env transmit s (others 0 l)))
        (\<lambda>s l. send_push env transmit now s (others 1 l)))
        (\<lambda>s l. heartbeat env transmit now s (others 2 l)))"

subsection \<open>A round, the thread\<close>

record server_input =
  vi_selectFails :: bool
  vi_datagram :: "bytes option"
  vi_accepts :: bool
  vi_received :: received
  vi_readAt :: int
  vi_now :: int
  vi_transmit :: "bytes \<Rightarrow> bool"
  vi_othersPairing :: "lan \<Rightarrow> lan"
  vi_others :: "nat \<Rightarrow> lan \<Rightarrow> lan"

text \<open>A connection that has just been accepted is not read in the same round.\<close>

definition server_round :: "lan_env \<Rightarrow> KeyMappingLanStatusSnapshot \<Rightarrow> server_input \<Rightarrow> server_link \<Rightarrow> lan \<Rightarrow> server_state option" where
  "server_round env startup i s l =
     (let l = vi_others i 0 l in
      if vi_selectFails i then Some (s, l)
      else
        let hadClient = sv_client s;
            l = vi_others i 1 (case vi_datagram i of None \<Rightarrow> l | Some datagram \<Rightarrow> answer_discovery env startup datagram l)
        in case (if vi_accepts i then accept_connection env (vi_transmit i) (vi_readAt i) s l else Some (s, l)) of
          None \<Rightarrow> None
        | Some (s, l) \<Rightarrow>
            (case (if hadClient then server_receive env startup (vi_transmit i) (vi_readAt i) (vi_othersPairing i) (vi_received i) s (vi_others i 2 l)
                   else (s, vi_others i 2 l)) of
               (s, l) \<Rightarrow> map_option snd (server_due env (vi_transmit i) (vi_now i) (\<lambda>n. vi_others i (3 + n)) s l)))"

fun server_rounds :: "lan_env \<Rightarrow> KeyMappingLanStatusSnapshot \<Rightarrow> server_input list \<Rightarrow> server_link \<Rightarrow> lan \<Rightarrow> server_state option" where
  "server_rounds env startup [] s l = Some (s, l)"
| "server_rounds env startup (i # rest) s l =
     (if \<not> ln_running l then Some (s, l)
      else case server_round env startup i s l of None \<Rightarrow> None | Some (s, l) \<Rightarrow> server_rounds env startup rest s l)"

definition server_thread :: "lan_env \<Rightarrow> binding \<Rightarrow> int \<Rightarrow> server_input list \<Rightarrow> lan \<Rightarrow> lan option" where
  "server_thread env b now inputs l =
     (case server_starts b l of
        (False, l') \<Rightarrow> Some l'
      | (True, l') \<Rightarrow> map_option (\<lambda>(s, l). l\<lparr>ln_remoteActiveMask := 0\<rparr>) (server_rounds env (ln_status l) inputs (new_server now l') l'))"

end
