(* ===== verification/LanDiscovery.thy ===== *)
theory LanDiscovery
  imports LanServer
begin

text \<open>
  The search for servers (\<^verbatim>\<open>DiscoveryThreadMain\<close>): the answers to one broadcast, up to the deadline or until the
  socket fails, with the address each came from (empty when it cannot be written out).
\<close>

definition discovery_request_json :: json where
  "discovery_request_json = make_object [(ascii ''type'', text_json ''dnf-key-mapping-discover''), (ascii ''version'', version_json)]"

text \<open>The port of an answer is an \<^verbatim>\<open>int\<close> cast to 16 bits.\<close>

definition read_answer :: "lan_env \<Rightarrow> 16 word \<Rightarrow> bytes \<Rightarrow> bytes \<Rightarrow> KeyMappingLanServerInfo option" where
  "read_answer env port address datagram = do {
     response \<leftarrow> ne_parse env datagram;
     t \<leftarrow> value_text ''type'' response;
     if t \<noteq> ascii ''discovery'' then None
     else do {
       v \<leftarrow> value_int env ''version'' response;
       if v \<noteq> kProtocolVersion then None
       else do {
         serverId \<leftarrow> value_text ''serverId'' response;
         name \<leftarrow> value_text ''name'' response;
         p \<leftarrow> jvalue (ascii ''port'') (JInt (ucast port)) response;
         n \<leftarrow> (number_word env p :: 32 word option);
         Some \<lparr>si_id = serverId, si_name = name, si_address = address, si_port = ucast n\<rparr> } } }"

definition server_key :: "KeyMappingLanServerInfo \<Rightarrow> bytes" where
  "server_key item = (if si_id item = [] then si_address item else si_id item)"

text \<open>The servers found so far, in the order of their first answers.\<close>

definition add_answer :: "lan_env \<Rightarrow> 16 word \<Rightarrow> bytes \<times> bytes \<Rightarrow> KeyMappingLanServerInfo list \<Rightarrow> KeyMappingLanServerInfo list" where
  "add_answer env port answer found =
     (case read_answer env port (fst answer) (snd answer) of
        None \<Rightarrow> found
      | Some item \<Rightarrow> if si_address item \<noteq> [] \<and> server_key item \<notin> set (map server_key found) then found @ [item] else found)"

datatype search = NoSocket | NoBind | Answers "(bytes \<times> bytes) list"

definition discovery_over :: "(KeyMappingLanStatusSnapshot \<Rightarrow> KeyMappingLanStatusSnapshot) \<Rightarrow> lan \<Rightarrow> lan" where
  "discovery_over f l = NotifyStateChanged (with_status (\<lambda>s. f (s\<lparr>ss_discovering := False\<rparr>)) l)"

definition DiscoveryThreadMain :: "lan_env \<Rightarrow> 16 word \<Rightarrow> search \<Rightarrow> lan \<Rightarrow> lan option" where
  "DiscoveryThreadMain env port result l =
     (case result of
        NoSocket \<Rightarrow> Some (discovery_over id l)
      | NoBind \<Rightarrow> Some (discovery_over id (l\<lparr>ln_discoveryRunning := False\<rparr>))
      | Answers answers \<Rightarrow> do {
          payload \<leftarrow> ne_dump env discovery_request_json;
          Some (discovery_over (\<lambda>s. s\<lparr>ss_discoveredServers := fold (add_answer env port) answers []\<rparr>)
            ((emit (DatagramSent payload) l)\<lparr>ln_discoveryRunning := False\<rparr>)) })"

lemma add_answer_distinct:
  "distinct (map server_key found) \<Longrightarrow> distinct (map server_key (add_answer env port answer found))"
  by (auto simp: add_answer_def split: option.splits)

lemma found_distinct:
  "distinct (map server_key found) \<Longrightarrow> distinct (map server_key (fold (add_answer env port) answers found))"
  by (induction answers arbitrary: found) (simp_all add: add_answer_distinct)

lemma add_answer_address:
  "list_all (\<lambda>item. si_address item \<noteq> []) found \<Longrightarrow> list_all (\<lambda>item. si_address item \<noteq> []) (add_answer env port answer found)"
  by (auto simp: add_answer_def split: option.splits)

lemma found_addresses:
  "list_all (\<lambda>item. si_address item \<noteq> []) found \<Longrightarrow> list_all (\<lambda>item. si_address item \<noteq> []) (fold (add_answer env port) answers found)"
  by (induction answers arbitrary: found) (simp_all add: add_answer_address)

end
