(* ===== verification/JsonPrint.thy ===== *)
theory JsonPrint
  imports Json
begin

text \<open>
  Printing and parsing of JSON values. The library prints an integer of either kind in decimal and reads a
  number without sign back as unsigned, so a value comes back as \<open>reread\<close> of it; every accessor the
  program uses reads the same from both. \<open>proper\<close> values are the ones the program builds: no doubles, and
  objects with their members in order.
\<close>

fun reread :: "json \<Rightarrow> json" where
  "reread (JInt n) = (if sint n < 0 then JInt n else JUInt n)"
| "reread (JArr xs) = JArr (map reread xs)"
| "reread (JObj kvs) = JObj (map (\<lambda>(k, v). (k, reread v)) kvs)"
| "reread j = j"

fun proper :: "json \<Rightarrow> bool" where
  "proper (JFloat _) = False"
| "proper (JArr xs) = list_all proper xs"
| "proper (JObj kvs) = (keys_sorted kvs \<and> list_all (\<lambda>kv. proper (snd kv)) kvs)"
| "proper _ = True"

definition prints_back_with :: "(json \<Rightarrow> bytes option) \<Rightarrow> (bytes \<Rightarrow> json option) \<Rightarrow> bool" where
  "prints_back_with dump parse \<longleftrightarrow>
     (\<forall>j. proper j \<longrightarrow> dump (reread j) = dump j \<and> (\<forall>payload. dump j = Some payload \<longrightarrow> parse payload = Some (reread j)))"

lemma reread_twice [simp]: "reread (reread j) = reread j"
proof (induction j)
  case (JObj kvs)
  then show ?case by (auto simp: comp_def)
qed simp_all

lemma reread_kind [simp]:
  "is_object (reread j) = is_object j" "is_array (reread j) = is_array j" "is_string (reread j) = is_string j"
  "is_boolean (reread j) = is_boolean j" "is_number_integer (reread j) = is_number_integer j"
  "get_string (reread j) = get_string j" "get_bits (reread j) = get_bits j" "json_bool (reread j) = json_bool j"
  "elements (reread j) = map reread (elements j)" "json_size (reread j) = json_size j"
  by (cases j; simp)+

lemma map_of_reread: "map_of (map (\<lambda>(k, v). (k, reread v)) kvs) k = map_option reread (map_of kvs k)"
  by (induction kvs) auto

lemma reread_find [simp]: "json_find k (reread j) = map_option reread (json_find k j)"
  by (cases j) (simp_all add: map_of_reread)

lemma reread_jget [simp]: "jget k (reread j) = reread (jget k j)"
  by (simp add: jget_def split: option.splits)

lemma reread_erase [simp]: "json_erase k (reread j) = reread (json_erase k j)"
proof -
  have "filter (\<lambda>kv. fst kv \<noteq> k) (map (\<lambda>(k, v). (k, reread v)) kvs) = map (\<lambda>(k, v). (k, reread v)) (filter (\<lambda>kv. fst kv \<noteq> k) kvs)" for kvs
    by (induction kvs) auto
  then show ?thesis by (cases j) simp_all
qed

lemma reread_insert_key:
  "insert_key k (reread v) (map (\<lambda>(k, v). (k, reread v)) kvs) = map (\<lambda>(k, v). (k, reread v)) (insert_key k v kvs)"
  by (induction k v kvs rule: insert_key.induct) auto

lemma no_float_reread [simp]: "no_float (reread j) = no_float j"
proof (induction j)
  case (JObj kvs)
  then show ?case by (auto simp: list_all_iff)
qed (simp_all add: list_all_iff)

lemma proper_no_float: "proper j \<Longrightarrow> no_float j"
proof (induction j)
  case (JObj kvs)
  then show ?case by (auto simp: list_all_iff)
qed (simp_all add: list_all_iff)

lemma proper_reread: "proper j \<Longrightarrow> proper (reread j)"
proof (induction j)
  case (JObj kvs)
  have "map fst (map (\<lambda>(k, v). (k, reread v)) kvs) = map fst kvs" by (auto simp: comp_def)
  then have "keys_sorted (map (\<lambda>(k, v). (k, reread v)) kvs)" using JObj.prems by (simp add: keys_sorted_def del: map_map)
  moreover have "proper (reread v)" if "(k, v) \<in> set kvs" for k v
    using JObj.IH [of "(k, v)" v] that JObj.prems by (auto simp: list_all_iff)
  ultimately show ?case by (auto simp: list_all_iff)
qed (simp_all add: list_all_iff)

lemma json_eq_reread: "no_float j \<Longrightarrow> json_eq (reread j) (reread j)"
  by (simp add: json_eq_refl)

text \<open>Values built from proper members are proper.\<close>

lemma proper_insert_key: "proper v \<Longrightarrow> list_all (\<lambda>kv. proper (snd kv)) l \<Longrightarrow> list_all (\<lambda>kv. proper (snd kv)) (insert_key k v l)"
  by (induction k v l rule: insert_key.induct) simp_all

lemma proper_fold:
  "list_all (\<lambda>kv. proper (snd kv)) kvs \<Longrightarrow> list_all (\<lambda>kv. proper (snd kv)) l \<Longrightarrow>
     list_all (\<lambda>kv. proper (snd kv)) (fold (\<lambda>(k, v). insert_key k v) kvs l)"
  by (induction kvs arbitrary: l) (auto simp: proper_insert_key)

lemma proper_make [simp]: "list_all (\<lambda>kv. proper (snd kv)) kvs \<Longrightarrow> proper (make_object kvs)"
  using fold_insert_key [of "[]" kvs] by (simp add: make_object_def proper_fold)

end
