(* ===== verification/LanAnswers.thy ===== *)
theory LanAnswers
  imports LanRounds JsonPrint
begin

text \<open>
  The requests of the client and their answers. A run interleaves the steps of the client thread with the calls of
  the dialog; the requests that \<^verbatim>\<open>RequestTeamSync\<close> accepted are recorded in order.
\<close>

subsection \<open>Calls of the dialog beside a request\<close>

datatype lan_call =
    CallSnapshot bytes | CallRemoteSnapshot bytes u64 | CallWriteAllowed bool | CallAutoSend bool | CallMask "32 word"
  | CallSubscribed bool | CallComplete bytes "32 word" bool bytes

fun perform :: "lan_call \<Rightarrow> lan \<Rightarrow> lan" where
  "perform (CallSnapshot snapshot) = SetTeamSyncSnapshot snapshot"
| "perform (CallRemoteSnapshot snapshot revision) = SetRemoteTeamSyncSnapshot snapshot revision"
| "perform (CallWriteAllowed allowed) = SetTeamSyncClientWriteAllowed allowed"
| "perform (CallAutoSend enabled) = SetTeamSyncAutoSend enabled"
| "perform (CallMask activeMask) = SetLocalActiveMask activeMask"
| "perform (CallSubscribed enabled) = SetTeamSyncSubscribed enabled"
| "perform (CallComplete sourceId proposalId accepted reason) = CompleteTeamSyncProposal sourceId proposalId accepted reason"

subsection \<open>Runs\<close>

inductive client_run :: "lan_env \<Rightarrow> 32 word list \<Rightarrow> client_link \<Rightarrow> lan \<Rightarrow> bool" for env where
  start: "\<not> ln_pending l \<Longrightarrow> ln_events l = [] \<Longrightarrow> client_run env [] k l"
| call: "client_run env ids k l \<Longrightarrow> client_run env ids k (perform c l)"
| request: "client_run env ids k l \<Longrightarrow> RequestTeamSync l = (None, l') \<Longrightarrow> client_run env (ids @ [ln_requestId l']) k l'"
| opened: "client_run env ids k l \<Longrightarrow> open_connection env startup connects tracked transmit answer l = Some (Opened l') \<Longrightarrow>
    client_run env ids (new_link now l') l'"
| refused: "client_run env ids k l \<Longrightarrow> open_connection env startup connects tracked transmit answer l = Some a \<Longrightarrow>
    a \<in> {Unreachable l', Untracked l', Rejected l', Closed l'} \<Longrightarrow> client_run env ids k l'"
| state: "client_run env ids k l \<Longrightarrow> send_state env transmit now k l = Some (go, k', l') \<Longrightarrow> client_run env ids k' l'"
| subscription: "client_run env ids k l \<Longrightarrow> send_subscription env transmit k l = Some (go, k', l') \<Longrightarrow> client_run env ids k' l'"
| upload: "client_run env ids k l \<Longrightarrow> upload_step env transmit now k l = Some (go, k', l') \<Longrightarrow> client_run env ids k' l'"
| asking: "client_run env ids k l \<Longrightarrow> request_step env transmit now k l = Some (go, k', l') \<Longrightarrow> client_run env ids k' l'"
| receiving: "client_run env ids k l \<Longrightarrow> receive_step env transmit r k l = Some (go, k', l') \<Longrightarrow> client_run env ids k' l'"
| closing: "client_run env ids k l \<Longrightarrow> close_connection env l = Some l' \<Longrightarrow> client_run env ids k l'"

subsection \<open>What counts as an answer\<close>

definition answer_of :: "lan_env \<Rightarrow> json \<Rightarrow> 32 word list" where
  "answer_of env m =
     (if value_text ''type'' m = Some (ascii ''team_sync_snapshot'') \<or>
         value_text ''type'' m = Some (ascii ''team_sync_error'') \<and> value_flag ''automatic'' m = Some False
      then case value_word env ''requestId'' m of Some requestId \<Rightarrow> if requestId = 0 then [] else [requestId] | None \<Rightarrow> []
      else [])"

fun answered :: "lan_env \<Rightarrow> lan_event \<Rightarrow> 32 word list" where
  "answered env (TeamSyncMessage message) = (case ne_parse env message of Some m \<Rightarrow> answer_of env m | None \<Rightarrow> [])"
| "answered env _ = []"

definition answered_ids :: "lan_env \<Rightarrow> lan \<Rightarrow> 32 word list" where
  "answered_ids env l = concat (map (answered env) (ln_events l))"

text \<open>
  What is assumed of the json library: a printed value parses to itself, and a parsed value is printed and
  parses to itself again.
\<close>

definition library_reads :: "lan_env \<Rightarrow> bool" where
  "library_reads env \<longleftrightarrow> prints_back_with (ne_dump env) (ne_parse env) \<and>
     (\<forall>payload m. ne_parse env payload = Some m \<longrightarrow> (\<forall>printed. ne_dump env m = Some printed \<longrightarrow> ne_parse env printed = Some m) \<and> ne_dump env m \<noteq> None)"

lemma library_prints: "library_reads env \<Longrightarrow> proper j \<Longrightarrow> ne_dump env j = Some printed \<Longrightarrow> ne_parse env printed = Some (reread j)"
  by (simp add: library_reads_def prints_back_with_def)

lemma library_reads_again: "library_reads env \<Longrightarrow> ne_parse env payload = Some m \<Longrightarrow> ne_dump env m = Some printed \<Longrightarrow> ne_parse env printed = Some m"
  unfolding library_reads_def by blast

lemma library_prints_again: "library_reads env \<Longrightarrow> ne_parse env payload = Some m \<Longrightarrow> \<exists>printed. ne_dump env m = Some printed"
  unfolding library_reads_def by blast

lemma number_word_reread [simp]: "number_word env (reread j) = number_word env j"
  by (cases j) simp_all

lemma value_word_reread [simp]: "value_word env k (reread j) = value_word env k j"
  by (simp add: value_word_def jvalue_def split: option.splits)

lemma value_text_reread [simp]: "jvalue_string k d (reread j) = jvalue_string k d j"
  by (cases "json_find k j") (simp_all add: jvalue_string_def jvalue_def)

lemma value_flag_reread [simp]: "jvalue_bool k d (reread j) = jvalue_bool k d j"
  by (cases "json_find k j") (simp_all add: jvalue_bool_def jvalue_def)

lemma value_int_reread [simp]: "value_int env k (reread j) = value_int env k j"
  by (simp add: value_int_def)

lemma answer_of_reread [simp]: "answer_of env (reread j) = answer_of env j"
  by (simp add: answer_of_def)

subsection \<open>Steps that answer nothing\<close>

definition same_requests :: "lan_env \<Rightarrow> lan \<Rightarrow> lan \<Rightarrow> bool" where
  "same_requests env l l' \<longleftrightarrow>
     ln_pending l' = ln_pending l \<and> ln_requestId l' = ln_requestId l \<and> answered_ids env l' = answered_ids env l"

lemma same_requests_refl [simp]: "same_requests env l l"
  by (simp add: same_requests_def)

lemma same_requests_with_status [simp]: "same_requests env l (with_status f l') = same_requests env l l'"
  by (simp add: same_requests_def answered_ids_def with_status_def)

lemma same_requests_emit: "answered env e = [] \<Longrightarrow> same_requests env l (emit e l') = same_requests env l l'"
  by (simp add: same_requests_def answered_ids_def emit_def)

lemma same_requests_notify [simp]: "same_requests env l (NotifyStateChanged l') = same_requests env l l'"
  by (simp add: NotifyStateChanged_def same_requests_emit)

lemma same_requests_send [simp]: "send_payload transmit payload l = (sent, l') \<Longrightarrow> same_requests env l l'"
  by (auto simp: send_payload_def same_requests_emit split: if_splits)

lemma same_requests_send_json: "send_json env transmit j l = Some (sent, l') \<Longrightarrow> same_requests env l l'"
  by (auto simp: send_json_def)

lemma same_requests_trans: "same_requests env l l' \<Longrightarrow> same_requests env l' l'' \<Longrightarrow> same_requests env l l''"
  by (simp add: same_requests_def)

lemma same_requests_fields [simp]:
  "same_requests env l (l'\<lparr>ln_running := b\<rparr>) = same_requests env l l'"
  "same_requests env l (l'\<lparr>ln_snapshot := s\<rparr>) = same_requests env l l'"
  "same_requests env l (l'\<lparr>ln_revision := r\<rparr>) = same_requests env l l'"
  "same_requests env l (l'\<lparr>ln_clientWriteAllowed := b\<rparr>) = same_requests env l l'"
  "same_requests env l (l'\<lparr>ln_policyGeneration := n\<rparr>) = same_requests env l l'"
  "same_requests env l (l'\<lparr>ln_autoSend := b\<rparr>) = same_requests env l l'"
  "same_requests env l (l'\<lparr>ln_localActiveMask := n\<rparr>) = same_requests env l l'"
  "same_requests env l (l'\<lparr>ln_subscriptionDesired := b\<rparr>) = same_requests env l l'"
  "same_requests env l (l'\<lparr>ln_subscriptionId := n\<rparr>) = same_requests env l l'"
  "same_requests env l (l'\<lparr>ln_proposalResults := rs\<rparr>) = same_requests env l l'"
  by (simp_all add: same_requests_def answered_ids_def)

lemma same_requests_perform: "same_requests env l (perform c l)"
  by (cases c) (simp_all add: SetTeamSyncSnapshot_def SetRemoteTeamSyncSnapshot_def SetTeamSyncClientWriteAllowed_def
    SetTeamSyncAutoSend_def SetLocalActiveMask_def SetTeamSyncSubscribed_def CompleteTeamSyncProposal_def)

subsection \<open>Steps that answer\<close>

definition settles :: "lan_env \<Rightarrow> lan \<Rightarrow> lan \<Rightarrow> bool" where
  "settles env l l' \<longleftrightarrow> same_requests env l l' \<or>
     ln_pending l \<and> \<not> ln_pending l' \<and> ln_requestId l' = ln_requestId l \<and> answered_ids env l' = answered_ids env l @ [ln_requestId l]"

lemma settles_same [simp]: "same_requests env l l' \<Longrightarrow> settles env l l'"
  by (simp add: settles_def)

lemma settles_after: "same_requests env l l1 \<Longrightarrow> settles env l1 l' \<Longrightarrow> settles env l l'"
  by (auto simp: settles_def same_requests_def)

lemma settles_then: "settles env l l1 \<Longrightarrow> same_requests env l1 l' \<Longrightarrow> settles env l l'"
  by (auto simp: settles_def same_requests_def)

lemma notify_settles:
  assumes "notify_json env j (l\<lparr>ln_pending := False\<rparr>) = Some l'" "ln_pending l"
    "\<And>printed. ne_dump env j = Some printed \<Longrightarrow> \<exists>m. ne_parse env printed = Some m \<and> answer_of env m = [ln_requestId l]"
  shows "settles env l l'"
proof -
  obtain printed where printed: "ne_dump env j = Some printed" "l' = NotifyTeamSyncMessage printed (l\<lparr>ln_pending := False\<rparr>)"
    using assms(1) by (auto simp: notify_json_def)
  obtain m where "ne_parse env printed = Some m" "answer_of env m = [ln_requestId l]" using assms(3) [OF printed(1)] by blast
  then show ?thesis using assms(2) by (simp add: settles_def printed(2) NotifyTeamSyncMessage_def emit_def answered_ids_def)
qed

lemma notify_quiet:
  assumes "notify_json env j l = Some l'" "\<And>printed. ne_dump env j = Some printed \<Longrightarrow> \<exists>m. ne_parse env printed = Some m \<and> answer_of env m = []"
  shows "same_requests env l l'"
proof -
  obtain printed where printed: "ne_dump env j = Some printed" "l' = NotifyTeamSyncMessage printed l"
    using assms(1) by (auto simp: notify_json_def)
  then show ?thesis using assms(2) [OF printed(1)] by (auto simp: NotifyTeamSyncMessage_def same_requests_emit)
qed


declare ascii_Cons [simp del] ascii_eq [simp]

lemma proper_words [simp]: "proper (text_json s)" "proper version_json" "proper (word_json n)"
  by (simp_all add: text_json_def version_json_def word_json_def)

lemma number_word_json [simp]: "number_word env (word_json n) = Some (n :: 32 word)"
  by (simp add: word_json_def) (transfer, simp add: take_bit_take_bit)

lemma request_error_answers: "n \<noteq> 0 \<Longrightarrow> answer_of env (request_error_json n reason) = [n]"
  by (simp add: answer_of_def request_error_json_def jvalue_string_def jvalue_bool_def value_word_def jvalue_def text_json_def)

lemma local_error_answers: "answer_of env local_error_json = []"
  by (simp add: answer_of_def local_error_json_def jvalue_string_def jvalue_bool_def value_word_def jvalue_def text_json_def)

lemma proper_errors: "proper (request_error_json n reason)" "proper local_error_json"
  by (simp_all add: request_error_json_def local_error_json_def)

lemma request_error_settles:
  assumes "library_reads env" "notify_json env (request_error_json (ln_requestId l) reason) (l\<lparr>ln_pending := False\<rparr>) = Some l'"
    "ln_pending l" "ln_requestId l \<noteq> 0"
  shows "settles env l l'"
  using notify_settles [OF assms(2,3)] library_prints [OF assms(1) proper_errors(1)] request_error_answers [OF assms(4)] by force

lemma on_sent_settles:
  assumes "on_sent (send_json env transmit j l) k f = Some (go, k', l')" "\<And>l1. same_requests env l l1 \<Longrightarrow> same_requests env l (snd (f l1))"
  shows "same_requests env l l'"
proof -
  obtain sent l1 where l1: "send_json env transmit j l = Some (sent, l1)"
    using assms(1) by (auto simp: on_sent_def split: option.splits)
  then have s: "same_requests env l l1" by (rule same_requests_send_json)
  show ?thesis using assms(1) s assms(2) [OF s] by (cases sent) (auto simp: on_sent_def l1)
qed

lemma state_settles: "send_state env transmit now k l = Some (go, k', l') \<Longrightarrow> same_requests env l l'"
  by (auto simp: send_state_def Let_def split: if_splits elim!: on_sent_settles)

lemma subscription_settles: "send_subscription env transmit k l = Some (go, k', l') \<Longrightarrow> same_requests env l l'"
  by (auto simp: send_subscription_def Let_def split: if_splits elim!: on_sent_settles)

lemma upload_failed_settles:
  assumes "library_reads env" "upload_failed env k l = Some (go, k', l')"
  shows "same_requests env l l'"
proof -
  have "notify_json env local_error_json l = Some l'" using assms(2) by (auto simp: upload_failed_def)
  then show ?thesis using library_prints [OF assms(1) proper_errors(2)] local_error_answers by (force intro: notify_quiet)
qed

lemma propose_settles:
  assumes "library_reads env" "propose env transmit k l = Some (go, k', l')"
  shows "same_requests env l l'"
  using assms(2) upload_failed_settles [OF assms(1)]
  by (auto simp: propose_def Let_def split: option.splits prod.splits bool.splits)

lemma upload_settles:
  assumes "library_reads env" "upload_step env transmit now k l = Some (go, k', l')"
  shows "same_requests env l l'"
  using assms(2) propose_settles [OF assms(1)] by (auto simp: upload_step_def Let_def split: if_splits)

lemma asking_settles:
  assumes "library_reads env" "request_step env transmit now k l = Some (go, k', l')" "ln_pending l \<longrightarrow> ln_requestId l \<noteq> 0"
  shows "settles env l l'"
proof (cases "ln_pending l \<and> ln_requestId l \<noteq> 0 \<and> ln_requestId l \<noteq> ck_sentRequestId k")
  case True
  then show ?thesis using assms(2) by (auto simp: request_step_def Let_def intro!: settles_same elim!: on_sent_settles)
next
  case False
  note first = assms(2) [unfolded request_step_def Let_def if_not_P [OF False]]
  show ?thesis
  proof (cases "ln_pending l \<and> ck_sentRequestId k = ln_requestId l \<and> 4000 \<le> elapsed_ms now (ck_requestedAt k)")
    case True
    obtain l1 where "notify_json env (request_error_json (ln_requestId l) ''timeout'') (l\<lparr>ln_pending := False\<rparr>) = Some l1" "l' = l1"
      using first [unfolded if_P [OF True]] by blast
    then show ?thesis using request_error_settles [OF assms(1), of l] True assms(3) by blast
  next
    case other: False
    show ?thesis using first [unfolded if_not_P [OF other]] by simp
  qed
qed

lemma closing_settles:
  assumes "library_reads env" "close_connection env l = Some l'" "ln_pending l \<longrightarrow> ln_requestId l \<noteq> 0"
  shows "settles env l l'"
proof (cases "ln_pending l")
  case True
  then obtain l1 where l1: "notify_json env (request_error_json (ln_requestId l) ''disconnected'') (l\<lparr>ln_pending := False\<rparr>) = Some l1"
    using assms(2) by (auto simp: close_connection_def split: option.splits)
  have "settles env l l1" using request_error_settles [OF assms(1) l1] True assms(3) by simp
  moreover have "same_requests env l1 l'" using assms(2) True l1 by (auto simp: close_connection_def)
  ultimately show ?thesis by (rule settles_then)
next
  case False
  then show ?thesis using assms(2) by (auto simp: close_connection_def)
qed

text \<open>Messages received.\<close>

lemma receive_notify:
  assumes "library_reads env" "ne_parse env payload = Some m"
  shows "notify_json env m l \<noteq> None" "answer_of env m = [] \<Longrightarrow> notify_json env m l = Some l' \<Longrightarrow> same_requests env l l'"
    "answer_of env m = [ln_requestId l] \<Longrightarrow> ln_pending l \<Longrightarrow> notify_json env m (l\<lparr>ln_pending := False\<rparr>) = Some l' \<Longrightarrow> settles env l l'"
  using library_prints_again [OF assms] library_reads_again [OF assms] notify_settles [of env m l l'] notify_quiet [of env m l l']
  by (auto simp: notify_json_def)

lemma receive_answer_settles:
  assumes "library_reads env" "ne_parse env payload = Some m" "receive_answer env m k l = Some (go, k', l')"
    "\<And>n. value_word env ''requestId'' m = Some n \<Longrightarrow> n \<noteq> 0 \<Longrightarrow> answer_of env m = [n]"
  shows "settles env l l'"
proof (cases "value_word env ''requestId'' m :: 32 word option")
  case None
  then show ?thesis using assms(3) by (auto simp: receive_answer_def)
next
  case (Some n)
  show ?thesis
  proof (cases "ln_pending l \<and> n \<noteq> 0 \<and> n = ln_requestId l")
    case True
    obtain l1 where l1: "notify_json env m (l\<lparr>ln_pending := False\<rparr>) = Some l1" using receive_notify(1) [OF assms(1,2)] by blast
    then have "settles env l l1" using receive_notify(3) [OF assms(1,2)] True assms(4) [OF Some] by auto
    then show ?thesis using assms(3) Some True l1 by (auto simp: receive_answer_def unless_thrown_def)
  next
    case False
    then show ?thesis using assms(3) Some by (auto simp: receive_answer_def)
  qed
qed

lemma receive_push_settles:
  assumes "library_reads env" "ne_parse env payload = Some m" "receive_push env m k l = Some (go, k', l')" "answer_of env m = []"
  shows "same_requests env l l'"
  using assms(3) receive_notify(2) [OF assms(1,2,4)]
  by (auto simp: receive_push_def Let_def unless_thrown_def split: option.splits if_splits bind_splits)

lemma receive_automatic_settles:
  assumes "library_reads env" "ne_parse env payload = Some m" "unless_thrown k l (receive_automatic_error env m k l) = Some (go, k', l')" "answer_of env m = []"
  shows "same_requests env l l'"
  using assms(3) receive_notify(2) [OF assms(1,2,4)]
  by (auto simp: receive_automatic_error_def unless_thrown_def split: option.splits if_splits bind_splits)

lemma receive_settles:
  assumes "library_reads env" "receive_step env transmit r k l = Some (go, k', l')"
  shows "settles env l l'"
proof (cases "\<exists>payload m t. r = Frame payload \<and> ne_parse env payload = Some m \<and> value_text ''type'' m = Some t")
  case False
  then show ?thesis using assms(2) by (auto simp: receive_step_def split: received.splits option.splits)
next
  case True
  then obtain payload m t where m: "r = Frame payload" "ne_parse env payload = Some m" "value_text ''type'' m = Some t" by blast
  have step: "receive_message env transmit m t k l = Some (go, k', l')" using assms(2) by (simp add: receive_step_def m)
  have none: "answer_of env m = []" if "t \<noteq> ascii ''team_sync_snapshot''" "t = ascii ''team_sync_error'' \<Longrightarrow> value_flag ''automatic'' m = Some True"
    using that by (auto simp: answer_of_def m(3))
  have answer: "settles env l l'" if "receive_answer env m k l = Some (go, k', l')"
      "t = ascii ''team_sync_snapshot'' \<or> t = ascii ''team_sync_error'' \<and> value_flag ''automatic'' m = Some False"
    using receive_answer_settles [OF assms(1) m(2) that(1)] that(2) by (auto simp: answer_of_def m(3))
  consider "t = ascii ''ping''" | "t = ascii ''team_sync_snapshot''" | "t = ascii ''team_sync_error''" | "t = ascii ''team_sync_push''"
    | "t = ascii ''team_sync_write_policy''" | "t = ascii ''team_sync_propose_result''"
    | "t \<notin> ascii ` {''ping'', ''team_sync_snapshot'', ''team_sync_error'', ''team_sync_push'', ''team_sync_write_policy'', ''team_sync_propose_result''}"
    by blast
  then show ?thesis
  proof cases
    case 1
    then show ?thesis using step by (auto simp: receive_message_def dest: same_requests_send_json split: option.splits)
  next
    case 2
    then show ?thesis using step answer by (simp add: receive_message_def)
  next
    case 3
    show ?thesis
    proof (cases "value_flag ''automatic'' m")
      case None
      then show ?thesis using step 3 by (simp add: receive_message_def)
    next
      case (Some b)
      then show ?thesis using step 3 answer receive_automatic_settles [OF assms(1) m(2)] none
        by (cases b) (simp_all add: receive_message_def)
    qed
  next
    case 4
    then show ?thesis using step receive_push_settles [OF assms(1) m(2)] none by (simp add: receive_message_def)
  next
    case 5
    then show ?thesis using step by (auto simp: receive_message_def unless_thrown_def receive_policy_def split: option.splits)
  next
    case 6
    then show ?thesis using step none receive_notify(2) [OF assms(1) m(2)]
      by (auto simp: receive_message_def unless_thrown_def split: option.splits bind_splits)
  next
    case 7
    then show ?thesis using step by (simp add: receive_message_def)
  qed
qed

lemma response_settles:
  "accept_response response l = (ok, l') \<Longrightarrow> same_requests env l l'"
  "read_response env payload l = (accepted, reason, l') \<Longrightarrow> same_requests env l l'"
proof -
  have a: "same_requests env l l'" if "accept_response response l = (ok, l')" for response ok l'
    using that by (auto simp: accept_response_def Let_def split: option.splits json.splits)
  show "accept_response response l = (ok, l') \<Longrightarrow> same_requests env l l'" by (rule a)
  show "read_response env payload l = (accepted, reason, l') \<Longrightarrow> same_requests env l l'"
    by (auto simp: read_response_def dest: a split: option.splits if_splits prod.splits)
qed

lemma open_settles:
  assumes "open_connection env startup connects tracked transmit answer l = Some a"
    "a \<in> {Unreachable l', Untracked l', Rejected l', Closed l', Opened l'}"
  shows "same_requests env l l'"
proof (cases "connects \<and> tracked")
  case False
  then show ?thesis using assms by (auto simp: open_connection_def reconnecting_def split: if_splits)
next
  case True
  then obtain sent l1 where l1: "send_json env transmit (hello_json startup l) l = Some (sent, l1)"
    using assms(1) by (auto simp: open_connection_def split: option.splits)
  have s1: "same_requests env l l1" by (rule same_requests_send_json [OF l1])
  show ?thesis
  proof (cases "if sent then answer else None")
    case None
    then show ?thesis using True assms s1 l1 by (auto simp: open_connection_def)
  next
    case (Some payload)
    obtain accepted reason l2 where r: "read_response env payload l1 = (accepted, reason, l2)" by (cases "read_response env payload l1")
    have "same_requests env l l2" using same_requests_trans [OF s1 response_settles(2) [OF r]] .
    then show ?thesis using True Some assms l1 r by (auto simp: open_connection_def split: if_splits)
  qed
qed

definition requests_balance :: "lan_env \<Rightarrow> 32 word list \<Rightarrow> lan \<Rightarrow> bool" where
  "requests_balance env ids l \<longleftrightarrow>
     answered_ids env l @ (if ln_pending l then [ln_requestId l] else []) = ids \<and> (ln_pending l \<longrightarrow> ln_requestId l \<noteq> 0)"

lemma balance_settles: "settles env l l' \<Longrightarrow> requests_balance env ids l \<Longrightarrow> requests_balance env ids l'"
  by (auto simp: settles_def requests_balance_def same_requests_def)

lemma next_nonzero_nonzero: "next_nonzero n \<noteq> 0"
  by (simp add: next_nonzero_def)

lemma balance_request:
  assumes "RequestTeamSync l = (None, l')" "requests_balance env ids l"
  shows "requests_balance env (ids @ [ln_requestId l']) l'"
  using assms by (auto simp: RequestTeamSync_def requests_balance_def answered_ids_def next_nonzero_nonzero Let_def split: if_splits)

lemma run_balances: "client_run env ids k l \<Longrightarrow> library_reads env \<Longrightarrow> requests_balance env ids l"
proof (induction rule: client_run.induct)
  case (start l k)
  then show ?case by (simp add: requests_balance_def answered_ids_def)
next
  case (call ids k l c)
  show ?case by (rule balance_settles [OF settles_same [OF same_requests_perform] call.IH [OF call.prems]])
next
  case (request ids k l l')
  show ?case by (rule balance_request [OF request.hyps(2) request.IH [OF request.prems]])
next
  case (opened ids k l startup connects tracked transmit answer l' now)
  have "same_requests env l l'" using open_settles [OF opened.hyps(2), of l'] by blast
  then show ?case by (rule balance_settles [OF settles_same opened.IH [OF opened.prems]])
next
  case (refused ids k l startup connects tracked transmit answer a l')
  have "same_requests env l l'" using open_settles [OF refused.hyps(2), of l'] refused.hyps(3) by blast
  then show ?case by (rule balance_settles [OF settles_same refused.IH [OF refused.prems]])
next
  case (state ids k l transmit now go k' l')
  show ?case by (rule balance_settles [OF settles_same [OF state_settles [OF state.hyps(2)]] state.IH [OF state.prems]])
next
  case (subscription ids k l transmit go k' l')
  show ?case by (rule balance_settles [OF settles_same [OF subscription_settles [OF subscription.hyps(2)]] subscription.IH [OF subscription.prems]])
next
  case (upload ids k l transmit now go k' l')
  show ?case by (rule balance_settles [OF settles_same [OF upload_settles [OF upload.prems upload.hyps(2)]] upload.IH [OF upload.prems]])
next
  case (asking ids k l transmit now go k' l')
  have b: "requests_balance env ids l" by (rule asking.IH [OF asking.prems])
  then have "settles env l l'" using asking_settles [OF asking.prems asking.hyps(2)] unfolding requests_balance_def by blast
  then show ?case using b by (rule balance_settles)
next
  case (receiving ids k l transmit r go k' l')
  show ?case by (rule balance_settles [OF receive_settles [OF receiving.prems receiving.hyps(2)] receiving.IH [OF receiving.prems]])
next
  case (closing ids k l l')
  have b: "requests_balance env ids l" by (rule closing.IH [OF closing.prems])
  then have "settles env l l'" using closing_settles [OF closing.prems closing.hyps(2)] unfolding requests_balance_def by blast
  then show ?case using b by (rule balance_settles)
qed


text \<open>A request that the server does not answer for four seconds.\<close>

definition lan_demo_env :: lan_env where
  "lan_demo_env =
     \<lparr>ne_dump = (\<lambda>j. if reread j = reread (request_error_json 1 ''timeout'') then Some [1] else None),
      ne_parse = (\<lambda>s. if s = [1] then Some (reread (request_error_json 1 ''timeout'')) else None),
      ne_float_int = (\<lambda>bits. 0)\<rparr>"

definition connected_status :: KeyMappingLanStatusSnapshot where
  "connected_status =
     \<lparr>ss_role = Client, ss_running = True, ss_connected = True, ss_reconnecting = False, ss_discovering = False,
      ss_teamSyncSupported = True, ss_teamSyncPushSupported = True, ss_teamSyncBidirectionalSupported = True,
      ss_teamSyncSubscribed = False, ss_teamSyncClientWriteAllowed = False, ss_teamSyncAutoSend = False,
      ss_status = [], ss_remoteDeviceName = [], ss_serverId = [], ss_serverAddress = [], ss_pairCode = [], ss_port = 1,
      ss_localAddresses = [], ss_discoveredServers = []\<rparr>"

definition idle_lan :: lan where
  "idle_lan =
     \<lparr>ln_wsaReady = True, ln_running = True, ln_discoveryRunning = False, ln_localActiveMask = 0, ln_remoteActiveMask = 0,
      ln_requestId = 0, ln_pending = False, ln_subscriptionDesired = False, ln_subscriptionId = 0, ln_revision = 0,
      ln_clientWriteAllowed = False, ln_autoSend = False, ln_policyGeneration = 0, ln_status = connected_status,
      ln_deviceName = [], ln_localDeviceId = [], ln_snapshot = [], ln_proposalResults = [], ln_events = []\<rparr>"

lemma demo_reads: "library_reads lan_demo_env"
  by (simp add: library_reads_def prints_back_with_def lan_demo_env_def)


end
