(* ===== verification/LanSafety.thy ===== *)
theory LanSafety
  imports LanDiscovery LanAnswers
begin

text \<open>
  What the server lets a client do, and what a push of the server does at the client. \<open>pair_ok\<close> is a frame that
  pairs; \<open>told\<close> are the messages a service has handed to its dialog.
\<close>

declare ascii_Cons [simp del] ascii_eq [simp]

definition told :: "lan \<Rightarrow> bytes list" where
  "told l = concat (map (\<lambda>e. case e of TeamSyncMessage message \<Rightarrow> [message] | _ \<Rightarrow> []) (ln_events l))"

definition sent_frames :: "lan \<Rightarrow> bytes list" where
  "sent_frames l = concat (map (\<lambda>e. case e of FrameSent frame \<Rightarrow> [frame] | _ \<Rightarrow> []) (ln_events l))"

lemma told_simps [simp]:
  "told (with_status f l) = told l" "told (NotifyStateChanged l) = told l" "told (NotifyTeamSyncMessage p l) = told l @ [p]"
  "told (l\<lparr>ln_remoteActiveMask := n\<rparr>) = told l" "told (l\<lparr>ln_proposalResults := rs\<rparr>) = told l" "told (emit (FrameSent p) l) = told l"
  by (simp_all add: told_def with_status_def NotifyStateChanged_def NotifyTeamSyncMessage_def emit_def)

lemma sent_frames_simps [simp]:
  "sent_frames (with_status f l) = sent_frames l" "sent_frames (NotifyStateChanged l) = sent_frames l"
  "sent_frames (NotifyTeamSyncMessage p l) = sent_frames l" "sent_frames (l\<lparr>ln_remoteActiveMask := n\<rparr>) = sent_frames l"
  "sent_frames (l\<lparr>ln_proposalResults := rs\<rparr>) = sent_frames l" "sent_frames (emit (FrameSent p) l) = sent_frames l @ [p]"
  by (simp_all add: sent_frames_def with_status_def NotifyStateChanged_def NotifyTeamSyncMessage_def emit_def)

lemma mask_simps [simp]:
  "ln_remoteActiveMask (with_status f l) = ln_remoteActiveMask l" "ln_remoteActiveMask (NotifyStateChanged l) = ln_remoteActiveMask l"
  "ln_remoteActiveMask (NotifyTeamSyncMessage p l) = ln_remoteActiveMask l" "ln_remoteActiveMask (emit e l) = ln_remoteActiveMask l"
  by (simp_all add: with_status_def NotifyStateChanged_def NotifyTeamSyncMessage_def emit_def)

lemma send_told:
  assumes "send_unchecked env transmit j l = Some l'"
  shows "told l' = told l" "ln_remoteActiveMask l' = ln_remoteActiveMask l" "set (sent_frames l') \<subseteq> set (sent_frames l) \<union> {p. ne_dump env j = Some p}"
  using assms by (auto simp: send_unchecked_def send_json_def send_payload_def split: if_splits)

subsection \<open>Pairing\<close>

definition pairs :: "lan_env \<Rightarrow> KeyMappingLanStatusSnapshot \<Rightarrow> received \<Rightarrow> bool" where
  "pairs env startup r \<longleftrightarrow>
     (case r of Frame payload \<Rightarrow>
        (case ne_parse env payload of Some m \<Rightarrow>
           value_text ''type'' m = Some (ascii ''hello'') \<and> value_int env ''version'' m = Some kProtocolVersion \<and>
           value_text ''pairCode'' m = Some (ss_pairCode startup)
         | None \<Rightarrow> False)
      | _ \<Rightarrow> False)"

definition powerless :: "lan_env \<Rightarrow> lan \<Rightarrow> server_state \<Rightarrow> bool" where
  "powerless env l r \<longleftrightarrow>
     \<not> sv_paired (fst r) \<and> told (snd r) = told l \<and> ln_remoteActiveMask (snd r) \<in> {ln_remoteActiveMask l, 0} \<and>
     (\<forall>p \<in> set (sent_frames (snd r)). p \<in> set (sent_frames l) \<or> ne_dump env (rejected_json ''pair_code'') = Some p \<or>
        ne_dump env (rejected_json ''version'') = Some p)"

lemma powerless_drop: "powerless env l (drop_client s l)"
  by (simp add: powerless_def drop_client_def client_gone_def)

lemma hello_powerless:
  assumes "\<not> sv_paired s" "value_int env ''version'' m \<noteq> Some kProtocolVersion \<or> value_text ''pairCode'' m \<noteq> Some (ss_pairCode startup)"
    "handle_hello env startup transmit readAt others m s l = (go, s', l')"
  shows "powerless env l (s', l')" "powerless env l (drop_client s' l')"
proof -
  have "powerless env l (s', l') \<and> powerless env l (drop_client s' l')"
  proof (cases "value_int env ''version'' m = None \<or> value_text ''pairCode'' m = None")
    case True
    then have "(go, s', l') = thrown s l" using assms(3) by (auto simp: handle_hello_def split: option.splits)
    then show ?thesis using assms(1) powerless_drop by (auto simp: thrown_def powerless_def)
  next
    case False
    then obtain v code where vc: "value_int env ''version'' m = Some v" "value_text ''pairCode'' m = Some code" by auto
    define j where "j = rejected_json (if v = kProtocolVersion then ''pair_code'' else ''version'')"
    have other: "\<not> (v = kProtocolVersion \<and> code = ss_pairCode startup)" using assms(2) by (auto simp: vc)
    have step: "(case send_unchecked env transmit j l of None \<Rightarrow> thrown s l | Some l \<Rightarrow> ok (s\<lparr>sv_client := False\<rparr>) l) = (go, s', l')"
      using assms(3) unfolding handle_hello_def vc option.case prod.case if_not_P [OF other] j_def .
    show ?thesis
    proof (cases "send_unchecked env transmit j l")
      case None
      then show ?thesis using step assms(1) powerless_drop by (auto simp: thrown_def powerless_def)
    next
      case (Some l1)
      then have "l' = l1" "s' = s\<lparr>sv_client := False\<rparr>" using step by (auto simp: ok_def)
      then show ?thesis using send_told [OF Some] assms(1)
        by (auto simp: powerless_def j_def drop_client_def client_gone_def split: if_splits)
    qed
  qed
  then show "powerless env l (s', l')" "powerless env l (drop_client s' l')" by simp_all
qed


subsection \<open>Proposals\<close>

lemma pair_told:
  assumes "\<And>l. told (others l) = told l"
  shows "told (snd (snd (pair_client env startup transmit readAt others m s l))) = told l"
  using assms by (auto simp: pair_client_def Let_def thrown_def ok_def send_told(1) split: option.splits)

lemma hello_told:
  assumes "\<And>l. told (others l) = told l"
  shows "told (snd (snd (handle_hello env startup transmit readAt others m s l))) = told l"
  using pair_told [of others env startup transmit readAt m s l] assms
  by (auto simp: handle_hello_def thrown_def ok_def send_told(1) split: option.splits)

lemma send_json_told: "send_json env transmit j l = Some (sent, l') \<Longrightarrow> told l' = told l"
  by (auto simp: send_json_def send_payload_def split: if_splits)

lemma snapshot_told: "sendTeamSyncSnapshot env transmit automatic n revision sub l = Some (sent, l') \<Longrightarrow> told l' = told l"
  by (auto simp: sendTeamSyncSnapshot_def send_payload_def dest: send_json_told split: option.splits if_splits)

lemma handlers_told:
  "told (snd (snd (handle_state env readAt m s l))) = told l"
  "told (snd (snd (handle_request env transmit m s l))) = told l"
  "told (snd (snd (handle_subscribe env readAt m s l))) = told l"
  by (auto simp: handle_state_def handle_request_def handle_subscribe_def thrown_def ok_def drop_client_def client_gone_def
    dest: send_json_told snapshot_told split: option.splits prod.splits if_splits bool.splits)

lemma proposal_told:
  assumes "told (snd (snd (handle_proposal env transmit m s l))) \<noteq> told l"
  shows "ln_clientWriteAllowed l \<and> (\<exists>p. ne_dump env (with_source (sv_activeClientId s) m) = Some p \<and>
     told (snd (snd (handle_proposal env transmit m s l))) = told l @ [p])"
  using assms by (auto simp: handle_proposal_def Let_def thrown_def ok_def send_told(1) notify_json_def split: option.splits if_splits)

lemma message_told:
  assumes "\<And>l. told (others l) = told l"
    "told (snd (snd (handle_message env startup transmit readAt others m t s l))) \<noteq> told l"
  shows "sv_paired s \<and> t = ascii ''team_sync_propose'' \<and>
     told (snd (snd (handle_message env startup transmit readAt others m t s l))) = told (snd (snd (handle_proposal env transmit m s l)))"
  using assms(2) hello_told [of others env startup transmit readAt m s l] assms(1)
  by (auto simp: handle_message_def handlers_told ok_def thrown_def Let_def send_told(1) split: option.splits if_splits)

text \<open>Property C11. What the server hands to its dialog is a proposal of the paired client made while it is allowed to write, marked with the identity the client was paired under.\<close>

theorem proposals_need_permission:
  assumes "\<And>l. told (others l) = told l" "told (snd (server_receive env startup transmit readAt others r s l)) \<noteq> told l"
  shows "sv_paired s \<and> ln_clientWriteAllowed l \<and>
    (\<exists>payload m p. r = Frame payload \<and> ne_parse env payload = Some m \<and> value_text ''type'' m = Some (ascii ''team_sync_propose'') \<and>
       ne_dump env (with_source (sv_activeClientId s) m) = Some p \<and>
       told (snd (server_receive env startup transmit readAt others r s l)) = told l @ [p])"
proof -
  have dropped: "told (snd (drop_client s' l')) = told l'" for s' l' by (simp add: drop_client_def client_gone_def)
  obtain payload m t where m: "r = Frame payload" "ne_parse env payload = Some m" "value_text ''type'' m = Some t"
    using assms(2) dropped by (auto simp: server_receive_def thrown_def split: received.splits option.splits)
  obtain go s' l' where h: "handle_message env startup transmit readAt others m t s l = (go, s', l')" by (metis prod_cases3)
  have e: "told (snd (server_receive env startup transmit readAt others r s l)) = told l'"
    using dropped by (cases go) (simp_all add: server_receive_def m h)
  then have ne: "told (snd (snd (handle_message env startup transmit readAt others m t s l))) \<noteq> told l" using assms(2) h by simp
  note k = message_told [OF assms(1) ne]
  then have p: "told (snd (snd (handle_proposal env transmit m s l))) = told l'" using h by simp
  then show ?thesis using k proposal_told [of env transmit m s l] ne h m e by auto
qed

subsection \<open>Uploads\<close>

text \<open>
  The log of a connection: whether a revision was sent, whether that was allowed, and the revision up to which the
  changes are settled. Between the steps anything may happen; the number of the revision never falls.
\<close>

definition upload_log :: "client_link \<Rightarrow> lan \<Rightarrow> client_link \<Rightarrow> lan \<Rightarrow> (bool \<times> bool \<times> u64) list" where
  "upload_log k l k' l' =
     (if sent_frames l' \<noteq> sent_frames l then [(True, can_upload l, ck_pendingUpload k')]
      else if ck_lastUploaded k' = ck_pendingUpload k' then [(False, can_upload l, ck_pendingUpload k')] else [])"

inductive upload_run :: "lan_env \<Rightarrow> (bool \<times> bool \<times> u64) list \<Rightarrow> client_link \<Rightarrow> lan \<Rightarrow> bool" for env where
  start: "upload_run env [] (new_link now l) l"
| others: "upload_run env entries k l \<Longrightarrow> ln_revision l \<le> ln_revision l' \<Longrightarrow> upload_run env entries k l'"
| step: "upload_run env entries k l \<Longrightarrow> upload_step env transmit now k l = Some (go, k', l') \<Longrightarrow>
    upload_run env (entries @ upload_log k l k' l') k' l'"

lemma propose_cases:
  assumes "propose env transmit k l = Some (go, k', l')"
  shows "ck_pendingUpload k' = ck_pendingUpload k \<and> ck_lastObservedRevision k' = ck_lastObservedRevision k \<and> ln_revision l' = ln_revision l \<and>
    (ck_lastUploaded k' = ck_pendingUpload k \<or> ck_lastUploaded k' = ck_lastUploaded k \<and> sent_frames l' = sent_frames l)"
  using assms
  by (auto simp: propose_def upload_failed_def notify_json_def Let_def send_payload_def NotifyTeamSyncMessage_def emit_def
    split: option.splits if_splits)

definition uploads_newer :: "(bool \<times> bool \<times> u64) list \<Rightarrow> bool" where
  "uploads_newer entries \<longleftrightarrow>
     sorted_wrt (\<lambda>a b. snd (snd a) \<le> snd (snd b) \<and> (fst b \<longrightarrow> snd (snd a) < snd (snd b))) entries \<and>
     list_all (\<lambda>e. fst e \<longrightarrow> fst (snd e)) entries"

definition upload_inv :: "(bool \<times> bool \<times> u64) list \<Rightarrow> client_link \<Rightarrow> lan \<Rightarrow> bool" where
  "upload_inv entries k l \<longleftrightarrow>
     uploads_newer entries \<and> list_all (\<lambda>e. snd (snd e) \<le> ck_lastUploaded k) entries \<and>
     ck_lastUploaded k \<le> ck_pendingUpload k \<and> ck_pendingUpload k = ck_lastObservedRevision k \<and> ck_pendingUpload k \<le> ln_revision l"

lemma note_revision_inv:
  assumes "ck_lastUploaded k \<le> ck_pendingUpload k" "ck_pendingUpload k = ck_lastObservedRevision k" "ck_pendingUpload k \<le> ln_revision l"
  shows "ck_lastUploaded (note_revision now l k) \<le> ck_pendingUpload (note_revision now l k)"
    "ck_pendingUpload (note_revision now l k) = ck_lastObservedRevision (note_revision now l k)"
    "ck_pendingUpload (note_revision now l k) \<le> ln_revision l" "ck_lastUploaded (note_revision now l k) = ck_lastUploaded k"
  using assms by (auto simp: note_revision_def)

lemma newer_snoc:
  assumes "uploads_newer entries" "list_all (\<lambda>e. snd (snd e) \<le> u) entries" "u \<le> r" "sent \<longrightarrow> u < r \<and> allowed"
  shows "uploads_newer (entries @ [(sent, allowed, r)])"
  using assms by (force simp: uploads_newer_def sorted_wrt_append list_all_iff)

lemma upload_invD:
  assumes "upload_inv entries k l"
  shows "uploads_newer entries" "list_all (\<lambda>e. snd (snd e) \<le> ck_lastUploaded k) entries"
    "ck_lastUploaded k \<le> ck_pendingUpload k" "ck_pendingUpload k = ck_lastObservedRevision k" "ck_pendingUpload k \<le> ln_revision l"
  using assms unfolding upload_inv_def by blast+

lemma upload_inv_settled:
  assumes "upload_inv entries k l" "k1 = note_revision now l k"
    "ck_lastUploaded k' = ck_pendingUpload k1" "ck_pendingUpload k' = ck_pendingUpload k1" "ck_lastObservedRevision k' = ck_lastObservedRevision k1"
    "sent_frames l' \<noteq> sent_frames l \<Longrightarrow> can_upload l \<and> ck_pendingUpload k1 \<noteq> ck_lastUploaded k1" "ln_revision l' = ln_revision l"
  shows "upload_inv (entries @ upload_log k l k' l') k' l'"
proof -
  note i = upload_invD [OF assms(1)]
  note n = note_revision_inv [OF i(3,4,5), of now, folded assms(2)]
  have log: "upload_log k l k' l' = [(sent_frames l' \<noteq> sent_frames l, can_upload l, ck_pendingUpload k1)]"
    by (simp add: upload_log_def assms(3,4))
  have "ck_lastUploaded k \<le> ck_pendingUpload k1" using n(1) by (simp only: n(4))
  moreover have "sent_frames l' \<noteq> sent_frames l \<longrightarrow> ck_lastUploaded k < ck_pendingUpload k1 \<and> can_upload l"
    using assms(6) n(1,4) by (auto simp: order.strict_iff_order)
  ultimately have new: "uploads_newer (entries @ upload_log k l k' l')"
    unfolding log by (rule newer_snoc [OF i(1,2)])
  have "list_all (\<lambda>e. snd (snd e) \<le> ck_pendingUpload k1) entries"
    using i(2) \<open>ck_lastUploaded k \<le> ck_pendingUpload k1\<close> by (auto simp: list_all_iff)
  then have "list_all (\<lambda>e. snd (snd e) \<le> ck_lastUploaded k') (entries @ upload_log k l k' l')" by (simp add: log assms(3))
  then show ?thesis using new n(2,3) unfolding upload_inv_def assms(3,4,5,7) by (simp only: n(2) order.refl simp_thms)
qed

lemma upload_inv_idle:
  assumes "upload_inv entries k l" "k1 = note_revision now l k" "ck_lastUploaded k' = ck_lastUploaded k1"
    "ck_pendingUpload k' = ck_pendingUpload k1" "ck_lastObservedRevision k' = ck_lastObservedRevision k1"
    "sent_frames l' = sent_frames l" "ln_revision l' = ln_revision l"
  shows "upload_inv (entries @ upload_log k l k' l') k' l'"
proof (cases "ck_lastUploaded k1 = ck_pendingUpload k1")
  case True
  show ?thesis by (rule upload_inv_settled [OF assms(1,2) _ assms(4,5) _ assms(7)]) (use True assms(3,6) in auto)
next
  case False
  note i = upload_invD [OF assms(1)]
  note n = note_revision_inv [OF i(3,4,5), of now, folded assms(2)]
  have "upload_log k l k' l' = []" using False by (simp add: upload_log_def assms(3,4,6))
  moreover have "list_all (\<lambda>e. snd (snd e) \<le> ck_lastUploaded k') entries" using i(2) unfolding assms(3) n(4) .
  ultimately show ?thesis using i(1) n(1,2,3) unfolding upload_inv_def assms(3,4,5,7) by (simp only: append_Nil2 simp_thms)
qed

lemma upload_inv_step:
  assumes "upload_inv entries k l" "upload_step env transmit now k l = Some (go, k', l')"
  shows "upload_inv (entries @ upload_log k l k' l') k' l'"
proof -
  define k1 where "k1 = note_revision now l k"
  note step = assms(2) [unfolded upload_step_def Let_def, folded k1_def]
  show ?thesis
  proof (cases "can_upload l \<and> ck_pendingUpload k1 \<noteq> ck_lastUploaded k1 \<and> elapsed_ms now (ck_pendingChangedAt k1) \<ge> kTeamSyncDebounceMs")
    case True
    then have p: "propose env transmit k1 l = Some (go, k', l')" using step by simp
    note c = propose_cases [OF p]
    show ?thesis
    proof (cases "ck_lastUploaded k' = ck_pendingUpload k1")
      case settled: True
      show ?thesis by (rule upload_inv_settled [OF assms(1) k1_def settled]) (use c True in auto)
    next
      case False
      show ?thesis by (rule upload_inv_idle [OF assms(1) k1_def]) (use c False in auto)
    qed
  next
    case False
    show ?thesis
    proof (cases "can_upload l")
      case True
      then show ?thesis using step False by (intro upload_inv_idle [OF assms(1) k1_def]) (auto split: if_splits)
    next
      case off: False
      then show ?thesis using step by (intro upload_inv_settled [OF assms(1) k1_def]) auto
    qed
  qed
qed

lemma upload_run_inv: "upload_run env entries k l \<Longrightarrow> upload_inv entries k l"
proof (induction rule: upload_run.induct)
  case (start now l)
  then show ?case by (simp add: upload_inv_def uploads_newer_def new_link_def)
next
  case (others entries k l l')
  then show ?case by (auto simp: upload_inv_def)
next
  case (step entries k l transmit now go k' l')
  then show ?case by (blast intro: upload_inv_step)
qed


text \<open>A snapshot of revision one that may be sent at last, after the changes before were passed over.\<close>

definition constant_env :: "json \<Rightarrow> lan_env" where
  "constant_env j = \<lparr>ne_dump = (\<lambda>_. Some [7]), ne_parse = (\<lambda>_. Some j), ne_float_int = (\<lambda>bits. 0)\<rparr>"

definition allowed_lan :: lan where
  "allowed_lan = idle_lan\<lparr>ln_autoSend := True, ln_revision := 1, ln_status := connected_status\<lparr>ss_teamSyncClientWriteAllowed := True\<rparr>\<rparr>"


definition wrong_hello :: json where
  "wrong_hello = make_object [(ascii ''type'', text_json ''hello''), (ascii ''version'', version_json), (ascii ''pairCode'', text_json ''0000'')]"

definition waiting_server :: server_link where "waiting_server = (new_server 0 idle_lan)\<lparr>sv_client := True\<rparr>"


definition demo_proposal :: json where
  "demo_proposal = make_object [(ascii ''type'', text_json ''team_sync_propose''), (ascii ''version'', version_json),
     (ascii ''proposalId'', JUInt 5), (ascii ''snapshot'', make_object [])]"

theorem proposals_need_permission_witness:
  "\<exists>payload m p. Frame [1] = Frame payload \<and> ne_parse (constant_env demo_proposal) payload = Some m \<and>
     ne_dump (constant_env demo_proposal) (with_source [9] m) = Some p \<and>
     told (snd (server_receive (constant_env demo_proposal) connected_status (\<lambda>_. True) 0 id (Frame [1])
       (waiting_server\<lparr>sv_paired := True, sv_activeClientId := [9]\<rparr>) (idle_lan\<lparr>ln_clientWriteAllowed := True\<rparr>))) = [p]"
proof -
  let ?s = "waiting_server\<lparr>sv_paired := True, sv_activeClientId := [9]\<rparr>" and ?l = "idle_lan\<lparr>ln_clientWriteAllowed := True\<rparr>"
  have t: "told ?l = []" by (simp add: told_def idle_lan_def)
  have "value_text ''type'' demo_proposal = Some (ascii ''team_sync_propose'')" "value_int (constant_env demo_proposal) ''version'' demo_proposal = Some 1"
    "value_word (constant_env demo_proposal) ''proposalId'' demo_proposal = Some (5 :: 32 word)"
    "json_find (ascii ''snapshot'') demo_proposal = Some (make_object [])" "is_object (make_object [])"
    by (simp_all add: demo_proposal_def jvalue_string_def jvalue_def text_json_def value_int_def value_word_def version_json_def kProtocolVersion_def)
  then have "server_receive (constant_env demo_proposal) connected_status (\<lambda>_. True) 0 id (Frame [1]) ?s ?l = (?s, NotifyTeamSyncMessage [7] ?l)"
    by (simp add: server_receive_def handle_message_def handle_proposal_def constant_env_def notify_json_def ok_def kProtocolVersion_def)
  then have ne: "told (snd (server_receive (constant_env demo_proposal) connected_status (\<lambda>_. True) 0 id (Frame [1]) ?s ?l)) \<noteq> told ?l"
    by simp
  show ?thesis using proposals_need_permission [OF _ ne] by (auto simp: t)
qed

subsection \<open>Pushes\<close>

lemma number_json [simp]: "number_word env (JUInt n) = Some (n :: u64)"
  by simp

lemma push_reads:
  "value_text ''type'' (lan_push_json revision sub snapshot) = Some (ascii ''team_sync_push'')"
  "value_word env ''revision'' (lan_push_json revision sub snapshot) = Some revision"
  "value_word env ''subscriptionId'' (lan_push_json revision sub snapshot) = Some sub"
  "json_find (ascii ''snapshot'') (lan_push_json revision sub snapshot) = Some snapshot"
  by (simp_all add: lan_push_json_def jvalue_string_def jvalue_def value_word_def text_json_def)

lemma reply_is_push:
  assumes "ne_parse env (ln_snapshot l) = Some snapshot" "is_object snapshot" "value_int env ''version'' snapshot = Some kProtocolVersion" "ln_snapshot l \<noteq> []"
  shows "snapshot_reply env True requestId revision sub (ln_snapshot l) = lan_push_json revision sub snapshot"
  using assms by (simp add: snapshot_reply_def)


text \<open>A printer of two values.\<close>

definition table_env :: "json \<Rightarrow> json \<Rightarrow> lan_env" where
  "table_env a b =
     \<lparr>ne_dump = (\<lambda>j. if reread j = reread a then Some [1] else if reread j = reread b then Some [2] else None),
      ne_parse = (\<lambda>s. if s = [1] then Some (reread a) else if s = [2] then Some (reread b) else None),
      ne_float_int = (\<lambda>bits. 0)\<rparr>"

lemma table_reads: "library_reads (table_env a b)"
  by (simp add: library_reads_def prints_back_with_def table_env_def)

definition lan_snapshot :: json where "lan_snapshot = make_object [(ascii ''version'', JUInt 1)]"

definition push_env :: lan_env where "push_env = table_env lan_snapshot (lan_push_json 3 1 lan_snapshot)"

definition subscribed_lan :: lan where "subscribed_lan = idle_lan\<lparr>ln_subscriptionDesired := True, ln_subscriptionId := 1\<rparr>"


subsection \<open>Where the service does not keep its word\<close>

text \<open>
  A client that a ping cannot be sent to is given up, but the status goes on showing it connected, with the keys
  it last had pressed; a client that is dropped elsewhere is cleared from the status.
\<close>

lemma failed_ping_keeps_status:
  assumes "elapsed_ms now (sv_lastHeartbeat s) \<le> kServerHeartbeatTimeoutMs" "elapsed_ms now (sv_lastPing s) \<ge> kStateHeartbeatMs"
    "ne_dump env ping_json = Some p" "\<not> transmit p"
  shows "heartbeat env transmit now s l = Some (False, (give_up_client s)\<lparr>sv_lastPing := now\<rparr>, l)"
  using assms by (simp add: heartbeat_def send_json_def send_payload_def)

text \<open>
  A permission taken away while a client is being paired is never told to that client: the number of the change
  is taken for sent.
\<close>

lemma policy_fields [simp]:
  "ln_clientWriteAllowed (with_status f l) = ln_clientWriteAllowed l" "ln_policyGeneration (with_status f l) = ln_policyGeneration l"
  "ln_clientWriteAllowed (NotifyStateChanged l) = ln_clientWriteAllowed l" "ln_policyGeneration (NotifyStateChanged l) = ln_policyGeneration l"
  by (simp_all add: with_status_def NotifyStateChanged_def emit_def)

lemma send_unchecked_policy:
  "send_unchecked env transmit j l = Some l' \<Longrightarrow> ln_clientWriteAllowed l' = ln_clientWriteAllowed l \<and> ln_policyGeneration l' = ln_policyGeneration l"
  by (auto simp: send_unchecked_def send_json_def send_payload_def emit_def split: if_splits)

lemma permission_race:
  assumes "ln_clientWriteAllowed l"
    "pair_client env startup transmit readAt (SetTeamSyncClientWriteAllowed False) m s l = (True, s', l')"
  shows "\<not> ln_clientWriteAllowed l'" "send_policy env transmit s' l' = Some (True, s', l')"
proof -
  obtain l1 where l1: "send_unchecked env transmit (accepted_json startup l) l = Some l1"
    using assms(2) by (auto simp: pair_client_def Let_def thrown_def split: option.splits)
  obtain l2 where l2: "send_unchecked env transmit (policy_json (ln_clientWriteAllowed l1)) (SetTeamSyncClientWriteAllowed False l1) = Some l2"
    using assms(2) l1 by (auto simp: pair_client_def Let_def thrown_def split: option.splits)
  have p: "\<not> ln_clientWriteAllowed l2" "ln_policyGeneration l2 = ln_policyGeneration (SetTeamSyncClientWriteAllowed False l1)"
    using send_unchecked_policy [OF l2] by (simp_all add: SetTeamSyncClientWriteAllowed_def)
  have "ln_clientWriteAllowed l' = ln_clientWriteAllowed l2 \<and> ln_policyGeneration l' = sv_sentPolicy s'"
    using assms(2) by (auto simp: pair_client_def Let_def thrown_def ok_def l1 l2 split: option.splits)
  then show "\<not> ln_clientWriteAllowed l'" "send_policy env transmit s' l' = Some (True, s', l')"
    using p by (simp_all add: send_policy_def)
qed

text \<open>
  \<^verbatim>\<open>RequestTeamSync\<close> marks the first request as pending before it has a number; in between a connection that is
  four seconds old answers it as timed out, without having sent it.
\<close>

lemma first_request_race:
  assumes "ln_pending l" "ln_requestId l = 0" "ck_sentRequestId k = 0" "elapsed_ms now (ck_requestedAt k) \<ge> 4000"
    "ne_dump env (request_error_json 0 ''timeout'') = Some p"
  shows "request_step env transmit now k l = Some (True, k, NotifyTeamSyncMessage p (l\<lparr>ln_pending := False\<rparr>))"
  using assms by (simp add: request_step_def notify_json_def Let_def)

end
