(* ===== verification/AliasText.thy ===== *)
theory AliasText
  imports Json
begin

text \<open>
  The game identifiers a player declares, as the main dialog reads them
  (\<^verbatim>\<open>DNFGameCaptureDlg.cpp\<close>, lines 3236-3500 and 3994-4345): an identifier may carry a server area and,
  after a sharp sign, a job. Merging keeps one entry per identifier and job, lets an entry with a job
  replace the bare one, and drops a bare identifier that occurs inside an earlier entry. The lists are
  stored as a text of parenthesised entries. Texts hold no NUL; the white-space class of \<^verbatim>\<open>CString::Trim\<close>
  and the UTF-8 converter are parameters.
\<close>

type_synonym space_class = "wchar \<Rightarrow> bool"

definition DnfTrimmedCopy :: "space_class \<Rightarrow> wstr \<Rightarrow> wstr" where
  "DnfTrimmedCopy sp s = trim_by sp s"

lemma trimmed_idem [simp]: "DnfTrimmedCopy sp (DnfTrimmedCopy sp s) = DnfTrimmedCopy sp s"
  by (simp add: DnfTrimmedCopy_def)

lemma trimmed_Nil [simp]: "DnfTrimmedCopy sp [] = []"
  by (simp add: DnfTrimmedCopy_def)

text \<open>The conversion macros stop at a NUL; the converters themselves belong to the operating system.\<close>

definition CA2W :: "(bytes \<Rightarrow> wstr) \<Rightarrow> bytes \<Rightarrow> wstr" where
  "CA2W from_utf8 s = from_utf8 (takeWhile (\<lambda>b. b \<noteq> 0) s)"

definition DnfJsonUtf8 :: "(wstr \<Rightarrow> bytes) \<Rightarrow> wstr \<Rightarrow> bytes" where
  "DnfJsonUtf8 to_utf8 s = takeWhile (\<lambda>b. b \<noteq> 0) (to_utf8 s)"

subsection \<open>The parts of an identifier\<close>

definition kAreas :: "wstr list" where
  "kAreas =
    [[0x5E7F, 0x4E1C], [0x5317, 0x4EAC], [0x4E0A, 0x6D77], [0x6C5F, 0x82CF], [0x6D59, 0x6C5F],
     [0x798F, 0x5EFA], [0x56DB, 0x5DDD], [0x5C71, 0x4E1C], [0x6CB3, 0x5357], [0x6E56, 0x5317],
     [0x6E56, 0x5357], [0x6CB3, 0x5317], [0x8FBD, 0x5B81], [0x5409, 0x6797], [0x9ED1, 0x9F99, 0x6C5F],
     [0x5B89, 0x5FBD], [0x6C5F, 0x897F], [0x5E7F, 0x897F], [0x9655, 0x897F], [0x5C71, 0x897F],
     [0x91CD, 0x5E86], [0x5929, 0x6D25], [0x4E91, 0x5357], [0x8D35, 0x5DDE], [0x65B0, 0x7586],
     [0x897F, 0x85CF], [0x9752, 0x6D77], [0x7518, 0x8083], [0x5B81, 0x590F], [0x5185, 0x8499, 0x53E4],
     [0x4E1C, 0x5317], [0x897F, 0x5317], [0x897F, 0x5357], [0x8DE8]]"

definition area_tokens :: "wstr list" where
  "area_tokens = concat (map (\<lambda>area. map (\<lambda>n. area @ [0x30 + of_nat n]) [1..<10]) kAreas)"

fun strip_first :: "space_class \<Rightarrow> wstr list \<Rightarrow> wstr \<Rightarrow> wstr option" where
  "strip_first sp [] body = None"
| "strip_first sp (token # tokens) body =
     (case find_sub token body of
        Some pos \<Rightarrow> Some (DnfTrimmedCopy sp (take pos body @ drop (pos + length token) body))
      | None \<Rightarrow> strip_first sp tokens body)"

text \<open>The remaining text and whether an area was found.\<close>

definition DnfStripDeclaredArea :: "space_class \<Rightarrow> wstr \<Rightarrow> wstr \<times> bool" where
  "DnfStripDeclaredArea sp body =
     (case strip_first sp area_tokens body of Some rest \<Rightarrow> (rest, True) | None \<Rightarrow> (body, False))"

definition find_char :: "wchar \<Rightarrow> wstr \<Rightarrow> nat option" where
  "find_char c s = (let n = length (takeWhile (\<lambda>x. x \<noteq> c) s) in if n < length s then Some n else None)"

definition DnfFindAliasSharp :: "wstr \<Rightarrow> nat option" where
  "DnfFindAliasSharp s =
     (case (find_char 0x23 s, find_char 0xFF03 s) of
        (Some half, Some full) \<Rightarrow> Some (if half < full then half else full)
      | (Some half, None) \<Rightarrow> Some half
      | (None, full) \<Rightarrow> full)"

text \<open>The real identifier, whether an area and whether a job were declared.\<close>

definition DnfExtractAliasRealId :: "space_class \<Rightarrow> wstr \<Rightarrow> wstr \<times> bool \<times> bool" where
  "DnfExtractAliasRealId sp aliasRaw =
     (let body = DnfTrimmedCopy sp aliasRaw;
          (body, hasJob) = (case DnfFindAliasSharp body of
             Some sharp \<Rightarrow> (DnfTrimmedCopy sp (take sharp body), DnfTrimmedCopy sp (drop (sharp + 1) body) \<noteq> [])
           | None \<Rightarrow> (body, False));
          (body, hasArea) = DnfStripDeclaredArea sp body
      in (DnfTrimmedCopy sp body, hasArea, hasJob))"

definition DnfAliasDuplicateKey :: "space_class \<Rightarrow> wstr \<Rightarrow> wstr" where
  "DnfAliasDuplicateKey sp aliasRaw =
     (let key = DnfTrimmedCopy sp aliasRaw in
      if key = [] then key
      else DnfTrimmedCopy sp (case DnfFindAliasSharp key of Some sharp \<Rightarrow> take sharp key | None \<Rightarrow> key))"

definition DnfAliasDisplayName :: "space_class \<Rightarrow> wstr \<Rightarrow> bool \<Rightarrow> wstr" where
  "DnfAliasDisplayName sp aliasRaw showDeclaredJob =
     (let a = DnfTrimmedCopy sp aliasRaw in
      if a = [] \<or> showDeclaredJob then a
      else let display = DnfAliasDuplicateKey sp a in if display = [] then a else display)"

definition DnfAliasSameDuplicateId :: "space_class \<Rightarrow> wstr \<Rightarrow> wstr \<Rightarrow> bool" where
  "DnfAliasSameDuplicateId sp a b \<longleftrightarrow>
     (let ka = DnfAliasDuplicateKey sp a; kb = DnfAliasDuplicateKey sp b in ka \<noteq> [] \<and> kb \<noteq> [] \<and> ka = kb)"

definition DnfAliasJobKey :: "space_class \<Rightarrow> wstr \<Rightarrow> wstr" where
  "DnfAliasJobKey sp aliasRaw =
     (let a = DnfTrimmedCopy sp aliasRaw in
      case DnfFindAliasSharp a of None \<Rightarrow> [] | Some sharp \<Rightarrow> DnfTrimmedCopy sp (drop (sharp + 1) a))"

definition DnfAliasHasDeclaredJob :: "space_class \<Rightarrow> wstr \<Rightarrow> bool" where
  "DnfAliasHasDeclaredJob sp aliasRaw \<longleftrightarrow> DnfAliasJobKey sp aliasRaw \<noteq> []"

definition DnfAliasSameStorageEntry :: "space_class \<Rightarrow> wstr \<Rightarrow> wstr \<Rightarrow> bool" where
  "DnfAliasSameStorageEntry sp a b \<longleftrightarrow>
     (let aa = DnfTrimmedCopy sp a; bb = DnfTrimmedCopy sp b in
      if aa = [] \<or> bb = [] then False
      else if aa = bb then True
      else if \<not> DnfAliasSameDuplicateId sp aa bb then False
      else
        let aj = DnfAliasJobKey sp aa; bj = DnfAliasJobKey sp bb in
        if aj \<noteq> [] \<or> bj \<noteq> [] then aj \<noteq> [] \<and> bj \<noteq> [] \<and> aj = bj else True)"

definition DnfAliasCloudContainsNakedAlias :: "space_class \<Rightarrow> wstr \<Rightarrow> wstr \<Rightarrow> bool" where
  "DnfAliasCloudContainsNakedAlias sp cloudAliasRaw localAliasRaw \<longleftrightarrow>
     (let localAlias = DnfTrimmedCopy sp localAliasRaw; cloudAlias = DnfTrimmedCopy sp cloudAliasRaw in
      if localAlias = [] \<or> cloudAlias = [] then False
      else if DnfAliasHasDeclaredJob sp localAlias then False
      else if DnfAliasHasDeclaredJob sp cloudAlias \<and> DnfAliasSameStorageEntry sp cloudAlias localAlias then True
      else contains cloudAlias localAlias \<and> cloudAlias \<noteq> localAlias)"

definition DnfAliasBlocksSamePlayerAlias :: "space_class \<Rightarrow> wstr \<Rightarrow> wstr \<Rightarrow> bool" where
  "DnfAliasBlocksSamePlayerAlias sp existingAliasRaw candidateAliasRaw \<longleftrightarrow>
     (let existing = DnfTrimmedCopy sp existingAliasRaw; candidate = DnfTrimmedCopy sp candidateAliasRaw in
      if existing = [] \<or> candidate = [] then False
      else if DnfAliasSameStorageEntry sp existing candidate then True
      else if \<not> DnfAliasHasDeclaredJob sp candidate then
        if DnfAliasHasDeclaredJob sp existing \<and> DnfAliasSameDuplicateId sp existing candidate then True
        else existing \<noteq> candidate \<and> contains existing candidate
      else False)"

subsection \<open>Merging an identifier into a list\<close>

datatype DnfAliasMergeResult = MergeNone | MergeAdded | MergeUpgraded

text \<open>
  The loop of \<^verbatim>\<open>DnfMergeAliasIntoList\<close>: the entries it visits are trimmed in place, an empty one is
  passed over.
\<close>

fun merge_entries :: "space_class \<Rightarrow> wstr \<Rightarrow> wstr list \<Rightarrow> DnfAliasMergeResult \<times> wstr list" where
  "merge_entries sp a [] = (MergeAdded, [a])"
| "merge_entries sp a (x # rest) =
     (let old = DnfTrimmedCopy sp x;
          aliasHasJob = DnfAliasHasDeclaredJob sp a; oldHasJob = DnfAliasHasDeclaredJob sp old;
          again = merge_entries sp a rest
      in if old = [] then (fst again, old # snd again)
         else if DnfAliasSameStorageEntry sp old a then
           if \<not> oldHasJob \<and> aliasHasJob then (MergeUpgraded, a # rest) else (MergeNone, old # rest)
         else if DnfAliasSameDuplicateId sp old a \<and> \<not> oldHasJob \<and> aliasHasJob then (MergeUpgraded, a # rest)
         else if DnfAliasSameDuplicateId sp old a \<and> oldHasJob \<and> \<not> aliasHasJob then (MergeNone, old # rest)
         else if \<not> aliasHasJob \<and> old \<noteq> a \<and> contains old a then (MergeNone, old # rest)
         else (fst again, old # snd again))"

definition DnfMergeAliasIntoList :: "space_class \<Rightarrow> wstr \<Rightarrow> wstr list \<Rightarrow> DnfAliasMergeResult \<times> wstr list" where
  "DnfMergeAliasIntoList sp aliasRaw aliases =
     (let a = DnfTrimmedCopy sp aliasRaw in if a = [] then (MergeNone, aliases) else merge_entries sp a aliases)"

text \<open>The same loop over the entries of a player, which carry statistics.\<close>

record AliasData =
  ad_name :: wstr
  ad_kills :: int
  ad_deaths :: int
  ad_currentStreak :: int
  ad_akCount :: int

definition new_alias :: "wstr \<Rightarrow> AliasData" where
  "new_alias s = \<lparr>ad_name = s, ad_kills = 0, ad_deaths = 0, ad_currentStreak = 0, ad_akCount = 0\<rparr>"

fun merge_data_entries :: "space_class \<Rightarrow> wstr \<Rightarrow> AliasData list \<Rightarrow> DnfAliasMergeResult \<times> AliasData list" where
  "merge_data_entries sp a [] = (MergeAdded, [new_alias a])"
| "merge_data_entries sp a (x # rest) =
     (let old = DnfTrimmedCopy sp (ad_name x); x' = x\<lparr>ad_name := old\<rparr>;
          aliasHasJob = DnfAliasHasDeclaredJob sp a; oldHasJob = DnfAliasHasDeclaredJob sp old;
          again = merge_data_entries sp a rest
      in if old = [] then (fst again, x' # snd again)
         else if DnfAliasSameStorageEntry sp old a then
           if \<not> oldHasJob \<and> aliasHasJob then (MergeUpgraded, x\<lparr>ad_name := a\<rparr> # rest) else (MergeNone, x' # rest)
         else if DnfAliasSameDuplicateId sp old a \<and> \<not> oldHasJob \<and> aliasHasJob
           then (MergeUpgraded, x\<lparr>ad_name := a\<rparr> # rest)
         else if DnfAliasSameDuplicateId sp old a \<and> oldHasJob \<and> \<not> aliasHasJob then (MergeNone, x' # rest)
         else if \<not> aliasHasJob \<and> old \<noteq> a \<and> contains old a then (MergeNone, x' # rest)
         else (fst again, x' # snd again))"

definition DnfMergeAliasIntoAliasDataList :: "space_class \<Rightarrow> wstr \<Rightarrow> AliasData list \<Rightarrow> DnfAliasMergeResult \<times> AliasData list" where
  "DnfMergeAliasIntoAliasDataList sp aliasRaw aliases =
     (let a = DnfTrimmedCopy sp aliasRaw in if a = [] then (MergeNone, aliases) else merge_data_entries sp a aliases)"

abbreviation merged :: "space_class \<Rightarrow> wstr list \<Rightarrow> wstr list \<Rightarrow> wstr list" where
  "merged sp incoming aliases \<equiv> fold (\<lambda>a l. snd (DnfMergeAliasIntoList sp a l)) incoming aliases"

abbreviation merged_data :: "space_class \<Rightarrow> wstr list \<Rightarrow> AliasData list \<Rightarrow> AliasData list" where
  "merged_data sp incoming aliases \<equiv> fold (\<lambda>a l. snd (DnfMergeAliasIntoAliasDataList sp a l)) incoming aliases"

definition DnfNormalizeAliasDataList :: "space_class \<Rightarrow> AliasData list \<Rightarrow> AliasData list" where
  "DnfNormalizeAliasDataList sp aliases = merged_data sp (map ad_name aliases) []"

definition parenthesised :: "wstr \<Rightarrow> wstr" where
  "parenthesised s = 0x28 # s @ [0x29]"

definition DnfSerializeAliasDataListRaw :: "space_class \<Rightarrow> AliasData list \<Rightarrow> wstr" where
  "DnfSerializeAliasDataListRaw sp aliases =
     concat (map parenthesised (filter (\<lambda>name. name \<noteq> []) (map (\<lambda>a. DnfTrimmedCopy sp (ad_name a)) aliases)))"

subsection \<open>Validation\<close>

definition DnfIsLegacyShortAliasWithoutMeta :: "space_class \<Rightarrow> wstr \<Rightarrow> bool" where
  "DnfIsLegacyShortAliasWithoutMeta sp aliasRaw =
     (let a = DnfTrimmedCopy sp aliasRaw in
      if a = [] then False
      else
        let (realId, hasArea, hasJob) = DnfExtractAliasRealId sp a; realId = DnfTrimmedCopy sp realId in
        realId \<noteq> [] \<and> length realId < 3 \<and> \<not> hasArea \<and> \<not> hasJob)"

datatype alias_error = EmptyAlias | NoRealId wstr

text \<open>The error of the check, \<open>None\<close> where it passes.\<close>

definition DnfValidateAliasShortMeta :: "space_class \<Rightarrow> wstr \<Rightarrow> alias_error option" where
  "DnfValidateAliasShortMeta sp aliasRaw =
     (let a = DnfTrimmedCopy sp aliasRaw in
      if a = [] then Some EmptyAlias
      else if fst (DnfExtractAliasRealId sp a) = [] then Some (NoRealId a)
      else None)"

fun DnfValidateAliasListShortMeta :: "space_class \<Rightarrow> wstr list \<Rightarrow> alias_error option" where
  "DnfValidateAliasListShortMeta sp [] = None"
| "DnfValidateAliasListShortMeta sp (a # rest) =
     (case DnfValidateAliasShortMeta sp a of Some e \<Rightarrow> Some e | None \<Rightarrow> DnfValidateAliasListShortMeta sp rest)"

subsection \<open>Lists as text\<close>

text \<open>Calling \<^verbatim>\<open>CString::Tokenize\<close> until it returns the empty text.\<close>

function Tokenize :: "wstr \<Rightarrow> wstr \<Rightarrow> wstr list" where
  "Tokenize delims s =
     (case dropWhile (\<lambda>c. c \<in> set delims) s of
        [] \<Rightarrow> []
      | c # t \<Rightarrow> (c # takeWhile (\<lambda>c. c \<notin> set delims) t) # Tokenize delims (dropWhile (\<lambda>c. c \<notin> set delims) t))"
  by auto
termination
proof (relation "measure (length \<circ> snd)", goal_cases)
  case (2 delims s c t)
  have "length (c # t) \<le> length s" using length_dropWhile_le [of "\<lambda>c. c \<in> set delims" s] 2 by simp
  moreover have "length (dropWhile (\<lambda>c. c \<notin> set delims) t) \<le> length t" by (rule length_dropWhile_le)
  ultimately show ?case by simp
qed simp

declare Tokenize.simps [simp del]

text \<open>The two kinds of parentheses, space, tab, return and newline.\<close>

definition alias_delimiters :: wstr where
  "alias_delimiters = [0x28, 0x29, 0xFF08, 0xFF09, 0x20, 0x09, 0x0D, 0x0A]"

definition DnfParseAliasListString :: "space_class \<Rightarrow> wstr \<Rightarrow> wstr list" where
  "DnfParseAliasListString sp aliasesRaw = merged sp (Tokenize alias_delimiters aliasesRaw) []"

definition DnfFormatAliasListString :: "space_class \<Rightarrow> wstr list \<Rightarrow> wstr" where
  "DnfFormatAliasListString sp aliases = concat (map parenthesised (merged sp aliases []))"

definition DnfAliasListContainsExact :: "space_class \<Rightarrow> wstr list \<Rightarrow> wstr \<Rightarrow> bool" where
  "DnfAliasListContainsExact sp aliases targetRaw \<longleftrightarrow>
     (let target = DnfTrimmedCopy sp targetRaw in
      target \<noteq> [] \<and> list_ex (\<lambda>a. DnfTrimmedCopy sp a = target) aliases)"

definition DnfAliasListSameSet :: "space_class \<Rightarrow> wstr list \<Rightarrow> wstr list \<Rightarrow> bool" where
  "DnfAliasListSameSet sp a b \<longleftrightarrow> length a = length b \<and> list_all (DnfAliasListContainsExact sp b) a"

definition DnfAliasListSubtractExact :: "space_class \<Rightarrow> wstr list \<Rightarrow> wstr list \<Rightarrow> wstr list" where
  "DnfAliasListSubtractExact sp left right = filter (\<lambda>a. \<not> DnfAliasListContainsExact sp right a) left"

definition DnfAliasesFromJsonValue :: "space_class \<Rightarrow> (bytes \<Rightarrow> wstr) \<Rightarrow> json \<Rightarrow> wstr list" where
  "DnfAliasesFromJsonValue sp from_utf8 v =
     (if is_string v then DnfParseAliasListString sp (CA2W from_utf8 (get_string v))
      else if is_array v then merged sp (map (\<lambda>item. CA2W from_utf8 (get_string item)) (filter is_string (elements v))) []
      else [])"

definition DnfNormalizeAliasListString :: "space_class \<Rightarrow> wstr \<Rightarrow> wstr" where
  "DnfNormalizeAliasListString sp aliasesRaw = DnfFormatAliasListString sp (DnfParseAliasListString sp aliasesRaw)"

definition DnfRemoveAliasFromAliasListString :: "space_class \<Rightarrow> wstr \<Rightarrow> wstr \<Rightarrow> wstr" where
  "DnfRemoveAliasFromAliasListString sp aliasesRaw aliasToRemove =
     (let target = DnfTrimmedCopy sp aliasToRemove;
          kept = filter (\<lambda>a. \<not> (target \<noteq> [] \<and> DnfAliasSameStorageEntry sp a target))
            (map (DnfTrimmedCopy sp) (DnfParseAliasListString sp aliasesRaw))
      in DnfFormatAliasListString sp (merged sp kept []))"

definition DnfRenameAliasInAliasListString :: "space_class \<Rightarrow> wstr \<Rightarrow> wstr \<Rightarrow> wstr \<Rightarrow> wstr" where
  "DnfRenameAliasInAliasListString sp aliasesRaw oldAlias newAlias =
     (let oldClean = DnfTrimmedCopy sp oldAlias; newClean = DnfTrimmedCopy sp newAlias;
          entries = map (DnfTrimmedCopy sp) (DnfParseAliasListString sp aliasesRaw);
          hit = (\<lambda>a. oldClean \<noteq> [] \<and> DnfAliasSameStorageEntry sp a oldClean);
          out = merged sp (map (\<lambda>a. if hit a then newClean else a) entries) [];
          out = (if \<not> list_ex hit entries \<and> newClean \<noteq> [] then snd (DnfMergeAliasIntoList sp newClean out) else out)
      in DnfFormatAliasListString sp out)"

subsection \<open>Merging\<close>

lemma duplicate_key_trimmed [simp]: "DnfAliasDuplicateKey sp (DnfTrimmedCopy sp s) = DnfAliasDuplicateKey sp s"
  by (simp add: DnfAliasDuplicateKey_def)

lemma job_key_trimmed [simp]: "DnfAliasJobKey sp (DnfTrimmedCopy sp s) = DnfAliasJobKey sp s"
  by (simp add: DnfAliasJobKey_def)

lemma has_job_trimmed [simp]: "DnfAliasHasDeclaredJob sp (DnfTrimmedCopy sp s) = DnfAliasHasDeclaredJob sp s"
  by (simp add: DnfAliasHasDeclaredJob_def)

lemma same_duplicate_trimmed [simp]:
  "DnfAliasSameDuplicateId sp (DnfTrimmedCopy sp a) b = DnfAliasSameDuplicateId sp a b"
  "DnfAliasSameDuplicateId sp a (DnfTrimmedCopy sp b) = DnfAliasSameDuplicateId sp a b"
  by (simp_all add: DnfAliasSameDuplicateId_def)

lemma same_storage_trimmed [simp]:
  "DnfAliasSameStorageEntry sp (DnfTrimmedCopy sp a) b = DnfAliasSameStorageEntry sp a b"
  "DnfAliasSameStorageEntry sp a (DnfTrimmedCopy sp b) = DnfAliasSameStorageEntry sp a b"
  by (simp_all add: DnfAliasSameStorageEntry_def)

lemma same_duplicate_sym: "DnfAliasSameDuplicateId sp a b = DnfAliasSameDuplicateId sp b a"
  by (auto simp: DnfAliasSameDuplicateId_def Let_def)

lemma same_storage_sym: "DnfAliasSameStorageEntry sp a b = DnfAliasSameStorageEntry sp b a"
  by (auto simp: DnfAliasSameStorageEntry_def Let_def same_duplicate_sym)

lemma same_storage_refl: "DnfTrimmedCopy sp a \<noteq> [] \<Longrightarrow> DnfAliasSameStorageEntry sp a a"
  by (simp add: DnfAliasSameStorageEntry_def)

text \<open>Entries that store the same identifier declare a job both or neither.\<close>

lemma same_storage_job:
  "DnfAliasSameStorageEntry sp a b \<Longrightarrow> DnfAliasHasDeclaredJob sp a = DnfAliasHasDeclaredJob sp b"
  unfolding DnfAliasSameStorageEntry_def DnfAliasHasDeclaredJob_def Let_def
  by (metis job_key_trimmed)

lemma same_storage_cases:
  "DnfAliasSameStorageEntry sp a b \<longleftrightarrow> DnfTrimmedCopy sp a \<noteq> [] \<and> DnfTrimmedCopy sp b \<noteq> [] \<and>
     (DnfTrimmedCopy sp a = DnfTrimmedCopy sp b \<or> DnfAliasSameDuplicateId sp a b \<and> DnfAliasJobKey sp a = DnfAliasJobKey sp b)"
  unfolding DnfAliasSameStorageEntry_def Let_def by auto

text \<open>The step of the loop on one entry: it answers, or the entry stands and the loop goes on.\<close>

definition merge_blocks :: "space_class \<Rightarrow> wstr \<Rightarrow> wstr \<Rightarrow> bool" where
  "merge_blocks sp a old \<longleftrightarrow> old \<noteq> [] \<and>
     (DnfAliasSameStorageEntry sp old a \<or>
      DnfAliasSameDuplicateId sp old a \<and> DnfAliasHasDeclaredJob sp old \<and> \<not> DnfAliasHasDeclaredJob sp a \<or>
      \<not> DnfAliasHasDeclaredJob sp a \<and> old \<noteq> a \<and> contains old a \<and>
        \<not> (DnfAliasSameDuplicateId sp old a \<and> \<not> DnfAliasHasDeclaredJob sp old \<and> DnfAliasHasDeclaredJob sp a))"

definition merge_upgrades :: "space_class \<Rightarrow> wstr \<Rightarrow> wstr \<Rightarrow> bool" where
  "merge_upgrades sp a old \<longleftrightarrow> old \<noteq> [] \<and> DnfAliasSameDuplicateId sp old a \<and>
     \<not> DnfAliasHasDeclaredJob sp old \<and> DnfAliasHasDeclaredJob sp a"

lemma merge_entries_Cons:
  "merge_entries sp a (x # rest) =
     (let old = DnfTrimmedCopy sp x in
      if merge_blocks sp a old then (MergeNone, old # rest)
      else if merge_upgrades sp a old then (MergeUpgraded, a # rest)
      else let (r, rest') = merge_entries sp a rest in (r, old # rest'))"
  using same_storage_job [of sp "DnfTrimmedCopy sp x" a]
  by (auto simp: merge_blocks_def merge_upgrades_def Let_def split: prod.splits)

declare merge_entries.simps(2) [simp del]

lemma merge_entries_again:
  assumes "DnfTrimmedCopy sp a = a" "a \<noteq> []"
  shows "merge_entries sp a (snd (merge_entries sp a xs)) = (MergeNone, snd (merge_entries sp a xs))"
proof (induction xs)
  case Nil
  then show ?case using assms same_storage_refl [of sp a] by (simp add: merge_entries_Cons merge_blocks_def)
next
  case (Cons x xs)
  have "merge_blocks sp a a" using assms same_storage_refl [of sp a] by (simp add: merge_blocks_def)
  then show ?case using Cons assms by (auto simp: merge_entries_Cons Let_def split: prod.splits)
qed

text \<open>
  Two entries may stand side by side: they do not store the same identifier, and if they share the
  identifier both declare a job.
\<close>

definition compatible :: "space_class \<Rightarrow> wstr \<Rightarrow> wstr \<Rightarrow> bool" where
  "compatible sp a b \<longleftrightarrow> \<not> DnfAliasSameStorageEntry sp a b \<and>
     (DnfAliasSameDuplicateId sp a b \<longrightarrow> DnfAliasHasDeclaredJob sp a \<and> DnfAliasHasDeclaredJob sp b)"

definition alias_list_ok :: "space_class \<Rightarrow> wstr list \<Rightarrow> bool" where
  "alias_list_ok sp xs \<longleftrightarrow> list_all (\<lambda>x. DnfTrimmedCopy sp x = x \<and> x \<noteq> []) xs \<and> sorted_wrt (compatible sp) xs"

lemma compatible_sym: "compatible sp a b = compatible sp b a"
  by (auto simp: compatible_def same_storage_sym same_duplicate_sym)

lemma free_compatible:
  assumes "\<not> merge_blocks sp a x" "\<not> merge_upgrades sp a x" "x \<noteq> []"
  shows "compatible sp x a"
proof -
  have "\<not> DnfAliasSameStorageEntry sp x a" using assms by (simp add: merge_blocks_def)
  moreover have "DnfAliasHasDeclaredJob sp x \<and> DnfAliasHasDeclaredJob sp a" if d: "DnfAliasSameDuplicateId sp x a"
  proof -
    have "DnfAliasHasDeclaredJob sp x \<or> DnfAliasHasDeclaredJob sp a"
    proof (rule ccontr)
      assume "\<not> ?thesis"
      then have "DnfAliasJobKey sp x = DnfAliasJobKey sp a" by (simp add: DnfAliasHasDeclaredJob_def)
      moreover have "DnfTrimmedCopy sp x \<noteq> []" "DnfTrimmedCopy sp a \<noteq> []"
        using d by (auto simp: DnfAliasSameDuplicateId_def DnfAliasDuplicateKey_def Let_def split: if_splits)
      ultimately have "DnfAliasSameStorageEntry sp x a" using d by (simp add: same_storage_cases)
      then show False using \<open>\<not> DnfAliasSameStorageEntry sp x a\<close> by simp
    qed
    then show ?thesis using d assms by (auto simp: merge_blocks_def merge_upgrades_def)
  qed
  ultimately show ?thesis by (simp add: compatible_def)
qed

text \<open>An upgrade keeps the identifier, so it stays compatible with what the replaced entry was.\<close>

lemma same_duplicate_trans:
  "DnfAliasSameDuplicateId sp a b \<Longrightarrow> DnfAliasSameDuplicateId sp b c \<Longrightarrow> DnfAliasSameDuplicateId sp a c"
  by (auto simp: DnfAliasSameDuplicateId_def Let_def)

lemma same_storage_duplicate:
  "DnfAliasSameStorageEntry sp a b \<Longrightarrow> DnfAliasDuplicateKey sp a \<noteq> [] \<Longrightarrow> DnfAliasSameDuplicateId sp a b"
  by (metis DnfAliasSameDuplicateId_def duplicate_key_trimmed same_storage_cases)

lemma upgrade_compatible:
  assumes "merge_upgrades sp a x" "compatible sp x y"
  shows "compatible sp a y"
proof -
  have d: "DnfAliasSameDuplicateId sp x a" "\<not> DnfAliasHasDeclaredJob sp x"
    using assms(1) by (auto simp: merge_upgrades_def)
  have no: "\<not> DnfAliasSameDuplicateId sp a y"
    using same_duplicate_trans [OF d(1), of y] d(2) assms(2) by (auto simp: compatible_def)
  have "DnfAliasDuplicateKey sp a \<noteq> []" using d(1) by (auto simp: DnfAliasSameDuplicateId_def Let_def)
  then have "\<not> DnfAliasSameStorageEntry sp a y" using same_storage_duplicate [of sp a y] no by blast
  then show ?thesis using no by (simp add: compatible_def)
qed

lemma merge_entries_members:
  assumes "DnfTrimmedCopy sp a = a" "a \<noteq> []" "alias_list_ok sp xs"
  shows "set (snd (merge_entries sp a xs)) \<subseteq> insert a (set xs)"
  using assms(3)
proof (induction xs)
  case (Cons x xs)
  have "alias_list_ok sp xs" "DnfTrimmedCopy sp x = x" using Cons.prems by (simp_all add: alias_list_ok_def)
  with Cons.IH show ?case by (auto simp: merge_entries_Cons Let_def split: prod.splits)
qed simp

lemma merge_entries_ok:
  assumes "DnfTrimmedCopy sp a = a" "a \<noteq> []" "alias_list_ok sp xs"
  shows "alias_list_ok sp (snd (merge_entries sp a xs))"
  using assms(3)
proof (induction xs)
  case Nil
  then show ?case using assms by (simp add: alias_list_ok_def)
next
  case (Cons x xs)
  have ok: "alias_list_ok sp xs" and x: "DnfTrimmedCopy sp x = x" "x \<noteq> []"
    and c: "list_all (compatible sp x) xs"
    using Cons.prems by (simp_all add: alias_list_ok_def list_all_iff)
  show ?case
  proof (cases "merge_blocks sp a x")
    case True
    then show ?thesis using Cons.prems x by (simp add: merge_entries_Cons)
  next
    case free: False
    show ?thesis
    proof (cases "merge_upgrades sp a x")
      case True
      then have "list_all (compatible sp a) xs" using c upgrade_compatible by (auto simp: list_all_iff)
      then show ?thesis using free True ok x assms by (simp add: merge_entries_Cons alias_list_ok_def list_all_iff)
    next
      case False
      have "compatible sp x a" by (rule free_compatible [OF free False x(2)])
      then have "list_all (compatible sp x) (snd (merge_entries sp a xs))"
        using c merge_entries_members [OF assms(1,2) ok] by (auto simp: list_all_iff)
      then show ?thesis using free False x Cons.IH [OF ok]
        by (auto simp: merge_entries_Cons alias_list_ok_def list_all_iff split: prod.splits)
    qed
  qed
qed

lemma merge_ok: "alias_list_ok sp xs \<Longrightarrow> alias_list_ok sp (snd (DnfMergeAliasIntoList sp a xs))"
  using merge_entries_ok [of sp "DnfTrimmedCopy sp a" xs] by (simp add: DnfMergeAliasIntoList_def Let_def)

lemma merged_ok: "alias_list_ok sp xs \<Longrightarrow> alias_list_ok sp (merged sp incoming xs)"
  by (rule fold_keeps) (auto intro: merge_ok)

lemma alias_list_ok_Nil [simp]: "alias_list_ok sp []" by (simp add: alias_list_ok_def)

text \<open>The loop over the player's entries does to the names what the loop over a list does.\<close>

lemma merge_data_entries_names:
  "fst (merge_data_entries sp a xs) = fst (merge_entries sp a (map ad_name xs))"
  "map ad_name (snd (merge_data_entries sp a xs)) = snd (merge_entries sp a (map ad_name xs))"
  by (induction xs) (simp_all add: new_alias_def merge_entries.simps Let_def)

lemma merge_data_names:
  "fst (DnfMergeAliasIntoAliasDataList sp a xs) = fst (DnfMergeAliasIntoList sp a (map ad_name xs))"
  "map ad_name (snd (DnfMergeAliasIntoAliasDataList sp a xs)) = snd (DnfMergeAliasIntoList sp a (map ad_name xs))"
  by (simp_all add: DnfMergeAliasIntoAliasDataList_def DnfMergeAliasIntoList_def Let_def merge_data_entries_names)

lemma merged_data_names: "map ad_name (merged_data sp incoming xs) = merged sp incoming (map ad_name xs)"
  by (induction incoming arbitrary: xs) (simp_all add: merge_data_names)

text \<open>Offering an identifier again changes nothing: after a merge, a second merge of the same text reports \<open>MergeNone\<close> and leaves the list as it is.\<close>

lemma alias_merge_idempotent:
  "DnfMergeAliasIntoList sp a (snd (DnfMergeAliasIntoList sp a xs)) = (MergeNone, snd (DnfMergeAliasIntoList sp a xs))"
  using merge_entries_again [of sp "DnfTrimmedCopy sp a" xs] by (simp add: DnfMergeAliasIntoList_def Let_def)

text \<open>However a list is read from its text, its entries are trimmed and not empty, no two of them store the same identifier, and two that share the identifier both declare a job.\<close>

lemma alias_lists_consistent:
  "alias_list_ok sp (DnfParseAliasListString sp aliasesRaw)"
  unfolding DnfParseAliasListString_def by (rule merged_ok) simp

subsection \<open>The text form\<close>

definition clean_alias :: "wstr \<Rightarrow> bool" where
  "clean_alias a \<longleftrightarrow> a \<noteq> [] \<and> list_all (\<lambda>c. c \<notin> set alias_delimiters) a"

lemma Tokenize_parenthesised:
  assumes "clean_alias a"
  shows "Tokenize alias_delimiters (parenthesised a @ s) = a # Tokenize alias_delimiters s"
proof -
  obtain c t where a: "a = c # t" using assms by (cases a) (simp_all add: clean_alias_def)
  have c: "c \<notin> set alias_delimiters" and t: "\<forall>x\<in>set t. x \<notin> set alias_delimiters"
    using assms by (simp_all add: a clean_alias_def list_all_iff)
  have open_close: "0x28 \<in> set alias_delimiters" "0x29 \<in> set alias_delimiters"
    by (simp_all add: alias_delimiters_def)
  have "dropWhile (\<lambda>c. c \<in> set alias_delimiters) (parenthesised a @ s) = c # t @ 0x29 # s"
    using c open_close by (simp add: parenthesised_def a)
  moreover have "takeWhile (\<lambda>c. c \<notin> set alias_delimiters) (t @ 0x29 # s) = t"
    using t open_close by (simp add: takeWhile_append2)
  moreover have "dropWhile (\<lambda>c. c \<notin> set alias_delimiters) (t @ 0x29 # s) = 0x29 # s"
    using t open_close by (simp add: dropWhile_append2)
  moreover have "Tokenize alias_delimiters (0x29 # s) = Tokenize alias_delimiters s"
    using open_close by (subst (1 2) Tokenize.simps) simp
  ultimately show ?thesis by (subst Tokenize.simps) (simp add: a)
qed

lemma Tokenize_Nil [simp]: "Tokenize d [] = []"
  by (subst Tokenize.simps) simp

lemma Tokenize_list: "list_all clean_alias xs \<Longrightarrow> Tokenize alias_delimiters (concat (map parenthesised xs)) = xs"
  by (induction xs) (simp_all add: Tokenize_parenthesised)

text \<open>A list that merging its own entries leaves alone.\<close>

definition merge_stable :: "space_class \<Rightarrow> wstr list \<Rightarrow> bool" where
  "merge_stable sp xs \<longleftrightarrow> merged sp xs [] = xs"



text \<open>An identifier without a job is dropped when it occurs anywhere in an earlier entry, be it only in the name of that entry's job.\<close>

lemma bare_identifier_lost_in_job:
  assumes "DnfTrimmedCopy sp a = a" "a \<noteq> []" "DnfAliasJobKey sp a = []"
    and "DnfTrimmedCopy sp (key @ 0x23 # job) = key @ 0x23 # job" "contains job a" "a \<noteq> key @ 0x23 # job"
  shows "DnfMergeAliasIntoList sp a ((key @ 0x23 # job) # rest) = (MergeNone, (key @ 0x23 # job) # rest)"
proof -
  have "contains (key @ 0x23 # job) a"
    using assms(5) by (auto simp: contains_sublist sublist_append sublist_Cons_right)
  then show ?thesis using assms
    by (auto simp: DnfMergeAliasIntoList_def Let_def merge_entries_Cons merge_blocks_def DnfAliasHasDeclaredJob_def)
qed

lemma bare_identifier_lost_in_job_witness:
  "DnfMergeAliasIntoList ascii_space [0x42] [[0x41, 0x23, 0x42, 0x43]] = (MergeNone, [[0x41, 0x23, 0x42, 0x43]])"
  using bare_identifier_lost_in_job [of ascii_space "[0x42]" "[0x41]" "[0x42, 0x43]" "[]"]
  by (simp add: DnfTrimmedCopy_def trim_by_def ascii_space_def DnfAliasJobKey_def DnfFindAliasSharp_def find_char_def contains_sublist sublist_Cons_right)

end
