(* ===== verification/MatchState.thy ===== *)
theory MatchState
  imports AliasText LibrarySnapshot
begin

text \<open>
  The match the main dialog keeps (\<^verbatim>\<open>DNFGameCaptureDlg.h\<close>, \<^verbatim>\<open>DNFGameCaptureDlg.cpp\<close>): eight seats, four
  for each team, the score, the recognised kills, and beside them the state of the operation history and
  of the team synchronisation, and the table of known identifiers with the names waiting to be deleted from
  it. Counters are the integers of the program, which would need two thousand
  million kills to overflow. This theory holds the records, the mark that every change of the match leaves
  for the history, and the snapshots of the match that are sent to other machines and kept in the history.
  Printing and parsing of json, the UTF-8 converters, the white-space class, and the conversion of a double
  to an integer are parameters.
\<close>

record match_env =
  me_space :: space_class
  me_to_utf8 :: "wstr \<Rightarrow> bytes"
  me_from_utf8 :: "bytes \<Rightarrow> wstr"
  me_dump :: "json \<Rightarrow> bytes option"
  me_parse :: "bytes \<Rightarrow> json option"
  me_float_int :: "u64 \<Rightarrow> int"

record PlayerData =
  pd_name :: wstr
  pd_team :: int
  pd_aliases :: "AliasData list"
  pd_kills :: int
  pd_deaths :: int
  pd_currentStreak :: int
  pd_akCount :: int

record RecentEvent =
  re_id :: int
  re_killer :: wstr
  re_dead :: wstr
  re_time :: dword
  re_timeText :: wstr
  re_triggerSide :: int
  re_killerIdx :: int
  re_deadIdx :: int
  re_killerTeam :: int
  re_deadTeam :: int
  re_redScoreDelta :: int
  re_blueScoreDelta :: int
  re_akDelta :: int
  re_statsApplied :: bool
  re_undone :: bool
  re_status :: wstr
  re_ocrSummary :: wstr
  re_candidateSummary :: wstr
  re_algorithmName :: wstr
  re_snapshotPath :: wstr
  re_cloudSynced :: bool
  re_readOnly :: bool

text \<open>The values a new event starts from; the program leaves the time unset.\<close>

definition new_event :: "dword \<Rightarrow> RecentEvent" where
  "new_event now = \<lparr>re_id = 0, re_killer = [], re_dead = [], re_time = now, re_timeText = [], re_triggerSide = - 1,
     re_killerIdx = - 1, re_deadIdx = - 1, re_killerTeam = - 1, re_deadTeam = - 1, re_redScoreDelta = 0,
     re_blueScoreDelta = 0, re_akDelta = 0, re_statsApplied = False, re_undone = False, re_status = [],
     re_ocrSummary = [], re_candidateSummary = [], re_algorithmName = [], re_snapshotPath = [],
     re_cloudSynced = False, re_readOnly = False\<rparr>"

record MatchHistoryEntry =
  he_id :: u64
  he_label :: wstr
  he_source :: wstr
  he_timeText :: wstr
  he_detail :: wstr
  he_beforeSnapshot :: bytes
  he_afterSnapshot :: bytes

record match =
  mt_players :: "PlayerData list"
  mt_totalScoreRed :: int
  mt_totalScoreBlue :: int
  mt_lastKillerTeam :: int
  mt_pendingTeamScoreWin :: bool
  mt_redPickFirst :: bool
  mt_flipSides :: bool
  mt_outputSeatLabel :: bool
  mt_recentEvents :: "RecentEvent list"
  mt_eventBoundary :: int
  mt_mutationEpoch :: u64
  mt_historyReady :: bool
  mt_historyApplying :: bool
  mt_mutationPending :: bool
  mt_pendingLabel :: wstr
  mt_pendingSource :: wstr
  mt_history :: "MatchHistoryEntry list"
  mt_historyCursor :: nat
  mt_historyNextId :: u64
  mt_historyMaxSteps :: int
  mt_observedSnapshot :: bytes
  mt_syncPending :: json
  mt_syncBaseline :: json
  mt_syncApplied :: json
  mt_syncBackup :: json
  mt_syncBackupAvailable :: bool
  mt_syncBackupBoundary :: int
  mt_explicitOcrPayload :: bytes
  mt_realtimeFollowing :: bool
  mt_aliasDB :: "wstr \<Rightarrow> wstr option"
  mt_pendingDeleteMains :: "wstr list"
  mt_libraryStore :: bool
  mt_preferLocalAliases :: bool
  mt_librarySnapshot :: "snapshot option"

definition on_seat :: "int \<Rightarrow> (PlayerData \<Rightarrow> PlayerData) \<Rightarrow> match \<Rightarrow> match" where
  "on_seat i f m = m\<lparr>mt_players := (mt_players m)[nat i := f (mt_players m ! nat i)]\<rparr>"

definition on_all_seats :: "(PlayerData \<Rightarrow> PlayerData) \<Rightarrow> match \<Rightarrow> match" where
  "on_all_seats f m = m\<lparr>mt_players := map f (mt_players m)\<rparr>"

subsection \<open>The mark of a change\<close>

definition default_label :: wstr where "default_label = [0x6BD4, 0x8D5B, 0x72B6, 0x6001, 0x53D8, 0x66F4]"
definition default_source :: wstr where "default_source = [0x672C, 0x673A]"

definition or_default :: "wstr \<Rightarrow> wstr \<Rightarrow> wstr" where
  "or_default s d = (if s \<noteq> [] then s else d)"

text \<open>The epoch stops at the largest number; the first mark since the last observation names the change.\<close>

definition MarkMatchMutation :: "wstr \<Rightarrow> wstr \<Rightarrow> match \<Rightarrow> match" where
  "MarkMatchMutation label source m =
     (let m = m\<lparr>mt_mutationEpoch := (if mt_mutationEpoch m = - 1 then - 1 else mt_mutationEpoch m + 1)\<rparr> in
      if mt_historyApplying m \<or> \<not> mt_historyReady m then m
      else if mt_mutationPending m then m
      else m\<lparr>mt_mutationPending := True, mt_pendingLabel := or_default label default_label,
             mt_pendingSource := or_default source default_source\<rparr>)"

subsection \<open>Snapshots\<close>

definition jint :: "int \<Rightarrow> json" where "jint n = JInt (word_of_int n)"

definition jtext :: "match_env \<Rightarrow> wstr \<Rightarrow> json" where
  "jtext env s = JStr (DnfJsonUtf8 (me_to_utf8 env) s)"

definition seat_json :: "match_env \<Rightarrow> PlayerData \<Rightarrow> json" where
  "seat_json env p = make_object
     [(ascii ''team'', jint (pd_team p)), (ascii ''name'', jtext env (pd_name p)),
      (ascii ''aliases'', JArr (map (\<lambda>a. jtext env (ad_name a)) (pd_aliases p))),
      (ascii ''kills'', jint (pd_kills p)), (ascii ''deaths'', jint (pd_deaths p)),
      (ascii ''akCount'', jint (pd_akCount p)), (ascii ''currentStreak'', jint (pd_currentStreak p))]"

definition recent_json :: "match_env \<Rightarrow> RecentEvent \<Rightarrow> json" where
  "recent_json env e = make_object
     [(ascii ''time'', jtext env (re_timeText e)), (ascii ''killer'', jtext env (re_killer e)),
      (ascii ''dead'', jtext env (re_dead e)), (ascii ''status'', jtext env (re_status e))]"

text \<open>The ten latest events, the latest first.\<close>

definition team_fields :: "match_env \<Rightarrow> match \<Rightarrow> (bytes \<times> json) list" where
  "team_fields env m =
     [(ascii ''version'', jint 1), (ascii ''redScore'', jint (mt_totalScoreRed m)),
      (ascii ''blueScore'', jint (mt_totalScoreBlue m)),
      (ascii ''redPickMode'', JStr (ascii (if mt_redPickFirst m then ''first'' else ''second''))),
      (ascii ''isFlipped'', JBool (mt_flipSides m)),
      (ascii ''outputSeatLabelToKillFile'', JBool (mt_outputSeatLabel m)),
      (ascii ''lastKillerTeam'', jint (mt_lastKillerTeam m)),
      (ascii ''players'', JArr (map (seat_json env) (mt_players m))),
      (ascii ''recentEvents'', JArr (map (recent_json env) (take 10 (rev (mt_recentEvents m)))))]"

definition team_snapshot :: "match_env \<Rightarrow> match \<Rightarrow> json" where
  "team_snapshot env m = make_object (team_fields env m)"

text \<open>\<open>None\<close> is the exception of the printer.\<close>

definition BuildTeamSyncSnapshotPayloadUnlocked :: "match_env \<Rightarrow> match \<Rightarrow> bytes option" where
  "BuildTeamSyncSnapshotPayloadUnlocked env m = me_dump env (team_snapshot env m)"

definition history_event_json :: "match_env \<Rightarrow> RecentEvent \<Rightarrow> json" where
  "history_event_json env e = make_object
     [(ascii ''id'', jint (re_id e)), (ascii ''killer'', jtext env (re_killer e)), (ascii ''dead'', jtext env (re_dead e)),
      (ascii ''time'', JUInt (ucast (re_time e))), (ascii ''timeText'', jtext env (re_timeText e)),
      (ascii ''triggerSide'', jint (re_triggerSide e)), (ascii ''killerIdx'', jint (re_killerIdx e)),
      (ascii ''deadIdx'', jint (re_deadIdx e)), (ascii ''killerTeam'', jint (re_killerTeam e)),
      (ascii ''deadTeam'', jint (re_deadTeam e)), (ascii ''redScoreDelta'', jint (re_redScoreDelta e)),
      (ascii ''blueScoreDelta'', jint (re_blueScoreDelta e)), (ascii ''akDelta'', jint (re_akDelta e)),
      (ascii ''statsApplied'', JBool (re_statsApplied e)), (ascii ''undone'', JBool (re_undone e)),
      (ascii ''status'', jtext env (re_status e)), (ascii ''ocrSummary'', jtext env (re_ocrSummary e)),
      (ascii ''candidateSummary'', jtext env (re_candidateSummary e)),
      (ascii ''algorithmName'', jtext env (re_algorithmName e)), (ascii ''snapshotPath'', jtext env (re_snapshotPath e)),
      (ascii ''cloudSynced'', JBool (re_cloudSynced e)), (ascii ''readOnly'', JBool (re_readOnly e))]"

text \<open>Setting a member of an object.\<close>

fun json_set :: "bytes \<Rightarrow> json \<Rightarrow> json \<Rightarrow> json" where
  "json_set k v (JObj kvs) = JObj (insert_key k v kvs)"
| "json_set k v j = j"

definition last_events :: "nat \<Rightarrow> RecentEvent list \<Rightarrow> RecentEvent list" where
  "last_events n es = drop (length es - n) es"

definition add_history_fields :: "match_env \<Rightarrow> match \<Rightarrow> json \<Rightarrow> json" where
  "add_history_fields env m snapshot =
     json_set (ascii ''historyRecentEvents'') (JArr (map (history_event_json env) (last_events 100 (mt_recentEvents m))))
       (json_set (ascii ''historyTeamSyncEventBoundaryId'') (jint (mt_eventBoundary m))
         (json_set (ascii ''historyPendingTeamScoreWin'') (JBool (mt_pendingTeamScoreWin m))
           (json_set (ascii ''historyVersion'') (jint 1) snapshot)))"

text \<open>
  The snapshot of the history is built from the printed and parsed team snapshot; one that does not parse to
  an object gives the empty text.
\<close>

definition BuildMatchHistorySnapshotPayloadUnlocked :: "match_env \<Rightarrow> match \<Rightarrow> bytes option" where
  "BuildMatchHistorySnapshotPayloadUnlocked env m =
     (case BuildTeamSyncSnapshotPayloadUnlocked env m of
        None \<Rightarrow> None
      | Some payload \<Rightarrow>
          (case me_parse env payload of
             Some snapshot \<Rightarrow>
               if is_object snapshot then me_dump env (add_history_fields env m snapshot) else Some []
           | None \<Rightarrow> Some []))"

text \<open>An automatic recognition is announced to the cloud with the snapshot it led to.\<close>

definition label_ocr :: wstr where "label_ocr = [0x81EA, 0x52A8, 0x8BC6, 0x522B]"
definition source_ocr :: wstr where "source_ocr = [0x004F, 0x0043, 0x0052]"

definition MarkCloudMatchOcrStateChanged :: "bytes \<Rightarrow> match \<Rightarrow> match" where
  "MarkCloudMatchOcrStateChanged payload m =
     (MarkMatchMutation label_ocr source_ocr m)\<lparr>mt_explicitOcrPayload := payload\<rparr>"

end
