(* ===== verification/MatchScoring.thy ===== *)
theory MatchScoring
  imports MatchState
begin

text \<open>
  What changes the score of the match: the verdict of a recognition (the end of
  \<^verbatim>\<open>DoRetryMatchingTask\<close>), the banner of a won round, undoing and restoring a recognised kill
  (\<^verbatim>\<open>ToggleReviewEvent\<close>), the events received from the cloud, the reset of the statistics, and the commands
  of the tree's menu. Logging and the refresh of windows are left out; what is told to the other components
  (the identity caches, the trigger timers) is a list of effects. The verdict is what the recognition found,
  with the texts it made for the log of the event.
\<close>

datatype match_effect = NotifyKillConfirmed int wstr | NotifyRoundReset | StartRoundEndCooldown | PostUpdateUi

definition DUP_KILL_LIMIT_TIME :: dword where "DUP_KILL_LIMIT_TIME = 60000"

definition unknown_name :: wstr where "unknown_name = [0x5F85, 0x5B9A]"
definition status_counted :: wstr where "status_counted = [0x5DF2, 0x8BA1, 0x5165]"
definition status_undone :: wstr where "status_undone = [0x5DF2, 0x64A4, 0x9500]"
definition status_same_team :: wstr where "status_same_team = [0x961F, 0x4F0D, 0x51B2, 0x7A81]"
definition status_blocked :: wstr where "status_blocked = [0x51B7, 0x5374, 0x62E6, 0x622A]"
definition status_unresolved :: wstr where "status_unresolved = [0x672A, 0x5224, 0x5B9A]"

text \<open>
  Seats are numbered from 0, and -1 stands for none, as for the teams. \<open>vd_cancelled k\<close> is the answer of the
  k-th of the three tests whether the monitoring was stopped in the meantime.
\<close>

record verdict =
  vd_killerResolved :: bool
  vd_deadResolved :: bool
  vd_finalKillerName :: wstr
  vd_finalDeadName :: wstr
  vd_killerBestP :: int
  vd_deadBestP :: int
  vd_lockedKillerTeam :: int
  vd_lockedDeadTeam :: int
  vd_triggerSide :: int
  vd_reviewEventId :: int
  vd_now :: dword
  vd_timeText :: wstr
  vd_algorithmName :: wstr
  vd_ocrSummary :: wstr
  vd_scoreSummary :: wstr
  vd_sameTeamLog :: wstr
  vd_cancelled :: "nat \<Rightarrow> bool"

subsection \<open>The verdict of a recognition\<close>

datatype duplicate = DiedTwice | KilledTwice | ResultScreen

definition conflict_reason :: "duplicate \<Rightarrow> wstr" where
  "conflict_reason d = (case d of
      DiedTwice \<Rightarrow> [0x6781, 0x77ED, 0x65F6, 0x95F4, 0x5185, 0x91CD, 0x590D, 0x6B7B, 0x4EA1]
    | KilledTwice \<Rightarrow> [0x6781, 0x77ED, 0x65F6, 0x95F4, 0x5185, 0x91CD, 0x590D, 0x51FB, 0x6740, 0x540C, 0x4E00, 0x4EBA]
    | ResultScreen \<Rightarrow> [0x7ED3, 0x7B97, 0x753B, 0x9762, 0x5E72, 0x6270, 0xFF0C, 0x5224, 0x5B9A, 0x4E3A, 0x5927, 0x0058, 0x91CD, 0x73B0])"

text \<open>The three rules on one counted event of the last minute; the tick difference wraps.\<close>

definition duplicate_of :: "verdict \<Rightarrow> RecentEvent \<Rightarrow> duplicate option" where
  "duplicate_of v e =
     (if \<not> re_statsApplied e \<or> re_undone e then None
      else if vd_now v - re_time e < DUP_KILL_LIMIT_TIME then
        if vd_deadResolved v \<and> vd_finalDeadName v \<noteq> unknown_name \<and> re_dead e = vd_finalDeadName v then Some DiedTwice
        else if vd_killerResolved v \<and> vd_deadResolved v \<and> vd_finalKillerName v \<noteq> unknown_name \<and>
          vd_finalDeadName v \<noteq> unknown_name \<and> re_killer e = vd_finalKillerName v \<and> re_dead e = vd_finalDeadName v
          then Some KilledTwice
        else if vd_killerResolved v \<and> \<not> vd_deadResolved v \<and> vd_finalKillerName v \<noteq> unknown_name \<and>
          re_killer e = vd_finalKillerName v then Some ResultScreen
        else None
      else None)"

fun find_duplicate :: "verdict \<Rightarrow> RecentEvent list \<Rightarrow> duplicate option" where
  "find_duplicate v [] = None"
| "find_duplicate v (e # es) = (case duplicate_of v e of Some d \<Rightarrow> Some d | None \<Rightarrow> find_duplicate v es)"

text \<open>The event a verdict leaves, before the statistics are filled in.\<close>

definition review_event :: "verdict \<Rightarrow> bool \<Rightarrow> wstr \<Rightarrow> wstr \<Rightarrow> RecentEvent" where
  "review_event v counted status summary =
     (new_event (vd_now v))\<lparr>re_id := vd_reviewEventId v, re_killer := vd_finalKillerName v, re_dead := vd_finalDeadName v,
        re_timeText := vd_timeText v, re_triggerSide := vd_triggerSide v, re_killerIdx := vd_killerBestP v,
        re_deadIdx := vd_deadBestP v, re_killerTeam := vd_lockedKillerTeam v, re_deadTeam := vd_lockedDeadTeam v,
        re_statsApplied := counted, re_status := status, re_ocrSummary := vd_ocrSummary v,
        re_candidateSummary := summary, re_algorithmName := vd_algorithmName v\<rparr>"

definition unresolved_event :: "verdict \<Rightarrow> RecentEvent" where
  "unresolved_event v =
     (new_event (vd_now v))\<lparr>re_id := vd_reviewEventId v, re_killer := unknown_name, re_dead := unknown_name,
        re_timeText := vd_timeText v, re_triggerSide := vd_triggerSide v, re_statsApplied := False,
        re_status := status_unresolved, re_ocrSummary := vd_ocrSummary v, re_candidateSummary := vd_scoreSummary v,
        re_algorithmName := vd_algorithmName v\<rparr>"

definition AddReviewEventUnlocked :: "RecentEvent \<Rightarrow> match \<Rightarrow> match" where
  "AddReviewEventUnlocked e m = m\<lparr>mt_recentEvents := mt_recentEvents m @ [e]\<rparr>"

definition clear_streak :: "PlayerData \<Rightarrow> PlayerData" where
  "clear_streak p = p\<lparr>pd_currentStreak := 0\<rparr>"

text \<open>A fourth kill in a row is an AK, and the row begins anew.\<close>

definition credit_kill :: "PlayerData \<Rightarrow> PlayerData" where
  "credit_kill p =
     (let p = p\<lparr>pd_kills := pd_kills p + 1, pd_currentStreak := pd_currentStreak p + 1\<rparr> in
      if pd_currentStreak p = 4 then p\<lparr>pd_akCount := pd_akCount p + 1, pd_currentStreak := 0\<rparr> else p)"

definition makes_ak :: "PlayerData \<Rightarrow> bool" where "makes_ak p \<longleftrightarrow> pd_currentStreak p + 1 = 4"

definition credit_death :: "PlayerData \<Rightarrow> PlayerData" where
  "credit_death p = p\<lparr>pd_deaths := pd_deaths p + 1\<rparr>"

definition has_killer :: "verdict \<Rightarrow> bool" where "has_killer v \<longleftrightarrow> vd_killerResolved v \<and> vd_killerBestP v \<noteq> - 1"
definition has_dead :: "verdict \<Rightarrow> bool" where "has_dead v \<longleftrightarrow> vd_deadResolved v \<and> vd_deadBestP v \<noteq> - 1"

definition score_kill :: "verdict \<Rightarrow> match \<Rightarrow> match" where
  "score_kill v m =
     (if has_killer v then
        let k = nat (vd_killerBestP v); killer = mt_players m ! k in
        m\<lparr>mt_players := (map clear_streak (mt_players m))[k := credit_kill killer], mt_lastKillerTeam := pd_team killer\<rparr>
      else m)"

definition applyScores :: "verdict \<Rightarrow> match \<Rightarrow> RecentEvent \<Rightarrow> match \<times> RecentEvent" where
  "applyScores v m e =
     (let ak = has_killer v \<and> makes_ak (mt_players m ! nat (vd_killerBestP v));
          m = score_kill v m;
          m = (if has_dead v then on_seat (vd_deadBestP v) credit_death m else m)
      in (m, if ak then e\<lparr>re_akDelta := 1\<rparr> else e))"

definition kill_effects :: "verdict \<Rightarrow> match \<Rightarrow> match_effect list" where
  "kill_effects v m =
     (if has_dead v then [NotifyKillConfirmed (pd_team (mt_players m ! nat (vd_deadBestP v))) (vd_finalDeadName v)]
      else if has_killer v \<and> (vd_triggerSide v = 0 \<or> vd_triggerSide v = 1)
        then [NotifyKillConfirmed (if vd_triggerSide v = 0 then 1 else 0) []]
      else [])"

text \<open>A round that was seen to end is scored with the next counted kill.\<close>

definition settle_round :: "match \<Rightarrow> RecentEvent \<Rightarrow> match \<times> RecentEvent \<times> match_effect list" where
  "settle_round m e =
     (if mt_pendingTeamScoreWin m then
        let team = mt_lastKillerTeam m;
            m = m\<lparr>mt_pendingTeamScoreWin := False,
              mt_totalScoreRed := (if team = 0 then mt_totalScoreRed m + 1 else mt_totalScoreRed m),
              mt_totalScoreBlue := (if team = 1 then mt_totalScoreBlue m + 1 else mt_totalScoreBlue m)\<rparr>;
            e = (if team = 0 then e\<lparr>re_redScoreDelta := 1\<rparr> else if team = 1 then e\<lparr>re_blueScoreDelta := 1\<rparr> else e)
        in (on_all_seats clear_streak m, e, [StartRoundEndCooldown, NotifyRoundReset])
      else (m, e, []))"

definition announce_ocr :: "match_env \<Rightarrow> match \<Rightarrow> match" where
  "announce_ocr env m =
     (case BuildTeamSyncSnapshotPayloadUnlocked env m of
        Some payload \<Rightarrow> MarkCloudMatchOcrStateChanged payload m
      | None \<Rightarrow> m)"

definition count_kill :: "match_env \<Rightarrow> verdict \<Rightarrow> match \<Rightarrow> match \<times> match_effect list" where
  "count_kill env v m =
     (let (m, e) = applyScores v m (review_event v True status_counted (vd_scoreSummary v));
          confirmed = kill_effects v m;
          (m, e, settled) = settle_round m e
      in (announce_ocr env (AddReviewEventUnlocked e m), confirmed @ settled @ [PostUpdateUi]))"

definition same_team :: "verdict \<Rightarrow> bool" where
  "same_team v \<longleftrightarrow> vd_killerResolved v \<and> vd_deadResolved v \<and> vd_lockedKillerTeam v \<noteq> - 1 \<and>
     vd_lockedDeadTeam v \<noteq> - 1 \<and> vd_lockedKillerTeam v = vd_lockedDeadTeam v"

definition DoRetryMatchingTask_settle :: "match_env \<Rightarrow> verdict \<Rightarrow> match \<Rightarrow> match \<times> match_effect list" where
  "DoRetryMatchingTask_settle env v m =
     (if vd_cancelled v 0 then (m, [])
      else if same_team v then
        (AddReviewEventUnlocked (review_event v False status_same_team (vd_sameTeamLog v)) m, [PostUpdateUi])
      else if vd_killerResolved v \<or> vd_deadResolved v then
        if vd_cancelled v 1 then (m, [])
        else
          (case find_duplicate v (mt_recentEvents m) of
             Some d \<Rightarrow>
               (AddReviewEventUnlocked (review_event v False status_blocked (conflict_reason d)) m, [PostUpdateUi])
           | None \<Rightarrow> if vd_cancelled v 2 then (m, []) else count_kill env v m)
      else (AddReviewEventUnlocked (unresolved_event v) m, [PostUpdateUi]))"

subsection \<open>The banner of a won round\<close>

definition settle_banner :: "int \<Rightarrow> match \<Rightarrow> match" where
  "settle_banner bannerTeam m =
     on_all_seats clear_streak
       (m\<lparr>mt_lastKillerTeam := bannerTeam,
          mt_totalScoreRed := (if bannerTeam = 0 then mt_totalScoreRed m + 1 else mt_totalScoreRed m),
          mt_totalScoreBlue := (if bannerTeam = 0 then mt_totalScoreBlue m else mt_totalScoreBlue m + 1),
          mt_pendingTeamScoreWin := False\<rparr>)"

subsection \<open>Undoing and restoring a recognised kill\<close>

definition seat_ok :: "int \<Rightarrow> bool" where "seat_ok i \<longleftrightarrow> 0 \<le> i \<and> i < 8"

definition label_undo_kill :: wstr where "label_undo_kill = [0x64A4, 0x9500, 0x8BC6, 0x522B, 0x6218, 0x7EE9]"
definition label_restore_kill :: wstr where "label_restore_kill = [0x6062, 0x590D, 0x8BC6, 0x522B, 0x6218, 0x7EE9]"
definition source_review :: wstr where "source_review = [0x590D, 0x76D8]"

definition take_kill :: "bool \<Rightarrow> PlayerData \<Rightarrow> PlayerData" where
  "take_kill ak p =
     (if pd_kills p > 0 then
        p\<lparr>pd_kills := pd_kills p - 1,
          pd_akCount := (if ak \<and> pd_akCount p > 0 then pd_akCount p - 1 else pd_akCount p)\<rparr>
      else p)"

definition take_death :: "PlayerData \<Rightarrow> PlayerData" where
  "take_death p = (if pd_deaths p > 0 then p\<lparr>pd_deaths := pd_deaths p - 1\<rparr> else p)"

definition undo_scores :: "RecentEvent \<Rightarrow> match \<Rightarrow> match" where
  "undo_scores e m =
     (let m = (if seat_ok (re_killerIdx e) then on_seat (re_killerIdx e) (take_kill (re_akDelta e > 0)) m else m);
          m = (if seat_ok (re_deadIdx e) then on_seat (re_deadIdx e) take_death m else m)
      in m\<lparr>mt_totalScoreRed := (if re_redScoreDelta e > 0 \<and> mt_totalScoreRed m > 0 then mt_totalScoreRed m - 1 else mt_totalScoreRed m),
           mt_totalScoreBlue := (if re_blueScoreDelta e > 0 \<and> mt_totalScoreBlue m > 0 then mt_totalScoreBlue m - 1 else mt_totalScoreBlue m)\<rparr>)"

definition give_kill :: "bool \<Rightarrow> PlayerData \<Rightarrow> PlayerData" where
  "give_kill ak p = p\<lparr>pd_kills := pd_kills p + 1, pd_akCount := (if ak then pd_akCount p + 1 else pd_akCount p)\<rparr>"

definition restore_scores :: "RecentEvent \<Rightarrow> match \<Rightarrow> match" where
  "restore_scores e m =
     (let m = (if seat_ok (re_killerIdx e) then
                 (let m = on_seat (re_killerIdx e) (give_kill (re_akDelta e > 0)) m
                  in m\<lparr>mt_lastKillerTeam := pd_team (mt_players m ! nat (re_killerIdx e))\<rparr>)
               else m);
          m = (if seat_ok (re_deadIdx e) then on_seat (re_deadIdx e) credit_death m else m)
      in m\<lparr>mt_totalScoreRed := (if re_redScoreDelta e > 0 then mt_totalScoreRed m + 1 else mt_totalScoreRed m),
           mt_totalScoreBlue := (if re_blueScoreDelta e > 0 then mt_totalScoreBlue m + 1 else mt_totalScoreBlue m)\<rparr>)"

definition set_event :: "nat \<Rightarrow> RecentEvent \<Rightarrow> match \<Rightarrow> match" where
  "set_event i e m = m\<lparr>mt_recentEvents := (mt_recentEvents m)[i := e]\<rparr>"

definition event_index :: "int \<Rightarrow> RecentEvent list \<Rightarrow> nat option" where
  "event_index eventId es =
     (let i = length (takeWhile (\<lambda>e. re_id e \<noteq> eventId) es) in if i < length es then Some i else None)"

definition ToggleReviewEvent :: "int \<Rightarrow> match \<Rightarrow> bool \<times> match" where
  "ToggleReviewEvent eventId m =
     (if eventId \<le> mt_eventBoundary m then (False, m)
      else
        (case event_index eventId (mt_recentEvents m) of
           None \<Rightarrow> (False, m)
         | Some i \<Rightarrow>
             let e = mt_recentEvents m ! i in
             if re_readOnly e then (False, m)
             else if \<not> re_undone e \<and> re_statsApplied e then
               (True, set_event i (e\<lparr>re_undone := True, re_statsApplied := False, re_status := status_undone\<rparr>)
                  (undo_scores e (MarkMatchMutation label_undo_kill source_review m)))
             else if re_undone e \<and> \<not> re_statsApplied e then
               (True, set_event i (e\<lparr>re_undone := False, re_statsApplied := True, re_status := status_counted\<rparr>)
                  (restore_scores e (MarkMatchMutation label_restore_kill source_review m)))
             else (False, m)))"

end
