(* ===== verification/MatchEdits.thy ===== *)
theory MatchEdits
  imports MatchScoring
begin

text \<open>
  What the user and the cloud change in the match: events received from the cloud
  (\<^verbatim>\<open>MergeCloudRecentEvents\<close>), the reset of the statistics (\<^verbatim>\<open>OnBnClickedReset\<close>, \<^verbatim>\<open>cmd_reset_stats\<close>), the
  display direction (\<^verbatim>\<open>OnBnClickedFlip\<close>), and the commands of the tree's menu (\<^verbatim>\<open>OnRClickTree\<close>). Saving of
  files and the refresh of windows are left out.
\<close>

subsection \<open>Events from the cloud\<close>

record incoming_event =
  ie_timeText :: wstr
  ie_killer :: wstr
  ie_dead :: wstr
  ie_status :: wstr

definition read_incoming :: "match_env \<Rightarrow> json \<Rightarrow> incoming_event option" where
  "read_incoming env j =
     (case (json_find (ascii ''time'') j, json_find (ascii ''killer'') j, json_find (ascii ''dead'') j, json_find (ascii ''status'') j) of
        (Some t, Some k, Some d, Some s) \<Rightarrow>
          if is_object j \<and> is_string t \<and> is_string k \<and> is_string d \<and> is_string s then
            let read = (\<lambda>v. DnfTrimmedCopy (me_space env) (CA2W (me_from_utf8 env) (get_string v)));
                e = \<lparr>ie_timeText = read t, ie_killer = read k, ie_dead = read d, ie_status = read s\<rparr>
            in if ie_timeText e = [] \<and> ie_killer e = [] \<and> ie_dead e = [] then None else Some e
          else None
      | _ \<Rightarrow> None)"

definition cloud_event :: "wstr \<Rightarrow> dword \<Rightarrow> incoming_event \<Rightarrow> RecentEvent" where
  "cloud_event source now i =
     (new_event now)\<lparr>re_killer := ie_killer i, re_dead := ie_dead i, re_timeText := ie_timeText i, re_cloudSynced := True,
        re_status := [0x8FDC, 0x7AEF, 0x540C, 0x6B65, 0xFF1A] @ or_default (ie_status i) [0x4EC5, 0x5C55, 0x793A],
        re_algorithmName := [0x4E91, 0x7AEF, 0x6700, 0x8FD1, 0x8BC6, 0x522B],
        re_candidateSummary := [0x6765, 0x81EA, 0x4E3B, 0x64AD, 0x3010] @ source @ [0x3011, 0x7684, 0x5386, 0x53F2, 0x8BB0, 0x5F55, 0xFF0C, 0x4EC5, 0x7528, 0x4E8E, 0x5C55, 0x793A, 0xFF0C, 0x4E0D, 0x4FEE, 0x6539, 0x672C, 0x5730, 0x6218, 0x7EE9, 0x3002]\<rparr>"

text \<open>An event that the list already holds is passed over; \<open>tick n\<close> is the clock when the list has n events.\<close>

fun add_incoming :: "wstr \<Rightarrow> (nat \<Rightarrow> dword) \<Rightarrow> incoming_event list \<Rightarrow> RecentEvent list \<Rightarrow> RecentEvent list" where
  "add_incoming source tick [] es = es"
| "add_incoming source tick (i # rest) es =
     (if list_ex (\<lambda>e. re_timeText e = ie_timeText i \<and> re_killer e = ie_killer i \<and> re_dead e = ie_dead i) es
      then add_incoming source tick rest es
      else add_incoming source tick rest (es @ [cloud_event source (tick (length es)) i]))"

definition remote_streamer :: wstr where "remote_streamer = [0x8FDC, 0x7AEF, 0x4E3B, 0x64AD]"

fun keep_some :: "'a option list \<Rightarrow> 'a list" where
  "keep_some [] = []"
| "keep_some (None # xs) = keep_some xs"
| "keep_some (Some x # xs) = x # keep_some xs"

definition MergeCloudRecentEvents :: "match_env \<Rightarrow> (nat \<Rightarrow> dword) \<Rightarrow> json \<Rightarrow> bytes \<Rightarrow> match \<Rightarrow> bool \<times> match" where
  "MergeCloudRecentEvents env tick events sourceName m =
     (if \<not> is_array events \<or> elements events = [] then (False, m)
      else
        let source = or_default (DnfTrimmedCopy (me_space env) (CA2W (me_from_utf8 env) sourceName)) remote_streamer;
            incoming = keep_some (map (read_incoming env) (rev (elements events)));
            es = add_incoming source tick incoming (mt_recentEvents m)
        in if incoming = [] then (False, m)
           else (length es \<noteq> length (mt_recentEvents m), m\<lparr>mt_recentEvents := es\<rparr>))"

subsection \<open>Resetting the statistics\<close>

definition clear_stats :: "PlayerData \<Rightarrow> PlayerData" where
  "clear_stats p = p\<lparr>pd_kills := 0, pd_deaths := 0, pd_currentStreak := 0, pd_akCount := 0\<rparr>"

text \<open>The part of \<^verbatim>\<open>ResetMatchCooldownState\<close> that belongs to the match.\<close>

definition ResetMatchCooldownState :: "match \<Rightarrow> match" where
  "ResetMatchCooldownState m = m\<lparr>mt_pendingTeamScoreWin := False, mt_lastKillerTeam := - 1\<rparr>"

definition zero_match :: "match \<Rightarrow> match" where
  "zero_match m =
     (ResetMatchCooldownState (m\<lparr>mt_totalScoreRed := 0, mt_totalScoreBlue := 0, mt_recentEvents := []\<rparr>))\<lparr>mt_redPickFirst := False\<rparr>"

text \<open>The button, when the user confirms.\<close>

definition OnBnClickedReset :: "match \<Rightarrow> match \<times> match_effect list" where
  "OnBnClickedReset m =
     (if mt_realtimeFollowing m then (m, [])
      else (on_all_seats clear_stats (zero_match (MarkMatchMutation [0x624B, 0x52A8, 0x91CD, 0x7F6E, 0x6218, 0x7EE9] default_source m)), [NotifyRoundReset]))"

definition empty_seat :: "nat \<Rightarrow> PlayerData \<Rightarrow> PlayerData" where
  "empty_seat i p = p\<lparr>pd_name := [], pd_aliases := [], pd_team := (if i < 4 then 0 else 1)\<rparr>"

definition map_seats :: "(nat \<Rightarrow> PlayerData \<Rightarrow> PlayerData) \<Rightarrow> match \<Rightarrow> match" where
  "map_seats f m = m\<lparr>mt_players := map2 f [0..<length (mt_players m)] (mt_players m)\<rparr>"

text \<open>The command of the web page.\<close>

definition cmd_reset_stats :: "bool \<Rightarrow> match \<Rightarrow> match \<times> match_effect list" where
  "cmd_reset_stats clearPlayers m =
     (let m = zero_match (MarkMatchMutation (if clearPlayers then [0x624B, 0x52A8, 0x6E05, 0x7A7A, 0x9009, 0x624B] else [0x624B, 0x52A8, 0x91CD, 0x7F6E, 0x6218, 0x7EE9]) default_source m);
          m = (if clearPlayers then map_seats empty_seat m else m)
      in (on_all_seats clear_stats m, [NotifyRoundReset, PostUpdateUi]))"

subsection \<open>The display direction\<close>

definition label_flip :: wstr where "label_flip = [0x7FFB, 0x8F6C, 0x7EA2, 0x84DD, 0x663E, 0x793A]"

definition OnBnClickedFlip :: "bool \<Rightarrow> match \<Rightarrow> match" where
  "OnBnClickedFlip flipSides m =
     (let m = (if mt_realtimeFollowing m then
                 if mt_historyReady m \<and> \<not> mt_historyApplying m \<and> \<not> mt_mutationPending m
                 then m\<lparr>mt_pendingLabel := label_flip, mt_pendingSource := default_source, mt_mutationPending := True\<rparr>
                 else m
               else MarkMatchMutation label_flip default_source m)
      in m\<lparr>mt_flipSides := flipSides\<rparr>)"

subsection \<open>The menu of the tree\<close>

text \<open>The commands with their numbers; a team is 0 for red and 1 for blue, a seat its number.\<close>

datatype menu_command =
    ScoreUp int | ScoreZero int | ScoreDown int | ClearTeam int
  | MoveSeat nat int
  | SwapSeats nat nat
  | RemoveAlias nat nat
  | DeleteAlias nat nat
  | DeletePlayer nat
  | KillUp nat | KillDown nat | DeathUp nat | DeathDown nat | AkUp nat | AkDown nat
  | ClearStats nat

fun history_label :: "menu_command \<Rightarrow> wstr" where
  "history_label (KillUp _) = [0x624B, 0x52A8, 0x4FEE, 0x6539, 0x51FB, 0x6740]"
| "history_label (KillDown _) = [0x624B, 0x52A8, 0x4FEE, 0x6539, 0x51FB, 0x6740]"
| "history_label (DeathUp _) = [0x624B, 0x52A8, 0x4FEE, 0x6539, 0x6B7B, 0x4EA1]"
| "history_label (DeathDown _) = [0x624B, 0x52A8, 0x4FEE, 0x6539, 0x6B7B, 0x4EA1]"
| "history_label (AkUp _) = [0x624B, 0x52A8, 0x4FEE, 0x6539, 0x0041, 0x004B]"
| "history_label (AkDown _) = [0x624B, 0x52A8, 0x4FEE, 0x6539, 0x0041, 0x004B]"
| "history_label (ClearStats _) = [0x624B, 0x52A8, 0x91CD, 0x7F6E, 0x9009, 0x624B, 0x6218, 0x7EE9]"
| "history_label (ScoreUp _) = [0x624B, 0x52A8, 0x4FEE, 0x6539, 0x6BD4, 0x5206]"
| "history_label (ScoreZero _) = [0x624B, 0x52A8, 0x4FEE, 0x6539, 0x6BD4, 0x5206]"
| "history_label (ScoreDown _) = [0x624B, 0x52A8, 0x4FEE, 0x6539, 0x6BD4, 0x5206]"
| "history_label (ClearTeam _) = [0x624B, 0x52A8, 0x6E05, 0x7A7A, 0x9009, 0x624B]"
| "history_label (DeletePlayer _) = [0x624B, 0x52A8, 0x6E05, 0x7A7A, 0x9009, 0x624B]"
| "history_label (MoveSeat _ _) = [0x624B, 0x52A8, 0x79FB, 0x52A8, 0x9009, 0x624B]"
| "history_label (SwapSeats _ _) = [0x624B, 0x52A8, 0x8C03, 0x6574, 0x9009, 0x4EBA, 0x987A, 0x5E8F]"
| "history_label (RemoveAlias _ _) = [0x624B, 0x52A8, 0x4FEE, 0x6539, 0x6E38, 0x620F, 0x0049, 0x0044]"
| "history_label (DeleteAlias _ _) = [0x624B, 0x52A8, 0x4FEE, 0x6539, 0x6E38, 0x620F, 0x0049, 0x0044]"

definition add_score :: "int \<Rightarrow> int \<Rightarrow> match \<Rightarrow> match" where
  "add_score team n m =
     (if team = 0 then m\<lparr>mt_totalScoreRed := mt_totalScoreRed m + n\<rparr> else m\<lparr>mt_totalScoreBlue := mt_totalScoreBlue m + n\<rparr>)"

text \<open>Emptying a seat leaves its team and its current row of kills.\<close>

definition vacate :: "PlayerData \<Rightarrow> PlayerData" where
  "vacate p = p\<lparr>pd_name := [], pd_aliases := [], pd_kills := 0, pd_deaths := 0, pd_akCount := 0\<rparr>"

definition team_seats :: "int \<Rightarrow> nat list" where
  "team_seats team = (if team = 0 then [0..<4] else [4..<8])"

definition free_seat :: "match_env \<Rightarrow> int \<Rightarrow> match \<Rightarrow> nat option" where
  "free_seat env team m =
     (case filter (\<lambda>i. DnfTrimmedCopy (me_space env) (pd_name (mt_players m ! i)) = []) (team_seats team) of
        [] \<Rightarrow> None | i # _ \<Rightarrow> Some i)"

definition move_seat :: "match_env \<Rightarrow> nat \<Rightarrow> int \<Rightarrow> match \<Rightarrow> match" where
  "move_seat env p targetTeam m =
     (case free_seat env targetTeam m of
        Some t \<Rightarrow>
          let ps = (mt_players m)[t := (mt_players m ! p)\<lparr>pd_team := targetTeam\<rparr>]
          in m\<lparr>mt_players := ps[p := vacate (ps ! p)]\<rparr>
      | None \<Rightarrow> m)"

definition swap_seats :: "nat \<Rightarrow> nat \<Rightarrow> match \<Rightarrow> match" where
  "swap_seats p t m =
     (let ps = mt_players m; cur = ps ! p; target = ps ! t
      in m\<lparr>mt_players := ps[t := cur\<lparr>pd_team := pd_team target\<rparr>, p := target\<lparr>pd_team := pd_team cur\<rparr>]\<rparr>)"

definition erase_at :: "nat \<Rightarrow> 'a list \<Rightarrow> 'a list" where
  "erase_at i xs = take i xs @ drop (Suc i) xs"

definition erase_alias :: "nat \<Rightarrow> PlayerData \<Rightarrow> PlayerData" where
  "erase_alias a p = p\<lparr>pd_aliases := erase_at a (pd_aliases p)\<rparr>"

definition forget_alias :: "match_env \<Rightarrow> nat \<Rightarrow> nat \<Rightarrow> match \<Rightarrow> match" where
  "forget_alias env p a m =
     (let mainName = pd_name (mt_players m ! p); subName = ad_name (pd_aliases (mt_players m ! p) ! a) in
      case mt_aliasDB m mainName of
        None \<Rightarrow> m
      | Some dbAliases \<Rightarrow>
          let rest = DnfRemoveAliasFromAliasListString (me_space env) dbAliases subName in
          if rest = [] \<and> \<not> mt_libraryStore m then
            m\<lparr>mt_aliasDB := (mt_aliasDB m)(mainName := None),
              mt_pendingDeleteMains := (if mainName \<in> set (mt_pendingDeleteMains m) then mt_pendingDeleteMains m
                else mt_pendingDeleteMains m @ [mainName])\<rparr>
          else m\<lparr>mt_aliasDB := (mt_aliasDB m)(mainName \<mapsto> rest)\<rparr>)"

abbreviation at_seat :: "nat \<Rightarrow> (PlayerData \<Rightarrow> PlayerData) \<Rightarrow> match \<Rightarrow> match" where
  "at_seat p f m \<equiv> on_seat (int p) f m"

fun run_command :: "match_env \<Rightarrow> menu_command \<Rightarrow> match \<Rightarrow> match" where
  "run_command env (ScoreUp team) m = add_score team 1 m"
| "run_command env (ScoreDown team) m = add_score team (- 1) m"
| "run_command env (ScoreZero team) m =
     (if team = 0 then m\<lparr>mt_totalScoreRed := 0\<rparr> else m\<lparr>mt_totalScoreBlue := 0\<rparr>)"
| "run_command env (ClearTeam team) m = fold (\<lambda>i. at_seat i vacate) (team_seats team) m"
| "run_command env (MoveSeat p team) m = move_seat env p team m"
| "run_command env (SwapSeats p t) m = swap_seats p t m"
| "run_command env (RemoveAlias p a) m = at_seat p (erase_alias a) m"
| "run_command env (DeleteAlias p a) m = at_seat p (erase_alias a) (forget_alias env p a m)"
| "run_command env (DeletePlayer p) m = at_seat p vacate m"
| "run_command env (KillUp p) m = at_seat p (\<lambda>d. d\<lparr>pd_kills := pd_kills d + 1\<rparr>) m"
| "run_command env (KillDown p) m = at_seat p (\<lambda>d. if pd_kills d > 0 then d\<lparr>pd_kills := pd_kills d - 1\<rparr> else d) m"
| "run_command env (DeathUp p) m = at_seat p credit_death m"
| "run_command env (DeathDown p) m = at_seat p take_death m"
| "run_command env (AkUp p) m = at_seat p (\<lambda>d. d\<lparr>pd_akCount := pd_akCount d + 1\<rparr>) m"
| "run_command env (AkDown p) m = at_seat p (\<lambda>d. if pd_akCount d > 0 then d\<lparr>pd_akCount := pd_akCount d - 1\<rparr> else d) m"
| "run_command env (ClearStats p) m = at_seat p (\<lambda>d. d\<lparr>pd_kills := 0, pd_deaths := 0, pd_akCount := 0\<rparr>) m"

text \<open>The library refuses its edits while it is busy; a viewer who follows another match edits nothing.\<close>

definition OnRClickTree :: "match_env \<Rightarrow> bool \<Rightarrow> menu_command \<Rightarrow> match \<Rightarrow> match" where
  "OnRClickTree env libraryBusy cmd m =
     (if (case cmd of DeleteAlias _ _ \<Rightarrow> libraryBusy | _ \<Rightarrow> False) then m
      else if mt_realtimeFollowing m then m
      else run_command env cmd (MarkMatchMutation (history_label cmd) default_source m))"

end
