(* ===== verification/MatchLedger.thy ===== *)
theory MatchLedger
  imports MatchEdits
begin

text \<open>
  The statistics as a ledger of the recognised kills: whatever verdicts arrive, whatever is undone and
  restored, and whatever the cloud sends for display, every counter of every seat is the sum over the events
  that count.
\<close>

definition counted :: "RecentEvent \<Rightarrow> bool" where
  "counted e \<longleftrightarrow> re_statsApplied e \<and> \<not> re_undone e"

definition tally :: "(RecentEvent \<Rightarrow> int) \<Rightarrow> RecentEvent list \<Rightarrow> int" where
  "tally f es = sum_list (map f (filter counted es))"

definition kill_of :: "nat \<Rightarrow> RecentEvent \<Rightarrow> int" where "kill_of i e = (if re_killerIdx e = int i then 1 else 0)"
definition death_of :: "nat \<Rightarrow> RecentEvent \<Rightarrow> int" where "death_of i e = (if re_deadIdx e = int i then 1 else 0)"
definition ak_of :: "nat \<Rightarrow> RecentEvent \<Rightarrow> int" where "ak_of i e = (if re_killerIdx e = int i then re_akDelta e else 0)"

lemma tally_append [simp]: "tally f (es @ [e]) = tally f es + (if counted e then f e else 0)"
  by (simp add: tally_def)

lemma tally_Nil [simp]: "tally f [] = 0" by (simp add: tally_def)

lemma tally_split: "i < length es \<Longrightarrow> tally f es = tally f (take i es) + (if counted (es ! i) then f (es ! i) else 0) + tally f (drop (Suc i) es)"
  by (subst (1) id_take_nth_drop, assumption) (simp add: tally_def)

lemma tally_update:
  assumes "i < length es"
  shows "tally f (es[i := e]) =
     tally f es - (if counted (es ! i) then f (es ! i) else 0) + (if counted e then f e else 0)"
  using assms by (simp add: tally_split [of i es] tally_split [of i "es[i := e]"])

lemma tally_nonneg: "(\<And>e. e \<in> set es \<Longrightarrow> 0 \<le> f e) \<Longrightarrow> 0 \<le> tally f es"
  unfolding tally_def by (rule sum_list_nonneg) auto

lemma tally_ge:
  assumes "i < length es" "counted (es ! i)" "\<And>e. e \<in> set es \<Longrightarrow> 0 \<le> f e"
  shows "f (es ! i) \<le> tally f es"
proof -
  have "0 \<le> tally f (take i es)" "0 \<le> tally f (drop (Suc i) es)"
    using assms(3) by (auto intro!: tally_nonneg dest: in_set_takeD in_set_dropD)
  then show ?thesis using assms(1,2) tally_split [of i es f] by simp
qed

subsection \<open>The events that verdicts leave\<close>

definition verdict_ok :: "verdict \<Rightarrow> bool" where
  "verdict_ok v \<longleftrightarrow> - 1 \<le> vd_killerBestP v \<and> vd_killerBestP v < 8 \<and> - 1 \<le> vd_deadBestP v \<and> vd_deadBestP v < 8 \<and>
     (if vd_killerResolved v then True else vd_killerBestP v = - 1) \<and>
     (if vd_deadResolved v then True else vd_deadBestP v = - 1)"

definition event_ok :: "RecentEvent \<Rightarrow> bool" where
  "event_ok e \<longleftrightarrow> - 1 \<le> re_killerIdx e \<and> re_killerIdx e < 8 \<and> - 1 \<le> re_deadIdx e \<and> re_deadIdx e < 8 \<and>
     re_akDelta e \<in> {0, 1} \<and> re_redScoreDelta e \<in> {0, 1} \<and> re_blueScoreDelta e \<in> {0, 1}"

text \<open>The counters, less what they started from, are the sums over the counted events.\<close>

record offsets =
  of_kills :: "nat \<Rightarrow> int"
  of_deaths :: "nat \<Rightarrow> int"
  of_aks :: "nat \<Rightarrow> int"
  of_red :: int
  of_blue :: int

definition offsets_ok :: "offsets \<Rightarrow> bool" where
  "offsets_ok b \<longleftrightarrow> (\<forall>i. 0 \<le> of_kills b i \<and> 0 \<le> of_deaths b i \<and> 0 \<le> of_aks b i) \<and> 0 \<le> of_red b \<and> 0 \<le> of_blue b"

definition seats_balanced :: "offsets \<Rightarrow> PlayerData list \<Rightarrow> RecentEvent list \<Rightarrow> bool" where
  "seats_balanced b ps es \<longleftrightarrow> length ps = 8 \<and>
     (\<forall>i<8. pd_kills (ps ! i) = of_kills b i + tally (kill_of i) es \<and>
            pd_deaths (ps ! i) = of_deaths b i + tally (death_of i) es \<and>
            pd_akCount (ps ! i) = of_aks b i + tally (ak_of i) es)"

definition balanced :: "offsets \<Rightarrow> match \<Rightarrow> bool" where
  "balanced b m \<longleftrightarrow> offsets_ok b \<and> list_all event_ok (mt_recentEvents m) \<and>
     seats_balanced b (mt_players m) (mt_recentEvents m) \<and>
     mt_totalScoreRed m = of_red b + tally re_redScoreDelta (mt_recentEvents m) \<and>
     mt_totalScoreBlue m = of_blue b + tally re_blueScoreDelta (mt_recentEvents m)"

text \<open>The fields the ledger does not look at.\<close>

lemma mark_fields [simp]:
  "mt_players (MarkMatchMutation l s m) = mt_players m"
  "mt_recentEvents (MarkMatchMutation l s m) = mt_recentEvents m"
  "mt_totalScoreRed (MarkMatchMutation l s m) = mt_totalScoreRed m"
  "mt_totalScoreBlue (MarkMatchMutation l s m) = mt_totalScoreBlue m"
  "mt_lastKillerTeam (MarkMatchMutation l s m) = mt_lastKillerTeam m"
  "mt_pendingTeamScoreWin (MarkMatchMutation l s m) = mt_pendingTeamScoreWin m"
  "mt_eventBoundary (MarkMatchMutation l s m) = mt_eventBoundary m"
  by (simp_all add: MarkMatchMutation_def Let_def)

lemma announce_fields [simp]:
  "mt_players (announce_ocr env m) = mt_players m"
  "mt_recentEvents (announce_ocr env m) = mt_recentEvents m"
  "mt_totalScoreRed (announce_ocr env m) = mt_totalScoreRed m"
  "mt_totalScoreBlue (announce_ocr env m) = mt_totalScoreBlue m"
  by (simp_all add: announce_ocr_def MarkCloudMatchOcrStateChanged_def split: option.splits)

lemma balanced_cong:
  assumes "mt_players m' = mt_players m" "mt_recentEvents m' = mt_recentEvents m"
    "mt_totalScoreRed m' = mt_totalScoreRed m" "mt_totalScoreBlue m' = mt_totalScoreBlue m"
  shows "balanced b m' = balanced b m"
  using assms by (simp add: balanced_def)

lemma balanced_silent_event:
  assumes "balanced b m" "event_ok e" "\<not> counted e"
  shows "balanced b (AddReviewEventUnlocked e m)"
  using assms by (simp add: balanced_def seats_balanced_def AddReviewEventUnlocked_def)

text \<open>Clearing the rows of kills moves no counter.\<close>

lemma clear_streak_fields [simp]:
  "pd_kills (clear_streak p) = pd_kills p" "pd_deaths (clear_streak p) = pd_deaths p"
  "pd_akCount (clear_streak p) = pd_akCount p" "pd_team (clear_streak p) = pd_team p"
  "pd_name (clear_streak p) = pd_name p" "pd_aliases (clear_streak p) = pd_aliases p"
  "pd_currentStreak (clear_streak p) = 0"
  by (simp_all add: clear_streak_def)

lemma seats_clear [simp]: "seats_balanced b (map clear_streak ps) es = seats_balanced b ps es"
  by (auto simp: seats_balanced_def)

lemma credit_kill_fields [simp]:
  "pd_kills (credit_kill p) = pd_kills p + 1" "pd_deaths (credit_kill p) = pd_deaths p"
  "pd_akCount (credit_kill p) = pd_akCount p + (if makes_ak p then 1 else 0)"
  "pd_currentStreak (credit_kill p) = (if makes_ak p then 0 else pd_currentStreak p + 1)"
  "pd_team (credit_kill p) = pd_team p"
  by (simp_all add: credit_kill_def makes_ak_def Let_def)

lemma credit_death_fields [simp]:
  "pd_kills (credit_death p) = pd_kills p" "pd_deaths (credit_death p) = pd_deaths p + 1"
  "pd_akCount (credit_death p) = pd_akCount p" "pd_currentStreak (credit_death p) = pd_currentStreak p"
  by (simp_all add: credit_death_def)

lemma take_death_fields [simp]:
  "pd_kills (take_death p) = pd_kills p" "pd_akCount (take_death p) = pd_akCount p"
  "pd_currentStreak (take_death p) = pd_currentStreak p"
  "pd_deaths p > 0 \<Longrightarrow> pd_deaths (take_death p) = pd_deaths p - 1"
  by (simp_all add: take_death_def)

lemma take_kill_fields [simp]:
  "pd_deaths (take_kill ak p) = pd_deaths p" "pd_currentStreak (take_kill ak p) = pd_currentStreak p"
  "pd_kills p > 0 \<Longrightarrow> pd_kills (take_kill ak p) = pd_kills p - 1"
  "pd_kills p > 0 \<Longrightarrow> (ak \<Longrightarrow> pd_akCount p > 0) \<Longrightarrow> pd_akCount (take_kill ak p) = pd_akCount p - (if ak then 1 else 0)"
  by (auto simp: take_kill_def)

lemma give_kill_fields [simp]:
  "pd_kills (give_kill ak p) = pd_kills p + 1" "pd_deaths (give_kill ak p) = pd_deaths p"
  "pd_akCount (give_kill ak p) = pd_akCount p + (if ak then 1 else 0)"
  "pd_currentStreak (give_kill ak p) = pd_currentStreak p"
  by (simp_all add: give_kill_def)

lemma on_seat_fields [simp]:
  "mt_recentEvents (on_seat i f m) = mt_recentEvents m" "mt_totalScoreRed (on_seat i f m) = mt_totalScoreRed m"
  "mt_totalScoreBlue (on_seat i f m) = mt_totalScoreBlue m" "mt_eventBoundary (on_seat i f m) = mt_eventBoundary m"
  "mt_pendingTeamScoreWin (on_seat i f m) = mt_pendingTeamScoreWin m"
  "mt_lastKillerTeam (on_seat i f m) = mt_lastKillerTeam m"
  "length (mt_players (on_seat i f m)) = length (mt_players m)"
  by (simp_all add: on_seat_def)

lemma on_seat_nth:
  "0 \<le> i \<Longrightarrow> j < length (mt_players m) \<Longrightarrow>
     mt_players (on_seat i f m) ! j = (if i = int j then f (mt_players m ! j) else mt_players m ! j)"
  by (auto simp: on_seat_def nth_list_update)

subsection \<open>A counted kill\<close>

lemma verdict_seats:
  assumes "verdict_ok v"
  shows "has_killer v \<longleftrightarrow> vd_killerBestP v \<noteq> - 1" "has_dead v \<longleftrightarrow> vd_deadBestP v \<noteq> - 1"
    "has_killer v \<Longrightarrow> 0 \<le> vd_killerBestP v \<and> vd_killerBestP v < 8"
    "has_dead v \<Longrightarrow> 0 \<le> vd_deadBestP v \<and> vd_deadBestP v < 8"
  using assms by (auto simp: verdict_ok_def has_killer_def has_dead_def split: if_splits)

lemma score_kill_fields [simp]:
  "mt_recentEvents (score_kill v m) = mt_recentEvents m" "mt_totalScoreRed (score_kill v m) = mt_totalScoreRed m"
  "mt_totalScoreBlue (score_kill v m) = mt_totalScoreBlue m"
  "mt_pendingTeamScoreWin (score_kill v m) = mt_pendingTeamScoreWin m"
  "length (mt_players (score_kill v m)) = length (mt_players m)"
  by (simp_all add: score_kill_def Let_def)

lemma score_kill_nth:
  assumes "verdict_ok v" "length (mt_players m) = 8" "i < 8"
  shows "mt_players (score_kill v m) ! i =
     (if vd_killerBestP v = - 1 then mt_players m ! i
      else if vd_killerBestP v = int i then credit_kill (mt_players m ! i) else clear_streak (mt_players m ! i))"
  using assms verdict_seats [OF assms(1)] by (auto simp: score_kill_def Let_def nth_list_update)

lemma applyScores_parts:
  "applyScores v m e =
     (if has_dead v then on_seat (vd_deadBestP v) credit_death (score_kill v m) else score_kill v m,
      if has_killer v \<and> makes_ak (mt_players m ! nat (vd_killerBestP v)) then e\<lparr>re_akDelta := 1\<rparr> else e)"
  by (simp add: applyScores_def Let_def)

lemma applyScores_seat:
  assumes "verdict_ok v" "length (mt_players m) = 8" "i < 8" "applyScores v m e = (m', e')" "re_akDelta e = 0"
  shows "pd_kills (mt_players m' ! i) = pd_kills (mt_players m ! i) + (if vd_killerBestP v = int i then 1 else 0)"
    "pd_deaths (mt_players m' ! i) = pd_deaths (mt_players m ! i) + (if vd_deadBestP v = int i then 1 else 0)"
    "pd_akCount (mt_players m' ! i) = pd_akCount (mt_players m ! i) + (if vd_killerBestP v = int i then re_akDelta e' else 0)"
  using assms verdict_seats [OF assms(1)] score_kill_nth [OF assms(1-3)]
  by (auto simp: applyScores_parts on_seat_nth split: if_splits)

lemma applyScores_rest:
  assumes "applyScores v m e = (m', e')"
  shows "mt_recentEvents m' = mt_recentEvents m" "mt_totalScoreRed m' = mt_totalScoreRed m"
    "mt_totalScoreBlue m' = mt_totalScoreBlue m" "length (mt_players m') = length (mt_players m)"
    "mt_pendingTeamScoreWin m' = mt_pendingTeamScoreWin m"
    "re_killerIdx e' = re_killerIdx e" "re_deadIdx e' = re_deadIdx e" "re_redScoreDelta e' = re_redScoreDelta e"
    "re_blueScoreDelta e' = re_blueScoreDelta e" "counted e' = counted e" "re_dead e' = re_dead e" "re_killer e' = re_killer e"
    "re_akDelta e = 0 \<Longrightarrow> re_akDelta e' \<in> {0, 1}"
  using assms by (auto simp: applyScores_parts counted_def split: if_splits)

lemma settle_round_rest:
  assumes "settle_round m e = (m', e', fx)"
  shows "mt_recentEvents m' = mt_recentEvents m"
    "mt_players m' = (if mt_pendingTeamScoreWin m then map clear_streak (mt_players m) else mt_players m)"
    "re_killerIdx e' = re_killerIdx e" "re_deadIdx e' = re_deadIdx e" "re_akDelta e' = re_akDelta e"
    "counted e' = counted e" "re_dead e' = re_dead e" "re_killer e' = re_killer e"
    "re_redScoreDelta e = 0 \<Longrightarrow> mt_totalScoreRed m' = mt_totalScoreRed m + re_redScoreDelta e' \<and> re_redScoreDelta e' \<in> {0, 1}"
    "re_blueScoreDelta e = 0 \<Longrightarrow> mt_totalScoreBlue m' = mt_totalScoreBlue m + re_blueScoreDelta e' \<and> re_blueScoreDelta e' \<in> {0, 1}"
  using assms by (auto simp: settle_round_def Let_def on_all_seats_def counted_def split: if_splits)

lemma review_event_fields [simp]:
  "re_killerIdx (review_event v c s t) = vd_killerBestP v" "re_deadIdx (review_event v c s t) = vd_deadBestP v"
  "re_akDelta (review_event v c s t) = 0" "re_redScoreDelta (review_event v c s t) = 0"
  "re_blueScoreDelta (review_event v c s t) = 0" "re_statsApplied (review_event v c s t) = c"
  "re_undone (review_event v c s t) = False" "re_killer (review_event v c s t) = vd_finalKillerName v"
  "re_dead (review_event v c s t) = vd_finalDeadName v" "re_time (review_event v c s t) = vd_now v"
  by (simp_all add: review_event_def new_event_def)

lemma review_event_ok: "verdict_ok v \<Longrightarrow> event_ok (review_event v c s t)"
  by (simp add: verdict_ok_def event_ok_def)

lemma unresolved_event_fields [simp]: "event_ok (unresolved_event v)" "\<not> counted (unresolved_event v)" "\<not> re_statsApplied (unresolved_event v)"
  by (simp_all add: unresolved_event_def new_event_def event_ok_def counted_def)

lemma count_kill_balanced:
  assumes "balanced b m" "verdict_ok v"
  shows "balanced b (fst (count_kill env v m))"
proof -
  let ?e0 = "review_event v True status_counted (vd_scoreSummary v)"
  obtain m1 e1 where a: "applyScores v m ?e0 = (m1, e1)" by (metis surj_pair)
  obtain m2 e2 fx where s: "settle_round m1 e1 = (m2, e2, fx)" by (metis prod_cases3)
  have len: "length (mt_players m) = 8" using assms(1) by (simp add: balanced_def seats_balanced_def)
  note ra = applyScores_rest [OF a] and rs = settle_round_rest [OF s]
  have c0: "counted ?e0" by (simp add: counted_def)
  have e2: "re_killerIdx e2 = vd_killerBestP v" "re_deadIdx e2 = vd_deadBestP v" "re_akDelta e2 = re_akDelta e1" "counted e2"
    "re_akDelta e1 \<in> {0, 1}" "re_redScoreDelta e1 = 0" "re_blueScoreDelta e1 = 0"
    using ra rs c0 by simp_all
  have ok: "event_ok e2" using assms(2) e2 rs by (simp add: event_ok_def verdict_ok_def)
  have seat: "pd_kills (mt_players m2 ! i) = pd_kills (mt_players m ! i) + kill_of i e2"
    "pd_deaths (mt_players m2 ! i) = pd_deaths (mt_players m ! i) + death_of i e2"
    "pd_akCount (mt_players m2 ! i) = pd_akCount (mt_players m ! i) + ak_of i e2" if "i < 8" for i
    using applyScores_seat [OF assms(2) len that a] that ra(4) len e2 rs(2)
    by (simp_all add: kill_of_def death_of_def ak_of_def split: if_splits)
  have "fst (count_kill env v m) = announce_ocr env (AddReviewEventUnlocked e2 m2)"
    by (simp add: count_kill_def a s)
  then show ?thesis
    using assms(1) seat e2 ok ra rs len
    by (simp add: balanced_def seats_balanced_def AddReviewEventUnlocked_def)
qed

lemma settle_balanced:
  assumes "balanced b m" "verdict_ok v"
  shows "balanced b (fst (DoRetryMatchingTask_settle env v m))"
  using assms count_kill_balanced [OF assms] review_event_ok [OF assms(2)]
  by (auto simp: DoRetryMatchingTask_settle_def counted_def intro!: balanced_silent_event split: option.splits)

subsection \<open>Undoing and restoring\<close>

lemma undo_scores_fields [simp]: "mt_recentEvents (undo_scores e m) = mt_recentEvents m"
  by (simp add: undo_scores_def Let_def)

lemma restore_scores_fields [simp]: "mt_recentEvents (restore_scores e m) = mt_recentEvents m"
  by (simp add: restore_scores_def Let_def)

lemma seat_of_event: "event_ok e \<Longrightarrow> i < 8 \<Longrightarrow> re_killerIdx e = int i \<Longrightarrow> seat_ok (re_killerIdx e)"
  "event_ok e \<Longrightarrow> i < 8 \<Longrightarrow> re_deadIdx e = int i \<Longrightarrow> seat_ok (re_deadIdx e)"
  by (simp_all add: seat_ok_def)

text \<open>What has been counted can be taken back: no counter is at zero when a counted event names its seat.\<close>

definition covers :: "RecentEvent \<Rightarrow> match \<Rightarrow> bool" where
  "covers e m \<longleftrightarrow> length (mt_players m) = 8 \<and> event_ok e \<and>
     (\<forall>i<8. kill_of i e \<le> pd_kills (mt_players m ! i) \<and> death_of i e \<le> pd_deaths (mt_players m ! i) \<and>
            ak_of i e \<le> pd_akCount (mt_players m ! i)) \<and>
     re_redScoreDelta e \<le> mt_totalScoreRed m \<and> re_blueScoreDelta e \<le> mt_totalScoreBlue m"

lemma undo_scores_seat:
  assumes "covers e m" "i < 8"
  shows "pd_kills (mt_players (undo_scores e m) ! i) = pd_kills (mt_players m ! i) - kill_of i e"
    "pd_deaths (mt_players (undo_scores e m) ! i) = pd_deaths (mt_players m ! i) - death_of i e"
    "pd_akCount (mt_players (undo_scores e m) ! i) = pd_akCount (mt_players m ! i) - ak_of i e"
proof -
  have c: "event_ok e" "length (mt_players m) = 8" "kill_of i e \<le> pd_kills (mt_players m ! i)"
    "death_of i e \<le> pd_deaths (mt_players m ! i)" "ak_of i e \<le> pd_akCount (mt_players m ! i)"
    using assms by (simp_all add: covers_def)
  show "pd_kills (mt_players (undo_scores e m) ! i) = pd_kills (mt_players m ! i) - kill_of i e"
    using c assms(2) seat_of_event(1) [OF c(1) assms(2)]
    by (auto simp: undo_scores_def Let_def on_seat_nth seat_ok_def kill_of_def)
  show "pd_deaths (mt_players (undo_scores e m) ! i) = pd_deaths (mt_players m ! i) - death_of i e"
    using c assms(2) seat_of_event(2) [OF c(1) assms(2)]
    by (auto simp: undo_scores_def Let_def on_seat_nth seat_ok_def death_of_def)
  show "pd_akCount (mt_players (undo_scores e m) ! i) = pd_akCount (mt_players m ! i) - ak_of i e"
  proof (cases "re_killerIdx e = int i")
    case True
    then have "seat_ok (re_killerIdx e)" using seat_of_event(1) [OF c(1) assms(2)] by simp
    moreover have "pd_kills (mt_players m ! i) > 0" using c(3) True by (simp add: kill_of_def)
    moreover have "re_akDelta e \<in> {0, 1}" using c(1) by (simp add: event_ok_def)
    ultimately show ?thesis using True c assms(2)
      by (auto simp: undo_scores_def Let_def on_seat_nth seat_ok_def ak_of_def)
  next
    case False
    then show ?thesis using c assms(2) by (auto simp: undo_scores_def Let_def on_seat_nth seat_ok_def ak_of_def)
  qed
qed

lemma undo_scores_score:
  assumes "covers e m"
  shows "mt_totalScoreRed (undo_scores e m) = mt_totalScoreRed m - re_redScoreDelta e"
    "mt_totalScoreBlue (undo_scores e m) = mt_totalScoreBlue m - re_blueScoreDelta e"
    "length (mt_players (undo_scores e m)) = 8"
proof -
  have c: "event_ok e" "length (mt_players m) = 8" "re_redScoreDelta e \<le> mt_totalScoreRed m"
    "re_blueScoreDelta e \<le> mt_totalScoreBlue m"
    using assms by (simp_all add: covers_def)
  show "mt_totalScoreRed (undo_scores e m) = mt_totalScoreRed m - re_redScoreDelta e"
    using c by (auto simp: undo_scores_def Let_def event_ok_def)
  show "mt_totalScoreBlue (undo_scores e m) = mt_totalScoreBlue m - re_blueScoreDelta e"
    using c by (auto simp: undo_scores_def Let_def event_ok_def)
  show "length (mt_players (undo_scores e m)) = 8" using c by (simp add: undo_scores_def Let_def)
qed

lemma restore_scores_seat:
  assumes "event_ok e" "length (mt_players m) = 8" "i < 8"
  shows "pd_kills (mt_players (restore_scores e m) ! i) = pd_kills (mt_players m ! i) + kill_of i e"
    "pd_deaths (mt_players (restore_scores e m) ! i) = pd_deaths (mt_players m ! i) + death_of i e"
    "pd_akCount (mt_players (restore_scores e m) ! i) = pd_akCount (mt_players m ! i) + ak_of i e"
proof -
  have ak: "re_akDelta e = 0 \<or> re_akDelta e = 1" using assms(1) by (simp add: event_ok_def)
  note s = seat_of_event [OF assms(1,3)]
  show "pd_kills (mt_players (restore_scores e m) ! i) = pd_kills (mt_players m ! i) + kill_of i e"
    using assms s(1) by (auto simp: restore_scores_def Let_def on_seat_nth seat_ok_def kill_of_def)
  show "pd_deaths (mt_players (restore_scores e m) ! i) = pd_deaths (mt_players m ! i) + death_of i e"
    using assms s(2) by (auto simp: restore_scores_def Let_def on_seat_nth seat_ok_def death_of_def)
  show "pd_akCount (mt_players (restore_scores e m) ! i) = pd_akCount (mt_players m ! i) + ak_of i e"
    using assms s(1) ak by (auto simp: restore_scores_def Let_def on_seat_nth seat_ok_def ak_of_def)
qed

lemma restore_scores_score:
  assumes "event_ok e"
  shows "mt_totalScoreRed (restore_scores e m) = mt_totalScoreRed m + re_redScoreDelta e"
    "mt_totalScoreBlue (restore_scores e m) = mt_totalScoreBlue m + re_blueScoreDelta e"
    "length (mt_players (restore_scores e m)) = length (mt_players m)"
  using assms by (auto simp: restore_scores_def Let_def event_ok_def)

lemma event_ok_nonneg: "event_ok e \<Longrightarrow> 0 \<le> kill_of i e \<and> 0 \<le> death_of i e \<and> 0 \<le> ak_of i e \<and> 0 \<le> re_redScoreDelta e \<and> 0 \<le> re_blueScoreDelta e"
  by (auto simp: event_ok_def kill_of_def death_of_def ak_of_def)

lemma balanced_covers:
  assumes "balanced b m" "i < length (mt_recentEvents m)" "counted (mt_recentEvents m ! i)"
  shows "covers (mt_recentEvents m ! i) m"
proof -
  have b: "offsets_ok b" "list_all event_ok (mt_recentEvents m)" "seats_balanced b (mt_players m) (mt_recentEvents m)"
    "mt_totalScoreRed m = of_red b + tally re_redScoreDelta (mt_recentEvents m)"
    "mt_totalScoreBlue m = of_blue b + tally re_blueScoreDelta (mt_recentEvents m)"
    using assms(1) by (simp_all add: balanced_def)
  have nn: "e \<in> set (mt_recentEvents m) \<Longrightarrow> event_ok e" for e using b(2) by (simp add: list_all_iff)
  have ge: "f (mt_recentEvents m ! i) \<le> tally f (mt_recentEvents m)" if "\<And>e. event_ok e \<Longrightarrow> 0 \<le> f e" for f
    using tally_ge [OF assms(2,3)] nn that by blast
  have off: "0 \<le> of_kills b j" "0 \<le> of_deaths b j" "0 \<le> of_aks b j" "0 \<le> of_red b" "0 \<le> of_blue b" for j
    using b(1) by (simp_all add: offsets_ok_def)
  have g1: "kill_of j (mt_recentEvents m ! i) \<le> tally (kill_of j) (mt_recentEvents m)" for j
    by (rule ge) (simp add: event_ok_nonneg)
  have g2: "death_of j (mt_recentEvents m ! i) \<le> tally (death_of j) (mt_recentEvents m)" for j
    by (rule ge) (simp add: event_ok_nonneg)
  have g3: "ak_of j (mt_recentEvents m ! i) \<le> tally (ak_of j) (mt_recentEvents m)" for j
    by (rule ge) (simp add: event_ok_nonneg)
  have g4: "re_redScoreDelta (mt_recentEvents m ! i) \<le> tally re_redScoreDelta (mt_recentEvents m)"
    by (rule ge) (simp add: event_ok_nonneg)
  have g5: "re_blueScoreDelta (mt_recentEvents m ! i) \<le> tally re_blueScoreDelta (mt_recentEvents m)"
    by (rule ge) (simp add: event_ok_nonneg)
  have seats: "kill_of j (mt_recentEvents m ! i) \<le> pd_kills (mt_players m ! j) \<and>
      death_of j (mt_recentEvents m ! i) \<le> pd_deaths (mt_players m ! j) \<and>
      ak_of j (mt_recentEvents m ! i) \<le> pd_akCount (mt_players m ! j)" if "j < 8" for j
    using b(3) that off g1 [of j] g2 [of j] g3 [of j] by (simp add: seats_balanced_def add_increasing)
  show ?thesis
    using b(3,4,5) seats off(4,5) g4 g5 nn nth_mem [OF assms(2)] by (simp add: covers_def seats_balanced_def)
qed

text \<open>One event of the list changes and the counters change by what it stood for.\<close>

lemma balanced_set_event:
  assumes "balanced b m" "i < length (mt_recentEvents m)" "event_ok e'"
    and same: "\<And>j. kill_of j e' = kill_of j e \<and> death_of j e' = death_of j e \<and> ak_of j e' = ak_of j e"
      "re_redScoreDelta e' = re_redScoreDelta e" "re_blueScoreDelta e' = re_blueScoreDelta e"
    and e: "e = mt_recentEvents m ! i" "counted e' \<noteq> counted e"
    and m': "mt_recentEvents m' = mt_recentEvents m" "length (mt_players m') = 8"
      "\<And>j. j < 8 \<Longrightarrow> pd_kills (mt_players m' ! j) = pd_kills (mt_players m ! j) + (if counted e' then kill_of j e else - kill_of j e)"
      "\<And>j. j < 8 \<Longrightarrow> pd_deaths (mt_players m' ! j) = pd_deaths (mt_players m ! j) + (if counted e' then death_of j e else - death_of j e)"
      "\<And>j. j < 8 \<Longrightarrow> pd_akCount (mt_players m' ! j) = pd_akCount (mt_players m ! j) + (if counted e' then ak_of j e else - ak_of j e)"
      "mt_totalScoreRed m' = mt_totalScoreRed m + (if counted e' then re_redScoreDelta e else - re_redScoreDelta e)"
      "mt_totalScoreBlue m' = mt_totalScoreBlue m + (if counted e' then re_blueScoreDelta e else - re_blueScoreDelta e)"
  shows "balanced b (set_event i e' m')"
proof -
  have t: "tally f ((mt_recentEvents m)[i := e']) = tally f (mt_recentEvents m) + (if counted e' then f e else - f e)"
    if "f e' = f e" for f
    using tally_update [OF assms(2), of f e'] e that by auto
  have "list_all event_ok ((mt_recentEvents m)[i := e'])"
    using assms(1,3) by (auto simp: balanced_def list_all_iff dest: set_update_subset_insert [THEN subsetD])
  then show ?thesis
    using assms(1) same t m' by (simp add: balanced_def seats_balanced_def set_event_def)
qed

lemma event_index_Some: "event_index eventId es = Some i \<Longrightarrow> i < length es \<and> re_id (es ! i) = eventId"
  unfolding event_index_def Let_def
  by (auto split: if_splits dest: nth_length_takeWhile)

lemma toggle_balanced:
  assumes "balanced b m"
  shows "balanced b (snd (ToggleReviewEvent eventId m))"
proof (cases "event_index eventId (mt_recentEvents m)")
  case (Some i)
  let ?e = "mt_recentEvents m ! i"
  have i: "i < length (mt_recentEvents m)" using event_index_Some [OF Some] by simp
  have ok: "event_ok ?e" using assms i by (simp add: balanced_def list_all_length)
  have len: "length (mt_players m) = 8" using assms by (simp add: balanced_def seats_balanced_def)
  have undo: "balanced b (set_event i (?e\<lparr>re_undone := True, re_statsApplied := False, re_status := status_undone\<rparr>)
      (undo_scores ?e (MarkMatchMutation l s m)))" if c: "counted ?e" for l s
  proof -
    have cov: "covers ?e (MarkMatchMutation l s m)" using balanced_covers [OF assms i c] by (simp add: covers_def)
    show ?thesis
      by (rule balanced_set_event [OF assms i, where e = ?e])
        (use ok c undo_scores_seat [OF cov] undo_scores_score [OF cov] in
          \<open>simp_all add: kill_of_def death_of_def ak_of_def event_ok_def counted_def\<close>)
  qed
  have restore: "balanced b (set_event i (?e\<lparr>re_undone := False, re_statsApplied := True, re_status := status_counted\<rparr>)
      (restore_scores ?e (MarkMatchMutation l s m)))" if c: "\<not> counted ?e" for l s
    by (rule balanced_set_event [OF assms i, where e = ?e])
      (use ok len c restore_scores_seat [OF ok, of "MarkMatchMutation l s m"] restore_scores_score [OF ok] in
        \<open>simp_all add: kill_of_def death_of_def ak_of_def event_ok_def counted_def\<close>)
  show ?thesis
    using assms Some undo restore by (simp add: ToggleReviewEvent_def Let_def counted_def)
qed (use assms in \<open>simp add: ToggleReviewEvent_def\<close>)

subsection \<open>Every operation keeps the ledger\<close>

lemma add_incoming_events:
  assumes "list_all event_ok es"
  shows "list_all event_ok (add_incoming source tick is es) \<and> tally f (add_incoming source tick is es) = tally f es"
  using assms
proof (induction source tick "is" es rule: add_incoming.induct)
  case (2 source tick i rest es)
  have "event_ok (cloud_event source t i) \<and> \<not> counted (cloud_event source t i)" for t
    by (simp add: cloud_event_def new_event_def event_ok_def counted_def)
  then show ?case using 2 by simp
qed simp

lemma cloud_balanced: "balanced b m \<Longrightarrow> balanced b (snd (MergeCloudRecentEvents env tick events source m))"
  using add_incoming_events [of "mt_recentEvents m"]
  by (auto simp: MergeCloudRecentEvents_def Let_def balanced_def seats_balanced_def)

definition add_banner :: "int \<Rightarrow> offsets \<Rightarrow> offsets" where
  "add_banner team b = (if team = 0 then b\<lparr>of_red := of_red b + 1\<rparr> else b\<lparr>of_blue := of_blue b + 1\<rparr>)"

lemma banner_balanced: "balanced b m \<Longrightarrow> balanced (add_banner team b) (settle_banner team m)"
  by (auto simp: settle_banner_def on_all_seats_def balanced_def offsets_ok_def seats_balanced_def add_banner_def)

datatype match_op =
    Verdict verdict
  | Toggle int
  | CloudEvents "nat \<Rightarrow> dword" json bytes
  | Banner int

fun do_op :: "match_env \<Rightarrow> match_op \<Rightarrow> match \<Rightarrow> match" where
  "do_op env (Verdict v) m = fst (DoRetryMatchingTask_settle env v m)"
| "do_op env (Toggle eventId) m = snd (ToggleReviewEvent eventId m)"
| "do_op env (CloudEvents tick events source) m = snd (MergeCloudRecentEvents env tick events source m)"
| "do_op env (Banner team) m = settle_banner team m"

fun op_ok :: "match_op \<Rightarrow> bool" where
  "op_ok (Verdict v) = verdict_ok v"
| "op_ok _ = True"

fun op_offsets :: "match_op \<Rightarrow> offsets \<Rightarrow> offsets" where
  "op_offsets (Banner team) b = add_banner team b"
| "op_offsets _ b = b"

lemma do_op_balanced: "balanced b m \<Longrightarrow> op_ok p \<Longrightarrow> balanced (op_offsets p b) (do_op env p m)"
  by (cases p) (simp_all add: settle_balanced toggle_balanced cloud_balanced banner_balanced)

lemma run_balanced:
  "balanced b m \<Longrightarrow> list_all op_ok ops \<Longrightarrow> balanced (fold op_offsets ops b) (fold (do_op env) ops m)"
  by (induction ops arbitrary: b m) (simp_all add: do_op_balanced)

definition no_offsets :: offsets where
  "no_offsets = \<lparr>of_kills = \<lambda>_. 0, of_deaths = \<lambda>_. 0, of_aks = \<lambda>_. 0, of_red = 0, of_blue = 0\<rparr>"

definition banners :: "bool \<Rightarrow> match_op list \<Rightarrow> nat" where
  "banners red ops = length (filter (\<lambda>p. case p of Banner team \<Rightarrow> (team = 0) = red | _ \<Rightarrow> False) ops)"

lemma banners_Cons:
  "banners red (p # ops) = (case p of Banner team \<Rightarrow> if (team = 0) = red then 1 else 0 | _ \<Rightarrow> 0) + banners red ops"
  by (simp add: banners_def split: match_op.splits)

lemma run_offsets:
  "of_kills (fold op_offsets ops b) = of_kills b" "of_deaths (fold op_offsets ops b) = of_deaths b"
  "of_aks (fold op_offsets ops b) = of_aks b" "of_red (fold op_offsets ops b) = of_red b + int (banners True ops)"
  "of_blue (fold op_offsets ops b) = of_blue b + int (banners False ops)"
proof (induction ops arbitrary: b)
  case (Cons p ops)
  { case 1 show ?case using Cons(1) by (cases p) (simp_all add: add_banner_def) }
  { case 2 show ?case using Cons(2) by (cases p) (simp_all add: add_banner_def) }
  { case 3 show ?case using Cons(3) by (cases p) (simp_all add: add_banner_def) }
  { case 4 show ?case using Cons(4) by (cases p) (simp_all add: add_banner_def banners_Cons) }
  { case 5 show ?case using Cons(5) by (cases p) (simp_all add: add_banner_def banners_Cons) }
qed (simp_all add: banners_def)

lemma reset_balanced:
  "length (mt_players m) = 8 \<Longrightarrow> balanced no_offsets (fst (cmd_reset_stats clearPlayers m))"
  by (simp add: cmd_reset_stats_def Let_def zero_match_def ResetMatchCooldownState_def on_all_seats_def map_seats_def
      clear_stats_def balanced_def offsets_ok_def no_offsets_def seats_balanced_def)


end
