(* ===== verification/MatchRules.thy ===== *)
theory MatchRules
  imports MatchLedger
begin

text \<open>
  The rules of the match: rows of kills and AKs, the double counting the recognition guards against, undoing
  and restoring as inverses, and what the edits of the seats do to them.
\<close>

subsection \<open>Examples\<close>

definition demo_env :: match_env where
  "demo_env = \<lparr>me_space = ascii_space, me_to_utf8 = map ucast, me_from_utf8 = map ucast, me_dump = (\<lambda>_. None),
     me_parse = (\<lambda>_. None), me_float_int = (\<lambda>_. 0)\<rparr>"

definition demo_seat :: "nat \<Rightarrow> PlayerData" where
  "demo_seat i = \<lparr>pd_name = [0x41 + of_nat i], pd_team = (if i < 4 then 0 else 1), pd_aliases = [], pd_kills = 0,
     pd_deaths = 0, pd_currentStreak = 0, pd_akCount = 0\<rparr>"

definition demo_match :: match where
  "demo_match = \<lparr>mt_players = map demo_seat [0..<8], mt_totalScoreRed = 0, mt_totalScoreBlue = 0, mt_lastKillerTeam = - 1,
     mt_pendingTeamScoreWin = False, mt_redPickFirst = False, mt_flipSides = False, mt_outputSeatLabel = False,
     mt_recentEvents = [], mt_eventBoundary = 0, mt_mutationEpoch = 0, mt_historyReady = True, mt_historyApplying = False,
     mt_mutationPending = False, mt_pendingLabel = [], mt_pendingSource = [], mt_history = [], mt_historyCursor = 0,
     mt_historyNextId = 1, mt_historyMaxSteps = 20, mt_observedSnapshot = [], mt_syncPending = JNull,
     mt_syncBaseline = JNull, mt_syncApplied = JNull, mt_syncBackup = JNull, mt_syncBackupAvailable = False,
     mt_syncBackupBoundary = 0, mt_explicitOcrPayload = [], mt_realtimeFollowing = False, mt_aliasDB = (\<lambda>_. None),
     mt_pendingDeleteMains = [], mt_libraryStore = False, mt_preferLocalAliases = False,
     mt_librarySnapshot = None\<rparr>"

text \<open>Player \<open>k\<close> kills player \<open>d\<close> at tick \<open>t\<close>, recognised as event \<open>n\<close>.\<close>

definition demo_kill :: "int \<Rightarrow> nat \<Rightarrow> nat \<Rightarrow> dword \<Rightarrow> verdict" where
  "demo_kill n k d t = \<lparr>vd_killerResolved = True, vd_deadResolved = True, vd_finalKillerName = [0x41 + of_nat k],
     vd_finalDeadName = [0x41 + of_nat d], vd_killerBestP = int k, vd_deadBestP = int d, vd_lockedKillerTeam = (if k < 4 then 0 else 1),
     vd_lockedDeadTeam = (if d < 4 then 0 else 1), vd_triggerSide = 1, vd_reviewEventId = n, vd_now = t, vd_timeText = [],
     vd_algorithmName = [], vd_ocrSummary = [], vd_scoreSummary = [], vd_sameTeamLog = [], vd_cancelled = (\<lambda>_. False)\<rparr>"

definition demo_run :: "match_op list \<Rightarrow> match" where
  "demo_run ops = fold (do_op demo_env) ops (fst (cmd_reset_stats False demo_match))"


subsection \<open>Rows of kills\<close>

text \<open>At most one player has a row of kills under way, and it is shorter than an AK.\<close>

definition rows :: "match \<Rightarrow> int list" where "rows m = map pd_currentStreak (mt_players m)"

definition rows_ok :: "match \<Rightarrow> bool" where
  "rows_ok m \<longleftrightarrow> length (rows m) = 8 \<and> list_all (\<lambda>s. 0 \<le> s \<and> s < 4) (rows m) \<and>
     length (filter (\<lambda>s. s \<noteq> 0) (rows m)) \<le> 1"

lemma rows_cong: "rows m' = rows m \<Longrightarrow> rows_ok m' = rows_ok m"
  by (simp add: rows_ok_def)

lemma rows_players: "mt_players m' = mt_players m \<Longrightarrow> rows_ok m' = rows_ok m"
  by (rule rows_cong) (simp add: rows_def)

lemma rows_on_seat:
  assumes "\<And>p. pd_currentStreak (f p) = pd_currentStreak p"
  shows "rows (on_seat i f m) = rows m"
proof (cases "nat i < length (mt_players m)")
  case True
  then have "(map pd_currentStreak (mt_players m))[nat i := pd_currentStreak (mt_players m ! nat i)] = map pd_currentStreak (mt_players m)"
    by (metis list_update_id map_update)
  then show ?thesis using assms by (simp add: rows_def on_seat_def map_update)
qed (simp add: rows_def on_seat_def list_update_beyond)

lemma rows_clear: "length (mt_players m) = 8 \<Longrightarrow> rows_ok (on_all_seats clear_streak m)"
  by (simp add: rows_ok_def rows_def on_all_seats_def list_all_iff filter_empty_conv)

lemma rows_score_kill:
  assumes "rows_ok m" "verdict_ok v"
  shows "rows_ok (score_kill v m)"
proof (cases "has_killer v")
  case True
  let ?k = "nat (vd_killerBestP v)" let ?s = "pd_currentStreak (mt_players m ! ?k)"
  have len: "length (mt_players m) = 8" using assms(1) by (simp add: rows_ok_def rows_def)
  have k: "?k < 8" using verdict_seats(3) [OF assms(2) True] by linarith
  have "rows m ! ?k = ?s" using k len by (simp add: rows_def)
  moreover have "0 \<le> rows m ! ?k \<and> rows m ! ?k < 4"
    using assms(1) k unfolding rows_ok_def list_all_length by metis
  ultimately have b: "0 \<le> ?s" "?s < 4" by simp_all
  let ?s' = "if makes_ak (mt_players m ! ?k) then 0 else ?s + 1"
  have zeros: "map pd_currentStreak (map clear_streak ps) = replicate (length ps) 0" for ps
    by (induction ps) simp_all
  have "rows (score_kill v m) = (replicate 8 0)[?k := ?s']"
    using True len by (simp add: score_kill_def Let_def rows_def map_update zeros del: map_map)
  also have "\<dots> = replicate ?k 0 @ ?s' # replicate (7 - ?k) 0"
    using k by (simp add: upd_conv_take_nth_drop)
  finally have r: "rows (score_kill v m) = replicate ?k 0 @ ?s' # replicate (7 - ?k) 0" .
  show ?thesis unfolding rows_ok_def r using b k by (auto simp: list_all_iff makes_ak_def)
qed (use assms in \<open>simp add: score_kill_def\<close>)

lemma rows_settle:
  assumes "rows_ok m" "verdict_ok v"
  shows "rows_ok (fst (DoRetryMatchingTask_settle env v m))"
proof -
  have "rows_ok (fst (count_kill env v m))"
  proof -
    let ?e0 = "review_event v True status_counted (vd_scoreSummary v)"
    obtain m1 e1 where a: "applyScores v m ?e0 = (m1, e1)" by (metis surj_pair)
    obtain m2 e2 fx where s: "settle_round m1 e1 = (m2, e2, fx)" by (metis prod_cases3)
    have "rows_ok m1"
      using a rows_score_kill [OF assms] rows_cong [OF rows_on_seat, of credit_death]
      by (auto simp: applyScores_parts split: if_splits)
    then have "rows_ok m2"
      using settle_round_rest(2) [OF s] rows_clear [of m1] rows_players [of m2 m1] rows_players [of m2 "on_all_seats clear_streak m1"]
      by (auto simp: rows_ok_def rows_def on_all_seats_def split: if_splits)
    moreover have "fst (count_kill env v m) = announce_ocr env (AddReviewEventUnlocked e2 m2)"
      by (simp add: count_kill_def a s)
    ultimately show ?thesis using rows_players [of "announce_ocr env (AddReviewEventUnlocked e2 m2)" m2]
      by (simp add: AddReviewEventUnlocked_def)
  qed
  moreover have "rows_ok (AddReviewEventUnlocked e m)" for e
    using rows_players [of "AddReviewEventUnlocked e m" m] assms(1) by (simp add: AddReviewEventUnlocked_def)
  ultimately show ?thesis using assms(1) by (simp add: DoRetryMatchingTask_settle_def split: option.splits)
qed

subsection \<open>What keeps the rows\<close>

lemma rows_undo: "rows (undo_scores e m) = rows m"
proof -
  have "rows (m\<lparr>mt_totalScoreRed := r, mt_totalScoreBlue := b\<rparr>) = rows m" for r b m by (simp add: rows_def)
  then show ?thesis by (simp add: undo_scores_def Let_def rows_on_seat)
qed

lemma rows_restore: "rows (restore_scores e m) = rows m"
proof -
  have "rows (m\<lparr>mt_totalScoreRed := r, mt_totalScoreBlue := b\<rparr>) = rows m"
    "rows (m\<lparr>mt_lastKillerTeam := t\<rparr>) = rows m" for r b t m by (simp_all add: rows_def)
  then show ?thesis by (simp add: restore_scores_def Let_def rows_on_seat)
qed

lemma rows_keep: "rows_ok m \<Longrightarrow> rows m' = rows m \<Longrightarrow> rows_ok m'"
  by (simp add: rows_ok_def)

lemma rows_mark [simp]: "rows (MarkMatchMutation l s m) = rows m" by (simp add: rows_def)

lemma rows_set_event [simp]: "rows (set_event i e m) = rows m" by (simp add: rows_def set_event_def)

lemma rows_toggle: "rows (snd (ToggleReviewEvent eventId m)) = rows m"
  by (simp add: ToggleReviewEvent_def Let_def rows_undo rows_restore split: option.splits)

lemma rows_do_op:
  assumes "rows_ok m" "op_ok p"
  shows "rows_ok (do_op env p m)"
proof (cases p)
  case (CloudEvents tick events source)
  have "rows (snd (MergeCloudRecentEvents env tick events source m)) = rows m"
    by (simp add: MergeCloudRecentEvents_def Let_def rows_def)
  then have "rows_ok (snd (MergeCloudRecentEvents env tick events source m))" by (rule rows_keep [OF assms(1)])
  then show ?thesis using CloudEvents by simp
next
  case (Toggle eventId)
  have "rows_ok (snd (ToggleReviewEvent eventId m))" by (rule rows_keep [OF assms(1) rows_toggle])
  then show ?thesis using Toggle by simp
next
  case (Banner team)
  have "length (mt_players m) = 8" using assms(1) by (simp add: rows_ok_def rows_def)
  then show ?thesis using Banner by (simp add: settle_banner_def rows_clear)
qed (use assms rows_settle in simp_all)

fun command_ok :: "menu_command \<Rightarrow> bool" where
  "command_ok (MoveSeat p team) = False"
| "command_ok (SwapSeats p t) = (p < 8 \<and> t < 8)"
| "command_ok _ = True"

lemma rows_fold_seats:
  "(\<And>p. pd_currentStreak (f p) = pd_currentStreak p) \<Longrightarrow> rows (fold (\<lambda>i. on_seat (int i) f) is m) = rows m"
  by (induction "is" arbitrary: m) (simp_all add: rows_on_seat)

lemma swap_rows:
  assumes "length (mt_players m) = 8" "p < 8" "t < 8"
  shows "rows (swap_seats p t m) = (rows m)[t := rows m ! p, p := rows m ! t]"
  using assms by (simp add: swap_seats_def Let_def rows_def map_update)

lemma rows_swap:
  assumes "rows_ok m" "p < 8" "t < 8"
  shows "rows_ok (swap_seats p t m)"
proof -
  have len: "length (rows m) = 8" using assms(1) by (simp add: rows_ok_def)
  have r: "rows (swap_seats p t m) = (rows m)[t := rows m ! p, p := rows m ! t]"
    using swap_rows [of m p t] assms len by (simp add: rows_def)
  have "mset ((rows m)[t := rows m ! p, p := rows m ! t]) = mset (rows m)"
    using mset_swap [of p "rows m" t] assms len by simp
  then have same: "mset (rows (swap_seats p t m)) = mset (rows m)" by (simp only: r)
  have "set (rows (swap_seats p t m)) = set (rows m)" using same by (metis set_mset_mset)
  moreover have "length (filter (\<lambda>s. s \<noteq> 0) (rows (swap_seats p t m))) = length (filter (\<lambda>s. s \<noteq> 0) (rows m))"
    using same by (metis mset_filter size_mset)
  moreover have "length (rows (swap_seats p t m)) = length (rows m)" using same by (metis size_mset)
  ultimately show ?thesis using assms(1) by (simp add: rows_ok_def list_all_iff)
qed

lemma rows_forget [simp]: "rows (forget_alias env p a m) = rows m"
  by (simp add: forget_alias_def Let_def rows_def split: option.splits)

lemma rows_command:
  assumes "rows_ok m" "command_ok cmd"
  shows "rows_ok (OnRClickTree env libraryBusy cmd m)"
proof -
  have m: "rows_ok (MarkMatchMutation l s m)" for l s by (rule rows_keep [OF assms(1) rows_mark])
  have r: "rows (run_command env cmd m') = rows m'" if "\<And>p t. cmd \<noteq> SwapSeats p t" for m'
  proof -
    have score: "rows (m'\<lparr>mt_totalScoreRed := r\<rparr>) = rows m'" "rows (m'\<lparr>mt_totalScoreBlue := r\<rparr>) = rows m'" for r
      by (simp_all add: rows_def)
    show ?thesis using assms(2) that
      by (cases cmd) (auto simp: rows_on_seat rows_fold_seats vacate_def credit_death_def take_death_def
          erase_alias_def add_score_def score)
  qed
  have "rows_ok (run_command env cmd (MarkMatchMutation l s m))" for l s
  proof (cases "\<exists>p t. cmd = SwapSeats p t")
    case True
    then show ?thesis using assms(2) rows_swap [OF m [of l s]] by auto
  next
    case False
    then show ?thesis using rows_keep [OF m r] by blast
  qed
  then show ?thesis using assms(1) by (simp add: OnRClickTree_def)
qed

text \<open>Everything that is done to a match here.\<close>

datatype user_op =
    Scoring match_op
  | Menu bool menu_command
  | WebReset bool
  | ResetButton
  | Flip bool

fun user_step :: "match_env \<Rightarrow> user_op \<Rightarrow> match \<Rightarrow> match" where
  "user_step env (Scoring p) m = do_op env p m"
| "user_step env (Menu busy cmd) m = OnRClickTree env busy cmd m"
| "user_step env (WebReset clearPlayers) m = fst (cmd_reset_stats clearPlayers m)"
| "user_step env ResetButton m = fst (OnBnClickedReset m)"
| "user_step env (Flip flipped) m = OnBnClickedFlip flipped m"

fun user_op_ok :: "user_op \<Rightarrow> bool" where
  "user_op_ok (Scoring p) = op_ok p"
| "user_op_ok (Menu busy cmd) = command_ok cmd"
| "user_op_ok _ = True"

lemma rows_zeroed:
  assumes "length (mt_players m) = 8"
  shows "rows_ok (on_all_seats clear_stats m)"
proof -
  have "rows (on_all_seats clear_stats m) = replicate 8 0"
    using assms by (simp add: rows_def on_all_seats_def clear_stats_def map_replicate_const comp_def)
  then show ?thesis by (simp add: rows_ok_def list_all_iff)
qed

lemma rows_web_reset: "length (mt_players m) = 8 \<Longrightarrow> rows_ok (fst (cmd_reset_stats clearPlayers m))"
  by (simp add: cmd_reset_stats_def Let_def rows_zeroed zero_match_def ResetMatchCooldownState_def map_seats_def)

lemma rows_user_step:
  assumes "rows_ok m" "user_op_ok p"
  shows "rows_ok (user_step env p m)"
proof -
  have len: "length (mt_players m) = 8" using assms(1) by (simp add: rows_ok_def rows_def)
  show ?thesis
  proof (cases p)
    case ResetButton
    then show ?thesis using assms(1) len
      by (simp add: OnBnClickedReset_def rows_zeroed zero_match_def ResetMatchCooldownState_def)
  next
    case (Flip f)
    have "rows (OnBnClickedFlip f m) = rows m" by (simp add: OnBnClickedFlip_def Let_def rows_def)
    then have "rows_ok (OnBnClickedFlip f m)" by (rule rows_keep [OF assms(1)])
    then show ?thesis using Flip by simp
  qed (use assms len rows_do_op rows_command rows_web_reset in simp_all)
qed



subsection \<open>Evaluating the examples\<close>

lemma announce_demo [simp]: "announce_ocr demo_env m = m"
  by (simp add: announce_ocr_def BuildTeamSyncSnapshotPayloadUnlocked_def demo_env_def)

lemma demo_space [simp]: "me_space demo_env = ascii_space" by (simp add: demo_env_def)

lemmas run_simps = demo_run_def demo_match_def demo_seat_def demo_kill_def cmd_reset_stats_def zero_match_def
  ResetMatchCooldownState_def on_all_seats_def clear_stats_def MarkMatchMutation_def DoRetryMatchingTask_settle_def
  same_team_def count_kill_def applyScores_def score_kill_def has_killer_def has_dead_def makes_ak_def
  settle_round_def AddReviewEventUnlocked_def review_event_def new_event_def credit_kill_def credit_death_def
  clear_streak_def on_seat_def duplicate_of_def DUP_KILL_LIMIT_TIME_def unknown_name_def counted_def Let_def

lemmas toggle_simps = ToggleReviewEvent_def event_index_def undo_scores_def seat_ok_def take_kill_def take_death_def set_event_def

subsection \<open>What the verdicts leave\<close>

text \<open>A verdict that was not cancelled leaves exactly one event; the event counts exactly when some side was recognised, the two are not of one team, and no rule finds the kill in the last minute.\<close>

lemma verdict_leaves_one_event:
  "\<exists>new. mt_recentEvents (fst (DoRetryMatchingTask_settle env v m)) = mt_recentEvents m @ new \<and>
     (if vd_cancelled v 0 \<or> vd_cancelled v 1 \<or> vd_cancelled v 2 then length new \<le> 1
      else length new = 1 \<and>
        (counted (hd new) \<longleftrightarrow> (vd_killerResolved v \<or> vd_deadResolved v) \<and> \<not> same_team v \<and>
           find_duplicate v (mt_recentEvents m) = None))"
proof -
  let ?e0 = "review_event v True status_counted (vd_scoreSummary v)"
  obtain m1 e1 where a: "applyScores v m ?e0 = (m1, e1)" by (metis surj_pair)
  obtain m2 e2 fx where s: "settle_round m1 e1 = (m2, e2, fx)" by (metis prod_cases3)
  have "counted ?e0" by (simp add: counted_def)
  then have c: "counted e2" using applyScores_rest [OF a] settle_round_rest [OF s] by simp
  have "mt_recentEvents (fst (count_kill env v m)) = mt_recentEvents m @ [e2]"
    using applyScores_rest(1) [OF a] settle_round_rest(1) [OF s]
    by (simp add: count_kill_def a s AddReviewEventUnlocked_def)
  then show ?thesis using c
    by (auto simp: DoRetryMatchingTask_settle_def AddReviewEventUnlocked_def counted_def same_team_def split: option.splits)
qed

lemma find_duplicate_None: "find_duplicate v es = None \<longleftrightarrow> list_all (\<lambda>e. duplicate_of v e = None) es"
  by (induction es) (simp_all split: option.splits)

lemma settle_events:
  "mt_recentEvents (fst (DoRetryMatchingTask_settle env v m)) = mt_recentEvents m @ [e] \<Longrightarrow> counted e \<Longrightarrow>
     find_duplicate v (mt_recentEvents m) = None \<and> re_dead e = vd_finalDeadName v \<and> re_killer e = vd_finalKillerName v"
proof -
  assume h: "mt_recentEvents (fst (DoRetryMatchingTask_settle env v m)) = mt_recentEvents m @ [e]" "counted e"
  let ?e0 = "review_event v True status_counted (vd_scoreSummary v)"
  obtain m1 e1 where a: "applyScores v m ?e0 = (m1, e1)" by (metis surj_pair)
  obtain m2 e2 fx where s: "settle_round m1 e1 = (m2, e2, fx)" by (metis prod_cases3)
  have e2: "re_dead e2 = vd_finalDeadName v" "re_killer e2 = vd_finalKillerName v"
    using applyScores_rest [OF a] settle_round_rest [OF s] by simp_all
  have "mt_recentEvents (fst (count_kill env v m)) = mt_recentEvents m @ [e2]"
    using applyScores_rest(1) [OF a] settle_round_rest(1) [OF s]
    by (simp add: count_kill_def a s AddReviewEventUnlocked_def)
  then show ?thesis using h e2
    by (auto simp: DoRetryMatchingTask_settle_def AddReviewEventUnlocked_def counted_def split: if_splits option.splits)
qed

text \<open>Property C26. A death is not counted twice within a minute: when a verdict with a recognised dead player is counted, every event that counts and names the same dead player lies at least a minute back, as the wrapping tick clock measures it.\<close>

theorem no_death_counted_twice:
  assumes "mt_recentEvents (fst (DoRetryMatchingTask_settle env v m)) = mt_recentEvents m @ [e]" "counted e"
    "vd_deadResolved v" "vd_finalDeadName v \<noteq> unknown_name"
    "old \<in> set (mt_recentEvents m)" "counted old" "re_dead old = re_dead e"
  shows "60000 \<le> vd_now v - re_time old"
proof -
  have "duplicate_of v old = None" "re_dead e = vd_finalDeadName v"
    using settle_events [OF assms(1,2)] assms(5) by (simp_all add: find_duplicate_None list_all_iff)
  then show ?thesis
    using assms by (auto simp: duplicate_of_def counted_def DUP_KILL_LIMIT_TIME_def split: if_splits)
qed

lemma no_death_counted_twice_witness:
  "60000 \<le> vd_now (demo_kill 2 1 4 70000) - re_time (mt_recentEvents (demo_run [Verdict (demo_kill 1 0 4 0)]) ! 0)"
  by (rule no_death_counted_twice [where env = demo_env and m = "demo_run [Verdict (demo_kill 1 0 4 0)]" and
        e = "mt_recentEvents (demo_run [Verdict (demo_kill 1 0 4 0), Verdict (demo_kill 2 1 4 70000)]) ! 1"]) (simp_all add: run_simps)

subsection \<open>Undoing and restoring\<close>

definition same_counters :: "match \<Rightarrow> match \<Rightarrow> bool" where
  "same_counters m m' \<longleftrightarrow>
     list_all2 (\<lambda>p q. pd_kills p = pd_kills q \<and> pd_deaths p = pd_deaths q \<and> pd_akCount p = pd_akCount q)
       (mt_players m) (mt_players m') \<and>
     mt_totalScoreRed m = mt_totalScoreRed m' \<and> mt_totalScoreBlue m = mt_totalScoreBlue m'"

lemma event_index_ids:
  assumes "map re_id es' = map re_id es"
  shows "event_index eventId es' = event_index eventId es"
proof -
  have "length (takeWhile (\<lambda>e. re_id e \<noteq> eventId) es) = length (takeWhile (\<lambda>n. n \<noteq> eventId) (map re_id es))" for es
    by (simp add: takeWhile_map comp_def)
  moreover have "length es' = length es" using assms map_eq_imp_length_eq by blast
  ultimately show ?thesis unfolding event_index_def Let_def using assms by metis
qed

lemma boundary_scores [simp]:
  "mt_eventBoundary (undo_scores e m) = mt_eventBoundary m" "mt_eventBoundary (set_event i e m) = mt_eventBoundary m"
  by (simp_all add: undo_scores_def Let_def set_event_def)

text \<open>Undoing a counted kill and restoring it gives back every counter and the score, provided no counter was lowered by hand below what the counted events stand for; the list of events is the same but for the status of that event.\<close>

theorem undo_restore_round_trip:
  assumes "balanced b m" "event_index eventId (mt_recentEvents m) = Some i" "counted (mt_recentEvents m ! i)"
    "\<not> re_readOnly (mt_recentEvents m ! i)" "mt_eventBoundary m < eventId"
    "ToggleReviewEvent eventId m = (r1, m1)" "ToggleReviewEvent eventId m1 = (r2, m2)"
  shows "r1 \<and> r2 \<and> same_counters m m2 \<and>
     mt_recentEvents m2 = (mt_recentEvents m)[i := (mt_recentEvents m ! i)\<lparr>re_status := status_counted\<rparr>]"
proof -
  let ?e = "mt_recentEvents m ! i"
  let ?u = "?e\<lparr>re_undone := True, re_statsApplied := False, re_status := status_undone\<rparr>"
  let ?m = "MarkMatchMutation label_undo_kill source_review m"
  have i: "i < length (mt_recentEvents m)" using event_index_Some [OF assms(2)] by simp
  have cov: "covers ?e ?m" using balanced_covers [OF assms(1) i assms(3)] by (simp add: covers_def)
  have ok: "event_ok ?e" using cov by (simp add: covers_def)
  have first: "r1" "m1 = set_event i ?u (undo_scores ?e ?m)"
    using assms(2-6) by (simp_all add: ToggleReviewEvent_def Let_def counted_def)
  have ev: "mt_recentEvents m1 = (mt_recentEvents m)[i := ?u]" by (simp add: first(2) set_event_def)
  have "map re_id (mt_recentEvents m1) = map re_id (mt_recentEvents m)"
    using i by (simp add: ev map_update list_update_same_conv)
  then have idx: "event_index eventId (mt_recentEvents m1) = Some i" using event_index_ids assms(2) by metis
  have at: "mt_recentEvents m1 ! i = ?u" using i by (simp add: ev)
  let ?m1 = "MarkMatchMutation label_restore_kill source_review m1"
  have bound: "mt_eventBoundary m1 = mt_eventBoundary m" by (simp add: first(2))
  have "ToggleReviewEvent eventId m1 = (True, set_event i (?u\<lparr>re_undone := False, re_statsApplied := True, re_status := status_counted\<rparr>) (restore_scores ?u ?m1))"
    using assms(4,5) by (simp add: ToggleReviewEvent_def Let_def idx at bound)
  then have second: "r2" "m2 = set_event i (?u\<lparr>re_undone := False, re_statsApplied := True, re_status := status_counted\<rparr>) (restore_scores ?u ?m1)"
    using assms(7) by simp_all
  have u: "event_ok ?u" using ok by (simp add: event_ok_def)
  have same: "kill_of j ?u = kill_of j ?e" "death_of j ?u = death_of j ?e" "ak_of j ?u = ak_of j ?e" for j
    by (simp_all add: kill_of_def death_of_def ak_of_def)
  have l1: "length (mt_players ?m1) = 8" using undo_scores_score [OF cov] by (simp add: first(2) set_event_def)
  have seats: "pd_kills (mt_players m2 ! j) = pd_kills (mt_players m ! j) \<and> pd_deaths (mt_players m2 ! j) = pd_deaths (mt_players m ! j) \<and>
      pd_akCount (mt_players m2 ! j) = pd_akCount (mt_players m ! j)" if "j < 8" for j
    using restore_scores_seat [OF u l1 that] undo_scores_seat [OF cov that] same
    by (simp add: second(2) first(2) set_event_def)
  have "length (mt_players m) = 8" using cov by (simp add: covers_def)
  moreover have "length (mt_players m2) = 8" using restore_scores_score(3) [OF u] l1 by (simp add: second(2) set_event_def)
  moreover have "mt_totalScoreRed m2 = mt_totalScoreRed m" "mt_totalScoreBlue m2 = mt_totalScoreBlue m"
    using restore_scores_score [OF u, of ?m1] undo_scores_score [OF cov] by (simp_all add: second(2) first(2) set_event_def)
  moreover have "mt_recentEvents m2 = (mt_recentEvents m)[i := ?e\<lparr>re_status := status_counted\<rparr>]"
  proof -
    have "?u\<lparr>re_undone := False, re_statsApplied := True, re_status := status_counted\<rparr> = ?e\<lparr>re_status := status_counted\<rparr>"
      using assms(3) by (cases ?e) (simp add: counted_def)
    then show ?thesis by (simp add: second(2) set_event_def ev)
  qed
  ultimately show ?thesis using first(1) second(1) seats by (simp add: same_counters_def list_all2_conv_all_nth)
qed

lemma undo_restore_round_trip_witness:
  "same_counters (demo_run [Verdict (demo_kill 1 0 4 0)])
     (snd (ToggleReviewEvent 1 (snd (ToggleReviewEvent 1 (demo_run [Verdict (demo_kill 1 0 4 0)])))))"
proof -
  have "balanced no_offsets (demo_run [Verdict (demo_kill 1 0 4 0)])"
    using run_balanced [OF reset_balanced [of demo_match False], of "[Verdict (demo_kill 1 0 4 0)]" demo_env]
    by (simp add: demo_run_def demo_match_def verdict_ok_def demo_kill_def)
  then show ?thesis
    using undo_restore_round_trip [of no_offsets "demo_run [Verdict (demo_kill 1 0 4 0)]" 1 0
        "fst (ToggleReviewEvent 1 (demo_run [Verdict (demo_kill 1 0 4 0)]))"
        "snd (ToggleReviewEvent 1 (demo_run [Verdict (demo_kill 1 0 4 0)]))"
        "fst (ToggleReviewEvent 1 (snd (ToggleReviewEvent 1 (demo_run [Verdict (demo_kill 1 0 4 0)]))))"
        "snd (ToggleReviewEvent 1 (snd (ToggleReviewEvent 1 (demo_run [Verdict (demo_kill 1 0 4 0)]))))"]
    by (simp add: run_simps toggle_simps)
qed

subsection \<open>Where the seats and the events part\<close>

text \<open>Undoing a kill leaves every row of kills as it was, so the kill still counts towards the next AK.\<close>

lemma undo_keeps_rows:
  "map pd_currentStreak (mt_players (snd (ToggleReviewEvent eventId m))) = map pd_currentStreak (mt_players m)"
  using rows_toggle [of eventId m] by (simp add: rows_def)

text \<open>Three counted kills then suffice: the third is undone, and the next is an AK.\<close>

definition demo_undone_ak :: match where
  "demo_undone_ak = demo_run [Verdict (demo_kill 1 0 4 0), Verdict (demo_kill 2 0 5 0), Verdict (demo_kill 3 0 6 0),
     Toggle 3, Verdict (demo_kill 4 0 7 0)]"

lemma ak_with_three_counted_kills:
  "pd_kills (mt_players demo_undone_ak ! 0) = 3 \<and> pd_akCount (mt_players demo_undone_ak ! 0) = 1"
  by (simp add: demo_undone_ak_def run_simps toggle_simps)

text \<open>Property C38. An event names its seats by number, so after two players have changed places, undoing a kill takes it from the player who now sits there: the killer keeps the kill, the other loses one.\<close>

theorem undo_after_swap_hits_wrong_player:
  assumes "p < 8" "t < 8" "p \<noteq> t" "length (mt_players m) = 8"
    "event_index eventId (mt_recentEvents m) = Some i" "counted (mt_recentEvents m ! i)"
    "\<not> re_readOnly (mt_recentEvents m ! i)" "mt_eventBoundary m < eventId"
    "re_killerIdx (mt_recentEvents m ! i) = int p" "pd_kills (mt_players m ! t) > 0"
    "\<not> mt_realtimeFollowing m" "m' = snd (ToggleReviewEvent eventId (OnRClickTree env busy (SwapSeats p t) m))"
  shows "pd_name (mt_players m' ! t) = pd_name (mt_players m ! p) \<and>
     pd_kills (mt_players m' ! t) = pd_kills (mt_players m ! p) \<and>
     pd_name (mt_players m' ! p) = pd_name (mt_players m ! t) \<and>
     pd_kills (mt_players m' ! p) = pd_kills (mt_players m ! t) - 1"
proof -
  let ?e = "mt_recentEvents m ! i"
  let ?s = "swap_seats p t (MarkMatchMutation (history_label (SwapSeats p t)) default_source m)"
  have s: "OnRClickTree env busy (SwapSeats p t) m = ?s" using assms(11) by (simp add: OnRClickTree_def)
  have f: "mt_recentEvents ?s = mt_recentEvents m" "mt_eventBoundary ?s = mt_eventBoundary m"
    by (simp_all add: swap_seats_def Let_def)
  have seats: "mt_players ?s ! t = (mt_players m ! p)\<lparr>pd_team := pd_team (mt_players m ! t)\<rparr>"
    "mt_players ?s ! p = (mt_players m ! t)\<lparr>pd_team := pd_team (mt_players m ! p)\<rparr>" "length (mt_players ?s) = 8"
    using assms(1-4) by (simp_all add: swap_seats_def Let_def)
  let ?m = "MarkMatchMutation label_undo_kill source_review ?s"
  have "m' = set_event i (?e\<lparr>re_undone := True, re_statsApplied := False, re_status := status_undone\<rparr>) (undo_scores ?e ?m)"
    using assms(5-8) f s by (simp add: assms(12) ToggleReviewEvent_def Let_def counted_def)
  then have pl: "mt_players m' = mt_players (undo_scores ?e ?m)" by (simp add: set_event_def)
  have nm: "pd_name (take_kill a q) = pd_name q" "pd_name (take_death q) = pd_name q" for a q
    by (simp_all add: take_kill_def take_death_def)
  have kd: "pd_kills (take_death q) = pd_kills q" for q by simp
  show ?thesis
    using assms(1-3,9,10) seats nm kd unfolding pl
    by (auto simp: undo_scores_def Let_def on_seat_nth seat_ok_def)
qed

lemma undo_after_swap_hits_wrong_player_witness:
  "pd_kills (mt_players (snd (ToggleReviewEvent 1 (OnRClickTree demo_env False (SwapSeats 0 4)
      (demo_run [Verdict (demo_kill 1 0 5 0), Verdict (demo_kill 2 4 1 0)])))) ! 0) = 0"
proof -
  let ?m = "demo_run [Verdict (demo_kill 1 0 5 0), Verdict (demo_kill 2 4 1 0)]"
  have "pd_kills (mt_players (snd (ToggleReviewEvent 1 (OnRClickTree demo_env False (SwapSeats 0 4) ?m))) ! 0) =
      pd_kills (mt_players ?m ! 4) - 1"
    by (rule undo_after_swap_hits_wrong_player [where p = 0 and t = 4 and m = ?m and eventId = 1 and i = 0 and env = demo_env and
            busy = False, THEN conjunct2, THEN conjunct2, THEN conjunct2])
      (simp_all add: run_simps event_index_def)
  also have "\<dots> = 0" by (simp add: run_simps)
  finally show ?thesis .
qed

text \<open>Moving a player to a free seat of the other team copies the row of kills and leaves it behind, so a player who has a row under way leaves two.\<close>

theorem move_leaves_row_behind:
  assumes "free_seat env target m = Some t" "t < 8" "p < 8" "t \<noteq> p" "length (mt_players m) = 8"
    "pd_currentStreak (mt_players m ! p) \<noteq> 0" "\<not> mt_realtimeFollowing m"
  shows "\<not> rows_ok (OnRClickTree env busy (MoveSeat p target) m)"
proof
  let ?m = "OnRClickTree env busy (MoveSeat p target) m"
  assume ok: "rows_ok ?m"
  have "free_seat env target (MarkMatchMutation l s m) = Some t" for l s using assms(1) by (simp add: free_seat_def)
  then have pl: "mt_players ?m = (let ps = (mt_players m)[t := (mt_players m ! p)\<lparr>pd_team := target\<rparr>] in ps[p := vacate (ps ! p)])"
    using assms(7) by (simp add: OnRClickTree_def move_seat_def Let_def)
  have "rows ?m ! t = pd_currentStreak (mt_players m ! p)" "rows ?m ! p = pd_currentStreak (mt_players m ! p)"
    using assms(2-5) by (simp_all add: rows_def pl vacate_def)
  then have two: "{p, t} \<subseteq> {i. i < length (rows ?m) \<and> rows ?m ! i \<noteq> 0}"
    using assms(2,3,6) ok by (simp add: rows_ok_def)
  have "card {p, t} \<le> card {i. i < length (rows ?m) \<and> rows ?m ! i \<noteq> 0}"
    by (rule card_mono [OF _ two]) simp
  then show False using ok assms(4) by (simp add: rows_ok_def length_filter_conv_card)
qed

lemma move_leaves_row_behind_witness:
  "\<not> rows_ok (OnRClickTree demo_env False (MoveSeat 0 1)
     (fst (DoRetryMatchingTask_settle demo_env (demo_kill 1 0 4 0) (OnRClickTree demo_env False (DeletePlayer 5) demo_match))))"
  by (rule move_leaves_row_behind [where t = 5])
    (simp_all add: run_simps OnRClickTree_def vacate_def free_seat_def team_seats_def upt_rec DnfTrimmedCopy_def trim_by_def ascii_space_def)

end
