(* ===== verification/MatchSync.thy ===== *)
theory MatchSync
  imports MatchRules JsonPrint
begin

text \<open>
  Applying a snapshot of the match (\<^verbatim>\<open>ValidateTeamSyncSnapshot\<close>, \<^verbatim>\<open>ApplyTeamSyncSnapshot\<close>): one received
  from another machine, the backup taken before that, or an entry of the operation history. An accessor of
  the json library throws on a member of the wrong type; the outcome \<open>Thrown\<close> stands for it.
\<close>

datatype sync_error =
    BadVersion | TooLarge | BadPlayerCount | BadScore | BadPickMode | BadDisplay | BadKillerTeam
  | BadTeam | BadStats | BadNames | BadText | TooManyIds | BadId | BadIdText | TooMuchText
  | NoBackup | LocalChanged | ChangedSinceSync | UncheckableResult

subsection \<open>Reading numbers\<close>

text \<open>An integer keeps its low 32 bits, a boolean reads as 0 or 1, a double is converted.\<close>

definition wrap32 :: "64 word \<Rightarrow> int" where "wrap32 bits = sint (ucast bits :: 32 word)"

fun as_int :: "match_env \<Rightarrow> json \<Rightarrow> int option" where
  "as_int env (JInt n) = Some (wrap32 n)"
| "as_int env (JUInt n) = Some (wrap32 n)"
| "as_int env (JFloat bits) = Some (me_float_int env bits)"
| "as_int env (JBool b) = Some (if b then 1 else 0)"
| "as_int env _ = None"

definition jvalue_int :: "match_env \<Rightarrow> bytes \<Rightarrow> int \<Rightarrow> json \<Rightarrow> int option" where
  "jvalue_int env k d j = (case jvalue k (jint d) j of None \<Rightarrow> None | Some v \<Rightarrow> as_int env v)"

definition readCounter :: "bytes \<Rightarrow> int \<Rightarrow> json \<Rightarrow> int option" where
  "readCounter k maxValue j =
     (case json_find k j of
        Some v \<Rightarrow>
          if is_number_integer v \<and> 0 \<le> wrap32 (get_bits v) \<and> wrap32 (get_bits v) \<le> maxValue
          then Some (wrap32 (get_bits v)) else None
      | None \<Rightarrow> None)"

subsection \<open>Validation\<close>

datatype validation = Valid nat | Invalid sync_error | Throws

definition has_break :: "bytes \<Rightarrow> bool" where "has_break s \<longleftrightarrow> 0x0D \<in> set s \<or> 0x0A \<in> set s"

definition bad_line :: "bytes \<Rightarrow> bool" where "bad_line s \<longleftrightarrow> length s > 256 \<or> has_break s"

text \<open>The validators carry the number of bytes of text met so far.\<close>

fun validate_aliases :: "json list \<Rightarrow> nat \<Rightarrow> validation" where
  "validate_aliases [] bytes_met = Valid bytes_met"
| "validate_aliases (a # rest) bytes_met =
     (if \<not> is_string a then Invalid BadId
      else if bad_line (get_string a) then Invalid BadIdText
      else validate_aliases rest (bytes_met + length (get_string a)))"

definition seat_counters :: "bytes list" where
  "seat_counters = map ascii [''kills'', ''deaths'', ''akCount'', ''currentStreak'']"

definition validate_seat :: "match_env \<Rightarrow> nat \<Rightarrow> json \<Rightarrow> nat \<Rightarrow> validation" where
  "validate_seat env i player bytes_met =
     (if \<not> is_object player then Invalid BadTeam
      else
        (case jvalue_int env (ascii ''team'') (- 1) player of
           None \<Rightarrow> Throws
         | Some team \<Rightarrow>
             let name = jget (ascii ''name'') player; aliases = jget (ascii ''aliases'') player in
             if team \<noteq> (if i < 4 then 0 else 1) then Invalid BadTeam
             else if list_ex (\<lambda>k. readCounter k 1000000 player = None) seat_counters then Invalid BadStats
             else if \<not> is_string name \<or> \<not> is_array aliases then Invalid BadNames
             else if bad_line (get_string name) then Invalid BadText
             else if length (elements aliases) > 128 then Invalid TooManyIds
             else validate_aliases (elements aliases) (bytes_met + length (get_string name))))"

fun validate_seats :: "match_env \<Rightarrow> nat \<Rightarrow> json list \<Rightarrow> nat \<Rightarrow> validation" where
  "validate_seats env i [] bytes_met = (if bytes_met > 48 * 1024 then Invalid TooMuchText else Valid bytes_met)"
| "validate_seats env i (player # rest) bytes_met =
     (case validate_seat env i player bytes_met of Valid bytes_met \<Rightarrow> validate_seats env (Suc i) rest bytes_met | r \<Rightarrow> r)"

definition bad_display :: "bytes \<Rightarrow> json \<Rightarrow> bool" where
  "bad_display k snapshot \<longleftrightarrow> (case json_find k snapshot of Some v \<Rightarrow> \<not> is_boolean v | None \<Rightarrow> False)"

definition killer_team_ok :: "json \<Rightarrow> bool" where
  "killer_team_ok snapshot \<longleftrightarrow>
     (case json_find (ascii ''lastKillerTeam'') snapshot of
        Some v \<Rightarrow> is_number_integer v \<and> wrap32 (get_bits v) \<in> {- 1, 0, 1}
      | None \<Rightarrow> False)"

definition validate_header :: "match_env \<Rightarrow> json \<Rightarrow> validation" where
  "validate_header env snapshot =
     (let players = jget (ascii ''players'') snapshot in
      if \<not> is_array players \<or> length (elements players) \<noteq> 8 then Invalid BadPlayerCount
      else if readCounter (ascii ''redScore'') 1000000 snapshot = None \<or> readCounter (ascii ''blueScore'') 1000000 snapshot = None
        then Invalid BadScore
      else
        (case jvalue_string (ascii ''redPickMode'') [] snapshot of
           None \<Rightarrow> Throws
         | Some pickMode \<Rightarrow>
             if pickMode \<noteq> ascii ''first'' \<and> pickMode \<noteq> ascii ''second'' then Invalid BadPickMode
             else if bad_display (ascii ''isFlipped'') snapshot \<or> bad_display (ascii ''outputSeatLabelToKillFile'') snapshot
               then Invalid BadDisplay
             else if \<not> killer_team_ok snapshot then Invalid BadKillerTeam
             else Valid 0))"

definition ValidateTeamSyncSnapshot :: "match_env \<Rightarrow> json \<Rightarrow> validation" where
  "ValidateTeamSyncSnapshot env snapshot =
     (if \<not> is_object snapshot then Invalid BadVersion
      else
        (case jvalue_int env (ascii ''version'') 0 snapshot of
           None \<Rightarrow> Throws
         | Some version \<Rightarrow>
             if version \<noteq> 1 then Invalid BadVersion
             else
               (case me_dump env snapshot of
                  None \<Rightarrow> Throws
                | Some text \<Rightarrow>
                    if length text > 60 * 1024 then Invalid TooLarge
                    else
                      (case validate_header env snapshot of
                         Valid _ \<Rightarrow> validate_seats env 0 (elements (jget (ascii ''players'') snapshot)) 0
                       | r \<Rightarrow> r))))"

subsection \<open>The seats of a snapshot\<close>

record parsed_seat =
  pp_name :: wstr
  pp_aliases :: "wstr list"
  pp_team :: int
  pp_kills :: int
  pp_deaths :: int
  pp_akCount :: int
  pp_currentStreak :: int

definition clean_line :: "match_env \<Rightarrow> json \<Rightarrow> wstr" where
  "clean_line env v =
     DnfTrimmedCopy (me_space env) (filter (\<lambda>c. c \<noteq> 0x0D \<and> c \<noteq> 0x0A) (CA2W (me_from_utf8 env) (get_string v)))"

text \<open>Validation has made sure that the members are there and are integers.\<close>

definition int_at :: "bytes \<Rightarrow> int \<Rightarrow> json \<Rightarrow> int" where
  "int_at k d j = (case json_find k j of Some v \<Rightarrow> wrap32 (get_bits v) | None \<Rightarrow> d)"

definition team_at :: "match_env \<Rightarrow> nat \<Rightarrow> json \<Rightarrow> int" where
  "team_at env i j = (case jvalue_int env (ascii ''team'') (if i < 4 then 0 else 1) j of Some t \<Rightarrow> t | None \<Rightarrow> 0)"

definition parse_seat :: "match_env \<Rightarrow> nat \<Rightarrow> json \<Rightarrow> parsed_seat" where
  "parse_seat env i source =
     \<lparr>pp_name = clean_line env (jget (ascii ''name'') source),
      pp_aliases = filter (\<lambda>s. s \<noteq> []) (map (clean_line env) (elements (jget (ascii ''aliases'') source))),
      pp_team = team_at env i source, pp_kills = int_at (ascii ''kills'') 0 source,
      pp_deaths = int_at (ascii ''deaths'') 0 source, pp_akCount = int_at (ascii ''akCount'') 0 source,
      pp_currentStreak = int_at (ascii ''currentStreak'') 0 source\<rparr>"

text \<open>The identifiers of the players in the field, by their trimmed names.\<close>

type_synonym alias_map = "wstr \<Rightarrow> wstr list option"

definition local_aliases :: "match_env \<Rightarrow> match \<Rightarrow> alias_map" where
  "local_aliases env m =
     fold (\<lambda>p known.
       let mainName = DnfTrimmedCopy (me_space env) (pd_name p) in
       if mainName = [] then known
       else known(mainName \<mapsto> merged (me_space env) (map ad_name (pd_aliases p)) (case known mainName of Some l \<Rightarrow> l | None \<Rightarrow> [])))
       (mt_players m) Map.empty"

definition library_env_of :: "match_env \<Rightarrow> library_env" where
  "library_env_of env = \<lparr>le_space = me_space env, le_to_utf8 = Some \<circ> me_to_utf8 env, le_from_utf8 = Some \<circ> me_from_utf8 env\<rparr>"

definition fielded_names :: "match_env \<Rightarrow> match \<Rightarrow> wstr list" where
  "fielded_names env m = filter (\<lambda>s. s \<noteq> []) (map (\<lambda>p. DnfTrimmedCopy (me_space env) (pd_name p)) (mt_players m))"

definition preferred_names :: "wstr \<Rightarrow> wstr list \<Rightarrow> wstr list" where
  "preferred_names sameSeatName names =
     fold (\<lambda>n preferred. if preferred = [] \<or> n \<noteq> hd preferred then preferred @ [n] else preferred) names
       (if sameSeatName \<noteq> [] then [sameSeatName] else [])"

text \<open>The name the local library prefers for the player.\<close>

definition prefer_local_name :: "match_env \<Rightarrow> match \<Rightarrow> nat \<Rightarrow> parsed_seat \<Rightarrow> parsed_seat" where
  "prefer_local_name env m i s =
     (case mt_librarySnapshot m of
        None \<Rightarrow> s
      | Some library \<Rightarrow>
          let sameSeatName = DnfTrimmedCopy (me_space env) (pd_name (mt_players m ! i))
          in s\<lparr>pp_name := ResolvePreferredLocalName (library_env_of env) library (pp_name s) (pp_aliases s)
                 (preferred_names sameSeatName (fielded_names env m))\<rparr>)"

definition merge_local_aliases :: "match_env \<Rightarrow> bool \<Rightarrow> alias_map \<Rightarrow> parsed_seat \<Rightarrow> parsed_seat" where
  "merge_local_aliases env localFirst known s =
     (case known (pp_name s) of
        None \<Rightarrow> s
      | Some locals \<Rightarrow>
          s\<lparr>pp_aliases := (if localFirst then merged (me_space env) (pp_aliases s) (merged (me_space env) locals [])
             else merged (me_space env) locals (pp_aliases s))\<rparr>)"

definition parse_seats :: "match_env \<Rightarrow> bool \<Rightarrow> bool \<Rightarrow> match \<Rightarrow> json list \<Rightarrow> parsed_seat list" where
  "parse_seats env localFirst useLocal m sources =
     (let known = (if useLocal then local_aliases env m else Map.empty) in
      map2 (\<lambda>i source.
        let s = parse_seat env i source; s = (if localFirst then prefer_local_name env m i s else s)
        in merge_local_aliases env localFirst known s) [0..<length sources] sources)"

definition apply_seat :: "match_env \<Rightarrow> parsed_seat \<Rightarrow> PlayerData" where
  "apply_seat env s =
     \<lparr>pd_name = pp_name s, pd_team = pp_team s, pd_aliases = merged_data (me_space env) (pp_aliases s) [],
      pd_kills = pp_kills s, pd_deaths = pp_deaths s, pd_currentStreak = pp_currentStreak s, pd_akCount = pp_akCount s\<rparr>"

subsection \<open>Applying\<close>

definition empty_json :: json where "empty_json = JObj []"

definition apply_fields :: "match_env \<Rightarrow> bool \<Rightarrow> json \<Rightarrow> parsed_seat list \<Rightarrow> match \<Rightarrow> match" where
  "apply_fields env preserveLocalFlip snapshot seats m =
     (let display = (\<lambda>k old. case json_find k snapshot of
             Some v \<Rightarrow> if preserveLocalFlip then old else json_bool v | None \<Rightarrow> old)
      in m\<lparr>mt_totalScoreRed := int_at (ascii ''redScore'') 0 snapshot, mt_totalScoreBlue := int_at (ascii ''blueScore'') 0 snapshot,
           mt_redPickFirst := (get_string (jget (ascii ''redPickMode'') snapshot) \<noteq> ascii ''second''),
           mt_flipSides := display (ascii ''isFlipped'') (mt_flipSides m),
           mt_outputSeatLabel := display (ascii ''outputSeatLabelToKillFile'') (mt_outputSeatLabel m),
           mt_lastKillerTeam := int_at (ascii ''lastKillerTeam'') (- 1) snapshot,
           mt_players := map (apply_seat env) seats\<rparr>)"

definition raise_boundary :: "match \<Rightarrow> int" where
  "raise_boundary m = fold (\<lambda>e b. max b (re_id e)) (mt_recentEvents m) (mt_eventBoundary m)"

datatype apply_outcome = Applied | Refused sync_error | Thrown

text \<open>The kinds of application: automatic, by hand with a backup, back to that backup, and exact, from the history.\<close>

record apply_mode =
  am_createBackup :: bool
  am_automatic :: bool
  am_preserveLocalFlip :: bool
  am_exactRestore :: bool
  am_label :: wstr
  am_source :: wstr

definition mark_applied :: "apply_mode \<Rightarrow> match \<Rightarrow> match" where
  "mark_applied k m =
     (let m = (if am_exactRestore k then m else m\<lparr>mt_syncPending := empty_json, mt_syncBaseline := empty_json\<rparr>);
          label = or_default (am_label k)
            (if am_exactRestore k then [0x6062, 0x590D, 0x6BD4, 0x8D5B, 0x5386, 0x53F2]
             else if am_automatic k then [0x81EA, 0x52A8, 0x540C, 0x6B65]
             else if am_createBackup k then [0x624B, 0x52A8, 0x540C, 0x6B65] else [0x6062, 0x590D, 0x540C, 0x6B65]);
          source = or_default (am_source k) (if am_exactRestore k then [0x64CD, 0x4F5C, 0x5386, 0x53F2] else [0x540C, 0x6B65])
      in MarkMatchMutation label source m)"

definition update_sync_state :: "match_env \<Rightarrow> apply_mode \<Rightarrow> json \<Rightarrow> match \<Rightarrow> apply_outcome \<times> match" where
  "update_sync_state env k currentSnapshot m =
     (if am_exactRestore k then (Applied, m)
      else if am_automatic k then
        (Applied, m\<lparr>mt_syncApplied := empty_json, mt_syncBackup := empty_json, mt_syncBackupAvailable := False,
           mt_syncBackupBoundary := 0, mt_eventBoundary := raise_boundary m\<rparr>)
      else if am_createBackup k then
        (case BuildTeamSyncSnapshotPayloadUnlocked env m of
           None \<Rightarrow> (Thrown, m)
         | Some payload \<Rightarrow>
             (case me_parse env payload of
                None \<Rightarrow> (Refused UncheckableResult, m)
              | Some applied \<Rightarrow>
                  if \<not> is_object applied then (Refused UncheckableResult, m)
                  else (Applied, m\<lparr>mt_syncBackup := currentSnapshot, mt_syncBackupAvailable := True, mt_syncApplied := applied,
                          mt_syncBackupBoundary := mt_eventBoundary m, mt_eventBoundary := raise_boundary m\<rparr>)))
      else
        (Applied, m\<lparr>mt_syncBackup := empty_json, mt_syncBackupAvailable := False, mt_syncApplied := empty_json,
           mt_eventBoundary := mt_syncBackupBoundary m, mt_syncBackupBoundary := 0\<rparr>))"

text \<open>A manual application is refused when the match has changed since the snapshot was fetched or applied.\<close>

datatype backup_check = Go json | Stop sync_error match

definition json_empty :: "json \<Rightarrow> bool" where "json_empty j \<longleftrightarrow> json_size j = 0"

definition check_backup :: "match_env \<Rightarrow> apply_mode \<Rightarrow> match \<Rightarrow> backup_check" where
  "check_backup env k m =
     (if am_automatic k \<or> am_exactRestore k then Go JNull
      else
        (case BuildTeamSyncSnapshotPayloadUnlocked env m of
           None \<Rightarrow> Stop NoBackup m
         | Some payload \<Rightarrow>
             (case me_parse env payload of
                None \<Rightarrow> Stop NoBackup m
              | Some current \<Rightarrow>
                  if am_createBackup k \<and> (json_empty (mt_syncBaseline m) \<or> \<not> json_eq current (mt_syncBaseline m))
                    then Stop LocalChanged (m\<lparr>mt_syncPending := empty_json, mt_syncBaseline := empty_json\<rparr>)
                  else if \<not> am_createBackup k \<and> (json_empty (mt_syncApplied m) \<or> \<not> json_eq current (mt_syncApplied m))
                    then Stop ChangedSinceSync m
                  else Go current)))"

definition ApplyTeamSyncSnapshot :: "match_env \<Rightarrow> apply_mode \<Rightarrow> json \<Rightarrow> match \<Rightarrow> apply_outcome \<times> match" where
  "ApplyTeamSyncSnapshot env k snapshot m =
     (case ValidateTeamSyncSnapshot env snapshot of
        Throws \<Rightarrow> (Thrown, m)
      | Invalid e \<Rightarrow> (Refused e, m)
      | Valid _ \<Rightarrow>
          (case check_backup env k m of
             Stop e m' \<Rightarrow> (Refused e, m')
           | Go current \<Rightarrow>
               let localFirst = mt_preferLocalAliases m \<and> \<not> am_exactRestore k \<and> (am_createBackup k \<or> am_automatic k);
                   useLocal = localFirst \<or> am_createBackup k \<and> \<not> am_automatic k;
                   seats = parse_seats env localFirst useLocal m (elements (jget (ascii ''players'') snapshot));
                   (outcome, m) = update_sync_state env k current (apply_fields env (am_preserveLocalFlip k) snapshot seats m)
               in if outcome = Applied then (Applied, mark_applied k m) else (outcome, m)))"

subsection \<open>Reading back what was built\<close>

declare ascii_Cons [simp del] ascii_eq [simp]

lemma wrap32_jint:
  assumes "- (2 ^ 31) \<le> n" "n < 2 ^ 31"
  shows "wrap32 (word_of_int n) = n"
proof -
  have "sint (word_of_int n :: 32 word) = n"
    using assms signed_take_bit_int_eq_self [of 31 n] by (simp only: sint_sbintrunc') simp
  moreover have "(ucast (word_of_int n :: 64 word) :: 32 word) = word_of_int n"
    by transfer simp
  ultimately show ?thesis by (simp add: wrap32_def)
qed

lemma get_bits_jint [simp]: "get_bits (jint n) = word_of_int n" "is_number_integer (jint n)"
  "as_int env (jint n) = Some (wrap32 (word_of_int n))"
  by (simp_all add: jint_def)

lemma team_snapshot_find:
  "json_find (ascii ''version'') (team_snapshot env m) = Some (jint 1)"
  "json_find (ascii ''redScore'') (team_snapshot env m) = Some (jint (mt_totalScoreRed m))"
  "json_find (ascii ''blueScore'') (team_snapshot env m) = Some (jint (mt_totalScoreBlue m))"
  "json_find (ascii ''redPickMode'') (team_snapshot env m) = Some (JStr (ascii (if mt_redPickFirst m then ''first'' else ''second'')))"
  "json_find (ascii ''isFlipped'') (team_snapshot env m) = Some (JBool (mt_flipSides m))"
  "json_find (ascii ''outputSeatLabelToKillFile'') (team_snapshot env m) = Some (JBool (mt_outputSeatLabel m))"
  "json_find (ascii ''lastKillerTeam'') (team_snapshot env m) = Some (jint (mt_lastKillerTeam m))"
  "json_find (ascii ''players'') (team_snapshot env m) = Some (JArr (map (seat_json env) (mt_players m)))"
  by (simp_all add: team_snapshot_def team_fields_def)

lemma team_snapshot_object [simp]: "is_object (team_snapshot env m)"
  by (simp add: team_snapshot_def)

lemma seat_json_find:
  "json_find (ascii ''team'') (seat_json env p) = Some (jint (pd_team p))"
  "json_find (ascii ''name'') (seat_json env p) = Some (jtext env (pd_name p))"
  "json_find (ascii ''aliases'') (seat_json env p) = Some (JArr (map (\<lambda>a. jtext env (ad_name a)) (pd_aliases p)))"
  "json_find (ascii ''kills'') (seat_json env p) = Some (jint (pd_kills p))"
  "json_find (ascii ''deaths'') (seat_json env p) = Some (jint (pd_deaths p))"
  "json_find (ascii ''akCount'') (seat_json env p) = Some (jint (pd_akCount p))"
  "json_find (ascii ''currentStreak'') (seat_json env p) = Some (jint (pd_currentStreak p))"
  "is_object (seat_json env p)"
  by (simp_all add: seat_json_def)

lemmas snapshot_find = team_snapshot_find seat_json_find

text \<open>A text survives the way through a snapshot: it is trimmed, of one line, short, and the converters are inverse on it.\<close>

definition line_ok :: "match_env \<Rightarrow> wstr \<Rightarrow> bool" where
  "line_ok env s \<longleftrightarrow> clean_line env (jtext env s) = s \<and> \<not> bad_line (DnfJsonUtf8 (me_to_utf8 env) s)"

definition counter_ok :: "int \<Rightarrow> bool" where "counter_ok n \<longleftrightarrow> 0 \<le> n \<and> n \<le> 1000000"

definition utf8_length :: "match_env \<Rightarrow> wstr \<Rightarrow> nat" where
  "utf8_length env s = length (DnfJsonUtf8 (me_to_utf8 env) s)"

definition seat_syncable :: "match_env \<Rightarrow> nat \<Rightarrow> PlayerData \<Rightarrow> bool" where
  "seat_syncable env i p \<longleftrightarrow> pd_team p = (if i < 4 then 0 else 1) \<and> line_ok env (pd_name p) \<and>
     list_all (\<lambda>a. ad_name a \<noteq> [] \<and> line_ok env (ad_name a)) (pd_aliases p) \<and> length (pd_aliases p) \<le> 128 \<and>
     merge_stable (me_space env) (map ad_name (pd_aliases p)) \<and>
     counter_ok (pd_kills p) \<and> counter_ok (pd_deaths p) \<and> counter_ok (pd_akCount p) \<and> counter_ok (pd_currentStreak p)"

definition seat_bytes :: "match_env \<Rightarrow> PlayerData \<Rightarrow> nat" where
  "seat_bytes env p = utf8_length env (pd_name p) + sum_list (map (\<lambda>a. utf8_length env (ad_name a)) (pd_aliases p))"

definition syncable :: "match_env \<Rightarrow> match \<Rightarrow> bool" where
  "syncable env m \<longleftrightarrow> length (mt_players m) = 8 \<and> list_all (\<lambda>i. seat_syncable env i (mt_players m ! i)) [0..<8] \<and>
     counter_ok (mt_totalScoreRed m) \<and> counter_ok (mt_totalScoreBlue m) \<and> mt_lastKillerTeam m \<in> {- 1, 0, 1} \<and>
     sum_list (map (seat_bytes env) (mt_players m)) \<le> 48 * 1024 \<and>
     (case me_dump env (team_snapshot env m) of Some text \<Rightarrow> length text \<le> 60 * 1024 | None \<Rightarrow> False)"

lemma counter_wrap [simp]: "counter_ok n \<Longrightarrow> wrap32 (word_of_int n) = n"
  by (rule wrap32_jint) (simp_all add: counter_ok_def)

lemma team_wrap [simp]: "wrap32 (word_of_int (if c then 0 else 1)) = (if c then 0 else 1)" "wrap32 1 = 1"
  "wrap32 0 = 0" "wrap32 (- 1) = - 1"
  using wrap32_jint [of 0] wrap32_jint [of 1] wrap32_jint [of "- 1"] by simp_all

lemma read_counter_ok: "json_find k j = Some (jint n) \<Longrightarrow> counter_ok n \<Longrightarrow> readCounter k 1000000 j = Some n"
  by (simp add: readCounter_def counter_ok_def)

lemma validate_aliases_ok:
  "list_all (\<lambda>a. line_ok env (ad_name a)) as' \<Longrightarrow>
     validate_aliases (map (\<lambda>a. jtext env (ad_name a)) as') n = Valid (n + sum_list (map (\<lambda>a. utf8_length env (ad_name a)) as'))"
  by (induction as' arbitrary: n) (simp_all add: jtext_def line_ok_def utf8_length_def)

lemma validate_seat_ok:
  assumes "seat_syncable env i p"
  shows "validate_seat env i (seat_json env p) n = Valid (n + seat_bytes env p)"
proof -
  have t: "jvalue_int env (ascii ''team'') (- 1) (seat_json env p) = Some (if i < 4 then 0 else 1)"
    using assms by (simp add: jvalue_int_def jvalue_def snapshot_find seat_syncable_def)
  have c: "\<not> list_ex (\<lambda>k. readCounter k 1000000 (seat_json env p) = None) seat_counters"
    using assms by (simp add: seat_counters_def seat_syncable_def read_counter_ok snapshot_find)
  have a: "list_all (\<lambda>a. line_ok env (ad_name a)) (pd_aliases p)"
    using assms by (simp add: seat_syncable_def list_all_iff)
  have nm: "\<not> bad_line (DnfJsonUtf8 (me_to_utf8 env) (pd_name p))" "length (pd_aliases p) \<le> 128"
    using assms by (simp_all add: seat_syncable_def line_ok_def)
  show ?thesis
    using t c nm validate_aliases_ok [OF a]
    by (simp add: validate_seat_def snapshot_find jget_def Let_def jtext_def [of env "pd_name p"] seat_bytes_def utf8_length_def add.assoc)
qed

lemma validate_seats_ok:
  assumes "\<And>j. j < length ps \<Longrightarrow> seat_syncable env (i + j) (ps ! j)"
    "n + sum_list (map (seat_bytes env) ps) \<le> 48 * 1024"
  shows "\<exists>b. validate_seats env i (map (seat_json env) ps) n = Valid b"
  using assms
proof (induction ps arbitrary: i n)
  case (Cons p ps)
  have p: "seat_syncable env i p" using Cons.prems(1) [of 0] by simp
  have "\<exists>b. validate_seats env (Suc i) (map (seat_json env) ps) (n + seat_bytes env p) = Valid b"
  proof (rule Cons.IH)
    show "seat_syncable env (Suc i + j) (ps ! j)" if "j < length ps" for j using Cons.prems(1) [of "Suc j"] that by simp
    show "n + seat_bytes env p + sum_list (map (seat_bytes env) ps) \<le> 48 * 1024" using Cons.prems(2) by simp
  qed
  then show ?case using validate_seat_ok [OF p] by simp
qed simp

lemma syncable_validates:
  assumes "syncable env m"
  shows "\<exists>b. ValidateTeamSyncSnapshot env (team_snapshot env m) = Valid b"
proof -
  have seats: "\<exists>b. validate_seats env 0 (map (seat_json env) (mt_players m)) 0 = Valid b"
    by (rule validate_seats_ok) (use assms in \<open>simp_all add: syncable_def list_all_iff\<close>)
  have lkt: "wrap32 (word_of_int (mt_lastKillerTeam m)) = mt_lastKillerTeam m"
    using assms by (intro wrap32_jint) (auto simp: syncable_def)
  have hd_ok: "validate_header env (team_snapshot env m) = Valid 0"
    using assms lkt
    by (simp add: validate_header_def Let_def jget_def snapshot_find syncable_def read_counter_ok jvalue_string_def jvalue_def
        bad_display_def killer_team_ok_def)
  obtain payload where d: "me_dump env (team_snapshot env m) = Some payload" "length payload \<le> 60 * 1024"
    using assms by (auto simp: syncable_def split: option.splits)
  show ?thesis using seats hd_ok d
    by (simp add: ValidateTeamSyncSnapshot_def jvalue_int_def jvalue_def jget_def snapshot_find)
qed

subsection \<open>A snapshot restores the match\<close>

text \<open>What a snapshot holds of a seat and of the match; the statistics of single identifiers are not kept.\<close>

definition seat_view :: "PlayerData \<Rightarrow> wstr \<times> int \<times> wstr list \<times> int \<times> int \<times> int \<times> int" where
  "seat_view p = (pd_name p, pd_team p, map ad_name (pd_aliases p), pd_kills p, pd_deaths p, pd_akCount p, pd_currentStreak p)"

definition same_match :: "match \<Rightarrow> match \<Rightarrow> bool" where
  "same_match m m' \<longleftrightarrow> map seat_view (mt_players m) = map seat_view (mt_players m') \<and>
     mt_totalScoreRed m = mt_totalScoreRed m' \<and> mt_totalScoreBlue m = mt_totalScoreBlue m' \<and>
     mt_redPickFirst m = mt_redPickFirst m' \<and> mt_flipSides m = mt_flipSides m' \<and>
     mt_outputSeatLabel m = mt_outputSeatLabel m' \<and> mt_lastKillerTeam m = mt_lastKillerTeam m'"

lemma clean_lines:
  assumes "list_all (\<lambda>a. ad_name a \<noteq> [] \<and> line_ok env (ad_name a)) as'"
  shows "filter (\<lambda>s. s \<noteq> []) (map (clean_line env) (map (\<lambda>a. jtext env (ad_name a)) as')) = map ad_name as'"
  using assms by (induction as') (simp_all add: line_ok_def)

lemma seat_restored:
  assumes "seat_syncable env i p"
  shows "seat_view (apply_seat env (parse_seat env i (seat_json env p))) = seat_view p"
proof -
  have nm: "clean_line env (jtext env (pd_name p)) = pd_name p"
    and al: "list_all (\<lambda>a. ad_name a \<noteq> [] \<and> line_ok env (ad_name a)) (pd_aliases p)"
    and st: "merged (me_space env) (map ad_name (pd_aliases p)) [] = map ad_name (pd_aliases p)"
    using assms by (simp_all add: seat_syncable_def line_ok_def merge_stable_def)
  have c: "counter_ok (pd_kills p)" "counter_ok (pd_deaths p)" "counter_ok (pd_akCount p)" "counter_ok (pd_currentStreak p)"
    and t: "pd_team p = (if i < 4 then 0 else 1)"
    using assms by (simp_all add: seat_syncable_def)
  have "team_at env i (seat_json env p) = pd_team p"
    using t by (simp add: team_at_def jvalue_int_def jvalue_def snapshot_find)
  then show ?thesis
    using nm clean_lines [OF al] st c
    by (simp add: seat_view_def apply_seat_def parse_seat_def snapshot_find jget_def int_at_def merged_data_names)
qed

lemma parse_seats_plain:
  "parse_seats env False False m sources = map2 (parse_seat env) [0..<length sources] sources"
  by (simp add: parse_seats_def merge_local_aliases_def)

lemma fields_restored:
  assumes "syncable env m0"
  shows "same_match (apply_fields env False (team_snapshot env m0)
     (parse_seats env False False m (elements (jget (ascii ''players'') (team_snapshot env m0)))) m) m0"
proof -
  have len: "length (mt_players m0) = 8" using assms by (simp add: syncable_def)
  have seat: "seat_view (apply_seat env (parse_seat env i (seat_json env (mt_players m0 ! i)))) = seat_view (mt_players m0 ! i)" if "i < 8" for i
    by (rule seat_restored) (use assms that in \<open>simp add: syncable_def list_all_iff\<close>)
  have "map seat_view (map (apply_seat env) (map2 (parse_seat env) [0..<8] (map (seat_json env) (mt_players m0)))) =
      map seat_view (mt_players m0)"
    by (rule nth_equalityI) (simp_all add: len seat)
  moreover have "wrap32 (word_of_int (mt_lastKillerTeam m0)) = mt_lastKillerTeam m0"
    using assms by (intro wrap32_jint) (auto simp: syncable_def)
  moreover have "counter_ok (mt_totalScoreRed m0)" "counter_ok (mt_totalScoreBlue m0)" using assms by (simp_all add: syncable_def)
  ultimately show ?thesis
    by (simp add: same_match_def apply_fields_def Let_def snapshot_find jget_def int_at_def parse_seats_plain len del: map_map)
qed

text \<open>Property C23. A snapshot of a well-formed match, applied exactly, is accepted whatever the match has become, and gives back every seat, counter, score and display setting.\<close>

theorem exact_restore_round_trip:
  assumes "syncable env m0" "am_exactRestore k" "\<not> am_createBackup k" "\<not> am_preserveLocalFlip k"
    "ApplyTeamSyncSnapshot env k (team_snapshot env m0) m = (r, m')"
  shows "r = Applied \<and> same_match m' m0"
proof -
  obtain b where v: "ValidateTeamSyncSnapshot env (team_snapshot env m0) = Valid b"
    using syncable_validates [OF assms(1)] by blast
  have mark: "same_match (mark_applied k m1) m0 = same_match m1 m0" for m1
    by (simp add: mark_applied_def Let_def MarkMatchMutation_def same_match_def)
  have "(r, m') = (Applied, mark_applied k (apply_fields env False (team_snapshot env m0)
      (parse_seats env False False m (elements (jget (ascii ''players'') (team_snapshot env m0)))) m))"
    using assms(2-5) v by (simp add: ApplyTeamSyncSnapshot_def check_backup_def update_sync_state_def)
  then show ?thesis using mark fields_restored [OF assms(1), of m] by simp
qed

subsection \<open>Taking back a synchronisation\<close>

text \<open>
  What the json library documents of its printer and parser. Everything that reads a snapshot reads the same
  from the snapshot that was printed and parsed.
\<close>

definition prints_back :: "match_env \<Rightarrow> bool" where
  "prints_back env \<longleftrightarrow> prints_back_with (me_dump env) (me_parse env)"

lemma prints_backD:
  assumes "prints_back env" "proper j"
  shows "me_dump env (reread j) = me_dump env j" "me_dump env j = Some payload \<Longrightarrow> me_parse env payload = Some (reread j)"
  using assms by (auto simp: prints_back_def prints_back_with_def)

lemma as_int_reread [simp]: "as_int env (reread j) = as_int env j"
  by (cases j) simp_all

lemma reread_jint [simp]: "reread (jint n) = (if sint (word_of_int n :: 64 word) < 0 then jint n else JUInt (word_of_int n))"
  by (simp add: jint_def)

lemma jvalue_reread:
  "jvalue_int env k d (reread j) = jvalue_int env k d j" "jvalue_string k s (reread j) = jvalue_string k s j"
  "jvalue_bool k b (reread j) = jvalue_bool k b j" "reread d' = d' \<Longrightarrow> jvalue k d' (reread j) = map_option reread (jvalue k d' j)"
  by (auto simp: jvalue_int_def jvalue_string_def jvalue_bool_def jvalue_def split: option.splits)

lemma read_reread:
  "readCounter k n (reread j) = readCounter k n j" "int_at k d (reread j) = int_at k d j" "team_at env i (reread j) = team_at env i j"
  "bad_display k (reread j) = bad_display k j" "killer_team_ok (reread j) = killer_team_ok j"
  "clean_line env (reread j) = clean_line env j"
  by (auto simp: readCounter_def int_at_def team_at_def jvalue_reread bad_display_def killer_team_ok_def clean_line_def split: option.splits)

lemma validate_aliases_reread: "validate_aliases (map reread as') n = validate_aliases as' n"
  by (induction as' arbitrary: n) simp_all

lemma validate_seat_reread: "validate_seat env i (reread p) n = validate_seat env i p n"
  unfolding validate_seat_def Let_def jvalue_reread read_reread reread_kind reread_jget validate_aliases_reread length_map ..

lemma validate_seats_reread: "validate_seats env i (map reread ps) n = validate_seats env i ps n"
  by (induction ps arbitrary: i n) (simp_all add: validate_seat_reread split: validation.splits)

lemma validate_reread:
  assumes "prints_back env" "proper j"
  shows "ValidateTeamSyncSnapshot env (reread j) = ValidateTeamSyncSnapshot env j"
  unfolding ValidateTeamSyncSnapshot_def validate_header_def Let_def jvalue_reread read_reread reread_kind reread_jget
    validate_seats_reread length_map prints_backD(1) [OF assms] ..

lemma parse_seat_reread: "parse_seat env i (reread j) = parse_seat env i j"
  by (simp add: parse_seat_def read_reread comp_def)

lemma parse_seats_reread: "parse_seats env lf ul m (map reread js) = parse_seats env lf ul m js"
  by (simp add: parse_seats_def Let_def parse_seat_reread zip_map2 split_def comp_def)

lemma apply_fields_reread: "apply_fields env f (reread j) = apply_fields env f j"
  by (auto simp: apply_fields_def read_reread Let_def fun_eq_iff split: option.splits)

lemma apply_reread:
  assumes "prints_back env" "proper j"
  shows "ApplyTeamSyncSnapshot env k (reread j) m = ApplyTeamSyncSnapshot env k j m"
  unfolding ApplyTeamSyncSnapshot_def validate_reread [OF assms] reread_jget reread_kind parse_seats_reread apply_fields_reread ..

lemma recent_events_proper: "proper (JArr (map (recent_json env) es))"
  by (simp add: list_all_iff recent_json_def jtext_def)

lemma seats_proper: "proper (JArr (map (seat_json env) ps))"
  by (simp add: list_all_iff seat_json_def jtext_def jint_def)

lemma team_proper: "proper (team_snapshot env m)"
  using recent_events_proper [of env] seats_proper [of env] by (simp add: team_snapshot_def team_fields_def jint_def)

lemma team_snapshot_cong:
  assumes "mt_players m' = mt_players m" "mt_totalScoreRed m' = mt_totalScoreRed m" "mt_totalScoreBlue m' = mt_totalScoreBlue m"
    "mt_redPickFirst m' = mt_redPickFirst m" "mt_flipSides m' = mt_flipSides m" "mt_outputSeatLabel m' = mt_outputSeatLabel m"
    "mt_lastKillerTeam m' = mt_lastKillerTeam m" "mt_recentEvents m' = mt_recentEvents m"
  shows "team_snapshot env m' = team_snapshot env m"
  using assms by (simp add: team_snapshot_def team_fields_def)

lemma mark_applied_fields [simp]:
  "team_snapshot env (mark_applied k m) = team_snapshot env m" "mt_syncBackup (mark_applied k m) = mt_syncBackup m"
  "mt_syncApplied (mark_applied k m) = mt_syncApplied m" "mt_syncBackupBoundary (mark_applied k m) = mt_syncBackupBoundary m"
  "mt_eventBoundary (mark_applied k m) = mt_eventBoundary m" "mt_syncBackupAvailable (mark_applied k m) = mt_syncBackupAvailable m"
  "same_match (mark_applied k m) m0 = same_match m m0"
  by (rule team_snapshot_cong, simp_all add: mark_applied_def Let_def MarkMatchMutation_def same_match_def)

lemma json_empty_team [simp]: "\<not> json_empty (team_snapshot env m)"
proof
  assume "json_empty (team_snapshot env m)"
  then have "json_find k (team_snapshot env m) = None" for k
    by (cases "team_snapshot env m") (simp_all add: json_empty_def)
  then show False using team_snapshot_find(1) [of env m] by simp
qed

lemma json_empty_reread [simp]: "json_empty (reread j) = json_empty j"
  by (simp add: json_empty_def)

lemma apply_fields_rest [simp]:
  "mt_eventBoundary (apply_fields env f j seats m) = mt_eventBoundary m"
  "mt_syncBackupBoundary (apply_fields env f j seats m) = mt_syncBackupBoundary m"
  by (simp_all add: apply_fields_def Let_def)

lemma go_current:
  assumes "prints_back env" "\<not> am_automatic k" "\<not> am_exactRestore k" "check_backup env k m = Go current"
  shows "current = reread (team_snapshot env m)"
  using assms prints_backD(2) [OF assms(1) team_proper [of env m]]
  by (auto simp: check_backup_def BuildTeamSyncSnapshotPayloadUnlocked_def split: option.splits if_splits)

lemma manual_applied:
  assumes "prints_back env" "am_createBackup k" "\<not> am_automatic k" "\<not> am_exactRestore k"
    "ApplyTeamSyncSnapshot env k snapshot m = (Applied, m1)"
  shows "mt_syncBackup m1 = reread (team_snapshot env m) \<and> mt_syncApplied m1 = reread (team_snapshot env m1) \<and>
     mt_syncBackupBoundary m1 = mt_eventBoundary m \<and> me_dump env (team_snapshot env m1) \<noteq> None"
proof -
  obtain b current where v: "ValidateTeamSyncSnapshot env snapshot = Valid b" and c: "check_backup env k m = Go current"
    using assms(5) by (auto simp: ApplyTeamSyncSnapshot_def split: validation.splits backup_check.splits)
  have cur: "current = reread (team_snapshot env m)" by (rule go_current [OF assms(1,3,4) c])
  obtain mf where mf: "mt_eventBoundary mf = mt_eventBoundary m"
    and u: "(case update_sync_state env k current mf of (outcome, m) \<Rightarrow> if outcome = Applied then (Applied, mark_applied k m) else (outcome, m)) = (Applied, m1)"
    by (rule that [OF apply_fields_rest(1)]) (use assms(5) v c in \<open>simp add: ApplyTeamSyncSnapshot_def Let_def\<close>)
  obtain payload where d: "me_dump env (team_snapshot env mf) = Some payload"
    and m1: "m1 = mark_applied k (mf\<lparr>mt_syncBackup := current, mt_syncBackupAvailable := True,
        mt_syncApplied := reread (team_snapshot env mf), mt_syncBackupBoundary := mt_eventBoundary mf, mt_eventBoundary := raise_boundary mf\<rparr>)"
    using u assms(2-4) prints_backD(2) [OF assms(1) team_proper [of env mf]]
    by (auto simp: update_sync_state_def BuildTeamSyncSnapshotPayloadUnlocked_def split: option.splits if_splits)
  have "team_snapshot env m1 = team_snapshot env mf" unfolding m1 mark_applied_fields by (rule team_snapshot_cong) simp_all
  then show ?thesis using m1 cur mf d by simp
qed

lemma same_match_rest:
  "same_match (m\<lparr>mt_syncBackup := a, mt_syncBackupAvailable := b, mt_syncApplied := c, mt_eventBoundary := d, mt_syncBackupBoundary := e\<rparr>) m0 =
     same_match m m0"
  by (simp add: same_match_def)

text \<open>Property C24. A synchronisation applied by hand can be taken back: if the match has not changed since, applying the kept backup succeeds and gives back the match as it was, with the boundary before which events cannot be undone.\<close>

theorem sync_undo_round_trip:
  assumes "prints_back env" "syncable env m"
    "am_createBackup k" "\<not> am_automatic k" "\<not> am_exactRestore k"
    "ApplyTeamSyncSnapshot env k snapshot m = (Applied, m1)"
    "\<not> am_createBackup u" "\<not> am_automatic u" "\<not> am_exactRestore u" "\<not> am_preserveLocalFlip u"
    "ApplyTeamSyncSnapshot env u (mt_syncBackup m1) m1 = (r, m2)"
  shows "r = Applied \<and> same_match m2 m \<and> mt_eventBoundary m2 = mt_eventBoundary m"
proof -
  note m1 = manual_applied [OF assms(1,3-6)]
  obtain b where v: "ValidateTeamSyncSnapshot env (team_snapshot env m) = Valid b"
    using syncable_validates [OF assms(2)] by blast
  obtain payload where d: "me_dump env (team_snapshot env m1) = Some payload" "me_parse env payload = Some (reread (team_snapshot env m1))"
    using m1 prints_backD(2) [OF assms(1) team_proper [of env m1]] by auto
  have go: "check_backup env u m1 = Go (reread (team_snapshot env m1))"
    using assms(7-9) d m1 json_eq_reread [OF proper_no_float [OF team_proper], of env m1]
    by (simp add: check_backup_def BuildTeamSyncSnapshotPayloadUnlocked_def)
  let ?mf = "apply_fields env False (team_snapshot env m)
      (parse_seats env False False m1 (elements (jget (ascii ''players'') (team_snapshot env m)))) m1"
  have b: "mt_syncBackupBoundary ?mf = mt_eventBoundary m" using m1 by simp
  have "(r, m2) = ApplyTeamSyncSnapshot env u (team_snapshot env m) m1"
    using assms(11) m1 apply_reread [OF assms(1) team_proper] by simp
  also have "\<dots> = (Applied, mark_applied u (?mf\<lparr>mt_syncBackup := empty_json, mt_syncBackupAvailable := False, mt_syncApplied := empty_json,
           mt_eventBoundary := mt_syncBackupBoundary ?mf, mt_syncBackupBoundary := 0\<rparr>))"
    using assms(7-10) v go by (simp add: ApplyTeamSyncSnapshot_def update_sync_state_def Let_def)
  finally show ?thesis using fields_restored [OF assms(2), of m1] b by (simp add: same_match_rest)
qed

text \<open>A snapshot holds no more than what it restores, and the last events.\<close>

lemma same_match_snapshot:
  assumes "same_match m m'" "take 10 (rev (mt_recentEvents m)) = take 10 (rev (mt_recentEvents m'))"
  shows "team_snapshot env m = team_snapshot env m'"
proof -
  have one: "seat_json env p = seat_json env q" if "seat_view p = seat_view q" for p q
  proof -
    have "map (jtext env) (map ad_name (pd_aliases p)) = map (jtext env) (map ad_name (pd_aliases q))"
      using that by (simp add: seat_view_def del: map_map)
    then have "map (\<lambda>a. jtext env (ad_name a)) (pd_aliases p) = map (\<lambda>a. jtext env (ad_name a)) (pd_aliases q)"
      by (simp add: comp_def)
    then show ?thesis using that by (simp add: seat_json_def seat_view_def)
  qed
  have "map (seat_json env) ps = map (seat_json env) qs" if "map seat_view ps = map seat_view qs" for ps qs
    using that
  proof (induction ps arbitrary: qs)
    case (Cons p ps)
    then obtain q qs' where q: "qs = q # qs'" "seat_view p = seat_view q" "map seat_view ps = map seat_view qs'" by (cases qs) auto
    show ?case using one [OF q(2)] Cons.IH [OF q(3)] by (simp add: q(1))
  qed simp
  then have "map (seat_json env) (mt_players m) = map (seat_json env) (mt_players m')"
    using assms(1) unfolding same_match_def by blast
  then show ?thesis using assms by (simp add: team_snapshot_def team_fields_def same_match_def)
qed

subsection \<open>Examples\<close>

definition blank_match :: match where
  "blank_match = demo_match\<lparr>mt_players := map (\<lambda>i. (demo_seat i)\<lparr>pd_name := []\<rparr>) [0..<8]\<rparr>"

definition blank_after :: match where "blank_after = blank_match\<lparr>mt_totalScoreRed := 1\<rparr>"

text \<open>A printer that knows these two matches.\<close>

definition sync_env :: match_env where
  "sync_env = demo_env\<lparr>
     me_dump := (\<lambda>j. if reread j = reread (team_snapshot demo_env blank_match) then Some [0]
       else if reread j = reread (team_snapshot demo_env blank_after) then Some [1] else None),
     me_parse := (\<lambda>s. if s = [0] then Some (reread (team_snapshot demo_env blank_match))
       else if s = [1] then Some (reread (team_snapshot demo_env blank_after)) else None)\<rparr>"

lemma sync_env_sel [simp]: "me_space sync_env = ascii_space" "me_to_utf8 sync_env = map ucast" "me_from_utf8 sync_env = map ucast"
  by (simp_all add: sync_env_def demo_env_def)

lemma sync_env_snapshot [simp]: "team_snapshot sync_env m = team_snapshot demo_env m"
proof -
  have "jtext sync_env s = jtext demo_env s" for s by (simp add: jtext_def demo_env_def)
  then have "seat_json sync_env = seat_json demo_env" "recent_json sync_env = recent_json demo_env"
    by (simp_all add: seat_json_def recent_json_def fun_eq_iff)
  then show ?thesis unfolding team_snapshot_def team_fields_def by simp
qed

lemma sync_env_prints: "prints_back sync_env"
  by (simp add: prints_back_def prints_back_with_def sync_env_def)

lemma blank_syncable: "syncable sync_env blank_match" "syncable sync_env blank_after"
proof -
  have line: "line_ok sync_env []" "DnfJsonUtf8 f [] = takeWhile (\<lambda>b. b \<noteq> 0) (f [])" for f
    by (simp_all add: line_ok_def clean_line_def jtext_def DnfJsonUtf8_def CA2W_def bad_line_def has_break_def)
  have same: "mt_players blank_after = mt_players blank_match" "mt_lastKillerTeam blank_after = - 1" "mt_lastKillerTeam blank_match = - 1"
    "mt_totalScoreBlue blank_after = 0" "mt_totalScoreBlue blank_match = 0" "mt_totalScoreRed blank_after = 1"
    "mt_totalScoreRed blank_match = 0"
    by (simp_all add: blank_after_def blank_match_def demo_match_def)
  have seats: "length (mt_players blank_match) = 8" "i < 8 \<Longrightarrow> seat_syncable sync_env i (mt_players blank_match ! i)"
    "sum_list (map (seat_bytes sync_env) (mt_players blank_match)) \<le> 48 * 1024" for i
    using line(1) by (simp_all add: blank_match_def seat_syncable_def demo_seat_def counter_ok_def merge_stable_def
        seat_bytes_def utf8_length_def line(2) comp_def)
  have dump: "me_dump sync_env (team_snapshot demo_env blank_match) = Some [0]"
    "me_dump sync_env (team_snapshot demo_env blank_after) = Some [0] \<or> me_dump sync_env (team_snapshot demo_env blank_after) = Some [1]"
    by (simp_all add: sync_env_def)
  show "syncable sync_env blank_match" using seats dump(1) by (simp add: syncable_def same counter_ok_def list_all_iff)
  show "syncable sync_env blank_after" using seats dump(2) by (auto simp: syncable_def same counter_ok_def list_all_iff)
qed

lemma exact_restore_round_trip_witness:
  "same_match (snd (ApplyTeamSyncSnapshot sync_env \<lparr>am_createBackup = False, am_automatic = False, am_preserveLocalFlip = False,
     am_exactRestore = True, am_label = [], am_source = []\<rparr> (team_snapshot sync_env blank_match) blank_after)) blank_match"
  by (rule exact_restore_round_trip [OF blank_syncable(1), THEN conjunct2]) (auto intro: prod_eqI)

definition fetched_match :: match where
  "fetched_match = blank_match\<lparr>mt_syncBaseline := reread (team_snapshot demo_env blank_match)\<rparr>"

definition by_hand :: apply_mode where
  "by_hand = \<lparr>am_createBackup = True, am_automatic = False, am_preserveLocalFlip = False, am_exactRestore = False, am_label = [], am_source = []\<rparr>"

lemma fetched_snapshot: "team_snapshot env fetched_match = team_snapshot env blank_match"
  by (rule team_snapshot_cong) (simp_all add: fetched_match_def)

lemma fetched_syncable: "syncable sync_env fetched_match"
proof -
  have "mt_players fetched_match = mt_players blank_match" "mt_totalScoreRed fetched_match = mt_totalScoreRed blank_match"
    "mt_totalScoreBlue fetched_match = mt_totalScoreBlue blank_match" "mt_lastKillerTeam fetched_match = mt_lastKillerTeam blank_match"
    by (simp_all add: fetched_match_def)
  then show ?thesis using blank_syncable(1) unfolding syncable_def fetched_snapshot by simp
qed

lemma by_hand_applied: "fst (ApplyTeamSyncSnapshot sync_env by_hand (team_snapshot sync_env blank_after) fetched_match) = Applied"
proof -
  obtain b where v: "ValidateTeamSyncSnapshot sync_env (team_snapshot sync_env blank_after) = Valid b"
    using syncable_validates [OF blank_syncable(2)] by blast
  have d: "me_dump sync_env (team_snapshot demo_env blank_match) = Some [0]"
    "me_parse sync_env [0] = Some (reread (team_snapshot demo_env blank_match))"
    by (simp_all add: sync_env_def)
  have go: "check_backup sync_env by_hand fetched_match = Go (reread (team_snapshot demo_env blank_match))"
    using d json_eq_reread [OF proper_no_float [OF team_proper], of demo_env blank_match]
    by (simp add: check_backup_def BuildTeamSyncSnapshotPayloadUnlocked_def fetched_snapshot by_hand_def)
      (simp add: fetched_match_def)
  have none: "fold (\<lambda>p known. let n = DnfTrimmedCopy ascii_space (pd_name p) in if n = [] then known else F p n known) ps k = k"
    if "list_all (\<lambda>p. pd_name p = []) ps" for F ps and k :: alias_map
    using that by (induction ps arbitrary: k) simp_all
  have "list_all (\<lambda>p. pd_name p = []) (mt_players fetched_match)" by (simp add: fetched_match_def blank_match_def list_all_iff)
  then have "local_aliases sync_env fetched_match = Map.empty" unfolding local_aliases_def sync_env_sel by (rule none)
  then have seats: "parse_seats sync_env False True fetched_match js = parse_seats sync_env False False fetched_match js" for js
    by (simp add: parse_seats_def)
  let ?mf = "apply_fields sync_env False (team_snapshot sync_env blank_after)
      (parse_seats sync_env False False fetched_match (elements (jget (ascii ''players'') (team_snapshot sync_env blank_after)))) fetched_match"
  have "take 10 (rev (mt_recentEvents ?mf)) = take 10 (rev (mt_recentEvents blank_after))"
    by (simp add: apply_fields_def Let_def fetched_match_def blank_after_def)
  then have "team_snapshot sync_env ?mf = team_snapshot sync_env blank_after"
    by (rule same_match_snapshot [OF fields_restored [OF blank_syncable(2)]])
  moreover have "\<exists>payload. me_dump sync_env (team_snapshot demo_env blank_after) = Some payload"
    by (simp add: sync_env_def)
  ultimately have "\<exists>payload. me_dump sync_env (team_snapshot sync_env ?mf) = Some payload" by simp
  then obtain payload where "BuildTeamSyncSnapshotPayloadUnlocked sync_env ?mf = Some payload"
    by (auto simp: BuildTeamSyncSnapshotPayloadUnlocked_def)
  moreover have "me_parse sync_env payload = Some (reread (team_snapshot sync_env ?mf))"
    using calculation prints_backD(2) [OF sync_env_prints team_proper] by (simp only: BuildTeamSyncSnapshotPayloadUnlocked_def)
  moreover have "mt_preferLocalAliases fetched_match = False" by (simp add: fetched_match_def blank_match_def demo_match_def)
  ultimately show ?thesis using v go seats
    by (simp add: ApplyTeamSyncSnapshot_def update_sync_state_def Let_def by_hand_def)
qed

lemma sync_undo_round_trip_witness:
  "same_match (snd (ApplyTeamSyncSnapshot sync_env (by_hand\<lparr>am_createBackup := False\<rparr>)
      (mt_syncBackup (snd (ApplyTeamSyncSnapshot sync_env by_hand (team_snapshot sync_env blank_after) fetched_match)))
      (snd (ApplyTeamSyncSnapshot sync_env by_hand (team_snapshot sync_env blank_after) fetched_match)))) fetched_match"
  by (rule sync_undo_round_trip [OF sync_env_prints fetched_syncable, where k = by_hand and u = "by_hand\<lparr>am_createBackup := False\<rparr>"
        and snapshot = "team_snapshot sync_env blank_after", THEN conjunct2, THEN conjunct1])
    (use by_hand_applied in \<open>auto simp: by_hand_def intro: prod_eqI\<close>)

text \<open>The menu lowers a score below zero, and then the match has no valid snapshot any more: another machine refuses it, and so does the history when it is to restore that state.\<close>

theorem score_below_zero_has_no_snapshot:
  assumes "mt_totalScoreRed m = 0" "\<not> mt_realtimeFollowing m" "length (mt_players m) = 8"
    "m' = OnRClickTree env busy (ScoreDown 0) m" "me_dump env (team_snapshot env m') = Some payload" "length payload \<le> 60 * 1024"
  shows "mt_totalScoreRed m' = - 1 \<and> ValidateTeamSyncSnapshot env (team_snapshot env m') = Invalid BadScore"
proof -
  have r: "mt_totalScoreRed m' = - 1" and p: "length (mt_players m') = 8"
    using assms(1-3) by (simp_all add: assms(4) OnRClickTree_def add_score_def)
  have "readCounter (ascii ''redScore'') 1000000 (team_snapshot env m') = None"
    using r by (simp add: readCounter_def snapshot_find)
  then show ?thesis using r p assms(5,6)
    by (simp add: ValidateTeamSyncSnapshot_def validate_header_def Let_def jvalue_int_def jvalue_def jget_def snapshot_find)
qed

lemma score_below_zero_has_no_snapshot_witness:
  "ValidateTeamSyncSnapshot (sync_env\<lparr>me_dump := \<lambda>_. Some []\<rparr>)
     (team_snapshot (sync_env\<lparr>me_dump := \<lambda>_. Some []\<rparr>) (OnRClickTree (sync_env\<lparr>me_dump := \<lambda>_. Some []\<rparr>) False (ScoreDown 0) blank_match)) = Invalid BadScore"
proof -
  have "mt_totalScoreRed blank_match = 0 \<and> \<not> mt_realtimeFollowing blank_match \<and> length (mt_players blank_match) = 8"
    by (simp add: blank_match_def demo_match_def)
  then show ?thesis
    using score_below_zero_has_no_snapshot [of blank_match _ "sync_env\<lparr>me_dump := \<lambda>_. Some []\<rparr>" False "[]", OF _ _ _ refl]
    by simp
qed

end
