(* ===== verification/MatchHistory.thy ===== *)
theory MatchHistory
  imports MatchSync
begin

text \<open>
  The operation history of the match (\<^verbatim>\<open>InitializeMatchHistory\<close> to \<^verbatim>\<open>MarkMatchMutation\<close>): every observed
  change becomes an entry with the snapshots before and after it, and undoing, redoing and going back to an
  entry apply one of them. Whether the files could be saved afterwards, and the text of the clock, are inputs.
  An exception that leaves an operation is the outcome \<open>Escaped\<close>.
\<close>

subsection \<open>What changed\<close>

fun nat_text :: "nat \<Rightarrow> wstr" where
  "nat_text n = (if n < 10 then [0x30 + of_nat n] else nat_text (n div 10) @ [0x30 + of_nat (n mod 10)])"

declare nat_text.simps [simp del]

definition int_text :: "int \<Rightarrow> wstr" where
  "int_text n = (if n < 0 then 0x2D # nat_text (nat (- n)) else nat_text (nat n))"

definition arrow :: wstr where "arrow = [0x2192]"

type_synonym parts = "wstr list option"

text \<open>Comparing two members, read with a default.\<close>

definition int_change :: "match_env \<Rightarrow> bytes \<Rightarrow> (int \<Rightarrow> int \<Rightarrow> wstr) \<Rightarrow> json \<Rightarrow> json \<Rightarrow> parts" where
  "int_change env k describe before after =
     do { a \<leftarrow> jvalue_int env k 0 before; b \<leftarrow> jvalue_int env k 0 after;
          Some (if a = b then [] else [describe a b]) }"

definition seat_counter_change :: "match_env \<Rightarrow> wstr \<Rightarrow> string \<times> wstr \<Rightarrow> json \<Rightarrow> json \<Rightarrow> parts" where
  "seat_counter_change env displayName field before after =
     int_change env (ascii (fst field))
       (\<lambda>a b. displayName @ [0x20] @ snd field @ [0x20] @ int_text a @ arrow @ int_text b) before after"

definition counter_fields :: "(string \<times> wstr) list" where
  "counter_fields = [(''kills'', [0x51FB, 0x6740]), (''deaths'', [0x6B7B, 0x4EA1]), (''akCount'', [0x0041, 0x004B]), (''currentStreak'', [0x8FDE, 0x80DC])]"

fun all_parts :: "parts list \<Rightarrow> parts" where
  "all_parts [] = Some []"
| "all_parts (p # ps) = do { x \<leftarrow> p; xs \<leftarrow> all_parts ps; Some (x @ xs) }"

definition empty_seat_text :: wstr where "empty_seat_text = [0x7A7A, 0x4F4D]"

definition seat_changes :: "match_env \<Rightarrow> nat \<Rightarrow> json \<Rightarrow> json \<Rightarrow> parts" where
  "seat_changes env index before after =
     do { beforeUtf8 \<leftarrow> jvalue_string (ascii ''name'') [] before; afterUtf8 \<leftarrow> jvalue_string (ascii ''name'') [] after;
          beforeAliases \<leftarrow> jvalue (ascii ''aliases'') (JArr []) before; afterAliases \<leftarrow> jvalue (ascii ''aliases'') (JArr []) after;
          beforeTeam \<leftarrow> jvalue_int env (ascii ''team'') (- 1) before; afterTeam \<leftarrow> jvalue_int env (ascii ''team'') (- 1) after;
          let beforeName = CA2W (me_from_utf8 env) beforeUtf8; afterName = CA2W (me_from_utf8 env) afterUtf8;
              number = nat_text (index + 1);
              displayName = or_default (or_default afterName beforeName) (number @ [0x53F7]) in
          do { counters \<leftarrow> all_parts (map (\<lambda>f. seat_counter_change env displayName f before after) counter_fields);
               Some ((if beforeName \<noteq> afterName then
                        [number @ [0x53F7, 0x540D, 0x79F0, 0x0020] @ or_default beforeName empty_seat_text @ arrow @ or_default afterName empty_seat_text]
                      else []) @
                     (if \<not> json_eq beforeAliases afterAliases then [displayName @ [0x0020, 0x6E38, 0x620F, 0x0049, 0x0044, 0x66F4, 0x65B0]] else []) @
                     (if beforeTeam \<noteq> afterTeam then [displayName @ [0x0020, 0x961F, 0x4F0D, 0x8C03, 0x6574]] else []) @ counters) } }"

definition all_seat_changes :: "match_env \<Rightarrow> json \<Rightarrow> json \<Rightarrow> parts" where
  "all_seat_changes env before after =
     do { bs \<leftarrow> jvalue (ascii ''players'') (JArr []) before; as' \<leftarrow> jvalue (ascii ''players'') (JArr []) after;
          if is_array bs \<and> is_array as' \<and> length (elements bs) = 8 \<and> length (elements as') = 8
          then all_parts (map (\<lambda>i. seat_changes env i (elements bs ! i) (elements as' ! i)) [0..<8])
          else Some [] }"

definition score_text :: "int \<Rightarrow> int \<Rightarrow> wstr" where "score_text r b = int_text r @ [0x3A] @ int_text b"

definition match_changes :: "match_env \<Rightarrow> json \<Rightarrow> json \<Rightarrow> parts" where
  "match_changes env before after =
     do { r1 \<leftarrow> jvalue_int env (ascii ''redScore'') 0 before; b1 \<leftarrow> jvalue_int env (ascii ''blueScore'') 0 before;
          r2 \<leftarrow> jvalue_int env (ascii ''redScore'') 0 after; b2 \<leftarrow> jvalue_int env (ascii ''blueScore'') 0 after;
          p1 \<leftarrow> jvalue_string (ascii ''redPickMode'') [] before; p2 \<leftarrow> jvalue_string (ascii ''redPickMode'') [] after;
          f1 \<leftarrow> jvalue_bool (ascii ''isFlipped'') False before; f2 \<leftarrow> jvalue_bool (ascii ''isFlipped'') False after;
          seats \<leftarrow> all_seat_changes env before after;
          e1 \<leftarrow> jvalue (ascii ''historyRecentEvents'') (JArr []) before;
          e2 \<leftarrow> jvalue (ascii ''historyRecentEvents'') (JArr []) after;
          let parts = (if r1 \<noteq> r2 \<or> b1 \<noteq> b2 then [[0x6BD4, 0x5206, 0x0020] @ score_text r1 b1 @ arrow @ score_text r2 b2] else []) @
                (if p1 \<noteq> p2 then [[0x9009, 0x4EBA, 0x987A, 0x5E8F]] else []) @ (if f1 \<noteq> f2 then [[0x7EA2, 0x84DD, 0x663E, 0x793A]] else []) @ seats @
                (if \<not> json_eq e1 e2 then [[0x8BC6, 0x522B, 0x8BB0, 0x5F55]] else []) in
          Some (if parts = [] then [[0x573A, 0x4E0A, 0x72B6, 0x6001]] else parts) }"

text \<open>The first four parts, and how many more there are.\<close>

fun join_parts :: "wstr list \<Rightarrow> wstr" where
  "join_parts [] = []"
| "join_parts [p] = p"
| "join_parts (p # q # ps) = p @ [0x3001] @ join_parts (q # ps)"

definition detail_text :: "wstr list \<Rightarrow> wstr" where
  "detail_text parts =
     join_parts (take 4 parts) @
     (if length parts > 4 then [0x3001, 0x53E6] @ nat_text (length parts - 4) @ [0x9879] else [])"

definition history_detail :: "match_env \<Rightarrow> bytes \<Rightarrow> bytes \<Rightarrow> wstr option" where
  "history_detail env beforeSnapshot afterSnapshot =
     (case (me_parse env beforeSnapshot, me_parse env afterSnapshot) of
        (Some before, Some after) \<Rightarrow>
          if is_object before \<and> is_object after then map_option detail_text (match_changes env before after)
          else Some (detail_text [[0x6BD4, 0x8D5B, 0x72B6, 0x6001]])
      | _ \<Rightarrow> Some (detail_text [[0x6BD4, 0x8D5B, 0x72B6, 0x6001]]))"

subsection \<open>Recording\<close>

definition clear_pending :: "match \<Rightarrow> match" where
  "clear_pending m = m\<lparr>mt_mutationPending := False, mt_pendingLabel := [], mt_pendingSource := []\<rparr>"

text \<open>Dropping the oldest entries until the limit holds.\<close>

definition trim_history :: "match \<Rightarrow> match" where
  "trim_history m =
     (let surplus = length (mt_history m) - nat (mt_historyMaxSteps m)
      in m\<lparr>mt_history := drop surplus (mt_history m), mt_historyCursor := mt_historyCursor m - surplus\<rparr>)"

definition next_id :: "match \<Rightarrow> u64 \<times> match" where
  "next_id m =
     (let i = mt_historyNextId m; m = m\<lparr>mt_historyNextId := i + 1\<rparr> in
      if i = 0 then (mt_historyNextId m, m\<lparr>mt_historyNextId := mt_historyNextId m + 1\<rparr>) else (i, m))"

text \<open>The first component tells whether an exception left the operation.\<close>

definition RecordMatchHistoryTransition ::
  "match_env \<Rightarrow> wstr \<Rightarrow> bytes \<Rightarrow> bytes \<Rightarrow> wstr \<Rightarrow> wstr \<Rightarrow> match \<Rightarrow> bool \<times> match" where
  "RecordMatchHistoryTransition env timeText beforeSnapshot afterSnapshot label source m =
     (if \<not> mt_historyReady m \<or> mt_historyApplying m \<or> beforeSnapshot = [] \<or> afterSnapshot = [] \<or> beforeSnapshot = afterSnapshot
      then (False, m)
      else
        let (entryId, m) = next_id m in
        case history_detail env beforeSnapshot afterSnapshot of
          None \<Rightarrow> (True, m)
        | Some detail \<Rightarrow>
            let entry = \<lparr>he_id = entryId, he_label = or_default label default_label, he_source = or_default source default_source,
                  he_timeText = timeText, he_detail = detail, he_beforeSnapshot = beforeSnapshot, he_afterSnapshot = afterSnapshot\<rparr>;
                es = take (mt_historyCursor m) (mt_history m) @ [entry]
            in (False, clear_pending (trim_history (m\<lparr>mt_history := es, mt_historyCursor := length es\<rparr>))))"

definition InitializeMatchHistory :: "match_env \<Rightarrow> match \<Rightarrow> match" where
  "InitializeMatchHistory env m =
     (let m = clear_pending (m\<lparr>mt_history := [], mt_historyCursor := 0, mt_historyNextId := 1, mt_historyApplying := False,
             mt_historyReady := True\<rparr>)
      in m\<lparr>mt_observedSnapshot := (case BuildMatchHistorySnapshotPayloadUnlocked env m of Some s \<Rightarrow> s | None \<Rightarrow> [])\<rparr>)"

definition ObserveMatchHistoryState :: "match_env \<Rightarrow> wstr \<Rightarrow> match \<Rightarrow> bool \<times> match" where
  "ObserveMatchHistoryState env timeText m =
     (if \<not> mt_historyReady m then (False, m)
      else
        (case BuildMatchHistorySnapshotPayloadUnlocked env m of
           None \<Rightarrow> (False, m)
         | Some current \<Rightarrow>
             if current = [] then (False, m)
             else if mt_historyApplying m then (False, clear_pending (m\<lparr>mt_observedSnapshot := current\<rparr>))
             else if mt_observedSnapshot m = [] then (False, m\<lparr>mt_observedSnapshot := current, mt_mutationPending := False\<rparr>)
             else if current = mt_observedSnapshot m then (False, clear_pending m)
             else
               let label = (if mt_mutationPending m then or_default (mt_pendingLabel m) default_label else default_label);
                   source = (if mt_mutationPending m then or_default (mt_pendingSource m) default_source else default_source);
                   (threw, m) = RecordMatchHistoryTransition env timeText (mt_observedSnapshot m) current label source m
               in if threw then (True, m) else (False, clear_pending (m\<lparr>mt_observedSnapshot := current\<rparr>))))"

subsection \<open>Applying an entry\<close>

datatype history_error =
    BadSize | BadHistoryVersion | BadEvents | BadEventFormat | BadEventText | BadEventParse | SyncError sync_error
  | NothingToUndo | NothingToRedo | NoSuchEntry | SaveFailed | BadMaxSteps

datatype history_outcome = Succeeded | Failed history_error | Escaped

definition read_text :: "match_env \<Rightarrow> string \<Rightarrow> nat \<Rightarrow> json \<Rightarrow> wstr option" where
  "read_text env k maxBytes j =
     (case json_find (ascii k) j of
        Some (JStr s) \<Rightarrow> if length s > maxBytes \<or> has_break s then None else Some (CA2W (me_from_utf8 env) s)
      | _ \<Rightarrow> None)"

text \<open>The texts of an event, \<open>None\<close> where one is refused.\<close>

definition read_texts :: "match_env \<Rightarrow> json \<Rightarrow> RecentEvent option" where
  "read_texts env j =
     do { killer \<leftarrow> read_text env ''killer'' 4096 j; dead \<leftarrow> read_text env ''dead'' 4096 j;
          timeText \<leftarrow> read_text env ''timeText'' 4096 j; status \<leftarrow> read_text env ''status'' 4096 j;
          ocrSummary \<leftarrow> read_text env ''ocrSummary'' 8192 j; candidateSummary \<leftarrow> read_text env ''candidateSummary'' 8192 j;
          algorithmName \<leftarrow> read_text env ''algorithmName'' 1024 j; snapshotPath \<leftarrow> read_text env ''snapshotPath'' 4096 j;
          Some ((new_event 0)\<lparr>re_killer := killer, re_dead := dead, re_timeText := timeText, re_status := status,
            re_ocrSummary := ocrSummary, re_candidateSummary := candidateSummary, re_algorithmName := algorithmName,
            re_snapshotPath := snapshotPath\<rparr>) }"

definition jvalue_dword :: "match_env \<Rightarrow> bytes \<Rightarrow> json \<Rightarrow> dword option" where
  "jvalue_dword env k j =
     (case jvalue k (JUInt 0) j of
        Some (JInt n) \<Rightarrow> Some (ucast n)
      | Some (JUInt n) \<Rightarrow> Some (ucast n)
      | Some (JFloat bits) \<Rightarrow> Some (word_of_int (me_float_int env bits))
      | Some (JBool b) \<Rightarrow> Some (if b then 1 else 0)
      | _ \<Rightarrow> None)"

text \<open>The numbers and flags, \<open>None\<close> where an accessor throws.\<close>

definition read_numbers :: "match_env \<Rightarrow> json \<Rightarrow> RecentEvent \<Rightarrow> RecentEvent option" where
  "read_numbers env j e =
     do { eid \<leftarrow> jvalue_int env (ascii ''id'') 0 j; tick \<leftarrow> jvalue_dword env (ascii ''time'') j;
          triggerSide \<leftarrow> jvalue_int env (ascii ''triggerSide'') (- 1) j;
          killerIdx \<leftarrow> jvalue_int env (ascii ''killerIdx'') (- 1) j; deadIdx \<leftarrow> jvalue_int env (ascii ''deadIdx'') (- 1) j;
          killerTeam \<leftarrow> jvalue_int env (ascii ''killerTeam'') (- 1) j; deadTeam \<leftarrow> jvalue_int env (ascii ''deadTeam'') (- 1) j;
          redScoreDelta \<leftarrow> jvalue_int env (ascii ''redScoreDelta'') 0 j;
          blueScoreDelta \<leftarrow> jvalue_int env (ascii ''blueScoreDelta'') 0 j; akDelta \<leftarrow> jvalue_int env (ascii ''akDelta'') 0 j;
          statsApplied \<leftarrow> jvalue_bool (ascii ''statsApplied'') False j; undone \<leftarrow> jvalue_bool (ascii ''undone'') False j;
          cloudSynced \<leftarrow> jvalue_bool (ascii ''cloudSynced'') False j; readOnly \<leftarrow> jvalue_bool (ascii ''readOnly'') False j;
          Some (e\<lparr>re_id := eid, re_time := tick, re_triggerSide := triggerSide, re_killerIdx := killerIdx,
            re_deadIdx := deadIdx, re_killerTeam := killerTeam, re_deadTeam := deadTeam, re_redScoreDelta := redScoreDelta,
            re_blueScoreDelta := blueScoreDelta, re_akDelta := akDelta, re_statsApplied := statsApplied, re_undone := undone,
            re_cloudSynced := cloudSynced, re_readOnly := readOnly\<rparr>) }"

fun read_events :: "match_env \<Rightarrow> json list \<Rightarrow> history_error + RecentEvent list" where
  "read_events env [] = Inr []"
| "read_events env (j # js) =
     (if \<not> is_object j then Inl BadEventFormat
      else
        (case read_texts env j of
           None \<Rightarrow> Inl BadEventText
         | Some e \<Rightarrow>
             (case read_numbers env j e of
                None \<Rightarrow> Inl BadEventParse
              | Some e \<Rightarrow> (case read_events env js of Inl err \<Rightarrow> Inl err | Inr es \<Rightarrow> Inr (e # es)))))"

definition core_snapshot :: "json \<Rightarrow> json" where
  "core_snapshot j =
     json_erase (ascii ''historyRecentEvents'') (json_erase (ascii ''historyTeamSyncEventBoundaryId'')
       (json_erase (ascii ''historyPendingTeamScoreWin'') (json_erase (ascii ''historyVersion'') j)))"

definition exact_mode :: apply_mode where
  "exact_mode = \<lparr>am_createBackup = False, am_automatic = False, am_preserveLocalFlip = False, am_exactRestore = True,
     am_label = [], am_source = []\<rparr>"

text \<open>The events are set before the two flags are read, which may throw.\<close>

definition restore_events :: "match_env \<Rightarrow> json \<Rightarrow> RecentEvent list \<Rightarrow> match \<Rightarrow> history_outcome \<times> match" where
  "restore_events env full es m =
     (let m = m\<lparr>mt_recentEvents := es\<rparr> in
      case jvalue_bool (ascii ''historyPendingTeamScoreWin'') False full of
        None \<Rightarrow> (Escaped, m)
      | Some pending \<Rightarrow>
          let m = m\<lparr>mt_pendingTeamScoreWin := pending\<rparr> in
          (case jvalue_int env (ascii ''historyTeamSyncEventBoundaryId'') 0 full of
             None \<Rightarrow> (Escaped, m)
           | Some boundary \<Rightarrow> (Succeeded, m\<lparr>mt_eventBoundary := boundary\<rparr>)))"

definition apply_core :: "match_env \<Rightarrow> json \<Rightarrow> RecentEvent list \<Rightarrow> match \<Rightarrow> history_outcome \<times> match" where
  "apply_core env full es m =
     (case ApplyTeamSyncSnapshot env exact_mode (core_snapshot full) (m\<lparr>mt_historyApplying := True\<rparr>) of
        (Applied, m') \<Rightarrow> (case restore_events env full es m' of (r, m'') \<Rightarrow> (r, m''\<lparr>mt_historyApplying := False\<rparr>))
      | (Refused e, m') \<Rightarrow> (Failed (SyncError e), m'\<lparr>mt_historyApplying := False\<rparr>)
      | (Thrown, m') \<Rightarrow> (Escaped, m'\<lparr>mt_historyApplying := False\<rparr>))"

definition ApplyMatchHistorySnapshot :: "match_env \<Rightarrow> bytes \<Rightarrow> match \<Rightarrow> history_outcome \<times> match" where
  "ApplyMatchHistorySnapshot env snapshotPayload m =
     (if snapshotPayload = [] \<or> length snapshotPayload > 512 * 1024 then (Failed BadSize, m)
      else
        (case me_parse env snapshotPayload of
           None \<Rightarrow> (Failed BadHistoryVersion, m)
         | Some full \<Rightarrow>
             if \<not> is_object full then (Failed BadHistoryVersion, m)
             else
               (case (jvalue_int env (ascii ''historyVersion'') 0 full, jvalue (ascii ''historyRecentEvents'') (JArr []) full) of
                  (Some version, Some events) \<Rightarrow>
                    if version \<noteq> 1 then (Failed BadHistoryVersion, m)
                    else if \<not> is_array events \<or> length (elements events) > 100 then (Failed BadEvents, m)
                    else (case read_events env (elements events) of
                            Inl e \<Rightarrow> (Failed e, m)
                          | Inr es \<Rightarrow> apply_core env full es m)
                | _ \<Rightarrow> (Escaped, m))))"

subsection \<open>Undo, redo, and going back to an entry\<close>

text \<open>After a snapshot has been applied: the new cursor, and what is there is taken as observed.\<close>

definition finish_history :: "match_env \<Rightarrow> bool \<Rightarrow> nat \<Rightarrow> match \<Rightarrow> history_outcome \<times> match" where
  "finish_history env saved cursor m =
     (let m = m\<lparr>mt_historyCursor := cursor\<rparr>;
          m = m\<lparr>mt_observedSnapshot := (case BuildMatchHistorySnapshotPayloadUnlocked env m of Some s \<Rightarrow> s | None \<Rightarrow> [])\<rparr>
      in (if saved then Succeeded else Failed SaveFailed, m))"

definition apply_and_finish :: "match_env \<Rightarrow> bool \<Rightarrow> bytes \<Rightarrow> nat \<Rightarrow> match \<Rightarrow> history_outcome \<times> match" where
  "apply_and_finish env saved snapshot cursor m =
     (case ApplyMatchHistorySnapshot env snapshot m of
        (Succeeded, m') \<Rightarrow> finish_history env saved cursor m'
      | r \<Rightarrow> r)"

definition UndoMatchHistory :: "match_env \<Rightarrow> wstr \<Rightarrow> bool \<Rightarrow> match \<Rightarrow> history_outcome \<times> match" where
  "UndoMatchHistory env timeText saved m =
     (let (threw, m) = ObserveMatchHistoryState env timeText m in
      if threw then (Escaped, m)
      else if mt_historyCursor m = 0 then (Failed NothingToUndo, m)
      else apply_and_finish env saved (he_beforeSnapshot (mt_history m ! (mt_historyCursor m - 1))) (mt_historyCursor m - 1) m)"

definition RedoMatchHistory :: "match_env \<Rightarrow> wstr \<Rightarrow> bool \<Rightarrow> match \<Rightarrow> history_outcome \<times> match" where
  "RedoMatchHistory env timeText saved m =
     (let (threw, m) = ObserveMatchHistoryState env timeText m in
      if threw then (Escaped, m)
      else if mt_historyCursor m \<ge> length (mt_history m) then (Failed NothingToRedo, m)
      else apply_and_finish env saved (he_afterSnapshot (mt_history m ! mt_historyCursor m)) (mt_historyCursor m + 1) m)"

definition RestoreMatchHistoryToEntry :: "match_env \<Rightarrow> wstr \<Rightarrow> bool \<Rightarrow> u64 \<Rightarrow> match \<Rightarrow> history_outcome \<times> match" where
  "RestoreMatchHistoryToEntry env timeText saved entryId m =
     (let (threw, m) = ObserveMatchHistoryState env timeText m;
          index = length (takeWhile (\<lambda>e. he_id e \<noteq> entryId) (mt_history m)) in
      if threw then (Escaped, m)
      else if index \<ge> length (mt_history m) then (Failed NoSuchEntry, m)
      else if index + 1 = mt_historyCursor m then (Succeeded, m)
      else apply_and_finish env saved (he_afterSnapshot (mt_history m ! index)) (index + 1) m)"

definition SetMatchHistoryMaxSteps :: "int \<Rightarrow> match \<Rightarrow> history_outcome \<times> match" where
  "SetMatchHistoryMaxSteps maxSteps m =
     (if maxSteps < 1 \<or> maxSteps > 200 then (Failed BadMaxSteps, m)
      else (Succeeded, trim_history (m\<lparr>mt_historyMaxSteps := maxSteps\<rparr>)))"

text \<open>What the web page is shown.\<close>

definition history_entry_json :: "match_env \<Rightarrow> nat \<Rightarrow> nat \<Rightarrow> MatchHistoryEntry \<Rightarrow> json" where
  "history_entry_json env cursor index e = make_object
     [(ascii ''id'', JUInt (he_id e)), (ascii ''step'', JUInt (of_nat (index + 1))), (ascii ''label'', jtext env (he_label e)),
      (ascii ''source'', jtext env (he_source e)), (ascii ''time'', jtext env (he_timeText e)),
      (ascii ''detail'', jtext env (he_detail e)), (ascii ''applied'', JBool (index < cursor)),
      (ascii ''current'', JBool (index + 1 = cursor)), (ascii ''redo'', JBool (index \<ge> cursor))]"

definition BuildMatchHistoryStateJson :: "match_env \<Rightarrow> match \<Rightarrow> json" where
  "BuildMatchHistoryStateJson env m = make_object
     [(ascii ''maxSteps'', jint (mt_historyMaxSteps m)), (ascii ''cursor'', JUInt (of_nat (mt_historyCursor m))),
      (ascii ''canUndo'', JBool (mt_historyCursor m > 0)),
      (ascii ''canRedo'', JBool (mt_historyCursor m < length (mt_history m))),
      (ascii ''entries'', JArr (map2 (history_entry_json env (mt_historyCursor m)) [0..<length (mt_history m)] (mt_history m)))]"

subsection \<open>A history snapshot reads back\<close>

lemma json_set_make: "json_set k v (make_object kvs) = make_object (kvs @ [(k, v)])"
  by (simp add: make_object_def)

lemma filter_insert_key: "k \<notin> fst ` set l \<Longrightarrow> filter (\<lambda>kv. fst kv \<noteq> k) (insert_key k v l) = l"
proof (induction k v l rule: insert_key.induct)
  case (2 k v k' v' l)
  then have "filter (\<lambda>kv. fst kv \<noteq> k) l = l" by (auto simp: filter_id_conv)
  then show ?case using 2 by auto
qed simp

lemma insert_key_keys: "fst ` set (insert_key k v l) = insert k (fst ` set l)"
  by (induction k v l rule: insert_key.induct) auto

lemma fold_insert_keys: "fst ` set (fold (\<lambda>(k, v). insert_key k v) kvs l) = fst ` set kvs \<union> fst ` set l"
  by (induction kvs arbitrary: l) (auto simp: insert_key_keys split: prod.splits)

lemma json_erase_last: "k \<notin> fst ` set kvs \<Longrightarrow> json_erase k (make_object (kvs @ [(k, v)])) = make_object kvs"
  using filter_insert_key [of k "fold (\<lambda>(k, v). insert_key k v) kvs []" v] fold_insert_keys [of kvs "[]"]
  by (simp add: make_object_def)

definition history_fields :: "match_env \<Rightarrow> match \<Rightarrow> (bytes \<times> json) list" where
  "history_fields env m =
     [(ascii ''historyVersion'', jint 1), (ascii ''historyPendingTeamScoreWin'', JBool (mt_pendingTeamScoreWin m)),
      (ascii ''historyTeamSyncEventBoundaryId'', jint (mt_eventBoundary m)),
      (ascii ''historyRecentEvents'', JArr (map (history_event_json env) (last_events 100 (mt_recentEvents m))))]"

definition full_snapshot :: "match_env \<Rightarrow> match \<Rightarrow> json" where
  "full_snapshot env m = make_object (team_fields env m @ history_fields env m)"

lemma full_snapshot_add: "add_history_fields env m (team_snapshot env m) = full_snapshot env m"
  by (simp add: add_history_fields_def team_snapshot_def full_snapshot_def history_fields_def json_set_make)

lemma team_keys: "fst ` set (team_fields env m) =
    {ascii ''version'', ascii ''redScore'', ascii ''blueScore'', ascii ''redPickMode'', ascii ''isFlipped'',
     ascii ''outputSeatLabelToKillFile'', ascii ''lastKillerTeam'', ascii ''players'', ascii ''recentEvents''}"
  by (simp add: team_fields_def)

lemma core_full: "core_snapshot (full_snapshot env m) = team_snapshot env m"
proof -
  let ?t = "team_fields env m" let ?a = "(ascii ''historyVersion'', jint 1)"
  let ?b = "(ascii ''historyPendingTeamScoreWin'', JBool (mt_pendingTeamScoreWin m))"
  let ?c = "(ascii ''historyTeamSyncEventBoundaryId'', jint (mt_eventBoundary m))"
  let ?d = "(ascii ''historyRecentEvents'', JArr (map (history_event_json env) (last_events 100 (mt_recentEvents m))))"
  have comm: "json_erase k (json_erase k' j) = json_erase k' (json_erase k j)" for k k' j
    by (cases j) (simp_all add: conj_commute)
  have "core_snapshot j = json_erase (ascii ''historyVersion'') (json_erase (ascii ''historyPendingTeamScoreWin'')
      (json_erase (ascii ''historyTeamSyncEventBoundaryId'') (json_erase (ascii ''historyRecentEvents'') j)))" for j
    unfolding core_snapshot_def by (metis comm)
  moreover have "full_snapshot env m = make_object ((((?t @ [?a]) @ [?b]) @ [?c]) @ [?d])"
    by (simp add: full_snapshot_def history_fields_def)
  moreover have "json_erase (fst ?d) (make_object ((((?t @ [?a]) @ [?b]) @ [?c]) @ [?d])) = make_object (((?t @ [?a]) @ [?b]) @ [?c])"
    "json_erase (fst ?c) (make_object (((?t @ [?a]) @ [?b]) @ [?c])) = make_object ((?t @ [?a]) @ [?b])"
    "json_erase (fst ?b) (make_object ((?t @ [?a]) @ [?b])) = make_object (?t @ [?a])"
    "json_erase (fst ?a) (make_object (?t @ [?a])) = make_object ?t"
    unfolding fst_conv by (rule json_erase_last, simp add: team_keys image_Un)+
  ultimately show ?thesis by (simp only: fst_conv team_snapshot_def)
qed

lemma full_find:
  "json_find (ascii ''historyVersion'') (full_snapshot env m) = Some (jint 1)"
  "json_find (ascii ''historyPendingTeamScoreWin'') (full_snapshot env m) = Some (JBool (mt_pendingTeamScoreWin m))"
  "json_find (ascii ''historyTeamSyncEventBoundaryId'') (full_snapshot env m) = Some (jint (mt_eventBoundary m))"
  "json_find (ascii ''historyRecentEvents'') (full_snapshot env m) =
     Some (JArr (map (history_event_json env) (last_events 100 (mt_recentEvents m))))"
  "is_object (full_snapshot env m)"
  by (simp_all add: full_snapshot_def history_fields_def)

subsection \<open>The events read back\<close>

definition text_storable :: "match_env \<Rightarrow> nat \<Rightarrow> wstr \<Rightarrow> bool" where
  "text_storable env maxBytes s \<longleftrightarrow> utf8_length env s \<le> maxBytes \<and> \<not> has_break (DnfJsonUtf8 (me_to_utf8 env) s) \<and>
     CA2W (me_from_utf8 env) (DnfJsonUtf8 (me_to_utf8 env) s) = s"

definition int_storable :: "int \<Rightarrow> bool" where "int_storable n \<longleftrightarrow> - (2 ^ 31) \<le> n \<and> n < 2 ^ 31"

definition event_storable :: "match_env \<Rightarrow> RecentEvent \<Rightarrow> bool" where
  "event_storable env e \<longleftrightarrow>
     list_all (text_storable env 4096) [re_killer e, re_dead e, re_timeText e, re_status e, re_snapshotPath e] \<and>
     list_all (text_storable env 8192) [re_ocrSummary e, re_candidateSummary e] \<and>
     text_storable env 1024 (re_algorithmName e) \<and>
     list_all int_storable [re_id e, re_triggerSide e, re_killerIdx e, re_deadIdx e, re_killerTeam e, re_deadTeam e,
       re_redScoreDelta e, re_blueScoreDelta e, re_akDelta e]"

lemma int_storable_wrap [simp]: "int_storable n \<Longrightarrow> wrap32 (word_of_int n) = n"
  by (rule wrap32_jint) (simp_all add: int_storable_def)

lemma event_json_find:
  "json_find (ascii ''id'') (history_event_json env e) = Some (jint (re_id e))"
  "json_find (ascii ''killer'') (history_event_json env e) = Some (jtext env (re_killer e))"
  "json_find (ascii ''dead'') (history_event_json env e) = Some (jtext env (re_dead e))"
  "json_find (ascii ''time'') (history_event_json env e) = Some (JUInt (ucast (re_time e)))"
  "json_find (ascii ''timeText'') (history_event_json env e) = Some (jtext env (re_timeText e))"
  "json_find (ascii ''triggerSide'') (history_event_json env e) = Some (jint (re_triggerSide e))"
  "json_find (ascii ''killerIdx'') (history_event_json env e) = Some (jint (re_killerIdx e))"
  "json_find (ascii ''deadIdx'') (history_event_json env e) = Some (jint (re_deadIdx e))"
  "json_find (ascii ''killerTeam'') (history_event_json env e) = Some (jint (re_killerTeam e))"
  "json_find (ascii ''deadTeam'') (history_event_json env e) = Some (jint (re_deadTeam e))"
  "json_find (ascii ''redScoreDelta'') (history_event_json env e) = Some (jint (re_redScoreDelta e))"
  "json_find (ascii ''blueScoreDelta'') (history_event_json env e) = Some (jint (re_blueScoreDelta e))"
  "json_find (ascii ''akDelta'') (history_event_json env e) = Some (jint (re_akDelta e))"
  "json_find (ascii ''statsApplied'') (history_event_json env e) = Some (JBool (re_statsApplied e))"
  "json_find (ascii ''undone'') (history_event_json env e) = Some (JBool (re_undone e))"
  "json_find (ascii ''status'') (history_event_json env e) = Some (jtext env (re_status e))"
  "json_find (ascii ''ocrSummary'') (history_event_json env e) = Some (jtext env (re_ocrSummary e))"
  "json_find (ascii ''candidateSummary'') (history_event_json env e) = Some (jtext env (re_candidateSummary e))"
  "json_find (ascii ''algorithmName'') (history_event_json env e) = Some (jtext env (re_algorithmName e))"
  "json_find (ascii ''snapshotPath'') (history_event_json env e) = Some (jtext env (re_snapshotPath e))"
  "json_find (ascii ''cloudSynced'') (history_event_json env e) = Some (JBool (re_cloudSynced e))"
  "json_find (ascii ''readOnly'') (history_event_json env e) = Some (JBool (re_readOnly e))"
  "is_object (history_event_json env e)"
  by (simp_all add: history_event_json_def)

lemma read_text_back:
  "json_find (ascii k) j = Some (jtext env s) \<Longrightarrow> text_storable env n s \<Longrightarrow> read_text env k n j = Some s"
  by (simp add: read_text_def jtext_def text_storable_def utf8_length_def)

lemma read_event_back:
  assumes "event_storable env e"
  shows "\<exists>e'. read_texts env (history_event_json env e) = Some e' \<and> read_numbers env (history_event_json env e) e' = Some e"
proof -
  have tick: "(ucast (ucast t :: 64 word) :: dword) = t" for t :: dword by transfer simp
  note t = assms [unfolded event_storable_def, simplified]
  have "read_texts env (history_event_json env e) = Some ((new_event 0)\<lparr>re_killer := re_killer e, re_dead := re_dead e,
      re_timeText := re_timeText e, re_status := re_status e, re_ocrSummary := re_ocrSummary e,
      re_candidateSummary := re_candidateSummary e, re_algorithmName := re_algorithmName e, re_snapshotPath := re_snapshotPath e\<rparr>)"
    using t by (simp add: read_texts_def read_text_back event_json_find)
  moreover have "read_numbers env (history_event_json env e) ((new_event 0)\<lparr>re_killer := re_killer e, re_dead := re_dead e,
      re_timeText := re_timeText e, re_status := re_status e, re_ocrSummary := re_ocrSummary e,
      re_candidateSummary := re_candidateSummary e, re_algorithmName := re_algorithmName e, re_snapshotPath := re_snapshotPath e\<rparr>) = Some e"
    using t by (simp add: read_numbers_def jvalue_int_def jvalue_dword_def jvalue_bool_def jvalue_def event_json_find tick new_event_def)
  ultimately show ?thesis by blast
qed

lemma read_events_back: "list_all (event_storable env) es \<Longrightarrow> read_events env (map (history_event_json env) es) = Inr es"
proof (induction es)
  case (Cons e es)
  then obtain e' where "read_texts env (history_event_json env e) = Some e'" "read_numbers env (history_event_json env e) e' = Some e"
    using read_event_back [of env e] by auto
  then show ?case using Cons by (simp add: event_json_find)
qed simp

subsection \<open>Applying a snapshot of the history restores it\<close>

definition storable :: "match_env \<Rightarrow> match \<Rightarrow> bool" where
  "storable env m \<longleftrightarrow> syncable env m \<and> list_all (event_storable env) (last_events 100 (mt_recentEvents m)) \<and>
     int_storable (mt_eventBoundary m) \<and>
     (case BuildMatchHistorySnapshotPayloadUnlocked env m of Some s \<Rightarrow> s \<noteq> [] \<and> length s \<le> 512 * 1024 | None \<Rightarrow> False)"

lemma last_events_last [simp]: "last_events n (last_events n es) = last_events n es" "length (last_events n es) \<le> n"
  by (auto simp: last_events_def)

lemma last_events_100 [simp]: "\<not> 100 < length (last_events 100 es)" using last_events_last(2) [of 100 es] by linarith

lemma rev_last_events: "rev (last_events n es) = take n (rev es)"
  by (cases "length es \<le> n") (simp_all add: last_events_def rev_drop)

lemma take_last_events: "take 10 (rev (last_events 100 es)) = take 10 (rev es)"
  by (simp add: rev_last_events)

lemma reread_set: "reread (json_set k v (reread j)) = reread (json_set k v j)"
proof (cases j)
  case (JObj kvs)
  have "map (\<lambda>(k, v). (k, reread v)) (insert_key k v (map (\<lambda>(k, v). (k, reread v)) kvs)) = map (\<lambda>(k, v). (k, reread v)) (insert_key k v kvs)"
    using reread_insert_key [of k v "map (\<lambda>(k, v). (k, reread v)) kvs"] reread_insert_key [of k v kvs]
    by (simp add: comp_def split_def)
  then show ?thesis using JObj by simp
qed simp_all

lemma proper_set: "proper j \<Longrightarrow> proper v \<Longrightarrow> proper (json_set k v j)"
  by (cases j) (simp_all add: insert_key_sorted proper_insert_key)

lemma history_events_proper: "proper (JArr (map (history_event_json env) es))"
  by (simp add: list_all_iff history_event_json_def jtext_def jint_def)

lemma add_history_proper: "proper j \<Longrightarrow> proper (add_history_fields env m j)"
  using history_events_proper [of env] by (simp add: add_history_fields_def proper_set jint_def)

lemma add_history_reread: "reread (add_history_fields env m (reread j)) = reread (add_history_fields env m j)"
  unfolding add_history_fields_def by (metis reread_set)

lemma full_proper: "proper (full_snapshot env m)"
  using add_history_proper [OF team_proper] by (simp add: full_snapshot_add [symmetric])

lemma build_eq:
  assumes "prints_back env"
  shows "BuildMatchHistorySnapshotPayloadUnlocked env m =
     (if me_dump env (team_snapshot env m) = None then None else me_dump env (full_snapshot env m))"
proof -
  have "me_dump env (add_history_fields env m (reread (team_snapshot env m))) = me_dump env (full_snapshot env m)"
    using prints_backD(1) [OF assms, of "add_history_fields env m (reread (team_snapshot env m))"] prints_backD(1) [OF assms, of "full_snapshot env m"]
      add_history_proper [OF proper_reread [OF team_proper]] full_proper
    by (simp add: add_history_reread full_snapshot_add)
  then show ?thesis using prints_backD(2) [OF assms, of "team_snapshot env m"] team_proper [of env m]
    by (auto simp: BuildMatchHistorySnapshotPayloadUnlocked_def BuildTeamSyncSnapshotPayloadUnlocked_def split: option.splits)
qed

lemma build_parses:
  assumes "prints_back env" "BuildMatchHistorySnapshotPayloadUnlocked env m = Some s"
  shows "me_parse env s = Some (reread (full_snapshot env m))"
  using assms(2) prints_backD(2) [OF assms(1) full_proper] by (auto simp: build_eq [OF assms(1)] split: if_splits)

lemma read_text_reread: "read_text env k n (reread j) = read_text env k n j"
  by (cases "json_find (ascii k) j"; case_tac "the (json_find (ascii k) j)") (simp_all add: read_text_def)

lemma jvalue_dword_reread: "jvalue_dword env k (reread j) = jvalue_dword env k j"
  unfolding jvalue_dword_def jvalue_def by (auto split: option.splits json.splits if_splits)

lemma read_events_reread: "read_events env (map reread js) = read_events env js"
proof -
  have "read_texts env (reread j) = read_texts env j" "read_numbers env (reread j) = read_numbers env j" for j
    unfolding read_texts_def read_numbers_def read_text_reread jvalue_dword_reread jvalue_reread fun_eq_iff by simp_all
  then show ?thesis by (induction js) (simp_all cong: option.case_cong)
qed

lemma restore_events_reread: "restore_events env (reread full) = restore_events env full"
  unfolding restore_events_def jvalue_reread fun_eq_iff by simp

lemma core_reread: "core_snapshot (reread j) = reread (core_snapshot j)"
  by (simp add: core_snapshot_def)

lemma full_snapshot_cong:
  assumes "same_match m m'" "last_events 100 (mt_recentEvents m) = last_events 100 (mt_recentEvents m')"
    "mt_pendingTeamScoreWin m = mt_pendingTeamScoreWin m'" "mt_eventBoundary m = mt_eventBoundary m'"
  shows "team_snapshot env m = team_snapshot env m' \<and> full_snapshot env m = full_snapshot env m'"
proof -
  have "take 10 (rev (mt_recentEvents m)) = take 10 (rev (mt_recentEvents m'))"
    using assms(2) take_last_events by metis
  note ev = this
  have "team_snapshot env m = team_snapshot env m'" by (rule same_match_snapshot [OF assms(1) ev])
  moreover have "full_snapshot env m = add_history_fields env m (team_snapshot env m)" for m by (simp add: full_snapshot_add)
  moreover have "add_history_fields env m j = add_history_fields env m' j" for j using assms(2-4) by (simp add: add_history_fields_def)
  ultimately show ?thesis by metis
qed

text \<open>The fields of the history that an exact application leaves alone.\<close>

definition same_history :: "match \<Rightarrow> match \<Rightarrow> bool" where
  "same_history m m' \<longleftrightarrow> mt_history m = mt_history m' \<and> mt_historyCursor m = mt_historyCursor m' \<and>
     mt_historyNextId m = mt_historyNextId m' \<and> mt_historyMaxSteps m = mt_historyMaxSteps m' \<and>
     mt_observedSnapshot m = mt_observedSnapshot m' \<and> mt_historyReady m = mt_historyReady m' \<and>
     mt_historyApplying m = mt_historyApplying m'"

lemma exact_applied:
  assumes "syncable env m0"
  shows "\<exists>m'. ApplyTeamSyncSnapshot env exact_mode (team_snapshot env m0) m = (Applied, m') \<and> same_match m' m0 \<and> same_history m' m"
proof -
  obtain b where v: "ValidateTeamSyncSnapshot env (team_snapshot env m0) = Valid b"
    using syncable_validates [OF assms] by blast
  let ?mf = "apply_fields env False (team_snapshot env m0)
      (parse_seats env False False m (elements (jget (ascii ''players'') (team_snapshot env m0)))) m"
  have "ApplyTeamSyncSnapshot env exact_mode (team_snapshot env m0) m = (Applied, mark_applied exact_mode ?mf)"
    using v by (simp add: ApplyTeamSyncSnapshot_def check_backup_def update_sync_state_def exact_mode_def Let_def)
  moreover have "same_history (mark_applied exact_mode ?mf) m"
    by (simp add: mark_applied_def exact_mode_def MarkMatchMutation_def Let_def apply_fields_def same_history_def)
  ultimately show ?thesis using fields_restored [OF assms, of m] by simp
qed

lemma history_applied:
  assumes "prints_back env" "storable env m0" "BuildMatchHistorySnapshotPayloadUnlocked env m0 = Some s"
    "\<not> mt_historyApplying m"
  shows "\<exists>m'. ApplyMatchHistorySnapshot env s m = (Succeeded, m') \<and> same_match m' m0 \<and> same_history m' m \<and>
     mt_recentEvents m' = last_events 100 (mt_recentEvents m0) \<and> mt_pendingTeamScoreWin m' = mt_pendingTeamScoreWin m0 \<and>
     mt_eventBoundary m' = mt_eventBoundary m0 \<and> BuildMatchHistorySnapshotPayloadUnlocked env m' = Some s"
proof -
  have st: "syncable env m0" "list_all (event_storable env) (last_events 100 (mt_recentEvents m0))"
    "int_storable (mt_eventBoundary m0)" "s \<noteq> []" "length s \<le> 512 * 1024"
    using assms(2,3) by (simp_all add: storable_def)
  have p: "me_parse env s = Some (reread (full_snapshot env m0))" by (rule build_parses [OF assms(1,3)])
  obtain m1 where m1: "ApplyTeamSyncSnapshot env exact_mode (team_snapshot env m0) (m\<lparr>mt_historyApplying := True\<rparr>) = (Applied, m1)"
    "same_match m1 m0" "same_history m1 (m\<lparr>mt_historyApplying := True\<rparr>)"
    using exact_applied [OF st(1)] by blast
  let ?es = "last_events 100 (mt_recentEvents m0)"
  let ?m' = "m1\<lparr>mt_recentEvents := ?es, mt_pendingTeamScoreWin := mt_pendingTeamScoreWin m0,
      mt_eventBoundary := mt_eventBoundary m0, mt_historyApplying := False\<rparr>"
  have r: "restore_events env (full_snapshot env m0) ?es m1 =
      (Succeeded, m1\<lparr>mt_recentEvents := ?es, mt_pendingTeamScoreWin := mt_pendingTeamScoreWin m0, mt_eventBoundary := mt_eventBoundary m0\<rparr>)"
    using st(3) by (simp add: restore_events_def Let_def jvalue_bool_def jvalue_int_def jvalue_def full_find)
  have "apply_core env (reread (full_snapshot env m0)) ?es m = (Succeeded, ?m')"
    using m1(1) r by (simp add: apply_core_def core_reread core_full restore_events_reread apply_reread [OF assms(1) team_proper])
  moreover have "jvalue (ascii ''historyRecentEvents'') (JArr []) (reread (full_snapshot env m0)) = Some (JArr (map reread (map (history_event_json env) ?es)))"
    by (simp add: jvalue_reread jvalue_def full_find)
  moreover have "jvalue_int env (ascii ''historyVersion'') 0 (reread (full_snapshot env m0)) = Some 1"
    unfolding jvalue_reread by (simp add: jvalue_int_def jvalue_def full_find)
  ultimately have ap: "ApplyMatchHistorySnapshot env s m = (Succeeded, ?m')"
    using st p read_events_back [OF st(2)] read_events_reread [of env "map (history_event_json env) ?es"]
    by (simp add: ApplyMatchHistorySnapshot_def full_find del: map_map)
  have sm: "same_match ?m' m0" using m1(2) by (simp add: same_match_def)
  have sh: "same_history ?m' m" using m1(3) assms(4) by (simp add: same_history_def)
  have cong: "team_snapshot env ?m' = team_snapshot env m0 \<and> full_snapshot env ?m' = full_snapshot env m0"
    by (rule full_snapshot_cong [OF sm]) simp_all
  have "BuildMatchHistorySnapshotPayloadUnlocked env ?m' = Some s"
    using assms(3) conjunct1 [OF cong] conjunct2 [OF cong] by (simp only: build_eq [OF assms(1)])
  then show ?thesis using ap sm sh by simp
qed

subsection \<open>Describing a change never fails\<close>

lemma full_team_find:
  "json_find (ascii ''redScore'') (full_snapshot env m) = Some (jint (mt_totalScoreRed m))"
  "json_find (ascii ''blueScore'') (full_snapshot env m) = Some (jint (mt_totalScoreBlue m))"
  "json_find (ascii ''redPickMode'') (full_snapshot env m) = Some (JStr (ascii (if mt_redPickFirst m then ''first'' else ''second'')))"
  "json_find (ascii ''isFlipped'') (full_snapshot env m) = Some (JBool (mt_flipSides m))"
  "json_find (ascii ''players'') (full_snapshot env m) = Some (JArr (map (seat_json env) (mt_players m)))"
  by (simp_all add: full_snapshot_def team_fields_def history_fields_def)

lemma all_parts_some: "list_all (\<lambda>p. p \<noteq> None) ps \<Longrightarrow> all_parts ps \<noteq> None"
  by (induction ps) auto

lemma seat_ints: "k \<in> {''team'', ''kills'', ''deaths'', ''akCount'', ''currentStreak''} \<Longrightarrow> \<exists>n. jvalue_int env (ascii k) d (seat_json env p) = Some n"
  by (auto simp: jvalue_int_def jvalue_def snapshot_find)

lemma seat_texts:
  "jvalue_string (ascii ''name'') [] (seat_json env p) = Some (DnfJsonUtf8 (me_to_utf8 env) (pd_name p))"
  "jvalue (ascii ''aliases'') (JArr []) (seat_json env p) = Some (JArr (map (\<lambda>a. jtext env (ad_name a)) (pd_aliases p)))"
  by (simp_all add: jvalue_string_def jvalue_def snapshot_find jtext_def)

lemma seat_counter_some: "f \<in> set counter_fields \<Longrightarrow> seat_counter_change env name f (reread (seat_json env p)) (reread (seat_json env q)) \<noteq> None"
  using seat_ints [of "fst f" env 0 p] seat_ints [of "fst f" env 0 q]
  by (auto simp: seat_counter_change_def int_change_def jvalue_reread counter_fields_def)

lemma bind_some [simp]: "(\<exists>y. Option.bind p (\<lambda>x. Some (f x)) = Some y) \<longleftrightarrow> (\<exists>y. p = Some y)"
  by (cases p) auto

lemma seat_changes_some: "seat_changes env i (reread (seat_json env p)) (reread (seat_json env q)) \<noteq> None"
proof -
  obtain a b where t: "jvalue_int env (ascii ''team'') (- 1) (seat_json env p) = Some a" "jvalue_int env (ascii ''team'') (- 1) (seat_json env q) = Some b"
    using seat_ints [of "''team''" env "- 1" p] seat_ints [of "''team''" env "- 1" q] by auto
  have "all_parts (map (\<lambda>f. seat_counter_change env name f (reread (seat_json env p)) (reread (seat_json env q))) counter_fields) \<noteq> None" for name
    by (rule all_parts_some) (use seat_counter_some in \<open>auto simp: list_all_iff\<close>)
  then show ?thesis
    by (auto simp: seat_changes_def jvalue_reread t seat_texts Let_def)
qed

lemma match_changes_some: "match_changes env (reread (full_snapshot env a)) (reread (full_snapshot env b)) \<noteq> None"
proof -
  have "all_seat_changes env (reread (full_snapshot env a)) (reread (full_snapshot env b)) \<noteq> None"
  proof -
    have "all_parts (map (\<lambda>i. seat_changes env i (map reread (map (seat_json env) (mt_players a)) ! i)
        (map reread (map (seat_json env) (mt_players b)) ! i)) [0..<8]) \<noteq> None"
      if "length (mt_players a) = 8" "length (mt_players b) = 8"
      by (rule all_parts_some) (use that seat_changes_some in \<open>auto simp: list_all_iff\<close>)
    then show ?thesis
      by (simp add: all_seat_changes_def jvalue_reread jvalue_def full_find full_team_find del: map_map)
  qed
  then show ?thesis
    by (auto simp: match_changes_def jvalue_reread jvalue_int_def jvalue_string_def jvalue_bool_def jvalue_def full_find full_team_find Let_def)
qed

lemma detail_some:
  assumes "prints_back env" "BuildMatchHistorySnapshotPayloadUnlocked env a = Some s" "BuildMatchHistorySnapshotPayloadUnlocked env b = Some t"
  shows "\<exists>d. history_detail env s t = Some d"
  using match_changes_some [of env a b] build_parses [OF assms(1,2)] build_parses [OF assms(1,3)]
  by (auto simp: history_detail_def full_find)

end
