(* ===== verification/MatchTimeline.thy ===== *)
theory MatchTimeline
  imports MatchHistory
begin

text \<open>
  The history as a line of snapshots with a position: visiting a new snapshot forgets what lay ahead and,
  beyond the limit, the oldest; undoing, redoing and going back to an entry only move the position.
\<close>

subsection \<open>Specification\<close>

record timeline =
  tl_states :: "bytes list"
  tl_at :: nat

definition tl_present :: "timeline \<Rightarrow> bytes" where "tl_present t = tl_states t ! tl_at t"

definition tl_visit :: "nat \<Rightarrow> bytes \<Rightarrow> timeline \<Rightarrow> timeline" where
  "tl_visit limit s t =
     (if s = tl_present t then t
      else
        let line = take (tl_at t + 1) (tl_states t) @ [s]; surplus = length line - (limit + 1)
        in \<lparr>tl_states = drop surplus line, tl_at = length line - 1 - surplus\<rparr>)"

definition tl_go :: "nat \<Rightarrow> timeline \<Rightarrow> timeline" where "tl_go k t = t\<lparr>tl_at := k\<rparr>"

definition timeline_of :: "match \<Rightarrow> timeline" where
  "timeline_of m =
     \<lparr>tl_states = (if mt_history m = [] then [mt_observedSnapshot m]
        else he_beforeSnapshot (hd (mt_history m)) # map he_afterSnapshot (mt_history m)),
      tl_at = mt_historyCursor m\<rparr>"

text \<open>The invariant: entries join up, the position is on the line and observed, and every snapshot can be restored.\<close>

definition restorable :: "match_env \<Rightarrow> bytes \<Rightarrow> bool" where
  "restorable env s \<longleftrightarrow> (\<exists>m0. storable env m0 \<and> BuildMatchHistorySnapshotPayloadUnlocked env m0 = Some s)"

definition linked :: "match \<Rightarrow> bool" where
  "linked m \<longleftrightarrow> (\<forall>i < length (mt_history m). he_beforeSnapshot (mt_history m ! i) = tl_states (timeline_of m) ! i)"

definition history_shape :: "match_env \<Rightarrow> match \<Rightarrow> bool" where
  "history_shape env m \<longleftrightarrow> mt_historyReady m \<and> \<not> mt_historyApplying m \<and> 1 \<le> mt_historyMaxSteps m \<and>
     length (mt_history m) \<le> nat (mt_historyMaxSteps m) \<and> mt_historyCursor m \<le> length (mt_history m) \<and>
     linked m \<and> list_all (restorable env) (tl_states (timeline_of m))"

definition history_ok :: "match_env \<Rightarrow> match \<Rightarrow> bool" where
  "history_ok env m \<longleftrightarrow> history_shape env m \<and> mt_observedSnapshot m = tl_present (timeline_of m)"

lemmas history_ok_defs = history_ok_def history_shape_def

lemma history_shapeD:
  assumes "history_shape env m"
  shows "mt_historyReady m" "\<not> mt_historyApplying m" "1 \<le> mt_historyMaxSteps m" "length (mt_history m) \<le> nat (mt_historyMaxSteps m)"
    "mt_historyCursor m \<le> length (mt_history m)" "linked m" "list_all (restorable env) (tl_states (timeline_of m))"
  using assms by (simp_all add: history_shape_def)

lemma history_okD:
  assumes "history_ok env m"
  shows "mt_historyReady m" "\<not> mt_historyApplying m" "1 \<le> mt_historyMaxSteps m" "length (mt_history m) \<le> nat (mt_historyMaxSteps m)"
    "mt_historyCursor m \<le> length (mt_history m)" "linked m" "mt_observedSnapshot m = tl_present (timeline_of m)"
    "list_all (restorable env) (tl_states (timeline_of m))" "history_shape env m"
  using assms by (simp_all add: history_ok_defs)

lemma timeline_length [simp]: "length (tl_states (timeline_of m)) = Suc (length (mt_history m))"
  by (simp add: timeline_of_def)

lemma timeline_at [simp]: "tl_at (timeline_of m) = mt_historyCursor m"
  by (simp add: timeline_of_def)

lemma timeline_after: "i < length (mt_history m) \<Longrightarrow> tl_states (timeline_of m) ! Suc i = he_afterSnapshot (mt_history m ! i)"
  by (auto simp: timeline_of_def)

lemma timeline_before: "linked m \<Longrightarrow> i < length (mt_history m) \<Longrightarrow> he_beforeSnapshot (mt_history m ! i) = tl_states (timeline_of m) ! i"
  by (simp add: linked_def)

subsection \<open>The match behind a snapshot\<close>

text \<open>What a snapshot depends on.\<close>

definition same_state :: "match \<Rightarrow> match \<Rightarrow> bool" where
  "same_state m m' \<longleftrightarrow> same_match m m' \<and> last_events 100 (mt_recentEvents m) = last_events 100 (mt_recentEvents m') \<and>
     mt_pendingTeamScoreWin m = mt_pendingTeamScoreWin m' \<and> mt_eventBoundary m = mt_eventBoundary m'"

lemma same_state_build:
  assumes "same_state m m'" "prints_back env"
  shows "BuildMatchHistorySnapshotPayloadUnlocked env m = BuildMatchHistorySnapshotPayloadUnlocked env m'"
  using full_snapshot_cong [of m m' env] assms(1) unfolding build_eq [OF assms(2)] same_state_def by metis

definition names_syncable :: "match_env \<Rightarrow> wstr list \<Rightarrow> bool" where
  "names_syncable env ns \<longleftrightarrow> list_all (\<lambda>n. n \<noteq> [] \<and> line_ok env n) ns \<and> length ns \<le> 128 \<and> merge_stable (me_space env) ns"

lemma seat_syncable_names:
  "seat_syncable env i p \<longleftrightarrow> pd_team p = (if i < 4 then 0 else 1) \<and> line_ok env (pd_name p) \<and>
     names_syncable env (map ad_name (pd_aliases p)) \<and>
     counter_ok (pd_kills p) \<and> counter_ok (pd_deaths p) \<and> counter_ok (pd_akCount p) \<and> counter_ok (pd_currentStreak p)"
  unfolding seat_syncable_def names_syncable_def list.pred_map comp_def length_map by blast

lemma seat_syncable_view: "seat_view p = seat_view q \<Longrightarrow> seat_syncable env i p = seat_syncable env i q"
  unfolding seat_syncable_names seat_view_def by simp

lemma seat_bytes_names: "seat_bytes env p = utf8_length env (pd_name p) + sum_list (map (utf8_length env) (map ad_name (pd_aliases p)))"
  by (simp add: seat_bytes_def comp_def)

lemma seat_bytes_view: "seat_view p = seat_view q \<Longrightarrow> seat_bytes env p = seat_bytes env q"
  unfolding seat_bytes_names seat_view_def by simp

lemma syncable_same:
  assumes "same_match m m'" "team_snapshot env m = team_snapshot env m'"
  shows "syncable env m = syncable env m'"
proof -
  have v: "map seat_view (mt_players m) = map seat_view (mt_players m')" using assms(1) by (simp add: same_match_def)
  then have len: "length (mt_players m) = length (mt_players m')" by (metis length_map)
  have one: "seat_view (mt_players m ! i) = seat_view (mt_players m' ! i)" if "i < length (mt_players m)" for i
    using v len that by (metis nth_map)
  have seats: "list_all (\<lambda>i. seat_syncable env i (mt_players m ! i)) [0..<8] = list_all (\<lambda>i. seat_syncable env i (mt_players m' ! i)) [0..<8]"
    if "length (mt_players m') = 8"
  proof -
    have "seat_syncable env i (mt_players m ! i) = seat_syncable env i (mt_players m' ! i)" if "i < 8" for i
      by (rule seat_syncable_view, rule one) (use that \<open>length (mt_players m') = 8\<close> len in simp)
    then show ?thesis by (simp add: list_all_iff)
  qed
  have size: "map (seat_bytes env) (mt_players m) = map (seat_bytes env) (mt_players m')"
    by (rule nth_equalityI) (simp_all add: len seat_bytes_view [OF one])
  have rest: "mt_totalScoreRed m = mt_totalScoreRed m'" "mt_totalScoreBlue m = mt_totalScoreBlue m'" "mt_lastKillerTeam m = mt_lastKillerTeam m'"
    using assms(1) by (simp_all add: same_match_def)
  show ?thesis
    by (cases "length (mt_players m') = 8") (simp_all only: syncable_def len seats size rest assms(2) simp_thms)
qed

lemma same_state_storable:
  assumes "same_state m m'" "prints_back env"
  shows "storable env m = storable env m'"
proof -
  have "team_snapshot env m = team_snapshot env m'" using full_snapshot_cong [of m m' env] assms(1) by (simp add: same_state_def)
  then show ?thesis using syncable_same [of m m' env] same_state_build [OF assms] assms(1)
    by (simp add: storable_def same_state_def)
qed

subsection \<open>Observing\<close>

lemma observed_cases:
  assumes "history_ok env m" "prints_back env" "storable env m" "BuildMatchHistorySnapshotPayloadUnlocked env m = Some s"
  shows "\<exists>e. he_beforeSnapshot e = mt_observedSnapshot m \<and> he_afterSnapshot e = s \<and>
     ObserveMatchHistoryState env timeText m =
       (False, if s = mt_observedSnapshot m then clear_pending m
          else clear_pending ((clear_pending (trim_history ((snd (next_id m))\<lparr>mt_history := take (mt_historyCursor m) (mt_history m) @ [e],
             mt_historyCursor := Suc (length (take (mt_historyCursor m) (mt_history m)))\<rparr>)))\<lparr>mt_observedSnapshot := s\<rparr>))"
proof -
  have s: "s \<noteq> []" using assms(3,4) by (simp add: storable_def)
  have "list_all (restorable env) (tl_states (timeline_of m))" "mt_historyCursor m < length (tl_states (timeline_of m))"
    using history_okD [OF assms(1)] by auto
  then have "restorable env (mt_observedSnapshot m)"
    using history_okD(7) [OF assms(1)] by (simp add: list_all_length tl_present_def)
  then obtain m0 where m0: "storable env m0" "BuildMatchHistorySnapshotPayloadUnlocked env m0 = Some (mt_observedSnapshot m)"
    by (auto simp: restorable_def)
  then have o: "mt_observedSnapshot m \<noteq> []" by (simp add: storable_def)
  obtain d where d: "history_detail env (mt_observedSnapshot m) s = Some d" using detail_some [OF assms(2) m0(2) assms(4)] by blast
  have n: "mt_historyCursor (snd (next_id m)) = mt_historyCursor m" "mt_history (snd (next_id m)) = mt_history m"
    by (simp_all add: next_id_def Let_def)
  show ?thesis
  proof (cases "s = mt_observedSnapshot m")
    case True
    then show ?thesis using history_okD [OF assms(1)] s o assms(4)
      by (simp add: ObserveMatchHistoryState_def exI [of _ "\<lparr>he_id = 0, he_label = [], he_source = [], he_timeText = [], he_detail = [], he_beforeSnapshot = s, he_afterSnapshot = s\<rparr>"])
  next
    case False
    obtain i m1 where m1: "next_id m = (i, m1)" by fastforce
    let ?e = "\<lparr>he_id = i,
      he_label = or_default (if mt_mutationPending m then or_default (mt_pendingLabel m) default_label else default_label) default_label,
      he_source = or_default (if mt_mutationPending m then or_default (mt_pendingSource m) default_source else default_source) default_source,
      he_timeText = timeText, he_detail = d, he_beforeSnapshot = mt_observedSnapshot m, he_afterSnapshot = s\<rparr>"
    show ?thesis
      by (rule exI [of _ ?e]) (use m1 history_okD(1,2,5) [OF assms(1)] s o assms(4) d n False in
        \<open>simp add: ObserveMatchHistoryState_def RecordMatchHistoryTransition_def Let_def\<close>)
  qed
qed

lemma next_id_rest [simp]:
  "mt_historyMaxSteps (snd (next_id m)) = mt_historyMaxSteps m" "mt_historyReady (snd (next_id m)) = mt_historyReady m"
  "mt_historyApplying (snd (next_id m)) = mt_historyApplying m" "same_state (snd (next_id m)) m"
  by (simp_all add: next_id_def Let_def same_state_def same_match_def)

lemma trim_states:
  assumes "linked m" "1 \<le> mt_historyMaxSteps m" "mt_history m \<noteq> []"
  shows "tl_states (timeline_of (trim_history m)) = drop (length (mt_history m) - nat (mt_historyMaxSteps m)) (tl_states (timeline_of m))"
    and "linked (trim_history m)"
proof -
  let ?d = "length (mt_history m) - nat (mt_historyMaxSteps m)"
  have d: "?d < length (mt_history m)" using assms(2,3) by (cases "mt_history m") auto
  have h: "mt_history (trim_history m) = drop ?d (mt_history m)" by (simp add: trim_history_def Let_def)
  show st: "tl_states (timeline_of (trim_history m)) = drop ?d (tl_states (timeline_of m))"
  proof (rule nth_equalityI)
    show "length (tl_states (timeline_of (trim_history m))) = length (drop ?d (tl_states (timeline_of m)))"
      using d by (simp add: h)
    show "tl_states (timeline_of (trim_history m)) ! i = drop ?d (tl_states (timeline_of m)) ! i"
      if "i < length (tl_states (timeline_of (trim_history m)))" for i
    proof (cases i)
      case 0
      then show ?thesis using d timeline_before [OF assms(1) d] by (simp add: timeline_of_def [of "trim_history m"] h hd_drop_conv_nth)
    next
      case (Suc j)
      then have j: "j < length (mt_history (trim_history m))" using that by simp
      then show ?thesis using timeline_after [OF j] timeline_after [of "?d + j" m] Suc d by (simp add: h)
    qed
  qed
  show "linked (trim_history m)"
    unfolding linked_def using d timeline_before [OF assms(1)] by (auto simp: st h)
qed

lemma clear_pending_rest [simp]:
  "timeline_of (clear_pending m) = timeline_of m" "linked (clear_pending m) = linked m" "history_ok env (clear_pending m) = history_ok env m"
  "mt_history (clear_pending m) = mt_history m" "mt_historyCursor (clear_pending m) = mt_historyCursor m"
  "mt_observedSnapshot (clear_pending m) = mt_observedSnapshot m" "mt_historyMaxSteps (clear_pending m) = mt_historyMaxSteps m"
  "mt_historyReady (clear_pending m) = mt_historyReady m" "mt_historyApplying (clear_pending m) = mt_historyApplying m"
  "same_state (clear_pending m) m' = same_state m m'"
proof -
  show t: "timeline_of (clear_pending m) = timeline_of m" and h: "mt_history (clear_pending m) = mt_history m"
    by (simp_all add: clear_pending_def timeline_of_def)
  show l: "linked (clear_pending m) = linked m" by (simp add: linked_def t h)
  show "history_ok env (clear_pending m) = history_ok env m" by (simp add: history_ok_defs t h l) (simp add: clear_pending_def)
  show "same_state (clear_pending m) m' = same_state m m'" by (simp add: clear_pending_def same_state_def same_match_def)
qed (simp_all add: clear_pending_def)

lemma trim_rest [simp]:
  "mt_history (trim_history m) = drop (length (mt_history m) - nat (mt_historyMaxSteps m)) (mt_history m)"
  "mt_historyCursor (trim_history m) = mt_historyCursor m - (length (mt_history m) - nat (mt_historyMaxSteps m))"
  "mt_observedSnapshot (trim_history m) = mt_observedSnapshot m" "mt_historyMaxSteps (trim_history m) = mt_historyMaxSteps m"
  "mt_historyReady (trim_history m) = mt_historyReady m" "mt_historyApplying (trim_history m) = mt_historyApplying m"
  "same_state (trim_history m) m' = same_state m m'"
  by (simp_all add: trim_history_def Let_def same_state_def same_match_def)

lemma same_state_refl [simp]: "same_state m m" by (simp add: same_state_def same_match_def)

lemma same_state_trans: "same_state a b \<Longrightarrow> same_state b c \<Longrightarrow> same_state a c"
  by (simp add: same_state_def same_match_def)

text \<open>A match with an entry added after the position.\<close>

lemma extended:
  assumes ok: "history_ok env m"
    and h: "mt_history m1 = take (mt_historyCursor m) (mt_history m) @ [e]"
    and e: "he_beforeSnapshot e = mt_observedSnapshot m" "he_afterSnapshot e = s"
  shows "tl_states (timeline_of m1) = take (Suc (mt_historyCursor m)) (tl_states (timeline_of m)) @ [s]" (is ?states)
    and "linked m1"
proof -
  let ?c = "mt_historyCursor m" and ?h = "mt_history m"
  note c = history_okD(5) [OF ok]
  have o: "mt_observedSnapshot m = tl_states (timeline_of m) ! ?c" using history_okD(7) [OF ok] by (simp add: tl_present_def)
  show st: ?states
  proof (cases "?h = []")
    case True
    then have "mt_historyCursor m = 0" "tl_states (timeline_of m) = [mt_observedSnapshot m]" using c by (simp_all add: timeline_of_def)
    then show ?thesis using True by (simp add: timeline_of_def h e)
  next
    case False
    have first: "tl_states (timeline_of m) ! 0 = he_beforeSnapshot (hd ?h)" using False by (simp add: timeline_of_def)
    have "he_beforeSnapshot (hd (take ?c ?h @ [e])) = he_beforeSnapshot (hd ?h)"
    proof (cases ?c)
      case 0
      then show ?thesis using e(1) o first by simp
    next
      case (Suc k)
      then show ?thesis using False by (simp add: hd_append)
    qed
    then show ?thesis using False by (simp add: timeline_of_def h e(2) take_map)
  qed
  show "linked m1"
    unfolding linked_def
  proof safe
    fix i assume i: "i < length (mt_history m1)"
    show "he_beforeSnapshot (mt_history m1 ! i) = tl_states (timeline_of m1) ! i"
    proof (cases "i = ?c")
      case True
      then show ?thesis using c by (simp add: st h nth_append e o)
    next
      case False
      then have "i < ?c" using i c by (simp add: h)
      then show ?thesis using c timeline_before [OF history_okD(6) [OF ok], of i] by (simp add: st h nth_append)
    qed
  qed
qed

lemma observe_refines:
  assumes ok: "history_ok env m" and "prints_back env" "storable env m" "BuildMatchHistorySnapshotPayloadUnlocked env m = Some s"
    "ObserveMatchHistoryState env timeText m = (threw, m')"
  shows "\<not> threw \<and> history_ok env m' \<and> timeline_of m' = tl_visit (nat (mt_historyMaxSteps m)) s (timeline_of m) \<and>
     same_state m' m \<and> mt_observedSnapshot m' = s \<and> mt_historyMaxSteps m' = mt_historyMaxSteps m"
proof -
  obtain e where e: "he_beforeSnapshot e = mt_observedSnapshot m" "he_afterSnapshot e = s"
    and m': "\<not> threw" "m' = (if s = mt_observedSnapshot m then clear_pending m
          else clear_pending ((clear_pending (trim_history ((snd (next_id m))\<lparr>mt_history := take (mt_historyCursor m) (mt_history m) @ [e],
             mt_historyCursor := Suc (length (take (mt_historyCursor m) (mt_history m)))\<rparr>)))\<lparr>mt_observedSnapshot := s\<rparr>))"
    using observed_cases [OF assms(1-4), of timeText] assms(5) by auto
  note p = history_okD [OF ok]
  show ?thesis
  proof (cases "s = mt_observedSnapshot m")
    case True
    then show ?thesis using m' ok p(7) by (simp add: tl_visit_def)
  next
    case False
    let ?c = "mt_historyCursor m" and ?n = "nat (mt_historyMaxSteps m)"
    define m1 where "m1 = (snd (next_id m))\<lparr>mt_history := take ?c (mt_history m) @ [e], mt_historyCursor := Suc (length (take ?c (mt_history m)))\<rparr>"
    have m1: "mt_history m1 = take ?c (mt_history m) @ [e]" "mt_historyCursor m1 = length (mt_history m1)" "mt_historyMaxSteps m1 = mt_historyMaxSteps m"
      "mt_historyReady m1" "\<not> mt_historyApplying m1" "same_state m1 m"
      using p(1,2) same_state_trans [OF _ next_id_rest(4), of _ m] by (simp_all add: m1_def same_state_def same_match_def)
    note st = extended [OF ok m1(1) e]
    note tr = trim_states [OF st(2)]
    define m2 where "m2 = (clear_pending (trim_history m1))\<lparr>mt_observedSnapshot := s\<rparr>"
    have mm: "m' = clear_pending m2" using m'(2) False by (simp add: m1_def m2_def)
    let ?l = "take (Suc ?c) (tl_states (timeline_of m)) @ [s]" and ?d = "Suc ?c - ?n"
    have len: "length (mt_history m1) = Suc ?c" "length ?l = Suc (Suc ?c)" using p(5) by (simp_all add: m1)
    have d: "?d < Suc ?c" using p(3) by linarith
    have ne: "mt_history m1 \<noteq> []" by (simp add: m1(1))
    have h2: "mt_history m2 = mt_history (trim_history m1)" "mt_historyCursor m2 = mt_historyCursor (trim_history m1)" by (simp_all add: m2_def)
    moreover have "mt_history (trim_history m1) \<noteq> []" using d len(1) by (simp add: m1(3))
    ultimately have same_line: "timeline_of m2 = timeline_of (trim_history m1)" unfolding timeline_of_def by simp
    have states: "tl_states (timeline_of m2) = drop ?d ?l"
      using tr(1) [OF _ ne] p(3) by (simp add: same_line m1(3) len(1) st(1))
    have at: "tl_at (timeline_of m2) = Suc ?c - ?d" using m1(2) len(1) by (simp add: h2(2) m1(3))
    have lk: "linked m2" using tr(2) [OF _ ne] p(3) unfolding linked_def same_line h2(1) by (simp add: m1(3))
    have "restorable env s" using assms(3,4) by (auto simp: restorable_def)
    then have "list_all (restorable env) (drop ?d ?l)"
      using p(8) by (auto simp: list_all_iff dest!: in_set_dropD in_set_takeD)
    moreover have "tl_present (timeline_of m2) = s"
      using d len(2) at by (simp add: tl_present_def states nth_append)
    moreover have "length (mt_history m2) = Suc ?c - ?d" using len(1) by (simp add: h2 m1(3))
    then have bnd: "length (mt_history m2) \<le> ?n" "mt_historyCursor m2 \<le> length (mt_history m2)" using at d unfolding timeline_at by linarith+
    moreover have "mt_historyReady m2" "\<not> mt_historyApplying m2" "mt_historyMaxSteps m2 = mt_historyMaxSteps m" "mt_observedSnapshot m2 = s"
      by (simp_all add: m2_def m1(3-5))
    ultimately have "history_ok env m2"
      using lk p(3) bnd unfolding history_ok_defs states by simp
    moreover have "timeline_of m2 = tl_visit ?n s (timeline_of m)"
    proof (rule timeline.equality)
      have "s \<noteq> tl_present (timeline_of m)" using False p(7) by simp
      then have v: "tl_visit ?n s (timeline_of m) = \<lparr>tl_states = drop ?d ?l, tl_at = Suc ?c - ?d\<rparr>"
        using len(2) by (simp add: tl_visit_def Let_def)
      show "tl_states (timeline_of m2) = tl_states (tl_visit ?n s (timeline_of m))" unfolding v timeline.select_convs by (rule states)
      show "tl_at (timeline_of m2) = tl_at (tl_visit ?n s (timeline_of m))" unfolding v timeline.select_convs by (rule at)
    qed simp
    moreover have "same_state m2 m" using m1(6) by (simp add: m2_def clear_pending_def trim_history_def Let_def same_state_def same_match_def)
    ultimately show ?thesis using m'(1) by (simp add: mm) (simp add: m2_def m1)
  qed
qed

subsection \<open>Moving on the line\<close>

lemma same_match_sym: "same_match a b \<Longrightarrow> same_match b a" "same_match a b \<Longrightarrow> same_match b c \<Longrightarrow> same_match a c"
  by (simp_all add: same_match_def)

lemma applied_state:
  assumes "prints_back env" "storable env m0" "BuildMatchHistorySnapshotPayloadUnlocked env m0 = Some s" "\<not> mt_historyApplying m"
  shows "\<exists>m'. ApplyMatchHistorySnapshot env s m = (Succeeded, m') \<and> same_state m' m0 \<and> same_history m' m"
  using history_applied [OF assms] by (auto simp: same_state_def)

text \<open>A snapshot determines the match it was taken of.\<close>

lemma snapshot_determines:
  assumes "prints_back env" "storable env a" "storable env b"
    "BuildMatchHistorySnapshotPayloadUnlocked env a = BuildMatchHistorySnapshotPayloadUnlocked env b"
  shows "same_state a b"
proof -
  obtain s where s: "BuildMatchHistorySnapshotPayloadUnlocked env a = Some s" "BuildMatchHistorySnapshotPayloadUnlocked env b = Some s"
    using assms(2,4) by (auto simp: storable_def split: option.splits)
  let ?m = "a\<lparr>mt_historyApplying := False\<rparr>"
  obtain m' where "ApplyMatchHistorySnapshot env s ?m = (Succeeded, m')" "same_state m' a"
    using applied_state [OF assms(1,2) s(1), of ?m] by auto
  moreover obtain m'' where "ApplyMatchHistorySnapshot env s ?m = (Succeeded, m'')" "same_state m'' b"
    using applied_state [OF assms(1,3) s(2), of ?m] by auto
  ultimately show ?thesis by (simp add: same_state_def same_match_def)
qed

definition saved_outcome :: "bool \<Rightarrow> history_outcome" where
  "saved_outcome saved = (if saved then Succeeded else Failed SaveFailed)"

lemma go_refines:
  assumes ok: "history_shape env m" and pb: "prints_back env" and k: "k \<le> length (mt_history m)" "mt_history m \<noteq> []"
    and a: "apply_and_finish env saved (tl_states (timeline_of m) ! k) k m = (r, m')"
  shows "r = saved_outcome saved \<and> history_ok env m' \<and> timeline_of m' = tl_go k (timeline_of m) \<and> storable env m' \<and>
     BuildMatchHistorySnapshotPayloadUnlocked env m' = Some (tl_present (timeline_of m')) \<and>
     mt_historyMaxSteps m' = mt_historyMaxSteps m"
proof -
  note p = history_shapeD [OF ok]
  have "restorable env (tl_states (timeline_of m) ! k)" using p(7) k(1) by (simp add: list_all_length)
  then obtain m0 where m0: "storable env m0" "BuildMatchHistorySnapshotPayloadUnlocked env m0 = Some (tl_states (timeline_of m) ! k)"
    by (auto simp: restorable_def)
  obtain m1 where m1: "ApplyMatchHistorySnapshot env (tl_states (timeline_of m) ! k) m = (Succeeded, m1)" "same_state m1 m0" "same_history m1 m"
    using applied_state [OF pb m0 p(2)] by blast
  let ?m2 = "m1\<lparr>mt_historyCursor := k\<rparr>"
  have "same_state ?m2 m0" using m1(2) by (simp add: same_state_def same_match_def)
  then have b: "BuildMatchHistorySnapshotPayloadUnlocked env ?m2 = Some (tl_states (timeline_of m) ! k)"
    using same_state_build [OF _ pb] m0(2) by simp
  have fin: "r = saved_outcome saved" "m' = ?m2\<lparr>mt_observedSnapshot := tl_states (timeline_of m) ! k\<rparr>"
    using a m1(1) b by (simp_all add: apply_and_finish_def finish_history_def saved_outcome_def)
  have same: "same_state m' m0" using m1(2) by (simp add: fin same_state_def same_match_def)
  have h: "mt_history m' = mt_history m" "mt_historyCursor m' = k" "mt_historyMaxSteps m' = mt_historyMaxSteps m"
    "mt_observedSnapshot m' = tl_states (timeline_of m) ! k" "mt_historyReady m'" "\<not> mt_historyApplying m'"
    using m1(3) p(1,2) by (simp_all add: fin same_history_def)
  have t: "timeline_of m' = tl_go k (timeline_of m)" using k(2) by (simp add: timeline_of_def tl_go_def h)
  have "tl_present (timeline_of m') = tl_states (timeline_of m) ! k" by (simp add: t tl_present_def tl_go_def)
  moreover have "linked m'" using p(6) by (simp add: linked_def t tl_go_def h)
  ultimately have "history_ok env m'" using p(3,4,7) k(1) by (simp add: history_ok_defs h t) (simp add: tl_go_def)
  moreover have "storable env m'" "BuildMatchHistorySnapshotPayloadUnlocked env m' = Some (tl_states (timeline_of m) ! k)"
    using same_state_storable [OF same pb] same_state_build [OF same pb] m0 by simp_all
  ultimately show ?thesis using fin(1) t h(3) by (simp add: tl_present_def tl_go_def)
qed

subsection \<open>The operations refine the line\<close>

datatype history_op = ObserveIt | UndoIt | RedoIt | GoBack u64

definition run_history :: "match_env \<Rightarrow> wstr \<Rightarrow> bool \<Rightarrow> history_op \<Rightarrow> match \<Rightarrow> history_outcome \<times> match" where
  "run_history env timeText saved opn m =
     (case opn of
        ObserveIt \<Rightarrow> (case ObserveMatchHistoryState env timeText m of (threw, m') \<Rightarrow> (if threw then Escaped else Succeeded, m'))
      | UndoIt \<Rightarrow> UndoMatchHistory env timeText saved m
      | RedoIt \<Rightarrow> RedoMatchHistory env timeText saved m
      | GoBack i \<Rightarrow> RestoreMatchHistoryToEntry env timeText saved i m)"

definition tl_run :: "bool \<Rightarrow> (u64 \<Rightarrow> nat option) \<Rightarrow> history_op \<Rightarrow> timeline \<Rightarrow> history_outcome \<times> timeline" where
  "tl_run saved place opn t =
     (case opn of
        ObserveIt \<Rightarrow> (Succeeded, t)
      | UndoIt \<Rightarrow> if tl_at t = 0 then (Failed NothingToUndo, t) else (saved_outcome saved, tl_go (tl_at t - 1) t)
      | RedoIt \<Rightarrow> if tl_at t + 1 \<ge> length (tl_states t) then (Failed NothingToRedo, t) else (saved_outcome saved, tl_go (tl_at t + 1) t)
      | GoBack i \<Rightarrow>
          (case place i of
             None \<Rightarrow> (Failed NoSuchEntry, t)
           | Some k \<Rightarrow> if k = tl_at t then (Succeeded, t) else (saved_outcome saved, tl_go k t)))"

text \<open>Where the snapshot after an entry lies on the line.\<close>

definition place_of :: "match \<Rightarrow> u64 \<Rightarrow> nat option" where
  "place_of m i =
     (let k = length (takeWhile (\<lambda>e. he_id e \<noteq> i) (mt_history m)) in if k < length (mt_history m) then Some (k + 1) else None)"

lemma run_refines:
  assumes "prints_back env" "history_ok env m" "storable env m" "BuildMatchHistorySnapshotPayloadUnlocked env m = Some s"
    "run_history env timeText saved opn m = (r, m')"
  shows "(r, timeline_of m') = tl_run saved (place_of (snd (ObserveMatchHistoryState env timeText m))) opn
       (tl_visit (nat (mt_historyMaxSteps m)) s (timeline_of m)) \<and>
     history_ok env m' \<and> storable env m' \<and> BuildMatchHistorySnapshotPayloadUnlocked env m' = Some (tl_present (timeline_of m')) \<and>
     mt_historyMaxSteps m' = mt_historyMaxSteps m"
proof -
  obtain threw m1 where o: "ObserveMatchHistoryState env timeText m = (threw, m1)" by fastforce
  note ob = observe_refines [OF assms(2,1,3,4) o]
  have ok: "history_ok env m1" and t: "timeline_of m1 = tl_visit (nat (mt_historyMaxSteps m)) s (timeline_of m)"
    and th: "\<not> threw" and mx: "mt_historyMaxSteps m1 = mt_historyMaxSteps m" using ob by simp_all
  have "mt_observedSnapshot m1 = s" "same_state m1 m" using ob by simp_all
  then have st: "storable env m1" "BuildMatchHistorySnapshotPayloadUnlocked env m1 = Some (tl_present (timeline_of m1))"
    using same_state_storable [OF _ assms(1), of m1 m] same_state_build [OF _ assms(1), of m1 m] assms(3,4)
    by (simp_all only: history_okD(7) [OF ok])
  note stay = ok st mx
  note go = go_refines [OF history_okD(9) [OF ok] assms(1)]
  show ?thesis
  proof (cases opn)
    case ObserveIt
    then show ?thesis using assms(5) o th stay t by (simp add: run_history_def tl_run_def)
  next
    case UndoIt
    show ?thesis
    proof (cases "mt_historyCursor m1 = 0")
      case True
      then show ?thesis using UndoIt assms(5) o th stay t by (simp add: run_history_def tl_run_def UndoMatchHistory_def t [symmetric])
    next
      case False
      let ?k = "mt_historyCursor m1 - 1"
      have k: "?k < length (mt_history m1)" "mt_history m1 \<noteq> []" using False history_okD(5) [OF ok] by auto
      then have "apply_and_finish env saved (tl_states (timeline_of m1) ! ?k) ?k m1 = (r, m')"
        using UndoIt assms(5) o th False timeline_before [OF history_okD(6) [OF ok] k(1)] by (simp add: run_history_def UndoMatchHistory_def)
      from go [OF _ k(2) this] show ?thesis using UndoIt False k(1) mx by (simp add: tl_run_def t [symmetric])
    qed
  next
    case RedoIt
    show ?thesis
    proof (cases "mt_historyCursor m1 \<ge> length (mt_history m1)")
      case True
      then show ?thesis using RedoIt assms(5) o th stay t by (simp add: run_history_def tl_run_def RedoMatchHistory_def t [symmetric])
    next
      case False
      let ?k = "Suc (mt_historyCursor m1)"
      have k: "?k \<le> length (mt_history m1)" "mt_history m1 \<noteq> []" using False by auto
      then have "apply_and_finish env saved (tl_states (timeline_of m1) ! ?k) ?k m1 = (r, m')"
        using RedoIt assms(5) o th False timeline_after [of "mt_historyCursor m1" m1] by (simp add: run_history_def RedoMatchHistory_def)
      from go [OF k this] show ?thesis using RedoIt False mx by (simp add: tl_run_def t [symmetric])
    qed
  next
    case (GoBack i)
    let ?i = "length (takeWhile (\<lambda>e. he_id e \<noteq> i) (mt_history m1))"
    show ?thesis
    proof (cases "?i < length (mt_history m1) \<and> Suc ?i \<noteq> mt_historyCursor m1")
      case False
      have pl: "place_of (snd (ObserveMatchHistoryState env timeText m)) i = (if ?i < length (mt_history m1) then Some (Suc ?i) else None)"
        by (simp add: o place_of_def Let_def)
      have "(r, m') = (if ?i < length (mt_history m1) then Succeeded else Failed NoSuchEntry, m1)"
        using False assms(5) o th by (auto simp: GoBack run_history_def RestoreMatchHistoryToEntry_def Let_def split: if_splits)
      moreover have "tl_run saved (place_of (snd (ObserveMatchHistoryState env timeText m))) opn (timeline_of m1) =
          (if ?i < length (mt_history m1) then Succeeded else Failed NoSuchEntry, timeline_of m1)"
        using False by (auto simp: tl_run_def GoBack pl)
      ultimately show ?thesis using stay unfolding t [symmetric] by (metis prod.inject)
    next
      case True
      then have k: "Suc ?i \<le> length (mt_history m1)" "mt_history m1 \<noteq> []" by auto
      have "apply_and_finish env saved (tl_states (timeline_of m1) ! Suc ?i) (Suc ?i) m1 = (r, m')"
        using GoBack assms(5) o th True timeline_after [of ?i m1] by (simp add: run_history_def RestoreMatchHistoryToEntry_def Let_def)
      note g = go [OF k this]
      have pl: "place_of (snd (ObserveMatchHistoryState env timeText m)) i = Some (Suc ?i)"
        using True by (simp add: o place_of_def Let_def)
      have "tl_run saved (place_of (snd (ObserveMatchHistoryState env timeText m))) opn (timeline_of m1) =
          (saved_outcome saved, tl_go (Suc ?i) (timeline_of m1))"
        using True by (simp add: tl_run_def GoBack pl)
      then show ?thesis using g unfolding t [symmetric] mx by metis
    qed
  qed
qed

text \<open>Property C1. Observing, undoing, redoing and going back to an entry behave as on a line of snapshots: the present state is visited first, which forgets what lay ahead if it is new, and then only the position moves; the match is the one of the snapshot at the position, and the history stays well-formed.\<close>

theorem history_refines_timeline:
  assumes "prints_back env" "history_ok env m" "storable env m" "BuildMatchHistorySnapshotPayloadUnlocked env m = Some s"
    "run_history env timeText saved opn m = (r, m')"
  shows "(r, timeline_of m') = tl_run saved (place_of (snd (ObserveMatchHistoryState env timeText m))) opn
       (tl_visit (nat (mt_historyMaxSteps m)) s (timeline_of m)) \<and>
     history_ok env m' \<and> storable env m' \<and> BuildMatchHistorySnapshotPayloadUnlocked env m' = Some (tl_present (timeline_of m')) \<and>
     mt_historyMaxSteps m' = mt_historyMaxSteps m"
  by (rule run_refines [OF assms])

subsection \<open>The invariant\<close>

text \<open>
  Edits change the match and not the history; a new limit keeps the position on the line when no more entries
  are dropped than lie before it.
\<close>

inductive history_reachable :: "match_env \<Rightarrow> match \<Rightarrow> bool" for env where
  start: "storable env m \<Longrightarrow> 1 \<le> mt_historyMaxSteps m \<Longrightarrow> history_reachable env (InitializeMatchHistory env m)"
| edit: "history_reachable env m \<Longrightarrow> same_history m' m \<Longrightarrow> storable env m' \<Longrightarrow> history_reachable env m'"
| operate: "history_reachable env m \<Longrightarrow> run_history env timeText saved opn m = (r, m') \<Longrightarrow> history_reachable env m'"
| limit: "history_reachable env m \<Longrightarrow> SetMatchHistoryMaxSteps n m = (r, m') \<Longrightarrow>
     length (mt_history m) - nat n \<le> mt_historyCursor m \<Longrightarrow> history_reachable env m'"

lemma timeline_cong:
  "mt_history m = mt_history m' \<Longrightarrow> mt_historyCursor m = mt_historyCursor m' \<Longrightarrow> mt_observedSnapshot m = mt_observedSnapshot m' \<Longrightarrow>
     timeline_of m = timeline_of m'"
  by (simp add: timeline_of_def)

lemma timeline_start_ok:
  assumes "storable env m" "1 \<le> mt_historyMaxSteps m" "prints_back env"
  shows "history_ok env (InitializeMatchHistory env m) \<and> storable env (InitializeMatchHistory env m)"
proof -
  let ?m = "InitializeMatchHistory env m"
  let ?cleared = "clear_pending (m\<lparr>mt_history := [], mt_historyCursor := 0, mt_historyNextId := 1, mt_historyApplying := False, mt_historyReady := True\<rparr>)"
  obtain s where s: "BuildMatchHistorySnapshotPayloadUnlocked env m = Some s"
    using assms(1) by (auto simp: storable_def split: option.splits)
  have "same_state ?cleared m" by (simp add: clear_pending_def same_state_def same_match_def)
  from same_state_build [OF this assms(3)] have b: "BuildMatchHistorySnapshotPayloadUnlocked env ?cleared = Some s" using s by simp
  then have m: "?m = ?cleared\<lparr>mt_observedSnapshot := s\<rparr>" by (simp add: InitializeMatchHistory_def Let_def)
  have "same_state ?m m" unfolding m by (simp add: clear_pending_def same_state_def same_match_def)
  then have "storable env ?m" using same_state_storable [OF _ assms(3)] assms(1) by blast
  moreover have "restorable env s" using assms(1) s by (auto simp: restorable_def)
  then have "history_ok env ?m"
    using assms(2) unfolding m by (simp add: history_ok_defs linked_def timeline_of_def tl_present_def clear_pending_def)
  ultimately show ?thesis by simp
qed

lemma edit_ok: "same_history m' m \<Longrightarrow> history_ok env m' = history_ok env m"
proof -
  assume h: "same_history m' m"
  then have t: "timeline_of m' = timeline_of m" by (intro timeline_cong) (simp_all add: same_history_def)
  then have "linked m' = linked m" using h by (simp add: linked_def same_history_def)
  then show ?thesis using h t by (simp add: history_ok_defs same_history_def)
qed

lemma limit_ok:
  assumes "history_ok env m" "storable env m" "prints_back env" "SetMatchHistoryMaxSteps n m = (r, m')"
    "length (mt_history m) - nat n \<le> mt_historyCursor m"
  shows "history_ok env m' \<and> storable env m'"
proof (cases "n < 1 \<or> n > 200")
  case True
  then show ?thesis using assms by (auto simp: SetMatchHistoryMaxSteps_def)
next
  case False
  let ?m = "m\<lparr>mt_historyMaxSteps := n\<rparr>" and ?d = "length (mt_history m) - nat n"
  note p = history_okD [OF assms(1)]
  have m': "m' = trim_history ?m" using assms(4) False by (simp add: SetMatchHistoryMaxSteps_def)
  have t: "timeline_of ?m = timeline_of m" by (simp add: timeline_of_def)
  have lk: "linked ?m" using p(6) by (simp add: linked_def t)
  have st: "tl_states (timeline_of m') = drop ?d (tl_states (timeline_of m)) \<and> linked m'"
  proof (cases "mt_history m = []")
    case True
    then have "m' = ?m" by (simp add: m' trim_history_def Let_def)
    then show ?thesis using True lk by (simp add: t)
  next
    case ne: False
    then show ?thesis using trim_states [OF lk] False by (simp add: m' t)
  qed
  have "tl_present (timeline_of m') = tl_present (timeline_of m)"
    using assms(5) p(5) st [THEN conjunct1] m' by (simp add: tl_present_def)
  then have "history_ok env m'" using p(1,2,5,7,8) st False assms(5)
    by (auto simp: history_ok_defs list_all_iff dest: in_set_dropD) (simp_all add: m', linarith?)
  moreover have "same_state m' m" by (simp add: m') (simp add: same_state_def same_match_def)
  then have "storable env m'" using same_state_storable [OF _ assms(3)] assms(2) by blast
  ultimately show ?thesis by simp
qed

lemma run_refines_ok:
  assumes "prints_back env" "history_ok env m" "storable env m" "run_history env timeText saved opn m = (r, m')"
  shows "history_ok env m' \<and> storable env m'"
proof -
  obtain s where "BuildMatchHistorySnapshotPayloadUnlocked env m = Some s"
    using assms(3) by (auto simp: storable_def split: option.splits)
  from run_refines [OF assms(1-3) this assms(4)] show ?thesis by simp
qed


text \<open>Property C3. Redoing what was just undone gives back the match as it was, whatever it was, and the two operations report success when the files are saved.\<close>

theorem undo_redo_round_trip:
  assumes "prints_back env" "history_ok env m" "storable env m"
    "UndoMatchHistory env timeText True m = (Succeeded, m1)" "RedoMatchHistory env timeText' True m1 = (r, m2)"
  shows "r = Succeeded \<and> same_state m2 m"
proof -
  obtain s where s: "BuildMatchHistorySnapshotPayloadUnlocked env m = Some s"
    using assms(3) by (auto simp: storable_def split: option.splits)
  define t where "t = tl_visit (nat (mt_historyMaxSteps m)) s (timeline_of m)"
  obtain threw m0 where o: "ObserveMatchHistoryState env timeText m = (threw, m0)" by fastforce
  note ob = observe_refines [OF assms(2,1,3) s o]
  have line: "timeline_of m0 = t" using ob by (simp add: t_def)
  have ok0: "history_ok env m0" "mt_observedSnapshot m0 = s" using ob by simp_all
  have t0: "tl_present t = s" "tl_at t < length (tl_states t)"
    using history_okD(5,7) [OF ok0(1)] ok0(2) by (simp_all add: line [symmetric])
  have "run_history env timeText True UndoIt m = (Succeeded, m1)" using assms(4) by (simp add: run_history_def)
  note u = run_refines [OF assms(1-3) s this, folded t_def]
  then have at: "tl_at t \<noteq> 0" "timeline_of m1 = tl_go (tl_at t - 1) t"
    by (auto simp: tl_run_def split: if_splits)
  have "run_history env timeText' True RedoIt m1 = (r, m2)" using assms(5) by (simp add: run_history_def)
  from u run_refines [OF assms(1) _ _ _ this, of "tl_present (timeline_of m1)"]
  have r: "(r, timeline_of m2) = tl_run True (place_of (snd (ObserveMatchHistoryState env timeText' m1))) RedoIt
       (tl_visit (nat (mt_historyMaxSteps m1)) (tl_present (timeline_of m1)) (timeline_of m1))"
    "storable env m2" "BuildMatchHistorySnapshotPayloadUnlocked env m2 = Some (tl_present (timeline_of m2))" by simp_all
  have "tl_visit n (tl_present x) x = x" for n x by (simp add: tl_visit_def)
  then have "r = Succeeded \<and> timeline_of m2 = tl_go (tl_at t) t"
    using r(1) at t0(2) by (simp add: tl_run_def tl_go_def saved_outcome_def)
  moreover have "tl_go (tl_at t) t = t" by (simp add: tl_go_def)
  ultimately show ?thesis using snapshot_determines [OF assms(1) r(2) assms(3)] r(3) s t0(1) by simp
qed

subsection \<open>Lowering the limit below the position\<close>

lemma observe_same:
  assumes "mt_historyReady m" "BuildMatchHistorySnapshotPayloadUnlocked env m = Some (mt_observedSnapshot m)"
    "mt_observedSnapshot m \<noteq> []"
  shows "ObserveMatchHistoryState env timeText m = (False, clear_pending m)"
  using assms by (simp add: ObserveMatchHistoryState_def)

lemma restorable_not_empty: "restorable env s \<Longrightarrow> s \<noteq> []"
  by (auto simp: restorable_def storable_def)

text \<open>Property C39. A lower limit drops the oldest entries even when they lie ahead of the position: after two steps are undone and the limit set to one, redoing skips the first step, and undoing that leads to a state other than the one redo started from.\<close>

theorem limit_breaks_redo:
  assumes "prints_back env" "history_ok env m" "storable env m"
    "BuildMatchHistorySnapshotPayloadUnlocked env m = Some (mt_observedSnapshot m)"
    "length (mt_history m) = 2" "mt_historyCursor m = 0"
    "m0 = snd (SetMatchHistoryMaxSteps 1 m)" "RedoMatchHistory env timeText True m0 = (r1, m1)"
    "UndoMatchHistory env timeText' True m1 = (r2, m2)"
  shows "r1 = Succeeded \<and> BuildMatchHistorySnapshotPayloadUnlocked env m1 = Some (tl_states (timeline_of m) ! 2) \<and>
     r2 = Succeeded \<and> BuildMatchHistorySnapshotPayloadUnlocked env m2 = Some (tl_states (timeline_of m) ! 1) \<and>
     BuildMatchHistorySnapshotPayloadUnlocked env m0 = Some (tl_states (timeline_of m) ! 0)"
proof -
  note p = history_okD [OF assms(2)]
  let ?l = "m\<lparr>mt_historyMaxSteps := 1\<rparr>"
  have t: "timeline_of ?l = timeline_of m" by (simp add: timeline_of_def)
  have lk: "linked ?l" using p(6) by (simp add: linked_def t)
  have m0: "m0 = trim_history ?l" using assms(7) by (simp add: SetMatchHistoryMaxSteps_def)
  have ne: "mt_history m \<noteq> []" using assms(5) by auto
  have st: "tl_states (timeline_of m0) = drop 1 (tl_states (timeline_of m))" "linked m0"
    using trim_states [OF lk] ne assms(5) by (simp_all add: m0 t)
  have f: "length (mt_history m0) = 1" "mt_historyCursor m0 = 0" "mt_historyReady m0" "\<not> mt_historyApplying m0"
    "mt_historyMaxSteps m0 = 1" "mt_observedSnapshot m0 = mt_observedSnapshot m"
    using p(1,2) assms(5,6) by (simp_all add: m0)
  have shape: "history_shape env m0"
    using p(8) st f by (auto simp: history_shape_def list_all_iff dest: in_set_dropD)
  have "same_state m0 m" by (simp add: m0) (simp add: same_state_def same_match_def)
  from same_state_build [OF this assms(1)] have b0: "BuildMatchHistorySnapshotPayloadUnlocked env m0 = Some (mt_observedSnapshot m0)"
    using assms(4) f(6) by simp
  have first: "mt_observedSnapshot m = tl_states (timeline_of m) ! 0" using p(7) assms(6) by (simp add: tl_present_def)
  have "mt_observedSnapshot m \<noteq> []" using p(8) assms(5) first by (intro restorable_not_empty [of env]) (simp add: list_all_length)
  then have ob: "ObserveMatchHistoryState env timeText m0 = (False, clear_pending m0)" using observe_same [OF f(3) b0] f(6) by simp
  have sh: "history_shape env (clear_pending m0)" using shape f(3,4) by (simp add: history_shape_def)
  have "apply_and_finish env True (tl_states (timeline_of (clear_pending m0)) ! 1) 1 (clear_pending m0) = (r1, m1)"
    using assms(8) ob f timeline_after [of 0 "clear_pending m0"] by (simp add: RedoMatchHistory_def)
  moreover have "mt_history (clear_pending m0) \<noteq> []" using f(1) by auto
  ultimately have "r1 = saved_outcome True \<and> history_ok env m1 \<and> timeline_of m1 = tl_go 1 (timeline_of m0) \<and> storable env m1 \<and>
     BuildMatchHistorySnapshotPayloadUnlocked env m1 = Some (tl_present (timeline_of m1))"
    using go_refines [OF sh assms(1)] f(1) by (metis clear_pending_rest(1,4) order_refl)
  then have g: "r1 = Succeeded" "history_ok env m1" "storable env m1" "timeline_of m1 = tl_go 1 (timeline_of m0)"
    "BuildMatchHistorySnapshotPayloadUnlocked env m1 = Some (tl_present (timeline_of m1))"
    by (simp_all add: saved_outcome_def)
  have pr1: "tl_present (timeline_of m1) = tl_states (timeline_of m) ! 2"
    using assms(5) by (simp add: g(4) tl_present_def tl_go_def st numeral_2_eq_2)
  have "run_history env timeText' True UndoIt m1 = (r2, m2)" using assms(9) by (simp add: run_history_def)
  note u = run_refines [OF assms(1) g(2,3,5) this]
  have "tl_visit n (tl_present (timeline_of m1)) (timeline_of m1) = timeline_of m1" for n by (simp add: tl_visit_def)
  then have "r2 = Succeeded" "timeline_of m2 = tl_go 0 (timeline_of m0)"
    using u by (simp_all add: tl_run_def g(4) tl_go_def saved_outcome_def)
  moreover have "tl_present (tl_go 0 (timeline_of m0)) = tl_states (timeline_of m) ! 1"
    using assms(5) by (simp add: tl_present_def tl_go_def st)
  ultimately show ?thesis using g(1,5) pr1 u b0 f(6) first by simp
qed

subsection \<open>Examples\<close>

text \<open>A printer that knows two matches, and what it prints for the whole snapshots.\<close>

definition history_env :: match_env where
  "history_env = demo_env\<lparr>
     me_dump := (\<lambda>j. if reread j = reread (full_snapshot demo_env blank_match) then Some [2]
       else if reread j = reread (full_snapshot demo_env blank_after) then Some [3]
       else if reread j = reread (team_snapshot demo_env blank_match) then Some [0]
       else if reread j = reread (team_snapshot demo_env blank_after) then Some [1] else None),
     me_parse := (\<lambda>s. if s = [0] then Some (reread (team_snapshot demo_env blank_match))
       else if s = [1] then Some (reread (team_snapshot demo_env blank_after))
       else if s = [2] then Some (reread (full_snapshot demo_env blank_match))
       else if s = [3] then Some (reread (full_snapshot demo_env blank_after)) else None)\<rparr>"

lemma history_env_prints: "prints_back history_env"
  by (simp add: prints_back_def prints_back_with_def history_env_def)

lemma history_env_snapshots [simp]:
  "team_snapshot history_env m = team_snapshot demo_env m" "full_snapshot history_env m = full_snapshot demo_env m"
proof -
  have "jtext history_env s = jtext demo_env s" for s by (simp add: jtext_def history_env_def demo_env_def)
  then have j: "seat_json history_env = seat_json demo_env" "recent_json history_env = recent_json demo_env"
    "history_event_json history_env = history_event_json demo_env"
    by (simp_all add: seat_json_def recent_json_def history_event_json_def fun_eq_iff)
  then show "team_snapshot history_env m = team_snapshot demo_env m" unfolding team_snapshot_def team_fields_def by simp
  show "full_snapshot history_env m = full_snapshot demo_env m"
    unfolding full_snapshot_def team_fields_def history_fields_def using j by simp
qed

lemma blank_fields:
  "mt_players blank_after = mt_players blank_match" "mt_lastKillerTeam blank_after = - 1" "mt_lastKillerTeam blank_match = - 1"
  "mt_totalScoreBlue blank_after = 0" "mt_totalScoreBlue blank_match = 0" "mt_totalScoreRed blank_after = 1" "mt_totalScoreRed blank_match = 0"
  "mt_recentEvents blank_match = []" "mt_recentEvents blank_after = []" "mt_eventBoundary blank_match = 0" "mt_eventBoundary blank_after = 0"
  "mt_historyMaxSteps blank_match = 20" "mt_historyReady blank_match" "\<not> mt_historyApplying blank_match"
  by (simp_all add: blank_after_def blank_match_def demo_match_def)

lemma blank_builds:
  "BuildMatchHistorySnapshotPayloadUnlocked history_env blank_match = Some [2]"
  "BuildMatchHistorySnapshotPayloadUnlocked history_env blank_after = Some [3]"
proof -
  have "json_find (ascii ''redScore'') (reread (full_snapshot demo_env blank_match)) \<noteq>
      json_find (ascii ''redScore'') (reread (full_snapshot demo_env blank_after))"
    by (simp add: full_team_find blank_fields)
  then have "reread (full_snapshot demo_env blank_after) \<noteq> reread (full_snapshot demo_env blank_match)" by metis
  then show "BuildMatchHistorySnapshotPayloadUnlocked history_env blank_match = Some [2]"
    "BuildMatchHistorySnapshotPayloadUnlocked history_env blank_after = Some [3]"
    unfolding build_eq [OF history_env_prints] history_env_snapshots by (simp_all add: history_env_def)
qed

lemma blank_storable: "storable history_env blank_match" "storable history_env blank_after"
proof -
  have "line_ok history_env = line_ok sync_env" "utf8_length history_env = utf8_length sync_env" "me_space history_env = me_space sync_env"
    by (simp_all add: fun_eq_iff line_ok_def clean_line_def jtext_def utf8_length_def history_env_def sync_env_def demo_env_def)
  then have s: "seat_syncable history_env = seat_syncable sync_env" "seat_bytes history_env = seat_bytes sync_env"
    unfolding seat_syncable_def [abs_def] seat_bytes_def [abs_def] by simp_all
  have d: "case me_dump history_env (team_snapshot demo_env m) of Some text \<Rightarrow> length text \<le> 60 * 1024 | None \<Rightarrow> False"
    if "m \<in> {blank_match, blank_after}" for m
    using that by (auto simp: history_env_def)
  have "syncable history_env blank_match" using blank_syncable(1) d [of blank_match] by (simp add: syncable_def s)
  moreover have "syncable history_env blank_after" using blank_syncable(2) d [of blank_after] by (simp add: syncable_def s)
  ultimately show "storable history_env blank_match" "storable history_env blank_after"
    by (simp_all add: storable_def blank_builds blank_fields last_events_def int_storable_def)
qed

lemma blank_restorable: "restorable history_env [2]" "restorable history_env [3]"
  using blank_storable blank_builds by (auto simp: restorable_def)

text \<open>The history of a match whose red score was raised and lowered again, both undone.\<close>

definition undone_entry :: "bytes \<Rightarrow> bytes \<Rightarrow> MatchHistoryEntry" where
  "undone_entry before after = \<lparr>he_id = 1, he_label = [], he_source = [], he_timeText = [], he_detail = [],
     he_beforeSnapshot = before, he_afterSnapshot = after\<rparr>"

definition undone_match :: match where
  "undone_match = blank_match\<lparr>mt_history := [undone_entry [2] [3], undone_entry [3] [2]], mt_historyCursor := 0, mt_observedSnapshot := [2]\<rparr>"

lemma undone_state: "same_state undone_match blank_match"
  by (simp add: undone_match_def same_state_def same_match_def)

lemmas undone_build = same_state_build [OF undone_state history_env_prints, unfolded blank_builds]
lemmas undone_storable = same_state_storable [OF undone_state history_env_prints, THEN iffD2, OF blank_storable(1)]

lemma undone_line: "timeline_of undone_match = \<lparr>tl_states = [[2], [3], [2]], tl_at = 0\<rparr>"
  by (simp add: undone_match_def timeline_of_def undone_entry_def)

lemma undone_ok: "history_ok history_env undone_match"
proof -
  have "linked undone_match" by (simp add: linked_def undone_line) (simp add: undone_match_def undone_entry_def less_2_cases_iff numeral_2_eq_2 less_Suc_eq)
  then show ?thesis using blank_restorable
    by (simp add: history_ok_defs undone_line tl_present_def) (simp add: undone_match_def blank_fields)
qed

lemma limit_breaks_redo_witness:
  "BuildMatchHistorySnapshotPayloadUnlocked history_env (snd (UndoMatchHistory history_env [] True (snd (RedoMatchHistory history_env [] True
     (snd (SetMatchHistoryMaxSteps 1 undone_match)))))) = Some [3] \<and>
   BuildMatchHistorySnapshotPayloadUnlocked history_env (snd (SetMatchHistoryMaxSteps 1 undone_match)) = Some [2]"
proof -
  have h: "length (mt_history undone_match) = 2" "mt_historyCursor undone_match = 0" "mt_observedSnapshot undone_match = [2]"
    by (simp_all add: undone_match_def)
  show ?thesis
    using limit_breaks_redo [OF history_env_prints undone_ok undone_storable _ h(1,2) refl prod.collapse [symmetric] prod.collapse [symmetric]]
      undone_build h(3) by (simp add: undone_line)
qed

lemma history_refines_timeline_witness:
  "run_history history_env [] True RedoIt undone_match = (Succeeded, snd (run_history history_env [] True RedoIt undone_match)) \<and>
   timeline_of (snd (run_history history_env [] True RedoIt undone_match)) = \<lparr>tl_states = [[2], [3], [2]], tl_at = 1\<rparr>"
  using history_refines_timeline [OF history_env_prints undone_ok undone_storable undone_build prod.collapse [symmetric], of "[]" True RedoIt]
  by (simp add: tl_run_def undone_line tl_visit_def tl_present_def tl_go_def saved_outcome_def prod_eq_iff)


text \<open>The same history with the first step redone.\<close>

definition redone_match :: match where
  "redone_match = blank_after\<lparr>mt_history := [undone_entry [2] [3], undone_entry [3] [2]], mt_historyCursor := 1, mt_observedSnapshot := [3]\<rparr>"

lemma redone_state: "same_state redone_match blank_after"
  by (simp add: redone_match_def same_state_def same_match_def)

lemmas redone_build = same_state_build [OF redone_state history_env_prints, unfolded blank_builds]
lemmas redone_storable = same_state_storable [OF redone_state history_env_prints, THEN iffD2, OF blank_storable(2)]

lemma redone_line: "timeline_of redone_match = \<lparr>tl_states = [[2], [3], [2]], tl_at = 1\<rparr>"
  by (simp add: redone_match_def timeline_of_def undone_entry_def)

lemma redone_ok: "history_ok history_env redone_match"
proof -
  have "linked redone_match" by (simp add: linked_def redone_line) (simp add: redone_match_def undone_entry_def less_2_cases_iff numeral_2_eq_2 less_Suc_eq)
  moreover have "mt_historyMaxSteps blank_after = 20" "mt_historyReady blank_after" "\<not> mt_historyApplying blank_after"
    by (simp_all add: blank_after_def blank_fields)
  ultimately show ?thesis using blank_restorable
    by (simp add: history_ok_defs redone_line tl_present_def) (simp add: redone_match_def)
qed

lemma redone_undone: "fst (UndoMatchHistory history_env [] True redone_match) = Succeeded"
proof -
  have "fst (run_history history_env [] True UndoIt redone_match) = Succeeded"
    using run_refines [OF history_env_prints redone_ok redone_storable redone_build prod.collapse [symmetric], of "[]" True UndoIt]
    by (simp add: tl_run_def redone_line tl_visit_def tl_present_def saved_outcome_def prod_eq_iff)
  then show ?thesis by (simp add: run_history_def)
qed

lemma undo_redo_round_trip_witness:
  "same_state (snd (RedoMatchHistory history_env [] True (snd (UndoMatchHistory history_env [] True redone_match)))) redone_match"
  by (rule undo_redo_round_trip [OF history_env_prints redone_ok redone_storable _ prod.collapse [symmetric], where timeText = "[]", THEN conjunct2])
    (simp add: prod_eq_iff redone_undone)

end
