(* ===== verification/LanDialog.thy ===== *)
theory LanDialog
  imports LanSafety MatchTimeline
begin

text \<open>
  The dialog on both sides of the local network (\<^verbatim>\<open>DNFGameCaptureDlg.cpp\<close>): the match is published whenever the state
  is sent to the page, messages of the service change the match, and the commands of the page steer the service.
  A message to the page is recorded whether or not a page is open; its fixed texts are constructors, and the
  texts of the service keep its encoding. Saving settings and files, drawing and log lines are left out.
\<close>

datatype notice =
    NotClientReceive | PushUnsupported | NotServer | NotClientSend | BidirectionalUnsupported | AutoReceiveOn
  | NotClientFetch | FetchFailed lan_error | ManualVoid | NotConnectedApply | NothingPending | NoUndoWhileAuto | NothingToUndoSync
  | SyncRefused sync_error | ConnectionLost | BadMessage | StatusNotice bytes

datatype auto_result =
    NoResult | WaitingReconnect | WaitingConnect | ReceiveOff | Unsupported | WaitingState | AutoRefused sync_error | AppliedRevision u64
  | ProposalAccepted | ProposalRefused bool | SyncFailed bytes

datatype web_message = WebNotice notice | WebSnapshot json json | WebRefused "sync_error option" | WebNoBackup | WebAuto auto_result
  | WebFailed bytes

record lan_dialog =
  ld_match :: match
  ld_lan :: lan
  ld_role :: KeyMappingLanRole
  ld_autoReceive :: bool
  ld_allowClientWrite :: bool
  ld_autoSend :: bool
  ld_lastAutoRevision :: u64
  ld_lastAutoResult :: auto_result
  ld_wasConnected :: bool
  ld_enabled :: bool
  ld_hookInstalled :: bool
  ld_adminRequired :: bool
  ld_slots :: "nat list"
  ld_localMask :: "32 word"
  ld_activeMask :: "32 word"
  ld_lastServerId :: bytes
  ld_lastStatus :: bytes
  ld_web :: "web_message list"

definition lan_env_of :: "match_env \<Rightarrow> lan_env" where
  "lan_env_of env = \<lparr>ne_dump = me_dump env, ne_parse = me_parse env, ne_float_int = me_float_int env\<rparr>"

definition tell :: "web_message \<Rightarrow> lan_dialog \<Rightarrow> lan_dialog" where "tell w d = d\<lparr>ld_web := ld_web d @ [w]\<rparr>"

definition on_lan :: "(lan \<Rightarrow> lan) \<Rightarrow> lan_dialog \<Rightarrow> lan_dialog" where "on_lan f d = d\<lparr>ld_lan := f (ld_lan d)\<rparr>"

definition set_pending :: "json \<Rightarrow> json \<Rightarrow> lan_dialog \<Rightarrow> lan_dialog" where
  "set_pending pending baseline d = d\<lparr>ld_match := (ld_match d)\<lparr>mt_syncPending := pending, mt_syncBaseline := baseline\<rparr>\<rparr>"

abbreviation void_pending :: "lan_dialog \<Rightarrow> lan_dialog" where "void_pending \<equiv> set_pending empty_json empty_json"

definition ClearTeamSyncState :: "match \<Rightarrow> match" where
  "ClearTeamSyncState m = m\<lparr>mt_syncPending := empty_json, mt_syncBaseline := empty_json, mt_syncApplied := empty_json,
     mt_syncBackup := empty_json, mt_syncBackupAvailable := False, mt_syncBackupBoundary := 0\<rparr>"

subsection \<open>Publishing the match\<close>

text \<open>The flag tells of an exception of the history, outside the guarded part.\<close>

definition BroadcastStateToWeb :: "match_env \<Rightarrow> wstr \<Rightarrow> lan_dialog \<Rightarrow> bool \<times> lan_dialog" where
  "BroadcastStateToWeb env timeText d =
     (case ObserveMatchHistoryState env timeText (ld_match d) of
        (True, m) \<Rightarrow> (True, d\<lparr>ld_match := m\<rparr>)
      | (False, m) \<Rightarrow> (False, on_lan (SetTeamSyncSnapshot (case BuildTeamSyncSnapshotPayloadUnlocked env m of Some p \<Rightarrow> p | None \<Rightarrow> []))
          (d\<lparr>ld_match := m\<rparr>)))"

subsection \<open>Messages of the service\<close>

text \<open>A handler may return at once, run to its end, or throw.\<close>

datatype handled = Returned lan_dialog | Finished lan_dialog | ThrownAt lan_dialog

definition auto_mode :: apply_mode where
  "auto_mode = \<lparr>am_createBackup = False, am_automatic = True, am_preserveLocalFlip = False, am_exactRestore = False,
     am_label = [0x81EA, 0x52A8, 0x540C, 0x6B65], am_source = [0x5C40, 0x57DF, 0x7F51]\<rparr>"

definition message_snapshot :: "json \<Rightarrow> json option" where
  "message_snapshot message = jvalue (ascii ''snapshot'') empty_json message"

definition on_snapshot :: "match_env \<Rightarrow> json \<Rightarrow> lan_dialog \<Rightarrow> handled" where
  "on_snapshot env message d =
     (case message_snapshot message of
        None \<Rightarrow> ThrownAt d
      | Some snapshot \<Rightarrow>
          if ld_autoReceive d then Finished (void_pending d)
          else if ld_role d \<noteq> Client then Finished (tell (WebRefused None) (void_pending d))
          else case ValidateTeamSyncSnapshot env snapshot of
            Throws \<Rightarrow> ThrownAt d
          | Invalid e \<Rightarrow> Finished (tell (WebRefused (Some e)) (void_pending d))
          | Valid _ \<Rightarrow>
              (case do { payload \<leftarrow> BuildTeamSyncSnapshotPayloadUnlocked env (ld_match d); me_parse env payload } of
                 None \<Rightarrow> Finished (tell WebNoBackup (void_pending d))
               | Some baseline \<Rightarrow> Finished (tell (WebSnapshot snapshot baseline) (set_pending snapshot baseline d))))"

definition auto_refused :: "sync_error \<Rightarrow> lan_dialog \<Rightarrow> lan_dialog" where
  "auto_refused e d = tell (WebAuto (AutoRefused e)) (d\<lparr>ld_lastAutoResult := AutoRefused e\<rparr>)"

definition on_push :: "match_env \<Rightarrow> json \<Rightarrow> lan_dialog \<Rightarrow> handled" where
  "on_push env message d =
     (let s = GetStatusSnapshot (ld_lan d) in
      case (value_word (lan_env_of env) ''revision'' message, message_snapshot message) of
        (Some revision, Some snapshot) \<Rightarrow>
          if \<not> ld_autoReceive d \<or> ld_role d \<noteq> Client \<or> \<not> ss_connected s \<or> \<not> ss_teamSyncPushSupported s \<or>
             \<not> ss_teamSyncSubscribed s \<or> revision = 0 \<or> revision \<le> ld_lastAutoRevision d
          then Returned d
          else (case ValidateTeamSyncSnapshot env snapshot of
              Throws \<Rightarrow> ThrownAt d
            | Invalid e \<Rightarrow> Finished (auto_refused e d)
            | Valid _ \<Rightarrow>
                (case me_dump env snapshot of
                   None \<Rightarrow> ThrownAt d
                 | Some payload \<Rightarrow>
                     let d = on_lan (SetRemoteTeamSyncSnapshot payload revision) d in
                     case ApplyTeamSyncSnapshot env auto_mode snapshot (ld_match d) of
                       (Thrown, m) \<Rightarrow> ThrownAt (d\<lparr>ld_match := m\<rparr>)
                     | (Refused e, m) \<Rightarrow> Finished (auto_refused e (d\<lparr>ld_match := m\<rparr>))
                     | (Applied, m) \<Rightarrow>
                         Finished (d\<lparr>ld_match := m, ld_lastAutoRevision := revision, ld_lastAutoResult := AppliedRevision revision\<rparr>)))
      | _ \<Rightarrow> ThrownAt d)"

definition on_proposal :: "match_env \<Rightarrow> json \<Rightarrow> lan_dialog \<Rightarrow> handled" where
  "on_proposal env message d =
     (let s = GetStatusSnapshot (ld_lan d) in
      case (message_snapshot message, value_text ''sourceId'' message, value_word (lan_env_of env) ''proposalId'' message) of
        (Some snapshot, Some sourceId, Some proposalId) \<Rightarrow>
          if ld_role d \<noteq> Server \<or> \<not> ss_connected s \<or> \<not> ld_allowClientWrite d
          then Finished (on_lan (CompleteTeamSyncProposal sourceId proposalId False (ascii ''write_not_allowed'')) d)
          else (case ValidateTeamSyncSnapshot env snapshot of
              Throws \<Rightarrow> ThrownAt d
            | Invalid e \<Rightarrow> Finished (on_lan (CompleteTeamSyncProposal sourceId proposalId False (ascii ''invalid_snapshot'')) d)
            | Valid _ \<Rightarrow>
                (case ApplyTeamSyncSnapshot env auto_mode snapshot (ld_match d) of
                   (Thrown, m) \<Rightarrow> ThrownAt (d\<lparr>ld_match := m\<rparr>)
                 | (Refused e, m) \<Rightarrow>
                     Finished (on_lan (CompleteTeamSyncProposal sourceId proposalId False (ascii ''invalid_snapshot'')) (d\<lparr>ld_match := m\<rparr>))
                 | (Applied, m) \<Rightarrow>
                     Finished (on_lan (CompleteTeamSyncProposal sourceId proposalId True [])
                       (d\<lparr>ld_match := m, ld_lastAutoResult := ProposalAccepted\<rparr>))))
      | _ \<Rightarrow> ThrownAt d)"

definition on_result :: "json \<Rightarrow> lan_dialog \<Rightarrow> handled" where
  "on_result message d =
     (case value_flag ''accepted'' message of
        None \<Rightarrow> ThrownAt d
      | Some True \<Rightarrow> Finished d
      | Some False \<Rightarrow>
          (case value_text ''reason'' message of
             None \<Rightarrow> ThrownAt d
           | Some reason \<Rightarrow> Finished (d\<lparr>ld_lastAutoResult := ProposalRefused (reason = ascii ''write_not_allowed'')\<rparr>)))"

definition on_error :: "json \<Rightarrow> lan_dialog \<Rightarrow> handled" where
  "on_error message d =
     (case value_flag ''automatic'' message of
        None \<Rightarrow> ThrownAt d
      | Some automatic \<Rightarrow>
          if automatic \<and> \<not> ld_autoReceive d then Returned d
          else
            let d = void_pending d in
            case jvalue_string (ascii ''reason'') (ascii ''unknown'') message of
              None \<Rightarrow> ThrownAt d
            | Some reason \<Rightarrow> Finished (tell (WebFailed reason) (if automatic then d\<lparr>ld_lastAutoResult := SyncFailed reason\<rparr> else d)))"

definition handle_lan_message :: "match_env \<Rightarrow> json \<Rightarrow> lan_dialog \<Rightarrow> handled" where
  "handle_lan_message env message d =
     (case value_text ''type'' message of
        None \<Rightarrow> ThrownAt d
      | Some t \<Rightarrow>
          if t = ascii ''team_sync_snapshot'' then on_snapshot env message d
          else if t = ascii ''team_sync_push'' then on_push env message d
          else if t = ascii ''team_sync_propose'' then on_proposal env message d
          else if t = ascii ''team_sync_propose_result'' then on_result message d
          else if t = ascii ''team_sync_error'' then on_error message d
          else Finished d)"

text \<open>
  The message has become text of the window when it was posted and is turned back. An exception on the way makes
  the message a malformed one; one out of the last publication leaves the handler.
\<close>

definition malformed :: "match_env \<Rightarrow> wstr \<Rightarrow> lan_dialog \<Rightarrow> bool \<times> lan_dialog" where
  "malformed env timeText d = BroadcastStateToWeb env timeText (tell (WebNotice BadMessage) (void_pending d))"

definition OnKeyMappingTeamSync :: "match_env \<Rightarrow> wstr \<Rightarrow> wstr \<Rightarrow> lan_dialog \<Rightarrow> bool \<times> lan_dialog" where
  "OnKeyMappingTeamSync env timeText payload d =
     (case me_parse env (DnfJsonUtf8 (me_to_utf8 env) payload) of
        None \<Rightarrow> malformed env timeText d
      | Some message \<Rightarrow>
          (case handle_lan_message env message d of
             Returned d \<Rightarrow> (False, d)
           | ThrownAt d \<Rightarrow> malformed env timeText d
           | Finished d \<Rightarrow>
               (case BroadcastStateToWeb env timeText d of (True, d) \<Rightarrow> malformed env timeText d | (False, d) \<Rightarrow> (False, d))))"

subsection \<open>Key mapping\<close>

text \<open>Administrator rights and the result of installing the hook of the keyboard are inputs.\<close>

definition SetKeyMappingEnabled :: "bool \<Rightarrow> bool \<Rightarrow> bool \<Rightarrow> lan_dialog \<Rightarrow> bool \<times> lan_dialog" where
  "SetKeyMappingEnabled isAdmin installs enabled d =
     (if \<not> enabled then
        (True, (on_lan (SetLocalActiveMask 0) d)\<lparr>ld_enabled := False, ld_hookInstalled := False, ld_localMask := 0, ld_activeMask := 0,
          ld_adminRequired := False\<rparr>)
      else if ld_role d = Server then
        (True, (on_lan (SetLocalActiveMask 0) d)\<lparr>ld_hookInstalled := False, ld_localMask := 0, ld_enabled := True\<rparr>)
      else if \<not> isAdmin then
        (False, d\<lparr>ld_enabled := False, ld_hookInstalled := False, ld_localMask := 0, ld_activeMask := 0, ld_adminRequired := True\<rparr>)
      else if \<not> installs then (False, d\<lparr>ld_enabled := False, ld_activeMask := 0\<rparr>)
      else (True, d\<lparr>ld_hookInstalled := True, ld_enabled := True, ld_adminRequired := False\<rparr>))"

definition pressed_mask :: "(nat \<Rightarrow> bool) \<Rightarrow> nat list \<Rightarrow> 32 word" where
  "pressed_mask isDown keys =
     fold (\<lambda>(i, vk) bits. if 0 < vk \<and> vk \<le> 0xFE \<and> isDown vk then or bits (push_bit i 1) else bits) (zip [0..<length keys] keys) 0"

definition PollKeyMappingState :: "(nat \<Rightarrow> bool) \<Rightarrow> lan_dialog \<Rightarrow> lan_dialog" where
  "PollKeyMappingState isDown d =
     (if ld_role d = Server then
        (on_lan (SetLocalActiveMask 0) d)\<lparr>ld_localMask := 0,
          ld_activeMask := (if ld_enabled d \<and> ss_connected (GetStatusSnapshot (ld_lan d)) then GetRemoteActiveMask (ld_lan d) else 0)\<rparr>
      else if \<not> ld_enabled d \<or> \<not> ld_hookInstalled d then
        (on_lan (SetLocalActiveMask 0) d)\<lparr>ld_localMask := 0, ld_activeMask := 0\<rparr>
      else let bits = pressed_mask isDown (ld_slots d)
        in (on_lan (SetLocalActiveMask bits) d)\<lparr>ld_localMask := bits, ld_activeMask := bits\<rparr>)"

definition SetKeyMappingLanRole :: "(lan \<Rightarrow> lan) \<Rightarrow> (lan \<Rightarrow> lan) \<Rightarrow> KeyMappingLanRole \<Rightarrow> lan_dialog \<Rightarrow> lan_dialog" where
  "SetKeyMappingLanRole finish finishDiscovery role d =
     (let d = on_lan (SetRole finish finishDiscovery role) d;
          d = d\<lparr>ld_match := ClearTeamSyncState (ld_match d), ld_hookInstalled := False, ld_localMask := 0, ld_activeMask := 0,
            ld_enabled := False, ld_role := role\<rparr>;
          d = on_lan (SetTeamSyncClientWriteAllowed (role = Server \<and> ld_allowClientWrite d)) d;
          d = on_lan (SetTeamSyncAutoSend (role = Client \<and> ld_autoSend d)) d;
          d = on_lan (SetTeamSyncSubscribed (role = Client \<and> ld_autoReceive d)) d
      in d\<lparr>ld_wasConnected := False, ld_lastAutoRevision := 0, ld_lastAutoResult := NoResult, ld_adminRequired := False\<rparr>)"

subsection \<open>Changes of the service\<close>

definition server_connected :: "lan_dialog \<Rightarrow> lan_dialog" where
  "server_connected d = (on_lan (SetTeamSyncClientWriteAllowed (ld_allowClientWrite d)) d)\<lparr>ld_enabled := True\<rparr>"

definition client_connected :: "KeyMappingLanStatusSnapshot \<Rightarrow> lan_dialog \<Rightarrow> lan_dialog" where
  "client_connected s d =
     (let d = d\<lparr>ld_lastServerId := ss_serverId s, ld_lastAutoRevision := 0\<rparr>;
          d = on_lan (SetTeamSyncAutoSend (ld_autoSend d)) (on_lan (SetTeamSyncSubscribed (ld_autoReceive d)) d)
      in if ld_autoReceive d \<and> \<not> ss_teamSyncPushSupported s
         then tell (WebNotice PushUnsupported)
           ((on_lan (SetTeamSyncSubscribed False) (d\<lparr>ld_autoReceive := False\<rparr>))\<lparr>ld_lastAutoResult := Unsupported\<rparr>)
         else if ld_autoReceive d then d\<lparr>ld_lastAutoResult := WaitingState\<rparr> else d)"

text \<open>The statuses that have a text of their own.\<close>

definition told_statuses :: "bytes list" where
  "told_statuses = map ascii [''bind_failed'', ''socket_failed'', ''rejected_pair_code'', ''rejected_busy'', ''rejected_version'']"

definition OnKeyMappingLanChanged :: "match_env \<Rightarrow> wstr \<Rightarrow> (nat \<Rightarrow> bool) \<Rightarrow> lan_dialog \<Rightarrow> bool \<times> lan_dialog" where
  "OnKeyMappingLanChanged env timeText isDown d =
     (let s = GetStatusSnapshot (ld_lan d);
          became = (ss_connected s \<and> \<not> ld_wasConnected d);
          lost = (ld_wasConnected d \<and> \<not> ss_connected s);
          d = (if lost then d\<lparr>ld_lastAutoRevision := 0,
                 ld_lastAutoResult := (if ld_autoReceive d then WaitingReconnect else ld_lastAutoResult d)\<rparr> else d);
          d = (if lost \<and> \<not> json_empty (mt_syncPending (ld_match d)) then tell (WebNotice ConnectionLost) (void_pending d) else d);
          d = (if became \<and> ld_role d = Server then server_connected d
               else if became \<and> ld_role d = Client then client_connected s d else d);
          d = (if ss_status s \<noteq> ld_lastStatus d
               then (if ss_status s \<in> set told_statuses then tell (WebNotice (StatusNotice (ss_status s))) d else d)\<lparr>ld_lastStatus := ss_status s\<rparr>
               else d)
      in BroadcastStateToWeb env timeText (PollKeyMappingState isDown (d\<lparr>ld_wasConnected := ss_connected s\<rparr>)))"

subsection \<open>Commands of the page\<close>

definition cmd_disconnect_key_lan :: "(lan \<Rightarrow> lan) \<Rightarrow> lan_dialog \<Rightarrow> lan_dialog" where
  "cmd_disconnect_key_lan finish d =
     (let d = on_lan (StopNetwork finish) d
      in snd (SetKeyMappingEnabled False False False (d\<lparr>ld_match := ClearTeamSyncState (ld_match d), ld_lastAutoRevision := 0\<rparr>)))"

definition cmd_set_team_sync_auto_receive :: "bool \<Rightarrow> lan_dialog \<Rightarrow> lan_dialog" where
  "cmd_set_team_sync_auto_receive enabled d =
     (let s = GetStatusSnapshot (ld_lan d) in
      if enabled \<and> ld_role d \<noteq> Client then tell (WebNotice NotClientReceive) d
      else if enabled \<and> ss_connected s \<and> \<not> ss_teamSyncPushSupported s then tell (WebNotice PushUnsupported) d
      else
        let d = d\<lparr>ld_autoReceive := enabled\<rparr>;
            d = (if \<not> enabled \<and> ld_autoSend d then on_lan (SetTeamSyncAutoSend False) (d\<lparr>ld_autoSend := False\<rparr>) else d);
            d = d\<lparr>ld_lastAutoRevision := 0, ld_lastAutoResult := (if enabled then WaitingConnect else ReceiveOff),
                  ld_match := ClearTeamSyncState (ld_match d)\<rparr>
        in on_lan (SetTeamSyncSubscribed enabled) d)"

definition cmd_set_team_sync_allow_client_write :: "bool \<Rightarrow> lan_dialog \<Rightarrow> lan_dialog" where
  "cmd_set_team_sync_allow_client_write enabled d =
     (if ld_role d \<noteq> Server then tell (WebNotice NotServer) d
      else on_lan (SetTeamSyncClientWriteAllowed enabled) (d\<lparr>ld_allowClientWrite := enabled\<rparr>))"

definition cmd_set_team_sync_auto_send :: "bool \<Rightarrow> lan_dialog \<Rightarrow> lan_dialog" where
  "cmd_set_team_sync_auto_send enabled d =
     (let s = GetStatusSnapshot (ld_lan d) in
      if enabled \<and> ld_role d \<noteq> Client then tell (WebNotice NotClientSend) d
      else if enabled \<and> ss_connected s \<and> \<not> ss_teamSyncBidirectionalSupported s then tell (WebNotice BidirectionalUnsupported) d
      else
        let d = d\<lparr>ld_autoSend := enabled\<rparr>;
            d = (if enabled \<and> \<not> ld_autoReceive d
                 then on_lan (SetTeamSyncSubscribed True) (d\<lparr>ld_autoReceive := True, ld_lastAutoRevision := 0\<rparr>) else d)
        in on_lan (SetTeamSyncAutoSend enabled) d)"

definition cmd_request_team_sync :: "lan_dialog \<Rightarrow> lan_dialog" where
  "cmd_request_team_sync d =
     (if ld_autoReceive d then tell (WebNotice AutoReceiveOn) d
      else if ld_role d \<noteq> Client then tell (WebNotice NotClientFetch) d
      else case RequestTeamSync (ld_lan d) of
        (Some e, l) \<Rightarrow> tell (WebNotice (FetchFailed e)) (d\<lparr>ld_lan := l\<rparr>)
      | (None, l) \<Rightarrow> d\<lparr>ld_lan := l\<rparr>)"

definition hand_mode :: "bool \<Rightarrow> apply_mode" where
  "hand_mode createBackup = \<lparr>am_createBackup = createBackup, am_automatic = False, am_preserveLocalFlip = False, am_exactRestore = False,
     am_label = (if createBackup then [0x624B, 0x52A8, 0x540C, 0x6B65] else [0x6062, 0x590D, 0x540C, 0x6B65]),
     am_source = [0x5C40, 0x57DF, 0x7F51]\<rparr>"

text \<open>The flag tells of an exception, with the dialog as it left it.\<close>

definition apply_by_hand :: "match_env \<Rightarrow> bool \<Rightarrow> json \<Rightarrow> lan_dialog \<Rightarrow> bool \<times> lan_dialog" where
  "apply_by_hand env createBackup snapshot d =
     (case ApplyTeamSyncSnapshot env (hand_mode createBackup) snapshot (ld_match d) of
        (Thrown, m) \<Rightarrow> (True, d\<lparr>ld_match := m\<rparr>)
      | (Refused e, m) \<Rightarrow> (False, tell (WebNotice (SyncRefused e)) (d\<lparr>ld_match := m\<rparr>))
      | (Applied, m) \<Rightarrow> (False, d\<lparr>ld_match := m\<rparr>))"

definition cmd_apply_team_sync :: "match_env \<Rightarrow> lan_dialog \<Rightarrow> bool \<times> lan_dialog" where
  "cmd_apply_team_sync env d =
     (if ld_autoReceive d then (False, tell (WebNotice ManualVoid) (void_pending d))
      else if ld_role d \<noteq> Client \<or> \<not> ss_connected (GetStatusSnapshot (ld_lan d))
        then (False, tell (WebNotice NotConnectedApply) (void_pending d))
      else if json_empty (mt_syncPending (ld_match d)) then (False, tell (WebNotice NothingPending) d)
      else apply_by_hand env True (mt_syncPending (ld_match d)) d)"

definition cmd_cancel_team_sync :: "lan_dialog \<Rightarrow> lan_dialog" where "cmd_cancel_team_sync = void_pending"

definition cmd_undo_team_sync :: "match_env \<Rightarrow> lan_dialog \<Rightarrow> bool \<times> lan_dialog" where
  "cmd_undo_team_sync env d =
     (if ld_autoReceive d then (False, tell (WebNotice NoUndoWhileAuto) d)
      else if \<not> mt_syncBackupAvailable (ld_match d) \<or> json_empty (mt_syncBackup (ld_match d))
        then (False, tell (WebNotice NothingToUndoSync) d)
      else apply_by_hand env False (mt_syncBackup (ld_match d)) d)"

text \<open>Each of these commands ends with sending the state to the page.\<close>

datatype page_command =
    DisconnectLan | SetAutoReceive bool | SetAllowWrite bool | SetAutoSend bool | FetchSync | ApplySync | CancelSync | UndoSync

fun obey :: "match_env \<Rightarrow> (lan \<Rightarrow> lan) \<Rightarrow> page_command \<Rightarrow> lan_dialog \<Rightarrow> bool \<times> lan_dialog" where
  "obey env finish DisconnectLan d = (False, cmd_disconnect_key_lan finish d)"
| "obey env finish (SetAutoReceive enabled) d = (False, cmd_set_team_sync_auto_receive enabled d)"
| "obey env finish (SetAllowWrite enabled) d = (False, cmd_set_team_sync_allow_client_write enabled d)"
| "obey env finish (SetAutoSend enabled) d = (False, cmd_set_team_sync_auto_send enabled d)"
| "obey env finish FetchSync d = (False, cmd_request_team_sync d)"
| "obey env finish ApplySync d = cmd_apply_team_sync env d"
| "obey env finish CancelSync d = (False, cmd_cancel_team_sync d)"
| "obey env finish UndoSync d = cmd_undo_team_sync env d"

definition run_page_command :: "match_env \<Rightarrow> wstr \<Rightarrow> (lan \<Rightarrow> lan) \<Rightarrow> page_command \<Rightarrow> lan_dialog \<Rightarrow> bool \<times> lan_dialog" where
  "run_page_command env timeText finish c d =
     (case obey env finish c d of (True, d) \<Rightarrow> (True, d) | (False, d) \<Rightarrow> BroadcastStateToWeb env timeText d)"

end
