(* ===== verification/LanMatch.thy ===== *)
theory LanMatch
  imports LanDialog
begin

text \<open>
  What the network does to the match: which messages may change it, what a push of the server's match brings, and
  that an applied push counts as a change of the client.
\<close>

subsection \<open>What does not touch the match\<close>

lemma same_match_refl [simp]: "same_match m m"
  by (simp add: same_match_def)

lemma record_same [simp]:
  "same_match (snd (RecordMatchHistoryTransition env t a b l s m)) m0 = same_match m m0"
  by (simp add: RecordMatchHistoryTransition_def next_id_def clear_pending_def trim_history_def Let_def same_match_def split_def split: option.splits)

lemma clear_pending_same [simp]: "same_match (clear_pending m) m0 = same_match m m0"
  by (simp add: clear_pending_def same_match_def)

lemma observe_same_match [simp]: "same_match (snd (ObserveMatchHistoryState env t m)) m0 = same_match m m0"
proof -
  have u: "same_match (m\<lparr>mt_observedSnapshot := c\<rparr>) m0 = same_match m m0"
    "same_match (m\<lparr>mt_observedSnapshot := c, mt_mutationPending := b\<rparr>) m0 = same_match m m0" for c b m
    by (simp_all add: same_match_def)
  show ?thesis using record_same [of env t "mt_observedSnapshot m"]
    by (auto simp: ObserveMatchHistoryState_def Let_def u split: option.splits prod.splits) (metis record_same snd_conv)+
qed

lemma pending_same [simp]: "same_match (m\<lparr>mt_syncPending := a, mt_syncBaseline := b\<rparr>) m0 = same_match m m0"
  by (simp add: same_match_def)

lemma dialog_simps [simp]:
  "ld_match (tell w d) = ld_match d" "ld_match (on_lan f d) = ld_match d" "same_match (ld_match (set_pending a b d)) m0 = same_match (ld_match d) m0"
  "ld_lan (tell w d) = ld_lan d" "ld_lan (on_lan f d) = f (ld_lan d)" "ld_lan (set_pending a b d) = ld_lan d"
  "ld_lastAutoRevision (tell w d) = ld_lastAutoRevision d" "ld_lastAutoRevision (on_lan f d) = ld_lastAutoRevision d"
  "ld_lastAutoRevision (set_pending a b d) = ld_lastAutoRevision d"
  by (simp_all add: tell_def on_lan_def set_pending_def)

lemma broadcast_same [simp]:
  "same_match (ld_match (snd (BroadcastStateToWeb env t d))) m0 = same_match (ld_match d) m0"
  "ld_lastAutoRevision (snd (BroadcastStateToWeb env t d)) = ld_lastAutoRevision d"
proof -
  obtain threw m where obs: "ObserveMatchHistoryState env t (ld_match d) = (threw, m)" by fastforce
  then have "same_match m m0 = same_match (ld_match d) m0" using observe_same_match [of env t "ld_match d" m0] by simp
  then show "same_match (ld_match (snd (BroadcastStateToWeb env t d))) m0 = same_match (ld_match d) m0"
    "ld_lastAutoRevision (snd (BroadcastStateToWeb env t d)) = ld_lastAutoRevision d"
    by (cases threw; simp add: BroadcastStateToWeb_def obs)+
qed

lemma malformed_same [simp]:
  "same_match (ld_match (snd (malformed env t d))) m0 = same_match (ld_match d) m0"
  "ld_lastAutoRevision (snd (malformed env t d)) = ld_lastAutoRevision d"
  by (simp_all add: malformed_def)

subsection \<open>Automatic application\<close>

lemma auto_applies:
  "ApplyTeamSyncSnapshot env auto_mode snapshot m = (r, m') \<Longrightarrow>
     (case ValidateTeamSyncSnapshot env snapshot of Valid _ \<Rightarrow> r = Applied | Invalid e \<Rightarrow> r = Refused e \<and> m' = m | Throws \<Rightarrow> r = Thrown \<and> m' = m)"
  by (auto simp: ApplyTeamSyncSnapshot_def auto_mode_def check_backup_def update_sync_state_def Let_def split: validation.splits)

lemma auto_restores:
  assumes "syncable env m0" "\<not> mt_preferLocalAliases m"
  shows "\<exists>m'. ApplyTeamSyncSnapshot env auto_mode (team_snapshot env m0) m = (Applied, m') \<and> same_match m' m0 \<and>
     mt_recentEvents m' = mt_recentEvents m \<and> mt_historyReady m' = mt_historyReady m"
proof -
  obtain b where v: "ValidateTeamSyncSnapshot env (team_snapshot env m0) = Valid b" using syncable_validates [OF assms(1)] by blast
  let ?mf = "apply_fields env False (team_snapshot env m0)
      (parse_seats env False False m (elements (jget (ascii ''players'') (team_snapshot env m0)))) m"
  let ?mu = "?mf\<lparr>mt_syncApplied := empty_json, mt_syncBackup := empty_json, mt_syncBackupAvailable := False,
           mt_syncBackupBoundary := 0, mt_eventBoundary := raise_boundary ?mf\<rparr>"
  have "ApplyTeamSyncSnapshot env auto_mode (team_snapshot env m0) m = (Applied, mark_applied auto_mode ?mu)"
    using assms(2) v by (simp add: ApplyTeamSyncSnapshot_def auto_mode_def check_backup_def update_sync_state_def Let_def)
  moreover have "same_match ?mu m0 = same_match ?mf m0" by (simp add: same_match_def)
  moreover have "mt_recentEvents (mark_applied auto_mode ?mu) = mt_recentEvents m \<and> mt_historyReady (mark_applied auto_mode ?mu) = mt_historyReady m"
    by (simp add: mark_applied_def Let_def MarkMatchMutation_def apply_fields_def)
  ultimately show ?thesis using fields_restored [OF assms(1), of m] by simp
qed

subsection \<open>Who changes the match\<close>

definition receives_push :: "match_env \<Rightarrow> json \<Rightarrow> lan_dialog \<Rightarrow> bool" where
  "receives_push env message d \<longleftrightarrow>
     value_text ''type'' message = Some (ascii ''team_sync_push'') \<and> ld_role d = Client \<and> ld_autoReceive d \<and>
     ss_connected (GetStatusSnapshot (ld_lan d)) \<and> ss_teamSyncSubscribed (GetStatusSnapshot (ld_lan d)) \<and>
     (case value_word (lan_env_of env) ''revision'' message of Some revision \<Rightarrow> revision > ld_lastAutoRevision d | None \<Rightarrow> False)"

definition accepts_proposal :: "json \<Rightarrow> lan_dialog \<Rightarrow> bool" where
  "accepts_proposal message d \<longleftrightarrow>
     value_text ''type'' message = Some (ascii ''team_sync_propose'') \<and> ld_role d = Server \<and> ld_allowClientWrite d \<and>
     ss_connected (GetStatusSnapshot (ld_lan d))"

fun dialog_after :: "handled \<Rightarrow> lan_dialog" where
  "dialog_after (Returned d) = d"
| "dialog_after (Finished d) = d"
| "dialog_after (ThrownAt d) = d"

lemma push_unwanted_same:
  assumes "\<not> receives_push env message d" "value_text ''type'' message = Some (ascii ''team_sync_push'')"
  shows "dialog_after (on_push env message d) = d"
  using assms by (auto simp: on_push_def receives_push_def Let_def not_less split: option.splits)

lemma proposal_unwanted_same:
  assumes "\<not> accepts_proposal message d" "value_text ''type'' message = Some (ascii ''team_sync_propose'')"
  shows "ld_match (dialog_after (on_proposal env message d)) = ld_match d"
  using assms by (auto simp: on_proposal_def accepts_proposal_def Let_def split: option.splits)

lemma others_same:
  "same_match (ld_match (dialog_after (on_snapshot env message d))) (ld_match d)"
  "same_match (ld_match (dialog_after (on_result message d))) (ld_match d)"
  "same_match (ld_match (dialog_after (on_error message d))) (ld_match d)"
  by (auto simp: on_snapshot_def on_result_def on_error_def Let_def split: option.splits validation.splits bool.splits)

lemma unwanted_message_same:
  assumes "\<not> receives_push env message d" "\<not> accepts_proposal message d"
  shows "same_match (ld_match (dialog_after (handle_lan_message env message d))) (ld_match d)"
  using push_unwanted_same [OF assms(1)] proposal_unwanted_same [OF assms(2), of env]
  by (auto simp: handle_lan_message_def others_same split: option.splits)

lemma handler_same:
  assumes "me_parse env (DnfJsonUtf8 (me_to_utf8 env) payload) = Some message"
  shows "same_match (ld_match (snd (OnKeyMappingTeamSync env t payload d))) m0 =
      same_match (ld_match (dialog_after (handle_lan_message env message d))) m0"
    "ld_lastAutoRevision (snd (OnKeyMappingTeamSync env t payload d)) = ld_lastAutoRevision (dialog_after (handle_lan_message env message d))"
proof -
  have "same_match (ld_match (snd (OnKeyMappingTeamSync env t payload d))) m0 =
      same_match (ld_match (dialog_after (handle_lan_message env message d))) m0 \<and>
    ld_lastAutoRevision (snd (OnKeyMappingTeamSync env t payload d)) = ld_lastAutoRevision (dialog_after (handle_lan_message env message d))"
  proof (cases "handle_lan_message env message d")
    case (Finished d1)
    obtain threw d2 where b: "BroadcastStateToWeb env t d1 = (threw, d2)" by fastforce
    have "same_match (ld_match d2) m0 = same_match (ld_match d1) m0" "ld_lastAutoRevision d2 = ld_lastAutoRevision d1"
      using broadcast_same [of env t d1] by (simp_all add: b)
    then show ?thesis using Finished by (cases threw) (simp_all add: OnKeyMappingTeamSync_def assms b)
  qed (simp_all add: OnKeyMappingTeamSync_def assms)
  then show "same_match (ld_match (snd (OnKeyMappingTeamSync env t payload d))) m0 =
      same_match (ld_match (dialog_after (handle_lan_message env message d))) m0"
    "ld_lastAutoRevision (snd (OnKeyMappingTeamSync env t payload d)) = ld_lastAutoRevision (dialog_after (handle_lan_message env message d))"
    by simp_all
qed

text \<open>Property C9. Only a newer push to a client that receives automatically, or a proposal to a server that lets clients write, changes the seats, the scores or the display of the match; whatever else arrives from the network, malformed or not, leaves them alone.\<close>

theorem only_authorised_messages_change_match:
  assumes "\<not> same_match (ld_match (snd (OnKeyMappingTeamSync env t payload d))) (ld_match d)"
  shows "\<exists>message. me_parse env (DnfJsonUtf8 (me_to_utf8 env) payload) = Some message \<and>
    (receives_push env message d \<or> accepts_proposal message d)"
proof (cases "me_parse env (DnfJsonUtf8 (me_to_utf8 env) payload)")
  case None
  then show ?thesis using assms by (simp add: OnKeyMappingTeamSync_def)
next
  case (Some message)
  then show ?thesis using assms unwanted_message_same [of env message d] handler_same(1) [OF Some] by blast
qed

subsection \<open>A push from match to match\<close>

text \<open>A client that waits for pushes, and the text of a push of the match \<open>m0\<close> as its window receives it.\<close>

definition awaits_push :: "u64 \<Rightarrow> lan_dialog \<Rightarrow> bool" where
  "awaits_push revision d \<longleftrightarrow> ld_autoReceive d \<and> ld_role d = Client \<and> ss_connected (GetStatusSnapshot (ld_lan d)) \<and>
     ss_teamSyncPushSupported (GetStatusSnapshot (ld_lan d)) \<and> ss_teamSyncSubscribed (GetStatusSnapshot (ld_lan d)) \<and>
     revision > ld_lastAutoRevision d"

definition is_push_of :: "match_env \<Rightarrow> u64 \<Rightarrow> match \<Rightarrow> wstr \<Rightarrow> bool" where
  "is_push_of env revision m0 payload \<longleftrightarrow>
     (\<exists>sub. me_dump env (lan_push_json revision sub (reread (team_snapshot env m0))) = Some (DnfJsonUtf8 (me_to_utf8 env) payload))"

lemma push_handled:
  assumes "prints_back env" "syncable env m0" "is_push_of env revision m0 payload" "awaits_push revision d" "\<not> mt_preferLocalAliases (ld_match d)"
  obtains message snap m' where "me_parse env (DnfJsonUtf8 (me_to_utf8 env) payload) = Some message"
    "me_dump env (team_snapshot env m0) = Some snap" "same_match m' m0" "mt_recentEvents m' = mt_recentEvents (ld_match d)" "mt_historyReady m' = mt_historyReady (ld_match d)"
    "handle_lan_message env message d = Finished ((on_lan (SetRemoteTeamSyncSnapshot snap revision) d)
       \<lparr>ld_match := m', ld_lastAutoRevision := revision, ld_lastAutoResult := AppliedRevision revision\<rparr>)"
proof -
  let ?ts = "reread (team_snapshot env m0)"
  obtain sub where sub: "me_dump env (lan_push_json revision sub ?ts) = Some (DnfJsonUtf8 (me_to_utf8 env) payload)"
    using assms(3) by (auto simp: is_push_of_def)
  let ?j = "lan_push_json revision sub ?ts"
  have "proper ?j" using team_proper [of env m0] by (simp add: lan_push_json_def proper_reread)
  then have parse: "me_parse env (DnfJsonUtf8 (me_to_utf8 env) payload) = Some (reread ?j)"
    by (rule prints_backD(2) [OF assms(1) _ sub])
  have reads: "value_text ''type'' (reread ?j) = Some (ascii ''team_sync_push'')"
    "value_word (lan_env_of env) ''revision'' (reread ?j) = Some revision" "message_snapshot (reread ?j) = Some ?ts"
    by (simp_all add: push_reads message_snapshot_def jvalue_def) (simp add: lan_push_json_def make_object_def)
  obtain snap where snap: "me_dump env (team_snapshot env m0) = Some snap" using assms(2) by (auto simp: syncable_def split: option.splits)
  obtain b where v: "ValidateTeamSyncSnapshot env ?ts = Valid b"
    using syncable_validates [OF assms(2)] validate_reread [OF assms(1) team_proper] by metis
  obtain m' where m': "ApplyTeamSyncSnapshot env auto_mode ?ts (ld_match d) = (Applied, m')" "same_match m' m0"
      "mt_recentEvents m' = mt_recentEvents (ld_match d)" "mt_historyReady m' = mt_historyReady (ld_match d)"
    using auto_restores [OF assms(2,5)] by (auto simp: apply_reread [OF assms(1) team_proper])
  have d: "me_dump env ?ts = Some snap" using snap prints_backD(1) [OF assms(1) team_proper] by simp
  have "revision \<noteq> 0" using assms(4) by (auto simp: awaits_push_def)
  then have "on_push env (reread ?j) d = Finished ((on_lan (SetRemoteTeamSyncSnapshot snap revision) d)
       \<lparr>ld_match := m', ld_lastAutoRevision := revision, ld_lastAutoResult := AppliedRevision revision\<rparr>)"
    unfolding on_push_def Let_def reads(2,3) using assms(4) v d m'(1) by (simp add: awaits_push_def not_le)
  moreover have "handle_lan_message env (reread ?j) d = on_push env (reread ?j) d"
    unfolding handle_lan_message_def reads(1) by simp
  ultimately show thesis using that [OF parse snap m'(2,3,4)] by simp
qed

lemma push_gives_match:
  assumes "prints_back env" "syncable env m0" "is_push_of env revision m0 payload" "awaits_push revision d" "\<not> mt_preferLocalAliases (ld_match d)"
  shows "same_match (ld_match (snd (OnKeyMappingTeamSync env t payload d))) m0 \<and>
    ld_lastAutoRevision (snd (OnKeyMappingTeamSync env t payload d)) = revision"
proof -
  obtain message snap m' where h: "me_parse env (DnfJsonUtf8 (me_to_utf8 env) payload) = Some message" "same_match m' m0"
    "handle_lan_message env message d = Finished ((on_lan (SetRemoteTeamSyncSnapshot snap revision) d)
       \<lparr>ld_match := m', ld_lastAutoRevision := revision, ld_lastAutoResult := AppliedRevision revision\<rparr>)"
    by (rule push_handled [OF assms])
  show ?thesis using handler_same [OF h(1)] h(2) by (simp add: h(3))
qed

text \<open>Property C8. A push of the server's match, as the server thread words it, gives a client that receives automatically the seats, the counters, the scores and the display of the server, whatever its own match was.\<close>

theorem push_brings_match:
  assumes "prints_back env" "syncable env m0" "is_push_of env revision m0 payload" "awaits_push revision d" "\<not> mt_preferLocalAliases (ld_match d)"
  shows "same_match (ld_match (snd (OnKeyMappingTeamSync env t payload d))) m0 \<and>
    ld_lastAutoRevision (snd (OnKeyMappingTeamSync env t payload d)) = revision"
  by (rule push_gives_match [OF assms])

subsection \<open>An applied push counts as a change\<close>

lemma record_events [simp]: "mt_recentEvents (snd (RecordMatchHistoryTransition env t a b l s m)) = mt_recentEvents m"
  by (simp add: RecordMatchHistoryTransition_def next_id_def clear_pending_def trim_history_def Let_def split_def split: option.splits)

lemma clear_pending_events [simp]: "mt_recentEvents (clear_pending m) = mt_recentEvents m"
  by (simp add: clear_pending_def)

lemma observe_events [simp]: "mt_recentEvents (snd (ObserveMatchHistoryState env t m)) = mt_recentEvents m"
  using record_events [of env t "mt_observedSnapshot m"]
  by (auto simp: ObserveMatchHistoryState_def Let_def split: option.splits prod.splits) (metis record_events snd_conv)+

lemma observe_team_snapshot: "team_snapshot env (snd (ObserveMatchHistoryState env' t m)) = team_snapshot env m"
  by (rule same_match_snapshot) simp_all

definition published :: "match_env \<Rightarrow> match \<Rightarrow> bytes" where
  "published env m = (case BuildTeamSyncSnapshotPayloadUnlocked env m of Some p \<Rightarrow> p | None \<Rightarrow> [])"

lemma broadcast_publishes:
  assumes "BroadcastStateToWeb env t d = (threw, d')"
  shows "ld_lan d' = (if threw then ld_lan d else SetTeamSyncSnapshot (published env (ld_match d)) (ld_lan d))"
    "team_snapshot env (ld_match d') = team_snapshot env (ld_match d)"
proof -
  obtain b m where obs: "ObserveMatchHistoryState env t (ld_match d) = (b, m)" by fastforce
  have m: "team_snapshot env m = team_snapshot env (ld_match d)" using observe_team_snapshot [of env env t "ld_match d"] by (simp add: obs)
  then have "published env m = published env (ld_match d)" by (simp add: published_def BuildTeamSyncSnapshotPayloadUnlocked_def)
  then show "ld_lan d' = (if threw then ld_lan d else SetTeamSyncSnapshot (published env (ld_match d)) (ld_lan d))"
    "team_snapshot env (ld_match d') = team_snapshot env (ld_match d)"
    using assms m by (cases b; auto simp: BroadcastStateToWeb_def obs published_def)+
qed

lemma malformed_publishes:
  assumes "malformed env t d = (False, d')"
  shows "ld_lan d' = SetTeamSyncSnapshot (published env (ld_match d)) (ld_lan d)"
proof -
  have "team_snapshot env (m\<lparr>mt_syncPending := a, mt_syncBaseline := b\<rparr>) = team_snapshot env m" for a b m
    by (rule team_snapshot_cong) simp_all
  then have "published env (ld_match (void_pending d)) = published env (ld_match d)"
    by (simp add: set_pending_def published_def BuildTeamSyncSnapshotPayloadUnlocked_def)
  then show ?thesis using broadcast_publishes(1) [OF assms [unfolded malformed_def]] by simp
qed

lemma finished_publishes:
  assumes "me_parse env (DnfJsonUtf8 (me_to_utf8 env) payload) = Some message" "handle_lan_message env message d = Finished d1"
    "OnKeyMappingTeamSync env t payload d = (False, d')"
  shows "ld_lan d' = SetTeamSyncSnapshot (published env (ld_match d1)) (ld_lan d1)"
proof -
  obtain threw d2 where b: "BroadcastStateToWeb env t d1 = (threw, d2)" by fastforce
  note p = broadcast_publishes [OF b]
  show ?thesis
  proof (cases threw)
    case True
    then have "malformed env t d2 = (False, d')" using assms by (simp add: OnKeyMappingTeamSync_def b)
    then have "ld_lan d' = SetTeamSyncSnapshot (published env (ld_match d2)) (ld_lan d2)" by (rule malformed_publishes)
    then show ?thesis using True p by (simp add: published_def BuildTeamSyncSnapshotPayloadUnlocked_def)
  next
    case False
    then show ?thesis using assms p(1) by (simp add: OnKeyMappingTeamSync_def b)
  qed
qed

definition event_rows :: "match_env \<Rightarrow> match \<Rightarrow> json" where
  "event_rows env m = reread (JArr (map (recent_json env) (take 10 (rev (mt_recentEvents m)))))"

lemma event_rows_find: "json_find (ascii ''recentEvents'') (reread (team_snapshot env m)) = Some (event_rows env m)"
  by (simp add: team_snapshot_def team_fields_def event_rows_def)

lemma other_rows_other_payload:
  assumes "prints_back env" "event_rows env m \<noteq> event_rows env m0" "me_dump env (team_snapshot env m0) = Some snap" "snap \<noteq> []"
  shows "published env m \<noteq> snap"
proof
  assume p: "published env m = snap"
  then have "me_dump env (team_snapshot env m) = Some snap"
    using assms(4) by (auto simp: published_def BuildTeamSyncSnapshotPayloadUnlocked_def split: option.splits)
  then have "reread (team_snapshot env m) = reread (team_snapshot env m0)"
    using prints_backD(2) [OF assms(1) team_proper] assms(3) by (metis option.inject)
  then show False using assms(2) event_rows_find [of env] by (metis option.inject)
qed


subsection \<open>Examples\<close>

text \<open>A printer that knows one match and a push of it, and a client that waits for it.\<close>

definition blank_push :: json where "blank_push = lan_push_json 3 1 (reread (team_snapshot demo_env blank_match))"

definition net_env :: match_env where
  "net_env = demo_env\<lparr>
     me_dump := (\<lambda>j. if reread j = reread (team_snapshot demo_env blank_match) then Some [1]
       else if reread j = reread blank_push then Some [2] else None),
     me_parse := (\<lambda>s. if s = [1] then Some (reread (team_snapshot demo_env blank_match))
       else if s = [2] then Some (reread blank_push) else None)\<rparr>"

lemma net_env_prints: "prints_back net_env"
  by (simp add: prints_back_def prints_back_with_def net_env_def)

lemma net_env_snapshot [simp]: "team_snapshot net_env m = team_snapshot demo_env m"
proof -
  have "jtext net_env s = jtext demo_env s" for s by (simp add: jtext_def net_env_def demo_env_def)
  then have "seat_json net_env = seat_json demo_env" "recent_json net_env = recent_json demo_env"
    by (simp_all add: seat_json_def recent_json_def fun_eq_iff)
  then show ?thesis unfolding team_snapshot_def team_fields_def by simp
qed

lemma net_env_syncable: "syncable net_env blank_match"
proof -
  have "line_ok net_env = line_ok sync_env" "utf8_length net_env = utf8_length sync_env" "me_space net_env = me_space sync_env"
    by (simp_all add: fun_eq_iff line_ok_def clean_line_def jtext_def utf8_length_def net_env_def sync_env_def demo_env_def)
  then have s: "seat_syncable net_env = seat_syncable sync_env" "seat_bytes net_env = seat_bytes sync_env"
    unfolding seat_syncable_def [abs_def] seat_bytes_def [abs_def] by simp_all
  have "me_dump net_env (team_snapshot demo_env blank_match) = Some [1]" by (simp add: net_env_def)
  then show ?thesis using blank_syncable(1) by (simp add: syncable_def s)
qed

lemma net_env_push: "is_push_of net_env 3 blank_match [2]"
proof -
  have "json_find (ascii ''type'') (reread blank_push) \<noteq> None" by (simp add: blank_push_def lan_push_json_def)
  moreover have "json_find (ascii ''type'') (reread (team_snapshot demo_env blank_match)) = None"
    by (simp add: team_snapshot_def team_fields_def)
  ultimately have "reread blank_push \<noteq> reread (team_snapshot demo_env blank_match)" by metis
  then have "me_dump net_env blank_push = Some [2]" by (simp add: net_env_def)
  moreover have "DnfJsonUtf8 (me_to_utf8 net_env) [2] = [2]" by (simp add: DnfJsonUtf8_def net_env_def demo_env_def)
  ultimately show ?thesis unfolding is_push_of_def net_env_snapshot blank_push_def by metis
qed

definition waiting_dialog :: lan_dialog where
  "waiting_dialog =
     \<lparr>ld_match = blank_after\<lparr>mt_historyReady := False, mt_recentEvents := [new_event 0]\<rparr>,
      ld_lan = subscribed_lan\<lparr>ln_status := connected_status\<lparr>ss_teamSyncSubscribed := True\<rparr>\<rparr>, ld_role = Client, ld_autoReceive = True,
      ld_allowClientWrite = False, ld_autoSend = True, ld_lastAutoRevision = 0, ld_lastAutoResult = NoResult, ld_wasConnected = True,
      ld_enabled = True, ld_hookInstalled = True, ld_adminRequired = False, ld_slots = [], ld_localMask = 0, ld_activeMask = 0,
      ld_lastServerId = [], ld_lastStatus = [], ld_web = []\<rparr>"

lemma waiting_simps:
  "awaits_push 3 waiting_dialog" "\<not> mt_preferLocalAliases (ld_match waiting_dialog)" "\<not> mt_historyReady (ld_match waiting_dialog)"
  "mt_totalScoreRed (ld_match waiting_dialog) = 1" "mt_recentEvents (ld_match waiting_dialog) = [new_event 0]"
  by (simp_all add: waiting_dialog_def awaits_push_def GetStatusSnapshot_def connected_status_def blank_after_def blank_match_def demo_match_def)

theorem push_brings_match_witness:
  "same_match (ld_match (snd (OnKeyMappingTeamSync net_env [] [2] waiting_dialog))) blank_match"
  by (rule push_brings_match [OF net_env_prints net_env_syncable net_env_push waiting_simps(1,2), THEN conjunct1])

theorem only_authorised_messages_change_match_witness:
  "\<exists>message. me_parse net_env (DnfJsonUtf8 (me_to_utf8 net_env) [2]) = Some message \<and>
    (receives_push net_env message waiting_dialog \<or> accepts_proposal message waiting_dialog)"
proof (rule only_authorised_messages_change_match [where t = "[]"])
  have "mt_totalScoreRed blank_match = 0" by (simp add: blank_match_def demo_match_def)
  then have "\<not> same_match blank_match (ld_match waiting_dialog)" by (simp add: same_match_def waiting_simps)
  then show "\<not> same_match (ld_match (snd (OnKeyMappingTeamSync net_env [] [2] waiting_dialog))) (ld_match waiting_dialog)"
    using push_gives_match [OF net_env_prints net_env_syncable net_env_push waiting_simps(1,2), of "[]"] by (simp add: same_match_def)
qed

lemma quiet_history_finishes:
  assumes "prints_back env" "syncable env m0" "is_push_of env revision m0 payload" "awaits_push revision d" "\<not> mt_preferLocalAliases (ld_match d)"
    "\<not> mt_historyReady (ld_match d)"
  shows "fst (OnKeyMappingTeamSync env t payload d) = False"
proof -
  obtain message snap m' where h: "me_parse env (DnfJsonUtf8 (me_to_utf8 env) payload) = Some message"
    "mt_historyReady m' = mt_historyReady (ld_match d)"
    "handle_lan_message env message d = Finished ((on_lan (SetRemoteTeamSyncSnapshot snap revision) d)
       \<lparr>ld_match := m', ld_lastAutoRevision := revision, ld_lastAutoResult := AppliedRevision revision\<rparr>)"
    by (rule push_handled [OF assms(1-5)])
  then show ?thesis using assms(6) by (simp add: OnKeyMappingTeamSync_def BroadcastStateToWeb_def ObserveMatchHistoryState_def)
qed


end
